(* ===== verification/Prelude.thy ===== *)
theory Prelude
  imports Main "HOL-Library.Char_ord" "HOL-Library.List_Lexorder" "HOL-Library.Product_Lexorder"
begin

text \<open>
  Generic material shared by every component: Rust's \<open>Result\<close> as a sum with its
  combinators, machine-integer ranges, the character classes and the decimal printing and
  parsing of the Rust standard library, and the lemma collections the components extend.
\<close>

named_theorems res_simps \<open>evaluation of the Result combinators\<close>
named_theorems res_dests \<open>elimination of successful results\<close>

subsection \<open>Rust results\<close>

text \<open>
  \<open>Inl e\<close> is \<open>Err(e)\<close> and \<open>Inr v\<close> is \<open>Ok(v)\<close>. \<open>rbind\<close> is the
  question-mark operator, \<open>rmap\<close> is \<open>Result::map\<close>, \<open>traverse\<close> is \<open>map\<close>
  followed by \<open>collect\<close> into a \<open>Result\<close> (it stops at the first error), \<open>rfold\<close> is a
  \<open>for\<close> loop whose body may return early with an error.
\<close>

definition rbind :: "'e + 'a \<Rightarrow> ('a \<Rightarrow> 'e + 'b) \<Rightarrow> 'e + 'b" where
  "rbind r f = (case r of Inl e \<Rightarrow> Inl e | Inr v \<Rightarrow> f v)"

definition rmap :: "('a \<Rightarrow> 'b) \<Rightarrow> 'e + 'a \<Rightarrow> 'e + 'b" where
  "rmap f r = (case r of Inl e \<Rightarrow> Inl e | Inr v \<Rightarrow> Inr (f v))"

definition ok_or :: "'e \<Rightarrow> 'a option \<Rightarrow> 'e + 'a" where
  "ok_or e x = (case x of None \<Rightarrow> Inl e | Some v \<Rightarrow> Inr v)"

fun traverse :: "('a \<Rightarrow> 'e + 'b) \<Rightarrow> 'a list \<Rightarrow> 'e + 'b list" where
  "traverse f [] = Inr []"
| "traverse f (x # xs) = rbind (f x) (\<lambda>y. rbind (traverse f xs) (\<lambda>ys. Inr (y # ys)))"

fun rfold :: "('s \<Rightarrow> 'a \<Rightarrow> 'e + 's) \<Rightarrow> 's \<Rightarrow> 'a list \<Rightarrow> 'e + 's" where
  "rfold f s [] = Inr s"
| "rfold f s (x # xs) = rbind (f s x) (\<lambda>s'. rfold f s' xs)"

definition is_ok :: "'e + 'a \<Rightarrow> bool" where
  "is_ok r = (case r of Inl _ \<Rightarrow> False | Inr _ \<Rightarrow> True)"

lemma rbind_simps [simp, res_simps]:
  "rbind (Inl e) f = Inl e" "rbind (Inr v) f = f v"
  by (simp_all add: rbind_def)

lemma rmap_simps [simp, res_simps]:
  "rmap g (Inl e) = Inl e" "rmap g (Inr v) = Inr (g v)"
  by (simp_all add: rmap_def)

lemma ok_or_simps [simp, res_simps]:
  "ok_or e None = Inl e" "ok_or e (Some v) = Inr v"
  by (simp_all add: ok_or_def)

lemma is_ok_simps [simp]: "\<not> is_ok (Inl e)" "is_ok (Inr v)"
  by (simp_all add: is_ok_def)

lemma is_ok_iff: "is_ok r \<longleftrightarrow> (\<exists>v. r = Inr v)"
  by (cases r) simp_all

lemma rbind_cong [fundef_cong]:
  "r = r' \<Longrightarrow> (\<And>v. r' = Inr v \<Longrightarrow> f v = f' v) \<Longrightarrow> rbind r f = rbind r' f'"
  by (cases r') auto

lemma rbind_Inr_iff: "rbind r f = Inr b \<longleftrightarrow> (\<exists>a. r = Inr a \<and> f a = Inr b)"
  by (cases r) auto

lemma rbind_Inl_iff: "rbind r f = Inl e \<longleftrightarrow> r = Inl e \<or> (\<exists>a. r = Inr a \<and> f a = Inl e)"
  by (cases r) auto

lemma rmap_Inr_iff: "rmap g r = Inr b \<longleftrightarrow> (\<exists>a. r = Inr a \<and> b = g a)"
  by (cases r) auto

lemma rmap_Inl_iff: "rmap g r = Inl e \<longleftrightarrow> r = Inl e"
  by (cases r) auto

lemma ok_or_Inr_iff: "ok_or e x = Inr v \<longleftrightarrow> x = Some v"
  by (cases x) auto

lemma ok_or_Inl_iff: "ok_or e x = Inl e' \<longleftrightarrow> x = None \<and> e' = e"
  by (cases x) auto

lemmas res_iffs = rbind_Inr_iff rbind_Inl_iff rmap_Inr_iff rmap_Inl_iff ok_or_Inr_iff ok_or_Inl_iff

lemma rbind_assoc: "rbind (rbind r f) g = rbind r (\<lambda>v. rbind (f v) g)"
  by (cases r) simp_all

lemma traverse_cong [fundef_cong]:
  "xs = ys \<Longrightarrow> (\<And>y. y \<in> set ys \<Longrightarrow> f y = g y) \<Longrightarrow> traverse f xs = traverse g ys"
proof (induction xs arbitrary: ys)
  case Nil
  then show ?case by simp
next
  case (Cons x xs)
  from Cons.prems(1) have ys: "ys = x # xs" by simp
  have "traverse f xs = traverse g xs"
    by (rule Cons.IH) (use Cons.prems(2) ys in auto)
  moreover have "f x = g x"
    using Cons.prems(2) ys by simp
  ultimately show ?case using ys by simp
qed

lemma rfold_cong [fundef_cong]:
  "s = t \<Longrightarrow> xs = ys \<Longrightarrow> (\<And>u y. y \<in> set ys \<Longrightarrow> f u y = g u y) \<Longrightarrow> rfold f s xs = rfold g t ys"
proof (induction xs arbitrary: s t ys)
  case Nil
  then show ?case by simp
next
  case (Cons x xs)
  from Cons.prems have [simp]: "ys = x # xs" "t = s" by simp_all
  have "rfold f u xs = rfold g u xs" for u
    by (rule Cons.IH) (use Cons.prems(3) in auto)
  then show ?case
    using Cons.prems(3) by (auto intro!: rbind_cong)
qed

lemma traverse_Inr_iff:
  "traverse f xs = Inr ys \<longleftrightarrow> list_all2 (\<lambda>x y. f x = Inr y) xs ys"
  by (induction xs arbitrary: ys) (auto simp: rbind_Inr_iff list_all2_Cons1)

lemma traverse_length: "traverse f xs = Inr ys \<Longrightarrow> length ys = length xs"
  by (auto simp: traverse_Inr_iff dest: list_all2_lengthD)

lemma traverse_nth:
  "traverse f xs = Inr ys \<Longrightarrow> i < length xs \<Longrightarrow> f (xs ! i) = Inr (ys ! i)"
  by (auto simp: traverse_Inr_iff list_all2_conv_all_nth)

lemma traverse_set:
  "traverse f xs = Inr ys \<Longrightarrow> y \<in> set ys \<Longrightarrow> \<exists>x\<in>set xs. f x = Inr y"
  by (auto simp: traverse_Inr_iff list_all2_conv_all_nth in_set_conv_nth) (metis nth_mem)

lemma traverse_all_ok:
  "(\<And>x. x \<in> set xs \<Longrightarrow> f x = Inr (g x)) \<Longrightarrow> traverse f xs = Inr (map g xs)"
  by (induction xs) auto

lemma traverse_ex_ok:
  "(\<And>x. x \<in> set xs \<Longrightarrow> \<exists>y. f x = Inr y) \<Longrightarrow> \<exists>ys. traverse f xs = Inr ys"
  by (induction xs) (auto, metis rbind_simps(2))

lemma traverse_append:
  "traverse f (xs @ ys) = rbind (traverse f xs) (\<lambda>as. rbind (traverse f ys) (\<lambda>bs. Inr (as @ bs)))"
  by (induction xs) (auto simp: rbind_def split: sum.splits)

lemma rfold_append: "rfold f s (xs @ ys) = rbind (rfold f s xs) (\<lambda>s'. rfold f s' ys)"
  by (induction xs arbitrary: s) (simp_all add: rbind_assoc)

lemma rfold_invariant:
  assumes "rfold f s xs = Inr s'" and "P s"
    and "\<And>u v x. P u \<Longrightarrow> x \<in> set xs \<Longrightarrow> f u x = Inr v \<Longrightarrow> P v"
  shows "P s'"
  using assms
proof (induction xs arbitrary: s)
  case Nil
  then show ?case by simp
next
  case (Cons x xs)
  from Cons.prems(1) obtain u where u: "f s x = Inr u" "rfold f u xs = Inr s'"
    by (auto simp: rbind_Inr_iff)
  have "P u" by (rule Cons.prems(3) [OF Cons.prems(2) _ u(1)]) simp
  show ?case
  proof (rule Cons.IH [OF u(2) \<open>P u\<close>])
    fix v w y
    assume "P v" "y \<in> set xs" "f v y = Inr w"
    then show "P w" by (intro Cons.prems(3) [of v y w]) simp_all
  qed
qed

subsection \<open>Machine integer ranges\<close>

text \<open>
  Counts and extents are mathematical numbers with their Rust range written out where a
  range check decides a branch: \<open>u64\<close> and \<open>usize\<close> (64 bits on the supported
  targets) as \<open>nat\<close>, \<open>i64\<close> and \<open>i128\<close> as \<open>int\<close>.
\<close>

definition u64_max :: nat where "u64_max = 18446744073709551615"
definition i64_max :: int where "i64_max = 9223372036854775807"
definition i64_min :: int where "i64_min = - 9223372036854775808"
definition i128_max :: int where "i128_max = 170141183460469231731687303715884105727"
definition i128_min :: int where "i128_min = - 170141183460469231731687303715884105728"

definition in_u64 :: "nat \<Rightarrow> bool" where "in_u64 n \<longleftrightarrow> n \<le> u64_max"
definition in_i64 :: "int \<Rightarrow> bool" where "in_i64 i \<longleftrightarrow> i64_min \<le> i \<and> i \<le> i64_max"
definition in_i128 :: "int \<Rightarrow> bool" where "in_i128 i \<longleftrightarrow> i128_min \<le> i \<and> i \<le> i128_max"

lemmas range_defs = u64_max_def i64_max_def i64_min_def i128_max_def i128_min_def
  in_u64_def in_i64_def in_i128_def

text \<open>\<open>saturating_add\<close> and \<open>checked_mul\<close> of \<open>u64\<close>.\<close>

definition u64_saturating_add :: "nat \<Rightarrow> nat \<Rightarrow> nat" where
  "u64_saturating_add a b = min (a + b) u64_max"

definition u64_checked_mul :: "nat \<Rightarrow> nat \<Rightarrow> nat option" where
  "u64_checked_mul a b = (if a * b \<le> u64_max then Some (a * b) else None)"

end
