(* ===== verification/Rust_Strings.thy ===== *)
theory Rust_Strings
  imports Prelude
begin

text \<open>
  The string operations of the Rust standard library that the code uses. A Rust string is a
  HOL \<open>string\<close> whose characters are the code points 0 to 255 (the ASCII and Latin-1 part of
  Unicode); the Rust order of strings (by UTF-8 bytes) is the order by code point, which is
  the lexicographic order of \<open>HOL-Library.List_Lexorder\<close> and \<open>HOL-Library.Char_ord\<close>.
\<close>

subsection \<open>Character classes\<close>

definition char_code :: "char \<Rightarrow> nat" where
  "char_code c = of_char c"

definition is_ascii_digit :: "char \<Rightarrow> bool" where
  "is_ascii_digit c \<longleftrightarrow> 48 \<le> char_code c \<and> char_code c \<le> 57"

definition is_ascii_alphabetic :: "char \<Rightarrow> bool" where
  "is_ascii_alphabetic c \<longleftrightarrow>
     65 \<le> char_code c \<and> char_code c \<le> 90 \<or> 97 \<le> char_code c \<and> char_code c \<le> 122"

definition is_ascii_alphanumeric :: "char \<Rightarrow> bool" where
  "is_ascii_alphanumeric c \<longleftrightarrow> is_ascii_alphabetic c \<or> is_ascii_digit c"

text \<open>\<open>char::is_whitespace\<close>: the Unicode White\_Space property below 256.\<close>

definition is_whitespace :: "char \<Rightarrow> bool" where
  "is_whitespace c \<longleftrightarrow>
     9 \<le> char_code c \<and> char_code c \<le> 13 \<or> char_code c = 32 \<or> char_code c = 133 \<or> char_code c = 160"

definition is_word_char :: "char \<Rightarrow> bool" where
  "is_word_char c \<longleftrightarrow> is_ascii_alphanumeric c \<or> c = CHR ''_''"

definition is_word_start :: "char \<Rightarrow> bool" where
  "is_word_start c \<longleftrightarrow> is_ascii_alphabetic c \<or> c = CHR ''_''"

lemmas char_class_defs = is_word_char_def is_word_start_def is_ascii_alphanumeric_def
  is_ascii_alphabetic_def is_ascii_digit_def is_whitespace_def char_code_def

lemma word_start_word: "is_word_start c \<Longrightarrow> is_word_char c"
  by (auto simp: is_word_char_def is_word_start_def is_ascii_alphanumeric_def)

lemma word_char_not_space: "is_word_char c \<Longrightarrow> \<not> is_whitespace c"
  by (auto simp: char_class_defs)

lemma digit_not_space: "is_ascii_digit c \<Longrightarrow> \<not> is_whitespace c"
  by (auto simp: char_class_defs)

lemma word_start_not_digit: "is_word_start c \<Longrightarrow> \<not> is_ascii_digit c"
  by (auto simp: char_class_defs)

lemma special_not_word:
  "\<not> is_word_char (CHR ''*'')" "\<not> is_word_char (CHR ''+'')" "\<not> is_word_char (CHR ''-'')"
  "\<not> is_word_char (CHR '','')" "\<not> is_word_char (CHR ''$'')" "\<not> is_word_char (CHR ''['')"
  "\<not> is_word_char (CHR '']'')" "\<not> is_word_char (CHR ''>'')"
  by (simp_all add: char_class_defs)

lemma special_not_digit:
  "\<not> is_ascii_digit (CHR ''*'')" "\<not> is_ascii_digit (CHR ''+'')" "\<not> is_ascii_digit (CHR ''-'')"
  "\<not> is_ascii_digit (CHR '','')" "\<not> is_ascii_digit (CHR ''$'')" "\<not> is_ascii_digit (CHR ''['')"
  "\<not> is_ascii_digit (CHR '']'')" "\<not> is_ascii_digit (CHR ''>'')"
  by (simp_all add: char_class_defs)

lemma special_not_space:
  "\<not> is_whitespace (CHR ''*'')" "\<not> is_whitespace (CHR ''+'')" "\<not> is_whitespace (CHR ''-'')"
  "\<not> is_whitespace (CHR '','')" "\<not> is_whitespace (CHR ''['')" "\<not> is_whitespace (CHR '']'')"
  by (simp_all add: char_class_defs)

subsection \<open>Trimming, prefixes, splitting\<close>

definition trim_start :: "string \<Rightarrow> string" where
  "trim_start s = dropWhile is_whitespace s"

definition str_trim :: "string \<Rightarrow> string" where
  "str_trim s = rev (dropWhile is_whitespace (rev (trim_start s)))"

fun strip_prefix :: "string \<Rightarrow> string \<Rightarrow> string option" where
  "strip_prefix [] s = Some s"
| "strip_prefix (p # ps) [] = None"
| "strip_prefix (p # ps) (c # cs) = (if p = c then strip_prefix ps cs else None)"

definition strip_suffix :: "string \<Rightarrow> string \<Rightarrow> string option" where
  "strip_suffix p s = map_option rev (strip_prefix (rev p) (rev s))"

text \<open>\<open>str::find\<close> of a character, as the parts before and after its first occurrence.\<close>

fun split_once :: "char \<Rightarrow> string \<Rightarrow> (string \<times> string) option" where
  "split_once c [] = None"
| "split_once c (x # xs) =
     (if x = c then Some ([], xs)
      else map_option (\<lambda>(a, b). (x # a, b)) (split_once c xs))"

text \<open>\<open>str::split\<close> at a character: always at least one piece.\<close>

fun str_split :: "char \<Rightarrow> string \<Rightarrow> string list" where
  "str_split c [] = [[]]"
| "str_split c (x # xs) =
     (if x = c then [] # str_split c xs
      else (case str_split c xs of [] \<Rightarrow> [[x]] | p # ps \<Rightarrow> (x # p) # ps))"

fun str_join :: "string \<Rightarrow> string list \<Rightarrow> string" where
  "str_join sep [] = []"
| "str_join sep [x] = x"
| "str_join sep (x # y # ys) = x @ sep @ str_join sep (y # ys)"

lemma strip_prefix_append [simp]: "strip_prefix p (p @ s) = Some s"
  by (induction p) auto

lemma strip_prefix_Some: "strip_prefix p s = Some r \<longleftrightarrow> s = p @ r"
  by (induction p s rule: strip_prefix.induct) auto

lemma strip_suffix_append [simp]: "strip_suffix p (s @ p) = Some s"
  by (simp add: strip_suffix_def)

lemma strip_suffix_Some: "strip_suffix p s = Some r \<longleftrightarrow> s = r @ p"
  by (auto simp: strip_suffix_def strip_prefix_Some rev_swap)

lemma split_once_None: "split_once c s = None \<longleftrightarrow> c \<notin> set s"
  by (induction s) auto

lemma split_once_Some: "c \<notin> set a \<Longrightarrow> split_once c (a @ c # b) = Some (a, b)"
  by (induction a) auto

lemma str_split_nonempty: "str_split c s \<noteq> []"
  by (induction s) (auto split: list.splits)

lemma str_split_plain: "c \<notin> set s \<Longrightarrow> str_split c s = [s]"
  by (induction s) auto

lemma str_split_append: "c \<notin> set a \<Longrightarrow> str_split c (a @ c # b) = a # str_split c b"
  by (induction a) auto

lemma str_split_join:
  "xs \<noteq> [] \<Longrightarrow> (\<forall>x\<in>set xs. c \<notin> set x) \<Longrightarrow> str_split c (str_join [c] xs) = xs"
  by (induction "[c]" xs rule: str_join.induct) (auto simp: str_split_plain str_split_append)

lemma set_str_join: "set (str_join sep xs) \<subseteq> set sep \<union> (\<Union>x\<in>set xs. set x)"
  by (induction sep xs rule: str_join.induct) auto

lemma str_join_eq_Nil: "(\<forall>x\<in>set xs. x \<noteq> []) \<Longrightarrow> str_join sep xs = [] \<longleftrightarrow> xs = []"
  by (cases "(sep, xs)" rule: str_join.cases) auto

lemma str_trim_id:
  assumes "s = [] \<or> \<not> is_whitespace (hd s) \<and> \<not> is_whitespace (last s)"
  shows "str_trim s = s"
proof (cases "s = []")
  case True
  then show ?thesis by (simp add: str_trim_def trim_start_def)
next
  case False
  with assms have h: "\<not> is_whitespace (hd s)" and l: "\<not> is_whitespace (hd (rev s))"
    by (simp_all add: hd_rev)
  have "trim_start s = s"
    using False h by (cases s) (simp_all add: trim_start_def)
  moreover have "dropWhile is_whitespace (rev s) = rev s"
    using False l by (cases "rev s") simp_all
  ultimately show ?thesis by (simp add: str_trim_def)
qed

lemma str_trim_idem [simp]: "str_trim (str_trim s) = str_trim s"
proof (rule str_trim_id)
  let ?t = "dropWhile is_whitespace s"
  have hd: "?t \<noteq> [] \<Longrightarrow> \<not> is_whitespace (hd ?t)" by (rule hd_dropWhile) simp
  have "\<exists>u. ?t = rev (dropWhile is_whitespace (rev ?t)) @ u"
    by (metis rev_append rev_rev_ident takeWhile_dropWhile_id)
  then obtain u where u: "?t = str_trim s @ u" by (auto simp: str_trim_def trim_start_def)
  have "str_trim s = [] \<or> \<not> is_whitespace (hd (str_trim s))"
    using hd u by (cases "str_trim s") auto
  moreover have "str_trim s \<noteq> [] \<Longrightarrow> \<not> is_whitespace (last (str_trim s))"
    by (simp add: str_trim_def last_rev hd_dropWhile)
  ultimately show "str_trim s = [] \<or> \<not> is_whitespace (hd (str_trim s)) \<and> \<not> is_whitespace (last (str_trim s))"
    by blast
qed

lemma str_trim_no_space: "(\<forall>c\<in>set s. \<not> is_whitespace c) \<Longrightarrow> str_trim s = s"
  by (rule str_trim_id) (cases s; simp)

lemma filter_no_space: "(\<forall>c\<in>set s. \<not> is_whitespace c) \<Longrightarrow> filter (\<lambda>c. \<not> is_whitespace c) s = s"
  by (simp add: filter_id_conv)

subsection \<open>Decimal numbers\<close>

definition digit_char :: "nat \<Rightarrow> char" where
  "digit_char d = char_of (48 + d)"

definition digit_value :: "char \<Rightarrow> nat option" where
  "digit_value c = (if is_ascii_digit c then Some (char_code c - 48) else None)"

text \<open>\<open>Display\<close> of unsigned and signed integers.\<close>

fun show_nat :: "nat \<Rightarrow> string" where
  "show_nat n = (if n < 10 then [digit_char n] else show_nat (n div 10) @ [digit_char (n mod 10)])"

declare show_nat.simps [simp del]

definition show_int :: "int \<Rightarrow> string" where
  "show_int i = (if i < 0 then CHR ''-'' # show_nat (nat (- i)) else show_nat (nat i))"

text \<open>\<open>u64::from_str\<close> and \<open>i64::from_str\<close>: one optional sign, then digits, in range.\<close>

fun digits_value :: "nat \<Rightarrow> string \<Rightarrow> nat option" where
  "digits_value acc [] = Some acc"
| "digits_value acc (c # cs) =
     (case digit_value c of None \<Rightarrow> None | Some d \<Rightarrow> digits_value (10 * acc + d) cs)"

definition parse_digits :: "string \<Rightarrow> nat option" where
  "parse_digits s = (if s = [] then None else digits_value 0 s)"

definition parse_u64 :: "string \<Rightarrow> nat option" where
  "parse_u64 s =
     (case parse_digits (case strip_prefix ''+'' s of Some cs \<Rightarrow> cs | None \<Rightarrow> s) of
        None \<Rightarrow> None
      | Some n \<Rightarrow> if in_u64 n then Some n else None)"

definition parse_signed :: "string \<Rightarrow> int option" where
  "parse_signed s =
     (case strip_prefix ''-'' s of
        Some cs \<Rightarrow> map_option (\<lambda>n. - int n) (parse_digits cs)
      | None \<Rightarrow> map_option int
                  (parse_digits (case strip_prefix ''+'' s of Some cs \<Rightarrow> cs | None \<Rightarrow> s)))"

definition parse_i64 :: "string \<Rightarrow> int option" where
  "parse_i64 s =
     (case parse_signed s of None \<Rightarrow> None | Some i \<Rightarrow> if in_i64 i then Some i else None)"

lemma digit_char_code: "d < 10 \<Longrightarrow> char_code (digit_char d) = 48 + d"
  by (simp add: char_code_def digit_char_def)

lemma digit_char_digit: "d < 10 \<Longrightarrow> is_ascii_digit (digit_char d)"
  by (simp add: is_ascii_digit_def digit_char_code)

lemma digit_value_char: "d < 10 \<Longrightarrow> digit_value (digit_char d) = Some d"
  by (simp add: digit_value_def digit_char_digit digit_char_code)

lemma show_nat_digits: "\<forall>c\<in>set (show_nat n). is_ascii_digit c"
proof (induction n rule: show_nat.induct)
  case (1 n)
  then show ?case by (subst show_nat.simps) (auto simp: digit_char_digit)
qed

lemma show_nat_nonempty [simp]: "show_nat n \<noteq> []"
  by (subst show_nat.simps) simp

lemma digits_value_append:
  "digits_value a (xs @ ys) = (case digits_value a xs of None \<Rightarrow> None | Some b \<Rightarrow> digits_value b ys)"
  by (induction xs arbitrary: a) (auto split: option.splits)

lemma digits_value_show: "digits_value 0 (show_nat n) = Some n"
proof (induction n rule: show_nat.induct)
  case (1 n)
  then show ?case
    by (subst show_nat.simps) (auto simp: digits_value_append digit_value_char)
qed

lemma parse_digits_show: "parse_digits (show_nat n) = Some n"
  by (simp add: parse_digits_def digits_value_show)

lemma show_nat_hd: "is_ascii_digit (hd (show_nat n))"
  using show_nat_digits [of n] by (cases "show_nat n") auto

lemma show_nat_Cons: obtains d ds where "show_nat n = d # ds" "is_ascii_digit d"
  using show_nat_hd [of n] by (cases "show_nat n") auto

lemma strip_sign_show:
  "c = CHR ''+'' \<or> c = CHR ''-'' \<Longrightarrow> strip_prefix [c] (show_nat n) = None"
  by (rule show_nat_Cons [of n]) (auto simp: special_not_digit)

lemma parse_u64_show: "in_u64 n \<Longrightarrow> parse_u64 (show_nat n) = Some n"
  by (simp add: parse_u64_def strip_sign_show parse_digits_show)

lemma parse_i64_show: "in_i64 i \<Longrightarrow> parse_i64 (show_int i) = Some i"
  by (simp add: parse_i64_def parse_signed_def show_int_def strip_sign_show parse_digits_show)

lemma parse_i64_plus_show: "in_i64 i \<Longrightarrow> 0 \<le> i \<Longrightarrow> parse_i64 (CHR ''+'' # show_int i) = Some i"
  by (simp add: parse_i64_def parse_signed_def show_int_def parse_digits_show)

lemma parse_digits_nondigit: "\<not> is_ascii_digit c \<Longrightarrow> c \<in> set s \<Longrightarrow> parse_digits s = None"
proof -
  have "\<not> is_ascii_digit c \<Longrightarrow> c \<in> set s \<Longrightarrow> digits_value a s = None" for a
    by (induction s arbitrary: a) (auto simp: digit_value_def split: option.splits)
  then show "\<not> is_ascii_digit c \<Longrightarrow> c \<in> set s \<Longrightarrow> parse_digits s = None"
    by (auto simp: parse_digits_def)
qed

lemma show_int_chars: "c \<in> set (show_int i) \<Longrightarrow> c = CHR ''-'' \<or> is_ascii_digit c"
  using show_nat_digits by (auto simp: show_int_def split: if_splits)

lemma show_int_nonempty [simp]: "show_int i \<noteq> []"
  by (simp add: show_int_def)

lemma parse_u64_bad:
  "c \<in> set (drop 1 s) \<or> c \<in> set s \<and> c \<noteq> CHR ''+'' \<Longrightarrow> \<not> is_ascii_digit c \<Longrightarrow> parse_u64 s = None"
  by (cases s) (auto simp: parse_u64_def parse_digits_nondigit split: option.splits)

end
