(* ===== verification/Dim_Types.thy ===== *)
theory Dim_Types
  imports Rust_Strings
begin

text \<open>
  Scalar, tensor and symbolic shape types with their textual codec
  (\<open>agentir-core/src/types.rs\<close>). A shape is the list of its dimensions. The parsers return
  the source's error strings with their format arguments left out.
\<close>

subsection \<open>Scalars, dimensions, types\<close>

datatype scalar_type = Bool | I32 | F32 | Index

fun is_numeric :: "scalar_type \<Rightarrow> bool" where
  "is_numeric I32 = True"
| "is_numeric F32 = True"
| "is_numeric Index = True"
| "is_numeric Bool = False"

fun show_scalar :: "scalar_type \<Rightarrow> string" where
  "show_scalar Bool = ''bool''"
| "show_scalar I32 = ''i32''"
| "show_scalar F32 = ''f32''"
| "show_scalar Index = ''index''"

definition parse_scalar_type :: "string \<Rightarrow> string + scalar_type" where
  "parse_scalar_type value =
     (let v = str_trim value in
      if v = ''bool'' then Inr Bool
      else if v = ''i32'' then Inr I32
      else if v = ''f32'' then Inr F32
      else if v = ''index'' then Inr Index
      else Inl ''unsupported scalar type `{other}`'')"

datatype dim_expr =
    Static nat
  | Symbol string
  | Affine (coefficient: int) (affine_symbol: string) (affine_constant: int)

fun show_dim :: "dim_expr \<Rightarrow> string" where
  "show_dim (Static n) = show_nat n"
| "show_dim (Symbol s) = s"
| "show_dim (Affine c s k) =
     (if c = 1 then s else show_int c @ ''*'' @ s) @
     (if 0 < k then ''+'' @ show_int k else if k < 0 then show_int k else [])"

definition parse_dim :: "string \<Rightarrow> string + dim_expr" where
  "parse_dim value =
     (let compact0 = filter (\<lambda>c. \<not> is_whitespace c) value;
          compact = (case strip_prefix ''$'' compact0 of Some r \<Rightarrow> r | None \<Rightarrow> compact0) in
      if compact = [] then Inl ''dimension expression is empty''
      else (case parse_u64 compact of
        Some n \<Rightarrow> Inr (Static n)
      | None \<Rightarrow>
          rbind (case split_once (CHR ''*'') compact of
                   Some (front, rest) \<Rightarrow>
                     (case parse_i64 front of
                        None \<Rightarrow> Inl ''invalid affine coefficient in `{compact}`''
                      | Some c \<Rightarrow> Inr (c, rest))
                 | None \<Rightarrow> Inr (1, compact))
            (\<lambda>(c, rest).
               let symbol = takeWhile is_word_char rest;
                   tail = dropWhile is_word_char rest in
               if symbol = [] \<or> \<not> is_word_start (hd symbol)
               then Inl ''invalid symbolic dimension `{compact}`''
               else rbind (if tail = [] then Inr 0
                           else (case parse_i64 tail of
                                   None \<Rightarrow> Inl ''invalid affine constant in `{compact}`''
                                 | Some k \<Rightarrow> Inr k))
                 (\<lambda>k. Inr (if c = 1 \<and> k = 0 then Symbol symbol else Affine c symbol k)))))"

type_synonym shape = "dim_expr list"

definition show_shape :: "shape \<Rightarrow> string" where
  "show_shape sh = ''['' @ str_join '','' (map show_dim sh) @ '']''"

definition parse_shape :: "string \<Rightarrow> string + shape" where
  "parse_shape value =
     (case Option.bind (strip_prefix ''['' (str_trim value)) (strip_suffix '']'') of
        None \<Rightarrow> Inl ''shape must be bracketed: `{value}`''
      | Some inner \<Rightarrow>
          if str_trim inner = [] then Inr []
          else traverse parse_dim (str_split (CHR '','') inner))"

datatype ty = Scalar scalar_type | Tensor scalar_type shape

fun element_type :: "ty \<Rightarrow> scalar_type" where
  "element_type (Scalar s) = s"
| "element_type (Tensor e sh) = e"

fun ty_shape :: "ty \<Rightarrow> shape option" where
  "ty_shape (Scalar s) = None"
| "ty_shape (Tensor e sh) = Some sh"

fun with_element_type :: "ty \<Rightarrow> scalar_type \<Rightarrow> ty" where
  "with_element_type (Scalar s) e = Scalar e"
| "with_element_type (Tensor e' sh) e = Tensor e sh"

fun show_type :: "ty \<Rightarrow> string" where
  "show_type (Scalar s) = show_scalar s"
| "show_type (Tensor e sh) = ''tensor<'' @ show_scalar e @ '','' @ show_shape sh @ ''>''"

definition parse_type :: "string \<Rightarrow> string + ty" where
  "parse_type value0 =
     (let value = str_trim value0 in
      case Option.bind (strip_prefix ''tensor<'' value) (strip_suffix ''>'') of
        Some inner \<Rightarrow>
          (case split_once (CHR '','') inner of
             None \<Rightarrow> Inl ''tensor type needs element and shape: `{value}`''
           | Some (front, rest) \<Rightarrow>
               rbind (parse_scalar_type front)
                 (\<lambda>e. rbind (parse_shape rest) (\<lambda>sh. Inr (Tensor e sh))))
      | None \<Rightarrow> rmap Scalar (parse_scalar_type value))"

datatype fma_policy = FmaForbidden | FmaAllowed | FmaRequired

datatype determinism = DetRequired | DetNotRequired

record numeric_contract =
  fma :: fma_policy
  reassociation :: bool
  determinism :: determinism

definition default_numeric_contract :: numeric_contract where
  "default_numeric_contract = \<lparr>fma = FmaAllowed, reassociation = False, determinism = DetRequired\<rparr>"

subsection \<open>The derived orders\<close>

text \<open>
  Rust derives \<open>Ord\<close> variant by variant and then field by field. Each order is the
  lexicographic order of a key, which is injective.
\<close>

fun scalar_key :: "scalar_type \<Rightarrow> nat" where
  "scalar_key Bool = 0" | "scalar_key I32 = 1" | "scalar_key F32 = 2" | "scalar_key Index = 3"

fun dim_key :: "dim_expr \<Rightarrow> nat \<times> int \<times> string \<times> int" where
  "dim_key (Static n) = (0, int n, [], 0)"
| "dim_key (Symbol s) = (1, 0, s, 0)"
| "dim_key (Affine c s k) = (2, c, s, k)"

lemma scalar_key_inject [simp]: "scalar_key a = scalar_key b \<longleftrightarrow> a = b"
  by (cases a; cases b) simp_all

lemma dim_key_inject [simp]: "dim_key a = dim_key b \<longleftrightarrow> a = b"
  by (cases a; cases b) auto

instantiation scalar_type :: linorder
begin
definition less_eq_scalar_type :: "scalar_type \<Rightarrow> scalar_type \<Rightarrow> bool" where
  "less_eq_scalar_type a b \<longleftrightarrow> scalar_key a \<le> scalar_key b"
definition less_scalar_type :: "scalar_type \<Rightarrow> scalar_type \<Rightarrow> bool" where
  "less_scalar_type a b \<longleftrightarrow> scalar_key a < scalar_key b"
instance
  by standard (auto simp: less_eq_scalar_type_def less_scalar_type_def)
end

instantiation dim_expr :: linorder
begin
definition less_eq_dim_expr :: "dim_expr \<Rightarrow> dim_expr \<Rightarrow> bool" where
  "less_eq_dim_expr a b \<longleftrightarrow> dim_key a \<le> dim_key b"
definition less_dim_expr :: "dim_expr \<Rightarrow> dim_expr \<Rightarrow> bool" where
  "less_dim_expr a b \<longleftrightarrow> dim_key a < dim_key b"
instance
proof
  fix a b c :: dim_expr
  show "(a < b) = (a \<le> b \<and> \<not> b \<le> a)"
    by (simp add: less_eq_dim_expr_def less_dim_expr_def less_le_not_le)
  show "a \<le> a" by (simp add: less_eq_dim_expr_def)
  show "a \<le> b \<Longrightarrow> b \<le> c \<Longrightarrow> a \<le> c"
    unfolding less_eq_dim_expr_def by (rule order_trans)
  show "a \<le> b \<Longrightarrow> b \<le> a \<Longrightarrow> a = b"
    unfolding less_eq_dim_expr_def using dim_key_inject by (metis order_antisym)
  show "a \<le> b \<or> b \<le> a"
    unfolding less_eq_dim_expr_def by (rule linear)
qed
end

subsection \<open>Meaning of dimensions\<close>

text \<open>
  A valuation assigns every symbolic dimension its run-time extent. An affine expression is
  an integer and may be negative, in which case no tensor has that extent.
\<close>

type_synonym valuation = "string \<Rightarrow> nat"

fun eval_dim :: "valuation \<Rightarrow> dim_expr \<Rightarrow> int" where
  "eval_dim v (Static n) = int n"
| "eval_dim v (Symbol s) = int (v s)"
| "eval_dim v (Affine c s k) = c * int (v s) + k"

definition eval_shape :: "valuation \<Rightarrow> shape \<Rightarrow> int list" where
  "eval_shape v sh = map (eval_dim v) sh"

text \<open>Types denote an element type and, for tensors, the extents.\<close>

fun eval_type :: "valuation \<Rightarrow> ty \<Rightarrow> scalar_type \<times> int list option" where
  "eval_type v (Scalar s) = (s, None)"
| "eval_type v (Tensor e sh) = (e, Some (eval_shape v sh))"

lemma eval_shape_simps [simp]:
  "eval_shape v [] = []" "eval_shape v (d # sh) = eval_dim v d # eval_shape v sh"
  by (simp_all add: eval_shape_def)

lemma length_eval_shape [simp]: "length (eval_shape v sh) = length sh"
  by (simp add: eval_shape_def)

lemma eval_shape_length: "eval_shape v l = eval_shape v r \<Longrightarrow> length l = length r"
  by (metis length_eval_shape)

lemma element_with [simp]: "element_type (with_element_type t e) = e"
  by (cases t) simp_all

lemma ty_shape_with [simp]: "ty_shape (with_element_type t e) = ty_shape t"
  by (cases t) simp_all

subsection \<open>Codecs\<close>

text \<open>
  The contract of a textual codec: every value the parser produces is well formed, and
  printing a well-formed value and parsing it back gives the value.
\<close>

locale codec =
  fixes print :: "'a \<Rightarrow> string"
    and parse :: "string \<Rightarrow> string + 'a"
    and wf :: "'a \<Rightarrow> bool"
  assumes roundtrip: "wf x \<Longrightarrow> parse (print x) = Inr x"
    and parse_wf: "parse s = Inr x \<Longrightarrow> wf x"
begin

lemma reprint: "parse s = Inr x \<Longrightarrow> parse (print x) = Inr x"
  by (rule roundtrip) (rule parse_wf)

lemma print_inject: "wf x \<Longrightarrow> wf y \<Longrightarrow> print x = print y \<longleftrightarrow> x = y"
  using roundtrip by (metis sum.inject(2))

lemma wf_iff_parsed: "wf x \<longleftrightarrow> (\<exists>s. parse s = Inr x)"
  using roundtrip parse_wf by blast

lemma list_roundtrip: "(\<forall>x\<in>set xs. wf x) \<Longrightarrow> traverse parse (map print xs) = Inr xs"
  by (induction xs) (simp_all add: roundtrip)

lemma list_parse_wf: "traverse parse ss = Inr xs \<Longrightarrow> x \<in> set xs \<Longrightarrow> wf x"
  using parse_wf traverse_set by metis

end

subsection \<open>The codecs of the four kinds of text\<close>

definition valid_symbol :: "string \<Rightarrow> bool" where
  "valid_symbol s \<longleftrightarrow> s \<noteq> [] \<and> is_word_start (hd s) \<and> list_all is_word_char s"

text \<open>
  Well-formed dimensions: in the range of their fields, a valid symbol, and an affine
  expression that is not a plain symbol in disguise (the parser normalises \<open>1*N+0\<close>).
\<close>

fun dim_wf :: "dim_expr \<Rightarrow> bool" where
  "dim_wf (Static n) \<longleftrightarrow> in_u64 n"
| "dim_wf (Symbol s) \<longleftrightarrow> valid_symbol s"
| "dim_wf (Affine c s k) \<longleftrightarrow> in_i64 c \<and> valid_symbol s \<and> in_i64 k \<and> \<not> (c = 1 \<and> k = 0)"

definition shape_wf :: "shape \<Rightarrow> bool" where
  "shape_wf sh \<longleftrightarrow> list_all dim_wf sh"

fun ty_wf :: "ty \<Rightarrow> bool" where
  "ty_wf (Scalar s) \<longleftrightarrow> True"
| "ty_wf (Tensor e sh) \<longleftrightarrow> shape_wf sh"

end
