(* ===== verification/Shapes.thy ===== *)
theory Shapes
  imports Dim_Types
begin

text \<open>
  The compact shape solver without facts (\<open>agentir-core/src/shapes.rs\<close>): shape constraints,
  the normal form of a dimension and \<open>same_shape\<close>, with its soundness for every valuation.
  The locale \<open>shape_oracle\<close> states what the rest of the compiler relies on when it asks
  whether two shapes agree; the fact engine of \<open>Constraints\<close> is its other provider.
\<close>

subsection \<open>Constraints and verdicts\<close>

datatype solver_status = Proved | Contradiction | Unknown

datatype shape_constraint = Equal shape shape | NonNegative string

fun satisfies :: "valuation \<Rightarrow> shape_constraint \<Rightarrow> bool" where
  "satisfies v (Equal l r) \<longleftrightarrow> eval_shape v l = eval_shape v r"
| "satisfies v (NonNegative s) \<longleftrightarrow> 0 \<le> int (v s)"

fun constraint_key :: "shape_constraint \<Rightarrow> nat \<times> shape \<times> shape \<times> string" where
  "constraint_key (Equal l r) = (0, l, r, [])"
| "constraint_key (NonNegative s) = (1, [], [], s)"

lemma constraint_key_inject [simp]: "constraint_key a = constraint_key b \<longleftrightarrow> a = b"
  by (cases a; cases b) auto

instantiation shape_constraint :: linorder
begin
definition less_eq_shape_constraint :: "shape_constraint \<Rightarrow> shape_constraint \<Rightarrow> bool" where
  "less_eq_shape_constraint a b \<longleftrightarrow> constraint_key a \<le> constraint_key b"
definition less_shape_constraint :: "shape_constraint \<Rightarrow> shape_constraint \<Rightarrow> bool" where
  "less_shape_constraint a b \<longleftrightarrow> constraint_key a < constraint_key b"
instance
proof
  fix a b c :: shape_constraint
  show "(a < b) = (a \<le> b \<and> \<not> b \<le> a)"
    by (simp add: less_eq_shape_constraint_def less_shape_constraint_def less_le_not_le)
  show "a \<le> a" by (simp add: less_eq_shape_constraint_def)
  show "a \<le> b \<Longrightarrow> b \<le> c \<Longrightarrow> a \<le> c"
    unfolding less_eq_shape_constraint_def by (rule order_trans)
  show "a \<le> b \<Longrightarrow> b \<le> a \<Longrightarrow> a = b"
    unfolding less_eq_shape_constraint_def using constraint_key_inject by (metis order_antisym)
  show "a \<le> b \<or> b \<le> a"
    unfolding less_eq_shape_constraint_def by (rule linear)
qed
end

subsection \<open>The solver\<close>

definition i64_try_from_or_max :: "nat \<Rightarrow> int" where
  "i64_try_from_or_max n = (if int n \<le> i64_max then int n else i64_max)"

fun normalized :: "dim_expr \<Rightarrow> int \<times> string option \<times> int" where
  "normalized (Static n) = (0, None, i64_try_from_or_max n)"
| "normalized (Symbol s) = (1, Some s, 0)"
| "normalized (Affine c s k) = (c, Some s, k)"

definition both_static :: "dim_expr \<Rightarrow> dim_expr \<Rightarrow> bool" where
  "both_static l r = (case (l, r) of (Static _, Static _) \<Rightarrow> True | _ \<Rightarrow> False)"

text \<open>
  One iteration of the loop: \<open>Proved\<close> continues, \<open>Contradiction\<close> returns at once and
  \<open>Unknown\<close> continues with the status lowered.
\<close>

definition dim_verdict :: "dim_expr \<Rightarrow> dim_expr \<Rightarrow> solver_status" where
  "dim_verdict ld rd =
     (if ld = rd then Proved
      else if both_static ld rd then Contradiction
      else case (normalized ld, normalized rd) of
        ((lc, ls, lk), (rc, rs, rk)) \<Rightarrow>
          if (lc, ls, lk) = (rc, rs, rk) then Proved
          else case (ls, rs) of
            (None, None) \<Rightarrow> Contradiction
          | (Some a, Some b) \<Rightarrow> if a = b \<and> lc = rc then Contradiction else Unknown
          | _ \<Rightarrow> Unknown)"

fun same_dims :: "solver_status \<Rightarrow> (dim_expr \<times> dim_expr) list \<Rightarrow> solver_status" where
  "same_dims status [] = status"
| "same_dims status ((ld, rd) # ds) =
     (case dim_verdict ld rd of
        Proved \<Rightarrow> same_dims status ds
      | Contradiction \<Rightarrow> Contradiction
      | Unknown \<Rightarrow> same_dims Unknown ds)"

definition same_shape :: "shape \<Rightarrow> shape \<Rightarrow> solver_status" where
  "same_shape l r =
     (if length l \<noteq> length r then Contradiction else same_dims Proved (zip l r))"

subsection \<open>Soundness\<close>

lemma both_static_iff: "both_static l r \<longleftrightarrow> (\<exists>m n. l = Static m \<and> r = Static n)"
  by (cases l; cases r) (auto simp: both_static_def)

text \<open>The normal form determines the value of every dimension that is not static.\<close>

lemma normalized_eval:
  "normalized d = (c, Some s, k) \<Longrightarrow> eval_dim v d = c * int (v s) + k"
  by (cases d) auto

lemma normalized_None: "normalized d = (c, None, k) \<Longrightarrow> \<exists>n. d = Static n"
  by (cases d) auto

lemma normalized_equal:
  "normalized l = normalized r \<Longrightarrow> \<not> both_static l r \<Longrightarrow> eval_dim v l = eval_dim v r"
  by (cases l; cases r) (auto simp: both_static_def)

lemma dim_verdict_proved: "dim_verdict l r = Proved \<Longrightarrow> eval_dim v l = eval_dim v r"
  using normalized_equal [of l r v]
  by (auto simp: dim_verdict_def split: if_splits option.splits prod.splits)

lemma dim_verdict_contradiction: "dim_verdict l r = Contradiction \<Longrightarrow> eval_dim v l \<noteq> eval_dim v r"
  by (cases l; cases r) (auto simp: dim_verdict_def both_static_def split: if_splits)

lemma dim_verdict_refl [simp]: "dim_verdict d d = Proved"
  by (simp add: dim_verdict_def)

lemma dim_verdict_sym: "dim_verdict r l = dim_verdict l r"
  by (cases l; cases r) (auto simp: dim_verdict_def both_static_def)

lemma dim_verdict_static: "dim_verdict (Static m) (Static n) = (if m = n then Proved else Contradiction)"
  by (simp add: dim_verdict_def both_static_def)

lemma same_dims_iff:
  "same_dims s ds = Proved \<longleftrightarrow> s = Proved \<and> (\<forall>l r. (l, r) \<in> set ds \<longrightarrow> dim_verdict l r = Proved)"
  by (induction ds arbitrary: s) (auto split: solver_status.splits)

lemma same_dims_contra_iff:
  "s \<noteq> Contradiction \<Longrightarrow>
   same_dims s ds = Contradiction \<longleftrightarrow> (\<exists>l r. (l, r) \<in> set ds \<and> dim_verdict l r = Contradiction)"
proof (induction ds arbitrary: s)
  case (Cons p ds)
  show ?case
    using Cons.IH [of s] Cons.IH [of Unknown] Cons.prems
    by (cases p; cases "dim_verdict (fst p) (snd p)") auto
qed simp

lemma zip_swap_mem: "(l, r) \<in> set (zip xs ys) \<longleftrightarrow> (r, l) \<in> set (zip ys xs)"
  by (auto simp: set_zip)

lemma eval_shape_eq_iff:
  "length l = length r \<Longrightarrow>
   eval_shape v l = eval_shape v r \<longleftrightarrow> (\<forall>(a, b)\<in>set (zip l r). eval_dim v a = eval_dim v b)"
  by (induction l r rule: list_induct2) auto

lemma same_shape_proved: "same_shape l r = Proved \<Longrightarrow> eval_shape v l = eval_shape v r"
  by (auto simp: same_shape_def same_dims_iff eval_shape_eq_iff dim_verdict_proved split: if_splits)

lemma same_shape_contradiction: "same_shape l r = Contradiction \<Longrightarrow> eval_shape v l \<noteq> eval_shape v r"
  using dim_verdict_contradiction eval_shape_length [of v l r]
  by (fastforce simp: same_shape_def same_dims_contra_iff eval_shape_eq_iff split: if_splits)

lemma same_shape_refl: "same_shape s s = Proved"
  by (auto simp: same_shape_def same_dims_iff in_set_zip)

lemma solver_status_cases3:
  "(s = Proved \<longleftrightarrow> t = Proved) \<Longrightarrow> (s = Contradiction \<longleftrightarrow> t = Contradiction) \<Longrightarrow> s = t"
  by (cases s; cases t) simp_all

lemma same_shape_sym: "same_shape r l = same_shape l r"
proof (cases "length l = length r")
  case True
  have "same_dims Proved (zip r l) = same_dims Proved (zip l r)"
  proof (rule solver_status_cases3)
    show "same_dims Proved (zip r l) = Proved \<longleftrightarrow> same_dims Proved (zip l r) = Proved"
      unfolding same_dims_iff using zip_swap_mem dim_verdict_sym by metis
    have "Proved \<noteq> Contradiction" by simp
    note contra = same_dims_contra_iff [OF this]
    show "same_dims Proved (zip r l) = Contradiction \<longleftrightarrow> same_dims Proved (zip l r) = Contradiction"
      unfolding contra using zip_swap_mem dim_verdict_sym by metis
  qed
  with True show ?thesis by (simp add: same_shape_def)
qed (simp add: same_shape_def)

text \<open>On static shapes the solver decides.\<close>

lemma same_shape_static:
  "same_shape (map Static ms) (map Static ns) = (if ms = ns then Proved else Contradiction)"
proof (cases "length ms = length ns")
  case True
  then have "same_dims Proved (zip (map Static ms) (map Static ns)) = (if ms = ns then Proved else Contradiction)"
    by (induction ms ns rule: list_induct2) (auto simp: dim_verdict_static)
  with True show ?thesis by (simp add: same_shape_def)
qed (auto simp: same_shape_def)

subsection \<open>The interface of a shape oracle\<close>

text \<open>
  Type inference asks an oracle whether two shapes agree. Its contract is over the valuations
  that satisfy what the program has accepted: a proof holds in all of them, a contradiction in
  none. The solver above is an oracle for all valuations.
\<close>

locale shape_oracle =
  fixes query :: "shape \<Rightarrow> shape \<Rightarrow> solver_status"
    and admissible :: "valuation \<Rightarrow> bool"
  assumes proved: "query l r = Proved \<Longrightarrow> admissible v \<Longrightarrow> eval_shape v l = eval_shape v r"
    and contradiction: "query l r = Contradiction \<Longrightarrow> admissible v \<Longrightarrow> eval_shape v l \<noteq> eval_shape v r"
begin

text \<open>An oracle cannot prove a shape equal to one it refutes against a third.\<close>

lemma refutes_through:
  "query l m = Proved \<Longrightarrow> query m r = Contradiction \<Longrightarrow> admissible v \<Longrightarrow> eval_shape v l \<noteq> eval_shape v r"
  using proved contradiction by metis

lemma proved_chain:
  "query l m = Proved \<Longrightarrow> query m r = Proved \<Longrightarrow> admissible v \<Longrightarrow> query l r \<noteq> Contradiction"
  using proved contradiction by metis

lemma proved_rank: "query l r = Proved \<Longrightarrow> admissible v \<Longrightarrow> length l = length r"
  using proved eval_shape_length by blast

end

interpretation legacy_solver: shape_oracle same_shape "\<lambda>_. True"
  by unfold_locales (auto dest: same_shape_proved same_shape_contradiction)

end
