(* ===== verification/Type_Codecs.thy ===== *)
theory Type_Codecs
  imports Dim_Types
begin

text \<open>
  The textual codec of scalars, dimensions, shapes and types: each printer and parser of
  \<open>types.rs\<close> is a \<open>codec\<close>, and each codec is built from the ones below it.
\<close>

subsection \<open>Scalars\<close>

lemma show_scalar_no_space: "\<forall>c\<in>set (show_scalar s). \<not> is_whitespace c"
  by (cases s) (simp_all add: char_class_defs)

interpretation scalar_codec: codec show_scalar parse_scalar_type "\<lambda>_. True"
proof
  fix s :: scalar_type
  show "parse_scalar_type (show_scalar s) = Inr s"
    by (cases s) (simp_all add: parse_scalar_type_def str_trim_no_space char_class_defs)
qed simp

subsection \<open>Dimensions\<close>

text \<open>The characters a printed dimension is made of.\<close>

definition dim_char :: "char \<Rightarrow> bool" where
  "dim_char c \<longleftrightarrow> is_word_char c \<or> c \<in> set ''*+-''"

lemma digit_dim_char: "is_ascii_digit c \<Longrightarrow> dim_char c"
  by (auto simp: dim_char_def is_word_char_def is_ascii_alphanumeric_def)

lemma dim_char_not_space: "dim_char c \<Longrightarrow> \<not> is_whitespace c"
  by (auto simp: dim_char_def word_char_not_space special_not_space)

lemma dim_char_special:
  "\<not> dim_char (CHR ''$'')" "\<not> dim_char (CHR '','')" "\<not> dim_char (CHR ''['')" "\<not> dim_char (CHR '']'')"
  by (auto simp: dim_char_def special_not_word)

lemma show_int_dim_char: "c \<in> set (show_int i) \<Longrightarrow> dim_char c"
  using show_int_chars digit_dim_char by (fastforce simp: dim_char_def)

lemma valid_symbol_chars: "valid_symbol s \<Longrightarrow> c \<in> set s \<Longrightarrow> dim_char c"
  by (auto simp: valid_symbol_def list_all_iff dim_char_def)

lemma dim_char_operators: "dim_char (CHR ''*'')" "dim_char (CHR ''+'')" "dim_char (CHR ''-'')"
  by (simp_all add: dim_char_def)

lemma show_nat_dim_char: "c \<in> set (show_nat n) \<Longrightarrow> dim_char c"
  using show_nat_digits digit_dim_char by blast

lemma show_dim_chars: "dim_wf d \<Longrightarrow> c \<in> set (show_dim d) \<Longrightarrow> dim_char c"
  by (cases d)
     (auto simp: dim_char_operators dest: show_int_dim_char valid_symbol_chars show_nat_dim_char
           split: if_splits)

lemma show_dim_nonempty: "dim_wf d \<Longrightarrow> show_dim d \<noteq> []"
  by (cases d) (auto simp: valid_symbol_def)

lemma show_dim_no_space: "dim_wf d \<Longrightarrow> \<forall>c\<in>set (show_dim d). \<not> is_whitespace c"
  using show_dim_chars dim_char_not_space by blast

lemma show_dim_no_dollar: "dim_wf d \<Longrightarrow> strip_prefix ''$'' (show_dim d) = None"
  using show_dim_chars [of d "CHR ''$''"] dim_char_special
  by (cases "show_dim d") auto

lemma valid_symbol_take:
  assumes "valid_symbol s" "t = [] \<or> \<not> is_word_char (hd t)"
  shows "takeWhile is_word_char (s @ t) = s" "dropWhile is_word_char (s @ t) = t"
proof -
  have *: "takeWhile is_word_char t = [] \<and> dropWhile is_word_char t = t"
    using assms(2) by (cases t) auto
  have "\<forall>c\<in>set s. is_word_char c"
    using assms(1) by (simp add: valid_symbol_def list_all_iff)
  with * show "takeWhile is_word_char (s @ t) = s" "dropWhile is_word_char (s @ t) = t"
    by (simp_all add: takeWhile_append2 dropWhile_append2)
qed

lemma valid_symbol_no_star: "valid_symbol s \<Longrightarrow> CHR ''*'' \<notin> set s"
  using special_not_word by (auto simp: valid_symbol_def list_all_iff)

lemma valid_symbol_not_u64: "valid_symbol s \<Longrightarrow> parse_u64 (p @ s @ t) = None"
proof -
  assume v: "valid_symbol s"
  then have "is_word_start (hd s)" "hd s \<in> set s" by (auto simp: valid_symbol_def)
  then have "\<not> is_ascii_digit (hd s)" "hd s \<noteq> CHR ''+''" "hd s \<in> set (p @ s @ t)"
    by (auto simp: word_start_not_digit dest: word_start_word) (auto simp: special_not_word dest: word_start_word)
  then show ?thesis by (intro parse_u64_bad) auto
qed

lemma valid_symbol_start: "valid_symbol s \<Longrightarrow> s \<noteq> [] \<and> is_word_start (hd s)"
  by (simp add: valid_symbol_def)

text \<open>The printed constant of an affine dimension, and what the parser reads from it.\<close>

definition show_offset :: "int \<Rightarrow> string" where
  "show_offset k = (if 0 < k then ''+'' @ show_int k else if k < 0 then show_int k else [])"

lemma show_offset_hd: "show_offset k = [] \<or> \<not> is_word_char (hd (show_offset k))"
  by (auto simp: show_offset_def show_int_def special_not_word)

lemma show_offset_Nil: "show_offset k = [] \<longleftrightarrow> k = 0"
  by (auto simp: show_offset_def)

lemma parse_offset: "in_i64 k \<Longrightarrow> k \<noteq> 0 \<Longrightarrow> parse_i64 (show_offset k) = Some k"
  by (auto simp: show_offset_def parse_i64_show parse_i64_plus_show)

lemma show_int_no_star: "CHR ''*'' \<notin> set (show_int i)"
  using show_int_chars [of "CHR ''*''" i] special_not_digit by auto

lemma show_offset_no_star: "CHR ''*'' \<notin> set (show_offset k)"
  by (simp add: show_offset_def show_int_no_star)

lemma parse_dim_static: "in_u64 n \<Longrightarrow> parse_dim (show_dim (Static n)) = Inr (Static n)"
proof -
  assume n: "in_u64 n"
  then have wf: "dim_wf (Static n)" by simp
  show ?thesis
    using n show_dim_no_dollar [OF wf] show_dim_no_space [OF wf]
    by (simp add: parse_dim_def filter_no_space parse_u64_show)
qed

lemma parse_dim_affine:
  assumes s: "valid_symbol s" and c: "in_i64 c" and k: "in_i64 k"
    and str: "str = (if c = 1 then s else show_int c @ ''*'' @ s) @ show_offset k"
    and clean: "\<forall>x\<in>set str. \<not> is_whitespace x" "strip_prefix ''$'' str = None"
  shows "parse_dim str = Inr (if c = 1 \<and> k = 0 then Symbol s else Affine c s k)"
proof -
  have no_num: "parse_u64 str = None"
    using valid_symbol_not_u64 [OF s, of "[]" "show_offset k"]
      valid_symbol_not_u64 [OF s, of "show_int c @ ''*''" "show_offset k"] str by simp
  have ne: "str \<noteq> []" using s str by (auto simp: valid_symbol_def)
  have star: "(case split_once (CHR ''*'') str of
        Some (front, rest) \<Rightarrow> (case parse_i64 front of None \<Rightarrow> Inl e | Some c \<Rightarrow> Inr (c, rest))
      | None \<Rightarrow> Inr (1, str)) = Inr (c, s @ show_offset k)" for e :: string
  proof (cases "c = 1")
    case True
    have "split_once (CHR ''*'') str = None"
      using True str valid_symbol_no_star [OF s] show_offset_no_star
      by (simp add: split_once_None)
    then show ?thesis using True str by simp
  next
    case False
    have "split_once (CHR ''*'') str = Some (show_int c, s @ show_offset k)"
      using False str split_once_Some [OF show_int_no_star, of c "s @ show_offset k"] by simp
    then show ?thesis using parse_i64_show [OF c] by simp
  qed
  show ?thesis
    using no_num ne star valid_symbol_take [OF s show_offset_hd] valid_symbol_start [OF s]
      parse_offset [OF k] show_offset_Nil [of k] filter_no_space [OF clean(1)] clean(2)
    by (simp add: parse_dim_def)
qed

lemma parse_dim_show: "dim_wf d \<Longrightarrow> parse_dim (show_dim d) = Inr d"
proof -
  assume wf: "dim_wf d"
  note clean = show_dim_no_space [OF wf] show_dim_no_dollar [OF wf]
  show ?thesis
  proof (cases d)
    case (Static n)
    with wf show ?thesis using parse_dim_static by simp
  next
    case (Symbol s)
    with wf parse_dim_affine [of s 1 0 "show_dim d"] clean show ?thesis
      by (simp add: show_offset_def range_defs)
  next
    case (Affine c s k)
    with wf parse_dim_affine [of s c k "show_dim d"] clean show ?thesis
      by (auto simp: show_offset_def)
  qed
qed

lemma parse_u64_range: "parse_u64 s = Some n \<Longrightarrow> in_u64 n"
  by (auto simp: parse_u64_def split: option.splits if_splits)

lemma parse_i64_range: "parse_i64 s = Some i \<Longrightarrow> in_i64 i"
  by (auto simp: parse_i64_def split: option.splits if_splits)

lemma takeWhile_valid_symbol:
  "takeWhile is_word_char r \<noteq> [] \<Longrightarrow> is_word_start (hd (takeWhile is_word_char r)) \<Longrightarrow>
   valid_symbol (takeWhile is_word_char r)"
  by (auto simp: valid_symbol_def list_all_iff dest: set_takeWhileD)

lemma parse_dim_wf: "parse_dim s = Inr d \<Longrightarrow> dim_wf d"
proof -
  have one: "in_i64 1" "in_i64 0" by (simp_all add: range_defs)
  show "parse_dim s = Inr d \<Longrightarrow> dim_wf d"
    unfolding parse_dim_def Let_def
    by (auto simp: rbind_Inr_iff one takeWhile_valid_symbol
        split: if_splits option.splits prod.splits
        dest!: parse_u64_range parse_i64_range)
qed

interpretation dim_codec: codec show_dim parse_dim dim_wf
  by unfold_locales (auto intro: parse_dim_show parse_dim_wf)

subsection \<open>Shapes and types\<close>

lemma show_dims_plain:
  assumes "shape_wf sh" "c \<in> set (str_join '','' (map show_dim sh))"
  shows "dim_char c \<or> c = CHR '',''"
proof -
  from assms(2) have "c = CHR '','' \<or> (\<exists>d\<in>set sh. c \<in> set (show_dim d))"
    using set_str_join [of "'',''" "map show_dim sh"] by auto
  then show ?thesis
    using assms(1) show_dim_chars by (auto simp: shape_wf_def list_all_iff)
qed

lemma show_dims_no_space:
  "shape_wf sh \<Longrightarrow> \<forall>c\<in>set (str_join '','' (map show_dim sh)). \<not> is_whitespace c"
  using show_dims_plain dim_char_not_space special_not_space(4) by blast

lemma show_dims_empty: "shape_wf sh \<Longrightarrow> str_join '','' (map show_dim sh) = [] \<longleftrightarrow> sh = []"
  using show_dim_nonempty
  by (subst str_join_eq_Nil) (auto simp: shape_wf_def list_all_iff)

lemma split_show_dims:
  "shape_wf sh \<Longrightarrow> sh \<noteq> [] \<Longrightarrow>
   str_split (CHR '','') (str_join '','' (map show_dim sh)) = map show_dim sh"
  using show_dim_chars dim_char_special(2)
  by (intro str_split_join) (auto simp: shape_wf_def list_all_iff)

lemma parse_shape_show: "shape_wf sh \<Longrightarrow> parse_shape (show_shape sh) = Inr sh"
proof -
  assume wf: "shape_wf sh"
  let ?inner = "str_join '','' (map show_dim sh)"
  have "\<forall>c\<in>set (show_shape sh). \<not> is_whitespace c"
    using show_dims_no_space [OF wf] special_not_space by (auto simp: show_shape_def)
  then have trim: "str_trim (show_shape sh) = ''['' @ ?inner @ '']''"
    by (simp add: str_trim_no_space show_shape_def)
  have inner: "Option.bind (strip_prefix ''['' (str_trim (show_shape sh))) (strip_suffix '']'') = Some ?inner"
    unfolding trim strip_prefix_append by simp
  have trim_inner: "str_trim ?inner = ?inner"
    by (rule str_trim_no_space) (rule show_dims_no_space [OF wf])
  have "traverse parse_dim (map show_dim sh) = Inr sh"
    using wf by (intro dim_codec.list_roundtrip) (simp add: shape_wf_def list_all_iff)
  with inner trim_inner show_dims_empty [OF wf] split_show_dims [OF wf] show ?thesis
    by (auto simp: parse_shape_def)
qed

lemma parse_shape_wf: "parse_shape s = Inr sh \<Longrightarrow> shape_wf sh"
  using dim_codec.list_parse_wf
  by (auto simp: parse_shape_def shape_wf_def list_all_iff split: option.splits if_splits)

interpretation shape_codec: codec show_shape parse_shape shape_wf
  by unfold_locales (auto intro: parse_shape_show parse_shape_wf)

lemma show_scalar_no_comma: "CHR '','' \<notin> set (show_scalar e)"
  by (cases e) simp_all

lemma show_scalar_not_tensor: "strip_prefix ''tensor<'' (show_scalar e) = None"
  by (cases e) simp_all

lemma parse_type_tensor:
  assumes "shape_wf sh"
  shows "parse_type (show_type (Tensor e sh)) = Inr (Tensor e sh)"
proof -
  let ?body = "show_scalar e @ '','' @ show_shape sh"
  have "str_trim (show_type (Tensor e sh)) = show_type (Tensor e sh)"
    by (rule str_trim_id) (simp add: char_class_defs)
  then have inner: "Option.bind (strip_prefix ''tensor<'' (str_trim (show_type (Tensor e sh))))
      (strip_suffix ''>'') = Some ?body"
    using strip_prefix_append [of "''tensor<''" "?body @ ''>''"] strip_suffix_append [of "''>''" ?body]
    by simp
  have "split_once (CHR '','') ?body = Some (show_scalar e, show_shape sh)"
    using split_once_Some [OF show_scalar_no_comma, of e "show_shape sh"] by simp
  with inner show ?thesis
    using scalar_codec.roundtrip [OF TrueI, of e] shape_codec.roundtrip [OF assms]
    by (simp add: parse_type_def)
qed

lemma parse_type_scalar: "parse_type (show_type (Scalar e)) = Inr (Scalar e)"
  using scalar_codec.roundtrip [OF TrueI, of e]
  by (simp add: parse_type_def str_trim_no_space show_scalar_no_space show_scalar_not_tensor)

lemma parse_type_show: "ty_wf t \<Longrightarrow> parse_type (show_type t) = Inr t"
  using parse_type_scalar parse_type_tensor by (cases t) auto

lemma parse_type_wf: "parse_type s = Inr t \<Longrightarrow> ty_wf t"
  by (auto simp: parse_type_def Let_def res_iffs dest: parse_shape_wf
      split: option.splits if_splits prod.splits)

interpretation type_codec: codec show_type parse_type ty_wf
  by unfold_locales (auto intro: parse_type_show parse_type_wf)

end
