(* ===== verification/Ordered_Map.thy ===== *)
theory Ordered_Map
  imports Prelude
begin

text \<open>
  \<open>BTreeMap\<close> and \<open>BTreeSet\<close> of the Rust standard library, as association lists and lists
  in ascending key order, so that iteration has the order the code relies on. The laws the
  components use are the locale \<open>ordered_map\<close>, interpreted here on the sorted lists.
\<close>

subsection \<open>Maps\<close>

type_synonym ('k, 'v) bmap = "('k \<times> 'v) list"

definition bmap_get :: "('k, 'v) bmap \<Rightarrow> 'k \<Rightarrow> 'v option" where
  "bmap_get m k = map_of m k"

fun bmap_insert :: "'k::linorder \<Rightarrow> 'v \<Rightarrow> ('k, 'v) bmap \<Rightarrow> ('k, 'v) bmap" where
  "bmap_insert k v [] = [(k, v)]"
| "bmap_insert k v ((k', v') # m) =
     (if k < k' then (k, v) # (k', v') # m
      else if k = k' then (k, v) # m
      else (k', v') # bmap_insert k v m)"

definition bmap_remove :: "'k \<Rightarrow> ('k, 'v) bmap \<Rightarrow> ('k, 'v) bmap" where
  "bmap_remove k m = filter (\<lambda>(k', _). k' \<noteq> k) m"

definition bmap_keys :: "('k, 'v) bmap \<Rightarrow> 'k list" where
  "bmap_keys m = map fst m"

definition bmap_values :: "('k, 'v) bmap \<Rightarrow> 'v list" where
  "bmap_values m = map snd m"

definition bmap_contains :: "('k, 'v) bmap \<Rightarrow> 'k \<Rightarrow> bool" where
  "bmap_contains m k \<longleftrightarrow> bmap_get m k \<noteq> None"

definition bmap_map :: "('k \<Rightarrow> 'v \<Rightarrow> 'w) \<Rightarrow> ('k, 'v) bmap \<Rightarrow> ('k, 'w) bmap" where
  "bmap_map f m = map (\<lambda>(k, v). (k, f k v)) m"

definition bmap_ok :: "('k::linorder, 'v) bmap \<Rightarrow> bool" where
  "bmap_ok m \<longleftrightarrow> sorted_wrt (<) (bmap_keys m)"

text \<open>Building a map by inserting the elements of an iterator in order.\<close>

definition bmap_of_list :: "('k::linorder \<times> 'v) list \<Rightarrow> ('k, 'v) bmap" where
  "bmap_of_list kvs = fold (\<lambda>(k, v). bmap_insert k v) kvs []"

lemma bmap_get_empty [simp]: "bmap_get [] k = None"
  by (simp add: bmap_get_def)

lemma bmap_get_insert [simp]:
  "bmap_get (bmap_insert k v m) k' = (if k' = k then Some v else bmap_get m k')"
  by (induction m) (auto simp: bmap_get_def)

lemma bmap_get_remove [simp]:
  "bmap_get (bmap_remove k m) k' = (if k' = k then None else bmap_get m k')"
  by (induction m) (auto simp: bmap_get_def bmap_remove_def)

lemma bmap_get_map [simp]: "bmap_get (bmap_map f m) k = map_option (f k) (bmap_get m k)"
  by (induction m) (auto simp: bmap_get_def bmap_map_def)

lemma bmap_contains_simps [simp]:
  "\<not> bmap_contains [] k"
  "bmap_contains (bmap_insert k v m) k' \<longleftrightarrow> k' = k \<or> bmap_contains m k'"
  "bmap_contains (bmap_remove k m) k' \<longleftrightarrow> k' \<noteq> k \<and> bmap_contains m k'"
  "bmap_contains (bmap_map f m) k' \<longleftrightarrow> bmap_contains m k'"
  by (simp_all add: bmap_contains_def)

lemma bmap_containsI: "bmap_get m k = Some v \<Longrightarrow> bmap_contains m k"
  by (simp add: bmap_contains_def)

lemma bmap_containsE: "bmap_contains m k \<Longrightarrow> (\<And>v. bmap_get m k = Some v \<Longrightarrow> thesis) \<Longrightarrow> thesis"
  by (auto simp: bmap_contains_def)

lemma bmap_keys_set: "k \<in> set (bmap_keys m) \<longleftrightarrow> bmap_contains m k"
  by (auto simp: bmap_keys_def bmap_contains_def bmap_get_def map_of_eq_None_iff)

lemma bmap_keys_insert: "set (bmap_keys (bmap_insert k v m)) = insert k (set (bmap_keys m))"
  by (auto simp: bmap_keys_set)

lemma bmap_keys_map [simp]: "bmap_keys (bmap_map f m) = bmap_keys m"
  by (induction m) (auto simp: bmap_keys_def bmap_map_def)

lemma bmap_ok_empty [simp]: "bmap_ok []"
  by (simp add: bmap_ok_def bmap_keys_def)

lemma bmap_ok_insert [simp]: "bmap_ok m \<Longrightarrow> bmap_ok (bmap_insert k v m)"
proof (induction m rule: bmap_insert.induct)
  case (1 k v)
  then show ?case by (simp add: bmap_ok_def bmap_keys_def)
next
  case (2 k v k' v' m)
  have "set (map fst (bmap_insert k v m)) = insert k (set (map fst m))"
    using bmap_keys_insert [of k v m] by (simp add: bmap_keys_def)
  with 2 show ?case by (auto simp: bmap_ok_def bmap_keys_def)
qed

lemma bmap_ok_remove [simp]: "bmap_ok m \<Longrightarrow> bmap_ok (bmap_remove k m)"
proof -
  have "map fst (filter (\<lambda>(k', _). k' \<noteq> k) m) = filter (\<lambda>k'. k' \<noteq> k) (map fst m)"
    by (induction m) auto
  then show "bmap_ok m \<Longrightarrow> bmap_ok (bmap_remove k m)"
    by (simp add: bmap_ok_def bmap_keys_def bmap_remove_def sorted_wrt_filter)
qed

lemma bmap_ok_map [simp]: "bmap_ok (bmap_map f m) \<longleftrightarrow> bmap_ok m"
  by (simp add: bmap_ok_def)

lemma bmap_ok_distinct: "bmap_ok m \<Longrightarrow> distinct (bmap_keys m)"
  by (auto simp: bmap_ok_def strict_sorted_iff)

lemma bmap_get_mem: "bmap_get m k = Some v \<Longrightarrow> (k, v) \<in> set m"
  by (simp add: bmap_get_def map_of_SomeD)

lemma bmap_mem_get: "bmap_ok m \<Longrightarrow> (k, v) \<in> set m \<Longrightarrow> bmap_get m k = Some v"
  using bmap_ok_distinct [of m] by (simp add: bmap_get_def bmap_keys_def map_of_is_SomeI)

lemma bmap_values_set:
  assumes "bmap_ok m"
  shows "v \<in> set (bmap_values m) \<longleftrightarrow> (\<exists>k. bmap_get m k = Some v)"
proof
  assume "v \<in> set (bmap_values m)"
  then obtain k where "(k, v) \<in> set m" by (auto simp: bmap_values_def)
  then show "\<exists>k. bmap_get m k = Some v" using bmap_mem_get [OF assms] by blast
next
  assume "\<exists>k. bmap_get m k = Some v"
  then obtain k where "(k, v) \<in> set m" using bmap_get_mem by fast
  then show "v \<in> set (bmap_values m)" by (force simp: bmap_values_def)
qed

text \<open>Two maps with the same lookups are equal: the sorted list is canonical.\<close>

lemma bmap_canonical:
  assumes "bmap_ok m" "bmap_ok n" "\<And>k. bmap_get m k = bmap_get n k"
  shows "m = n"
proof -
  have "set (bmap_keys m) = set (bmap_keys n)"
    using assms(3) by (auto simp: bmap_keys_set bmap_contains_def)
  then have keys: "bmap_keys m = bmap_keys n"
    using assms(1,2) by (auto simp: bmap_ok_def strict_sorted_iff intro: sorted_distinct_set_unique)
  have entries: "m = map (\<lambda>k. (k, the (bmap_get m k))) (bmap_keys m)" if "bmap_ok m" for m :: "('a, 'b) bmap"
  proof (rule nth_equalityI)
    fix i assume i: "i < length m"
    then have "bmap_get m (fst (m ! i)) = Some (snd (m ! i))"
      using that by (intro bmap_mem_get) simp_all
    with i show "m ! i = map (\<lambda>k. (k, the (bmap_get m k))) (bmap_keys m) ! i"
      by (simp add: bmap_keys_def prod_eq_iff)
  qed (simp add: bmap_keys_def)
  have "m = map (\<lambda>k. (k, the (bmap_get m k))) (bmap_keys m)" by (rule entries [OF assms(1)])
  also have "\<dots> = map (\<lambda>k. (k, the (bmap_get n k))) (bmap_keys n)" by (simp add: keys assms(3))
  also have "\<dots> = n" by (rule entries [OF assms(2), symmetric])
  finally show ?thesis .
qed

locale ordered_map =
  fixes empty :: "'m"
    and get :: "'m \<Rightarrow> 'k::linorder \<Rightarrow> 'v option"
    and insert_entry :: "'k \<Rightarrow> 'v \<Rightarrow> 'm \<Rightarrow> 'm"
    and remove_entry :: "'k \<Rightarrow> 'm \<Rightarrow> 'm"
    and keys :: "'m \<Rightarrow> 'k list"
    and inv :: "'m \<Rightarrow> bool"
  assumes get_empty: "get empty k = None"
    and get_insert: "inv m \<Longrightarrow> get (insert_entry k v m) k' = (if k' = k then Some v else get m k')"
    and get_remove: "inv m \<Longrightarrow> get (remove_entry k m) k' = (if k' = k then None else get m k')"
    and keys_dom: "inv m \<Longrightarrow> k \<in> set (keys m) \<longleftrightarrow> get m k \<noteq> None"
    and keys_sorted: "inv m \<Longrightarrow> sorted_wrt (<) (keys m)"
    and inv_empty: "inv empty"
    and inv_insert: "inv m \<Longrightarrow> inv (insert_entry k v m)"
    and inv_remove: "inv m \<Longrightarrow> inv (remove_entry k m)"
begin

lemma inv_fold_insert: "inv m \<Longrightarrow> inv (fold (\<lambda>(k, v). insert_entry k v) kvs m)"
  by (induction kvs arbitrary: m) (auto simp: inv_insert)

lemma get_fold_insert:
  "inv m \<Longrightarrow> get (fold (\<lambda>(k, v). insert_entry k v) kvs m) k =
     (case map_of (rev kvs) k of Some v \<Rightarrow> Some v | None \<Rightarrow> get m k)"
proof (induction kvs arbitrary: m)
  case Nil
  then show ?case by simp
next
  case (Cons kv kvs)
  obtain k' v' where kv: "kv = (k', v')" by fastforce
  from Cons.IH [OF inv_insert [OF Cons.prems], of k' v'] Cons.prems kv show ?case
    by (auto simp: get_insert map_add_def split: option.splits)
qed

lemma insert_same_keys:
  assumes "inv m" "get m k \<noteq> None"
  shows "keys (insert_entry k v m) = keys m"
proof (rule sorted_distinct_set_unique)
  show "set (keys (insert_entry k v m)) = set (keys m)"
    using assms by (auto simp: keys_dom inv_insert get_insert split: if_splits)
qed (use assms keys_sorted inv_insert in \<open>auto simp: strict_sorted_iff\<close>)

lemma insert_overwrite: "inv m \<Longrightarrow> get (insert_entry k v (insert_entry k w m)) k' = get (insert_entry k v m) k'"
  by (simp add: get_insert inv_insert)

end

interpretation bm: ordered_map "[]" bmap_get bmap_insert bmap_remove bmap_keys bmap_ok
  by unfold_locales (simp_all add: bmap_keys_set bmap_contains_def, simp add: bmap_ok_def)

lemma bmap_ok_of_list [simp]: "bmap_ok (bmap_of_list kvs)"
  unfolding bmap_of_list_def by (rule bm.inv_fold_insert) simp

lemma bmap_get_of_list: "bmap_get (bmap_of_list kvs) k = map_of (rev kvs) k"
  unfolding bmap_of_list_def by (subst bm.get_fold_insert) (simp_all split: option.splits)

subsection \<open>Sets\<close>

type_synonym 'a bset = "'a list"

fun bset_insert :: "'a::linorder \<Rightarrow> 'a bset \<Rightarrow> 'a bset" where
  "bset_insert x [] = [x]"
| "bset_insert x (y # ys) =
     (if x < y then x # y # ys else if x = y then y # ys else y # bset_insert x ys)"

definition bset_contains :: "'a bset \<Rightarrow> 'a \<Rightarrow> bool" where
  "bset_contains s x \<longleftrightarrow> x \<in> set s"

definition bset_remove :: "'a \<Rightarrow> 'a bset \<Rightarrow> 'a bset" where
  "bset_remove x s = filter (\<lambda>y. y \<noteq> x) s"

definition bset_of_list :: "'a::linorder list \<Rightarrow> 'a bset" where
  "bset_of_list xs = fold bset_insert xs []"

definition bset_ok :: "'a::linorder bset \<Rightarrow> bool" where
  "bset_ok s \<longleftrightarrow> sorted_wrt (<) s"

lemma set_bset_insert [simp]: "set (bset_insert x s) = insert x (set s)"
  by (induction s) auto

lemma set_bset_remove [simp]: "set (bset_remove x s) = set s - {x}"
  by (auto simp: bset_remove_def)

lemma bset_ok_empty [simp]: "bset_ok []"
  by (simp add: bset_ok_def)

lemma bset_ok_insert [simp]: "bset_ok s \<Longrightarrow> bset_ok (bset_insert x s)"
  by (induction s) (auto simp: bset_ok_def)

lemma bset_ok_remove [simp]: "bset_ok s \<Longrightarrow> bset_ok (bset_remove x s)"
  by (simp add: bset_ok_def bset_remove_def sorted_wrt_filter)

lemma bset_ok_of_list [simp]: "bset_ok (bset_of_list xs)"
  unfolding bset_of_list_def by (rule fold_invariant [where Q = "\<lambda>_. True"]) auto

lemma set_bset_of_list [simp]: "set (bset_of_list xs) = set xs"
proof -
  have "set (fold bset_insert xs s) = set xs \<union> set s" for s
    by (induction xs arbitrary: s) auto
  then show ?thesis by (simp add: bset_of_list_def)
qed

lemma bset_insert_present: "bset_ok s \<Longrightarrow> x \<in> set s \<Longrightarrow> bset_insert x s = s"
  by (induction s) (auto simp: bset_ok_def)

lemma bset_canonical: "bset_ok s \<Longrightarrow> bset_ok t \<Longrightarrow> set s = set t \<Longrightarrow> s = t"
  by (auto simp: bset_ok_def strict_sorted_iff intro: sorted_distinct_set_unique)

lemmas bset_simps = bset_contains_def set_bset_insert set_bset_remove

end
