(* ===== verification/Diagnostics.thy ===== *)
theory Diagnostics
  imports Prelude
begin

text \<open>
  Structured diagnostics (\<open>agentir-core/src/diagnostics.rs\<close>). An error carries its stable code
  and its message; messages are kept as the format string of the source, before its
  arguments are filled in, so that every error branch stays distinct. The optional repair
  hints and detail fields, which no code reads back, are left out. A Rust panic (failed index,
  arithmetic overflow in a debug build) and a loop that does not return are failures of their
  own.
\<close>

subsection \<open>Error codes and failures\<close>

text \<open>
  The codes of the specification, implementation, equality and memory stages. Those that only
  candidates and their equality proofs raise are grouped under one constructor, those of memory
  plans under another.
\<close>

datatype candidate_code =
    CandidateNotFound | CandidateRevisionNotFound | EquivalenceNotProved | CandidateSealed
    | UnsupportedRefinement | ProposalNotFound | InvalidProposal | SpeculativeOptInRequired
    | ProofDebtLimitExceeded | TranslationUnsupported | ObligationRefuted | GuardInvalid
    | FallbackInvalid | CandidateHasProofDebt | EqualityAnchorUnproved
    | EqualityGuardedAnchorUnsupported | EqualityRuleUntrusted | EqualityMaterializationFailed
    | EqualityEventOrderInvalid

text \<open>The codes of memory plans.\<close>

datatype memory_code =
    MemoryPlanNotFound | MemoryRevisionNotFound | BufferNotFound | MemoryAnchorUnproved
    | MemoryHashMismatch | StaleMemoryBase | InvalidMemoryLayout | InvalidMemoryAccess
    | AlignmentUnsatisfied | AliasProofMissing | LifetimeViolation | InPlaceReuseUnsafe
    | MemoryGuardInvalid | MemoryFallbackInvalid | MemoryFallbackCycle | MemoryEquivalenceUnproved
    | MemoryEventOrderInvalid | MemoryResourceLimit

datatype error_code =
    WorkspaceNotFound | RevisionNotFound | BaseRevisionConflict | UnknownReference
    | DuplicateBinding | UnknownOpcode | ArityMismatch | TypeMismatch | ShapeMismatch
    | InvalidRegion | HoleTypeMismatch | OpenHole | SpecNotComplete | SpecFrozen
    | TransactionRejected | EvaluationInputMismatch | DivisionByZero | InvalidRequest
    | PersistenceIo | PersistenceFormat | PersistenceIntegrity | ReplayMismatch
    | CanonicalizationFailed | InvalidConstraint | ConstraintContradiction
    | ResourceLimitExceeded | SpecNotFrozen | SpecHashMismatch | ImplVerificationFailed
    | RewriteNotApplicable | RewritePreconditionFailed | EvidenceInvalid | EqualitySpaceNotFound
    | EqualityRevisionNotFound | EqualityNodeNotFound | StaleEqualityBase | EqualityHashMismatch
    | EqualityProofInvalid | EqualityPathNotFound | CandidateStage candidate_code
    | MemoryStage memory_code

record agent_error =
  code :: error_code
  message :: string

definition agent_error_new :: "error_code \<Rightarrow> string \<Rightarrow> agent_error" where
  "agent_error_new c m = \<lparr>code = c, message = m\<rparr>"

datatype failure = Fail agent_error | Panic | Diverge

type_synonym 'a res = "failure + 'a"

abbreviation err :: "error_code \<Rightarrow> string \<Rightarrow> 'a res" where
  "err c m \<equiv> Inl (Fail (agent_error_new c m))"

lemma agent_error_new_sel [simp]:
  "code (agent_error_new c m) = c" "message (agent_error_new c m) = m"
  by (simp_all add: agent_error_new_def)

lemma agent_error_new_inject [simp]:
  "agent_error_new c m = agent_error_new c' m' \<longleftrightarrow> c = c' \<and> m = m'"
  by (simp add: agent_error_new_def)

text \<open>Indexing a slice with \<open>[i]\<close> panics when the index is out of range.\<close>

definition slice_index :: "'a list \<Rightarrow> nat \<Rightarrow> 'a res" where
  "slice_index xs i = (if i < length xs then Inr (xs ! i) else Inl Panic)"

lemma slice_index_ok [simp]: "i < length xs \<Longrightarrow> slice_index xs i = Inr (xs ! i)"
  by (simp add: slice_index_def)

text \<open>State-threading iteration: \<open>iter().map(..).collect()\<close> over a closure that borrows the state.\<close>

fun traverse_st :: "('a \<Rightarrow> 's \<Rightarrow> ('b \<times> 's) res) \<Rightarrow> 'a list \<Rightarrow> 's \<Rightarrow> ('b list \<times> 's) res" where
  "traverse_st f [] s = Inr ([], s)"
| "traverse_st f (x # xs) s =
     rbind (f x s) (\<lambda>(y, s1). rbind (traverse_st f xs s1) (\<lambda>(ys, s2). Inr (y # ys, s2)))"

end
