(* ===== verification/Constraints.thy ===== *)
theory Constraints
  imports Shapes Type_Codecs Ordered_Map Diagnostics
begin

text \<open>
  The compact fact engine (\<open>agentir-core/src/constraints.rs\<close>): a union-find over dimension
  symbols with static bindings, the query and the atomic insertion of a shape constraint.
  This theory holds the definitions; \<open>Constraint_Proofs\<close> holds the invariant, the
  soundness and the completeness of the engine.
\<close>

subsection \<open>State and results\<close>

record constraint_proof =
  normalized_left :: string
  normalized_right :: string
  proof_facts :: "shape_constraint list"

record constraint_contradiction =
  normalized_constraint :: shape_constraint
  conflicting_facts :: "shape_constraint list"
  expected_fact :: string
  actual_fact :: string

datatype constraint_query_result =
    QProved constraint_proof
  | QContradiction constraint_contradiction
  | QUnknown

datatype normalized_dim = NStatic int | NAffine int string int

datatype raw_query = RawProved | RawContradiction string string | RawUnknown

fun show_normalized :: "normalized_dim \<Rightarrow> string" where
  "show_normalized (NStatic i) = show_int i"
| "show_normalized (NAffine c s k) =
     show_int c @ ''*'' @ s @ (if 0 \<le> k then ''+'' @ show_int k else show_int k)"

record constraint_facts =
  parent :: "(string, string) bmap"
  static_bindings :: "(string, nat) bmap"
  non_negative :: "string bset"
  accepted :: "shape_constraint bset"

definition empty_facts :: constraint_facts where
  "empty_facts = \<lparr>parent = [], static_bindings = [], non_negative = [], accepted = []\<rparr>"

subsection \<open>Symbols\<close>

definition declare_symbol :: "string \<Rightarrow> bool \<Rightarrow> constraint_facts \<Rightarrow> constraint_facts res" where
  "declare_symbol symbol nn f =
     (if symbol = [] \<or> \<not> is_word_start (hd symbol) \<or> \<not> list_all is_word_char symbol
      then err InvalidConstraint ''invalid dimension symbol `{symbol}`''
      else if bmap_contains (parent f) symbol
      then err InvalidConstraint ''dimension symbol `{symbol}` is already declared''
      else Inr (f\<lparr>parent := bmap_insert symbol symbol (parent f),
                 non_negative := (if nn then bset_insert symbol (non_negative f) else non_negative f)\<rparr>))"

definition accepted_facts :: "constraint_facts \<Rightarrow> shape_constraint list" where
  "accepted_facts f = accepted f"

text \<open>
  The loop of \<open>root\<close>. It has one unit of fuel for every entry of the parent map and one more:
  a walk that has not ended by then has met a symbol twice and never ends.
\<close>

fun root_loop :: "nat \<Rightarrow> (string, string) bmap \<Rightarrow> string \<Rightarrow> string res" where
  "root_loop 0 p current = Inl Diverge"
| "root_loop (Suc fuel) p current =
     (case bmap_get p current of
        None \<Rightarrow> err InvalidConstraint ''invalid constraint fact parent''
      | Some nxt \<Rightarrow> if nxt = current then Inr current else root_loop fuel p nxt)"

definition root :: "constraint_facts \<Rightarrow> string \<Rightarrow> string res" where
  "root f symbol =
     (case bmap_get (parent f) symbol of
        None \<Rightarrow> err InvalidConstraint ''constraint references undeclared dimension `{symbol}`''
      | Some current \<Rightarrow> root_loop (Suc (length (parent f))) (parent f) current)"

subsection \<open>Normal forms\<close>

definition normalize_dim :: "constraint_facts \<Rightarrow> dim_expr \<Rightarrow> normalized_dim res" where
  "normalize_dim f d =
     (case d of
        Static n \<Rightarrow> Inr (NStatic (int n))
      | Symbol s \<Rightarrow>
          rbind (root f s) (\<lambda>r.
            case bmap_get (static_bindings f) r of
              Some n \<Rightarrow> Inr (NStatic (int n))
            | None \<Rightarrow> Inr (NAffine 1 r 0))
      | Affine c s k \<Rightarrow>
          rbind (root f s) (\<lambda>r.
            case bmap_get (static_bindings f) r of
              Some n \<Rightarrow> Inr (NStatic (c * int n + k))
            | None \<Rightarrow> Inr (NAffine c r k)))"

definition normalize_shape :: "constraint_facts \<Rightarrow> shape \<Rightarrow> string res" where
  "normalize_shape f sh =
     rbind (traverse (\<lambda>d. rmap show_normalized (normalize_dim f d)) sh)
       (\<lambda>ds. Inr (''['' @ str_join '','' ds @ '']''))"

definition contradiction :: "constraint_facts \<Rightarrow> shape_constraint \<Rightarrow> string \<Rightarrow> string \<Rightarrow> constraint_query_result" where
  "contradiction f c ex ac =
     QContradiction \<lparr>normalized_constraint = c, conflicting_facts = accepted_facts f,
                     expected_fact = ex, actual_fact = ac\<rparr>"

definition contradiction_error :: "constraint_facts \<Rightarrow> shape_constraint \<Rightarrow> string \<Rightarrow> string \<Rightarrow> failure" where
  "contradiction_error f c ex ac =
     Fail (agent_error_new ConstraintContradiction ''constraint contradicts accepted shape facts'')"

subsection \<open>Queries\<close>

fun compare_loop :: "constraint_facts \<Rightarrow> bool \<Rightarrow> (dim_expr \<times> dim_expr) list \<Rightarrow> raw_query res" where
  "compare_loop f unknown [] = Inr (if unknown then RawUnknown else RawProved)"
| "compare_loop f unknown ((ld, rd) # ds) =
     rbind (normalize_dim f ld) (\<lambda>ln. rbind (normalize_dim f rd) (\<lambda>rn.
       if ln = rn then compare_loop f unknown ds
       else case (ln, rn) of
         (NStatic a, NStatic b) \<Rightarrow> Inr (RawContradiction (show_int a) (show_int b))
       | (NAffine lc ls lk, NAffine rc rs rk) \<Rightarrow>
           if ls = rs \<and> lc = rc
           then Inr (RawContradiction (show_normalized ln) (show_normalized rn))
           else compare_loop f True ds
       | _ \<Rightarrow> compare_loop f True ds))"

definition query_shapes_raw :: "constraint_facts \<Rightarrow> shape \<Rightarrow> shape \<Rightarrow> raw_query res" where
  "query_shapes_raw f l r =
     (if length l \<noteq> length r
      then Inr (RawContradiction (''rank '' @ show_nat (length l)) (''rank '' @ show_nat (length r)))
      else compare_loop f False (zip l r))"

definition proved_result :: "constraint_facts \<Rightarrow> shape \<Rightarrow> shape \<Rightarrow> constraint_query_result res" where
  "proved_result f l r =
     rbind (normalize_shape f l) (\<lambda>nl. rbind (normalize_shape f r) (\<lambda>nr.
       Inr (QProved \<lparr>normalized_left = nl, normalized_right = nr, proof_facts = accepted_facts f\<rparr>)))"

definition query_shapes :: "constraint_facts \<Rightarrow> shape \<Rightarrow> shape \<Rightarrow> constraint_query_result res" where
  "query_shapes f l r =
     (if bset_contains (accepted f) (Equal l r) \<or> bset_contains (accepted f) (Equal r l)
      then proved_result f l r
      else rbind (query_shapes_raw f l r) (\<lambda>q.
        case q of
          RawProved \<Rightarrow> proved_result f l r
        | RawUnknown \<Rightarrow> Inr QUnknown
        | RawContradiction ex ac \<Rightarrow> Inr (contradiction f (Equal l r) ex ac)))"

definition shape_or_default :: "ty \<Rightarrow> shape" where
  "shape_or_default t = (case ty_shape t of Some sh \<Rightarrow> sh | None \<Rightarrow> [])"

definition query_types :: "constraint_facts \<Rightarrow> ty \<Rightarrow> ty \<Rightarrow> constraint_query_result res" where
  "query_types f l r =
     (let mismatch = Inr (contradiction f (Equal (shape_or_default l) (shape_or_default r))
                            (show_type l) (show_type r)) in
      case (l, r) of
        (Scalar a, Scalar b) \<Rightarrow>
          if a = b
          then Inr (QProved \<lparr>normalized_left = show_scalar a, normalized_right = show_scalar b,
                             proof_facts = accepted_facts f\<rparr>)
          else mismatch
      | (Tensor le ls, Tensor re rs) \<Rightarrow> if le = re then query_shapes f ls rs else mismatch
      | _ \<Rightarrow> mismatch)"

subsection \<open>Insertion\<close>

text \<open>\<open>union\<close> redirects every symbol of the replaced class to the smaller root.\<close>

definition redirect_parents :: "string \<Rightarrow> string \<Rightarrow> (string, string) bmap \<Rightarrow> (string, string) bmap" where
  "redirect_parents representative replaced p =
     bmap_insert replaced representative
       (bmap_map (\<lambda>_ q. if q = replaced then representative else q) p)"

definition merge_roots ::
    "shape_constraint \<Rightarrow> string \<Rightarrow> string \<Rightarrow> constraint_facts \<Rightarrow> constraint_facts res" where
  "merge_roots c representative replaced f =
     (let non_negative' = (if bset_contains (non_negative f) replaced
                           then bset_insert representative (bset_remove replaced (non_negative f))
                           else non_negative f);
          bindings' = bmap_remove replaced (bmap_remove representative (static_bindings f));
          f' = f\<lparr>parent := redirect_parents representative replaced (parent f),
                 non_negative := non_negative', static_bindings := bindings'\<rparr>
      in case (bmap_get (static_bindings f) representative, bmap_get (static_bindings f) replaced) of
           (Some a, Some b) \<Rightarrow>
             if a \<noteq> b then Inl (contradiction_error f' c (show_nat a) (show_nat b))
             else Inr (f'\<lparr>static_bindings := bmap_insert representative a bindings'\<rparr>)
         | (Some a, None) \<Rightarrow> Inr (f'\<lparr>static_bindings := bmap_insert representative a bindings'\<rparr>)
         | (None, Some b) \<Rightarrow> Inr (f'\<lparr>static_bindings := bmap_insert representative b bindings'\<rparr>)
         | (None, None) \<Rightarrow> Inr f')"

definition union_symbols :: "string \<Rightarrow> string \<Rightarrow> constraint_facts \<Rightarrow> constraint_facts res" where
  "union_symbols left right f =
     rbind (root f left) (\<lambda>lr. rbind (root f right) (\<lambda>rr.
       if lr = rr then Inr f
       else if lr < rr then merge_roots (Equal [Symbol lr] [Symbol rr]) lr rr f
       else merge_roots (Equal [Symbol lr] [Symbol rr]) rr lr f))"

definition bind_static :: "string \<Rightarrow> nat \<Rightarrow> constraint_facts \<Rightarrow> constraint_facts res" where
  "bind_static symbol value f =
     rbind (root f symbol) (\<lambda>r.
       case bmap_get (static_bindings f) r of
         Some existing \<Rightarrow>
           if existing \<noteq> value
           then Inl (contradiction_error f (Equal [Symbol symbol] [Static value])
                       (show_nat existing) (show_nat value))
           else Inr f
       | None \<Rightarrow> Inr (f\<lparr>static_bindings := bmap_insert r value (static_bindings f)\<rparr>))"

fun dim_symbols :: "dim_expr \<Rightarrow> string list" where
  "dim_symbols (Static n) = []"
| "dim_symbols (Symbol s) = [s]"
| "dim_symbols (Affine c s k) = [s]"

fun constraint_symbols :: "shape_constraint \<Rightarrow> string bset" where
  "constraint_symbols (Equal l r) = bset_of_list (concat (map dim_symbols (l @ r)))"
| "constraint_symbols (NonNegative s) = bset_of_list [s]"

definition validate_constraint_symbols :: "constraint_facts \<Rightarrow> shape_constraint \<Rightarrow> unit res" where
  "validate_constraint_symbols f c =
     (if filter (\<lambda>s. \<not> bmap_contains (parent f) s) (constraint_symbols c) = [] then Inr ()
      else err InvalidConstraint ''constraint references undeclared dimensions'')"

fun add_equality_fact :: "constraint_facts \<Rightarrow> dim_expr \<times> dim_expr \<Rightarrow> constraint_facts res" where
  "add_equality_fact f (Symbol l, Symbol r) = union_symbols l r f"
| "add_equality_fact f (Symbol s, Static n) = bind_static s n f"
| "add_equality_fact f (Static n, Symbol s) = bind_static s n f"
| "add_equality_fact f _ = Inr f"

definition verify_equality :: "constraint_facts \<Rightarrow> shape_constraint \<Rightarrow> unit res" where
  "verify_equality f c =
     (case c of
        Equal l r \<Rightarrow>
          rbind (query_shapes_raw f l r) (\<lambda>q.
            case q of
              RawContradiction ex ac \<Rightarrow> Inl (contradiction_error f c ex ac)
            | _ \<Rightarrow> Inr ())
      | NonNegative _ \<Rightarrow> Inr ())"

definition verify_all_equalities :: "constraint_facts \<Rightarrow> unit res" where
  "verify_all_equalities f = rfold (\<lambda>_ c. verify_equality f c) () (accepted f)"

definition non_negative_proof :: "constraint_facts \<Rightarrow> constraint_query_result" where
  "non_negative_proof f =
     QProved \<lparr>normalized_left = ''non_negative'', normalized_right = ''non_negative'',
              proof_facts = accepted_facts f\<rparr>"

text \<open>The result of a query that \<open>insert\<close> reports: for the old facts when the constraint is
  already accepted, for the staged facts otherwise.\<close>

definition insert_report :: "constraint_facts \<Rightarrow> shape_constraint \<Rightarrow> constraint_query_result res" where
  "insert_report f c =
     (case c of Equal l r \<Rightarrow> query_shapes f l r | NonNegative _ \<Rightarrow> Inr (non_negative_proof f))"

definition stage_constraint :: "constraint_facts \<Rightarrow> shape_constraint \<Rightarrow> constraint_facts res" where
  "stage_constraint staged c =
     (case c of
        Equal l r \<Rightarrow>
          if length l \<noteq> length r
          then Inl (contradiction_error staged c (''rank '' @ show_nat (length l)) (''rank '' @ show_nat (length r)))
          else rbind (query_shapes_raw staged l r) (\<lambda>q.
            case q of
              RawContradiction ex ac \<Rightarrow> Inl (contradiction_error staged c ex ac)
            | _ \<Rightarrow> rfold add_equality_fact staged (zip l r))
      | NonNegative s \<Rightarrow>
          rbind (root staged s) (\<lambda>r. Inr (staged\<lparr>non_negative := bset_insert r (non_negative staged)\<rparr>)))"

definition insert_constraint ::
    "constraint_facts \<Rightarrow> shape_constraint \<Rightarrow> (constraint_facts \<times> constraint_query_result) res" where
  "insert_constraint f c =
     rbind (validate_constraint_symbols f c) (\<lambda>_.
       if bset_contains (accepted f) c
       then rbind (insert_report f c) (\<lambda>q. Inr (f, q))
       else rbind (stage_constraint f c) (\<lambda>staged0.
         let staged = staged0\<lparr>accepted := bset_insert c (accepted staged0)\<rparr> in
         rbind (verify_all_equalities staged) (\<lambda>_.
           rbind (insert_report staged c) (\<lambda>q. Inr (staged, q)))))"

text \<open>\<open>from_program\<close>: the declared dimensions of a program, then its constraints.\<close>

definition facts_of :: "(string \<times> bool) list \<Rightarrow> shape_constraint list \<Rightarrow> constraint_facts res" where
  "facts_of dims cs =
     rbind (rfold (\<lambda>f (name, nn). declare_symbol name nn f) empty_facts dims)
       (\<lambda>f. rfold (\<lambda>f c. rmap fst (insert_constraint f c)) f cs)"

end
