(* ===== verification/Floats.thy ===== *)
theory Floats
  imports Prelude
begin

text \<open>
  Binary floating point as Rust defines it (IEEE 754, round to nearest even), for the \<open>f32\<close>
  of the interpreter and the \<open>f64\<close> that JSON numbers pass through. A finite number is a sign,
  a significand and the exponent of its last bit; NaN payloads, which Rust leaves open, are
  not kept. Every operation computes the exact result as a ratio of integers and rounds once.
\<close>

subsection \<open>Formats and rounding\<close>

datatype fp = NaN | Inf bool | Fin (negative: bool) (significand: nat) (exponent: int)

record fp_format =
  precision :: nat
  min_exp :: int
  max_exp :: int

definition binary32 :: fp_format where
  "binary32 = \<lparr>precision = 24, min_exp = - 149, max_exp = 104\<rparr>"

definition binary64 :: fp_format where
  "binary64 = \<lparr>precision = 53, min_exp = - 1074, max_exp = 971\<rparr>"

fun bit_len :: "nat \<Rightarrow> nat" where
  "bit_len n = (if n = 0 then 0 else Suc (bit_len (n div 2)))"

declare bit_len.simps [simp del]

text \<open>The ratio \<open>n / d\<close> scaled by a power of two.\<close>

definition scale_num :: "nat \<Rightarrow> int \<Rightarrow> nat" where
  "scale_num n e = (if e < 0 then n * 2 ^ nat (- e) else n)"

definition scale_den :: "nat \<Rightarrow> int \<Rightarrow> nat" where
  "scale_den d e = (if e < 0 then d else d * 2 ^ nat e)"

definition ratio_log2 :: "nat \<Rightarrow> nat \<Rightarrow> int" where
  "ratio_log2 n d =
     (let k = int (bit_len n) - int (bit_len d)
      in if scale_den d k \<le> scale_num n k then k else k - 1)"

definition round_half_even :: "nat \<Rightarrow> nat \<Rightarrow> nat" where
  "round_half_even n d =
     (let q = n div d; r = n mod d
      in if d < 2 * r \<or> (2 * r = d \<and> odd q) then Suc q else q)"

definition fp_round :: "fp_format \<Rightarrow> bool \<Rightarrow> nat \<Rightarrow> nat \<Rightarrow> fp" where
  "fp_round fmt s n d =
     (if n = 0 then Fin s 0 (min_exp fmt)
      else
        let e = max (min_exp fmt) (ratio_log2 n d - int (precision fmt) + 1);
            m = round_half_even (scale_num n e) (scale_den d e);
            (m', e') = (if m = 2 ^ precision fmt then (2 ^ (precision fmt - 1), e + 1) else (m, e))
        in if max_exp fmt < e' then Inf s else Fin s m' e')"

text \<open>An integer times a power of two; the sign of an exact zero is given.\<close>

definition fp_of_scaled :: "fp_format \<Rightarrow> bool \<Rightarrow> int \<Rightarrow> int \<Rightarrow> fp" where
  "fp_of_scaled fmt zero_sign i e =
     (if i = 0 then Fin zero_sign 0 (min_exp fmt)
      else fp_round fmt (i < 0) (scale_den (nat \<bar>i\<bar>) e) (scale_num 1 e))"

definition signed_significand :: "bool \<Rightarrow> nat \<Rightarrow> int" where
  "signed_significand s m = (if s then - int m else int m)"

definition fp_zero :: "fp \<Rightarrow> bool" where
  "fp_zero x = (case x of Fin s m e \<Rightarrow> m = 0 | _ \<Rightarrow> False)"

definition fp_finite :: "fp \<Rightarrow> bool" where
  "fp_finite x = (case x of Fin s m e \<Rightarrow> True | _ \<Rightarrow> False)"

subsection \<open>Arithmetic\<close>

fun fp_neg :: "fp \<Rightarrow> fp" where
  "fp_neg NaN = NaN"
| "fp_neg (Inf s) = Inf (\<not> s)"
| "fp_neg (Fin s m e) = Fin (\<not> s) m e"

fun fp_add :: "fp_format \<Rightarrow> fp \<Rightarrow> fp \<Rightarrow> fp" where
  "fp_add fmt (Fin s m e) (Fin s' m' e') =
     (let e0 = min e e'
      in fp_of_scaled fmt (s \<and> s')
           (signed_significand s m * 2 ^ nat (e - e0) + signed_significand s' m' * 2 ^ nat (e' - e0)) e0)"
| "fp_add fmt (Inf s) (Inf s') = (if s = s' then Inf s else NaN)"
| "fp_add fmt (Inf s) (Fin _ _ _) = Inf s"
| "fp_add fmt (Fin _ _ _) (Inf s) = Inf s"
| "fp_add fmt _ _ = NaN"

definition fp_sub :: "fp_format \<Rightarrow> fp \<Rightarrow> fp \<Rightarrow> fp" where
  "fp_sub fmt x y = fp_add fmt x (fp_neg y)"

fun fp_mul :: "fp_format \<Rightarrow> fp \<Rightarrow> fp \<Rightarrow> fp" where
  "fp_mul fmt (Fin s m e) (Fin s' m' e') =
     fp_of_scaled fmt (s \<noteq> s') (signed_significand s m * signed_significand s' m') (e + e')"
| "fp_mul fmt (Inf s) (Inf s') = Inf (s \<noteq> s')"
| "fp_mul fmt (Inf s) (Fin s' m' e') = (if m' = 0 then NaN else Inf (s \<noteq> s'))"
| "fp_mul fmt (Fin s m e) (Inf s') = (if m = 0 then NaN else Inf (s \<noteq> s'))"
| "fp_mul fmt _ _ = NaN"

fun fp_div :: "fp_format \<Rightarrow> fp \<Rightarrow> fp \<Rightarrow> fp" where
  "fp_div fmt (Fin s m e) (Fin s' m' e') =
     (if m' = 0 then (if m = 0 then NaN else Inf (s \<noteq> s'))
      else fp_round fmt (s \<noteq> s') (scale_den m (e - e')) (scale_num m' (e - e')))"
| "fp_div fmt (Inf s) (Fin s' m' e') = Inf (s \<noteq> s')"
| "fp_div fmt (Fin s m e) (Inf s') = Fin (s \<noteq> s') 0 (min_exp fmt)"
| "fp_div fmt _ _ = NaN"

text \<open>\<open>mul_add\<close>: the product is exact, one rounding at the end.\<close>

fun fp_fma :: "fp_format \<Rightarrow> fp \<Rightarrow> fp \<Rightarrow> fp \<Rightarrow> fp" where
  "fp_fma fmt (Fin s m e) (Fin s' m' e') z =
     (case z of
        Fin s'' m'' e'' \<Rightarrow>
          (let p = signed_significand s m * signed_significand s' m'; ep = e + e'; e0 = min ep e''
           in fp_of_scaled fmt ((s \<noteq> s') \<and> s'')
                (p * 2 ^ nat (ep - e0) + signed_significand s'' m'' * 2 ^ nat (e'' - e0)) e0)
      | _ \<Rightarrow> z)"
| "fp_fma fmt x y z = fp_add fmt (fp_mul fmt x y) z"

subsection \<open>Comparison\<close>

text \<open>\<open>partial_cmp\<close>: none when an operand is NaN; both zeros are equal.\<close>

datatype fp_order = FLess | FEqual | FGreater

definition fp_key :: "fp \<Rightarrow> int" where
  "fp_key x = (case x of NaN \<Rightarrow> 0 | Inf s \<Rightarrow> (if s then - 1 else 1) | Fin s m e \<Rightarrow> 0)"

definition int_order :: "int \<Rightarrow> int \<Rightarrow> fp_order" where
  "int_order i j = (if i < j then FLess else if i = j then FEqual else FGreater)"

fun fp_cmp :: "fp \<Rightarrow> fp \<Rightarrow> fp_order option" where
  "fp_cmp NaN _ = None"
| "fp_cmp _ NaN = None"
| "fp_cmp (Fin s m e) (Fin s' m' e') =
     (let e0 = min e e'
      in Some (int_order (signed_significand s m * 2 ^ nat (e - e0))
                         (signed_significand s' m' * 2 ^ nat (e' - e0))))"
| "fp_cmp x y = Some (int_order (fp_key x) (fp_key y))"

definition fp_eq :: "fp \<Rightarrow> fp \<Rightarrow> bool" where "fp_eq x y \<longleftrightarrow> fp_cmp x y = Some FEqual"
definition fp_lt :: "fp \<Rightarrow> fp \<Rightarrow> bool" where "fp_lt x y \<longleftrightarrow> fp_cmp x y = Some FLess"
definition fp_le :: "fp \<Rightarrow> fp \<Rightarrow> bool" where
  "fp_le x y \<longleftrightarrow> fp_cmp x y = Some FLess \<or> fp_cmp x y = Some FEqual"

subsection \<open>Conversions\<close>

definition fp_of_int :: "fp_format \<Rightarrow> int \<Rightarrow> fp" where
  "fp_of_int fmt i = fp_of_scaled fmt False i 0"

definition fp_convert :: "fp_format \<Rightarrow> fp \<Rightarrow> fp" where
  "fp_convert fmt x =
     (case x of
        Fin s m e \<Rightarrow> fp_of_scaled fmt s (signed_significand s m) e
      | _ \<Rightarrow> x)"

text \<open>Truncation towards zero of a finite number.\<close>

definition fp_truncate :: "bool \<Rightarrow> nat \<Rightarrow> int \<Rightarrow> int" where
  "fp_truncate s m e = signed_significand s (if e < 0 then m div 2 ^ nat (- e) else m * 2 ^ nat e)"

text \<open>\<open>as i32\<close>: truncation that saturates; NaN becomes zero.\<close>

definition fp_to_i32 :: "fp \<Rightarrow> int" where
  "fp_to_i32 x =
     (case x of
        NaN \<Rightarrow> 0
      | Inf s \<Rightarrow> (if s then - 2147483648 else 2147483647)
      | Fin s m e \<Rightarrow> max (- 2147483648) (min 2147483647 (fp_truncate s m e)))"

text \<open>\<open>from_bits\<close> and \<open>to_bits\<close> of \<open>f32\<close>; \<open>to_bits\<close> of a NaN is the canonical quiet NaN.\<close>

definition f32_from_bits :: "nat \<Rightarrow> fp" where
  "f32_from_bits b =
     (let s = odd (b div 2 ^ 31); ex = b div 2 ^ 23 mod 256; fr = b mod 2 ^ 23
      in if ex = 255 then (if fr = 0 then Inf s else NaN)
         else if ex = 0 then Fin s fr (- 149)
         else Fin s (fr + 2 ^ 23) (int ex - 150))"

definition f32_to_bits :: "fp \<Rightarrow> nat" where
  "f32_to_bits x =
     (case x of
        NaN \<Rightarrow> 2143289344
      | Inf s \<Rightarrow> of_bool s * 2 ^ 31 + 255 * 2 ^ 23
      | Fin s m e \<Rightarrow>
          of_bool s * 2 ^ 31 +
          (if m < 2 ^ 23 then m else nat (e + 150) * 2 ^ 23 + (m - 2 ^ 23)))"

subsection \<open>Canonical numbers\<close>

fun fp_ok :: "fp_format \<Rightarrow> fp \<Rightarrow> bool" where
  "fp_ok fmt (Fin s m e) \<longleftrightarrow>
     m < 2 ^ precision fmt \<and> min_exp fmt \<le> e \<and> e \<le> max_exp fmt \<and>
     (2 ^ (precision fmt - 1) \<le> m \<or> e = min_exp fmt)"
| "fp_ok fmt _ \<longleftrightarrow> True"

lemma f32_fields:
  assumes "fr < (8388608::nat)" "ex < 256"
  shows "(of_bool s * 2147483648 + (ex * 8388608 + fr)) div 2147483648 = of_bool s"
    "(of_bool s * 2147483648 + (ex * 8388608 + fr)) div 8388608 mod 256 = ex"
    "(of_bool s * 2147483648 + (ex * 8388608 + fr)) mod 8388608 = fr"
proof -
  have eq: "of_bool s * 2147483648 + (ex * 8388608 + fr) = fr + (of_bool s * 256 + ex) * 8388608"
    by simp
  have "(of_bool s * 2147483648 + (ex * 8388608 + fr)) div 8388608 = of_bool s * 256 + ex"
    unfolding eq using assms(1) by simp
  then show "(of_bool s * 2147483648 + (ex * 8388608 + fr)) div 8388608 mod 256 = ex"
    using assms(2) by (cases s) simp_all
  show "(of_bool s * 2147483648 + (ex * 8388608 + fr)) mod 8388608 = fr"
    unfolding eq mod_mult_self1 using assms(1) by simp
  show "(of_bool s * 2147483648 + (ex * 8388608 + fr)) div 2147483648 = of_bool s"
    using assms by (cases s) simp_all
qed

lemma f32_from_fields:
  assumes "fr < (8388608::nat)" "ex < 255"
  shows "f32_from_bits (of_bool s * 2147483648 + (ex * 8388608 + fr)) =
    (if ex = 0 then Fin s fr (- 149) else Fin s (fr + 8388608) (int ex - 150))"
  using f32_fields [of fr ex s] assms by (simp add: f32_from_bits_def Let_def)

lemma f32_bits_roundtrip:
  assumes "fp_ok binary32 x"
  shows "f32_from_bits (f32_to_bits x) = x"
proof (cases x)
  case (Fin s m e)
  show ?thesis
  proof (cases "m < 8388608")
    case True
    with assms Fin have "e = - 149" by (simp add: binary32_def)
    with True Fin f32_from_fields [of m 0 s] show ?thesis
      by (simp add: f32_to_bits_def)
  next
    case False
    with assms Fin have m: "8388608 \<le> m" "m < 16777216" and e: "- 149 \<le> e" "e \<le> 104"
      by (simp_all add: binary32_def)
    then have "f32_from_bits (of_bool s * 2147483648 + (nat (e + 150) * 8388608 + (m - 8388608))) = Fin s m e"
      using f32_from_fields [of "m - 8388608" "nat (e + 150)" s] by auto
    then show ?thesis using False Fin by (simp add: f32_to_bits_def)
  qed
qed (simp_all add: f32_to_bits_def f32_from_bits_def)

end
