(* ===== verification/Resources.thy ===== *)
theory Resources
  imports Diagnostics
begin

text \<open>
  The central resource budgets (\<open>agentir-core/src/resources.rs\<close>): the kinds that bound requests,
  programs, archives, evaluation, implementation graphs, candidates, equality spaces and memory
  plans, their configurable and hard limits, and the check every bounded operation calls. The
  kinds of the later stages (schedules, back ends, measurements) follow the same pattern and are
  not repeated here.
\<close>

subsection \<open>Kinds and limits\<close>

text \<open>The kinds that bound candidates and their proofs, and their limits, are grouped.\<close>

datatype candidate_kind =
    CandidatesPerWorkspace | CandidateRevisionsPerWorkspace | CandidateEventsPerArchive
    | CandidateActionsPerTransaction | CandidateBranches | RewriteMatchesPerContinuation
    | RewriteStepsPerCandidate | EvidenceRecords | EvidenceBytes | OpenEquivalenceObligations
    | DifferentialCases | CandidateCanonicalV2Bytes | ProposalsPerWorkspace
    | ProposalsPerCandidate | ProposalActionsPerTransaction | ProposalFragmentOperations
    | ProposalFragmentValues | ProposalEncodedBytes | SpeculativeNodesPerCandidate
    | SpeculativeDepthPerBranch | UnknownActionsPerBranch | OpenProofDebtObligations
    | TranslationValidationAttempts | TranslationValidationWorkUnits | GuardedCandidates
    | CounterexampleBytes | CandidateSemanticsV2Events | EqualityMaterializationSteps
    | CandidateCanonicalV3Bytes

text \<open>So are those of memory plans.\<close>

datatype memory_kind =
    MemoryPlansPerWorkspace | MemoryRevisionsPerWorkspace | MemoryEvents | MemoryBuffersPerPlan
    | MemoryOperationsPerPlan | MemoryAccessesPerPlan | MemoryAliasDomains | MemoryAliasFacts
    | MemoryLifetimePoints | MemoryLifetimeUses | MemoryObligations | MemoryReuseAttempts
    | MemoryGuardDependencies | MemoryGuardDepth | MemoryFallbackDepth | MemoryLayoutEntries
    | MemoryAllocationBytesPerBuffer | MemoryTotalAllocationBytes | MemoryCanonicalBytes
    | MemoryArchiveBytes | MemoryEvaluationElements | MemoryTraceEvents | MemoryTraceBytes
    | GeneratedMemoryCaseSize

datatype resource_kind =
    JsonlRequestBytes | ActionsPerTransaction | DimensionsPerProgram | OperationsPerProgram
    | ValuesPerProgram | HolesPerProgram | ObligationsPerProgram | ConstraintsPerProgram
    | RegionArguments | RegionOperations | OperandsPerOperation | AttributeJsonBytes
    | JsonNestingDepth | OutputCount | ArchiveBytes | RevisionsPerArchive | EventsPerArchive
    | ActionsReplayedPerArchive | CanonicalOutputBytes | EvaluationTensorElements
    | TotalEvaluationElements | GeneratedCaseSize | ImplOperations | ImplValues
    | CandidateCanonicalBytes | EqualitySpacesPerWorkspace | EqualityRevisionsPerWorkspace
    | EqualityNodesPerSpace | EqualityEdgesPerSpace | EqualityPendingWorkItems
    | EqualityExpansionStepsPerRequest | EqualitySaturationFuel | EqualityMatchesPerNode
    | EqualityExplanationDepth | EqualityProofPathEdges | EqualityEvents | EqualityCanonicalBytes
    | EqualityArchiveBytes | CandidateResource candidate_kind
    | MemoryResource memory_kind

record candidate_limits =
  candidates_per_workspace :: nat candidate_revisions_per_workspace :: nat
  candidate_events_per_archive :: nat candidate_actions_per_transaction :: nat
  candidate_branches :: nat rewrite_matches_per_continuation :: nat
  rewrite_steps_per_candidate :: nat evidence_records :: nat evidence_bytes :: nat
  open_equivalence_obligations :: nat differential_cases :: nat
  candidate_canonical_v2_bytes :: nat proposals_per_workspace :: nat
  proposals_per_candidate :: nat proposal_actions_per_transaction :: nat
  proposal_fragment_operations :: nat proposal_fragment_values :: nat
  proposal_encoded_bytes :: nat speculative_nodes_per_candidate :: nat
  speculative_depth_per_branch :: nat unknown_actions_per_branch :: nat
  open_proof_debt_obligations :: nat translation_validation_attempts :: nat
  translation_validation_work_units :: nat guarded_candidates :: nat counterexample_bytes :: nat
  candidate_semantics_v2_events :: nat equality_materialization_steps :: nat
  candidate_canonical_v3_bytes :: nat

record memory_limits =
  memory_plans_per_workspace :: nat memory_revisions_per_workspace :: nat memory_events :: nat
  memory_buffers_per_plan :: nat memory_operations_per_plan :: nat memory_accesses_per_plan :: nat
  memory_alias_domains :: nat memory_alias_facts :: nat memory_lifetime_points :: nat
  memory_lifetime_uses :: nat memory_obligations :: nat memory_reuse_attempts :: nat
  memory_guard_dependencies :: nat memory_guard_depth :: nat memory_fallback_depth :: nat
  memory_layout_entries :: nat memory_allocation_bytes_per_buffer :: nat
  memory_total_allocation_bytes :: nat memory_canonical_bytes :: nat memory_archive_bytes :: nat
  memory_evaluation_elements :: nat memory_trace_events :: nat memory_trace_bytes :: nat
  generated_memory_case_size :: nat

record resource_limits =
  jsonl_request_bytes :: nat actions_per_transaction :: nat dimensions_per_program :: nat
  operations_per_program :: nat values_per_program :: nat holes_per_program :: nat
  obligations_per_program :: nat constraints_per_program :: nat region_arguments :: nat
  region_operations :: nat operands_per_operation :: nat attribute_json_bytes :: nat
  json_nesting_depth :: nat output_count :: nat archive_bytes :: nat revisions_per_archive :: nat
  events_per_archive :: nat actions_replayed_per_archive :: nat canonical_output_bytes :: nat
  evaluation_tensor_elements :: nat total_evaluation_elements :: nat generated_case_size :: nat
  impl_operations :: nat impl_values :: nat candidate_canonical_bytes :: nat
  equality_spaces_per_workspace :: nat equality_revisions_per_workspace :: nat
  equality_nodes_per_space :: nat equality_edges_per_space :: nat
  equality_pending_work_items :: nat equality_expansion_steps_per_request :: nat
  equality_saturation_fuel :: nat equality_matches_per_node :: nat
  equality_explanation_depth :: nat equality_proof_path_edges :: nat equality_events :: nat
  equality_canonical_bytes :: nat equality_archive_bytes :: nat
  candidate_resources :: candidate_limits
  memory_resources :: memory_limits

definition default_candidate_limits :: candidate_limits where
  "default_candidate_limits = \<lparr>
     candidates_per_workspace = 10000, candidate_revisions_per_workspace = 100000,
     candidate_events_per_archive = 100000, candidate_actions_per_transaction = 1024,
     candidate_branches = 10000, rewrite_matches_per_continuation = 10000,
     rewrite_steps_per_candidate = 10000, evidence_records = 100000,
     evidence_bytes = 64 * 1024 * 1024, open_equivalence_obligations = 10000,
     differential_cases = 256, candidate_canonical_v2_bytes = 64 * 1024 * 1024,
     proposals_per_workspace = 100000, proposals_per_candidate = 1024,
     proposal_actions_per_transaction = 1024, proposal_fragment_operations = 1024,
     proposal_fragment_values = 1024, proposal_encoded_bytes = 1024 * 1024,
     speculative_nodes_per_candidate = 10000, speculative_depth_per_branch = 128,
     unknown_actions_per_branch = 128, open_proof_debt_obligations = 128,
     translation_validation_attempts = 100000, translation_validation_work_units = 100000,
     guarded_candidates = 10000, counterexample_bytes = 1024 * 1024,
     candidate_semantics_v2_events = 100000, equality_materialization_steps = 1024,
     candidate_canonical_v3_bytes = 64 * 1024 * 1024\<rparr>"

definition candidate_safety_caps :: candidate_limits where
  "candidate_safety_caps = \<lparr>
     candidates_per_workspace = 100000, candidate_revisions_per_workspace = 250000,
     candidate_events_per_archive = 250000, candidate_actions_per_transaction = 100000,
     candidate_branches = 100000, rewrite_matches_per_continuation = 100000,
     rewrite_steps_per_candidate = 100000, evidence_records = 1000000,
     evidence_bytes = 128 * 1024 * 1024, open_equivalence_obligations = 100000,
     differential_cases = 10000, candidate_canonical_v2_bytes = 128 * 1024 * 1024,
     proposals_per_workspace = 1000000, proposals_per_candidate = 100000,
     proposal_actions_per_transaction = 100000, proposal_fragment_operations = 100000,
     proposal_fragment_values = 100000, proposal_encoded_bytes = 8 * 1024 * 1024,
     speculative_nodes_per_candidate = 100000, speculative_depth_per_branch = 1024,
     unknown_actions_per_branch = 1024, open_proof_debt_obligations = 100000,
     translation_validation_attempts = 1000000, translation_validation_work_units = 1000000,
     guarded_candidates = 100000, counterexample_bytes = 8 * 1024 * 1024,
     candidate_semantics_v2_events = 250000, equality_materialization_steps = 100000,
     candidate_canonical_v3_bytes = 128 * 1024 * 1024\<rparr>"

definition default_memory_limits :: memory_limits where
  "default_memory_limits = \<lparr>
     memory_plans_per_workspace = 1024, memory_revisions_per_workspace = 100000,
     memory_events = 100000, memory_buffers_per_plan = 100000, memory_operations_per_plan = 100000,
     memory_accesses_per_plan = 500000, memory_alias_domains = 100000, memory_alias_facts = 500000,
     memory_lifetime_points = 500000, memory_lifetime_uses = 500000, memory_obligations = 100000,
     memory_reuse_attempts = 1024, memory_guard_dependencies = 1024, memory_guard_depth = 16,
     memory_fallback_depth = 16, memory_layout_entries = 1024,
     memory_allocation_bytes_per_buffer = 8 * 1024 * 1024 * 1024,
     memory_total_allocation_bytes = 64 * 1024 * 1024 * 1024,
     memory_canonical_bytes = 64 * 1024 * 1024, memory_archive_bytes = 64 * 1024 * 1024,
     memory_evaluation_elements = 50000000, memory_trace_events = 1000000,
     memory_trace_bytes = 64 * 1024 * 1024, generated_memory_case_size = 10000\<rparr>"

definition memory_safety_caps :: memory_limits where
  "memory_safety_caps = \<lparr>
     memory_plans_per_workspace = 100000, memory_revisions_per_workspace = 250000,
     memory_events = 250000, memory_buffers_per_plan = 1000000,
     memory_operations_per_plan = 1000000, memory_accesses_per_plan = 5000000,
     memory_alias_domains = 1000000, memory_alias_facts = 5000000,
     memory_lifetime_points = 5000000, memory_lifetime_uses = 5000000,
     memory_obligations = 1000000, memory_reuse_attempts = 100000,
     memory_guard_dependencies = 100000, memory_guard_depth = 64, memory_fallback_depth = 64,
     memory_layout_entries = 4096, memory_allocation_bytes_per_buffer = 64 * 1024 * 1024 * 1024,
     memory_total_allocation_bytes = 512 * 1024 * 1024 * 1024,
     memory_canonical_bytes = 128 * 1024 * 1024, memory_archive_bytes = 128 * 1024 * 1024,
     memory_evaluation_elements = 500000000, memory_trace_events = 10000000,
     memory_trace_bytes = 128 * 1024 * 1024, generated_memory_case_size = 100000\<rparr>"

definition default_limits :: resource_limits where
  "default_limits = \<lparr>
     jsonl_request_bytes = 1024 * 1024, actions_per_transaction = 4096,
     dimensions_per_program = 4096, operations_per_program = 100000, values_per_program = 120000,
     holes_per_program = 10000, obligations_per_program = 100000,
     constraints_per_program = 20000, region_arguments = 64, region_operations = 1024,
     operands_per_operation = 64, attribute_json_bytes = 256 * 1024, json_nesting_depth = 128,
     output_count = 1024, archive_bytes = 64 * 1024 * 1024, revisions_per_archive = 100000,
     events_per_archive = 100000, actions_replayed_per_archive = 1000000,
     canonical_output_bytes = 64 * 1024 * 1024, evaluation_tensor_elements = 10000000,
     total_evaluation_elements = 50000000, generated_case_size = 10000, impl_operations = 100000,
     impl_values = 120000, candidate_canonical_bytes = 64 * 1024 * 1024,
     equality_spaces_per_workspace = 1024, equality_revisions_per_workspace = 100000,
     equality_nodes_per_space = 10000, equality_edges_per_space = 100000,
     equality_pending_work_items = 10000, equality_expansion_steps_per_request = 1024,
     equality_saturation_fuel = 10000, equality_matches_per_node = 10000,
     equality_explanation_depth = 1024, equality_proof_path_edges = 1024,
     equality_events = 100000, equality_canonical_bytes = 64 * 1024 * 1024,
     equality_archive_bytes = 64 * 1024 * 1024,
     candidate_resources = default_candidate_limits, memory_resources = default_memory_limits\<rparr>"

definition hard_safety_caps :: resource_limits where
  "hard_safety_caps = \<lparr>
     jsonl_request_bytes = 8 * 1024 * 1024, actions_per_transaction = 100000,
     dimensions_per_program = 100000, operations_per_program = 1000000,
     values_per_program = 1200000, holes_per_program = 100000, obligations_per_program = 1000000,
     constraints_per_program = 200000, region_arguments = 1024, region_operations = 100000,
     operands_per_operation = 4096, attribute_json_bytes = 4 * 1024 * 1024,
     json_nesting_depth = 256, output_count = 100000, archive_bytes = 64 * 1024 * 1024,
     revisions_per_archive = 250000, events_per_archive = 250000,
     actions_replayed_per_archive = 5000000, canonical_output_bytes = 128 * 1024 * 1024,
     evaluation_tensor_elements = 100000000, total_evaluation_elements = 500000000,
     generated_case_size = 100000, impl_operations = 1000000, impl_values = 1200000,
     candidate_canonical_bytes = 128 * 1024 * 1024, equality_spaces_per_workspace = 100000,
     equality_revisions_per_workspace = 250000, equality_nodes_per_space = 100000,
     equality_edges_per_space = 1000000, equality_pending_work_items = 100000,
     equality_expansion_steps_per_request = 100000, equality_saturation_fuel = 100000,
     equality_matches_per_node = 100000, equality_explanation_depth = 100000,
     equality_proof_path_edges = 100000, equality_events = 250000,
     equality_canonical_bytes = 128 * 1024 * 1024, equality_archive_bytes = 128 * 1024 * 1024,
     candidate_resources = candidate_safety_caps, memory_resources = memory_safety_caps\<rparr>"

fun candidate_limit :: "candidate_limits \<Rightarrow> candidate_kind \<Rightarrow> nat" where
  "candidate_limit l CandidatesPerWorkspace = candidates_per_workspace l"
| "candidate_limit l CandidateRevisionsPerWorkspace = candidate_revisions_per_workspace l"
| "candidate_limit l CandidateEventsPerArchive = candidate_events_per_archive l"
| "candidate_limit l CandidateActionsPerTransaction = candidate_actions_per_transaction l"
| "candidate_limit l CandidateBranches = candidate_branches l"
| "candidate_limit l RewriteMatchesPerContinuation = rewrite_matches_per_continuation l"
| "candidate_limit l RewriteStepsPerCandidate = rewrite_steps_per_candidate l"
| "candidate_limit l EvidenceRecords = evidence_records l"
| "candidate_limit l EvidenceBytes = evidence_bytes l"
| "candidate_limit l OpenEquivalenceObligations = open_equivalence_obligations l"
| "candidate_limit l DifferentialCases = differential_cases l"
| "candidate_limit l CandidateCanonicalV2Bytes = candidate_canonical_v2_bytes l"
| "candidate_limit l ProposalsPerWorkspace = proposals_per_workspace l"
| "candidate_limit l ProposalsPerCandidate = proposals_per_candidate l"
| "candidate_limit l ProposalActionsPerTransaction = proposal_actions_per_transaction l"
| "candidate_limit l ProposalFragmentOperations = proposal_fragment_operations l"
| "candidate_limit l ProposalFragmentValues = proposal_fragment_values l"
| "candidate_limit l ProposalEncodedBytes = proposal_encoded_bytes l"
| "candidate_limit l SpeculativeNodesPerCandidate = speculative_nodes_per_candidate l"
| "candidate_limit l SpeculativeDepthPerBranch = speculative_depth_per_branch l"
| "candidate_limit l UnknownActionsPerBranch = unknown_actions_per_branch l"
| "candidate_limit l OpenProofDebtObligations = open_proof_debt_obligations l"
| "candidate_limit l TranslationValidationAttempts = translation_validation_attempts l"
| "candidate_limit l TranslationValidationWorkUnits = translation_validation_work_units l"
| "candidate_limit l GuardedCandidates = guarded_candidates l"
| "candidate_limit l CounterexampleBytes = counterexample_bytes l"
| "candidate_limit l CandidateSemanticsV2Events = candidate_semantics_v2_events l"
| "candidate_limit l EqualityMaterializationSteps = equality_materialization_steps l"
| "candidate_limit l CandidateCanonicalV3Bytes = candidate_canonical_v3_bytes l"

fun memory_limit :: "memory_limits \<Rightarrow> memory_kind \<Rightarrow> nat" where
  "memory_limit l MemoryPlansPerWorkspace = memory_plans_per_workspace l"
| "memory_limit l MemoryRevisionsPerWorkspace = memory_revisions_per_workspace l"
| "memory_limit l MemoryEvents = memory_events l"
| "memory_limit l MemoryBuffersPerPlan = memory_buffers_per_plan l"
| "memory_limit l MemoryOperationsPerPlan = memory_operations_per_plan l"
| "memory_limit l MemoryAccessesPerPlan = memory_accesses_per_plan l"
| "memory_limit l MemoryAliasDomains = memory_alias_domains l"
| "memory_limit l MemoryAliasFacts = memory_alias_facts l"
| "memory_limit l MemoryLifetimePoints = memory_lifetime_points l"
| "memory_limit l MemoryLifetimeUses = memory_lifetime_uses l"
| "memory_limit l MemoryObligations = memory_obligations l"
| "memory_limit l MemoryReuseAttempts = memory_reuse_attempts l"
| "memory_limit l MemoryGuardDependencies = memory_guard_dependencies l"
| "memory_limit l MemoryGuardDepth = memory_guard_depth l"
| "memory_limit l MemoryFallbackDepth = memory_fallback_depth l"
| "memory_limit l MemoryLayoutEntries = memory_layout_entries l"
| "memory_limit l MemoryAllocationBytesPerBuffer = memory_allocation_bytes_per_buffer l"
| "memory_limit l MemoryTotalAllocationBytes = memory_total_allocation_bytes l"
| "memory_limit l MemoryCanonicalBytes = memory_canonical_bytes l"
| "memory_limit l MemoryArchiveBytes = memory_archive_bytes l"
| "memory_limit l MemoryEvaluationElements = memory_evaluation_elements l"
| "memory_limit l MemoryTraceEvents = memory_trace_events l"
| "memory_limit l MemoryTraceBytes = memory_trace_bytes l"
| "memory_limit l GeneratedMemoryCaseSize = generated_memory_case_size l"

fun limit :: "resource_limits \<Rightarrow> resource_kind \<Rightarrow> nat" where
  "limit l JsonlRequestBytes = jsonl_request_bytes l"
| "limit l ActionsPerTransaction = actions_per_transaction l"
| "limit l DimensionsPerProgram = dimensions_per_program l"
| "limit l OperationsPerProgram = operations_per_program l"
| "limit l ValuesPerProgram = values_per_program l"
| "limit l HolesPerProgram = holes_per_program l"
| "limit l ObligationsPerProgram = obligations_per_program l"
| "limit l ConstraintsPerProgram = constraints_per_program l"
| "limit l RegionArguments = region_arguments l"
| "limit l RegionOperations = region_operations l"
| "limit l OperandsPerOperation = operands_per_operation l"
| "limit l AttributeJsonBytes = attribute_json_bytes l"
| "limit l JsonNestingDepth = json_nesting_depth l"
| "limit l OutputCount = output_count l"
| "limit l ArchiveBytes = archive_bytes l"
| "limit l RevisionsPerArchive = revisions_per_archive l"
| "limit l EventsPerArchive = events_per_archive l"
| "limit l ActionsReplayedPerArchive = actions_replayed_per_archive l"
| "limit l CanonicalOutputBytes = canonical_output_bytes l"
| "limit l EvaluationTensorElements = evaluation_tensor_elements l"
| "limit l TotalEvaluationElements = total_evaluation_elements l"
| "limit l GeneratedCaseSize = generated_case_size l"
| "limit l ImplOperations = impl_operations l"
| "limit l ImplValues = impl_values l"
| "limit l CandidateCanonicalBytes = candidate_canonical_bytes l"
| "limit l EqualitySpacesPerWorkspace = equality_spaces_per_workspace l"
| "limit l EqualityRevisionsPerWorkspace = equality_revisions_per_workspace l"
| "limit l EqualityNodesPerSpace = equality_nodes_per_space l"
| "limit l EqualityEdgesPerSpace = equality_edges_per_space l"
| "limit l EqualityPendingWorkItems = equality_pending_work_items l"
| "limit l EqualityExpansionStepsPerRequest = equality_expansion_steps_per_request l"
| "limit l EqualitySaturationFuel = equality_saturation_fuel l"
| "limit l EqualityMatchesPerNode = equality_matches_per_node l"
| "limit l EqualityExplanationDepth = equality_explanation_depth l"
| "limit l EqualityProofPathEdges = equality_proof_path_edges l"
| "limit l EqualityEvents = equality_events l"
| "limit l EqualityCanonicalBytes = equality_canonical_bytes l"
| "limit l EqualityArchiveBytes = equality_archive_bytes l"
| "limit l (CandidateResource k) = candidate_limit (candidate_resources l) k"
| "limit l (MemoryResource k) = memory_limit (memory_resources l) k"

subsection \<open>Budget checks\<close>

definition ensure :: "resource_kind \<Rightarrow> nat \<Rightarrow> nat \<Rightarrow> string \<Rightarrow> unit res" where
  "ensure r lim actual ctx =
     (if actual \<le> lim then Inr ()
      else err ResourceLimitExceeded ''resource limit exceeded for {resource:?}'')"

definition against :: "resource_limits \<Rightarrow> resource_kind \<Rightarrow> nat \<Rightarrow> string \<Rightarrow> unit res" where
  "against ls r actual ctx = ensure r (limit ls r) actual ctx"

text \<open>Usage records are ordered maps from kinds to the last recorded value.\<close>

definition limits_within :: "resource_limits \<Rightarrow> resource_limits \<Rightarrow> bool" where
  "limits_within a b \<longleftrightarrow> (\<forall>r. limit a r \<le> limit b r)"

lemma ensure_ok_iff [simp]: "ensure r lim a ctx = Inr () \<longleftrightarrow> a \<le> lim"
  by (simp add: ensure_def)

lemma against_ok_iff [simp]: "against ls r a ctx = Inr () \<longleftrightarrow> a \<le> limit ls r"
  by (simp add: against_def)

lemma ensure_cases: "ensure r lim a ctx = Inr u \<longleftrightarrow> a \<le> lim"
  by (cases u) (simp add: ensure_def)

lemma against_cases: "against ls r a ctx = Inr u \<longleftrightarrow> a \<le> limit ls r"
  by (cases u) simp

lemma ensure_no_panic: "ensure r lim a ctx \<noteq> Inl Panic" "against ls r a ctx \<noteq> Inl Panic"
  by (simp_all add: ensure_def against_def)

lemma default_within_caps: "limits_within default_limits hard_safety_caps"
proof -
  have "candidate_limit default_candidate_limits k \<le> candidate_limit candidate_safety_caps k" for k
    by (cases k) (simp_all add: default_candidate_limits_def candidate_safety_caps_def)
  moreover have "memory_limit default_memory_limits k \<le> memory_limit memory_safety_caps k" for k
    by (cases k) (simp_all add: default_memory_limits_def memory_safety_caps_def)
  ultimately have "limit default_limits r \<le> limit hard_safety_caps r" for r
    by (cases r) (simp_all add: default_limits_def hard_safety_caps_def)
  then show ?thesis by (simp add: limits_within_def)
qed

text \<open>A check under configured limits is never weaker than the same check under the caps.\<close>

lemma against_within:
  "limits_within a b \<Longrightarrow> against a r n ctx = Inr () \<Longrightarrow> against b r n ctx = Inr ()"
  by (auto simp: limits_within_def intro: order_trans)

end
