(* ===== verification/Spec_IR.thy ===== *)
theory Spec_IR
  imports Constraints Floats Resources "HOL-Library.Word"
begin

text \<open>
  The data model of SpecIR: JSON values, identifiers and their allocator (\<open>ids.rs\<close>), the program
  graph (\<open>ir.rs\<close>), typed holes (\<open>holes.rs\<close>) and proof obligations (\<open>obligations.rs\<close>).
  Identifier newtypes are their canonical strings; a \<open>BTreeMap\<close> field is a \<open>bmap\<close>. A field
  name that several structs share carries its struct's initials.
\<close>

subsection \<open>JSON values\<close>

text \<open>
  \<open>serde_json::Value\<close>, with the three internal kinds of number; \<open>as_bool\<close>, \<open>as_i64\<close>,
  \<open>as_f64\<close> and \<open>as_str\<close> behave as that crate documents.
\<close>

datatype json_number = PosInt nat | NegInt int | Float fp

datatype json =
    JNull
  | JBool bool
  | JNumber json_number
  | JString string
  | JArray "json list"
  | JObject "(string \<times> json) list"

fun as_bool :: "json \<Rightarrow> bool option" where
  "as_bool (JBool b) = Some b"
| "as_bool _ = None"

fun as_str :: "json \<Rightarrow> string option" where
  "as_str (JString s) = Some s"
| "as_str _ = None"

fun as_array :: "json \<Rightarrow> json list option" where
  "as_array (JArray xs) = Some xs"
| "as_array _ = None"

definition is_array :: "json \<Rightarrow> bool" where
  "is_array j \<longleftrightarrow> as_array j \<noteq> None"

fun as_i64 :: "json \<Rightarrow> int option" where
  "as_i64 (JNumber (PosInt n)) = (if int n \<le> i64_max then Some (int n) else None)"
| "as_i64 (JNumber (NegInt i)) = Some i"
| "as_i64 _ = None"

fun as_f64 :: "json \<Rightarrow> fp option" where
  "as_f64 (JNumber (PosInt n)) = Some (fp_of_int binary64 (int n))"
| "as_f64 (JNumber (NegInt i)) = Some (fp_of_int binary64 i)"
| "as_f64 (JNumber (Float x)) = Some x"
| "as_f64 _ = None"

text \<open>\<open>i32::try_from\<close>; a 32-bit integer is a word read by \<open>sint\<close>.\<close>

type_synonym i32 = "32 word"

definition i32_try_from :: "int \<Rightarrow> i32 option" where
  "i32_try_from i = (if - 2147483648 \<le> i \<and> i \<le> 2147483647 then Some (word_of_int i) else None)"

lemma sint_i32_range: "- 2147483648 \<le> sint (w :: i32)" "sint (w :: i32) \<le> 2147483647"
  using sint_greater_eq [of w] sint_lt [of w] by simp_all

lemma i32_try_from_sint: "i32_try_from i = Some w \<longleftrightarrow> sint w = i"
proof
  assume "i32_try_from i = Some w"
  then have "- 2147483648 \<le> i" "i \<le> 2147483647" "w = word_of_int i"
    by (auto simp: i32_try_from_def split: if_splits)
  then show "sint w = i"
    by (simp add: sint_sbintrunc' signed_take_bit_int_eq_self)
next
  assume "sint w = i"
  then show "i32_try_from i = Some w"
    using sint_i32_range [of w] by (auto simp: i32_try_from_def)
qed

subsection \<open>Opcodes and constants\<close>

datatype opcode =
    Parameter | Constant | Add | Sub | Mul | Div | Fma | Compare | Select | Cast
  | Map | ZipMap | Reduce

fun show_opcode :: "opcode \<Rightarrow> string" where
  "show_opcode Parameter = ''parameter''" | "show_opcode Constant = ''constant''"
| "show_opcode Add = ''add''" | "show_opcode Sub = ''sub''" | "show_opcode Mul = ''mul''"
| "show_opcode Div = ''div''" | "show_opcode Fma = ''fma''" | "show_opcode Compare = ''compare''"
| "show_opcode Select = ''select''" | "show_opcode Cast = ''cast''" | "show_opcode Map = ''map''"
| "show_opcode ZipMap = ''zip_map''" | "show_opcode Reduce = ''reduce''"

definition all_opcodes :: "opcode list" where
  "all_opcodes = [Parameter, Constant, Add, Sub, Mul, Div, Fma, Compare, Select, Cast, Map, ZipMap, Reduce]"

definition parse_opcode :: "string \<Rightarrow> string + opcode" where
  "parse_opcode value =
     (case find (\<lambda>op. show_opcode op = value) all_opcodes of
        Some op \<Rightarrow> Inr op
      | None \<Rightarrow> Inl ''unknown opcode `{value}`'')"

datatype constant_value = CBool bool | CI32 i32 | CF32 string

text \<open>Hexadecimal text of \<open>f32\<close> bits: \<open>{:08x}\<close> and \<open>u32::from_str_radix(_, 16)\<close>.\<close>

definition hex_digit_char :: "nat \<Rightarrow> char" where
  "hex_digit_char d = (if d < 10 then char_of (48 + d) else char_of (87 + d))"

definition hex_digit_value :: "char \<Rightarrow> nat option" where
  "hex_digit_value c =
     (let n = char_code c in
      if 48 \<le> n \<and> n \<le> 57 then Some (n - 48)
      else if 97 \<le> n \<and> n \<le> 102 then Some (n - 87)
      else if 65 \<le> n \<and> n \<le> 70 then Some (n - 55)
      else None)"

fun show_hex :: "nat \<Rightarrow> nat \<Rightarrow> string" where
  "show_hex 0 n = []"
| "show_hex (Suc k) n = show_hex k (n div 16) @ [hex_digit_char (n mod 16)]"

fun hex_value :: "nat \<Rightarrow> string \<Rightarrow> nat option" where
  "hex_value acc [] = Some acc"
| "hex_value acc (c # cs) =
     (case hex_digit_value c of None \<Rightarrow> None | Some d \<Rightarrow> hex_value (16 * acc + d) cs)"

definition parse_hex_u32 :: "string \<Rightarrow> nat option" where
  "parse_hex_u32 s =
     (let ds = (case strip_prefix ''+'' s of Some r \<Rightarrow> r | None \<Rightarrow> s) in
      if ds = [] then None
      else case hex_value 0 ds of
        None \<Rightarrow> None
      | Some n \<Rightarrow> if n < 2 ^ 32 then Some n else None)"

text \<open>\<open>trim_start_matches("0x")\<close> removes the prefix as often as it occurs.\<close>

fun trim_0x :: "string \<Rightarrow> string" where
  "trim_0x (a # b # s) = (if a = CHR ''0'' \<and> b = CHR ''x'' then trim_0x s else a # b # s)"
| "trim_0x s = s"

definition from_json :: "scalar_type \<Rightarrow> json \<Rightarrow> string + constant_value" where
  "from_json t value =
     (case t of
        Bool \<Rightarrow> ok_or ''expected a JSON boolean'' (map_option CBool (as_bool value))
      | F32 \<Rightarrow>
          (case as_f64 value of
             Some number \<Rightarrow>
               Inr (CF32 (''0x'' @ show_hex 8 (f32_to_bits (fp_convert binary32 number))))
           | None \<Rightarrow>
               (case as_str value of
                  Some bits \<Rightarrow>
                    (case parse_hex_u32 (trim_0x bits) of
                       Some parsed \<Rightarrow> Inr (CF32 (''0x'' @ show_hex 8 parsed))
                     | None \<Rightarrow> Inl ''expected f32 number or 0x-prefixed bits'')
                | None \<Rightarrow> Inl ''expected f32 number or 0x-prefixed bits''))
      | _ \<Rightarrow>
          ok_or ''expected a JSON integer in i32 range''
            (map_option CI32 (Option.bind (as_i64 value) i32_try_from)))"

fun constant_scalar_type :: "constant_value \<Rightarrow> scalar_type" where
  "constant_scalar_type (CBool b) = Bool"
| "constant_scalar_type (CI32 i) = I32"
| "constant_scalar_type (CF32 bits) = F32"

fun as_f32 :: "constant_value \<Rightarrow> fp option" where
  "as_f32 (CF32 bits) = map_option f32_from_bits (parse_hex_u32 (trim_0x bits))"
| "as_f32 _ = None"

subsection \<open>Identifiers\<close>

record id_allocator =
  next_revision :: nat
  next_transaction :: nat
  next_action :: nat
  next_operation :: nat
  next_value :: nat
  next_dimension :: nat
  next_hole :: nat
  next_obligation :: nat
  next_frame :: nat

definition default_allocator :: id_allocator where
  "default_allocator = \<lparr>next_revision = 0, next_transaction = 0, next_action = 0, next_operation = 0,
     next_value = 0, next_dimension = 0, next_hole = 0, next_obligation = 0, next_frame = 0\<rparr>"

definition alloc_revision :: "id_allocator \<Rightarrow> id_allocator \<times> string" where
  "alloc_revision a = (let n = Suc (next_revision a) in (a\<lparr>next_revision := n\<rparr>, ''r'' @ show_nat n))"

definition alloc_transaction :: "id_allocator \<Rightarrow> id_allocator \<times> string" where
  "alloc_transaction a = (let n = Suc (next_transaction a) in (a\<lparr>next_transaction := n\<rparr>, ''tx'' @ show_nat n))"

definition alloc_action :: "id_allocator \<Rightarrow> id_allocator \<times> string" where
  "alloc_action a = (let n = Suc (next_action a) in (a\<lparr>next_action := n\<rparr>, ''a'' @ show_nat n))"

definition alloc_operation :: "id_allocator \<Rightarrow> id_allocator \<times> string" where
  "alloc_operation a = (let n = Suc (next_operation a) in (a\<lparr>next_operation := n\<rparr>, ''op'' @ show_nat n))"

definition alloc_value :: "id_allocator \<Rightarrow> id_allocator \<times> string" where
  "alloc_value a = (let n = Suc (next_value a) in (a\<lparr>next_value := n\<rparr>, ''v'' @ show_nat n))"

definition alloc_dimension :: "id_allocator \<Rightarrow> id_allocator \<times> string" where
  "alloc_dimension a = (let n = Suc (next_dimension a) in (a\<lparr>next_dimension := n\<rparr>, ''d'' @ show_nat n))"

definition alloc_hole :: "id_allocator \<Rightarrow> id_allocator \<times> string" where
  "alloc_hole a = (let n = Suc (next_hole a) in (a\<lparr>next_hole := n\<rparr>, ''h'' @ show_nat n))"

definition alloc_obligation :: "id_allocator \<Rightarrow> id_allocator \<times> string" where
  "alloc_obligation a = (let n = Suc (next_obligation a) in (a\<lparr>next_obligation := n\<rparr>, ''o'' @ show_nat n))"

subsection \<open>Regions, operations, values\<close>

datatype value_origin = OperationOrigin string | HoleOrigin string

record value_def =
  v_id :: string
  v_ty :: ty
  v_origin :: value_origin
  v_name :: "string option"

datatype region_value = Argument string | Local string | Capture string

record block_argument =
  arg_name :: string
  arg_ty :: ty

record region_operation =
  ro_result :: string
  ro_opcode :: opcode
  ro_operands :: "region_value list"
  ro_attributes :: "(string, json) bmap"
  ro_result_type :: ty

record region =
  rg_arguments :: "block_argument list"
  rg_captures :: "string list"
  rg_operations :: "region_operation list"
  rg_yield_value :: region_value
  rg_yield_type :: ty

record operation =
  op_id :: string
  op_opcode :: opcode
  op_operands :: "string list"
  op_results :: "string list"
  op_attributes :: "(string, json) bmap"
  op_region :: "region option"
  op_provenance :: string
  op_result_types :: "ty list"

record dimension =
  dim_id :: string
  dim_name :: string
  dim_non_negative :: bool
  dim_provenance :: string

subsection \<open>Holes and obligations\<close>

datatype hole_status = HoleOpen | HoleFilled

record hole =
  hole_id :: string
  placeholder :: string
  expected_type :: ty
  shape_constraints :: "shape_constraint list"
  hole_status :: hole_status
  hole_provenance :: string
  filled_with :: "string option"

datatype obligation_kind = TypeWellFormed | ShapeCompatible | HoleFilledKind | SpecComplete

datatype obligation_status = ObOpen | ObProved | ObRefuted | ObUnsupported

record obligation_origin =
  oo_revision :: "string option"
  oo_action :: string

datatype shape_obligation_context =
    OperationContext opcode "string list"
  | HoleContext string string

record shape_compatibility_proposition =
  left_type :: ty
  right_type :: ty
  involved_symbols_of :: "string list"
  ob_context :: shape_obligation_context

record proof_obligation =
  ob_id :: string
  ob_kind :: obligation_kind
  ob_proposition :: json
  shape_compatibility :: "shape_compatibility_proposition option"
  ob_origin :: obligation_origin
  ob_status :: obligation_status
  discharge_methods :: "string list"

subsection \<open>Programs\<close>

record program =
  dimensions :: "(string, dimension) bmap"
  dimension_names :: "(string, string) bmap"
  operations :: "(string, operation) bmap"
  operation_order :: "string list"
  vals :: "(string, value_def) bmap"
  parameters :: "(string, string) bmap"
  constants :: "(string, constant_value) bmap"
  outputs :: "(string, string) bmap"
  holes :: "(string, hole) bmap"
  constraints :: "shape_constraint list"
  obligations :: "(string, proof_obligation) bmap"
  numeric_contract_of :: numeric_contract
  frozen :: bool

definition default_program :: program where
  "default_program = \<lparr>dimensions = [], dimension_names = [], operations = [], operation_order = [],
     vals = [], parameters = [], constants = [], outputs = [], holes = [], constraints = [],
     obligations = [], numeric_contract_of = default_numeric_contract, frozen = False\<rparr>"

definition resolve_filled_value :: "program \<Rightarrow> string \<Rightarrow> string" where
  "resolve_filled_value prog value =
     (case bmap_get (vals prog) value of
        None \<Rightarrow> value
      | Some def \<Rightarrow>
          (case v_origin def of
             OperationOrigin _ \<Rightarrow> value
           | HoleOrigin h \<Rightarrow>
               (case Option.bind (bmap_get (holes prog) h) filled_with of
                  Some filled \<Rightarrow> filled
                | None \<Rightarrow> value)))"

text \<open>\<open>ConstraintFacts::from_program\<close>.\<close>

definition facts_from_program :: "program \<Rightarrow> constraint_facts res" where
  "facts_from_program prog =
     facts_of (map (\<lambda>d. (dim_name d, dim_non_negative d)) (bmap_values (dimensions prog))) (constraints prog)"

subsection \<open>Constants survive their text\<close>

lemma hex_digit_roundtrip: "d < 16 \<Longrightarrow> hex_digit_value (hex_digit_char d) = Some d"
  by (auto simp: hex_digit_value_def hex_digit_char_def char_code_def)

lemma hex_value_append:
  "hex_value a (xs @ ys) = (case hex_value a xs of None \<Rightarrow> None | Some b \<Rightarrow> hex_value b ys)"
  by (induction xs arbitrary: a) (auto split: option.splits)

lemma hex_value_show: "n < 16 ^ k \<Longrightarrow> hex_value 0 (show_hex k n) = Some n"
proof (induction k arbitrary: n)
  case (Suc k)
  then have "n div 16 < 16 ^ k" by (simp add: less_mult_imp_div_less mult.commute)
  with Suc.IH show ?case by (simp add: hex_value_append hex_digit_roundtrip)
qed simp

lemma length_show_hex [simp]: "length (show_hex k n) = k"
  by (induction k arbitrary: n) simp_all

lemma show_hex_digits: "c \<in> set (show_hex k n) \<Longrightarrow> \<exists>d<16. c = hex_digit_char d"
  by (induction k arbitrary: n) (auto intro: exI [of _ "n mod 16" for n])

lemma hex_char_special: "d < 16 \<Longrightarrow> hex_digit_char d \<noteq> CHR ''x'' \<and> hex_digit_char d \<noteq> CHR ''+''"
proof -
  assume d: "d < 16"
  have "hex_digit_value (CHR ''x'') = None" "hex_digit_value (CHR ''+'') = None"
    by (simp_all add: hex_digit_value_def char_code_def)
  then show ?thesis using hex_digit_roundtrip [OF d] by (metis option.distinct(1))
qed

lemma trim_0x_show: "trim_0x (''0x'' @ show_hex k n) = show_hex k n"
proof -
  have "CHR ''x'' \<notin> set (show_hex k n)"
    using show_hex_digits [of "CHR ''x''" k n] hex_char_special by metis
  then have "trim_0x (show_hex k n) = show_hex k n"
    by (cases "show_hex k n" rule: trim_0x.cases) auto
  then show ?thesis by simp
qed

lemma parse_hex_show:
  assumes "n < 2 ^ 32"
  shows "parse_hex_u32 (show_hex 8 n) = Some n"
proof -
  have "CHR ''+'' \<notin> set (show_hex 8 n)"
    using show_hex_digits [of "CHR ''+''" 8 n] hex_char_special by metis
  then have "strip_prefix ''+'' (show_hex 8 n) = None"
    by (cases "show_hex 8 n") auto
  moreover have "show_hex 8 n \<noteq> []" by (metis length_show_hex length_0_conv zero_neq_numeral)
  moreover have "hex_value 0 (show_hex 8 n) = Some n"
    using assms by (intro hex_value_show) simp
  ultimately show ?thesis using assms by (simp add: parse_hex_u32_def)
qed

end
