(* ===== verification/Canonical.thy ===== *)
theory Canonical
  imports Spec_IR
begin

text \<open>
  Content identity (\<open>agentir-core/src/canonical.rs\<close>) and the history-independent canonical form
  of a frozen specification (\<open>agentir-core/src/semantic.rs\<close>). Canonical dimensions, types and
  constraints have the constructors of the source types with renamed symbols, and are
  modelled by the same datatypes. The JSON encoders of \<open>serde_json\<close> and SHA-256 are parameters.
\<close>

subsection \<open>Canonical programs\<close>

type_synonym canonical_dim = dim_expr
type_synonym canonical_type = ty
type_synonym canonical_constraint = shape_constraint

datatype canonical_ref = ParameterRef string | NodeRef string nat

datatype canonical_region_value = CArgument string | CLocal string | COuter canonical_ref

record canonical_region_operation =
  cro_result :: string
  cro_opcode :: opcode
  cro_operands :: "canonical_region_value list"
  cro_attributes :: "(string, json) bmap"
  cro_result_type :: canonical_type

record canonical_region =
  crg_arguments :: "(string \<times> canonical_type) list"
  crg_operations :: "canonical_region_operation list"
  crg_yield_value :: canonical_region_value
  crg_yield_type :: canonical_type

record canonical_node =
  cn_id :: string
  cn_opcode :: opcode
  cn_operands :: "canonical_ref list"
  cn_attributes :: "(string, json) bmap"
  cn_region :: "canonical_region option"
  cn_result_types :: "canonical_type list"

record canonical_parameter =
  cp_id :: string
  cp_name :: string
  cp_ty :: canonical_type

record canonical_output =
  co_name :: string
  co_ty :: canonical_type
  co_value :: canonical_ref

record canonical_program =
  cprog_parameters :: "canonical_parameter list"
  cprog_outputs :: "canonical_output list"
  cprog_nodes :: "canonical_node list"
  cprog_constraints :: "canonical_constraint list"
  cprog_contract :: numeric_contract

text \<open>Encoders and the digest of the crates \<open>serde_json\<close> and \<open>sha2\<close>.\<close>

record encoders =
  encode_attributes :: "(string, json) bmap \<Rightarrow> string"
  encode_program :: "program \<Rightarrow> string"
  encode_canonical :: "canonical_program \<Rightarrow> string"
  sha256_hex :: "string \<Rightarrow> string"

definition canonical_bytes_with_limit :: "encoders \<Rightarrow> program \<Rightarrow> nat \<Rightarrow> string res" where
  "canonical_bytes_with_limit enc prog max_bytes =
     (let bytes = encode_program enc prog in
      rbind (ensure CanonicalOutputBytes max_bytes (length bytes) ''exact-state canonical serialization'')
        (\<lambda>_. Inr bytes))"

definition content_hash_with_limit :: "encoders \<Rightarrow> program \<Rightarrow> nat \<Rightarrow> string res" where
  "content_hash_with_limit enc prog max_bytes =
     rmap (sha256_hex enc) (canonical_bytes_with_limit enc prog max_bytes)"

subsection \<open>The canonicalizer\<close>

record canonicalizer =
  cz_dimensions :: "(string, string) bmap"
  cz_referenced :: "string bset"
  cz_parameters :: "(string, string) bmap"
  cz_nodes_by_operation :: "(string, nat) bmap"
  cz_visiting :: "string bset"
  cz_nodes :: "canonical_node list"

definition canonicalizer_new :: canonicalizer where
  "canonicalizer_new = \<lparr>cz_dimensions = [], cz_referenced = [], cz_parameters = [],
     cz_nodes_by_operation = [], cz_visiting = [], cz_nodes = []\<rparr>"

abbreviation canon_failure :: "string \<Rightarrow> 'a res" where
  "canon_failure m \<equiv> err CanonicalizationFailed m"

definition canonical_symbol :: "program \<Rightarrow> string \<Rightarrow> canonicalizer \<Rightarrow> (string \<times> canonicalizer) res" where
  "canonical_symbol prog symbol cz =
     (if \<not> bmap_contains (dimension_names prog) symbol
      then canon_failure ''semantic type or constraint references undeclared dimension `{symbol}`''
      else
        let cz1 = cz\<lparr>cz_referenced := bset_insert symbol (cz_referenced cz)\<rparr>;
            fresh = ''d'' @ show_nat (length (cz_dimensions cz))
        in case bmap_get (cz_dimensions cz) symbol of
             Some d \<Rightarrow> Inr (d, cz1)
           | None \<Rightarrow> Inr (fresh, cz1\<lparr>cz_dimensions := bmap_insert symbol fresh (cz_dimensions cz)\<rparr>))"

definition canonical_dim_expr :: "program \<Rightarrow> dim_expr \<Rightarrow> canonicalizer \<Rightarrow> (canonical_dim \<times> canonicalizer) res" where
  "canonical_dim_expr prog d cz =
     (case d of
        Static n \<Rightarrow> Inr (Static n, cz)
      | Symbol s \<Rightarrow> rmap (\<lambda>(s', cz). (Symbol s', cz)) (canonical_symbol prog s cz)
      | Affine c s k \<Rightarrow> rmap (\<lambda>(s', cz). (Affine c s' k, cz)) (canonical_symbol prog s cz))"

definition canonical_shape :: "program \<Rightarrow> shape \<Rightarrow> canonicalizer \<Rightarrow> (canonical_dim list \<times> canonicalizer) res" where
  "canonical_shape prog sh cz = traverse_st (canonical_dim_expr prog) sh cz"

definition canonical_ty :: "program \<Rightarrow> ty \<Rightarrow> canonicalizer \<Rightarrow> (canonical_type \<times> canonicalizer) res" where
  "canonical_ty prog t cz =
     (case t of
        Scalar s \<Rightarrow> Inr (Scalar s, cz)
      | Tensor e sh \<Rightarrow> rmap (\<lambda>(sh', cz). (Tensor e sh', cz)) (canonical_shape prog sh cz))"

text \<open>Attributes must not mention persistent identifiers, whose numbers depend on the history.\<close>

definition looks_like_persistent_reference :: "string \<Rightarrow> bool" where
  "looks_like_persistent_reference value0 =
     (let value = (case strip_prefix ''@'' value0 of Some r \<Rightarrow> r | None \<Rightarrow> value0) in
      list_ex (\<lambda>prefix.
        case strip_prefix prefix value of
          None \<Rightarrow> False
        | Some suffix \<Rightarrow> suffix \<noteq> [] \<and> list_all is_ascii_digit suffix)
        [''op'', ''tx'', ''cf'', ''v'', ''h'', ''o'', ''r'', ''a'', ''d''])"

fun stable_attribute :: "json \<Rightarrow> json res" where
  "stable_attribute (JArray xs) = rmap JArray (traverse stable_attribute xs)"
| "stable_attribute (JObject kvs) =
     rmap JObject (traverse (\<lambda>kv. rmap (Pair (fst kv)) (stable_attribute (snd kv))) kvs)"
| "stable_attribute (JString s) =
     (if looks_like_persistent_reference s
      then canon_failure ''semantic attribute contains unresolved persistent reference `{value}`''
      else Inr (JString s))"
| "stable_attribute j = Inr j"

definition stable_attributes :: "(string, json) bmap \<Rightarrow> (string, json) bmap res" where
  "stable_attributes attributes =
     rmap bmap_of_list (traverse (\<lambda>(k, j). rmap (Pair k) (stable_attribute j)) attributes)"

type_synonym visitor = "string \<Rightarrow> canonicalizer \<Rightarrow> (canonical_ref \<times> canonicalizer) res"

definition canonical_region_ref ::
    "visitor \<Rightarrow> (string, string) bmap \<Rightarrow> (string, string) bmap \<Rightarrow> region_value \<Rightarrow> canonicalizer \<Rightarrow>
     (canonical_region_value \<times> canonicalizer) res" where
  "canonical_region_ref visit arguments locals v cz =
     (case v of
        Argument a \<Rightarrow>
          rmap (\<lambda>n. (CArgument n, cz))
            (ok_or (Fail (agent_error_new CanonicalizationFailed ''unknown region argument `{argument}`''))
               (bmap_get arguments a))
      | Local l \<Rightarrow>
          rmap (\<lambda>n. (CLocal n, cz))
            (ok_or (Fail (agent_error_new CanonicalizationFailed ''unknown region local `{local}`''))
               (bmap_get locals l))
      | Capture c \<Rightarrow> rmap (\<lambda>(r, cz). (COuter r, cz)) (visit c cz))"

definition canonical_argument ::
    "program \<Rightarrow> nat \<times> block_argument \<Rightarrow> (string, string) bmap \<times> canonicalizer \<Rightarrow>
     ((string \<times> canonical_type) \<times> (string, string) bmap \<times> canonicalizer) res" where
  "canonical_argument prog p st =
     (let name = ''%arg'' @ show_nat (fst p); names = fst st in
      if bmap_contains names (arg_name (snd p))
      then canon_failure ''duplicate region argument `{}`''
      else rmap (\<lambda>(t, cz). ((name, t), bmap_insert (arg_name (snd p)) name names, cz))
             (canonical_ty prog (arg_ty (snd p)) (snd st)))"

definition canonical_region_step ::
    "program \<Rightarrow> visitor \<Rightarrow> (string, string) bmap \<Rightarrow> nat \<times> region_operation \<Rightarrow>
     (string, string) bmap \<times> canonicalizer \<Rightarrow>
     (canonical_region_operation \<times> (string, string) bmap \<times> canonicalizer) res" where
  "canonical_region_step prog visit arguments p st =
     (let result = ''%local'' @ show_nat (fst p); operation = snd p; locals = fst st in
      rbind (traverse_st (canonical_region_ref visit arguments locals) (ro_operands operation) (snd st))
        (\<lambda>(operands, cz).
      if bmap_contains locals (ro_result operation)
      then canon_failure ''duplicate region local `{}`''
      else
        rbind (stable_attributes (ro_attributes operation)) (\<lambda>attributes.
        rbind (canonical_ty prog (ro_result_type operation) cz) (\<lambda>(t, cz).
          Inr (\<lparr>cro_result = result, cro_opcode = ro_opcode operation, cro_operands = operands,
                cro_attributes = attributes, cro_result_type = t\<rparr>,
               bmap_insert (ro_result operation) result locals, cz)))))"

definition canonical_region_of ::
    "program \<Rightarrow> visitor \<Rightarrow> region \<Rightarrow> canonicalizer \<Rightarrow> (canonical_region \<times> canonicalizer) res" where
  "canonical_region_of prog visit rg cz =
     rbind (traverse_st (canonical_argument prog) (enumerate 0 (rg_arguments rg)) ([], cz))
       (\<lambda>(args, names, cz).
     rbind (traverse_st (canonical_region_step prog visit names) (enumerate 0 (rg_operations rg)) ([], cz))
       (\<lambda>(ops, locals, cz).
     rbind (canonical_region_ref visit names locals (rg_yield_value rg) cz) (\<lambda>(y, cz).
     rbind (canonical_ty prog (rg_yield_type rg) cz) (\<lambda>(yt, cz).
       Inr (\<lparr>crg_arguments = args, crg_operations = ops, crg_yield_value = y, crg_yield_type = yt\<rparr>, cz)))))"

definition canonical_optional_region ::
    "program \<Rightarrow> visitor \<Rightarrow> region option \<Rightarrow> canonicalizer \<Rightarrow> (canonical_region option \<times> canonicalizer) res" where
  "canonical_optional_region prog visit r cz =
     (case r of
        None \<Rightarrow> Inr (None, cz)
      | Some rg \<Rightarrow> rmap (\<lambda>(c, cz). (Some c, cz)) (canonical_region_of prog visit rg cz))"

text \<open>The part of \<open>value_ref\<close> that visits an operation for the first time.\<close>

definition visit_operation ::
    "program \<Rightarrow> visitor \<Rightarrow> string \<Rightarrow> operation \<Rightarrow> nat \<Rightarrow> canonicalizer \<Rightarrow>
     (canonical_ref \<times> canonicalizer) res" where
  "visit_operation prog visit oid operation result cz =
     (if bset_contains (cz_visiting cz) oid
      then canon_failure ''semantic graph contains a cycle at operation `{operation_id}`''
      else
        rbind (traverse_st visit (op_operands operation)
                 (cz\<lparr>cz_visiting := bset_insert oid (cz_visiting cz)\<rparr>)) (\<lambda>(operands, cz).
        rbind (canonical_optional_region prog visit (op_region operation) cz) (\<lambda>(rg, cz).
        rbind (traverse_st (canonical_ty prog) (op_result_types operation) cz) (\<lambda>(types, cz).
        if length (op_results operation) \<noteq> length types
        then canon_failure ''operation `{operation_id}` has mismatched result and type counts''
        else
          let node = length (cz_nodes cz) in
          rbind (stable_attributes (op_attributes operation)) (\<lambda>attributes.
            Inr (NodeRef (''n'' @ show_nat node) result,
                 cz\<lparr>cz_nodes := cz_nodes cz @
                       [\<lparr>cn_id = ''n'' @ show_nat node, cn_opcode = op_opcode operation,
                         cn_operands = operands, cn_attributes = attributes, cn_region = rg,
                         cn_result_types = types\<rparr>],
                    cz_nodes_by_operation := bmap_insert oid node (cz_nodes_by_operation cz),
                    cz_visiting := bset_remove oid (cz_visiting cz)\<rparr>))))))"

definition position :: "'a \<Rightarrow> 'a list \<Rightarrow> nat option" where
  "position x xs = (let n = length (takeWhile (\<lambda>y. y \<noteq> x) xs) in if n < length xs then Some n else None)"

text \<open>
  \<open>value_ref\<close> recurses through filled holes and operands. Only operations are guarded against
  cycles, so a cycle of holes does not end; \<open>canonical_fuel\<close> bounds every recursion that does.
\<close>

fun value_ref :: "program \<Rightarrow> nat \<Rightarrow> string \<Rightarrow> canonicalizer \<Rightarrow> (canonical_ref \<times> canonicalizer) res" where
  "value_ref prog 0 value cz = Inl Diverge"
| "value_ref prog (Suc fuel) value cz =
     (case bmap_get (cz_parameters cz) value of
        Some p \<Rightarrow> Inr (ParameterRef p, cz)
      | None \<Rightarrow>
          rbind (ok_or (Fail (agent_error_new CanonicalizationFailed ''semantic graph references missing value `{value}`''))
                   (bmap_get (vals prog) value)) (\<lambda>def.
          case v_origin def of
            HoleOrigin h \<Rightarrow>
              rbind (ok_or (Fail (agent_error_new SpecNotComplete ''semantic graph reaches open hole `{hole_id}`''))
                       (Option.bind (bmap_get (holes prog) h) filled_with)) (\<lambda>filled.
              value_ref prog fuel filled cz)
          | OperationOrigin oid \<Rightarrow>
              rbind (ok_or (Fail (agent_error_new CanonicalizationFailed ''value `{value}` references missing operation `{operation_id}`''))
                       (bmap_get (operations prog) oid)) (\<lambda>operation.
              rbind (ok_or (Fail (agent_error_new CanonicalizationFailed ''value `{value}` is not a result of operation `{operation_id}`''))
                       (position value (op_results operation))) (\<lambda>result.
              if op_opcode operation = Parameter
              then canon_failure ''reachable parameter value `{value}` is absent from the external interface''
              else (case bmap_get (cz_nodes_by_operation cz) oid of
                      Some node \<Rightarrow> Inr (NodeRef (''n'' @ show_nat node) result, cz)
                    | None \<Rightarrow> visit_operation prog (value_ref prog fuel) oid operation result cz)))))"

definition canonical_fuel :: "program \<Rightarrow> nat" where
  "canonical_fuel prog = Suc (Suc (length (operations prog)) * Suc (length (holes prog)))"

subsection \<open>Relevant constraints\<close>

definition canonical_constraint_of ::
    "program \<Rightarrow> shape_constraint \<Rightarrow> canonicalizer \<Rightarrow> (canonical_constraint \<times> canonicalizer) res" where
  "canonical_constraint_of prog c cz =
     (case c of
        Equal l r \<Rightarrow>
          rbind (canonical_shape prog l cz) (\<lambda>(l', cz).
          rbind (canonical_shape prog r cz) (\<lambda>(r', cz). Inr (Equal l' r', cz)))
      | NonNegative s \<Rightarrow> rmap (\<lambda>(s', cz). (NonNegative s', cz)) (canonical_symbol prog s cz))"

definition shape_symbol_set :: "shape \<Rightarrow> string bset" where
  "shape_symbol_set sh =
     bset_of_list (List.map_filter (\<lambda>d. case d of
        Static _ \<Rightarrow> None | Symbol s \<Rightarrow> Some s | Affine _ s _ \<Rightarrow> Some s) sh)"

definition constraint_symbol_set :: "shape_constraint \<Rightarrow> string bset" where
  "constraint_symbol_set c =
     (case c of
        Equal l r \<Rightarrow> fold bset_insert (shape_symbol_set r) (shape_symbol_set l)
      | NonNegative s \<Rightarrow> [s])"

text \<open>
  One pass of the closure loop: a constraint that mentions a referenced symbol (or none at
  all) is included and adds its symbols. Every pass but the last includes a constraint, so a
  pass for each constraint and one more is enough.
\<close>

fun relevant_pass ::
    "(bool \<times> shape_constraint) list \<Rightarrow> string bset \<Rightarrow> (bool \<times> shape_constraint) list \<times> string bset \<times> bool" where
  "relevant_pass [] refs = ([], refs, False)"
| "relevant_pass ((included, c) # cs) refs =
     (let symbols = constraint_symbol_set c in
      if \<not> included \<and> (symbols = [] \<or> list_ex (bset_contains refs) symbols)
      then let (cs', refs', _) = relevant_pass cs (fold bset_insert symbols refs)
           in ((True, c) # cs', refs', True)
      else let (cs', refs', changed) = relevant_pass cs refs
           in ((included, c) # cs', refs', changed))"

fun relevant_loop ::
    "nat \<Rightarrow> (bool \<times> shape_constraint) list \<Rightarrow> string bset \<Rightarrow> (bool \<times> shape_constraint) list \<times> string bset" where
  "relevant_loop 0 cs refs = (cs, refs)"
| "relevant_loop (Suc n) cs refs =
     (let (cs', refs', changed) = relevant_pass cs refs
      in if changed then relevant_loop n cs' refs' else (cs', refs'))"

definition signature_symbol ::
    "(string, string) bmap \<Rightarrow> string \<Rightarrow> (string, string) bmap \<Rightarrow> string \<times> (string, string) bmap" where
  "signature_symbol known symbol unknown =
     (case bmap_get known symbol of
        Some d \<Rightarrow> (d, unknown)
      | None \<Rightarrow>
          (case bmap_get unknown symbol of
             Some u \<Rightarrow> (u, unknown)
           | None \<Rightarrow> (let u = ''u'' @ show_nat (length unknown) in (u, bmap_insert symbol u unknown))))"

definition dimension_signature ::
    "(string, string) bmap \<Rightarrow> dim_expr \<Rightarrow> (string, string) bmap \<Rightarrow> string \<times> (string, string) bmap" where
  "dimension_signature known d unknown =
     (case d of
        Static n \<Rightarrow> (''s'' @ show_nat n, unknown)
      | Symbol s \<Rightarrow> (let (d, u) = signature_symbol known s unknown in (''y'' @ d, u))
      | Affine c s k \<Rightarrow>
          (let (d, u) = signature_symbol known s unknown
           in (''a'' @ show_int c @ '':'' @ d @ '':'' @ show_int k, u)))"

fun shape_signature ::
    "(string, string) bmap \<Rightarrow> shape \<Rightarrow> (string, string) bmap \<Rightarrow> string list \<times> (string, string) bmap" where
  "shape_signature known [] unknown = ([], unknown)"
| "shape_signature known (d # ds) unknown =
     (let (x, u) = dimension_signature known d unknown; (xs, u') = shape_signature known ds u in (x # xs, u'))"

definition constraint_signature :: "(string, string) bmap \<Rightarrow> shape_constraint \<Rightarrow> string" where
  "constraint_signature known c =
     (case c of
        Equal l r \<Rightarrow>
          (let (ls, u) = shape_signature known l []; (rs, _) = shape_signature known r u
           in ''equal:'' @ str_join '','' ls @ ''='' @ str_join '','' rs)
      | NonNegative s \<Rightarrow>
          ''non_negative:'' @ (case bmap_get known s of Some d \<Rightarrow> d | None \<Rightarrow> ''u0''))"

definition non_negative_constraint ::
    "program \<Rightarrow> string \<times> string \<Rightarrow> canonical_constraint list res" where
  "non_negative_constraint prog p =
     rbind (ok_or (Fail (agent_error_new CanonicalizationFailed ''undeclared dimension `{source}`''))
              (bmap_get (dimension_names prog) (fst p))) (\<lambda>did.
     rbind (ok_or (Fail (agent_error_new CanonicalizationFailed ''missing dimension declaration `{dimension_id}`''))
              (bmap_get (dimensions prog) did)) (\<lambda>dim.
       Inr (if dim_non_negative dim then [NonNegative (snd p)] else [])))"

definition relevant_constraints :: "program \<Rightarrow> canonicalizer \<Rightarrow> (canonical_constraint list \<times> canonicalizer) res" where
  "relevant_constraints prog cz =
     (let cs = constraints prog;
          (marked, refs) = relevant_loop (Suc (length cs)) (map (Pair False) cs) (cz_referenced cz);
          relevant = sort_key (constraint_signature (cz_dimensions cz)) (map snd (filter fst marked)) in
      rbind (traverse_st (canonical_constraint_of prog) relevant (cz\<lparr>cz_referenced := refs\<rparr>)) (\<lambda>(out, cz).
      rbind (traverse (non_negative_constraint prog) (cz_dimensions cz)) (\<lambda>nns.
        Inr (remdups_adj (sort (out @ concat nns)), cz))))"

subsection \<open>Building and hashing\<close>

definition build_parameter ::
    "program \<Rightarrow> nat \<times> string \<times> string \<Rightarrow> canonicalizer \<Rightarrow> (canonical_parameter \<times> canonicalizer) res" where
  "build_parameter prog p cz =
     (let (index, name, value) = p; pid = ''p'' @ show_nat index in
      rbind (ok_or (Fail (agent_error_new CanonicalizationFailed ''parameter `{name}` references missing value `{value}`''))
               (bmap_get (vals prog) value)) (\<lambda>def.
      rmap (\<lambda>(t, cz). (\<lparr>cp_id = pid, cp_name = name, cp_ty = t\<rparr>, cz))
        (canonical_ty prog (v_ty def)
           (cz\<lparr>cz_parameters := bmap_insert value pid (cz_parameters cz)\<rparr>))))"

definition build_output_type ::
    "program \<Rightarrow> string \<times> string \<Rightarrow> canonicalizer \<Rightarrow> ((string \<times> string \<times> canonical_type) \<times> canonicalizer) res" where
  "build_output_type prog p cz =
     rbind (ok_or (Fail (agent_error_new CanonicalizationFailed ''output `{name}` references missing value `{value}`''))
              (bmap_get (vals prog) (snd p))) (\<lambda>def.
     rmap (\<lambda>(t, cz). ((fst p, snd p, t), cz)) (canonical_ty prog (v_ty def) cz))"

definition build_output ::
    "program \<Rightarrow> string \<times> string \<times> canonical_type \<Rightarrow> canonicalizer \<Rightarrow> (canonical_output \<times> canonicalizer) res" where
  "build_output prog p cz =
     (let (name, value, t) = p in
      rmap (\<lambda>(r, cz). (\<lparr>co_name = name, co_ty = t, co_value = r\<rparr>, cz))
        (value_ref prog (canonical_fuel prog) value cz))"

definition canonical_build :: "program \<Rightarrow> canonical_program res" where
  "canonical_build prog =
     rbind (traverse_st (build_parameter prog) (enumerate 0 (parameters prog)) canonicalizer_new) (\<lambda>(params, cz).
     rbind (traverse_st (build_output_type prog) (outputs prog) cz) (\<lambda>(types, cz).
     rbind (traverse_st (build_output prog) types cz) (\<lambda>(outs, cz).
     rbind (relevant_constraints prog cz) (\<lambda>(cs, cz).
       Inr \<lparr>cprog_parameters = params, cprog_outputs = outs, cprog_nodes = cz_nodes cz,
            cprog_constraints = cs, cprog_contract = numeric_contract_of prog\<rparr>))))"

definition validate_complete :: "program \<Rightarrow> unit res" where
  "validate_complete prog =
     (if \<not> frozen prog
      then err SpecNotComplete ''semantic canonicalization requires a frozen specification''
      else if outputs prog = []
      then err SpecNotComplete ''semantic canonicalization requires at least one output''
      else if list_ex (\<lambda>h. filled_with h = None) (bmap_values (holes prog))
      then err SpecNotComplete ''semantic canonicalization requires every hole to be filled''
      else if list_ex (\<lambda>ob. ob_status ob = ObOpen) (bmap_values (obligations prog))
      then err SpecNotComplete ''semantic canonicalization requires discharged obligations''
      else Inr ())"

definition spec_canonical_version :: nat where "spec_canonical_version = 1"

definition spec_hash_domain :: string where
  "spec_hash_domain = ''agentir.spec.semantic.v1'' @ [CHR 0x00]"

definition canonicalize_spec_with_limit ::
    "encoders \<Rightarrow> program \<Rightarrow> nat \<Rightarrow> (canonical_program \<times> string \<times> string) res" where
  "canonicalize_spec_with_limit enc prog max_bytes =
     rbind (validate_complete prog) (\<lambda>_.
     rbind (canonical_build prog) (\<lambda>canonical.
     let bytes = encode_canonical enc canonical in
     rbind (ensure CanonicalOutputBytes max_bytes (length bytes) ''semantic canonical serialization'') (\<lambda>_.
       Inr (canonical, bytes, sha256_hex enc (spec_hash_domain @ bytes)))))"

definition semantic_metadata :: "encoders \<Rightarrow> program \<Rightarrow> nat \<Rightarrow> (string option \<times> nat option) res" where
  "semantic_metadata enc prog max_bytes =
     (if frozen prog
      then rmap (\<lambda>(_, _, h). (Some h, Some spec_canonical_version)) (canonicalize_spec_with_limit enc prog max_bytes)
      else Inr (None, None))"

end
