(* ===== verification/Constraint_Proofs.thy ===== *)
theory Constraint_Proofs
  imports Constraints
begin

text \<open>
  The fact engine is sound: its invariant is kept by every operation, a proof holds and a
  contradiction fails in every valuation that satisfies the accepted constraints, and a
  rejected constraint is inconsistent with them.
\<close>

subsection \<open>Invariant\<close>

text \<open>
  Every parent is a root (classes are kept flat), only roots have static bindings, and every
  symbol of an accepted constraint is declared.
\<close>

definition flat :: "constraint_facts \<Rightarrow> bool" where
  "flat f \<longleftrightarrow> (\<forall>k p. bmap_get (parent f) k = Some p \<longrightarrow> bmap_get (parent f) p = Some p)"

definition roots_bound :: "constraint_facts \<Rightarrow> bool" where
  "roots_bound f \<longleftrightarrow>
     (\<forall>r n. bmap_get (static_bindings f) r = Some n \<longrightarrow> bmap_get (parent f) r = Some r)"

definition declared :: "constraint_facts \<Rightarrow> shape_constraint \<Rightarrow> bool" where
  "declared f c \<longleftrightarrow> (\<forall>s\<in>set (constraint_symbols c). bmap_contains (parent f) s)"

definition facts_wf :: "constraint_facts \<Rightarrow> bool" where
  "facts_wf f \<longleftrightarrow> flat f \<and> roots_bound f \<and> (\<forall>c\<in>set (accepted f). declared f c)"

text \<open>A valuation obeys the classes and bindings of the engine's state.\<close>

definition obeys :: "valuation \<Rightarrow> constraint_facts \<Rightarrow> bool" where
  "obeys v f \<longleftrightarrow>
     (\<forall>k p. bmap_get (parent f) k = Some p \<longrightarrow> v k = v p) \<and>
     (\<forall>r n. bmap_get (static_bindings f) r = Some n \<longrightarrow> v r = n)"

definition admits :: "constraint_facts \<Rightarrow> valuation \<Rightarrow> bool" where
  "admits f v \<longleftrightarrow> (\<forall>c\<in>set (accepted f). satisfies v c)"

text \<open>What the state claims follows from the accepted constraints.\<close>

definition facts_inv :: "constraint_facts \<Rightarrow> bool" where
  "facts_inv f \<longleftrightarrow> facts_wf f \<and> (\<forall>v. admits f v \<longrightarrow> obeys v f)"

lemma facts_wf_flat: "facts_wf f \<Longrightarrow> flat f"
  by (simp add: facts_wf_def)

lemma facts_inv_wf: "facts_inv f \<Longrightarrow> facts_wf f"
  by (simp add: facts_inv_def)

lemma facts_inv_obeys: "facts_inv f \<Longrightarrow> admits f v \<Longrightarrow> obeys v f"
  by (simp add: facts_inv_def)

lemma obeys_parent: "obeys v f \<Longrightarrow> bmap_get (parent f) k = Some p \<Longrightarrow> v k = v p"
  by (simp add: obeys_def)

lemma obeys_static: "obeys v f \<Longrightarrow> bmap_get (static_bindings f) r = Some n \<Longrightarrow> v r = n"
  by (simp add: obeys_def)

lemma facts_inv_empty: "facts_inv empty_facts"
  by (simp add: facts_inv_def facts_wf_def flat_def roots_bound_def obeys_def empty_facts_def)

subsection \<open>Roots\<close>

text \<open>In a flat state the walk ends after one step, so it never runs out of fuel.\<close>

lemma root_flat:
  "flat f \<Longrightarrow> root f s =
     (case bmap_get (parent f) s of
        None \<Rightarrow> err InvalidConstraint ''constraint references undeclared dimension `{symbol}`''
      | Some r \<Rightarrow> Inr r)"
  by (auto simp: root_def flat_def split: option.splits)

lemma root_Inr: "flat f \<Longrightarrow> root f s = Inr r \<longleftrightarrow> bmap_get (parent f) s = Some r"
  by (auto simp: root_flat split: option.splits)

lemma root_declared: "flat f \<Longrightarrow> bmap_contains (parent f) s \<Longrightarrow> \<exists>r. root f s = Inr r"
  by (auto simp: root_Inr elim: bmap_containsE)

lemma root_idem: "flat f \<Longrightarrow> root f s = Inr r \<Longrightarrow> bmap_get (parent f) r = Some r"
  by (auto simp: root_Inr flat_def)

subsection \<open>Normal forms keep the value\<close>

fun eval_normalized :: "valuation \<Rightarrow> normalized_dim \<Rightarrow> int" where
  "eval_normalized v (NStatic i) = i"
| "eval_normalized v (NAffine c s k) = c * int (v s) + k"

lemma normalize_dim_eval:
  assumes "flat f" "obeys v f" "normalize_dim f d = Inr n"
  shows "eval_normalized v n = eval_dim v d"
  using assms
  by (auto simp: normalize_dim_def rbind_Inr_iff root_Inr
      obeys_parent [OF assms(2)] obeys_static [OF assms(2)] split: dim_expr.splits option.splits)

definition dim_declared :: "constraint_facts \<Rightarrow> dim_expr \<Rightarrow> bool" where
  "dim_declared f d \<longleftrightarrow> (\<forall>s\<in>set (dim_symbols d). bmap_contains (parent f) s)"

lemma normalize_dim_total: "flat f \<Longrightarrow> dim_declared f d \<Longrightarrow> \<exists>n. normalize_dim f d = Inr n"
  using root_declared [of f]
  by (cases d) (fastforce simp: normalize_dim_def dim_declared_def split: option.splits)+

lemma declared_dims:
  "declared f (Equal l r) \<longleftrightarrow> (\<forall>d\<in>set l \<union> set r. dim_declared f d)"
  by (auto simp: declared_def dim_declared_def)

lemma declared_zip:
  "declared f (Equal l r) \<Longrightarrow> (a, b) \<in> set (zip l r) \<Longrightarrow> dim_declared f a \<and> dim_declared f b"
  by (auto simp: declared_dims dest: set_zip_leftD set_zip_rightD)

subsection \<open>Raw queries\<close>

definition norm_clash :: "normalized_dim \<Rightarrow> normalized_dim \<Rightarrow> bool" where
  "norm_clash a b \<longleftrightarrow>
     (\<exists>i j. a = NStatic i \<and> b = NStatic j \<and> i \<noteq> j) \<or>
     (\<exists>c s k k'. a = NAffine c s k \<and> b = NAffine c s k' \<and> k \<noteq> k')"

lemma norm_clash_eval: "norm_clash a b \<Longrightarrow> eval_normalized v a \<noteq> eval_normalized v b"
  by (auto simp: norm_clash_def)

lemma compare_loop_Cons:
  assumes "normalize_dim f ld = Inr ln" "normalize_dim f rd = Inr rn"
  shows "compare_loop f u ((ld, rd) # ds) =
    (if ln = rn then compare_loop f u ds
     else if norm_clash ln rn then Inr (RawContradiction (show_normalized ln) (show_normalized rn))
     else compare_loop f True ds)"
  using assms by (cases ln; cases rn) (auto simp: norm_clash_def)

lemma compare_loop_proved:
  "compare_loop f u ds = Inr RawProved \<Longrightarrow>
   \<not> u \<and> (\<forall>(l, r)\<in>set ds. \<exists>n. normalize_dim f l = Inr n \<and> normalize_dim f r = Inr n)"
proof (induction ds arbitrary: u)
  case (Cons p ds)
  obtain l r where [simp]: "p = (l, r)" by fastforce
  from Cons.prems obtain ln rn where n: "normalize_dim f l = Inr ln" "normalize_dim f r = Inr rn"
    by (auto simp: rbind_Inr_iff)
  from Cons.prems Cons.IH [of u] Cons.IH [of True] show ?case
    by (auto simp: compare_loop_Cons [OF n] n simp del: compare_loop.simps split: if_splits)
qed (simp split: if_splits)

lemma compare_loop_contradiction:
  "compare_loop f u ds = Inr (RawContradiction e a) \<Longrightarrow>
   \<exists>l r ln rn. (l, r) \<in> set ds \<and> normalize_dim f l = Inr ln \<and> normalize_dim f r = Inr rn \<and> norm_clash ln rn"
proof (induction ds arbitrary: u)
  case (Cons p ds)
  obtain l r where [simp]: "p = (l, r)" by fastforce
  from Cons.prems obtain ln rn where n: "normalize_dim f l = Inr ln" "normalize_dim f r = Inr rn"
    by (auto simp: rbind_Inr_iff)
  from Cons.prems Cons.IH [of u] Cons.IH [of True] show ?case
    by (auto simp: compare_loop_Cons [OF n] simp del: compare_loop.simps split: if_splits)
       (use n in blast)+
qed (simp split: if_splits)

lemma compare_loop_total:
  assumes "flat f" "\<forall>(l, r)\<in>set ds. dim_declared f l \<and> dim_declared f r"
  shows "\<exists>q. compare_loop f u ds = Inr q"
  using assms(2)
proof (induction ds arbitrary: u)
  case (Cons p ds)
  obtain l r where [simp]: "p = (l, r)" by fastforce
  from Cons.prems normalize_dim_total [OF assms(1)] obtain ln rn where
    n: "normalize_dim f l = Inr ln" "normalize_dim f r = Inr rn" by force
  from Cons.prems Cons.IH [of u] Cons.IH [of True] show ?case
    by (auto simp: compare_loop_Cons [OF n] simp del: compare_loop.simps)
qed simp

lemma query_raw_proved:
  assumes "flat f" "obeys v f" "query_shapes_raw f l r = Inr RawProved"
  shows "eval_shape v l = eval_shape v r"
proof -
  from assms(3) have len: "length l = length r" and loop: "compare_loop f False (zip l r) = Inr RawProved"
    by (auto simp: query_shapes_raw_def split: if_splits)
  have "eval_dim v a = eval_dim v b" if "(a, b) \<in> set (zip l r)" for a b
  proof -
    from compare_loop_proved [OF loop] that
    obtain n where "normalize_dim f a = Inr n" "normalize_dim f b = Inr n" by blast
    then show ?thesis using normalize_dim_eval [OF assms(1,2)] by metis
  qed
  then show ?thesis using len by (auto simp: eval_shape_eq_iff)
qed

lemma query_raw_contradiction:
  assumes "flat f" "obeys v f" "query_shapes_raw f l r = Inr (RawContradiction e a)"
  shows "eval_shape v l \<noteq> eval_shape v r"
proof (cases "length l = length r")
  case True
  with assms(3) have "compare_loop f False (zip l r) = Inr (RawContradiction e a)"
    by (simp add: query_shapes_raw_def)
  then obtain x y nx ny where "(x, y) \<in> set (zip l r)" "normalize_dim f x = Inr nx"
    "normalize_dim f y = Inr ny" "norm_clash nx ny"
    using compare_loop_contradiction by blast
  then have "(x, y) \<in> set (zip l r)" "eval_dim v x \<noteq> eval_dim v y"
    using norm_clash_eval normalize_dim_eval [OF assms(1,2)] by metis+
  then show ?thesis using True by (auto simp: eval_shape_eq_iff)
qed (use eval_shape_length in blast)

lemma query_raw_total: "flat f \<Longrightarrow> declared f (Equal l r) \<Longrightarrow> \<exists>q. query_shapes_raw f l r = Inr q"
  using compare_loop_total [of f "zip l r" False] declared_zip [of f l r]
  by (auto simp: query_shapes_raw_def)

subsection \<open>Queries\<close>

lemma normalize_shape_total:
  "flat f \<Longrightarrow> \<forall>d\<in>set sh. dim_declared f d \<Longrightarrow> \<exists>s. normalize_shape f sh = Inr s"
proof -
  assume f: "flat f" and d: "\<forall>d\<in>set sh. dim_declared f d"
  have "\<exists>ys. traverse (\<lambda>d. rmap show_normalized (normalize_dim f d)) sh = Inr ys"
    by (rule traverse_ex_ok) (use normalize_dim_total [OF f] d in force)
  then show "\<exists>s. normalize_shape f sh = Inr s"
    by (auto simp: normalize_shape_def)
qed

lemma proved_result_total:
  "flat f \<Longrightarrow> declared f (Equal l r) \<Longrightarrow> \<exists>p. proved_result f l r = Inr (QProved p)"
  using normalize_shape_total [of f l] normalize_shape_total [of f r]
  by (auto simp: proved_result_def declared_dims)

lemma proved_result_QProved: "proved_result f l r = Inr q \<Longrightarrow> \<exists>p. q = QProved p"
  by (auto simp: proved_result_def rbind_Inr_iff)

lemma query_shapes_sound:
  assumes inv: "facts_inv f" and v: "admits f v" and q: "query_shapes f l r = Inr q"
  shows "(\<exists>p. q = QProved p) \<Longrightarrow> eval_shape v l = eval_shape v r"
    and "(\<exists>c. q = QContradiction c) \<Longrightarrow> eval_shape v l \<noteq> eval_shape v r"
proof -
  note fl = facts_wf_flat [OF facts_inv_wf [OF inv]] and ob = facts_inv_obeys [OF inv v]
  show "eval_shape v l = eval_shape v r" if "\<exists>p. q = QProved p"
  proof (cases "bset_contains (accepted f) (Equal l r) \<or> bset_contains (accepted f) (Equal r l)")
    case True
    then show ?thesis using v by (auto simp: admits_def bset_contains_def)
  next
    case False
    then have "query_shapes_raw f l r = Inr RawProved"
      using q that
      by (cases "query_shapes_raw f l r") (auto simp: query_shapes_def contradiction_def split: raw_query.split_asm)
    then show ?thesis by (rule query_raw_proved [OF fl ob])
  qed
  show "eval_shape v l \<noteq> eval_shape v r" if "\<exists>c. q = QContradiction c"
  proof -
    have "\<exists>e a. query_shapes_raw f l r = Inr (RawContradiction e a)"
      using q that
      by (cases "query_shapes_raw f l r")
         (auto simp: query_shapes_def split: raw_query.split_asm if_splits dest!: proved_result_QProved)
    then show ?thesis using query_raw_contradiction [OF fl ob] by blast
  qed
qed

lemma query_shapes_total:
  "facts_wf f \<Longrightarrow> declared f (Equal l r) \<Longrightarrow> \<exists>q. query_shapes f l r = Inr q"
  using query_raw_total [of f l r] proved_result_total [of f l r]
  by (auto simp: query_shapes_def facts_wf_def split: raw_query.splits)

lemma query_shapes_accepted:
  "facts_wf f \<Longrightarrow> Equal l r \<in> set (accepted f) \<Longrightarrow> \<exists>p. query_shapes f l r = Inr (QProved p)"
  using proved_result_total [of f l r]
  by (auto simp: query_shapes_def facts_wf_def bset_contains_def)

text \<open>The engine as a shape oracle.\<close>

definition fact_status :: "constraint_facts \<Rightarrow> shape \<Rightarrow> shape \<Rightarrow> solver_status" where
  "fact_status f l r =
     (case query_shapes f l r of
        Inr (QProved _) \<Rightarrow> Proved
      | Inr (QContradiction _) \<Rightarrow> Contradiction
      | _ \<Rightarrow> Unknown)"

interpretation fact_engine: shape_oracle "fact_status f" "\<lambda>v. facts_inv f \<and> admits f v" for f
  by unfold_locales
     (auto simp: fact_status_def query_shapes_sound
       split: sum.splits constraint_query_result.splits)

subsection \<open>One step of the engine\<close>

text \<open>
  \<open>extends P f f'\<close>: the new state is flat, speaks of the same symbols and constraints, and
  claims nothing beyond the old state and \<open>P\<close>.
\<close>

definition extends :: "(valuation \<Rightarrow> bool) \<Rightarrow> constraint_facts \<Rightarrow> constraint_facts \<Rightarrow> bool" where
  "extends P f f' \<longleftrightarrow>
     flat f' \<and> roots_bound f' \<and> accepted f' = accepted f \<and>
     (\<forall>k. bmap_contains (parent f') k \<longleftrightarrow> bmap_contains (parent f) k) \<and>
     (\<forall>v. obeys v f \<longrightarrow> P v \<longrightarrow> obeys v f')"

definition step_spec :: "(valuation \<Rightarrow> bool) \<Rightarrow> constraint_facts \<Rightarrow> constraint_facts res \<Rightarrow> bool" where
  "step_spec P f r \<longleftrightarrow>
     (case r of
        Inr f' \<Rightarrow> extends P f f'
      | Inl e \<Rightarrow> (\<exists>ae. e = Fail ae \<and> code ae = ConstraintContradiction) \<and> (\<forall>v. obeys v f \<longrightarrow> \<not> P v))"

lemma extends_refl: "flat f \<Longrightarrow> roots_bound f \<Longrightarrow> extends P f f"
  by (simp add: extends_def)

lemma extends_trans:
  "extends P f g \<Longrightarrow> extends Q g h \<Longrightarrow> extends (\<lambda>v. P v \<and> Q v) f h"
  by (simp add: extends_def)

lemma contradiction_error_code [simp]:
  "\<exists>ae. contradiction_error f c ex ac = Fail ae \<and> code ae = ConstraintContradiction"
  by (simp add: contradiction_error_def)

lemma get_redirect:
  "bmap_get (redirect_parents rep old p) k =
     (if k = old then Some rep
      else map_option (\<lambda>q. if q = old then rep else q) (bmap_get p k))"
  by (simp add: redirect_parents_def)

lemma redirect_contains:
  "bmap_contains p old \<Longrightarrow> bmap_contains (redirect_parents rep old p) k \<longleftrightarrow> bmap_contains p k"
  by (auto simp: redirect_parents_def)

lemma merge_roots_spec:
  assumes f: "flat f" "roots_bound f"
    and rep: "bmap_get (parent f) rep = Some rep" and old: "bmap_get (parent f) old = Some old"
    and ne: "rep \<noteq> old"
  shows "step_spec (\<lambda>v. v rep = v old) f (merge_roots c rep old f)"
proof -
  let ?p = "redirect_parents rep old (parent f)"
  have dom: "bmap_contains ?p k \<longleftrightarrow> bmap_contains (parent f) k" for k
    using old by (intro redirect_contains) (rule bmap_containsI)
  have flat': "bmap_get ?p k = Some q \<Longrightarrow> bmap_get ?p q = Some q" for k q
    using f(1) rep ne by (auto simp: get_redirect flat_def split: if_splits)
  have bound': "bmap_get (static_bindings f) r = Some n \<Longrightarrow> r \<noteq> old \<Longrightarrow> bmap_get ?p r = Some r" for r n
    using f(2) by (auto simp: get_redirect roots_bound_def)
  have rep': "bmap_get ?p rep = Some rep" using rep ne by (simp add: get_redirect)
  have par: "obeys v f \<Longrightarrow> v rep = v old \<Longrightarrow> bmap_get ?p k = Some q \<Longrightarrow> v k = v q" for v k q
    by (auto simp: get_redirect split: if_splits) (metis obeys_parent)+
  have clash: "bmap_get (static_bindings f) rep = Some a \<Longrightarrow> bmap_get (static_bindings f) old = Some b \<Longrightarrow>
      a \<noteq> b \<Longrightarrow> obeys v f \<Longrightarrow> v rep \<noteq> v old" for a b v
    using obeys_static by metis
  show ?thesis
    using flat' bound' rep' par clash dom
    by (auto simp: step_spec_def merge_roots_def Let_def extends_def flat_def roots_bound_def
        obeys_def split: option.splits if_splits)
qed

lemma union_symbols_spec:
  assumes "flat f" "roots_bound f" "bmap_contains (parent f) l" "bmap_contains (parent f) r"
  shows "step_spec (\<lambda>v. v l = v r) f (union_symbols l r f)"
proof -
  obtain lr rr where roots: "root f l = Inr lr" "root f r = Inr rr"
    using root_declared assms by blast
  note par = roots [unfolded root_Inr [OF assms(1)]]
    and idem = root_idem [OF assms(1) roots(1)] root_idem [OF assms(1) roots(2)]
  have eq: "obeys v f \<Longrightarrow> v l = v r \<longleftrightarrow> v lr = v rr" for v
    using obeys_parent par by metis
  have merge: "step_spec (\<lambda>v. v l = v r) f (merge_roots c a b f)"
    if "{a, b} = {lr, rr}" "a \<noteq> b" for a b c
  proof -
    have "step_spec (\<lambda>v. v a = v b) f (merge_roots c a b f)"
      using that idem assms(1,2) by (intro merge_roots_spec) (auto simp: doubleton_eq_iff)
    moreover have "v a = v b \<longleftrightarrow> v l = v r" if "obeys v f" for v
      using eq [OF that] \<open>{a, b} = {lr, rr}\<close> by (auto simp: doubleton_eq_iff)
    ultimately show ?thesis
      by (auto simp: step_spec_def extends_def split: sum.splits)
  qed
  show ?thesis
    using merge [of lr rr] merge [of rr lr] extends_refl [OF assms(1,2)]
    by (auto simp: union_symbols_def roots step_spec_def insert_commute)
qed

lemma bind_static_spec:
  assumes "flat f" "roots_bound f" "bmap_contains (parent f) s"
  shows "step_spec (\<lambda>v. v s = n) f (bind_static s n f)"
proof -
  obtain r where r: "root f s = Inr r" using root_declared assms by blast
  note par = r [unfolded root_Inr [OF assms(1)]] and idem = root_idem [OF assms(1) r]
  have eq: "obeys v f \<Longrightarrow> v s = v r" for v using obeys_parent par by metis
  show ?thesis
  proof (cases "bmap_get (static_bindings f) r")
    case None
    let ?f = "f\<lparr>static_bindings := bmap_insert r n (static_bindings f)\<rparr>"
    have "obeys v f \<Longrightarrow> v s = n \<Longrightarrow> obeys v ?f" for v
      using eq [of v] by (simp add: obeys_def)
    then have "extends (\<lambda>v. v s = n) f ?f"
      using assms(1,2) idem by (simp add: extends_def flat_def roots_bound_def)
    with None show ?thesis by (simp add: step_spec_def bind_static_def r)
  next
    case (Some m)
    have "v s = m" if "obeys v f" for v
      using eq [OF that] obeys_static [OF that Some] by simp
    with Some show ?thesis
      using extends_refl [OF assms(1,2)] by (auto simp: step_spec_def bind_static_def r)
  qed
qed

definition same_value :: "dim_expr \<times> dim_expr \<Rightarrow> valuation \<Rightarrow> bool" where
  "same_value p v \<longleftrightarrow> eval_dim v (fst p) = eval_dim v (snd p)"

lemma step_spec_weaken:
  "step_spec P f r \<Longrightarrow> (\<And>v. P v \<longleftrightarrow> Q v) \<Longrightarrow> step_spec Q f r"
  by (auto simp: step_spec_def extends_def split: sum.splits)

lemma add_equality_fact_spec:
  assumes "flat f" "roots_bound f" "dim_declared f (fst p)" "dim_declared f (snd p)"
  shows "step_spec (same_value p) f (add_equality_fact f p)"
proof (cases "(f, p)" rule: add_equality_fact.cases)
  case (1 f' l r)
  with assms show ?thesis
    using step_spec_weaken [OF union_symbols_spec [of f l r]]
    by (auto simp: same_value_def dim_declared_def)
next
  case (2 f' s n)
  with assms show ?thesis
    using step_spec_weaken [OF bind_static_spec [of f s n]]
    by (auto simp: same_value_def dim_declared_def)
next
  case (3 f' n s)
  with assms have "step_spec (same_value p) f (bind_static s n f)"
    by (intro step_spec_weaken [OF bind_static_spec [of f s n]])
       (auto simp: same_value_def dim_declared_def)
  with 3 show ?thesis by simp
qed (use extends_refl [OF assms(1,2)] in \<open>auto simp: step_spec_def\<close>)

subsection \<open>Staging and insertion\<close>

lemma step_spec_then:
  assumes "step_spec P f r" "\<And>g. extends P f g \<Longrightarrow> step_spec Q g (k g)"
  shows "step_spec (\<lambda>v. P v \<and> Q v) f (rbind r k)"
proof (cases r)
  case (Inl e)
  then show ?thesis using assms(1) by (auto simp: step_spec_def)
next
  case (Inr g)
  with assms have ext: "extends P f g" and k: "step_spec Q g (k g)"
    by (auto simp: step_spec_def)
  show ?thesis
  proof (cases "k g")
    case (Inl e)
    then show ?thesis using Inr ext k by (auto simp: step_spec_def extends_def)
  next
    case (Inr h)
    then show ?thesis using \<open>r = Inr g\<close> extends_trans [OF ext] k by (auto simp: step_spec_def)
  qed
qed

lemma dim_declared_extends:
  "extends P f g \<Longrightarrow> dim_declared g d \<longleftrightarrow> dim_declared f d"
  by (simp add: extends_def dim_declared_def)

lemma add_equalities_spec:
  assumes "flat f" "roots_bound f" "\<forall>p\<in>set ps. dim_declared f (fst p) \<and> dim_declared f (snd p)"
  shows "step_spec (\<lambda>v. \<forall>p\<in>set ps. same_value p v) f (rfold add_equality_fact f ps)"
  using assms
proof (induction ps arbitrary: f)
  case Nil
  then show ?case by (simp add: step_spec_def extends_refl)
next
  case (Cons p ps)
  have "step_spec (\<lambda>v. same_value p v \<and> (\<forall>p\<in>set ps. same_value p v)) f
      (rbind (add_equality_fact f p) (\<lambda>g. rfold add_equality_fact g ps))"
  proof (rule step_spec_then)
    show "step_spec (same_value p) f (add_equality_fact f p)"
      using Cons.prems by (intro add_equality_fact_spec) auto
    fix g assume g: "extends (same_value p) f g"
    then show "step_spec (\<lambda>v. \<forall>p\<in>set ps. same_value p v) g (rfold add_equality_fact g ps)"
      using Cons.prems by (intro Cons.IH) (auto simp: dim_declared_extends [OF g] extends_def)
  qed
  then show ?case by simp
qed

lemma satisfies_Equal_zip:
  "length l = length r \<Longrightarrow> satisfies v (Equal l r) \<longleftrightarrow> (\<forall>p\<in>set (zip l r). same_value p v)"
  by (auto simp: eval_shape_eq_iff same_value_def)

lemma frame_non_negative:
  "flat (f\<lparr>non_negative := x\<rparr>) = flat f" "roots_bound (f\<lparr>non_negative := x\<rparr>) = roots_bound f"
  "obeys v (f\<lparr>non_negative := x\<rparr>) = obeys v f"
  by (simp_all add: flat_def roots_bound_def obeys_def)

lemma stage_constraint_spec:
  assumes "facts_wf f" "declared f c"
  shows "step_spec (\<lambda>v. satisfies v c) f (stage_constraint f c)"
proof (cases c)
  case (NonNegative s)
  have wf: "flat f" "roots_bound f" using assms(1) by (simp_all add: facts_wf_def)
  obtain r where "root f s = Inr r"
    using root_declared [OF wf(1), of s] assms(2) NonNegative by (auto simp: declared_def)
  then show ?thesis
    using NonNegative wf
    by (simp add: stage_constraint_def step_spec_def extends_def frame_non_negative)
next
  case (Equal l r)
  have wf: "flat f" "roots_bound f" using assms(1) by (simp_all add: facts_wf_def)
  obtain q where q: "query_shapes_raw f l r = Inr q"
    using query_raw_total [OF wf(1)] assms(2) Equal by blast
  show ?thesis
  proof (cases "length l = length r \<and> (\<forall>e a. q \<noteq> RawContradiction e a)")
    case True
    then have "stage_constraint f c = rfold add_equality_fact f (zip l r)"
      using Equal q by (cases q) (simp_all add: stage_constraint_def)
    moreover have "step_spec (\<lambda>v. satisfies v c) f (rfold add_equality_fact f (zip l r))"
      using declared_zip [of f l r] assms(2) Equal True satisfies_Equal_zip [of l r]
      by (intro step_spec_weaken [OF add_equalities_spec [OF wf]]) auto
    ultimately show ?thesis by simp
  next
    case False
    have "\<not> satisfies v c" if "obeys v f" for v
      using False query_raw_contradiction [OF wf(1) that] q eval_shape_length [of v l r] Equal by auto
    moreover have "\<exists>ex ac. stage_constraint f c = Inl (contradiction_error f c ex ac)"
      using False Equal q by (cases q) (auto simp: stage_constraint_def)
    ultimately show ?thesis by (auto simp: step_spec_def)
  qed
qed

lemma validate_ok: "validate_constraint_symbols f c = Inr u \<longleftrightarrow> declared f c"
  by (cases u) (auto simp: validate_constraint_symbols_def declared_def filter_empty_conv)

lemma verify_equality_cases:
  assumes "flat f" "declared f c"
  shows "verify_equality f c = Inr () \<or>
    (\<exists>ae. verify_equality f c = Inl (Fail ae) \<and> code ae = ConstraintContradiction) \<and>
    (\<forall>v. obeys v f \<longrightarrow> \<not> satisfies v c)"
proof (cases c)
  case (Equal l r)
  obtain q where q: "query_shapes_raw f l r = Inr q"
    using query_raw_total assms Equal by blast
  with Equal query_raw_contradiction [OF assms(1)] show ?thesis
    by (cases q) (auto simp: verify_equality_def)
qed (simp add: verify_equality_def)

lemma verify_all_cases:
  assumes "flat f" "\<forall>c\<in>set (accepted f). declared f c"
  shows "verify_all_equalities f = Inr () \<or>
    (\<exists>ae. verify_all_equalities f = Inl (Fail ae) \<and> code ae = ConstraintContradiction) \<and>
    (\<forall>v. obeys v f \<longrightarrow> \<not> admits f v)"
proof -
  have "rfold (\<lambda>_ c. verify_equality f c) () cs = Inr () \<or>
      (\<exists>ae. rfold (\<lambda>_ c. verify_equality f c) () cs = Inl (Fail ae) \<and> code ae = ConstraintContradiction) \<and>
      (\<forall>v. obeys v f \<longrightarrow> (\<exists>c\<in>set cs. \<not> satisfies v c))"
    if "\<forall>c\<in>set cs. declared f c" for cs
    using that
  proof (induction cs)
    case (Cons c cs)
    then show ?case using verify_equality_cases [OF assms(1), of c] by fastforce
  qed simp
  from this [OF assms(2)] show ?thesis
    unfolding verify_all_equalities_def admits_def by blast
qed

lemma insert_report_total:
  "facts_wf f \<Longrightarrow> c \<in> set (accepted f) \<Longrightarrow> \<exists>p. insert_report f c = Inr (QProved p)"
  using query_shapes_accepted [of f] by (cases c) (auto simp: insert_report_def non_negative_proof_def)

lemma admits_insert:
  "set (accepted f') = insert c (set (accepted f)) \<Longrightarrow> admits f' v \<longleftrightarrow> admits f v \<and> satisfies v c"
  by (auto simp: admits_def)

text \<open>
  The staged state with the new constraint accepted. It is well formed, and what it claims
  follows from the old constraints and the new one.
\<close>

lemma staged_inv:
  assumes inv: "facts_inv f" and dec: "declared f c" and ext: "extends (\<lambda>v. satisfies v c) f g"
  defines "h \<equiv> g\<lparr>accepted := bset_insert c (accepted g)\<rparr>"
  shows "facts_inv h" "set (accepted h) = insert c (set (accepted f))"
    "\<And>k. bmap_contains (parent h) k \<longleftrightarrow> bmap_contains (parent f) k"
proof -
  show acc: "set (accepted h) = insert c (set (accepted f))"
    and dom: "\<And>k. bmap_contains (parent h) k \<longleftrightarrow> bmap_contains (parent f) k"
    using ext by (simp_all add: h_def extends_def)
  have "facts_wf h"
    using ext inv dec
    by (auto simp: h_def facts_inv_def facts_wf_def extends_def flat_def roots_bound_def declared_def)
  moreover have "obeys v h" if "admits h v" for v
  proof -
    have "obeys v f" "satisfies v c"
      using that admits_insert [OF acc] facts_inv_obeys [OF inv] by blast+
    then have "obeys v g" using ext by (simp add: extends_def)
    then show ?thesis by (simp add: h_def obeys_def)
  qed
  ultimately show "facts_inv h" by (simp add: facts_inv_def)
qed

lemma insert_constraint_cases:
  assumes inv: "facts_inv f" and dec: "declared f c"
  shows "(\<exists>f' p. insert_constraint f c = Inr (f', QProved p) \<and> facts_inv f' \<and>
            set (accepted f') = insert c (set (accepted f)) \<and>
            (\<forall>k. bmap_contains (parent f') k \<longleftrightarrow> bmap_contains (parent f) k)) \<or>
         ((\<exists>ae. insert_constraint f c = Inl (Fail ae) \<and> code ae = ConstraintContradiction) \<and>
            (\<forall>v. admits f v \<longrightarrow> \<not> satisfies v c))"
proof -
  have val: "validate_constraint_symbols f c = Inr ()" using dec validate_ok by blast
  note wf = facts_inv_wf [OF inv]
  show ?thesis
  proof (cases "c \<in> set (accepted f)")
    case True
    then obtain p where "insert_report f c = Inr (QProved p)"
      using insert_report_total [OF wf] by blast
    then show ?thesis using True inv val
      by (auto simp: insert_constraint_def bset_contains_def insert_absorb)
  next
    case False
    have spec: "step_spec (\<lambda>v. satisfies v c) f (stage_constraint f c)"
      by (rule stage_constraint_spec [OF wf dec])
    show ?thesis
    proof (cases "stage_constraint f c")
      case (Inl e)
      then have "insert_constraint f c = Inl e"
        using False val by (simp add: insert_constraint_def bset_contains_def)
      then show ?thesis
        using spec Inl facts_inv_obeys [OF inv] by (auto simp: step_spec_def)
    next
      case (Inr g)
      let ?h = "g\<lparr>accepted := bset_insert c (accepted g)\<rparr>"
      from Inr spec have ext: "extends (\<lambda>v. satisfies v c) f g" by (simp add: step_spec_def)
      note h = staged_inv [OF inv dec ext]
      have eq: "insert_constraint f c =
          rbind (verify_all_equalities ?h) (\<lambda>_. rbind (insert_report ?h c) (\<lambda>q. Inr (?h, q)))"
        using False val Inr by (simp add: insert_constraint_def bset_contains_def Let_def)
      have hwf: "facts_wf ?h" by (rule facts_inv_wf [OF h(1)])
      consider "verify_all_equalities ?h = Inr ()"
        | ae where "verify_all_equalities ?h = Inl (Fail ae)" "code ae = ConstraintContradiction"
            "\<forall>v. obeys v ?h \<longrightarrow> \<not> admits ?h v"
        using verify_all_cases [of ?h] hwf by (auto simp: facts_wf_def)
      then show ?thesis
      proof cases
        case 1
        obtain p where "insert_report ?h c = Inr (QProved p)"
          using insert_report_total [OF hwf, of c] h(2) by blast
        then have "insert_constraint f c = Inr (?h, QProved p)" using eq 1 by simp
        then show ?thesis using h by blast
      next
        case 2
        have "\<forall>v. admits f v \<longrightarrow> \<not> satisfies v c"
          using 2(3) admits_insert [OF h(2)] facts_inv_obeys [OF h(1)] by blast
        then show ?thesis using eq 2 by simp
      qed
    qed
  qed
qed

lemma insert_undeclared:
  "\<not> declared f c \<Longrightarrow>
   insert_constraint f c = err InvalidConstraint ''constraint references undeclared dimensions''"
  using validate_ok [of f c]
  by (auto simp: insert_constraint_def validate_constraint_symbols_def)

lemma insert_constraint_inv:
  assumes "facts_inv f" "insert_constraint f c = Inr (f', q)"
  shows "facts_inv f'" "set (accepted f') = insert c (set (accepted f))"
    "bmap_contains (parent f') k \<longleftrightarrow> bmap_contains (parent f) k" "\<exists>p. q = QProved p"
proof -
  have "declared f c" using assms(2) insert_undeclared by fastforce
  from insert_constraint_cases [OF assms(1) this] assms(2)
  show "facts_inv f'" "set (accepted f') = insert c (set (accepted f))"
    "bmap_contains (parent f') k \<longleftrightarrow> bmap_contains (parent f) k" "\<exists>p. q = QProved p"
    by auto
qed

subsection \<open>Declaration and whole programs\<close>

lemma declare_symbol_inv:
  assumes "facts_inv f" "declare_symbol s nn f = Inr f'"
  shows "facts_inv f'" "accepted f' = accepted f"
    "bmap_contains (parent f') k \<longleftrightarrow> k = s \<or> bmap_contains (parent f) k"
proof -
  from assms(2) have f': "f' = f\<lparr>parent := bmap_insert s s (parent f),
      non_negative := (if nn then bset_insert s (non_negative f) else non_negative f)\<rparr>"
    and new: "\<not> bmap_contains (parent f) s"
    by (auto simp: declare_symbol_def split: if_splits)
  show "accepted f' = accepted f" "bmap_contains (parent f') k \<longleftrightarrow> k = s \<or> bmap_contains (parent f) k"
    by (simp_all add: f')
  from assms(1) have wf: "flat f" "roots_bound f" "\<forall>c\<in>set (accepted f). declared f c"
    by (simp_all add: facts_inv_def facts_wf_def)
  have "flat f'"
    using wf(1) new by (auto simp: f' flat_def bmap_contains_def)
  moreover have "roots_bound f'"
    using wf(2) by (auto simp: f' roots_bound_def)
  ultimately have "facts_wf f'"
    using wf(3) by (auto simp: f' facts_wf_def declared_def)
  moreover have "obeys v f'" if "admits f' v" for v
    using that facts_inv_obeys [OF assms(1), of v] by (auto simp: f' obeys_def admits_def)
  ultimately show "facts_inv f'" by (simp add: facts_inv_def)
qed

lemma declare_all_inv:
  "facts_inv f \<Longrightarrow> rfold (\<lambda>f (name, nn). declare_symbol name nn f) f dims = Inr f' \<Longrightarrow>
   facts_inv f' \<and> accepted f' = accepted f"
proof (induction dims arbitrary: f)
  case (Cons d dims)
  obtain s nn where d: "d = (s, nn)" by fastforce
  from Cons.prems(2) d obtain g where g: "declare_symbol s nn f = Inr g"
    "rfold (\<lambda>f (name, nn). declare_symbol name nn f) g dims = Inr f'"
    by (auto simp: rbind_Inr_iff)
  show ?case
    using Cons.IH [OF declare_symbol_inv(1) [OF Cons.prems(1) g(1)] g(2)]
      declare_symbol_inv(2) [OF Cons.prems(1) g(1)] by simp
qed simp

lemma insert_all_inv:
  "facts_inv f \<Longrightarrow> rfold (\<lambda>f c. rmap fst (insert_constraint f c)) f cs = Inr f' \<Longrightarrow>
   facts_inv f' \<and> set (accepted f') = set cs \<union> set (accepted f)"
proof (induction cs arbitrary: f)
  case (Cons c cs)
  from Cons.prems(2) obtain g q where g: "insert_constraint f c = Inr (g, q)"
    "rfold (\<lambda>f c. rmap fst (insert_constraint f c)) g cs = Inr f'"
    by (auto simp: rbind_Inr_iff rmap_Inr_iff)
  show ?case
    using Cons.IH [OF insert_constraint_inv(1) [OF Cons.prems(1) g(1)] g(2)]
      insert_constraint_inv(2) [OF Cons.prems(1) g(1)] by auto
qed simp

lemma facts_of_inv:
  assumes "facts_of dims cs = Inr f"
  shows "facts_inv f" "set (accepted f) = set cs"
proof -
  from assms obtain g where g: "rfold (\<lambda>f (name, nn). declare_symbol name nn f) empty_facts dims = Inr g"
    "rfold (\<lambda>f c. rmap fst (insert_constraint f c)) g cs = Inr f"
    by (auto simp: facts_of_def rbind_Inr_iff)
  have "facts_inv g" "accepted g = []"
    using declare_all_inv [OF facts_inv_empty g(1)] by (simp_all add: empty_facts_def)
  then show "facts_inv f" "set (accepted f) = set cs"
    using insert_all_inv [OF _ g(2)] by simp_all
qed

end
