(* ===== verification/Inference.thy ===== *)
theory Inference
  imports Spec_IR Constraint_Proofs
begin

text \<open>
  Type and shape inference (\<open>agentir-core/src/spec.rs\<close>): the compatibility of two types, with or
  without accepted facts, and the inference of primitive and higher-order operations. The
  soundness of both modes is in \<open>Inference_Proofs\<close>.
\<close>

subsection \<open>Results\<close>

datatype action_classification = Legal | Conditional | UnknownAction | Illegal

record shape_relation =
  rel_left :: ty
  rel_right :: ty

record inference =
  inf_ty :: ty
  classification :: action_classification
  shape_relations :: "shape_relation list"

definition legal_inference :: "ty \<Rightarrow> inference" where
  "legal_inference t = \<lparr>inf_ty = t, classification = Legal, shape_relations = []\<rparr>"

definition arity :: "opcode \<Rightarrow> ty list \<Rightarrow> nat \<Rightarrow> unit res" where
  "arity op operands expected =
     (if length operands = expected then Inr ()
      else err ArityMismatch ''{opcode} expects {expected} operands, got {}'')"

subsection \<open>Compatibility of types\<close>

definition same_type :: "ty \<Rightarrow> ty \<Rightarrow> action_classification res" where
  "same_type l r =
     (case (l, r) of
        (Scalar a, Scalar b) \<Rightarrow>
          if a = b then Inr Legal else err TypeMismatch ''operand types differ''
      | (Tensor le ls, Tensor re rs) \<Rightarrow>
          if le = re then
            (case same_shape ls rs of
               Proved \<Rightarrow> Inr Legal
             | Unknown \<Rightarrow> Inr Conditional
             | Contradiction \<Rightarrow> err ShapeMismatch ''tensor shapes contradict'')
          else err TypeMismatch ''operand types differ''
      | _ \<Rightarrow> err TypeMismatch ''operand types differ'')"

definition same_type_with_facts ::
    "ty \<Rightarrow> ty \<Rightarrow> constraint_facts \<Rightarrow> (action_classification \<times> shape_relation list) res" where
  "same_type_with_facts l r facts =
     (case (l, r) of
        (Scalar a, Scalar b) \<Rightarrow>
          if a = b then Inr (Legal, []) else err TypeMismatch ''operand types differ''
      | (Tensor le ls, Tensor re rs) \<Rightarrow>
          if le = re then
            rbind (query_types facts l r) (\<lambda>q.
              case q of
                QProved _ \<Rightarrow> Inr (Legal, [])
              | QUnknown \<Rightarrow> Inr (Conditional, [\<lparr>rel_left = l, rel_right = r\<rparr>])
              | QContradiction _ \<Rightarrow> err ShapeMismatch ''tensor shapes contradict accepted facts'')
          else err TypeMismatch ''operand types differ''
      | _ \<Rightarrow> err TypeMismatch ''operand types differ'')"

definition compatible_types ::
    "constraint_facts option \<Rightarrow> ty \<Rightarrow> ty \<Rightarrow> (action_classification \<times> shape_relation list) res" where
  "compatible_types facts l r =
     (case facts of
        None \<Rightarrow> rmap (\<lambda>c. (c, [])) (same_type l r)
      | Some f \<Rightarrow> same_type_with_facts l r f)"

definition merge_class :: "action_classification \<Rightarrow> action_classification \<Rightarrow> action_classification" where
  "merge_class a b = (if a = Conditional \<or> b = Conditional then Conditional else Legal)"

definition require_numeric :: "opcode \<Rightarrow> ty \<Rightarrow> unit res" where
  "require_numeric op t =
     (if is_numeric (element_type t) then Inr ()
      else err TypeMismatch ''{opcode} requires numeric operands'')"

subsection \<open>Primitive operations\<close>

definition infer_arithmetic :: "constraint_facts option \<Rightarrow> opcode \<Rightarrow> ty list \<Rightarrow> inference res" where
  "infer_arithmetic facts op operands =
     rbind (arity op operands 2) (\<lambda>_.
     rbind (require_numeric op (operands ! 0)) (\<lambda>_.
     rbind (compatible_types facts (operands ! 0) (operands ! 1)) (\<lambda>(c, rels).
       Inr \<lparr>inf_ty = operands ! 0, classification = c, shape_relations = rels\<rparr>)))"

definition infer_fma :: "constraint_facts option \<Rightarrow> ty list \<Rightarrow> inference res" where
  "infer_fma facts operands =
     rbind (arity Fma operands 3) (\<lambda>_.
     rbind (require_numeric Fma (operands ! 0)) (\<lambda>_.
     rbind (compatible_types facts (operands ! 0) (operands ! 1)) (\<lambda>(lc, lrels).
     rbind (compatible_types facts (operands ! 0) (operands ! 2)) (\<lambda>(rc, rrels).
       Inr \<lparr>inf_ty = operands ! 0, classification = merge_class lc rc,
            shape_relations = lrels @ rrels\<rparr>))))"

definition infer_compare :: "constraint_facts option \<Rightarrow> ty list \<Rightarrow> inference res" where
  "infer_compare facts operands =
     rbind (arity Compare operands 2) (\<lambda>_.
     rbind (compatible_types facts (operands ! 0) (operands ! 1)) (\<lambda>(c, rels).
       Inr \<lparr>inf_ty = with_element_type (operands ! 0) Bool, classification = c,
            shape_relations = rels\<rparr>))"

text \<open>
  The condition of a \<open>select\<close>: accepted or not, and the classification and relations that
  its own shape adds.
\<close>

definition select_condition ::
    "constraint_facts option \<Rightarrow> ty \<Rightarrow> ty \<Rightarrow> (bool \<times> action_classification \<times> shape_relation list) res" where
  "select_condition facts condition branch =
     (case (condition, branch) of
        (Scalar Bool, _) \<Rightarrow> Inr (True, Legal, [])
      | (Tensor Bool csh, Tensor _ sh) \<Rightarrow>
          (case facts of
             Some f \<Rightarrow>
               rbind (query_shapes f csh sh) (\<lambda>q.
                 case q of
                   QProved _ \<Rightarrow> Inr (True, Legal, [])
                 | QUnknown \<Rightarrow>
                     Inr (True, Conditional,
                          [\<lparr>rel_left = condition, rel_right = with_element_type branch Bool\<rparr>])
                 | QContradiction _ \<Rightarrow> Inr (False, Legal, []))
           | None \<Rightarrow> Inr (same_shape csh sh = Proved, Legal, []))
      | _ \<Rightarrow> Inr (False, Legal, []))"

definition infer_select :: "constraint_facts option \<Rightarrow> ty list \<Rightarrow> inference res" where
  "infer_select facts operands =
     rbind (arity Select operands 3) (\<lambda>_.
     rbind (compatible_types facts (operands ! 1) (operands ! 2)) (\<lambda>(bc, brels).
     rbind (select_condition facts (operands ! 0) (operands ! 1)) (\<lambda>(ok, cc, crels).
       if \<not> ok
       then err TypeMismatch ''select condition must be bool or same-shape tensor<bool>''
       else Inr \<lparr>inf_ty = operands ! 1, classification = merge_class bc cc,
                 shape_relations = brels @ crels\<rparr>)))"

definition cast_supported :: "scalar_type \<Rightarrow> scalar_type \<Rightarrow> bool" where
  "cast_supported src dst \<longleftrightarrow>
     src = dst \<or>
     (case (src, dst) of
        (I32, F32) \<Rightarrow> True | (Index, F32) \<Rightarrow> True
      | (F32, I32) \<Rightarrow> True | (F32, Index) \<Rightarrow> True
      | (I32, Index) \<Rightarrow> True | (Index, I32) \<Rightarrow> True
      | _ \<Rightarrow> False)"

definition infer_cast :: "ty list \<Rightarrow> (string, json) bmap \<Rightarrow> inference res" where
  "infer_cast operands attributes =
     rbind (arity Cast operands 1) (\<lambda>_.
     rbind (ok_or (Fail (agent_error_new TypeMismatch ''cast requires string attribute `target_type`''))
              (Option.bind (bmap_get attributes ''target_type'') as_str)) (\<lambda>name.
     case parse_type name of
       Inl msg \<Rightarrow> err TypeMismatch msg
     | Inr (Tensor _ _) \<Rightarrow> err TypeMismatch ''cast target_type must name a scalar element type''
     | Inr (Scalar target) \<Rightarrow>
         if \<not> cast_supported (element_type (operands ! 0)) target
         then err TypeMismatch ''unsupported explicit cast''
         else Inr (legal_inference (with_element_type (operands ! 0) target))))"

definition infer_primitive_impl ::
    "constraint_facts option \<Rightarrow> opcode \<Rightarrow> ty list \<Rightarrow> (string, json) bmap \<Rightarrow> inference res" where
  "infer_primitive_impl facts op operands attributes =
     (case op of
        Add \<Rightarrow> infer_arithmetic facts op operands
      | Sub \<Rightarrow> infer_arithmetic facts op operands
      | Mul \<Rightarrow> infer_arithmetic facts op operands
      | Div \<Rightarrow> infer_arithmetic facts op operands
      | Fma \<Rightarrow> infer_fma facts operands
      | Compare \<Rightarrow> infer_compare facts operands
      | Select \<Rightarrow> infer_select facts operands
      | Cast \<Rightarrow> infer_cast operands attributes
      | Parameter \<Rightarrow> err UnknownOpcode ''{opcode} must be created by its dedicated action''
      | Constant \<Rightarrow> err UnknownOpcode ''{opcode} must be created by its dedicated action''
      | _ \<Rightarrow> err InvalidRegion ''{opcode} requires a verified region'')"

definition infer_primitive :: "opcode \<Rightarrow> ty list \<Rightarrow> (string, json) bmap \<Rightarrow> inference res" where
  "infer_primitive op operands attributes = infer_primitive_impl None op operands attributes"

definition infer_primitive_with_facts ::
    "opcode \<Rightarrow> ty list \<Rightarrow> (string, json) bmap \<Rightarrow> constraint_facts \<Rightarrow> inference res" where
  "infer_primitive_with_facts op operands attributes facts =
     infer_primitive_impl (Some facts) op operands attributes"

subsection \<open>Higher-order operations\<close>

definition infer_map :: "ty list \<Rightarrow> region \<Rightarrow> inference res" where
  "infer_map operands rg =
     rbind (arity Map operands 1) (\<lambda>_.
     case operands ! 0 of
       Scalar _ \<Rightarrow> err TypeMismatch ''map input must be a tensor''
     | Tensor _ sh \<Rightarrow>
         if length (rg_arguments rg) \<noteq> 1 then err InvalidRegion ''map region needs one argument''
         else (case rg_yield_type rg of
           Tensor _ _ \<Rightarrow> err InvalidRegion ''map region must yield a scalar''
         | Scalar e \<Rightarrow> Inr (legal_inference (Tensor e sh))))"

text \<open>The loop over the remaining inputs of \<open>zip_map\<close>, for any notion of compatibility.\<close>

definition compatible_all ::
    "(ty \<Rightarrow> ty \<Rightarrow> (action_classification \<times> shape_relation list) res) \<Rightarrow> ty \<Rightarrow> ty list \<Rightarrow>
     (action_classification \<times> shape_relation list) res" where
  "compatible_all cmp first rest =
     rfold (\<lambda>(c, rels) operand.
              rbind (cmp first operand) (\<lambda>(oc, orels). Inr (merge_class c oc, rels @ orels)))
       (Legal, []) rest"

definition infer_zip_map :: "constraint_facts option \<Rightarrow> ty list \<Rightarrow> region \<Rightarrow> inference res" where
  "infer_zip_map facts operands rg =
     (if operands = [] then err ArityMismatch ''zip_map needs at least one tensor''
      else if length (rg_arguments rg) \<noteq> length operands
      then err InvalidRegion ''zip_map argument count must match tensor operands''
      else case operands ! 0 of
        Scalar _ \<Rightarrow> err TypeMismatch ''zip_map inputs must be tensors''
      | Tensor _ sh \<Rightarrow>
          rbind (compatible_all (compatible_types facts) (operands ! 0) (drop 1 operands)) (\<lambda>(c, rels).
            case rg_yield_type rg of
              Tensor _ _ \<Rightarrow> err InvalidRegion ''zip_map region must yield a scalar''
            | Scalar e \<Rightarrow>
                Inr \<lparr>inf_ty = Tensor e sh, classification = c, shape_relations = rels\<rparr>))"

definition infer_reduce :: "ty list \<Rightarrow> region \<Rightarrow> inference res" where
  "infer_reduce operands rg =
     rbind (arity Reduce operands 2) (\<lambda>_.
     case operands ! 0 of
       Scalar _ \<Rightarrow> err TypeMismatch ''reduce input must be a tensor''
     | Tensor e sh \<Rightarrow>
         if operands ! 1 \<noteq> Scalar e
         then err TypeMismatch ''reduce identity must match tensor element type''
         else if length (rg_arguments rg) \<noteq> 2 \<or> rg_yield_type rg \<noteq> Scalar e
         then err InvalidRegion ''reduce combiner must be (T,T) -> T''
         else Inr (legal_inference (Scalar e)))"

definition infer_higher_impl ::
    "constraint_facts option \<Rightarrow> opcode \<Rightarrow> ty list \<Rightarrow> region \<Rightarrow> inference res" where
  "infer_higher_impl facts op operands rg =
     (case op of
        Map \<Rightarrow> infer_map operands rg
      | ZipMap \<Rightarrow> infer_zip_map facts operands rg
      | Reduce \<Rightarrow> infer_reduce operands rg
      | _ \<Rightarrow> infer_primitive_impl facts op operands [])"

definition infer_higher :: "opcode \<Rightarrow> ty list \<Rightarrow> region \<Rightarrow> inference res" where
  "infer_higher op operands rg = infer_higher_impl None op operands rg"

definition infer_higher_with_facts ::
    "opcode \<Rightarrow> ty list \<Rightarrow> region \<Rightarrow> constraint_facts \<Rightarrow> inference res" where
  "infer_higher_with_facts op operands rg facts = infer_higher_impl (Some facts) op operands rg"

end
