(* ===== verification/Inference_Proofs.thy ===== *)
theory Inference_Proofs
  imports Inference
begin

text \<open>
  Soundness of type inference. The meaning of a type under a valuation is its element type and
  its extents; a declarative typing rule says when an operation applies to such meanings.
  Inference is sound when every valuation that satisfies the accepted facts, and the shape
  relations that inference left open, makes the declarative rule hold for the inferred type.
\<close>

subsection \<open>The declarative rules\<close>

type_synonym dty = "scalar_type \<times> int list option"

inductive prim_typing :: "opcode \<Rightarrow> (string, json) bmap \<Rightarrow> dty list \<Rightarrow> dty \<Rightarrow> bool" where
  arith: "op \<in> {Add, Sub, Mul, Div} \<Longrightarrow> is_numeric (fst t) \<Longrightarrow> prim_typing op attrs [t, t] t"
| fma: "is_numeric (fst t) \<Longrightarrow> prim_typing Fma attrs [t, t, t] t"
| compare: "prim_typing Compare attrs [t, t] (Bool, snd t)"
| select_scalar: "prim_typing Select attrs [(Bool, None), t, t] t"
| select_tensor: "snd t \<noteq> None \<Longrightarrow> prim_typing Select attrs [(Bool, snd t), t, t] t"
| cast: "Option.bind (bmap_get attrs ''target_type'') as_str = Some name \<Longrightarrow>
    parse_type name = Inr (Scalar target) \<Longrightarrow> cast_supported (fst t) target \<Longrightarrow>
    prim_typing Cast attrs [t] (target, snd t)"

inductive_simps prim_typing_arith_iff: "prim_typing Add attrs ts r" "prim_typing Sub attrs ts r"
  "prim_typing Mul attrs ts r" "prim_typing Div attrs ts r"
inductive_simps prim_typing_fma_iff: "prim_typing Fma attrs ts r"
inductive_simps prim_typing_compare_iff: "prim_typing Compare attrs ts r"
inductive_simps prim_typing_select_iff: "prim_typing Select attrs ts r"
inductive_simps prim_typing_cast_iff: "prim_typing Cast attrs ts r"

text \<open>Higher-order operations apply a region to the elements of tensors of one shape.\<close>

inductive higher_typing :: "opcode \<Rightarrow> nat \<Rightarrow> scalar_type \<Rightarrow> dty list \<Rightarrow> dty \<Rightarrow> bool" where
  map: "higher_typing Map 1 y [(e, Some ext)] (y, Some ext)"
| zip_map: "ts \<noteq> [] \<Longrightarrow> \<forall>t\<in>set ts. t = (e, Some ext) \<Longrightarrow>
    higher_typing ZipMap (length ts) y ts (y, Some ext)"
| reduce: "higher_typing Reduce 2 e [(e, Some ext), (e, None)] (e, None)"

definition relation_holds :: "valuation \<Rightarrow> shape_relation \<Rightarrow> bool" where
  "relation_holds v r \<longleftrightarrow> eval_type v (rel_left r) = eval_type v (rel_right r)"

definition relations_hold :: "valuation \<Rightarrow> shape_relation list \<Rightarrow> bool" where
  "relations_hold v rels \<longleftrightarrow> (\<forall>r\<in>set rels. relation_holds v r)"

lemma relations_hold_simps [simp]:
  "relations_hold v []"
  "relations_hold v (xs @ ys) \<longleftrightarrow> relations_hold v xs \<and> relations_hold v ys"
  "relations_hold v [r] \<longleftrightarrow> relation_holds v r"
  by (auto simp: relations_hold_def)

lemma fst_eval_type [simp]: "fst (eval_type v t) = element_type t"
  by (cases t) simp_all

lemma eval_type_with_element: "eval_type v (with_element_type t e) = (e, snd (eval_type v t))"
  by (cases t) simp_all

lemma merge_class_Legal [simp]: "merge_class a b = Legal \<longleftrightarrow> a \<noteq> Conditional \<and> b \<noteq> Conditional"
  by (simp add: merge_class_def)

lemma merge_class_Conditional [simp]:
  "merge_class a b = Conditional \<longleftrightarrow> a = Conditional \<or> b = Conditional"
  by (simp add: merge_class_def)

subsection \<open>The compatibility interface\<close>

text \<open>
  What inference relies on when it compares two types: a legal verdict is an equality of
  meanings, an error excludes every equality, and the classification is legal or conditional.
  A provider that tracks its debt also returns the relations whose truth gives the equality.
\<close>

locale compatibility =
  fixes compat_of :: "ty \<Rightarrow> ty \<Rightarrow> (action_classification \<times> shape_relation list) res"
    and admissible :: "valuation \<Rightarrow> bool"
  assumes legal: "compat_of l r = Inr (Legal, rels) \<Longrightarrow> admissible v \<Longrightarrow> eval_type v l = eval_type v r"
    and two_classes: "compat_of l r = Inr (c, rels) \<Longrightarrow> c = Legal \<or> c = Conditional"
    and refuted: "compat_of l r = Inl (Fail e) \<Longrightarrow> code e \<in> {TypeMismatch, ShapeMismatch} \<Longrightarrow>
      admissible v \<Longrightarrow> eval_type v l \<noteq> eval_type v r"
begin

lemma all_legal:
  "compatible_all compat_of first rest = Inr (Legal, rels) \<Longrightarrow> admissible v \<Longrightarrow>
   \<forall>t\<in>set rest. eval_type v t = eval_type v first"
proof -
  have "rfold (\<lambda>(c, rels) operand.
            rbind (compat_of first operand) (\<lambda>(oc, orels). Inr (merge_class c oc, rels @ orels)))
          (c, acc) rest = Inr (Legal, rels) \<Longrightarrow> c \<noteq> Conditional \<Longrightarrow> admissible v \<Longrightarrow>
        \<forall>t\<in>set rest. eval_type v t = eval_type v first"
    and "rfold (\<lambda>(c, rels) operand.
            rbind (compat_of first operand) (\<lambda>(oc, orels). Inr (merge_class c oc, rels @ orels)))
          (Conditional, acc) rest \<noteq> Inr (Legal, rels)" for c acc
  proof (induction rest arbitrary: c acc)
    case (Cons t rest)
    { case 1
      then obtain oc orels where o: "compat_of first t = Inr (oc, orels)"
        by (auto simp: rbind_Inr_iff)
      show ?case
      proof (cases "oc = Conditional")
        case True
        with 1 o Cons.IH(2) show ?thesis by (simp add: merge_class_def)
      next
        case False
        then have "oc = Legal" using two_classes [OF o] by simp
        with 1 o have "\<forall>t\<in>set rest. eval_type v t = eval_type v first"
          by (intro Cons.IH(1) [of "merge_class c oc" "acc @ orels"]) simp_all
        moreover have "eval_type v t = eval_type v first"
          using legal [of first t orels v] o \<open>oc = Legal\<close> 1(3) by simp
        ultimately show ?thesis by simp
      qed
    next
      case 2
      show ?case using Cons.IH(2) by (auto simp: rbind_Inr_iff merge_class_def)
    }
  qed simp_all
  from this(1) [of Legal "[]"] show "compatible_all compat_of first rest = Inr (Legal, rels) \<Longrightarrow>
      admissible v \<Longrightarrow> \<forall>t\<in>set rest. eval_type v t = eval_type v first"
    by (simp add: compatible_all_def)
qed

end

locale tracked_compatibility = compatibility +
  assumes tracked: "compat_of l r = Inr (c, rels) \<Longrightarrow> admissible v \<Longrightarrow>
      relations_hold v rels \<longleftrightarrow> eval_type v l = eval_type v r"
    and legal_no_debt: "compat_of l r = Inr (c, rels) \<Longrightarrow> c = Legal \<longleftrightarrow> rels = []"
begin

lemma all_tracked:
  assumes "compatible_all compat_of first rest = Inr (c, rels)" "admissible v"
  shows "relations_hold v rels \<longleftrightarrow> (\<forall>t\<in>set rest. eval_type v t = eval_type v first)"
proof -
  have "rfold (\<lambda>(c, rels) operand.
            rbind (compat_of first operand) (\<lambda>(oc, orels). Inr (merge_class c oc, rels @ orels)))
          (c0, acc) rest = Inr (c, rels) \<Longrightarrow> admissible v \<Longrightarrow>
        relations_hold v rels \<longleftrightarrow>
          relations_hold v acc \<and> (\<forall>t\<in>set rest. eval_type v t = eval_type v first)" for c0 acc
  proof (induction rest arbitrary: c0 acc)
    case (Cons t rest)
    from Cons.prems(1) obtain oc orels where o: "compat_of first t = Inr (oc, orels)"
      by (auto simp: rbind_Inr_iff)
    with Cons.prems have "relations_hold v rels \<longleftrightarrow>
        relations_hold v (acc @ orels) \<and> (\<forall>t\<in>set rest. eval_type v t = eval_type v first)"
      by (intro Cons.IH [of "merge_class c0 oc"]) simp_all
    then show ?case using tracked [OF o Cons.prems(2)] by auto
  qed simp
  from this [of Legal "[]"] assms show ?thesis by (simp add: compatible_all_def)
qed

end

subsection \<open>The two providers\<close>

interpretation legacy_types: compatibility "compatible_types None" "\<lambda>_. True"
proof
  fix l r rels c e v
  show "compatible_types None l r = Inr (Legal, rels) \<Longrightarrow> eval_type v l = eval_type v r"
    by (cases l; cases r)
       (auto simp: compatible_types_def same_type_def rmap_Inr_iff same_shape_proved
         split: if_splits solver_status.splits)
  show "compatible_types None l r = Inr (c, rels) \<Longrightarrow> c = Legal \<or> c = Conditional"
    by (cases l; cases r)
       (auto simp: compatible_types_def same_type_def rmap_Inr_iff
         split: if_splits solver_status.splits)
  show "compatible_types None l r = Inl (Fail e) \<Longrightarrow> code e \<in> {TypeMismatch, ShapeMismatch} \<Longrightarrow>
      eval_type v l \<noteq> eval_type v r"
    by (cases l; cases r)
       (auto simp: compatible_types_def same_type_def rmap_Inl_iff same_shape_contradiction
         split: if_splits solver_status.splits)
qed

lemma query_types_tensor: "query_types f (Tensor e ls) (Tensor e rs) = query_shapes f ls rs"
  by (simp add: query_types_def)

text \<open>The codes a query fails with when a symbol is not declared.\<close>

lemma root_error: "root f s = Inl e \<Longrightarrow> e = Diverge \<or> (\<exists>m. e = Fail (agent_error_new InvalidConstraint m))"
proof -
  have "root_loop n p c = Inl e \<Longrightarrow> e = Diverge \<or> (\<exists>m. e = Fail (agent_error_new InvalidConstraint m))" for n p c
    by (induction n p c rule: root_loop.induct) (auto split: option.splits if_splits)
  then show "root f s = Inl e \<Longrightarrow> e = Diverge \<or> (\<exists>m. e = Fail (agent_error_new InvalidConstraint m))"
    by (auto simp: root_def simp del: root_loop.simps split: option.splits)
qed

lemma normalize_dim_error:
  "normalize_dim f d = Inl e \<Longrightarrow> e = Diverge \<or> (\<exists>m. e = Fail (agent_error_new InvalidConstraint m))"
  by (auto simp: normalize_dim_def rbind_Inl_iff dest: root_error split: dim_expr.splits option.splits)

lemma compare_loop_error:
  "compare_loop f u ds = Inl e \<Longrightarrow> e = Diverge \<or> (\<exists>m. e = Fail (agent_error_new InvalidConstraint m))"
proof (induction ds arbitrary: u)
  case (Cons p ds)
  obtain l r where [simp]: "p = (l, r)" by fastforce
  show ?case
  proof (cases "\<exists>ln rn. normalize_dim f l = Inr ln \<and> normalize_dim f r = Inr rn")
    case True
    then obtain ln rn where n: "normalize_dim f l = Inr ln" "normalize_dim f r = Inr rn" by blast
    show ?thesis
      using Cons by (auto simp: compare_loop_Cons [OF n] simp del: compare_loop.simps split: if_splits)
  next
    case False
    then show ?thesis
      using Cons.prems normalize_dim_error
      by (cases "normalize_dim f l"; cases "normalize_dim f r") fastforce+
  qed
qed simp

lemma traverse_error: "traverse g xs = Inl e \<Longrightarrow> \<exists>x\<in>set xs. g x = Inl e"
  by (induction xs) (auto simp: rbind_Inl_iff)

lemma normalize_shape_error:
  "normalize_shape f sh = Inl e \<Longrightarrow> e = Diverge \<or> (\<exists>m. e = Fail (agent_error_new InvalidConstraint m))"
  by (auto simp: normalize_shape_def rbind_Inl_iff rmap_Inl_iff dest!: traverse_error normalize_dim_error)

lemma query_shapes_raw_error:
  "query_shapes_raw f l r = Inl e \<Longrightarrow> e = Diverge \<or> (\<exists>m. e = Fail (agent_error_new InvalidConstraint m))"
  by (auto simp: query_shapes_raw_def split: if_split_asm dest: compare_loop_error)

lemma query_shapes_error:
  assumes "query_shapes f l r = Inl e"
  shows "e = Diverge \<or> (\<exists>m. e = Fail (agent_error_new InvalidConstraint m))"
proof -
  have *: "proved_result f l r = Inl e \<Longrightarrow> ?thesis"
    by (auto simp: proved_result_def rbind_Inl_iff dest: normalize_shape_error)
  show ?thesis
  proof (cases "query_shapes_raw f l r")
    case (Inl e')
    with assms * query_shapes_raw_error [OF Inl] show ?thesis
      by (auto simp: query_shapes_def split: if_split_asm)
  next
    case (Inr q)
    with assms * show ?thesis
      by (cases q) (auto simp: query_shapes_def contradiction_def split: if_split_asm)
  qed
qed

lemma query_outcome:
  obtains (error) e where "q = Inl e" | (proved) p where "q = Inr (QProved p)"
  | (unknown) "q = Inr QUnknown" | (refuted) c where "q = Inr (QContradiction c)"
  by (cases q) (auto intro: constraint_query_result.exhaust)

lemma same_type_with_facts_Inr:
  assumes "same_type_with_facts l r f = Inr (c, rels)"
  obtains (scalar) e where "l = Scalar e" "r = Scalar e" "c = Legal" "rels = []"
  | (proved) e ls rs p where "l = Tensor e ls" "r = Tensor e rs" "query_shapes f ls rs = Inr (QProved p)"
      "c = Legal" "rels = []"
  | (unknown) e ls rs where "l = Tensor e ls" "r = Tensor e rs" "query_shapes f ls rs = Inr QUnknown"
      "c = Conditional" "rels = [\<lparr>rel_left = l, rel_right = r\<rparr>]"
  using assms
  by (cases l; cases r; cases "query_shapes f (shape_or_default l) (shape_or_default r)"
      rule: query_outcome)
     (auto simp: same_type_with_facts_def query_types_tensor shape_or_default_def split: if_split_asm)

lemma same_type_with_facts_refuted:
  assumes "same_type_with_facts l r f = Inl (Fail e)" "code e \<in> {TypeMismatch, ShapeMismatch}"
  obtains (kinds) "\<And>v. eval_type v l \<noteq> eval_type v r"
  | (shapes) e ls rs c where "l = Tensor e ls" "r = Tensor e rs"
      "query_shapes f ls rs = Inr (QContradiction c)"
  using assms query_shapes_error [of f "shape_or_default l" "shape_or_default r"]
  by (cases l; cases r; cases "query_shapes f (shape_or_default l) (shape_or_default r)"
      rule: query_outcome)
     (auto simp: same_type_with_facts_def query_types_tensor shape_or_default_def split: if_split_asm)

interpretation fact_types: tracked_compatibility "compatible_types (Some f)"
  "\<lambda>v. facts_inv f \<and> admits f v" for f
proof
  fix l r rels c e v
  assume v: "facts_inv f \<and> admits f v"
  then have inv: "facts_inv f" and adm: "admits f v" by simp_all
  note sound = query_shapes_sound [OF inv adm]
  show "compatible_types (Some f) l r = Inr (Legal, rels) \<Longrightarrow> eval_type v l = eval_type v r"
    by (auto simp: compatible_types_def elim!: same_type_with_facts_Inr dest: sound)
  show "compatible_types (Some f) l r = Inl (Fail e) \<Longrightarrow> code e \<in> {TypeMismatch, ShapeMismatch} \<Longrightarrow>
      eval_type v l \<noteq> eval_type v r"
    using sound
    by (auto simp: compatible_types_def elim!: same_type_with_facts_refuted)
  show "compatible_types (Some f) l r = Inr (c, rels) \<Longrightarrow>
      relations_hold v rels \<longleftrightarrow> eval_type v l = eval_type v r"
    by (auto simp: compatible_types_def relation_holds_def elim!: same_type_with_facts_Inr dest: sound)
next
  fix l r rels c
  show "compatible_types (Some f) l r = Inr (c, rels) \<Longrightarrow> c = Legal \<or> c = Conditional"
    by (auto simp: compatible_types_def elim!: same_type_with_facts_Inr)
  show "compatible_types (Some f) l r = Inr (c, rels) \<Longrightarrow> c = Legal \<longleftrightarrow> rels = []"
    by (auto simp: compatible_types_def elim!: same_type_with_facts_Inr)
qed

subsection \<open>Primitive operations\<close>

lemma arity_Inr_iff [simp]: "arity op operands n = Inr u \<longleftrightarrow> length operands = n"
  by (cases u) (simp add: arity_def)

lemma arity_error: "arity op operands n = Inl e \<Longrightarrow> length operands \<noteq> n"
  by (auto simp: arity_def split: if_split_asm)

lemma require_numeric_Inr_iff [simp]: "require_numeric op t = Inr u \<longleftrightarrow> is_numeric (element_type t)"
  by (cases u) (simp add: require_numeric_def)

lemma length_2: "length xs = 2 \<longleftrightarrow> (\<exists>a b. xs = [a, b])"
  by (auto simp: numeral_2_eq_2 length_Suc_conv)

lemma length_3: "length xs = 3 \<longleftrightarrow> (\<exists>a b c. xs = [a, b, c])"
  by (auto simp: numeral_3_eq_3 length_Suc_conv)

lemma eval_type_tensor_some: "snd (eval_type v t) = None \<longleftrightarrow> (\<exists>e. t = Scalar e)"
  by (cases t) auto

definition selects :: "dty \<Rightarrow> dty \<Rightarrow> bool" where
  "selects c b \<longleftrightarrow> c = (Bool, None) \<or> (snd b \<noteq> None \<and> c = (Bool, snd b))"

lemma select_condition_sound:
  assumes "select_condition (Some f) c b = Inr (ok, cls, rels)" and "facts_inv f" "admits f v"
  shows "ok \<and> relations_hold v rels \<longleftrightarrow> selects (eval_type v c) (eval_type v b)"
proof (cases c)
  case (Scalar e)
  with assms(1) show ?thesis by (cases e) (auto simp: select_condition_def selects_def)
next
  case (Tensor e csh)
  note c = this
  show ?thesis
  proof (cases b)
    case (Scalar e')
    with assms(1) Tensor show ?thesis by (cases e) (auto simp: select_condition_def selects_def)
  next
    case (Tensor be sh)
    note sound = query_shapes_sound [OF assms(2,3), of csh sh]
    show ?thesis
      by (cases "query_shapes f csh sh" rule: query_outcome; cases e)
         (use assms(1) sound c Tensor in
           \<open>auto simp: select_condition_def selects_def relation_holds_def\<close>)
  qed
qed

lemma infer_cast_Inr:
  assumes "infer_cast operands attrs = Inr i"
  obtains t name target where "operands = [t]" "parse_type name = Inr (Scalar target)"
    "Option.bind (bmap_get attrs ''target_type'') as_str = Some name"
    "cast_supported (element_type t) target" "i = legal_inference (with_element_type t target)"
proof -
  from assms obtain name t where n: "operands = [t]"
      "Option.bind (bmap_get attrs ''target_type'') as_str = Some name"
    by (auto simp: infer_cast_def rbind_Inr_iff ok_or_Inr_iff length_Suc_conv)
  show ?thesis
  proof (cases "parse_type name")
    case (Inr ty)
    with assms n that show ?thesis
      by (cases ty) (auto simp: infer_cast_def arity_def split: if_split_asm)
  qed (use assms n in \<open>simp add: infer_cast_def arity_def\<close>)
qed

lemma infer_cast_exact:
  "infer_cast operands attrs = Inr i \<Longrightarrow>
   prim_typing Cast attrs (map (eval_type v) operands) r \<longleftrightarrow>
   relations_hold v (shape_relations i) \<and> r = eval_type v (inf_ty i)"
  by (auto elim!: infer_cast_Inr simp: legal_inference_def prim_typing_cast_iff
      eval_type_with_element prod_eq_iff)

lemma infer_arithmetic_Inr:
  assumes "infer_arithmetic facts op operands = Inr i"
  obtains l r where "operands = [l, r]" "is_numeric (element_type l)" "inf_ty i = l"
    "compatible_types facts l r = Inr (classification i, shape_relations i)"
  using assms by (auto simp: infer_arithmetic_def rbind_Inr_iff length_2)

lemma infer_fma_Inr:
  assumes "infer_fma facts operands = Inr i"
  obtains a b c bc brels cc crels where "operands = [a, b, c]" "is_numeric (element_type a)"
    "inf_ty i = a" "compatible_types facts a b = Inr (bc, brels)"
    "compatible_types facts a c = Inr (cc, crels)" "classification i = merge_class bc cc"
    "shape_relations i = brels @ crels"
  using assms by (auto simp: infer_fma_def rbind_Inr_iff length_3)

lemma infer_compare_Inr:
  assumes "infer_compare facts operands = Inr i"
  obtains l r where "operands = [l, r]" "inf_ty i = with_element_type l Bool"
    "compatible_types facts l r = Inr (classification i, shape_relations i)"
  using assms by (auto simp: infer_compare_def rbind_Inr_iff length_2)

lemma infer_select_Inr:
  assumes "infer_select facts operands = Inr i"
  obtains c a b bc brels cc crels where "operands = [c, a, b]" "inf_ty i = a"
    "compatible_types facts a b = Inr (bc, brels)"
    "select_condition facts c a = Inr (True, cc, crels)" "classification i = merge_class bc cc"
    "shape_relations i = brels @ crels"
  using assms by (auto simp: infer_select_def rbind_Inr_iff length_3 split: if_split_asm)

lemma prim_typing_select: "prim_typing Select attrs [c, a, b] r \<longleftrightarrow> a = b \<and> r = a \<and> selects c a"
  by (cases a; cases b; cases c) (auto simp: prim_typing_select_iff selects_def)

lemma prim_typing_arith:
  "op \<in> {Add, Sub, Mul, Div} \<Longrightarrow>
   prim_typing op attrs [a, b] r \<longleftrightarrow> a = b \<and> r = a \<and> is_numeric (fst a)"
  by (cases a; cases b) (auto simp: prim_typing_arith_iff)

lemma prim_typing_fma:
  "prim_typing Fma attrs [a, b, c] r \<longleftrightarrow> a = b \<and> a = c \<and> r = a \<and> is_numeric (fst a)"
  by (cases a; cases b; cases c) (auto simp: prim_typing_fma_iff)

lemma infer_primitive_impl_exact:
  assumes inf: "infer_primitive_impl (Some f) op operands attrs = Inr i"
    and f: "facts_inv f" "admits f v"
  shows "prim_typing op attrs (map (eval_type v) operands) r \<longleftrightarrow>
    relations_hold v (shape_relations i) \<and> r = eval_type v (inf_ty i)"
proof -
  note tr = fact_types.tracked [OF _ conjI [OF f]]
  have arith: ?thesis if i: "infer_arithmetic (Some f) op operands = Inr i"
    and op: "op \<in> {Add, Sub, Mul, Div}"
  proof -
    from i obtain l r' where o: "operands = [l, r']" "is_numeric (element_type l)" "inf_ty i = l"
        "compatible_types (Some f) l r' = Inr (classification i, shape_relations i)"
      by (rule infer_arithmetic_Inr)
    show ?thesis using o tr [OF o(4)] prim_typing_arith [OF op] by auto
  qed
  show ?thesis
  proof (cases op)
    case Fma
    with inf have "infer_fma (Some f) operands = Inr i" by (simp add: infer_primitive_impl_def)
    with Fma show ?thesis
      by (elim infer_fma_Inr) (auto simp: prim_typing_fma tr)
  next
    case Compare
    with inf have "infer_compare (Some f) operands = Inr i" by (simp add: infer_primitive_impl_def)
    with Compare show ?thesis
      by (elim infer_compare_Inr)
         (auto simp: prim_typing_compare_iff eval_type_with_element tr prod_eq_iff)
  next
    case Select
    with inf have "infer_select (Some f) operands = Inr i" by (simp add: infer_primitive_impl_def)
    with Select show ?thesis
      by (elim infer_select_Inr) (auto simp: prim_typing_select tr
          dest: select_condition_sound [OF _ f])
  next
    case Cast
    with inf show ?thesis by (simp add: infer_primitive_impl_def infer_cast_exact)
  qed (use inf arith in \<open>simp_all add: infer_primitive_impl_def\<close>)
qed

subsection \<open>Rejections\<close>

lemma compatible_types_rejected:
  assumes e: "compatible_types (Some f) l r = Inl (Fail e)" "code e \<noteq> InvalidConstraint"
    and f: "facts_inv f" "admits f v"
  shows "eval_type v l \<noteq> eval_type v r"
proof -
  have "code e \<in> {TypeMismatch, ShapeMismatch}"
    using e query_shapes_error [of f "shape_or_default l" "shape_or_default r"]
    by (cases l; cases r; cases "query_shapes f (shape_or_default l) (shape_or_default r)"
        rule: query_outcome)
       (auto simp: compatible_types_def same_type_with_facts_def query_types_tensor
         shape_or_default_def split: if_split_asm)
  then show ?thesis using fact_types.refuted e f by blast
qed

lemma select_condition_rejected:
  assumes "select_condition (Some f) c b = Inl e"
  shows "e = Diverge \<or> (\<exists>m. e = Fail (agent_error_new InvalidConstraint m))"
proof (cases c)
  case (Scalar x)
  with assms show ?thesis by (cases x) (simp_all add: select_condition_def)
next
  case (Tensor x csh)
  note c = this
  show ?thesis
  proof (cases b)
    case (Tensor be sh)
    show ?thesis
      by (cases "query_shapes f csh sh" rule: query_outcome; cases x)
         (use assms c Tensor query_shapes_error [of f csh sh] in \<open>auto simp: select_condition_def\<close>)
  qed (use assms c in \<open>cases x; simp add: select_condition_def\<close>)
qed

lemma arity_rejected: "length operands \<noteq> n \<Longrightarrow> n \<le> 3 \<Longrightarrow>
    (op, n) \<in> {(Add, 2), (Sub, 2), (Mul, 2), (Div, 2), (Fma, 3), (Compare, 2), (Select, 3), (Cast, 1)} \<Longrightarrow>
    \<not> prim_typing op attrs (map (eval_type v) operands) r"
  by (auto elim!: prim_typing.cases)

lemma arity_Inl: "arity op operands n = Inl e \<Longrightarrow> length operands \<noteq> n"
  by (auto simp: arity_def split: if_split_asm)

lemma require_numeric_Inl: "require_numeric op t = Inl e \<Longrightarrow> \<not> is_numeric (element_type t)"
  by (auto simp: require_numeric_def split: if_split_asm)

lemma infer_arithmetic_rejected:
  assumes inf: "infer_arithmetic (Some f) op operands = Inl (Fail e)" and e: "code e \<noteq> InvalidConstraint"
    and f: "facts_inv f" "admits f v" and op: "op \<in> {Add, Sub, Mul, Div}"
  shows "\<not> prim_typing op attrs (map (eval_type v) operands) r"
proof (cases "length operands = 2")
  case False
  then show ?thesis using op by (intro arity_rejected [where n = 2]) auto
next
  case True
  then obtain a b where o: "operands = [a, b]" by (auto simp: length_2)
  show ?thesis
    using inf e compatible_types_rejected [OF _ e f, of a b] prim_typing_arith [OF op]
    by (auto simp: infer_arithmetic_def o rbind_Inl_iff dest!: arity_Inl require_numeric_Inl)
qed

lemma infer_fma_rejected:
  assumes inf: "infer_fma (Some f) operands = Inl (Fail e)" and e: "code e \<noteq> InvalidConstraint"
    and f: "facts_inv f" "admits f v"
  shows "\<not> prim_typing Fma attrs (map (eval_type v) operands) r"
proof (cases "length operands = 3")
  case False
  then show ?thesis by (intro arity_rejected [where n = 3]) auto
next
  case True
  then obtain a b c where o: "operands = [a, b, c]" by (auto simp: length_3)
  show ?thesis
    using inf e compatible_types_rejected [OF _ e f, of a b] compatible_types_rejected [OF _ e f, of a c]
    by (auto simp: infer_fma_def o rbind_Inl_iff prim_typing_fma dest!: arity_Inl require_numeric_Inl)
qed

lemma infer_compare_rejected:
  assumes inf: "infer_compare (Some f) operands = Inl (Fail e)" and e: "code e \<noteq> InvalidConstraint"
    and f: "facts_inv f" "admits f v"
  shows "\<not> prim_typing Compare attrs (map (eval_type v) operands) r"
proof (cases "length operands = 2")
  case False
  then show ?thesis by (intro arity_rejected [where n = 2]) auto
next
  case True
  then obtain a b where o: "operands = [a, b]" by (auto simp: length_2)
  show ?thesis
    using inf e compatible_types_rejected [OF _ e f, of a b]
    by (auto simp: infer_compare_def o rbind_Inl_iff prim_typing_compare_iff dest!: arity_Inl)
qed

lemma infer_select_rejected:
  assumes inf: "infer_select (Some f) operands = Inl (Fail e)" and e: "code e \<noteq> InvalidConstraint"
    and f: "facts_inv f" "admits f v"
  shows "\<not> prim_typing Select attrs (map (eval_type v) operands) r"
proof (cases "length operands = 3")
  case False
  then show ?thesis by (intro arity_rejected [where n = 3]) auto
next
  case True
  then obtain c a b where o: "operands = [c, a, b]" by (auto simp: length_3)
  have "select_condition (Some f) c a \<noteq> Inl (Fail e)"
    using e select_condition_rejected [of f c a "Fail e"] by auto
  moreover have "\<not> selects (eval_type v c) (eval_type v a)"
    if "select_condition (Some f) c a = Inr (False, x)" for x
    using select_condition_sound [OF _ f, of c a False] that by (cases x) auto
  ultimately show ?thesis
    using inf e compatible_types_rejected [OF _ e f, of a b]
    by (fastforce simp: infer_select_def o rbind_Inl_iff prim_typing_select
        dest!: arity_Inl split: if_split_asm)
qed

lemma infer_cast_rejected:
  assumes inf: "infer_cast operands attrs = Inl (Fail e)"
  shows "\<not> prim_typing Cast attrs (map (eval_type v) operands) r"
proof
  assume "prim_typing Cast attrs (map (eval_type v) operands) r"
  then obtain t name target where "operands = [t]" "parse_type name = Inr (Scalar target)"
      "Option.bind (bmap_get attrs ''target_type'') as_str = Some name"
      "cast_supported (element_type t) target"
    by (auto simp: prim_typing_cast_iff dest: arg_cong [where f = fst])
  with inf show False by (simp add: infer_cast_def arity_def ok_or_def)
qed

lemma infer_primitive_impl_rejected:
  assumes inf: "infer_primitive_impl (Some f) op operands attrs = Inl (Fail e)"
    and e: "code e \<noteq> InvalidConstraint" and f: "facts_inv f" "admits f v"
  shows "\<not> prim_typing op attrs (map (eval_type v) operands) r"
  using inf infer_arithmetic_rejected [OF _ e f] infer_fma_rejected [OF _ e f]
    infer_compare_rejected [OF _ e f] infer_select_rejected [OF _ e f] infer_cast_rejected
  by (cases op) (simp_all add: infer_primitive_impl_def, auto elim: prim_typing.cases)

subsection \<open>Higher-order operations\<close>

lemma infer_map_Inr:
  assumes "infer_map operands rg = Inr i"
  obtains e sh y where "operands = [Tensor e sh]" "length (rg_arguments rg) = 1"
    "rg_yield_type rg = Scalar y" "i = legal_inference (Tensor y sh)"
proof -
  from assms obtain t where o: "operands = [t]"
    by (auto simp: infer_map_def rbind_Inr_iff length_Suc_conv)
  with assms that show ?thesis
    by (cases t; cases "rg_yield_type rg") (auto simp: infer_map_def arity_def split: if_split_asm)
qed

lemma infer_reduce_Inr:
  assumes "infer_reduce operands rg = Inr i"
  obtains e sh where "operands = [Tensor e sh, Scalar e]" "length (rg_arguments rg) = 2"
    "rg_yield_type rg = Scalar e" "i = legal_inference (Scalar e)"
proof -
  from assms obtain s t where o: "operands = [s, t]"
    by (auto simp: infer_reduce_def rbind_Inr_iff length_2)
  with assms that show ?thesis
    by (cases s) (auto simp: infer_reduce_def arity_def split: if_split_asm)
qed

lemma infer_zip_map_Inr:
  assumes "infer_zip_map facts operands rg = Inr i"
  obtains e sh rest y where "operands = Tensor e sh # rest" "length (rg_arguments rg) = length operands"
    "rg_yield_type rg = Scalar y" "inf_ty i = Tensor y sh"
    "compatible_all (compatible_types facts) (Tensor e sh) rest = Inr (classification i, shape_relations i)"
proof (cases operands)
  case (Cons t rest)
  with assms that show ?thesis
    by (cases t; cases "rg_yield_type rg")
       (auto simp: infer_zip_map_def rbind_Inr_iff split: if_split_asm)
qed (use assms in \<open>simp add: infer_zip_map_def\<close>)

inductive_simps higher_typing_map_iff: "higher_typing Map n y ts r"
inductive_simps higher_typing_zip_iff: "higher_typing ZipMap n y ts r"
inductive_simps higher_typing_reduce_iff: "higher_typing Reduce n y ts r"

lemma infer_higher_impl_exact:
  assumes inf: "infer_higher_impl (Some f) op operands rg = Inr i"
    and f: "facts_inv f" "admits f v" and op: "op \<in> {Map, ZipMap, Reduce}"
  shows "\<exists>y. rg_yield_type rg = Scalar y \<and>
    (higher_typing op (length (rg_arguments rg)) y (map (eval_type v) operands) r \<longleftrightarrow>
     relations_hold v (shape_relations i) \<and> r = eval_type v (inf_ty i))"
proof -
  consider "op = Map" | "op = ZipMap" | "op = Reduce" using op by blast
  then show ?thesis
  proof cases
    case 1
    with inf have "infer_map operands rg = Inr i" by (simp add: infer_higher_impl_def)
    with 1 show ?thesis
      by (elim infer_map_Inr) (auto simp: legal_inference_def higher_typing_map_iff)
  next
    case 2
    with inf have "infer_zip_map (Some f) operands rg = Inr i" by (simp add: infer_higher_impl_def)
    then obtain e sh rest y where z: "operands = Tensor e sh # rest"
        "length (rg_arguments rg) = length operands" "rg_yield_type rg = Scalar y"
        "inf_ty i = Tensor y sh"
        "compatible_all (compatible_types (Some f)) (Tensor e sh) rest =
           Inr (classification i, shape_relations i)"
      by (rule infer_zip_map_Inr)
    have "relations_hold v (shape_relations i) \<longleftrightarrow>
        (\<forall>t\<in>set rest. eval_type v t = (e, Some (eval_shape v sh)))"
      using fact_types.all_tracked [OF z(5) conjI [OF f]] by simp
    with 2 z show ?thesis by (auto simp: higher_typing_zip_iff)
  next
    case 3
    with inf have "infer_reduce operands rg = Inr i" by (simp add: infer_higher_impl_def)
    with 3 show ?thesis
      by (elim infer_reduce_Inr) (auto simp: legal_inference_def higher_typing_reduce_iff)
  qed
qed

subsection \<open>Inference without facts\<close>

text \<open>
  Without facts an operation classified as legal is typed under every valuation: the solver of
  \<open>Shapes\<close> proves equalities that hold for all dimensions.
\<close>

lemma legacy_condition_sound:
  assumes "select_condition None c b = Inr (True, cls, rels)"
  shows "selects (eval_type v c) (eval_type v b)"
proof (cases c)
  case (Scalar e)
  with assms show ?thesis by (cases e) (simp_all add: select_condition_def selects_def)
next
  case (Tensor e csh)
  with assms show ?thesis
    by (cases e; cases b) (auto simp: select_condition_def selects_def same_shape_proved)
qed

lemma infer_primitive_legal:
  assumes inf: "infer_primitive op operands attrs = Inr i" and legal: "classification i = Legal"
  shows "prim_typing op attrs (map (eval_type v) operands) (eval_type v (inf_ty i))"
proof -
  note ty = legacy_types.legal [OF _ TrueI, of _ _ _ v]
  have inf': "infer_primitive_impl None op operands attrs = Inr i"
    using inf by (simp add: infer_primitive_def)
  have arith: ?thesis if i: "infer_arithmetic None op operands = Inr i"
    and op: "op \<in> {Add, Sub, Mul, Div}"
  proof -
    from i obtain l r where o: "operands = [l, r]" "is_numeric (element_type l)" "inf_ty i = l"
        "compatible_types None l r = Inr (classification i, shape_relations i)"
      by (rule infer_arithmetic_Inr)
    have "prim_typing op attrs [eval_type v l, eval_type v l] (eval_type v l)"
      using o prim_typing_arith [OF op] by simp
    with o ty [of l r] legal show ?thesis by simp
  qed
  show ?thesis
  proof (cases op)
    case Fma
    with inf' have "infer_fma None operands = Inr i" by (simp add: infer_primitive_impl_def)
    then obtain a b c bc brels cc crels where m: "operands = [a, b, c]" "is_numeric (element_type a)"
        "inf_ty i = a" "compatible_types None a b = Inr (bc, brels)"
        "compatible_types None a c = Inr (cc, crels)" "classification i = merge_class bc cc"
      by (rule infer_fma_Inr)
    with legal have "bc = Legal" "cc = Legal" by (auto dest: legacy_types.two_classes)
    with m ty [of a b] ty [of a c] have "eval_type v b = eval_type v a" "eval_type v c = eval_type v a"
      by simp_all
    with m Fma show ?thesis by (simp add: prim_typing_fma)
  next
    case Compare
    with inf' have "infer_compare None operands = Inr i" by (simp add: infer_primitive_impl_def)
    with legal Compare ty show ?thesis
      by (elim infer_compare_Inr) (simp add: prim_typing_compare_iff eval_type_with_element prod_eq_iff)
  next
    case Select
    with inf' have "infer_select None operands = Inr i" by (simp add: infer_primitive_impl_def)
    then obtain c a b bc brels cc crels where m: "operands = [c, a, b]" "inf_ty i = a"
        "compatible_types None a b = Inr (bc, brels)" "select_condition None c a = Inr (True, cc, crels)"
        "classification i = merge_class bc cc"
      by (rule infer_select_Inr)
    with legal have "bc = Legal" by (auto dest: legacy_types.two_classes)
    with m ty [of a b] have "eval_type v b = eval_type v a" by simp
    with m Select legacy_condition_sound [OF m(4), of v] show ?thesis by (simp add: prim_typing_select)
  next
    case Cast
    with inf' have "infer_cast operands attrs = Inr i" by (simp add: infer_primitive_impl_def)
    from infer_cast_exact [OF this, of v "eval_type v (inf_ty i)"] Cast
    show ?thesis using \<open>infer_cast operands attrs = Inr i\<close>
      by (elim infer_cast_Inr) (simp add: legal_inference_def)
  qed (use inf' arith in \<open>simp_all add: infer_primitive_impl_def\<close>)
qed

end
