(* ===== verification/Transactions.thy ===== *)
theory Transactions
  imports Canonical Inference_Proofs
begin

text \<open>
  ActionIR (\<open>agentir-core/src/actions.rs\<close>) and the verification of one action
  (\<open>agentir-core/src/workspace.rs\<close>): references and bindings, inline regions, proof obligations
  and their discharge, completeness, the resource preflight, and the effect of each action on
  the transaction's working state.
\<close>

subsection \<open>Actions\<close>

record region_argument_spec =
  ras_name :: string
  ras_ty :: ty

record region_op_spec =
  ros_bind :: string
  ros_opcode :: string
  ros_operands :: "string list"
  ros_attributes :: "(string, json) bmap"

record region_spec =
  rs_arguments :: "region_argument_spec list"
  rs_captures :: "string list"
  rs_operations :: "region_op_spec list"
  rs_yield_value :: string

datatype action =
    DefineDimension "string option" string "string list"
  | CreateParameter string string ty
  | CreateConstant string ty json
  | CreateHole string ty "shape_constraint list"
  | CreateOp string string "string list" "(string, json) bmap" "region_spec option"
  | FillHole string string
  | SetOutput string string
  | AddConstraint shape_constraint
  | FreezeSpec
  | ForkRevision

record transaction =
  tx_workspace :: string
  base_revision :: string
  tx_actions :: "action list"
  client_transaction_id :: "string option"
  allow_branch :: bool

subsection \<open>Bindings and references\<close>

datatype binding = BValue string | BHole string | BDimension string

fun persistent_id :: "binding \<Rightarrow> string" where
  "persistent_id (BValue v) = v"
| "persistent_id (BHole h) = h"
| "persistent_id (BDimension d) = d"

type_synonym bindings = "(string, binding) bmap"

definition ensure_new_binding :: "bindings \<Rightarrow> string \<Rightarrow> unit res" where
  "ensure_new_binding bs binding =
     (if strip_prefix ''$'' binding = None
      then err InvalidRequest ''temporary binding `{binding}` must start with `$`''
      else if bmap_contains bs binding
      then err DuplicateBinding ''temporary binding `{binding}` is already defined''
      else Inr ())"

definition strip_at :: "string \<Rightarrow> string" where
  "strip_at reference = (case strip_prefix ''@'' reference of Some r \<Rightarrow> r | None \<Rightarrow> reference)"

definition resolve_binding :: "program \<Rightarrow> binding \<Rightarrow> string res" where
  "resolve_binding prog b =
     (case b of
        BValue v \<Rightarrow> Inr v
      | BHole h \<Rightarrow>
          ok_or (Fail (agent_error_new UnknownReference ''{reference}''))
            (map_option placeholder (bmap_get (holes prog) h))
      | BDimension _ \<Rightarrow> err TypeMismatch ''dimension `{reference}` is not a value'')"

text \<open>A binding, a short index into the live values, an identifier, a parameter or an output.\<close>

definition resolve_value :: "string \<Rightarrow> program \<Rightarrow> bindings \<Rightarrow> string res" where
  "resolve_value reference0 prog bs =
     (case bmap_get bs reference0 of
        Some b \<Rightarrow> resolve_binding prog b
      | None \<Rightarrow>
          let reference = strip_at reference0 in
          (case parse_u64 reference of
             Some index \<Rightarrow>
               if 0 < index \<and> index - 1 < length (vals prog)
               then Inr (bmap_keys (vals prog) ! (index - 1))
               else err UnknownReference (''short value index `@'' @ ''{index}` is outside the live-value table'')
           | None \<Rightarrow>
               if bmap_contains (vals prog) reference then Inr reference
               else (case bmap_get (parameters prog) reference of
                       Some v \<Rightarrow> Inr v
                     | None \<Rightarrow>
                         ok_or (Fail (agent_error_new UnknownReference ''unknown value reference `{reference}`''))
                           (bmap_get (outputs prog) reference))))"

definition resolve_hole :: "string \<Rightarrow> program \<Rightarrow> bindings \<Rightarrow> string res" where
  "resolve_hole reference0 prog bs =
     (case bmap_get bs reference0 of
        Some (BHole h) \<Rightarrow> Inr h
      | _ \<Rightarrow>
          let reference = strip_at reference0 in
          if bmap_contains (holes prog) reference then Inr reference
          else err UnknownReference ''unknown hole reference `{reference}`'')"

definition type_symbols :: "ty \<Rightarrow> string bset" where
  "type_symbols t = (case t of Scalar _ \<Rightarrow> [] | Tensor _ sh \<Rightarrow> shape_symbol_set sh)"

definition validate_type_symbols :: "program \<Rightarrow> ty \<Rightarrow> unit res" where
  "validate_type_symbols prog t =
     (if list_all (bmap_contains (dimension_names prog)) (type_symbols t) then Inr ()
      else err UnknownReference ''type references undefined dimensions: {}'')"

definition value_type :: "program \<Rightarrow> string \<Rightarrow> ty res" where
  "value_type prog value =
     ok_or (Fail (agent_error_new UnknownReference ''{value}'')) (map_option v_ty (bmap_get (vals prog) value))"

subsection \<open>Inline regions\<close>

definition expected_region_arguments :: "opcode \<Rightarrow> ty list \<Rightarrow> ty list res" where
  "expected_region_arguments op operands =
     (case op of
        Map \<Rightarrow>
          (case operands of
             [Tensor e _] \<Rightarrow> Inr [Scalar e]
           | _ \<Rightarrow> err TypeMismatch ''map expects one tensor operand'')
      | ZipMap \<Rightarrow>
          traverse (\<lambda>t. case t of
              Tensor e _ \<Rightarrow> Inr (Scalar e)
            | Scalar _ \<Rightarrow> err TypeMismatch ''zip_map expects only tensor operands'') operands
      | Reduce \<Rightarrow>
          (case operands of
             Tensor e _ # _ \<Rightarrow> Inr [Scalar e, Scalar e]
           | _ \<Rightarrow> err TypeMismatch ''reduce expects a tensor operand'')
      | _ \<Rightarrow> err InvalidRegion ''{opcode} does not accept a region'')"

definition check_argument ::
    "(string, ty) bmap \<Rightarrow> region_argument_spec \<times> ty \<Rightarrow> (string, ty) bmap res" where
  "check_argument types p =
     (let (argument, expected) = p in
      if ras_ty argument \<noteq> expected
      then err InvalidRegion ''region argument `{}` has an incompatible type''
      else if bmap_contains types (ras_name argument)
      then err InvalidRegion ''duplicate region argument `{}`''
      else Inr (bmap_insert (ras_name argument) (ras_ty argument) types))"

definition check_capture ::
    "program \<Rightarrow> bindings \<Rightarrow> (string, string) bmap \<times> string list \<Rightarrow> string \<Rightarrow>
     ((string, string) bmap \<times> string list) res" where
  "check_capture prog bs st reference =
     rbind (resolve_value reference prog bs) (\<lambda>value.
       if bmap_contains (fst st) reference
       then err InvalidRegion ''duplicate region capture `{reference}`''
       else Inr (bmap_insert reference value (fst st), snd st @ [value]))"

definition resolve_region_value ::
    "program \<Rightarrow> (string, ty) bmap \<Rightarrow> (string, string) bmap \<Rightarrow> (string, ty) bmap \<Rightarrow> string \<Rightarrow>
     (region_value \<times> ty) res" where
  "resolve_region_value prog arguments captures locals reference =
     (case bmap_get arguments reference of
        Some t \<Rightarrow> Inr (Argument reference, t)
      | None \<Rightarrow>
          (case bmap_get locals reference of
             Some t \<Rightarrow> Inr (Local reference, t)
           | None \<Rightarrow>
               (case bmap_get captures reference of
                  Some value \<Rightarrow> rmap (Pair (Capture value)) (value_type prog value)
                | None \<Rightarrow>
                    err InvalidRegion ''region reference `{reference}` is not an argument, local, or explicit capture'')))"

definition infer_operation ::
    "constraint_facts option \<Rightarrow> opcode \<Rightarrow> ty list \<Rightarrow> (string, json) bmap \<Rightarrow> inference res" where
  "infer_operation facts op operands attributes =
     (case facts of
        Some f \<Rightarrow> infer_primitive_with_facts op operands attributes f
      | None \<Rightarrow> infer_primitive op operands attributes)"

record region_builder =
  rb_locals :: "(string, ty) bmap"
  rb_operations :: "region_operation list"
  rb_classification :: action_classification
  rb_relations :: "shape_relation list"

definition build_region_operation ::
    "program \<Rightarrow> constraint_facts option \<Rightarrow> (string, ty) bmap \<Rightarrow> (string, string) bmap \<Rightarrow>
     region_builder \<Rightarrow> region_op_spec \<Rightarrow> region_builder res" where
  "build_region_operation prog facts arguments captures rb spec =
     (if strip_prefix ''$'' (ros_bind spec) = None \<or> bmap_contains (rb_locals rb) (ros_bind spec)
      then err InvalidRegion ''invalid or duplicate local binding `{}`''
      else case parse_opcode (ros_opcode spec) of
        Inl msg \<Rightarrow> err UnknownOpcode msg
      | Inr op \<Rightarrow>
          if op \<in> {Parameter, Constant, Map, ZipMap, Reduce}
          then err InvalidRegion ''nested opcode `{opcode}` is not permitted in Stage 1 regions''
          else
            rbind (traverse (resolve_region_value prog arguments captures (rb_locals rb)) (ros_operands spec))
              (\<lambda>resolved.
            rbind (infer_operation facts op (map snd resolved) (ros_attributes spec)) (\<lambda>inferred.
              Inr \<lparr>rb_locals = bmap_insert (ros_bind spec) (inf_ty inferred) (rb_locals rb),
                   rb_operations = rb_operations rb @
                     [\<lparr>ro_result = ros_bind spec, ro_opcode = op, ro_operands = map fst resolved,
                       ro_attributes = ros_attributes spec, ro_result_type = inf_ty inferred\<rparr>],
                   rb_classification =
                     (if classification inferred = Conditional then Conditional else rb_classification rb),
                   rb_relations = rb_relations rb @ shape_relations inferred\<rparr>)))"

definition build_region ::
    "opcode \<Rightarrow> region_spec \<Rightarrow> ty list \<Rightarrow> program \<Rightarrow> bindings \<Rightarrow> constraint_facts option \<Rightarrow>
     (region \<times> action_classification \<times> shape_relation list) res" where
  "build_region op spec operands prog bs facts =
     rbind (expected_region_arguments op operands) (\<lambda>expected.
     if length (rs_arguments spec) \<noteq> length expected
     then err InvalidRegion ''{opcode} expects {} region arguments, got {}''
     else
       rbind (rfold check_argument [] (zip (rs_arguments spec) expected)) (\<lambda>arguments.
       rbind (rfold (check_capture prog bs) ([], []) (rs_captures spec)) (\<lambda>(by_reference, captures).
       rbind (rfold (build_region_operation prog facts arguments by_reference)
                \<lparr>rb_locals = [], rb_operations = [], rb_classification = Legal, rb_relations = []\<rparr>
                (rs_operations spec)) (\<lambda>rb.
       rbind (resolve_region_value prog arguments by_reference (rb_locals rb) (rs_yield_value spec))
         (\<lambda>(yield_value, yield_type).
           Inr (\<lparr>rg_arguments = map (\<lambda>a. \<lparr>arg_name = ras_name a, arg_ty = ras_ty a\<rparr>) (rs_arguments spec),
                 rg_captures = captures, rg_operations = rb_operations rb,
                 rg_yield_value = yield_value, rg_yield_type = yield_type\<rparr>,
                rb_classification rb, rb_relations rb))))))"

subsection \<open>Proof obligations\<close>

text \<open>The JSON forms of the propositions; \<open>serde_json\<close> keeps object keys in order.\<close>

definition json_object :: "(string \<times> json) list \<Rightarrow> json" where
  "json_object kvs = JObject (bmap_of_list kvs)"

definition json_get :: "json \<Rightarrow> string \<Rightarrow> json option" where
  "json_get j k = (case j of JObject kvs \<Rightarrow> map_of kvs k | _ \<Rightarrow> None)"

fun context_json :: "shape_obligation_context \<Rightarrow> json" where
  "context_json (OperationContext op operands) =
     json_object [(''kind'', JString ''operation''), (''opcode'', JString (show_opcode op)),
                  (''operands'', JArray (map JString operands))]"
| "context_json (HoleContext h v) =
     json_object [(''kind'', JString ''hole''), (''hole'', JString h), (''value'', JString v)]"

definition shape_proposition_json :: "shape_compatibility_proposition \<Rightarrow> json" where
  "shape_proposition_json p =
     json_object [(''shape_compatibility'',
       json_object [(''relation'', JString ''equal_shape''),
                    (''left'', JString (show_type (left_type p))),
                    (''right'', JString (show_type (right_type p))),
                    (''involved_symbols'', JArray (map JString (involved_symbols_of p))),
                    (''context'', context_json (ob_context p))])]"

record obligation_draft =
  od_kind :: obligation_kind
  od_status :: obligation_status
  od_proposition :: json
  od_methods :: "string list"

definition add_obligation ::
    "program \<Rightarrow> id_allocator \<Rightarrow> string \<Rightarrow> obligation_draft \<Rightarrow> nat \<Rightarrow>
     (program \<times> id_allocator \<times> string) res" where
  "add_obligation prog alloc action draft max_obligations =
     rbind (ensure ObligationsPerProgram max_obligations
              (u64_saturating_add (length (obligations prog)) 1) ''create proof obligation'') (\<lambda>_.
     let (alloc', oid) = alloc_obligation alloc in
       Inr (prog\<lparr>obligations := bmap_insert oid
                 \<lparr>ob_id = oid, ob_kind = od_kind draft, ob_proposition = od_proposition draft,
                  shape_compatibility = None,
                  ob_origin = \<lparr>oo_revision = None, oo_action = action\<rparr>,
                  ob_status = od_status draft, discharge_methods = od_methods draft\<rparr>
                 (obligations prog)\<rparr>, alloc', oid))"

definition involved_symbols :: "ty \<Rightarrow> ty \<Rightarrow> string list" where
  "involved_symbols l r = bset_of_list (type_symbols l @ type_symbols r)"

definition add_shape_obligation ::
    "program \<Rightarrow> id_allocator \<Rightarrow> string \<Rightarrow> shape_relation \<Rightarrow> shape_obligation_context \<Rightarrow> nat \<Rightarrow>
     (program \<times> id_allocator \<times> string) res" where
  "add_shape_obligation prog alloc action relation ctx max_obligations =
     rbind (ensure ObligationsPerProgram max_obligations
              (u64_saturating_add (length (obligations prog)) 1) ''create shape compatibility obligation'') (\<lambda>_.
     let p = \<lparr>left_type = rel_left relation, right_type = rel_right relation,
              involved_symbols_of = involved_symbols (rel_left relation) (rel_right relation),
              ob_context = ctx\<rparr>;
         (alloc', oid) = alloc_obligation alloc in
       Inr (prog\<lparr>obligations := bmap_insert oid
                 \<lparr>ob_id = oid, ob_kind = ShapeCompatible, ob_proposition = shape_proposition_json p,
                  shape_compatibility = Some p,
                  ob_origin = \<lparr>oo_revision = None, oo_action = action\<rparr>, ob_status = ObOpen,
                  discharge_methods = [''add_constraint'', ''specialize_shape'']\<rparr>
                 (obligations prog)\<rparr>, alloc', oid))"

definition discharge_one :: "constraint_facts \<Rightarrow> bool \<Rightarrow> proof_obligation \<Rightarrow> proof_obligation res" where
  "discharge_one facts reject_contradiction ob =
     (if ob_kind ob \<noteq> ShapeCompatible \<or> ob_status ob \<noteq> ObOpen then Inr ob
      else case shape_compatibility ob of
        None \<Rightarrow> Inr ob
      | Some p \<Rightarrow>
          rbind (query_types facts (left_type p) (right_type p)) (\<lambda>q.
            case q of
              QProved _ \<Rightarrow> Inr (ob\<lparr>ob_status := ObProved\<rparr>)
            | QUnknown \<Rightarrow> Inr ob
            | QContradiction _ \<Rightarrow>
                if reject_contradiction
                then err ConstraintContradiction ''constraint contradicts an open shape compatibility obligation''
                else Inr (ob\<lparr>ob_status := ObRefuted\<rparr>)))"

definition discharge_shape_obligations :: "program \<Rightarrow> constraint_facts \<Rightarrow> bool \<Rightarrow> program res" where
  "discharge_shape_obligations prog facts reject_contradiction =
     rmap (\<lambda>obs. prog\<lparr>obligations := obs\<rparr>)
       (traverse (\<lambda>(k, ob). rmap (Pair k) (discharge_one facts reject_contradiction ob)) (obligations prog))"

subsection \<open>Completeness\<close>

record check_report =
  cr_revision :: string
  well_typed :: bool
  complete :: bool
  deployable :: bool
  open_holes :: "string list"
  open_obligations :: "string list"
  cr_outputs :: "(string, ty) bmap"

definition open_hole_ids :: "program \<Rightarrow> string list" where
  "open_hole_ids prog = map fst (filter (\<lambda>(_, h). hole_status h = HoleOpen) (holes prog))"

definition open_obligation_ids :: "program \<Rightarrow> string list" where
  "open_obligation_ids prog = map fst (filter (\<lambda>(_, ob). ob_status ob = ObOpen) (obligations prog))"

definition check_program :: "string \<Rightarrow> program \<Rightarrow> check_report" where
  "check_program revision prog =
     (let hs = open_hole_ids prog; obs = open_obligation_ids prog;
          done = outputs prog \<noteq> [] \<and> hs = [] \<and> obs = [] in
      \<lparr>cr_revision = revision, well_typed = True, complete = done, deployable = (done \<and> frozen prog),
       open_holes = hs, open_obligations = obs,
       cr_outputs = List.map_filter (\<lambda>(name, value).
         map_option (\<lambda>def. (name, v_ty def)) (bmap_get (vals prog) value)) (outputs prog)\<rparr>)"

definition require_complete :: "program \<Rightarrow> unit res" where
  "require_complete prog =
     (if open_hole_ids prog \<noteq> [] then err OpenHole ''specification contains open typed holes''
      else if outputs prog = [] then err SpecNotComplete ''specification must define at least one output''
      else if open_obligation_ids prog \<noteq> []
      then err SpecNotComplete ''specification contains open proof obligations''
      else Inr ())"

subsection \<open>Resource preflight\<close>

definition check_attributes :: "encoders \<Rightarrow> (string, json) bmap \<Rightarrow> resource_limits \<Rightarrow> string \<Rightarrow> unit res" where
  "check_attributes enc attributes limits ctx =
     against limits AttributeJsonBytes (length (encode_attributes enc attributes)) ctx"

record projection =
  pj_dimensions :: nat
  pj_operations :: nat
  pj_values :: nat
  pj_holes :: nat
  pj_constraints :: nat
  pj_constraint_set :: "shape_constraint bset"
  pj_outputs :: nat
  pj_output_names :: "string bset"

definition legacy_semantics :: nat where "legacy_semantics = 1"
definition core_semantics :: nat where "core_semantics = 2"

definition preflight_region :: "encoders \<Rightarrow> resource_limits \<Rightarrow> region_spec \<Rightarrow> unit res" where
  "preflight_region enc limits rg =
     rbind (against limits RegionArguments (length (rs_arguments rg)) ''inline region arguments'') (\<lambda>_.
     rbind (against limits RegionOperations (length (rs_operations rg)) ''inline region operations'') (\<lambda>_.
     rmap (\<lambda>_. ()) (traverse (\<lambda>operation.
       rbind (against limits OperandsPerOperation (length (ros_operands operation)) ''region operation operands'')
         (\<lambda>_. check_attributes enc (ros_attributes operation) limits ''region operation attributes''))
       (rs_operations rg))))"

definition project_action ::
    "encoders \<Rightarrow> resource_limits \<Rightarrow> nat \<Rightarrow> projection \<Rightarrow> action \<Rightarrow> projection res" where
  "project_action enc limits semantics pj act =
     (case act of
        DefineDimension _ _ _ \<Rightarrow> Inr (pj\<lparr>pj_dimensions := u64_saturating_add (pj_dimensions pj) 1\<rparr>)
      | CreateParameter _ _ _ \<Rightarrow>
          Inr (pj\<lparr>pj_operations := u64_saturating_add (pj_operations pj) 1,
                  pj_values := u64_saturating_add (pj_values pj) 1\<rparr>)
      | CreateConstant _ _ _ \<Rightarrow>
          Inr (pj\<lparr>pj_operations := u64_saturating_add (pj_operations pj) 1,
                  pj_values := u64_saturating_add (pj_values pj) 1\<rparr>)
      | CreateHole _ _ cs \<Rightarrow>
          Inr (pj\<lparr>pj_holes := u64_saturating_add (pj_holes pj) 1,
                  pj_values := u64_saturating_add (pj_values pj) 1,
                  pj_constraints := u64_saturating_add (pj_constraints pj) (length cs)\<rparr>)
      | CreateOp _ _ operands attributes rg \<Rightarrow>
          rbind (against limits OperandsPerOperation (length operands) ''top-level operation operands'') (\<lambda>_.
          rbind (check_attributes enc attributes limits ''top-level operation attributes'') (\<lambda>_.
          rbind (case rg of None \<Rightarrow> Inr () | Some spec \<Rightarrow> preflight_region enc limits spec) (\<lambda>_.
            Inr (pj\<lparr>pj_operations := u64_saturating_add (pj_operations pj) 1,
                    pj_values := u64_saturating_add (pj_values pj) 1\<rparr>))))
      | AddConstraint c \<Rightarrow>
          if semantics = legacy_semantics
          then Inr (pj\<lparr>pj_constraints := u64_saturating_add (pj_constraints pj) 1\<rparr>)
          else if bset_contains (pj_constraint_set pj) c then Inr pj
          else Inr (pj\<lparr>pj_constraints := u64_saturating_add (pj_constraints pj) 1,
                       pj_constraint_set := bset_insert c (pj_constraint_set pj)\<rparr>)
      | SetOutput name _ \<Rightarrow>
          if bset_contains (pj_output_names pj) name then Inr pj
          else Inr (pj\<lparr>pj_outputs := u64_saturating_add (pj_outputs pj) 1,
                       pj_output_names := bset_insert name (pj_output_names pj)\<rparr>)
      | _ \<Rightarrow> Inr pj)"

definition initial_projection :: "program \<Rightarrow> projection" where
  "initial_projection prog =
     \<lparr>pj_dimensions = length (dimensions prog), pj_operations = length (operations prog),
      pj_values = length (vals prog), pj_holes = length (holes prog),
      pj_constraints = u64_saturating_add (length (constraints prog))
        (fold (\<lambda>h n. u64_saturating_add n (length (shape_constraints h))) (bmap_values (holes prog)) 0),
      pj_constraint_set = bset_of_list (constraints prog),
      pj_outputs = length (outputs prog), pj_output_names = bset_of_list (bmap_keys (outputs prog))\<rparr>"

definition preflight_transaction ::
    "encoders \<Rightarrow> program \<Rightarrow> transaction \<Rightarrow> resource_limits \<Rightarrow> nat \<Rightarrow> unit res" where
  "preflight_transaction enc prog tx limits semantics =
     rbind (against limits ActionsPerTransaction (length (tx_actions tx)) ''transaction preflight'') (\<lambda>_.
     rbind (rfold (project_action enc limits semantics) (initial_projection prog) (tx_actions tx)) (\<lambda>pj.
       rmap (\<lambda>_. ()) (traverse (\<lambda>(r, n). against limits r n ''projected program size'')
         [(DimensionsPerProgram, pj_dimensions pj), (OperationsPerProgram, pj_operations pj),
          (ValuesPerProgram, pj_values pj), (HolesPerProgram, pj_holes pj),
          (ConstraintsPerProgram, pj_constraints pj), (OutputCount, pj_outputs pj)])))"

end
