(* ===== verification/Workspace.thy ===== *)
theory Workspace
  imports Transactions
begin

text \<open>
  The workspace (\<open>agentir-core/src/workspace.rs\<close>) with its immutable revisions
  (\<open>agentir-core/src/revision.rs\<close>): the effect of every action on the working state of a
  transaction, atomic application, forks, checks and structural diffs. The candidate forest and
  the equality store of the same struct are added in \<open>Candidate_Workspace\<close> and
  \<open>Equality_Workspace\<close>; no operation modelled here reads or writes them.
\<close>

subsection \<open>Working state of a transaction\<close>

record txn =
  tx_program :: program
  tx_alloc :: id_allocator
  tx_bindings :: bindings
  tx_inferred :: "(string, ty) bmap"
  tx_classifications :: "action_classification list"
  tx_created :: "string list"
  tx_facts :: "constraint_facts option"

text \<open>Recording an obligation: \<open>obligations_created.push(add_obligation(...)?)\<close>.\<close>

definition push_obligation :: "nat \<Rightarrow> string \<Rightarrow> obligation_draft \<Rightarrow> txn \<Rightarrow> txn res" where
  "push_obligation max_obligations action draft tx =
     rbind (add_obligation (tx_program tx) (tx_alloc tx) action draft max_obligations) (\<lambda>(prog, alloc, oid).
       Inr (tx\<lparr>tx_program := prog, tx_alloc := alloc, tx_created := tx_created tx @ [oid]\<rparr>))"

definition push_shape_obligation ::
    "nat \<Rightarrow> string \<Rightarrow> shape_obligation_context \<Rightarrow> txn \<Rightarrow> shape_relation \<Rightarrow> txn res" where
  "push_shape_obligation max_obligations action ctx tx relation =
     rbind (add_shape_obligation (tx_program tx) (tx_alloc tx) action relation ctx max_obligations)
       (\<lambda>(prog, alloc, oid).
         Inr (tx\<lparr>tx_program := prog, tx_alloc := alloc, tx_created := tx_created tx @ [oid]\<rparr>))"

definition bind_result :: "string \<Rightarrow> binding \<Rightarrow> ty \<Rightarrow> txn \<Rightarrow> txn" where
  "bind_result name b t tx =
     tx\<lparr>tx_bindings := bmap_insert name b (tx_bindings tx),
        tx_inferred := bmap_insert name t (tx_inferred tx)\<rparr>"

text \<open>A new operation with one result: the tail that three actions share.\<close>

definition insert_operation ::
    "opcode \<Rightarrow> string list \<Rightarrow> (string, json) bmap \<Rightarrow> region option \<Rightarrow> string \<Rightarrow> ty \<Rightarrow>
     string option \<Rightarrow> txn \<Rightarrow> string \<times> txn" where
  "insert_operation op operands attributes rg action t name tx =
     (let (a1, oid) = alloc_operation (tx_alloc tx);
          (a2, vid) = alloc_value a1;
          prog = tx_program tx;
          operation = \<lparr>op_id = oid, op_opcode = op, op_operands = operands, op_results = [vid],
                       op_attributes = attributes, op_region = rg, op_provenance = action,
                       op_result_types = [t]\<rparr>;
          def = \<lparr>v_id = vid, v_ty = t, v_origin = OperationOrigin oid, v_name = name\<rparr> in
      (vid, tx\<lparr>tx_alloc := a2,
               tx_program := prog\<lparr>vals := bmap_insert vid def (vals prog),
                                  operations := bmap_insert oid operation (operations prog),
                                  operation_order := operation_order prog @ [oid]\<rparr>\<rparr>))"

subsection \<open>Actions\<close>

definition define_dimension :: "nat \<Rightarrow> string \<Rightarrow> string option \<Rightarrow> string \<Rightarrow> string list \<Rightarrow> txn \<Rightarrow> txn res" where
  "define_dimension semantics action bind name cs tx =
     (let prog = tx_program tx;
          normalized = map (filter (\<lambda>c. c \<noteq> CHR '' '')) cs;
          supported = name @ ''>=0'' in
      if bmap_contains (dimension_names prog) name
      then err DuplicateBinding ''dimension `{name}` already exists''
      else
        rbind (case bind of None \<Rightarrow> Inr () | Some b \<Rightarrow> ensure_new_binding (tx_bindings tx) b) (\<lambda>_.
        if semantics = core_semantics \<and> list_ex (\<lambda>c. c \<noteq> supported) normalized
        then err InvalidConstraint ''define_dimension supports only `<symbol> >= 0` in Stage 1.2''
        else
          let (alloc, did) = alloc_dimension (tx_alloc tx);
              nn = list_ex (\<lambda>c. c = supported) normalized;
              dim = \<lparr>dim_id = did, dim_name = name, dim_non_negative = nn, dim_provenance = action\<rparr>;
              prog' = prog\<lparr>dimensions := bmap_insert did dim (dimensions prog),
                           dimension_names := bmap_insert name did (dimension_names prog)\<rparr> in
          rbind (case tx_facts tx of
                   None \<Rightarrow> Inr None
                 | Some f \<Rightarrow> rmap Some (declare_symbol name nn f)) (\<lambda>facts.
            Inr (tx\<lparr>tx_program := prog', tx_alloc := alloc, tx_facts := facts,
                    tx_bindings := (case bind of
                        None \<Rightarrow> tx_bindings tx
                      | Some b \<Rightarrow> bmap_insert b (BDimension did) (tx_bindings tx))\<rparr>))))"

definition create_parameter :: "nat \<Rightarrow> string \<Rightarrow> string \<Rightarrow> string \<Rightarrow> ty \<Rightarrow> txn \<Rightarrow> txn res" where
  "create_parameter max_obligations action bind name t tx =
     rbind (ensure_new_binding (tx_bindings tx) bind) (\<lambda>_.
     rbind (validate_type_symbols (tx_program tx) t) (\<lambda>_.
     if bmap_contains (parameters (tx_program tx)) name
     then err DuplicateBinding ''parameter `{name}` already exists''
     else
       let (vid, tx1) = insert_operation Parameter []
             [(''name'', JString name), (''type'', JString (show_type t))] None action t (Some name) tx;
           prog = tx_program tx1;
           tx2 = bind_result bind (BValue vid) t
             (tx1\<lparr>tx_program := prog\<lparr>parameters := bmap_insert name vid (parameters prog)\<rparr>\<rparr>) in
       push_obligation max_obligations action
         \<lparr>od_kind = TypeWellFormed, od_status = ObProved,
          od_proposition = json_object [(''type'', JString (show_type t))], od_methods = []\<rparr> tx2))"

fun constant_json :: "constant_value \<Rightarrow> json" where
  "constant_json (CBool b) = json_object [(''type'', JString ''bool''), (''value'', JBool b)]"
| "constant_json (CI32 i) =
     json_object [(''type'', JString ''i32''),
       (''value'', JNumber (if 0 \<le> sint i then PosInt (nat (sint i)) else NegInt (sint i)))]"
| "constant_json (CF32 bits) = json_object [(''type'', JString ''f32''), (''bits'', JString bits)]"

definition create_constant :: "string \<Rightarrow> string \<Rightarrow> ty \<Rightarrow> json \<Rightarrow> txn \<Rightarrow> txn res" where
  "create_constant action bind t value tx =
     rbind (ensure_new_binding (tx_bindings tx) bind) (\<lambda>_.
     case t of
       Tensor _ _ \<Rightarrow> err TypeMismatch ''Stage 1 constants must be scalar''
     | Scalar s \<Rightarrow>
         (case from_json s value of
            Inl msg \<Rightarrow> err TypeMismatch msg
          | Inr c \<Rightarrow>
              let (vid, tx1) = insert_operation Constant [] [(''value'', constant_json c)] None action t None tx;
                  prog = tx_program tx1 in
              Inr (bind_result bind (BValue vid) t
                (tx1\<lparr>tx_program := prog\<lparr>constants := bmap_insert vid c (constants prog)\<rparr>\<rparr>))))"

text \<open>Hole constraints are checked against a local copy of the facts, which is then dropped.\<close>

definition with_local_constraints ::
    "constraint_facts \<Rightarrow> shape_constraint list \<Rightarrow> constraint_facts res" where
  "with_local_constraints facts cs = rfold (\<lambda>f c. rmap fst (insert_constraint f c)) facts cs"

definition create_hole ::
    "nat \<Rightarrow> string \<Rightarrow> string \<Rightarrow> ty \<Rightarrow> shape_constraint list \<Rightarrow> txn \<Rightarrow> txn res" where
  "create_hole max_obligations action bind t cs tx =
     rbind (ensure_new_binding (tx_bindings tx) bind) (\<lambda>_.
     rbind (validate_type_symbols (tx_program tx) t) (\<lambda>_.
     rbind (case tx_facts tx of
              None \<Rightarrow> Inr ()
            | Some f \<Rightarrow> rmap (\<lambda>_. ()) (with_local_constraints f cs)) (\<lambda>_.
     let (a1, hid) = alloc_hole (tx_alloc tx);
         (a2, vid) = alloc_value a1;
         prog = tx_program tx;
         def = \<lparr>v_id = vid, v_ty = t, v_origin = HoleOrigin hid, v_name = None\<rparr>;
         h = \<lparr>hole_id = hid, placeholder = vid, expected_type = t, shape_constraints = cs,
              hole_status = HoleOpen, hole_provenance = action, filled_with = None\<rparr>;
         tx1 = bind_result bind (BHole hid) t
           (tx\<lparr>tx_alloc := a2,
               tx_program := prog\<lparr>vals := bmap_insert vid def (vals prog),
                                  holes := bmap_insert hid h (holes prog)\<rparr>\<rparr>) in
     push_obligation max_obligations action
       \<lparr>od_kind = HoleFilledKind, od_status = ObOpen,
        od_proposition = json_object [(''hole'', JString hid)], od_methods = [''fill_hole'']\<rparr> tx1)))"

definition infer_checked ::
    "constraint_facts option \<Rightarrow> opcode \<Rightarrow> ty list \<Rightarrow> (string, json) bmap \<Rightarrow> region option \<Rightarrow> inference res" where
  "infer_checked facts op operands attributes rg =
     (case (rg, facts) of
        (Some r, Some f) \<Rightarrow> infer_higher_with_facts op operands r f
      | (Some r, None) \<Rightarrow> infer_higher op operands r
      | (None, Some f) \<Rightarrow> infer_primitive_with_facts op operands attributes f
      | (None, None) \<Rightarrow> infer_primitive op operands attributes)"

definition relation_key :: "shape_relation \<Rightarrow> (nat \<times> scalar_type \<times> shape) \<times> (nat \<times> scalar_type \<times> shape)" where
  "relation_key r =
     (let key = (\<lambda>t. case t of Scalar s \<Rightarrow> (0, s, []) | Tensor e sh \<Rightarrow> (1, e, sh))
      in (key (rel_left r), key (rel_right r)))"

definition record_debt ::
    "nat \<Rightarrow> nat \<Rightarrow> string \<Rightarrow> opcode \<Rightarrow> string list \<Rightarrow> shape_relation list \<Rightarrow> txn \<Rightarrow> txn res" where
  "record_debt max_obligations semantics action op operands relations tx =
     (if semantics = legacy_semantics
      then push_obligation max_obligations action
             \<lparr>od_kind = ShapeCompatible, od_status = ObOpen,
              od_proposition = json_object [(''opcode'', JString (show_opcode op)),
                                            (''operands'', JArray (map JString operands))],
              od_methods = [''add_constraint'', ''specialize_shape'']\<rparr> tx
      else rfold (push_shape_obligation max_obligations action (OperationContext op operands)) tx
             (remdups_adj (sort_key relation_key relations)))"

definition create_op ::
    "nat \<Rightarrow> nat \<Rightarrow> string \<Rightarrow> string \<Rightarrow> string \<Rightarrow> string list \<Rightarrow> (string, json) bmap \<Rightarrow>
     region_spec option \<Rightarrow> txn \<Rightarrow> (action_classification \<times> txn) res" where
  "create_op max_obligations semantics action bind opname references attributes spec tx =
     rbind (ensure_new_binding (tx_bindings tx) bind) (\<lambda>_.
     case parse_opcode opname of
       Inl msg \<Rightarrow> err UnknownOpcode msg
     | Inr op \<Rightarrow>
         if op \<in> {Parameter, Constant} then err UnknownOpcode ''use the dedicated action for `{opcode}`''
         else
           rbind (traverse (\<lambda>r. resolve_value r (tx_program tx) (tx_bindings tx)) references) (\<lambda>operands.
           rbind (traverse (value_type (tx_program tx)) operands) (\<lambda>types.
           rbind (case spec of
                    None \<Rightarrow> Inr (None, Legal, [])
                  | Some s \<Rightarrow>
                      rmap (\<lambda>(r, c, rels). (Some r, c, rels))
                        (build_region op s types (tx_program tx) (tx_bindings tx) (tx_facts tx)))
             (\<lambda>(rg, region_class, region_relations).
           rbind (infer_checked (tx_facts tx) op types attributes rg) (\<lambda>inferred.
           let debt = classification inferred = Conditional \<or> region_class = Conditional;
               relations = region_relations @ shape_relations inferred in
           rbind (if debt then record_debt max_obligations semantics action op operands relations tx
                  else Inr tx) (\<lambda>tx1.
           let (vid, tx2) = insert_operation op operands attributes rg action (inf_ty inferred) None tx1 in
             Inr (if debt then Conditional else Legal, bind_result bind (BValue vid) (inf_ty inferred) tx2)))))))"

text \<open>The verdict on a value for a hole, with the relation it leaves open.\<close>

definition fill_verdict ::
    "constraint_facts option \<Rightarrow> hole \<Rightarrow> ty \<Rightarrow> (action_classification \<times> shape_relation option) res" where
  "fill_verdict facts h value_ty =
     (case (expected_type h, value_ty) of
        (Scalar l, Scalar r) \<Rightarrow>
          if l = r then Inr (Legal, None)
          else err HoleTypeMismatch ''value type does not satisfy hole''
      | (Tensor le ls, Tensor re rs) \<Rightarrow>
          if le \<noteq> re then err HoleTypeMismatch ''value type does not satisfy hole''
          else
            rbind (case facts of
                     Some f \<Rightarrow>
                       rbind (with_local_constraints f (shape_constraints h)) (\<lambda>local_facts.
                       rmap (\<lambda>q. case q of QProved _ \<Rightarrow> Proved | QUnknown \<Rightarrow> Unknown
                                          | QContradiction _ \<Rightarrow> Contradiction)
                         (query_types local_facts (expected_type h) value_ty))
                   | None \<Rightarrow> Inr (same_shape ls rs)) (\<lambda>status.
            case status of
              Proved \<Rightarrow> Inr (Legal, None)
            | Unknown \<Rightarrow> Inr (Conditional, Some \<lparr>rel_left = expected_type h, rel_right = value_ty\<rparr>)
            | Contradiction \<Rightarrow>
                err HoleTypeMismatch ''hole and value shapes contradict accepted facts'')
      | _ \<Rightarrow> err HoleTypeMismatch ''value type does not satisfy hole'')"

definition close_hole_obligation :: "string \<Rightarrow> proof_obligation \<Rightarrow> proof_obligation" where
  "close_hole_obligation hid ob =
     (if ob_kind ob = HoleFilledKind \<and> json_get (ob_proposition ob) ''hole'' = Some (JString hid)
      then ob\<lparr>ob_status := ObProved\<rparr> else ob)"

definition fill_hole ::
    "nat \<Rightarrow> nat \<Rightarrow> string \<Rightarrow> string \<Rightarrow> string \<Rightarrow> txn \<Rightarrow> (action_classification \<times> txn) res" where
  "fill_hole max_obligations semantics action hole_name value_name tx =
     (let prog = tx_program tx in
      rbind (resolve_hole hole_name prog (tx_bindings tx)) (\<lambda>hid.
      rbind (resolve_value value_name prog (tx_bindings tx)) (\<lambda>vid.
      rbind (value_type prog vid) (\<lambda>vty.
      rbind (ok_or (Fail (agent_error_new UnknownReference ''{hole}'')) (bmap_get (holes prog) hid)) (\<lambda>h.
      rbind (fill_verdict (tx_facts tx) h vty) (\<lambda>(cls, relation).
      if filled_with h \<noteq> None
      then err TransactionRejected ''hole `{hole_id}` is already filled''
      else
        let h' = h\<lparr>filled_with := Some vid, hole_status := HoleFilled\<rparr>;
            prog' = prog\<lparr>holes := bmap_insert hid h' (holes prog),
                         obligations := bmap_map (\<lambda>_. close_hole_obligation hid) (obligations prog)\<rparr>;
            tx1 = tx\<lparr>tx_program := prog'\<rparr> in
        rbind (if cls \<noteq> Conditional then Inr tx1
               else if semantics = legacy_semantics
               then push_obligation max_obligations action
                      \<lparr>od_kind = ShapeCompatible, od_status = ObOpen,
                       od_proposition = json_object [(''hole'', JString hid)],
                       od_methods = [''add_constraint'']\<rparr> tx1
               else rbind (ok_or Panic relation) (\<lambda>r.
                      push_shape_obligation max_obligations action (HoleContext hid vid) tx1 r))
          (\<lambda>tx2. Inr (cls, tx2))))))))"

definition set_output :: "string \<Rightarrow> string \<Rightarrow> txn \<Rightarrow> txn res" where
  "set_output name reference tx =
     rbind (resolve_value reference (tx_program tx) (tx_bindings tx)) (\<lambda>vid.
     let prog = tx_program tx in
       Inr (tx\<lparr>tx_program := prog\<lparr>outputs := bmap_insert name vid (outputs prog)\<rparr>\<rparr>))"

definition add_constraint :: "shape_constraint \<Rightarrow> txn \<Rightarrow> txn res" where
  "add_constraint c tx =
     (let prog = tx_program tx in
      case tx_facts tx of
        None \<Rightarrow> Inr (tx\<lparr>tx_program := prog\<lparr>constraints := constraints prog @ [c]\<rparr>\<rparr>)
      | Some f \<Rightarrow>
          rbind (insert_constraint f c) (\<lambda>(staged, _).
          let prog' = (if c \<in> set (constraints prog) then prog
                       else prog\<lparr>constraints := constraints prog @ [c]\<rparr>) in
          rbind (discharge_shape_obligations prog' staged True) (\<lambda>prog''.
            Inr (tx\<lparr>tx_program := prog'', tx_facts := Some staged\<rparr>))))"

definition freeze_spec :: "nat \<Rightarrow> string \<Rightarrow> txn \<Rightarrow> txn res" where
  "freeze_spec max_obligations action tx =
     rbind (case tx_facts tx of
              None \<Rightarrow> Inr (tx_program tx)
            | Some f \<Rightarrow> discharge_shape_obligations (tx_program tx) f True) (\<lambda>prog.
     rbind (require_complete prog) (\<lambda>_.
       push_obligation max_obligations action
         \<lparr>od_kind = SpecComplete, od_status = ObProved,
          od_proposition = json_object [(''outputs'', JArray (map JString (bmap_keys (outputs prog))))],
          od_methods = []\<rparr>
         (tx\<lparr>tx_program := prog\<lparr>frozen := True\<rparr>\<rparr>)))"

definition legal_step :: "txn res \<Rightarrow> (action_classification \<times> txn) res" where
  "legal_step r = rmap (Pair Legal) r"

definition apply_action :: "nat \<Rightarrow> nat \<Rightarrow> txn \<Rightarrow> action \<Rightarrow> txn res" where
  "apply_action max_obligations semantics tx0 act =
     (if frozen (tx_program tx0) \<and> act \<noteq> ForkRevision
      then err SpecFrozen ''frozen SpecIR cannot be changed''
      else
        let (alloc, aid) = alloc_action (tx_alloc tx0); tx = tx0\<lparr>tx_alloc := alloc\<rparr> in
        rbind
          (case act of
             DefineDimension bind name cs \<Rightarrow> legal_step (define_dimension semantics aid bind name cs tx)
           | CreateParameter bind name t \<Rightarrow> legal_step (create_parameter max_obligations aid bind name t tx)
           | CreateConstant bind t j \<Rightarrow> legal_step (create_constant aid bind t j tx)
           | CreateHole bind t cs \<Rightarrow>
               rmap (Pair Conditional) (create_hole max_obligations aid bind t cs tx)
           | CreateOp bind op operands attributes spec \<Rightarrow>
               create_op max_obligations semantics aid bind op operands attributes spec tx
           | FillHole h v \<Rightarrow> fill_hole max_obligations semantics aid h v tx
           | SetOutput name v \<Rightarrow> legal_step (set_output name v tx)
           | AddConstraint c \<Rightarrow> legal_step (add_constraint c tx)
           | FreezeSpec \<Rightarrow> legal_step (freeze_spec max_obligations aid tx)
           | ForkRevision \<Rightarrow> Inr (Legal, tx))
          (\<lambda>(cls, tx1). Inr (tx1\<lparr>tx_classifications := tx_classifications tx1 @ [cls]\<rparr>)))"

subsection \<open>Revisions\<close>

record status_summary =
  ss_values :: nat
  ss_operations :: nat
  ss_open_holes :: nat
  ss_open_obligations :: nat
  ss_frozen :: bool

definition summarize_status :: "program \<Rightarrow> status_summary" where
  "summarize_status prog =
     \<lparr>ss_values = length (vals prog), ss_operations = length (operations prog),
      ss_open_holes = length (filter (\<lambda>h. hole_status h = HoleOpen) (bmap_values (holes prog))),
      ss_open_obligations =
        length (filter (\<lambda>ob. ob_status ob = ObOpen) (bmap_values (obligations prog))),
      ss_frozen = frozen prog\<rparr>"

record revision =
  rev_id :: string
  rev_parents :: "string list"
  rev_content_hash :: string
  rev_spec_hash :: "string option"
  rev_semantic_version :: "nat option"
  rev_program :: program
  rev_applied_transaction :: "string option"
  rev_created_at :: nat
  rev_status :: status_summary

record revision_diff =
  diff_from :: string
  diff_to :: string
  operations_added :: "string list"
  operations_removed :: "string list"
  values_added :: "string list"
  values_removed :: "string list"
  holes_added :: "string list"
  holes_removed :: "string list"
  outputs_changed :: "(string, string option \<times> string option) bmap"
  frozen_changed :: bool

definition added :: "(string, 'a) bmap \<Rightarrow> (string, 'b) bmap \<Rightarrow> string list" where
  "added l r = filter (\<lambda>k. \<not> bmap_contains l k) (bmap_keys r)"

definition changed_output ::
    "(string, string) bmap \<Rightarrow> (string, string) bmap \<Rightarrow> string \<Rightarrow> (string \<times> string option \<times> string option) option" where
  "changed_output l r name =
     (if bmap_get l name \<noteq> bmap_get r name then Some (name, bmap_get l name, bmap_get r name) else None)"

definition diff :: "revision \<Rightarrow> revision \<Rightarrow> revision_diff" where
  "diff from to =
     (let p = rev_program from; q = rev_program to;
          names = remdups_adj (sort (bmap_keys (outputs p) @ bmap_keys (outputs q))) in
      \<lparr>diff_from = rev_id from, diff_to = rev_id to,
       operations_added = added (operations p) (operations q),
       operations_removed = added (operations q) (operations p),
       values_added = added (vals p) (vals q), values_removed = added (vals q) (vals p),
       holes_added = added (holes p) (holes q), holes_removed = added (holes q) (holes p),
       outputs_changed = bmap_of_list (List.map_filter (changed_output (outputs p) (outputs q)) names),
       frozen_changed = (frozen p \<noteq> frozen q)\<rparr>)"

subsection \<open>The workspace\<close>

datatype workspace_event =
    TransactionApplied string string string transaction
  | RevisionForked string string string

record workspace =
  ws_id :: string
  ws_revisions :: "(string, revision) bmap"
  ws_head :: string
  ws_allocator :: id_allocator
  ws_events :: "(nat \<times> workspace_event) list"
  ws_limits :: resource_limits

definition workspace_with_limits_at :: "encoders \<Rightarrow> string \<Rightarrow> resource_limits \<Rightarrow> nat \<Rightarrow> workspace res" where
  "workspace_with_limits_at enc wid limits now =
     rbind (content_hash_with_limit enc default_program (canonical_output_bytes limits)) (\<lambda>hash.
       Inr \<lparr>ws_id = wid,
            ws_revisions = [(''r0'', \<lparr>rev_id = ''r0'', rev_parents = [], rev_content_hash = hash,
              rev_spec_hash = None, rev_semantic_version = None, rev_program = default_program,
              rev_applied_transaction = None, rev_created_at = now,
              rev_status = summarize_status default_program\<rparr>)],
            ws_head = ''r0'', ws_allocator = default_allocator, ws_events = [], ws_limits = limits\<rparr>)"

definition get_revision :: "workspace \<Rightarrow> string \<Rightarrow> revision res" where
  "get_revision ws rid =
     ok_or (Fail (agent_error_new RevisionNotFound ''revision `{id}` does not exist''))
       (bmap_get (ws_revisions ws) rid)"

definition check_revision :: "workspace \<Rightarrow> string \<Rightarrow> check_report res" where
  "check_revision ws rid = rmap (\<lambda>r. check_program rid (rev_program r)) (get_revision ws rid)"

record commit_result =
  cm_transaction :: string
  cm_revision :: string
  cm_bindings :: "(string, string) bmap"
  cm_inferred :: "(string, ty) bmap"
  cm_classifications :: "action_classification list"
  cm_obligations :: "string list"
  cm_content_hash :: string
  cm_spec_hash :: "string option"
  cm_semantic_version :: "nat option"

text \<open>The checks before any working state exists.\<close>

definition admit_transaction :: "encoders \<Rightarrow> workspace \<Rightarrow> transaction \<Rightarrow> nat \<Rightarrow> revision res" where
  "admit_transaction enc ws tx semantics =
     (if semantics \<noteq> legacy_semantics \<and> semantics \<noteq> core_semantics
      then err PersistenceFormat ''unsupported compiler semantics version {semantics_version}''
      else if tx_workspace tx \<noteq> ws_id ws then err WorkspaceNotFound ''transaction targets `{}`''
      else if tx_actions tx = [] then err InvalidRequest ''transaction must contain at least one action''
      else if ForkRevision \<in> set (tx_actions tx) \<and> length (tx_actions tx) \<noteq> 1
      then err InvalidRequest ''fork_revision must be the only action in its transaction''
      else if base_revision tx \<noteq> ws_head ws \<and> \<not> allow_branch tx
      then err BaseRevisionConflict ''base `{}` is not current head `{}`''
      else
        rbind (get_revision ws (base_revision tx)) (\<lambda>base.
        rbind (preflight_transaction enc (rev_program base) tx (ws_limits ws) semantics) (\<lambda>_.
          Inr base)))"

definition start_txn :: "nat \<Rightarrow> program \<Rightarrow> id_allocator \<Rightarrow> txn res" where
  "start_txn semantics prog alloc =
     rbind (if semantics = core_semantics then rmap Some (facts_from_program prog) else Inr None) (\<lambda>facts.
       Inr \<lparr>tx_program = prog, tx_alloc = alloc, tx_bindings = [], tx_inferred = [],
            tx_classifications = [], tx_created = [], tx_facts = facts\<rparr>)"

definition stamp_revision :: "string \<Rightarrow> program \<Rightarrow> string \<Rightarrow> program" where
  "stamp_revision rid prog oid =
     (case bmap_get (obligations prog) oid of
        None \<Rightarrow> prog
      | Some ob \<Rightarrow>
          prog\<lparr>obligations := bmap_insert oid
                 (ob\<lparr>ob_origin := (ob_origin ob)\<lparr>oo_revision := Some rid\<rparr>\<rparr>) (obligations prog)\<rparr>)"

definition apply_with_semantics_at ::
    "encoders \<Rightarrow> workspace \<Rightarrow> transaction \<Rightarrow> nat \<Rightarrow> nat \<Rightarrow> (workspace \<times> commit_result) res" where
  "apply_with_semantics_at enc ws tx semantics now =
     rbind (admit_transaction enc ws tx semantics) (\<lambda>base.
     rbind (start_txn semantics (rev_program base) (ws_allocator ws)) (\<lambda>st0.
     rbind (rfold (apply_action (obligations_per_program (ws_limits ws)) semantics) st0 (tx_actions tx)) (\<lambda>st.
     let (a1, tid) = alloc_transaction (tx_alloc st);
         (a2, rid) = alloc_revision a1;
         prog = fold (\<lambda>oid p. stamp_revision rid p oid) (tx_created st) (tx_program st);
         max_bytes = canonical_output_bytes (ws_limits ws) in
     rbind (content_hash_with_limit enc prog max_bytes) (\<lambda>hash.
     rbind (semantic_metadata enc prog max_bytes) (\<lambda>(spec_hash, version).
       let rev = \<lparr>rev_id = rid, rev_parents = [base_revision tx], rev_content_hash = hash,
             rev_spec_hash = spec_hash, rev_semantic_version = version, rev_program = prog,
             rev_applied_transaction = Some tid, rev_created_at = now, rev_status = summarize_status prog\<rparr> in
       Inr (ws\<lparr>ws_allocator := a2, ws_revisions := bmap_insert rid rev (ws_revisions ws), ws_head := rid,
               ws_events := ws_events ws @ [(semantics, TransactionApplied tid rid hash tx)]\<rparr>,
            \<lparr>cm_transaction = tid, cm_revision = rid,
             cm_bindings = bmap_map (\<lambda>_. persistent_id) (tx_bindings st), cm_inferred = tx_inferred st,
             cm_classifications = tx_classifications st, cm_obligations = tx_created st,
             cm_content_hash = hash, cm_spec_hash = spec_hash, cm_semantic_version = version\<rparr>))))))"

definition workspace_apply ::
    "encoders \<Rightarrow> workspace \<Rightarrow> transaction \<Rightarrow> nat \<Rightarrow> (workspace \<times> commit_result) res" where
  "workspace_apply enc ws tx now = apply_with_semantics_at enc ws tx core_semantics now"

definition fork_with_semantics_at :: "workspace \<Rightarrow> string \<Rightarrow> nat \<Rightarrow> nat \<Rightarrow> (workspace \<times> string) res" where
  "fork_with_semantics_at ws base semantics now =
     (if semantics \<noteq> legacy_semantics \<and> semantics \<noteq> core_semantics
      then err PersistenceFormat ''unsupported compiler semantics version {semantics_version}''
      else
        rbind (get_revision ws base) (\<lambda>b.
        let (a, rid) = alloc_revision (ws_allocator ws);
            rev = b\<lparr>rev_id := rid, rev_parents := [base], rev_applied_transaction := None,
                    rev_created_at := now\<rparr> in
          Inr (ws\<lparr>ws_allocator := a, ws_revisions := bmap_insert rid rev (ws_revisions ws), ws_head := rid,
                  ws_events := ws_events ws @
                    [(semantics, RevisionForked base rid (rev_content_hash b))]\<rparr>, rid)))"

end
