(* ===== verification/Workspace_Proofs.thy ===== *)
theory Workspace_Proofs
  imports Workspace
begin

text \<open>
  The workspace as a state machine: revisions are immutable and form a DAG rooted at \<open>r0\<close>,
  every new revision has a fresh identifier and a truthful summary and hash, and a frozen
  revision is complete.
\<close>

subsection \<open>Printing is injective on counters\<close>

lemma show_nat_inject [simp]: "show_nat m = show_nat n \<longleftrightarrow> m = n"
  by (metis digits_value_show option.inject)

lemma set_bmap_insert: "set (bmap_insert k v m) \<subseteq> insert (k, v) (set m)"
  by (induction m) (auto split: if_splits)

lemma length_bmap_insert: "length (bmap_insert k v m) \<le> Suc (length m)"
  by (induction m) auto

lemma bmap_insert_nonempty [simp]: "bmap_insert k v m \<noteq> []"
  by (cases "(k, v, m)" rule: bmap_insert.cases) auto

subsection \<open>Completeness\<close>

definition no_open_obligation :: "program \<Rightarrow> bool" where
  "no_open_obligation prog \<longleftrightarrow> (\<forall>(k, ob)\<in>set (obligations prog). ob_status ob \<noteq> ObOpen)"

definition program_complete :: "program \<Rightarrow> bool" where
  "program_complete prog \<longleftrightarrow>
     outputs prog \<noteq> [] \<and> (\<forall>(k, h)\<in>set (holes prog). hole_status h \<noteq> HoleOpen) \<and>
     no_open_obligation prog"

lemma open_hole_ids_Nil: "open_hole_ids prog = [] \<longleftrightarrow> (\<forall>(k, h)\<in>set (holes prog). hole_status h \<noteq> HoleOpen)"
  by (auto simp: open_hole_ids_def filter_empty_conv)

lemma open_obligation_ids_Nil: "open_obligation_ids prog = [] \<longleftrightarrow> no_open_obligation prog"
  by (auto simp: open_obligation_ids_def filter_empty_conv no_open_obligation_def)

lemma require_complete_iff: "require_complete prog = Inr () \<longleftrightarrow> program_complete prog"
  by (simp add: require_complete_def program_complete_def open_hole_ids_Nil open_obligation_ids_Nil)

lemma require_complete_cases: "require_complete prog = Inr u \<longleftrightarrow> program_complete prog"
  using require_complete_iff by (cases u) simp

lemma check_program_deployable:
  "deployable (check_program rid prog) \<longleftrightarrow> frozen prog \<and> program_complete prog"
  by (auto simp: check_program_def Let_def program_complete_def open_hole_ids_Nil open_obligation_ids_Nil)

lemma no_open_insert:
  "no_open_obligation prog \<Longrightarrow> ob_status ob \<noteq> ObOpen \<Longrightarrow>
   no_open_obligation (prog\<lparr>obligations := bmap_insert k ob (obligations prog)\<rparr>)"
  using set_bmap_insert [of k ob "obligations prog"] by (auto simp: no_open_obligation_def)

lemma stamp_revision_fields [simp]:
  "vals (stamp_revision rid p oid) = vals p" "operations (stamp_revision rid p oid) = operations p"
  "outputs (stamp_revision rid p oid) = outputs p" "holes (stamp_revision rid p oid) = holes p"
  "frozen (stamp_revision rid p oid) = frozen p" "constraints (stamp_revision rid p oid) = constraints p"
  "parameters (stamp_revision rid p oid) = parameters p" "constants (stamp_revision rid p oid) = constants p"
  "dimensions (stamp_revision rid p oid) = dimensions p"
  by (simp_all add: stamp_revision_def split: option.splits)

lemma stamp_no_open: "no_open_obligation p \<Longrightarrow> no_open_obligation (stamp_revision rid p oid)"
proof (cases "bmap_get (obligations p) oid")
  case (Some ob)
  assume p: "no_open_obligation p"
  with bmap_get_mem [OF Some] have "ob_status ob \<noteq> ObOpen" by (auto simp: no_open_obligation_def)
  with p Some show ?thesis by (auto simp: stamp_revision_def intro!: no_open_insert)
qed (simp add: stamp_revision_def)

lemma stamp_complete: "program_complete p \<Longrightarrow> program_complete (stamp_revision rid p oid)"
  by (simp add: program_complete_def stamp_no_open)

lemma stamp_all_frozen [simp]: "frozen (fold (\<lambda>oid p. stamp_revision rid p oid) oids p) = frozen p"
  by (induction oids arbitrary: p) simp_all

lemma stamp_all_complete:
  "program_complete p \<Longrightarrow> program_complete (fold (\<lambda>oid p. stamp_revision rid p oid) oids p)"
  by (induction oids arbitrary: p) (simp_all add: stamp_complete)

subsection \<open>Frame of one action\<close>

text \<open>No action but \<open>freeze_spec\<close> freezes, and none touches the revision counter.\<close>

definition same_frame :: "txn \<Rightarrow> txn \<Rightarrow> bool" where
  "same_frame tx tx' \<longleftrightarrow>
     frozen (tx_program tx') = frozen (tx_program tx) \<and>
     next_revision (tx_alloc tx') = next_revision (tx_alloc tx) \<and>
     next_transaction (tx_alloc tx') = next_transaction (tx_alloc tx)"

lemma same_frame_refl [simp]: "same_frame tx tx"
  by (simp add: same_frame_def)

lemma same_frame_trans: "same_frame a b \<Longrightarrow> same_frame b c \<Longrightarrow> same_frame a c"
  by (simp add: same_frame_def)

lemmas alloc_defs = alloc_revision_def alloc_transaction_def alloc_action_def alloc_operation_def
  alloc_value_def alloc_dimension_def alloc_hole_def alloc_obligation_def

lemma push_obligation_frame: "push_obligation m a d tx = Inr tx' \<Longrightarrow> same_frame tx tx'"
  by (auto simp: push_obligation_def add_obligation_def rbind_Inr_iff alloc_defs same_frame_def)

lemma push_shape_obligation_frame: "push_shape_obligation m a c tx r = Inr tx' \<Longrightarrow> same_frame tx tx'"
  by (auto simp: push_shape_obligation_def add_shape_obligation_def rbind_Inr_iff alloc_defs
      same_frame_def Let_def)

lemma record_debt_frame: "record_debt m s a op os rs tx = Inr tx' \<Longrightarrow> same_frame tx tx'"
proof (cases "s = legacy_semantics")
  case False
  assume "record_debt m s a op os rs tx = Inr tx'"
  with False have "rfold (push_shape_obligation m a (OperationContext op os)) tx
      (remdups_adj (sort_key relation_key rs)) = Inr tx'"
    by (simp add: record_debt_def)
  then show ?thesis
    by (rule rfold_invariant [where P = "same_frame tx"])
       (auto dest: push_shape_obligation_frame intro: same_frame_trans)
qed (simp add: record_debt_def push_obligation_frame)

lemma bind_result_frame [simp]: "same_frame tx (bind_result n b t tx') \<longleftrightarrow> same_frame tx tx'"
  by (simp add: bind_result_def same_frame_def)

lemma insert_operation_frame: "insert_operation op os at r a t n tx = (v, tx') \<Longrightarrow> same_frame tx tx'"
  by (auto simp: insert_operation_def alloc_defs same_frame_def Let_def)

lemma same_frame_program: "frozen p = frozen (tx_program tx') \<Longrightarrow>
    same_frame tx (tx'\<lparr>tx_program := p\<rparr>) \<longleftrightarrow> same_frame tx tx'"
  by (simp add: same_frame_def)

lemma define_dimension_frame: "define_dimension s a b n cs tx = Inr tx' \<Longrightarrow> same_frame tx tx'"
  by (auto simp: define_dimension_def rbind_Inr_iff alloc_defs same_frame_def Let_def
      split: if_split_asm)

lemmas frame_dests = push_obligation_frame [unfolded same_frame_def]
  push_shape_obligation_frame [unfolded same_frame_def] record_debt_frame [unfolded same_frame_def]
  insert_operation_frame [unfolded same_frame_def]

lemma create_parameter_frame: "create_parameter m a b n t tx = Inr tx' \<Longrightarrow> same_frame tx tx'"
  by (auto simp: create_parameter_def rbind_Inr_iff Let_def same_frame_def bind_result_def
      split: if_split_asm prod.split_asm dest!: frame_dests)

lemma create_constant_frame: "create_constant a b t j tx = Inr tx' \<Longrightarrow> same_frame tx tx'"
  by (auto simp: create_constant_def rbind_Inr_iff Let_def same_frame_def bind_result_def
      split: if_split_asm prod.split_asm ty.split_asm sum.split_asm dest!: frame_dests)

lemma create_hole_frame: "create_hole m a b t cs tx = Inr tx' \<Longrightarrow> same_frame tx tx'"
  by (auto simp: create_hole_def rbind_Inr_iff Let_def same_frame_def bind_result_def alloc_defs
      dest!: frame_dests)

lemma create_op_cases:
  assumes "create_op m s a b n refs at spec tx = Inr (c, tx')"
  obtains op operands types rg region_class region_rels i tx1 where
    "ensure_new_binding (tx_bindings tx) b = Inr ()"
    "parse_opcode n = Inr op" "op \<noteq> Parameter" "op \<noteq> Constant"
    "traverse (\<lambda>r. resolve_value r (tx_program tx) (tx_bindings tx)) refs = Inr operands"
    "traverse (value_type (tx_program tx)) operands = Inr types"
    "(case spec of None \<Rightarrow> Inr (None, Legal, [])
      | Some s \<Rightarrow> rmap (\<lambda>(r, c, rels). (Some r, c, rels))
          (build_region op s types (tx_program tx) (tx_bindings tx) (tx_facts tx))) =
       Inr (rg, region_class, region_rels)"
    "infer_checked (tx_facts tx) op types at rg = Inr i"
    "(if classification i = Conditional \<or> region_class = Conditional
      then record_debt m s a op operands (region_rels @ shape_relations i) tx else Inr tx) = Inr tx1"
    "c = (if classification i = Conditional \<or> region_class = Conditional then Conditional else Legal)"
    "tx' = bind_result b (BValue (fst (insert_operation op operands at rg a (inf_ty i) None tx1))) (inf_ty i)
        (snd (insert_operation op operands at rg a (inf_ty i) None tx1))"
proof (cases "parse_opcode n")
  case (Inr op)
  have op: "op \<noteq> Parameter" "op \<noteq> Constant"
    using assms Inr by (auto simp: create_op_def rbind_Inr_iff)
  obtain operands types reg i tx1 where
    "ensure_new_binding (tx_bindings tx) b = Inr ()"
    "traverse (\<lambda>r. resolve_value r (tx_program tx) (tx_bindings tx)) refs = Inr operands"
    "traverse (value_type (tx_program tx)) operands = Inr types"
    "(case spec of None \<Rightarrow> Inr (None, Legal, [])
      | Some s \<Rightarrow> rmap (\<lambda>(r, c, rels). (Some r, c, rels))
          (build_region op s types (tx_program tx) (tx_bindings tx) (tx_facts tx))) = Inr reg"
    "infer_checked (tx_facts tx) op types at (fst reg) = Inr i"
    "(if classification i = Conditional \<or> fst (snd reg) = Conditional
      then record_debt m s a op operands (snd (snd reg) @ shape_relations i) tx else Inr tx) = Inr tx1"
    "c = (if classification i = Conditional \<or> fst (snd reg) = Conditional then Conditional else Legal)"
    "tx' = bind_result b (BValue (fst (insert_operation op operands at (fst reg) a (inf_ty i) None tx1))) (inf_ty i)
        (snd (insert_operation op operands at (fst reg) a (inf_ty i) None tx1))"
    using assms Inr op
    by (auto simp: create_op_def rbind_Inr_iff Let_def case_prod_unfold
        simp del: split_paired_Ex split_paired_All if_split intro!: that)
  note parts = this
  show ?thesis
    by (rule that [OF parts(1) Inr op parts(2,3) _ parts(5-8)]) (simp add: parts(4))
qed (use assms in \<open>simp add: create_op_def rbind_Inr_iff\<close>)

lemma insert_operation_snd_frame: "same_frame tx (snd (insert_operation op os at r a t n tx))"
  by (rule insert_operation_frame [OF surjective_pairing])

lemma create_op_frame: "create_op m s a b n refs at spec tx = Inr (c, tx') \<Longrightarrow> same_frame tx tx'"
proof (elim create_op_cases)
  fix op operands types rg region_class region_rels i tx1
  assume "(if classification i = Conditional \<or> region_class = Conditional
      then record_debt m s a op operands (region_rels @ shape_relations i) tx else Inr tx) = Inr tx1"
  then have "same_frame tx tx1" by (auto split: if_split_asm dest: record_debt_frame)
  moreover assume "tx' = bind_result b (BValue (fst (insert_operation op operands at rg a (inf_ty i) None tx1))) (inf_ty i)
        (snd (insert_operation op operands at rg a (inf_ty i) None tx1))"
  ultimately show "same_frame tx tx'"
    using insert_operation_snd_frame [of tx1] by (auto intro: same_frame_trans)
qed

lemma fill_hole_cases:
  assumes "fill_hole m s a h v tx = Inr (c, tx')"
  obtains hid vid vty hl rel tx1 where
    "resolve_hole h (tx_program tx) (tx_bindings tx) = Inr hid"
    "resolve_value v (tx_program tx) (tx_bindings tx) = Inr vid"
    "value_type (tx_program tx) vid = Inr vty" "bmap_get (holes (tx_program tx)) hid = Some hl"
    "fill_verdict (tx_facts tx) hl vty = Inr (c, rel)" "filled_with hl = None"
    "tx1 = tx\<lparr>tx_program := (tx_program tx)
        \<lparr>holes := bmap_insert hid (hl\<lparr>filled_with := Some vid, hole_status := HoleFilled\<rparr>) (holes (tx_program tx)),
         obligations := bmap_map (\<lambda>_. close_hole_obligation hid) (obligations (tx_program tx))\<rparr>\<rparr>"
    "(c \<noteq> Conditional \<and> tx' = tx1) \<or>
     (c = Conditional \<and> s = legacy_semantics \<and> push_obligation m a
        \<lparr>od_kind = ShapeCompatible, od_status = ObOpen,
         od_proposition = json_object [(''hole'', JString hid)], od_methods = [''add_constraint'']\<rparr> tx1 = Inr tx') \<or>
     (c = Conditional \<and> s \<noteq> legacy_semantics \<and>
        (\<exists>r. rel = Some r \<and> push_shape_obligation m a (HoleContext hid vid) tx1 r = Inr tx'))"
  using assms
  by (auto simp: fill_hole_def rbind_Inr_iff Let_def ok_or_Inr_iff
      split: if_split_asm prod.split_asm intro!: that)

lemma fill_hole_frame: "fill_hole m s a h v tx = Inr (c, tx') \<Longrightarrow> same_frame tx tx'"
  by (elim fill_hole_cases) (auto simp: same_frame_def dest!: frame_dests)

lemma set_output_frame: "set_output n v tx = Inr tx' \<Longrightarrow> same_frame tx tx'"
  by (auto simp: set_output_def rbind_Inr_iff same_frame_def Let_def)

lemma discharge_frame: "discharge_shape_obligations p f rc = Inr p' \<Longrightarrow> \<exists>obs. p' = p\<lparr>obligations := obs\<rparr>"
  by (auto simp: discharge_shape_obligations_def rmap_Inr_iff)

lemma add_constraint_frame: "add_constraint c tx = Inr tx' \<Longrightarrow> same_frame tx tx'"
  by (auto simp: add_constraint_def rbind_Inr_iff same_frame_def Let_def
      split: option.split_asm if_split_asm dest!: discharge_frame)

lemma freeze_spec_cases:
  assumes "freeze_spec m a tx = Inr tx'"
  obtains prog d where
    "case tx_facts tx of None \<Rightarrow> prog = tx_program tx
     | Some f \<Rightarrow> discharge_shape_obligations (tx_program tx) f True = Inr prog"
    "program_complete prog" "od_status d = ObProved"
    "push_obligation m a d (tx\<lparr>tx_program := prog\<lparr>frozen := True\<rparr>\<rparr>) = Inr tx'"
  using assms
  by (cases "tx_facts tx")
     (auto simp: freeze_spec_def rbind_Inr_iff require_complete_cases intro!: that)

lemma push_obligation_complete:
  assumes "push_obligation m a d tx = Inr tx'" "od_status d \<noteq> ObOpen" "program_complete (tx_program tx)"
  shows "program_complete (tx_program tx')"
  using assms
  by (auto simp: push_obligation_def add_obligation_def rbind_Inr_iff program_complete_def Let_def
      alloc_defs intro!: no_open_insert)

lemma freeze_spec_frame:
  assumes "freeze_spec m a tx = Inr tx'"
  shows "program_complete (tx_program tx')" "next_revision (tx_alloc tx') = next_revision (tx_alloc tx)"
    "next_transaction (tx_alloc tx') = next_transaction (tx_alloc tx)"
proof -
  from assms obtain prog d where p: "program_complete prog" "od_status d = ObProved"
      "push_obligation m a d (tx\<lparr>tx_program := prog\<lparr>frozen := True\<rparr>\<rparr>) = Inr tx'"
    by (rule freeze_spec_cases)
  have "program_complete (prog\<lparr>frozen := True\<rparr>)"
    using p(1) by (simp add: program_complete_def no_open_obligation_def)
  with p show "program_complete (tx_program tx')"
    by (intro push_obligation_complete [OF p(3)]) simp_all
  from push_obligation_frame [OF p(3)]
  show "next_revision (tx_alloc tx') = next_revision (tx_alloc tx)"
    "next_transaction (tx_alloc tx') = next_transaction (tx_alloc tx)"
    by (simp_all add: same_frame_def)
qed

definition frozen_complete :: "txn \<Rightarrow> bool" where
  "frozen_complete tx \<longleftrightarrow> (frozen (tx_program tx) \<longrightarrow> program_complete (tx_program tx))"

lemma apply_action_cases:
  assumes "apply_action m s tx act = Inr tx'"
  obtains (frozen) "frozen (tx_program tx)" "tx_program tx' = tx_program tx"
      "tx_alloc tx' = fst (alloc_action (tx_alloc tx))"
  | (freeze) tx1 where "freeze_spec m (snd (alloc_action (tx_alloc tx)))
        (tx\<lparr>tx_alloc := fst (alloc_action (tx_alloc tx))\<rparr>) = Inr tx1"
      "tx_program tx' = tx_program tx1" "tx_alloc tx' = tx_alloc tx1"
  | (other) tx1 where "\<not> frozen (tx_program tx)"
      "same_frame (tx\<lparr>tx_alloc := fst (alloc_action (tx_alloc tx))\<rparr>) tx1"
      "tx_program tx' = tx_program tx1" "tx_alloc tx' = tx_alloc tx1"
proof (cases "frozen (tx_program tx)")
  case True
  with assms have "act = ForkRevision" by (auto simp: apply_action_def split: if_split_asm)
  with assms True frozen show ?thesis by (auto simp: apply_action_def split: prod.split_asm)
next
  case False
  let ?tx = "tx\<lparr>tx_alloc := fst (alloc_action (tx_alloc tx))\<rparr>"
  let ?a = "snd (alloc_action (tx_alloc tx))"
  have step: "thesis" if "same_frame ?tx tx1" "tx' = tx1\<lparr>tx_classifications := cs\<rparr>" for tx1 cs
    using that False by (intro other [of tx1]) auto
  note simps = apply_action_def legal_step_def rbind_Inr_iff rmap_Inr_iff
  show ?thesis
  proof (cases act)
    case (DefineDimension bd n cs)
    with assms False obtain tx1 where "define_dimension s ?a bd n cs ?tx = Inr tx1"
        "tx' = tx1\<lparr>tx_classifications := tx_classifications tx1 @ [Legal]\<rparr>"
      by (auto simp: simps split: prod.split_asm)
    then show ?thesis by (rule step [OF define_dimension_frame])
  next
    case (CreateParameter bd n t)
    with assms False obtain tx1 where "create_parameter m ?a bd n t ?tx = Inr tx1"
        "tx' = tx1\<lparr>tx_classifications := tx_classifications tx1 @ [Legal]\<rparr>"
      by (auto simp: simps split: prod.split_asm)
    then show ?thesis by (rule step [OF create_parameter_frame])
  next
    case (CreateConstant bd t j)
    with assms False obtain tx1 where "create_constant ?a bd t j ?tx = Inr tx1"
        "tx' = tx1\<lparr>tx_classifications := tx_classifications tx1 @ [Legal]\<rparr>"
      by (auto simp: simps split: prod.split_asm)
    then show ?thesis by (rule step [OF create_constant_frame])
  next
    case (CreateHole bd t cs)
    with assms False obtain tx1 where "create_hole m ?a bd t cs ?tx = Inr tx1"
        "tx' = tx1\<lparr>tx_classifications := tx_classifications tx1 @ [Conditional]\<rparr>"
      by (auto simp: simps split: prod.split_asm)
    then show ?thesis by (rule step [OF create_hole_frame])
  next
    case (CreateOp bd n refs at spec)
    with assms False obtain c tx1 where "create_op m s ?a bd n refs at spec ?tx = Inr (c, tx1)"
        "tx' = tx1\<lparr>tx_classifications := tx_classifications tx1 @ [c]\<rparr>"
      by (auto simp: simps split: prod.split_asm)
    then show ?thesis by (rule step [OF create_op_frame])
  next
    case (FillHole h v)
    with assms False obtain c tx1 where "fill_hole m s ?a h v ?tx = Inr (c, tx1)"
        "tx' = tx1\<lparr>tx_classifications := tx_classifications tx1 @ [c]\<rparr>"
      by (auto simp: simps split: prod.split_asm)
    then show ?thesis by (rule step [OF fill_hole_frame])
  next
    case (SetOutput n v)
    with assms False obtain tx1 where "set_output n v ?tx = Inr tx1"
        "tx' = tx1\<lparr>tx_classifications := tx_classifications tx1 @ [Legal]\<rparr>"
      by (auto simp: simps split: prod.split_asm)
    then show ?thesis by (rule step [OF set_output_frame])
  next
    case (AddConstraint c)
    with assms False obtain tx1 where "add_constraint c ?tx = Inr tx1"
        "tx' = tx1\<lparr>tx_classifications := tx_classifications tx1 @ [Legal]\<rparr>"
      by (auto simp: simps split: prod.split_asm)
    then show ?thesis by (rule step [OF add_constraint_frame])
  next
    case FreezeSpec
    with assms False obtain tx1 where "freeze_spec m ?a ?tx = Inr tx1"
        "tx' = tx1\<lparr>tx_classifications := tx_classifications tx1 @ [Legal]\<rparr>"
      by (auto simp: simps split: prod.split_asm)
    then show ?thesis by (intro freeze [of tx1]) simp_all
  next
    case ForkRevision
    with assms False show ?thesis
      by (intro step [of ?tx "tx_classifications tx @ [Legal]"]) (auto simp: simps split: prod.split_asm)
  qed
qed

subsection \<open>A transaction keeps its counters and its freeze promise\<close>

definition txn_step_ok :: "txn \<Rightarrow> txn \<Rightarrow> bool" where
  "txn_step_ok tx tx' \<longleftrightarrow>
     frozen_complete tx' \<and>
     next_revision (tx_alloc tx') = next_revision (tx_alloc tx) \<and>
     next_transaction (tx_alloc tx') = next_transaction (tx_alloc tx)"

lemma apply_action_step:
  assumes "apply_action m s tx act = Inr tx'" "frozen_complete tx"
  shows "txn_step_ok tx tx'"
  using assms(1)
proof (cases rule: apply_action_cases)
  case frozen
  with assms(2) show ?thesis by (simp add: txn_step_ok_def frozen_complete_def alloc_action_def Let_def)
next
  case (freeze tx1)
  from freeze_spec_frame [OF freeze(1)] freeze(2,3) show ?thesis
    by (simp add: txn_step_ok_def frozen_complete_def alloc_action_def Let_def)
next
  case (other tx1)
  then show ?thesis
    by (simp add: txn_step_ok_def frozen_complete_def same_frame_def alloc_action_def Let_def)
qed

lemma apply_actions_step:
  assumes "rfold (apply_action m s) tx acts = Inr tx'" "frozen_complete tx"
  shows "txn_step_ok tx tx'"
  by (rule rfold_invariant [OF assms(1), where P = "txn_step_ok tx"])
     (use assms(2) apply_action_step in \<open>auto simp: txn_step_ok_def\<close>)

text \<open>A transaction on a frozen program changes nothing but the action counter.\<close>

lemma apply_actions_frozen:
  assumes "rfold (apply_action m s) tx acts = Inr tx'" "frozen (tx_program tx)"
  shows "tx_program tx' = tx_program tx \<and> set acts \<subseteq> {ForkRevision}"
  using assms
proof (induction acts arbitrary: tx)
  case (Cons act acts)
  from Cons.prems obtain tx1 where a: "apply_action m s tx act = Inr tx1"
      "rfold (apply_action m s) tx1 acts = Inr tx'"
    by (auto simp: rbind_Inr_iff)
  from a(1) Cons.prems(2) have "act = ForkRevision" "tx_program tx1 = tx_program tx"
    by (auto simp: apply_action_def rbind_Inr_iff Let_def split: if_split_asm prod.split_asm)
  with Cons.IH [OF a(2)] Cons.prems(2) show ?case by simp
qed simp

subsection \<open>Revisions\<close>

text \<open>What a stored revision says of itself.\<close>

definition revision_ok :: "encoders \<Rightarrow> revision \<Rightarrow> bool" where
  "revision_ok enc r \<longleftrightarrow>
     (frozen (rev_program r) \<longrightarrow> program_complete (rev_program r)) \<and>
     rev_status r = summarize_status (rev_program r) \<and>
     rev_content_hash r = sha256_hex enc (encode_program enc (rev_program r)) \<and>
     (if frozen (rev_program r)
      then \<exists>c. canonical_build (rev_program r) = Inr c \<and> rev_semantic_version r = Some spec_canonical_version \<and>
               rev_spec_hash r = Some (sha256_hex enc (spec_hash_domain @ encode_canonical enc c))
      else rev_spec_hash r = None \<and> rev_semantic_version r = None)"

text \<open>Revision \<open>r<n>\<close> has a smaller parent; the counter is ahead of every number in use.\<close>

definition revision_id :: "nat \<Rightarrow> string" where
  "revision_id n = ''r'' @ show_nat n"

lemma revision_id_inject [simp]: "revision_id m = revision_id n \<longleftrightarrow> m = n"
  by (simp add: revision_id_def)

definition workspace_inv :: "encoders \<Rightarrow> workspace \<Rightarrow> bool" where
  "workspace_inv enc ws \<longleftrightarrow>
     bmap_ok (ws_revisions ws) \<and> bmap_contains (ws_revisions ws) (ws_head ws) \<and>
     (\<forall>k r. bmap_get (ws_revisions ws) k = Some r \<longrightarrow>
        rev_id r = k \<and> revision_ok enc r \<and>
        (\<exists>n \<le> next_revision (ws_allocator ws). k = revision_id n \<and>
           (\<forall>p\<in>set (rev_parents r). \<exists>m<n. p = revision_id m \<and> bmap_contains (ws_revisions ws) p)))"

lemma content_hash_Inr: "content_hash_with_limit enc p m = Inr h \<Longrightarrow> h = sha256_hex enc (encode_program enc p)"
  by (auto simp: content_hash_with_limit_def canonical_bytes_with_limit_def rmap_Inr_iff rbind_Inr_iff Let_def)

lemma semantic_metadata_Inr:
  assumes "semantic_metadata enc p m = Inr (h, v)"
  shows "if frozen p
      then \<exists>c. canonical_build p = Inr c \<and> v = Some spec_canonical_version \<and>
               h = Some (sha256_hex enc (spec_hash_domain @ encode_canonical enc c))
      else h = None \<and> v = None"
  using assms
  by (auto simp: semantic_metadata_def canonicalize_spec_with_limit_def rmap_Inr_iff rbind_Inr_iff Let_def
      split: if_split_asm)

lemma workspace_inv_init:
  assumes "workspace_with_limits_at enc wid limits now = Inr ws"
  shows "workspace_inv enc ws"
proof -
  have r0: "''r0'' = revision_id 0" by code_simp
  from assms obtain root where root: "ws_revisions ws = [(revision_id 0, root)]" "ws_head ws = revision_id 0"
      "rev_id root = revision_id 0" "rev_parents root = []" "revision_ok enc root"
    by (auto simp: workspace_with_limits_at_def rbind_Inr_iff revision_ok_def r0 default_program_def
        dest!: content_hash_Inr)
  have single: "bmap_get [(revision_id 0, root)] k = (if k = revision_id 0 then Some root else None)" for k
    by (simp add: bmap_get_def)
  show ?thesis
    unfolding workspace_inv_def root(1,2) single bmap_contains_def
    using root(3-5) by (auto simp: bmap_ok_def bmap_keys_def intro!: exI [of _ 0] split: if_split_asm)
qed

lemma stored_ids:
  "workspace_inv enc ws \<Longrightarrow> bmap_contains (ws_revisions ws) k \<Longrightarrow>
   \<exists>n \<le> next_revision (ws_allocator ws). k = revision_id n"
  unfolding workspace_inv_def by (blast elim: bmap_containsE)

lemma fresh_revision:
  "workspace_inv enc ws \<Longrightarrow> \<not> bmap_contains (ws_revisions ws) (revision_id (Suc (next_revision (ws_allocator ws))))"
  by (auto dest: stored_ids)

lemma workspace_inv_extend:
  assumes inv: "workspace_inv enc ws" and base: "bmap_contains (ws_revisions ws) b"
    and r: "rev_id r = revision_id (Suc (next_revision (ws_allocator ws)))" "revision_ok enc r"
      "rev_parents r = [b]"
    and a: "next_revision a = Suc (next_revision (ws_allocator ws))"
  shows "workspace_inv enc (ws\<lparr>ws_allocator := a, ws_revisions := bmap_insert (rev_id r) r (ws_revisions ws),
           ws_head := rev_id r, ws_events := evs\<rparr>)"
proof -
  note old = stored_ids [OF inv]
  have "\<exists>m<Suc (next_revision (ws_allocator ws)). b = revision_id m" using old [OF base] by auto
  then have "\<exists>n \<le> Suc (next_revision (ws_allocator ws)). rev_id r = revision_id n \<and>
      (\<forall>p\<in>set (rev_parents r). \<exists>m<n. p = revision_id m \<and>
         bmap_contains (bmap_insert (rev_id r) r (ws_revisions ws)) p)"
    using base r by auto
  moreover have "\<exists>n \<le> Suc (next_revision (ws_allocator ws)). k = revision_id n \<and>
      (\<forall>p\<in>set (rev_parents s). \<exists>m<n. p = revision_id m \<and>
         bmap_contains (bmap_insert (rev_id r) r (ws_revisions ws)) p)"
    if "bmap_get (ws_revisions ws) k = Some s" for k s
    using inv that unfolding workspace_inv_def by (fastforce intro: le_SucI)
  ultimately show "workspace_inv enc (ws\<lparr>ws_allocator := a,
      ws_revisions := bmap_insert (rev_id r) r (ws_revisions ws), ws_head := rev_id r, ws_events := evs\<rparr>)"
    using inv r(2) a by (auto simp: workspace_inv_def)
qed

lemma get_revision_Inr [simp]: "get_revision ws k = Inr r \<longleftrightarrow> bmap_get (ws_revisions ws) k = Some r"
  by (simp add: get_revision_def ok_or_Inr_iff)

lemma admit_transaction_Inr:
  assumes "admit_transaction enc ws tx s = Inr base"
  shows "s = legacy_semantics \<or> s = core_semantics" "bmap_get (ws_revisions ws) (base_revision tx) = Some base"
    "base_revision tx = ws_head ws \<or> allow_branch tx" "tx_actions tx \<noteq> []"
    "preflight_transaction enc (rev_program base) tx (ws_limits ws) s = Inr ()"
  using assms by (auto simp: admit_transaction_def rbind_Inr_iff split: if_split_asm)

lemma start_txn_Inr:
  "start_txn s p a = Inr st \<Longrightarrow> tx_program st = p \<and> tx_alloc st = a \<and> tx_created st = [] \<and> tx_bindings st = []"
  by (auto simp: start_txn_def rbind_Inr_iff)

text \<open>Everything an accepted transaction does to the workspace.\<close>

lemma apply_cases:
  assumes "apply_with_semantics_at enc ws tx s now = Inr (ws', cm)"
  obtains base st0 st prog where
    "admit_transaction enc ws tx s = Inr base"
    "start_txn s (rev_program base) (ws_allocator ws) = Inr st0"
    "rfold (apply_action (obligations_per_program (ws_limits ws)) s) st0 (tx_actions tx) = Inr st"
    "prog = fold (\<lambda>oid p. stamp_revision (cm_revision cm) p oid) (tx_created st) (tx_program st)"
    "cm_revision cm = revision_id (Suc (next_revision (tx_alloc st)))"
    "content_hash_with_limit enc prog (canonical_output_bytes (ws_limits ws)) = Inr (cm_content_hash cm)"
    "semantic_metadata enc prog (canonical_output_bytes (ws_limits ws)) = Inr (cm_spec_hash cm, cm_semantic_version cm)"
    "ws' = ws\<lparr>ws_allocator := (tx_alloc st)\<lparr>next_transaction := Suc (next_transaction (tx_alloc st)),
                                             next_revision := Suc (next_revision (tx_alloc st))\<rparr>,
        ws_revisions := bmap_insert (cm_revision cm) \<lparr>rev_id = cm_revision cm, rev_parents = [base_revision tx],
             rev_content_hash = cm_content_hash cm, rev_spec_hash = cm_spec_hash cm,
             rev_semantic_version = cm_semantic_version cm, rev_program = prog,
             rev_applied_transaction = Some (cm_transaction cm), rev_created_at = now,
             rev_status = summarize_status prog\<rparr> (ws_revisions ws),
        ws_head := cm_revision cm,
        ws_events := ws_events ws @ [(s, TransactionApplied (cm_transaction cm) (cm_revision cm) (cm_content_hash cm) tx)]\<rparr>"
  using assms
  by (auto simp: apply_with_semantics_at_def rbind_Inr_iff Let_def alloc_revision_def alloc_transaction_def
      revision_id_def split: prod.split_asm intro!: that)

lemma apply_inv:
  assumes ap: "apply_with_semantics_at enc ws tx s now = Inr (ws', cm)" and inv: "workspace_inv enc ws"
  shows "workspace_inv enc ws'" "\<not> bmap_contains (ws_revisions ws) (cm_revision cm)"
    "ws_head ws' = cm_revision cm"
    "\<And>k. k \<noteq> cm_revision cm \<Longrightarrow> bmap_get (ws_revisions ws') k = bmap_get (ws_revisions ws) k"
proof -
  from ap obtain base st0 st prog where c:
    "admit_transaction enc ws tx s = Inr base"
    "start_txn s (rev_program base) (ws_allocator ws) = Inr st0"
    "rfold (apply_action (obligations_per_program (ws_limits ws)) s) st0 (tx_actions tx) = Inr st"
    "prog = fold (\<lambda>oid p. stamp_revision (cm_revision cm) p oid) (tx_created st) (tx_program st)"
    "cm_revision cm = revision_id (Suc (next_revision (tx_alloc st)))"
    "content_hash_with_limit enc prog (canonical_output_bytes (ws_limits ws)) = Inr (cm_content_hash cm)"
    "semantic_metadata enc prog (canonical_output_bytes (ws_limits ws)) = Inr (cm_spec_hash cm, cm_semantic_version cm)"
    "ws' = ws\<lparr>ws_allocator := (tx_alloc st)\<lparr>next_transaction := Suc (next_transaction (tx_alloc st)),
                                             next_revision := Suc (next_revision (tx_alloc st))\<rparr>,
        ws_revisions := bmap_insert (cm_revision cm) \<lparr>rev_id = cm_revision cm, rev_parents = [base_revision tx],
             rev_content_hash = cm_content_hash cm, rev_spec_hash = cm_spec_hash cm,
             rev_semantic_version = cm_semantic_version cm, rev_program = prog,
             rev_applied_transaction = Some (cm_transaction cm), rev_created_at = now,
             rev_status = summarize_status prog\<rparr> (ws_revisions ws),
        ws_head := cm_revision cm,
        ws_events := ws_events ws @ [(s, TransactionApplied (cm_transaction cm) (cm_revision cm) (cm_content_hash cm) tx)]\<rparr>"
    by (rule apply_cases)
  note base = admit_transaction_Inr(2) [OF c(1)]
  have b: "revision_ok enc base" using inv base by (auto simp: workspace_inv_def)
  have "frozen_complete st0" using b start_txn_Inr [OF c(2)] by (simp add: frozen_complete_def revision_ok_def)
  from apply_actions_step [OF c(3) this] start_txn_Inr [OF c(2)]
  have st: "frozen_complete st" "next_revision (tx_alloc st) = next_revision (ws_allocator ws)"
    by (simp_all add: txn_step_ok_def)
  let ?r = "\<lparr>rev_id = cm_revision cm, rev_parents = [base_revision tx],
             rev_content_hash = cm_content_hash cm, rev_spec_hash = cm_spec_hash cm,
             rev_semantic_version = cm_semantic_version cm, rev_program = prog,
             rev_applied_transaction = Some (cm_transaction cm), rev_created_at = now,
             rev_status = summarize_status prog\<rparr>"
  have "frozen prog \<longrightarrow> program_complete prog"
    using st(1) unfolding c(4) by (simp add: frozen_complete_def stamp_all_complete)
  then have "revision_ok enc ?r"
    using content_hash_Inr [OF c(6)] semantic_metadata_Inr [OF c(7)] by (simp add: revision_ok_def)
  from workspace_inv_extend [OF inv bmap_containsI [OF base], of ?r] this c(5) st(2)
  show "workspace_inv enc ws'" unfolding c(8) by simp
  show "\<not> bmap_contains (ws_revisions ws) (cm_revision cm)"
    using fresh_revision [OF inv] c(5) st(2) by simp
  show "ws_head ws' = cm_revision cm"
    "\<And>k. k \<noteq> cm_revision cm \<Longrightarrow> bmap_get (ws_revisions ws') k = bmap_get (ws_revisions ws) k"
    unfolding c(8) by simp_all
qed

lemma fork_inv:
  assumes f: "fork_with_semantics_at ws b s now = Inr (ws', rid)" and inv: "workspace_inv enc ws"
  shows "workspace_inv enc ws'" "\<not> bmap_contains (ws_revisions ws) rid"
    "\<And>k. k \<noteq> rid \<Longrightarrow> bmap_get (ws_revisions ws') k = bmap_get (ws_revisions ws) k"
    "\<exists>r r'. bmap_get (ws_revisions ws) b = Some r \<and> bmap_get (ws_revisions ws') rid = Some r' \<and>
        rev_program r' = rev_program r \<and> rev_content_hash r' = rev_content_hash r \<and>
        rev_spec_hash r' = rev_spec_hash r"
proof -
  from f obtain r where r: "bmap_get (ws_revisions ws) b = Some r"
      "rid = revision_id (Suc (next_revision (ws_allocator ws)))"
    and ws': "ws' = ws\<lparr>ws_allocator := (ws_allocator ws)\<lparr>next_revision := Suc (next_revision (ws_allocator ws))\<rparr>,
        ws_revisions := bmap_insert rid (r\<lparr>rev_id := rid, rev_parents := [b], rev_applied_transaction := None,
            rev_created_at := now\<rparr>) (ws_revisions ws), ws_head := rid,
        ws_events := ws_events ws @ [(s, RevisionForked b rid (rev_content_hash r))]\<rparr>"
    by (auto simp: fork_with_semantics_at_def rbind_Inr_iff Let_def alloc_revision_def revision_id_def
        split: if_split_asm)
  let ?r = "r\<lparr>rev_id := rid, rev_parents := [b], rev_applied_transaction := None, rev_created_at := now\<rparr>"
  have "revision_ok enc r" using inv r(1) unfolding workspace_inv_def by blast
  then have "revision_ok enc ?r" by (simp add: revision_ok_def)
  from workspace_inv_extend [OF inv bmap_containsI [OF r(1)], of ?r] this r(2)
  show "workspace_inv enc ws'" unfolding ws' by simp
  show "\<not> bmap_contains (ws_revisions ws) rid" using fresh_revision [OF inv] r(2) by simp
  show "\<And>k. k \<noteq> rid \<Longrightarrow> bmap_get (ws_revisions ws') k = bmap_get (ws_revisions ws) k" unfolding ws' by simp
  show "\<exists>r r'. bmap_get (ws_revisions ws) b = Some r \<and> bmap_get (ws_revisions ws') rid = Some r' \<and>
        rev_program r' = rev_program r \<and> rev_content_hash r' = rev_content_hash r \<and>
        rev_spec_hash r' = rev_spec_hash r"
    using r(1) unfolding ws' by simp
qed

subsection \<open>Reachable workspaces\<close>

inductive reachable :: "encoders \<Rightarrow> workspace \<Rightarrow> bool" for enc where
  create: "workspace_with_limits_at enc wid limits now = Inr ws \<Longrightarrow> reachable enc ws"
| transact: "reachable enc ws \<Longrightarrow> apply_with_semantics_at enc ws tx s now = Inr (ws', cm) \<Longrightarrow> reachable enc ws'"
| fork: "reachable enc ws \<Longrightarrow> fork_with_semantics_at ws b s now = Inr (ws', rid) \<Longrightarrow> reachable enc ws'"
| set_limits: "reachable enc ws \<Longrightarrow> reachable enc (ws\<lparr>ws_limits := limits\<rparr>)"

lemma reachable_inv: "reachable enc ws \<Longrightarrow> workspace_inv enc ws"
proof (induction rule: reachable.induct)
  case (create wid limits now ws)
  then show ?case by (rule workspace_inv_init)
next
  case (transact ws tx s now ws' cm)
  show ?case by (rule apply_inv(1) [OF transact.hyps(2) transact.IH])
next
  case (fork ws b s now ws' rid)
  show ?case by (rule fork_inv(1) [OF fork.hyps(2) fork.IH])
qed (simp add: workspace_inv_def)

end
