(* ===== verification/Runtime.thy ===== *)
theory Runtime
  imports Inference_Proofs "HOL-Library.Signed_Division"
begin

text \<open>
  The values of the reference interpreter and its checked entry points
  (\<open>agentir-eval/src/lib.rs\<close>): reading JSON inputs, binding symbolic dimensions, the preflight
  over concrete extents, and the primitive operations on scalars and dense tensors. The
  graph evaluator that calls them is in \<open>Interpreter\<close>.
\<close>

subsection \<open>Values\<close>

datatype scalar_value = VBool bool | VI32 i32 | VF32 fp

record dense_tensor =
  element_ty :: scalar_type
  tensor_shape :: "nat list"
  elements :: "scalar_value list"

datatype runtime_value = RScalar scalar_value | RTensor dense_tensor

abbreviation mismatch :: "string \<Rightarrow> 'a res" where
  "mismatch m \<equiv> err EvaluationInputMismatch m"

subsection \<open>Reading inputs\<close>

definition parse_scalar :: "scalar_type \<Rightarrow> json \<Rightarrow> scalar_value res" where
  "parse_scalar t value =
     (case t of
        Bool \<Rightarrow> ok_or (Fail (agent_error_new EvaluationInputMismatch ''expected a boolean input''))
                  (map_option VBool (as_bool value))
      | F32 \<Rightarrow> ok_or (Fail (agent_error_new EvaluationInputMismatch ''expected a numeric f32 input''))
                 (map_option (\<lambda>x. VF32 (fp_convert binary32 x)) (as_f64 value))
      | _ \<Rightarrow> ok_or (Fail (agent_error_new EvaluationInputMismatch ''expected an integer input in i32 range''))
               (map_option VI32 (Option.bind (as_i64 value) i32_try_from)))"

definition starts_with_array :: "json list \<Rightarrow> bool" where
  "starts_with_array xs = (case xs of [] \<Rightarrow> False | x # _ \<Rightarrow> is_array x)"

lemma as_array_size: "as_array j = Some xs \<Longrightarrow> x \<in> set xs \<Longrightarrow> size x < size j"
  by (cases j) (auto dest: size_list_estimation' [where f = size, OF _ order_refl])

text \<open>The extents found so far and the scalars collected so far are the state of the walk.\<close>

function flatten_json ::
    "nat \<Rightarrow> nat \<Rightarrow> json \<Rightarrow> nat \<Rightarrow> nat list \<times> json list \<Rightarrow> (nat list \<times> json list) res" where
  "flatten_json max_elements max_depth value depth st =
     rbind (ensure JsonNestingDepth max_depth (u64_saturating_add depth 1) ''evaluation tensor JSON'') (\<lambda>_.
     case as_array value of
       None \<Rightarrow> mismatch ''tensor input must use nested JSON arrays''
     | Some arr \<Rightarrow>
         rbind (if length (fst st) = depth then Inr (fst st @ [length arr])
                else rbind (slice_index (fst st) depth) (\<lambda>n.
                  if n \<noteq> length arr then mismatch ''tensor input is not rectangular''
                  else Inr (fst st))) (\<lambda>extents.
         if starts_with_array arr
         then rfold (\<lambda>st child. flatten_json max_elements max_depth child (depth + 1) st)
                (extents, snd st) arr
         else if list_ex is_array arr then mismatch ''tensor input mixes scalar and array elements''
         else rbind (ensure EvaluationTensorElements max_elements
                       (u64_saturating_add (length (snd st)) (length arr)) ''evaluation input tensor'')
                (\<lambda>_. Inr (extents, snd st @ arr))))"
  by pat_completeness auto
termination
  by (relation "measure (\<lambda>(me, md, value, depth, st). size value)") (auto dest: as_array_size)

declare flatten_json.simps [simp del]

text \<open>Subtraction and remainder of \<open>i64\<close>: an overflow panics.\<close>

definition i64_sub :: "int \<Rightarrow> int \<Rightarrow> int res" where
  "i64_sub a b = (if in_i64 (a - b) then Inr (a - b) else Inl Panic)"

definition i64_rem :: "int \<Rightarrow> int \<Rightarrow> int res" where
  "i64_rem a b = (if b = 0 \<or> (a = i64_min \<and> b = - 1) then Inl Panic else Inr (a smod b))"

definition i64_div :: "int \<Rightarrow> int \<Rightarrow> int res" where
  "i64_div a b = (if b = 0 \<or> (a = i64_min \<and> b = - 1) then Inl Panic else Inr (a sdiv b))"

type_synonym extents = "(string, nat) bmap"

definition bind_symbol :: "string \<Rightarrow> nat \<Rightarrow> string \<Rightarrow> extents \<Rightarrow> extents res" where
  "bind_symbol symbol actual msg dims =
     (case bmap_get dims symbol of
        Some expected \<Rightarrow> if expected \<noteq> actual then mismatch msg else Inr dims
      | None \<Rightarrow> Inr (bmap_insert symbol actual dims))"

definition bind_dimension :: "dim_expr \<Rightarrow> nat \<Rightarrow> extents \<Rightarrow> extents res" where
  "bind_dimension expression actual dims =
     (case expression of
        Static expected \<Rightarrow>
          if expected = actual then Inr dims
          else mismatch ''static dimension mismatch: expected {expected}, got {actual}''
      | Symbol symbol \<Rightarrow>
          bind_symbol symbol actual ''symbolic dimension `{symbol}` was {expected}, got {actual}'' dims
      | Affine c symbol k \<Rightarrow>
          if i64_max < int actual then mismatch ''dimension exceeds i64''
          else if c = 0 then
            (if int actual = k then Inr dims else mismatch ''affine constant dimension mismatch'')
          else
            rbind (i64_sub (int actual) k) (\<lambda>numerator.
            rbind (i64_rem numerator c) (\<lambda>remainder.
              if remainder \<noteq> 0
              then mismatch ''cannot solve affine dimension `{expression}` for extent {actual}''
              else rbind (i64_div numerator c) (\<lambda>q.
                if q < 0
                then mismatch ''cannot solve affine dimension `{expression}` for extent {actual}''
                else bind_symbol symbol (nat q)
                       ''affine dimension `{symbol}` was {expected}, inferred {symbol_value}'' dims))))"

definition bind_shape :: "(dim_expr \<times> nat) list \<Rightarrow> extents \<Rightarrow> extents res" where
  "bind_shape pairs dims = rfold (\<lambda>dims (expression, actual). bind_dimension expression actual dims) dims pairs"

definition parse_input :: "ty \<Rightarrow> json \<Rightarrow> extents \<Rightarrow> resource_limits \<Rightarrow> (runtime_value \<times> extents) res" where
  "parse_input t value dims limits =
     (case t of
        Scalar s \<Rightarrow> rmap (\<lambda>v. (RScalar v, dims)) (parse_scalar s value)
      | Tensor element sh \<Rightarrow>
          rbind (flatten_json (evaluation_tensor_elements limits) (json_nesting_depth limits) value 0 ([], []))
            (\<lambda>(concrete, scalars).
              if length concrete \<noteq> length sh
              then mismatch ''tensor rank mismatch: expected {}, got {}''
              else rbind (bind_shape (zip sh concrete) dims) (\<lambda>dims'.
                   rbind (traverse (parse_scalar element) scalars) (\<lambda>elems.
                     Inr (RTensor \<lparr>element_ty = element, tensor_shape = concrete, elements = elems\<rparr>, dims')))))"

subsection \<open>Preflight\<close>

definition concrete_dimension :: "dim_expr \<Rightarrow> extents \<Rightarrow> nat res" where
  "concrete_dimension expression dims =
     (case expression of
        Static value \<Rightarrow> Inr value
      | Symbol symbol \<Rightarrow>
          ok_or (Fail (agent_error_new EvaluationInputMismatch ''symbolic dimension `{symbol}` is unbound''))
            (bmap_get dims symbol)
      | Affine c symbol k \<Rightarrow>
          rbind (ok_or (Fail (agent_error_new EvaluationInputMismatch ''symbolic dimension `{symbol}` is unbound''))
                   (bmap_get dims symbol)) (\<lambda>s.
          let value = c * int s + k in
            if \<not> in_i128 (c * int s) \<or> \<not> in_i128 value
            then mismatch ''affine evaluation dimension overflow''
            else if value < 0 then mismatch ''affine evaluation dimension is negative''
            else if int u64_max < value then mismatch ''evaluation dimension exceeds u64''
            else Inr (nat value)))"

definition preflight_pair :: "extents \<Rightarrow> dim_expr \<times> dim_expr \<Rightarrow> unit res" where
  "preflight_pair dims p =
     rbind (concrete_dimension (fst p) dims) (\<lambda>l.
     rbind (concrete_dimension (snd p) dims) (\<lambda>r.
       if l \<noteq> r then mismatch ''runtime inputs violate an accepted shape equality'' else Inr ()))"

definition preflight_constraint :: "extents \<Rightarrow> shape_constraint \<Rightarrow> unit res" where
  "preflight_constraint dims c =
     (case c of
        Equal l r \<Rightarrow>
          if length l \<noteq> length r then mismatch ''runtime constraint ranks differ''
          else rmap (\<lambda>_. ()) (traverse (preflight_pair dims) (zip l r))
      | NonNegative _ \<Rightarrow> Inr ())"

definition element_count :: "extents \<Rightarrow> shape \<Rightarrow> nat res" where
  "element_count dims sh =
     rfold (\<lambda>count dimension.
        rbind (concrete_dimension dimension dims) (\<lambda>n.
          ok_or (Fail (agent_error_new EvaluationInputMismatch ''evaluation tensor element count overflow''))
            (u64_checked_mul count n))) 1 sh"

definition preflight_value :: "resource_limits \<Rightarrow> extents \<Rightarrow> nat \<Rightarrow> value_def \<Rightarrow> nat res" where
  "preflight_value limits dims tot def =
     (case v_ty def of
        Scalar _ \<Rightarrow> Inr tot
      | Tensor _ sh \<Rightarrow>
          rbind (element_count dims sh) (\<lambda>n.
          rbind (against limits EvaluationTensorElements n ''evaluation value `{}`'') (\<lambda>_.
            Inr (u64_saturating_add tot n))))"

definition preflight_evaluation :: "program \<Rightarrow> extents \<Rightarrow> resource_limits \<Rightarrow> unit res" where
  "preflight_evaluation prog dims limits =
     rbind (traverse (preflight_constraint dims) (constraints prog)) (\<lambda>_.
     rbind (rfold (preflight_value limits dims) 0 (bmap_values (vals prog))) (\<lambda>tot.
       against limits TotalEvaluationElements tot ''evaluation graph materialization''))"

subsection \<open>Primitive operations\<close>

definition constant_runtime :: "constant_value \<Rightarrow> runtime_value res" where
  "constant_runtime c =
     rmap RScalar
       (case c of
          CBool b \<Rightarrow> Inr (VBool b)
        | CI32 i \<Rightarrow> Inr (VI32 i)
        | CF32 _ \<Rightarrow> ok_or (Fail (agent_error_new TransactionRejected ''invalid canonical f32 bits''))
                      (map_option VF32 (as_f32 c)))"

text \<open>\<open>checked_add\<close> and its siblings: the exact result when it is an \<open>i32\<close>.\<close>

definition checked_i32 :: "int \<Rightarrow> string \<Rightarrow> scalar_value res" where
  "checked_i32 i msg = ok_or (Fail (agent_error_new TransactionRejected msg)) (map_option VI32 (i32_try_from i))"

definition division_by_zero :: "'a res" where
  "division_by_zero = err DivisionByZero ''Stage 1 reference semantics reject division by zero''"

definition scalar_binary :: "opcode \<Rightarrow> scalar_value \<Rightarrow> scalar_value \<Rightarrow> scalar_value res" where
  "scalar_binary op l r =
     (case (op, l, r) of
        (Add, VI32 a, VI32 b) \<Rightarrow> checked_i32 (sint a + sint b) ''i32 addition overflow''
      | (Sub, VI32 a, VI32 b) \<Rightarrow> checked_i32 (sint a - sint b) ''i32 subtraction overflow''
      | (Mul, VI32 a, VI32 b) \<Rightarrow> checked_i32 (sint a * sint b) ''i32 multiplication overflow''
      | (Div, VI32 a, VI32 b) \<Rightarrow>
          if b = 0 then division_by_zero
          else checked_i32 (sint a sdiv sint b) ''i32 division overflow''
      | (Add, VF32 a, VF32 b) \<Rightarrow> Inr (VF32 (fp_add binary32 a b))
      | (Sub, VF32 a, VF32 b) \<Rightarrow> Inr (VF32 (fp_sub binary32 a b))
      | (Mul, VF32 a, VF32 b) \<Rightarrow> Inr (VF32 (fp_mul binary32 a b))
      | (Div, VF32 a, VF32 b) \<Rightarrow>
          if fp_zero b then division_by_zero else Inr (VF32 (fp_div binary32 a b))
      | _ \<Rightarrow> err TypeMismatch ''cannot apply `{opcode}` to runtime scalar values'')"

text \<open>Element by element over the zipped elements of two tensors; the first error ends the walk.\<close>

definition zip_elements ::
    "(scalar_value \<Rightarrow> scalar_value \<Rightarrow> scalar_value res) \<Rightarrow> dense_tensor \<Rightarrow> dense_tensor \<Rightarrow> scalar_value list res" where
  "zip_elements f l r = traverse (\<lambda>(a, b). f a b) (zip (elements l) (elements r))"

definition elementwise_binary :: "opcode \<Rightarrow> runtime_value \<Rightarrow> runtime_value \<Rightarrow> runtime_value res" where
  "elementwise_binary op l r =
     (case (l, r) of
        (RScalar a, RScalar b) \<Rightarrow> rmap RScalar (scalar_binary op a b)
      | (RTensor a, RTensor b) \<Rightarrow>
          if tensor_shape a = tensor_shape b \<and> element_ty a = element_ty b
          then rmap (\<lambda>es. RTensor (a\<lparr>elements := es\<rparr>)) (zip_elements (scalar_binary op) a b)
          else err TypeMismatch ''runtime elementwise operands differ''
      | _ \<Rightarrow> err TypeMismatch ''runtime elementwise operands differ'')"

definition scalar_fma :: "scalar_value \<Rightarrow> scalar_value \<Rightarrow> scalar_value \<Rightarrow> scalar_value res" where
  "scalar_fma l r addend =
     (case (l, r, addend) of
        (VF32 a, VF32 b, VF32 c) \<Rightarrow> Inr (VF32 (fp_fma binary32 a b c))
      | (VI32 a, VI32 b, VI32 c) \<Rightarrow>
          (case i32_try_from (sint a * sint b) of
             None \<Rightarrow> err TransactionRejected ''i32 fma overflow''
           | Some p \<Rightarrow> checked_i32 (sint p + sint c) ''i32 fma overflow'')
      | _ \<Rightarrow> err TypeMismatch ''fma runtime types differ'')"

definition order_predicate :: "string \<Rightarrow> bool \<Rightarrow> bool \<Rightarrow> bool \<Rightarrow> bool \<Rightarrow> bool \<Rightarrow> bool res" where
  "order_predicate predicate eq lt le gt ge =
     (if predicate = ''eq'' then Inr eq
      else if predicate = ''ne'' then Inr (\<not> eq)
      else if predicate = ''lt'' then Inr lt
      else if predicate = ''le'' then Inr le
      else if predicate = ''gt'' then Inr gt
      else if predicate = ''ge'' then Inr ge
      else err InvalidRequest ''unknown comparison predicate'')"

definition compare_scalar :: "string \<Rightarrow> scalar_value \<Rightarrow> scalar_value \<Rightarrow> scalar_value res" where
  "compare_scalar predicate l r =
     rmap VBool
       (case (l, r) of
          (VBool a, VBool b) \<Rightarrow>
            if predicate = ''eq'' then Inr (a = b)
            else if predicate = ''ne'' then Inr (a \<noteq> b)
            else err InvalidRequest ''bool comparison supports eq/ne''
        | (VI32 a, VI32 b) \<Rightarrow>
            order_predicate predicate (a = b) (sint a < sint b) (sint a \<le> sint b)
              (sint b < sint a) (sint b \<le> sint a)
        | (VF32 a, VF32 b) \<Rightarrow>
            order_predicate predicate (fp_eq a b) (fp_lt a b) (fp_le a b) (fp_lt b a) (fp_le b a)
        | _ \<Rightarrow> err TypeMismatch ''comparison runtime types differ'')"

definition cast_scalar :: "scalar_value \<Rightarrow> scalar_type \<Rightarrow> scalar_value res" where
  "cast_scalar v target =
     (case (v, target) of
        (VBool b, Bool) \<Rightarrow> Inr (VBool b)
      | (VI32 i, I32) \<Rightarrow> Inr (VI32 i)
      | (VI32 i, Index) \<Rightarrow> Inr (VI32 i)
      | (VF32 x, F32) \<Rightarrow> Inr (VF32 x)
      | (VI32 i, F32) \<Rightarrow> Inr (VF32 (fp_of_int binary32 (sint i)))
      | (VF32 x, Bool) \<Rightarrow> err TypeMismatch ''unsupported explicit cast''
      | (VF32 x, _) \<Rightarrow>
          if fp_finite x \<and> fp_le (fp_of_int binary32 (- 2147483648)) x \<and>
             fp_le x (fp_of_int binary32 2147483647)
          then Inr (VI32 (word_of_int (fp_to_i32 x)))
          else err TypeMismatch ''f32 value is out of i32 cast range''
      | _ \<Rightarrow> err TypeMismatch ''unsupported explicit cast'')"

definition eval_fma :: "runtime_value \<Rightarrow> runtime_value \<Rightarrow> runtime_value \<Rightarrow> runtime_value res" where
  "eval_fma l r addend =
     (case (l, r, addend) of
        (RScalar a, RScalar b, RScalar c) \<Rightarrow> rmap RScalar (scalar_fma a b c)
      | (RTensor a, RTensor b, RTensor c) \<Rightarrow>
          if tensor_shape a = tensor_shape b \<and> tensor_shape a = tensor_shape c
          then rmap (\<lambda>es. RTensor (a\<lparr>elements := es\<rparr>))
                 (traverse (\<lambda>((x, y), z). scalar_fma x y z)
                    (zip (zip (elements a) (elements b)) (elements c)))
          else err TypeMismatch ''runtime fma operands differ''
      | _ \<Rightarrow> err TypeMismatch ''runtime fma operands differ'')"

definition eval_compare :: "string \<Rightarrow> runtime_value \<Rightarrow> runtime_value \<Rightarrow> runtime_value res" where
  "eval_compare predicate l r =
     (case (l, r) of
        (RScalar a, RScalar b) \<Rightarrow> rmap RScalar (compare_scalar predicate a b)
      | (RTensor a, RTensor b) \<Rightarrow>
          if tensor_shape a = tensor_shape b
          then rmap (\<lambda>es. RTensor \<lparr>element_ty = Bool, tensor_shape = tensor_shape a, elements = es\<rparr>)
                 (zip_elements (compare_scalar predicate) a b)
          else err TypeMismatch ''runtime compare operands differ''
      | _ \<Rightarrow> err TypeMismatch ''runtime compare operands differ'')"

definition select_scalar :: "scalar_value \<Rightarrow> scalar_value \<Rightarrow> scalar_value \<Rightarrow> scalar_value res" where
  "select_scalar c yes no =
     (case c of
        VBool b \<Rightarrow> Inr (if b then yes else no)
      | _ \<Rightarrow> err TypeMismatch ''select condition is not bool'')"

definition eval_select :: "runtime_value \<Rightarrow> runtime_value \<Rightarrow> runtime_value \<Rightarrow> runtime_value res" where
  "eval_select c yes no =
     (case (c, yes, no) of
        (RScalar (VBool b), _, _) \<Rightarrow> Inr (if b then yes else no)
      | (RTensor tc, RTensor ty, RTensor tn) \<Rightarrow>
          if tensor_shape tc = tensor_shape ty \<and> tensor_shape ty = tensor_shape tn
          then rmap (\<lambda>es. RTensor (ty\<lparr>elements := es\<rparr>))
                 (traverse (\<lambda>((x, y), z). select_scalar x y z)
                    (zip (zip (elements tc) (elements ty)) (elements tn)))
          else err TypeMismatch ''runtime select operands differ''
      | _ \<Rightarrow> err TypeMismatch ''runtime select operands differ'')"

definition eval_cast :: "runtime_value \<Rightarrow> scalar_type \<Rightarrow> runtime_value res" where
  "eval_cast v target =
     (case v of
        RScalar a \<Rightarrow> rmap RScalar (cast_scalar a target)
      | RTensor t \<Rightarrow>
          rmap (\<lambda>es. RTensor \<lparr>element_ty = target, tensor_shape = tensor_shape t, elements = es\<rparr>)
            (traverse (\<lambda>x. cast_scalar x target) (elements t)))"

definition predicate_attribute :: "(string, json) bmap \<Rightarrow> string" where
  "predicate_attribute attributes =
     (case Option.bind (bmap_get attributes ''predicate'') as_str of None \<Rightarrow> ''eq'' | Some p \<Rightarrow> p)"

definition cast_target :: "(string, json) bmap \<Rightarrow> scalar_type res" where
  "cast_target attributes =
     rbind (ok_or (Fail (agent_error_new TypeMismatch ''cast target_type missing''))
              (Option.bind (bmap_get attributes ''target_type'') as_str)) (\<lambda>name.
     case parse_scalar_type name of
       Inl msg \<Rightarrow> err TypeMismatch msg
     | Inr target \<Rightarrow> Inr target)"

definition eval_primitive :: "opcode \<Rightarrow> runtime_value list \<Rightarrow> (string, json) bmap \<Rightarrow> runtime_value res" where
  "eval_primitive op operands attributes =
     (if op \<in> {Add, Sub, Mul, Div} then
        rbind (slice_index operands 0) (\<lambda>l. rbind (slice_index operands 1) (\<lambda>r.
          elementwise_binary op l r))
      else if op = Fma then
        rbind (slice_index operands 0) (\<lambda>a. rbind (slice_index operands 1) (\<lambda>b.
        rbind (slice_index operands 2) (\<lambda>c. eval_fma a b c)))
      else if op = Compare then
        rbind (slice_index operands 0) (\<lambda>l. rbind (slice_index operands 1) (\<lambda>r.
          eval_compare (predicate_attribute attributes) l r))
      else if op = Select then
        rbind (slice_index operands 0) (\<lambda>c. rbind (slice_index operands 1) (\<lambda>yes.
        rbind (slice_index operands 2) (\<lambda>no. eval_select c yes no)))
      else if op = Cast then
        rbind (cast_target attributes) (\<lambda>target.
        rbind (slice_index operands 0) (\<lambda>v. eval_cast v target))
      else err UnknownOpcode ''`{opcode}` is not a primitive evaluator opcode'')"

end
