(* ===== verification/Runtime_Proofs.thy ===== *)
theory Runtime_Proofs
  imports Runtime
begin

text \<open>
  Correctness of the checked entry points of the interpreter: exact 32-bit arithmetic, type
  soundness of the primitive operations against the rules of \<open>Inference_Proofs\<close>, soundness of
  dimension binding and of the preflight.
\<close>

subsection \<open>Typed values\<close>

fun scalar_typed :: "scalar_value \<Rightarrow> scalar_type \<Rightarrow> bool" where
  "scalar_typed (VBool _) t \<longleftrightarrow> t = Bool"
| "scalar_typed (VI32 _) t \<longleftrightarrow> t = I32 \<or> t = Index"
| "scalar_typed (VF32 _) t \<longleftrightarrow> t = F32"

definition tensor_typed :: "dense_tensor \<Rightarrow> scalar_type \<Rightarrow> int list \<Rightarrow> bool" where
  "tensor_typed t e ext \<longleftrightarrow>
     element_ty t = e \<and> map int (tensor_shape t) = ext \<and>
     length (elements t) = prod_list (tensor_shape t) \<and> (\<forall>x\<in>set (elements t). scalar_typed x e)"

fun value_typed :: "runtime_value \<Rightarrow> dty \<Rightarrow> bool" where
  "value_typed (RScalar a) (e, ext) \<longleftrightarrow> ext = None \<and> scalar_typed a e"
| "value_typed (RTensor t) (e, ext) \<longleftrightarrow> (\<exists>x. ext = Some x \<and> tensor_typed t e x)"

text \<open>An outcome is a typed value or a failure with one of the given codes; never a panic.\<close>

definition outcome :: "('a \<Rightarrow> bool) \<Rightarrow> error_code set \<Rightarrow> 'a res \<Rightarrow> bool" where
  "outcome P codes r = (case r of Inr a \<Rightarrow> P a | Inl (Fail e) \<Rightarrow> code e \<in> codes | Inl _ \<Rightarrow> False)"

lemma outcome_simps [simp]:
  "outcome P cs (Inr a) \<longleftrightarrow> P a" "outcome P cs (Inl (Fail e)) \<longleftrightarrow> code e \<in> cs"
  "\<not> outcome P cs (Inl Panic)" "\<not> outcome P cs (Inl Diverge)"
  by (simp_all add: outcome_def)

lemma outcome_mono:
  "outcome P cs r \<Longrightarrow> (\<And>a. P a \<Longrightarrow> Q a) \<Longrightarrow> cs \<subseteq> ds \<Longrightarrow> outcome Q ds r"
  by (auto simp: outcome_def split: sum.splits failure.splits)

lemma outcome_rmap: "outcome P cs r \<Longrightarrow> (\<And>a. P a \<Longrightarrow> Q (f a)) \<Longrightarrow> outcome Q cs (rmap f r)"
  by (auto simp: outcome_def split: sum.splits failure.splits)

lemma outcome_rbind: "outcome P cs r \<Longrightarrow> (\<And>a. P a \<Longrightarrow> outcome Q cs (f a)) \<Longrightarrow> outcome Q cs (rbind r f)"
  by (cases r) (auto simp: outcome_def split: failure.splits)

lemma outcome_traverse:
  "(\<And>x. x \<in> set xs \<Longrightarrow> outcome P cs (f x)) \<Longrightarrow>
   outcome (\<lambda>ys. length ys = length xs \<and> (\<forall>y\<in>set ys. P y)) cs (traverse f xs)"
proof (induction xs)
  case (Cons x xs)
  then have "outcome (\<lambda>ys. length ys = length xs \<and> (\<forall>y\<in>set ys. P y)) cs (traverse f xs)" by simp
  moreover have "outcome P cs (f x)" using Cons.prems by simp
  ultimately show ?case by (auto intro!: outcome_rbind [where P = P] outcome_rbind)
qed simp

subsection \<open>Scalars\<close>

lemma checked_i32_exact: "checked_i32 i m = Inr v \<longleftrightarrow> (\<exists>w. v = VI32 w \<and> sint w = i)"
  by (auto simp: checked_i32_def ok_or_Inr_iff i32_try_from_sint)

lemma checked_i32_error:
  "checked_i32 i m = Inl e \<longleftrightarrow> (i < - 2147483648 \<or> 2147483647 < i) \<and> e = Fail (agent_error_new TransactionRejected m)"
  by (auto simp: checked_i32_def ok_or_Inl_iff i32_try_from_def)

lemma checked_i32_outcome: "outcome (\<lambda>v. scalar_typed v I32 \<and> scalar_typed v Index) {TransactionRejected} (checked_i32 i m)"
  by (auto simp: checked_i32_def i32_try_from_def)

definition arith_errors :: "opcode \<Rightarrow> error_code set" where
  "arith_errors op = (if op = Div then {TransactionRejected, DivisionByZero} else {TransactionRejected})"

lemma scalar_binary_outcome:
  assumes "op \<in> {Add, Sub, Mul, Div}" "is_numeric e" "scalar_typed a e" "scalar_typed b e"
  shows "outcome (\<lambda>v. scalar_typed v e) (arith_errors op) (scalar_binary op a b)"
proof -
  have checked: "outcome (\<lambda>v. scalar_typed v e) (arith_errors op) (checked_i32 i m)"
    if "e = I32 \<or> e = Index" for i m
    using that by (auto intro!: outcome_mono [OF checked_i32_outcome] simp: arith_errors_def)
  show ?thesis
    using assms checked
    by (cases a; cases b; cases e)
       (auto simp: scalar_binary_def division_by_zero_def arith_errors_def)
qed

lemma scalar_fma_outcome:
  assumes "is_numeric e" "scalar_typed a e" "scalar_typed b e" "scalar_typed c e"
  shows "outcome (\<lambda>v. scalar_typed v e) {TransactionRejected} (scalar_fma a b c)"
proof -
  have checked: "outcome (\<lambda>v. scalar_typed v e) {TransactionRejected} (checked_i32 i m)"
    if "e = I32 \<or> e = Index" for i m
    using that by (auto intro!: outcome_mono [OF checked_i32_outcome])
  show ?thesis
    using assms checked
    by (cases a; cases b; cases c; cases e) (auto simp: scalar_fma_def split: option.splits)
qed

lemma order_predicate_outcome: "outcome (\<lambda>_. True) {InvalidRequest} (order_predicate p eq lt le gt ge)"
  by (simp add: order_predicate_def)

lemma compare_scalar_outcome:
  assumes "scalar_typed a e" "scalar_typed b e"
  shows "outcome (\<lambda>v. scalar_typed v Bool) {InvalidRequest} (compare_scalar p a b)"
  using assms
  by (cases a; cases b; cases e)
     (auto simp: compare_scalar_def intro!: outcome_rmap [OF order_predicate_outcome])

lemma cast_scalar_outcome:
  assumes "scalar_typed a e" "cast_supported e target"
  shows "outcome (\<lambda>v. scalar_typed v target) {TypeMismatch} (cast_scalar a target)"
  using assms by (cases a; cases e; cases target) (auto simp: cast_scalar_def cast_supported_def)

lemma select_scalar_outcome:
  "scalar_typed c Bool \<Longrightarrow> scalar_typed a e \<Longrightarrow> scalar_typed b e \<Longrightarrow>
   outcome (\<lambda>v. scalar_typed v e) {} (select_scalar c a b)"
  by (cases c) (simp_all add: select_scalar_def)

subsection \<open>Primitive operations\<close>

lemma value_typed_scalar: "value_typed v (e, None) \<longleftrightarrow> (\<exists>a. v = RScalar a \<and> scalar_typed a e)"
  by (cases v) auto

lemma value_typed_tensor: "value_typed v (e, Some x) \<longleftrightarrow> (\<exists>t. v = RTensor t \<and> tensor_typed t e x)"
  by (cases v) auto

lemma same_extents: "tensor_typed a e x \<Longrightarrow> tensor_typed b e' x \<Longrightarrow>
    tensor_shape a = tensor_shape b \<and> length (elements a) = length (elements b)"
  by (auto simp: tensor_typed_def)

text \<open>A tensor whose elements are replaced by as many typed elements is typed.\<close>

lemma outcome_elements:
  assumes "tensor_typed a e x" "length xs = length (elements a)"
    and "\<And>y. y \<in> set xs \<Longrightarrow> outcome (\<lambda>v. scalar_typed v e') cs (f y)"
    and "\<And>es. element_ty (mk es) = e' \<and> tensor_shape (mk es) = tensor_shape a \<and> elements (mk es) = es"
  shows "outcome (\<lambda>v. value_typed v (e', Some x)) cs (rmap (\<lambda>es. RTensor (mk es)) (traverse f xs))"
  by (rule outcome_rmap [OF outcome_traverse [OF assms(3)]])
     (use assms in \<open>auto simp: tensor_typed_def\<close>)

lemma eval_arith_outcome:
  assumes op: "op \<in> {Add, Sub, Mul, Div}" "is_numeric (fst t)" and v: "value_typed a t" "value_typed b t"
  shows "outcome (\<lambda>v. value_typed v t) (arith_errors op) (elementwise_binary op a b)"
proof (cases t)
  case (Pair e ext)
  show ?thesis
  proof (cases ext)
    case None
    with v Pair op show ?thesis
      by (auto simp: value_typed_scalar elementwise_binary_def intro!: outcome_rmap [OF scalar_binary_outcome])
  next
    case (Some x)
    with v Pair obtain ta tb where t: "a = RTensor ta" "b = RTensor tb" "tensor_typed ta e x" "tensor_typed tb e x"
      by (auto simp: value_typed_tensor)
    have "outcome (\<lambda>v. value_typed v (e, Some x)) (arith_errors op)
        (rmap (\<lambda>es. RTensor (ta\<lparr>elements := es\<rparr>)) (zip_elements (scalar_binary op) ta tb))"
      unfolding zip_elements_def
      using t op Pair same_extents [OF t(3,4)]
      by (intro outcome_elements)
         (auto simp: tensor_typed_def dest: set_zip_leftD set_zip_rightD intro!: scalar_binary_outcome)
    with t Pair Some same_extents [OF t(3,4)] show ?thesis
      by (simp add: elementwise_binary_def tensor_typed_def)
  qed
qed

lemma zip3_mem:
  "((x, y), z) \<in> set (zip (zip xs ys) zs) \<Longrightarrow> x \<in> set xs \<and> y \<in> set ys \<and> z \<in> set zs"
  by (auto simp: set_zip)

lemma eval_fma_outcome:
  assumes num: "is_numeric (fst t)" and v: "value_typed a t" "value_typed b t" "value_typed c t"
  shows "outcome (\<lambda>v. value_typed v t) {TransactionRejected} (eval_fma a b c)"
proof (cases t)
  case (Pair e ext)
  show ?thesis
  proof (cases ext)
    case None
    with v Pair num show ?thesis
      by (auto simp: value_typed_scalar eval_fma_def intro!: outcome_rmap [OF scalar_fma_outcome])
  next
    case (Some x)
    with v Pair obtain ta tb tc where t: "a = RTensor ta" "b = RTensor tb" "c = RTensor tc"
        "tensor_typed ta e x" "tensor_typed tb e x" "tensor_typed tc e x"
      by (auto simp: value_typed_tensor)
    note same = same_extents [OF t(4,5)] same_extents [OF t(4,6)]
    have "outcome (\<lambda>v. value_typed v (e, Some x)) {TransactionRejected}
        (rmap (\<lambda>es. RTensor (ta\<lparr>elements := es\<rparr>)) (traverse (\<lambda>((x, y), z). scalar_fma x y z)
           (zip (zip (elements ta) (elements tb)) (elements tc))))"
      using t num Pair same
      by (intro outcome_elements)
         (auto simp: tensor_typed_def dest!: zip3_mem intro!: scalar_fma_outcome)
    with t Pair Some same show ?thesis by (simp add: eval_fma_def)
  qed
qed

lemma eval_compare_outcome:
  assumes v: "value_typed a t" "value_typed b t"
  shows "outcome (\<lambda>v. value_typed v (Bool, snd t)) {InvalidRequest} (eval_compare p a b)"
proof (cases t)
  case (Pair e ext)
  show ?thesis
  proof (cases ext)
    case None
    with v Pair show ?thesis
      by (auto simp: value_typed_scalar eval_compare_def intro!: outcome_rmap [OF compare_scalar_outcome])
  next
    case (Some x)
    with v Pair obtain ta tb where t: "a = RTensor ta" "b = RTensor tb" "tensor_typed ta e x" "tensor_typed tb e x"
      by (auto simp: value_typed_tensor)
    note same = same_extents [OF t(3,4)]
    have "outcome (\<lambda>v. value_typed v (Bool, Some x)) {InvalidRequest}
        (rmap (\<lambda>es. RTensor \<lparr>element_ty = Bool, tensor_shape = tensor_shape ta, elements = es\<rparr>)
           (zip_elements (compare_scalar p) ta tb))"
      unfolding zip_elements_def
      using t Pair same
      by (intro outcome_elements)
         (auto simp: tensor_typed_def dest: set_zip_leftD set_zip_rightD intro!: compare_scalar_outcome)
    with t Pair Some same show ?thesis by (simp add: eval_compare_def)
  qed
qed

lemma eval_select_outcome:
  assumes v: "value_typed c tc" "value_typed a t" "value_typed b t" and sel: "selects tc t"
  shows "outcome (\<lambda>v. value_typed v t) {} (eval_select c a b)"
proof (cases "tc = (Bool, None)")
  case True
  with v(1) obtain s where s: "c = RScalar s" "scalar_typed s Bool" by (auto simp: value_typed_scalar)
  with v show ?thesis by (cases s) (auto simp: eval_select_def)
next
  case False
  with sel obtain e x where t: "t = (e, Some x)" "tc = (Bool, Some x)"
    by (cases t) (auto simp: selects_def)
  with v obtain uc ua ub where u: "c = RTensor uc" "a = RTensor ua" "b = RTensor ub"
      "tensor_typed uc Bool x" "tensor_typed ua e x" "tensor_typed ub e x"
    by (auto simp: value_typed_tensor)
  note same = same_extents [OF u(5,4)] same_extents [OF u(5,6)]
  have "outcome (\<lambda>v. value_typed v (e, Some x)) {}
      (rmap (\<lambda>es. RTensor (ua\<lparr>elements := es\<rparr>)) (traverse (\<lambda>((x, y), z). select_scalar x y z)
         (zip (zip (elements uc) (elements ua)) (elements ub))))"
    using u same
    by (intro outcome_elements)
       (auto simp: tensor_typed_def dest!: zip3_mem intro!: select_scalar_outcome)
  with u t same show ?thesis by (simp add: eval_select_def)
qed

lemma eval_cast_outcome:
  assumes v: "value_typed a t" and c: "cast_supported (fst t) target"
  shows "outcome (\<lambda>v. value_typed v (target, snd t)) {TypeMismatch} (eval_cast a target)"
proof (cases t)
  case (Pair e ext)
  show ?thesis
  proof (cases ext)
    case None
    with v Pair c show ?thesis
      by (auto simp: value_typed_scalar eval_cast_def intro!: outcome_rmap [OF cast_scalar_outcome])
  next
    case (Some x)
    with v Pair obtain ta where t: "a = RTensor ta" "tensor_typed ta e x"
      by (auto simp: value_typed_tensor)
    have "outcome (\<lambda>v. value_typed v (target, Some x)) {TypeMismatch}
        (rmap (\<lambda>es. RTensor \<lparr>element_ty = target, tensor_shape = tensor_shape ta, elements = es\<rparr>)
           (traverse (\<lambda>x. cast_scalar x target) (elements ta)))"
      using t Pair c
      by (intro outcome_elements) (auto simp: tensor_typed_def intro!: cast_scalar_outcome)
    with t Pair Some show ?thesis by (simp add: eval_cast_def)
  qed
qed

text \<open>The target of a cast is read in the same way by inference and by the interpreter.\<close>

lemma parse_scalar_trim: "parse_scalar_type (str_trim s) = parse_scalar_type s"
  by (simp add: parse_scalar_type_def)

lemma cast_target_ok:
  assumes "Option.bind (bmap_get attrs ''target_type'') as_str = Some name"
    and "parse_type name = Inr (Scalar target)"
  shows "cast_target attrs = Inr target"
proof -
  have "parse_scalar_type name = Inr target"
    using assms(2) by (auto simp: parse_type_def Let_def rbind_Inr_iff rmap_Inr_iff parse_scalar_trim
        split: option.split_asm prod.split_asm)
  with assms(1) show ?thesis by (simp add: cast_target_def)
qed

definition primitive_errors :: "opcode \<Rightarrow> error_code set" where
  "primitive_errors op =
     (if op \<in> {Add, Sub, Mul, Div} then arith_errors op
      else if op = Fma then {TransactionRejected}
      else if op = Compare then {InvalidRequest}
      else if op = Cast then {TypeMismatch}
      else {})"

lemma eval_primitive_outcome:
  assumes "prim_typing op attrs ts t" "list_all2 value_typed vs ts"
  shows "outcome (\<lambda>v. value_typed v t) (primitive_errors op) (eval_primitive op vs attrs)"
  using assms
proof (cases rule: prim_typing.cases)
  case arith
  with assms(2) show ?thesis
    by (auto simp: list_all2_Cons2 eval_primitive_def primitive_errors_def
        intro: eval_arith_outcome)
next
  case fma
  with assms(2) show ?thesis
    by (auto simp: list_all2_Cons2 eval_primitive_def primitive_errors_def
        intro!: eval_fma_outcome)
next
  case compare
  with assms(2) show ?thesis
    by (auto simp: list_all2_Cons2 eval_primitive_def primitive_errors_def
        intro!: eval_compare_outcome simp del: split_paired_All)
next
  case select_scalar
  with assms(2) show ?thesis
    by (auto simp: list_all2_Cons2 eval_primitive_def primitive_errors_def selects_def
        intro!: eval_select_outcome [where tc = "(Bool, None)"])
next
  case select_tensor
  with assms(2) show ?thesis
    by (auto simp: list_all2_Cons2 eval_primitive_def primitive_errors_def selects_def
        intro!: eval_select_outcome [where tc = "(Bool, snd t)"])
next
  case cast
  with assms(2) show ?thesis
    by (auto simp: list_all2_Cons2 eval_primitive_def primitive_errors_def cast_target_ok
        intro!: eval_cast_outcome)
qed

subsection \<open>Exact integer arithmetic\<close>

text \<open>The mathematical result of an integer operation; division truncates towards zero.\<close>

fun exact_int :: "opcode \<Rightarrow> int \<Rightarrow> int \<Rightarrow> int" where
  "exact_int Add x y = x + y"
| "exact_int Sub x y = x - y"
| "exact_int Mul x y = x * y"
| "exact_int _ x y = x sdiv y"

lemma scalar_binary_exact:
  assumes "op \<in> {Add, Sub, Mul, Div}" "op = Div \<Longrightarrow> b \<noteq> 0"
  shows "scalar_binary op (VI32 a) (VI32 b) = Inr v \<longleftrightarrow>
    (\<exists>w. v = VI32 w \<and> sint w = exact_int op (sint a) (sint b))"
  using assms by (auto simp: scalar_binary_def checked_i32_exact)

lemma scalar_binary_overflow:
  assumes "op \<in> {Add, Sub, Mul, Div}" "op = Div \<Longrightarrow> b \<noteq> 0"
  shows "(\<exists>e. scalar_binary op (VI32 a) (VI32 b) = Inl e) \<longleftrightarrow>
    (exact_int op (sint a) (sint b) < - 2147483648 \<or> 2147483647 < exact_int op (sint a) (sint b))"
  using assms by (auto simp: scalar_binary_def checked_i32_error)

subsection \<open>Binding symbolic dimensions\<close>

text \<open>A valuation agrees with the extents bound so far.\<close>

definition agrees :: "valuation \<Rightarrow> extents \<Rightarrow> bool" where
  "agrees v dims \<longleftrightarrow> (\<forall>s n. bmap_get dims s = Some n \<longrightarrow> v s = n)"

lemma agrees_empty [simp]: "agrees v []"
  by (simp add: agrees_def)

lemma bind_symbol_exact:
  "bind_symbol s n m dims = Inr dims' \<Longrightarrow> agrees v dims' \<longleftrightarrow> agrees v dims \<and> v s = n"
  by (auto simp: bind_symbol_def agrees_def split: option.splits if_splits)
     (metis option.distinct(1))

lemma bind_symbol_rejected:
  "bind_symbol s n m dims = Inl e \<Longrightarrow> \<not> (agrees v dims \<and> v s = n)"
  by (auto simp: bind_symbol_def agrees_def split: option.splits if_splits)

lemma bind_symbol_outcome: "outcome (\<lambda>_. True) {EvaluationInputMismatch} (bind_symbol s n m dims)"
  by (simp add: bind_symbol_def split: option.split)

lemma smod_zero_mult: "(a :: int) smod b = 0 \<Longrightarrow> b * (a sdiv b) = a"
  using mult_sdiv_smod_eq [of b a] by simp

lemma smod_mult_zero [simp]: "(c * x) smod (c :: int) = 0"
  by (simp add: signed_modulo_int_def abs_mult)

lemma i64_rem_Inr: "i64_rem a b = Inr r \<Longrightarrow> r = a smod b"
  by (simp add: i64_rem_def split: if_split_asm)

lemma i64_div_Inr: "i64_div a b = Inr q \<Longrightarrow> q = a sdiv b"
  by (simp add: i64_div_def split: if_split_asm)

lemma i64_sub_Inr: "i64_sub a b = Inr d \<Longrightarrow> d = a - b"
  by (simp add: i64_sub_def split: if_split_asm)

lemma bind_affine_Inr:
  assumes "bind_dimension (Affine c s k) n dims = Inr dims'"
  obtains (plain) "c = 0" "int n = k" "dims' = dims"
  | (solved) q m where "c \<noteq> 0" "c * int q + k = int n" "bind_symbol s q m dims = Inr dims'"
proof (cases "c = 0")
  case True
  with assms plain show ?thesis by (simp add: bind_dimension_def split: if_split_asm)
next
  case False
  with assms obtain num q m where "num = int n - k" "num smod c = 0" "q = num sdiv c" "0 \<le> q"
      "bind_symbol s (nat q) m dims = Inr dims'"
    by (auto simp: bind_dimension_def rbind_Inr_iff split: if_split_asm
        dest!: i64_sub_Inr i64_rem_Inr i64_div_Inr)
  with False solved [of "nat q"] smod_zero_mult [of num c] show ?thesis by simp
qed

lemma bind_dimension_exact:
  assumes "bind_dimension d n dims = Inr dims'"
  shows "agrees v dims' \<longleftrightarrow> agrees v dims \<and> eval_dim v d = int n"
proof (cases d)
  case (Static m)
  with assms show ?thesis by (simp add: bind_dimension_def split: if_split_asm)
next
  case (Symbol s)
  with assms have "bind_symbol s n ''symbolic dimension `{symbol}` was {expected}, got {actual}'' dims = Inr dims'"
    by (simp add: bind_dimension_def)
  from bind_symbol_exact [OF this] Symbol show ?thesis by simp
next
  case (Affine c s k)
  with assms have "bind_dimension (Affine c s k) n dims = Inr dims'" by simp
  then show ?thesis
  proof (cases rule: bind_affine_Inr)
    case plain
    with Affine show ?thesis by auto
  next
    case (solved q m)
    from solved(2) have "c * int (v s) + k = int n \<longleftrightarrow> c * int (v s) = c * int q" by linarith
    with solved(1) have "c * int (v s) + k = int n \<longleftrightarrow> v s = q" by simp
    with bind_symbol_exact [OF solved(3)] Affine show ?thesis by simp
  qed
qed

text \<open>The range in which the subtraction of the affine case cannot overflow.\<close>

fun bindable :: "dim_expr \<Rightarrow> nat \<Rightarrow> bool" where
  "bindable (Affine c s k) n \<longleftrightarrow> int n - k \<le> i64_max"
| "bindable _ n \<longleftrightarrow> True"

lemma bind_dimension_outcome:
  assumes "dim_wf d" "bindable d n" "int n \<le> i64_max"
  shows "outcome (\<lambda>_. True) {EvaluationInputMismatch} (bind_dimension d n dims)"
proof (cases d)
  case (Affine c s k)
  with assms have "in_i64 (int n - k)" "int n - k \<noteq> i64_min"
    by (auto simp: range_defs)
  then show ?thesis using assms Affine bind_symbol_outcome
    by (simp add: bind_dimension_def i64_sub_def i64_rem_def i64_div_def)
qed (use bind_symbol_outcome in \<open>auto simp: bind_dimension_def\<close>)

lemma bind_dimension_rejected:
  assumes "bind_dimension d n dims = Inl (Fail e)" "int n \<le> i64_max"
  shows "\<not> (agrees v dims \<and> eval_dim v d = int n)"
proof (cases d)
  case (Static m)
  with assms show ?thesis by (simp add: bind_dimension_def split: if_split_asm)
next
  case (Symbol s)
  with assms(1) have "bind_symbol s n ''symbolic dimension `{symbol}` was {expected}, got {actual}'' dims = Inl (Fail e)"
    by (simp add: bind_dimension_def)
  from bind_symbol_rejected [OF this] Symbol show ?thesis by simp
next
  case (Affine c s k)
  show ?thesis
  proof
    assume a: "agrees v dims \<and> eval_dim v d = int n"
    then have eq: "int n - k = c * int (v s)" using Affine by simp
    show False
    proof (cases "c = 0")
      case True
      with assms Affine a show False by (simp add: bind_dimension_def split: if_split_asm)
    next
      case False
      then have q: "(int n - k) sdiv c = int (v s)"
        using smod_zero_mult [of "c * int (v s)" c] unfolding eq by simp
      from assms Affine False eq q a show False
        by (auto simp: bind_dimension_def rbind_Inl_iff i64_sub_def i64_rem_def i64_div_def
            split: if_split_asm dest: bind_symbol_rejected)
    qed
  qed
qed

lemma bind_shape_exact:
  "bind_shape (zip sh ext) dims = Inr dims' \<Longrightarrow> length ext = length sh \<Longrightarrow>
   agrees v dims' \<longleftrightarrow> agrees v dims \<and> eval_shape v sh = map int ext"
proof (induction sh arbitrary: ext dims)
  case (Cons d sh)
  then obtain n ext' where [simp]: "ext = n # ext'" by (cases ext) auto
  from Cons.prems obtain dims1 where b: "bind_dimension d n dims = Inr dims1"
      "bind_shape (zip sh ext') dims1 = Inr dims'"
    by (auto simp: bind_shape_def rbind_Inr_iff)
  with Cons.IH [OF b(2)] Cons.prems(2) bind_dimension_exact [OF b(1), of v] show ?case by auto
qed (simp add: bind_shape_def)

subsection \<open>Preflight\<close>

lemma concrete_dimension_eval:
  "concrete_dimension d dims = Inr n \<Longrightarrow> agrees v dims \<Longrightarrow> eval_dim v d = int n"
  by (cases d) (auto simp: concrete_dimension_def rbind_Inr_iff ok_or_Inr_iff agrees_def Let_def
      split: if_split_asm)

lemma preflight_pair_sound:
  "preflight_pair dims p = Inr () \<Longrightarrow> agrees v dims \<Longrightarrow> eval_dim v (fst p) = eval_dim v (snd p)"
  by (auto simp: preflight_pair_def rbind_Inr_iff split: if_split_asm dest!: concrete_dimension_eval)

lemma preflight_constraint_sound:
  assumes "preflight_constraint dims c = Inr u" "agrees v dims"
  shows "satisfies v c"
proof (cases c)
  case (Equal l r)
  with assms obtain us where len: "length l = length r"
      and us: "traverse (preflight_pair dims) (zip l r) = Inr us"
    by (auto simp: preflight_constraint_def rmap_Inr_iff split: if_split_asm)
  have "eval_dim v (l ! i) = eval_dim v (r ! i)" if "i < length l" for i
    using traverse_nth [OF us, of i] that len preflight_pair_sound [OF _ assms(2), of "(l ! i, r ! i)"]
    by simp
  with len Equal show ?thesis by (simp add: eval_shape_def list_eq_iff_nth_eq)
qed simp

lemma element_count_exact:
  assumes "element_count dims sh = Inr n" "agrees v dims"
  shows "\<exists>ext. eval_shape v sh = map int ext \<and> n = prod_list ext"
proof -
  have "rfold (\<lambda>count dimension.
        rbind (concrete_dimension dimension dims) (\<lambda>n.
          ok_or (Fail (agent_error_new EvaluationInputMismatch ''evaluation tensor element count overflow''))
            (u64_checked_mul count n))) k sh = Inr n \<Longrightarrow>
      \<exists>ext. eval_shape v sh = map int ext \<and> n = k * prod_list ext" for k
  proof (induction sh arbitrary: k)
    case (Cons d sh)
    from Cons.prems obtain m where m: "concrete_dimension d dims = Inr m"
      and r: "rfold (\<lambda>count dimension.
        rbind (concrete_dimension dimension dims) (\<lambda>n.
          ok_or (Fail (agent_error_new EvaluationInputMismatch ''evaluation tensor element count overflow''))
            (u64_checked_mul count n))) (k * m) sh = Inr n"
      by (auto simp: rbind_Inr_iff ok_or_Inr_iff u64_checked_mul_def split: if_split_asm)
    from Cons.IH [OF r] obtain ext where "eval_shape v sh = map int ext" "n = k * m * prod_list ext"
      by blast
    with concrete_dimension_eval [OF m assms(2)] show ?case
      by (intro exI [of _ "m # ext"]) simp
  qed simp
  from this [of 1] assms(1) show ?thesis by (simp add: element_count_def)
qed

lemma preflight_values_sound:
  assumes "rfold (preflight_value limits dims) k defs = Inr n" "agrees v dims"
    and "def \<in> set defs" "v_ty def = Tensor e sh"
  shows "\<exists>ext. eval_shape v sh = map int ext \<and> prod_list ext \<le> evaluation_tensor_elements limits"
  using assms(1,3)
proof (induction defs arbitrary: k)
  case (Cons d defs)
  from Cons.prems(1) obtain k' where k: "preflight_value limits dims k d = Inr k'"
      "rfold (preflight_value limits dims) k' defs = Inr n"
    by (auto simp: rbind_Inr_iff)
  show ?case
  proof (cases "def = d")
    case True
    with k(1) assms(4) obtain m where m: "element_count dims sh = Inr m" "m \<le> evaluation_tensor_elements limits"
      by (auto simp: preflight_value_def rbind_Inr_iff against_cases)
    with element_count_exact [OF m(1) assms(2)] show ?thesis by auto
  next
    case False
    with Cons.IH [OF k(2)] Cons.prems(2) show ?thesis by simp
  qed
qed simp

lemma preflight_sound:
  assumes "preflight_evaluation prog dims limits = Inr ()" "agrees v dims"
  shows "\<forall>c\<in>set (constraints prog). satisfies v c"
    and "\<forall>def\<in>set (bmap_values (vals prog)). \<forall>e sh. v_ty def = Tensor e sh \<longrightarrow>
      (\<exists>ext. eval_shape v sh = map int ext \<and> prod_list ext \<le> evaluation_tensor_elements limits)"
proof -
  from assms(1) obtain us n where us: "traverse (preflight_constraint dims) (constraints prog) = Inr us"
    and n: "rfold (preflight_value limits dims) 0 (bmap_values (vals prog)) = Inr n"
    by (auto simp: preflight_evaluation_def rbind_Inr_iff)
  show "\<forall>c\<in>set (constraints prog). satisfies v c"
    using traverse_nth [OF us] preflight_constraint_sound [OF _ assms(2)] by (metis in_set_conv_nth)
  show "\<forall>def\<in>set (bmap_values (vals prog)). \<forall>e sh. v_ty def = Tensor e sh \<longrightarrow>
      (\<exists>ext. eval_shape v sh = map int ext \<and> prod_list ext \<le> evaluation_tensor_elements limits)"
    using preflight_values_sound [OF n assms(2)] by blast
qed

end
