(* ===== verification/Interpreter.thy ===== *)
theory Interpreter
  imports Runtime_Proofs
begin

text \<open>
  The memoising graph evaluator of the reference interpreter (\<open>agentir-eval/src/lib.rs\<close>,
  \<open>struct Evaluator\<close>) and the JSON encoding of its results. \<open>eval_region\<close> and
  \<open>eval_operation\<close> take the evaluation of an operand as an argument and thread any state
  through it, as the methods thread \<open>&mut self\<close>; \<open>eval_value\<close> ties the knot.
\<close>

subsection \<open>The evaluator\<close>

record evaluator =
  memo :: "(string, runtime_value) bmap"
  visiting :: "string bset"

definition region_reference ::
    "(string, scalar_value) bmap \<Rightarrow> (string, scalar_value) bmap \<Rightarrow> (string, scalar_value) bmap \<Rightarrow>
     region_value \<Rightarrow> scalar_value res" where
  "region_reference args locals captures r =
     ok_or (Fail (agent_error_new InvalidRegion ''region value is unavailable''))
       (case r of
          Argument name \<Rightarrow> bmap_get args name
        | Local name \<Rightarrow> bmap_get locals name
        | Capture value \<Rightarrow> bmap_get captures value)"

definition region_step ::
    "(string, scalar_value) bmap \<Rightarrow> (string, scalar_value) bmap \<Rightarrow> (string, scalar_value) bmap \<Rightarrow>
     region_operation \<Rightarrow> (string, scalar_value) bmap res" where
  "region_step args captures locals operation =
     rbind (traverse (\<lambda>operand. rmap RScalar (region_reference args locals captures operand))
              (ro_operands operation)) (\<lambda>operands.
     rbind (eval_primitive (ro_opcode operation) operands (ro_attributes operation)) (\<lambda>result.
       case result of
         RScalar s \<Rightarrow> Inr (bmap_insert (ro_result operation) s locals)
       | RTensor _ \<Rightarrow> err InvalidRegion ''region operation yielded a tensor''))"

definition region_captures ::
    "(string \<Rightarrow> 's \<Rightarrow> (runtime_value \<times> 's) res) \<Rightarrow> string list \<Rightarrow> 's \<Rightarrow>
     ((string, scalar_value) bmap \<times> 's) res" where
  "region_captures ev ids s =
     rmap (\<lambda>(kvs, s'). (bmap_of_list kvs, s'))
       (traverse_st (\<lambda>cid s. rbind (ev cid s) (\<lambda>(v, s').
          case v of
            RScalar a \<Rightarrow> Inr ((cid, a), s')
          | RTensor _ \<Rightarrow> err InvalidRegion ''Stage 1 region capture must be scalar'')) ids s)"

definition eval_region ::
    "(string \<Rightarrow> 's \<Rightarrow> (runtime_value \<times> 's) res) \<Rightarrow> region \<Rightarrow> scalar_value list \<Rightarrow> 's \<Rightarrow>
     (scalar_value \<times> 's) res" where
  "eval_region ev rg arguments s =
     (let args = bmap_of_list (zip (map arg_name (rg_arguments rg)) arguments) in
      rbind (region_captures ev (rg_captures rg) s) (\<lambda>(captures, s').
      rbind (rfold (region_step args captures) [] (rg_operations rg)) (\<lambda>locals.
      rbind (region_reference args locals captures (rg_yield_value rg)) (\<lambda>v. Inr (v, s')))))"

definition require_region :: "operation \<Rightarrow> string \<Rightarrow> region res" where
  "require_region operation msg = ok_or (Fail (agent_error_new InvalidRegion msg)) (op_region operation)"

definition as_tensor :: "runtime_value \<Rightarrow> string \<Rightarrow> dense_tensor res" where
  "as_tensor v msg = (case v of RTensor t \<Rightarrow> Inr t | RScalar _ \<Rightarrow> err TypeMismatch msg)"

definition eval_map ::
    "(string \<Rightarrow> 's \<Rightarrow> (runtime_value \<times> 's) res) \<Rightarrow> operation \<Rightarrow> runtime_value list \<Rightarrow> 's \<Rightarrow>
     (runtime_value \<times> 's) res" where
  "eval_map ev operation operands s =
     rbind (slice_index operands 0) (\<lambda>v.
     rbind (as_tensor v ''map input is not a tensor'') (\<lambda>input.
     rbind (require_region operation ''map region is absent'') (\<lambda>rg.
     rbind (traverse_st (\<lambda>x. eval_region ev rg [x]) (elements input) s) (\<lambda>(es, s').
       Inr (RTensor \<lparr>element_ty = element_type (rg_yield_type rg), tensor_shape = tensor_shape input,
                     elements = es\<rparr>, s')))))"

text \<open>The tensors of \<open>zip_map\<close> column by column; \<open>tensors[0]\<close> panics when there is none.\<close>

definition eval_zip_map ::
    "(string \<Rightarrow> 's \<Rightarrow> (runtime_value \<times> 's) res) \<Rightarrow> operation \<Rightarrow> runtime_value list \<Rightarrow> 's \<Rightarrow>
     (runtime_value \<times> 's) res" where
  "eval_zip_map ev operation operands s =
     rbind (traverse (\<lambda>v. as_tensor v ''zip_map input is not a tensor'') operands) (\<lambda>tensors.
     rbind (require_region operation ''zip_map region is absent'') (\<lambda>rg.
     let len = (case tensors of [] \<Rightarrow> 0 | t # _ \<Rightarrow> length (elements t)) in
     if list_ex (\<lambda>t. tensor_shape t \<noteq> tensor_shape (hd tensors) \<or> length (elements t) \<noteq> len) tensors
     then err TypeMismatch ''zip_map runtime tensor shapes differ''
     else rbind (traverse_st (\<lambda>i s.
                   rbind (traverse (\<lambda>t. slice_index (elements t) i) tensors) (\<lambda>arguments.
                     eval_region ev rg arguments s)) [0..<len] s) (\<lambda>(es, s').
          rbind (slice_index tensors 0) (\<lambda>t0.
            Inr (RTensor \<lparr>element_ty = element_type (rg_yield_type rg), tensor_shape = tensor_shape t0,
                          elements = es\<rparr>, s')))))"

definition eval_reduce ::
    "(string \<Rightarrow> 's \<Rightarrow> (runtime_value \<times> 's) res) \<Rightarrow> operation \<Rightarrow> runtime_value list \<Rightarrow> 's \<Rightarrow>
     (runtime_value \<times> 's) res" where
  "eval_reduce ev operation operands s =
     rbind (slice_index operands 0) (\<lambda>v.
     rbind (as_tensor v ''reduce input is not a tensor'') (\<lambda>input.
     rbind (slice_index operands 1) (\<lambda>w.
     case w of
       RTensor _ \<Rightarrow> err TypeMismatch ''reduce identity is not scalar''
     | RScalar identity \<Rightarrow>
         rbind (require_region operation ''reduce region is absent'') (\<lambda>rg.
         rmap (\<lambda>(acc, s'). (RScalar acc, s'))
           (rfold (\<lambda>(acc, s') x. eval_region ev rg [acc, x] s') (identity, s) (elements input))))))"

definition eval_operation ::
    "(string \<Rightarrow> 's \<Rightarrow> (runtime_value \<times> 's) res) \<Rightarrow> operation \<Rightarrow> 's \<Rightarrow> (runtime_value \<times> 's) res" where
  "eval_operation ev operation s =
     rbind (traverse_st ev (op_operands operation) s) (\<lambda>(operands, s').
     case op_opcode operation of
       Map \<Rightarrow> eval_map ev operation operands s'
     | ZipMap \<Rightarrow> eval_zip_map ev operation operands s'
     | Reduce \<Rightarrow> eval_reduce ev operation operands s'
     | _ \<Rightarrow> rmap (\<lambda>v. (v, s')) (eval_primitive (op_opcode operation) operands (op_attributes operation)))"

text \<open>
  \<open>define_value\<close> is the \<open>match\<close> on the definition's origin. \<open>eval_value\<close> has one unit of fuel
  for every nested call; the visiting set bounds the nesting by the number of values of the
  program, so \<open>value_fuel\<close> is never exhausted (theorem in \<open>Interpreter_Proofs\<close>).
\<close>

definition define_value ::
    "program \<Rightarrow> (string, runtime_value) bmap \<Rightarrow> (string \<Rightarrow> 's \<Rightarrow> (runtime_value \<times> 's) res) \<Rightarrow>
     string \<Rightarrow> 's \<Rightarrow> (runtime_value \<times> 's) res" where
  "define_value prog params ev vid s =
     rbind (ok_or (Fail (agent_error_new UnknownReference ''value `{id}` is absent''))
              (bmap_get (vals prog) vid)) (\<lambda>def.
     case v_origin def of
       HoleOrigin _ \<Rightarrow> err OpenHole ''hole `{hole}` is open''
     | OperationOrigin oid \<Rightarrow>
         rbind (ok_or (Fail (agent_error_new UnknownReference ''defining operation is absent''))
                  (bmap_get (operations prog) oid)) (\<lambda>operation.
         case op_opcode operation of
           Parameter \<Rightarrow>
             rmap (\<lambda>v. (v, s))
               (ok_or (Fail (agent_error_new EvaluationInputMismatch ''input for parameter value `{id}` is missing''))
                  (bmap_get params vid))
         | Constant \<Rightarrow>
             rbind (ok_or (Fail (agent_error_new UnknownReference ''constant payload is absent''))
                      (bmap_get (constants prog) vid)) (\<lambda>c.
             rmap (\<lambda>v. (v, s)) (constant_runtime c))
         | _ \<Rightarrow> eval_operation ev operation s))"

fun eval_value ::
    "program \<Rightarrow> (string, runtime_value) bmap \<Rightarrow> nat \<Rightarrow> string \<Rightarrow> evaluator \<Rightarrow>
     (runtime_value \<times> evaluator) res" where
  "eval_value prog params 0 id0 s = Inl Diverge"
| "eval_value prog params (Suc fuel) id0 s =
     (let vid = resolve_filled_value prog id0 in
      case bmap_get (memo s) vid of
        Some v \<Rightarrow> Inr (v, s)
      | None \<Rightarrow>
          (case bmap_get params vid of
             Some v \<Rightarrow> Inr (v, s)
           | None \<Rightarrow>
               if bset_contains (visiting s) vid
               then err TransactionRejected ''cycle detected while evaluating `{id}`''
               else
                 rbind (define_value prog params (eval_value prog params fuel) vid
                          (s\<lparr>visiting := bset_insert vid (visiting s)\<rparr>)) (\<lambda>(result, s').
                   Inr (result, s'\<lparr>visiting := bset_remove vid (visiting s'),
                                   memo := bmap_insert vid result (memo s')\<rparr>))))"

definition value_fuel :: "program \<Rightarrow> nat" where
  "value_fuel prog = Suc (Suc (length (vals prog)))"

subsection \<open>JSON results\<close>

definition json_int :: "int \<Rightarrow> json" where
  "json_int i = JNumber (if 0 \<le> i then PosInt (nat i) else NegInt i)"

definition scalar_json :: "scalar_value \<Rightarrow> json res" where
  "scalar_json v =
     (case v of
        VBool b \<Rightarrow> Inr (JBool b)
      | VI32 i \<Rightarrow> Inr (json_int (sint i))
      | VF32 x \<Rightarrow>
          if fp_finite x then Inr (JNumber (Float (fp_convert binary64 x)))
          else err TransactionRejected ''non-finite f32 cannot be encoded as JSON'')"

text \<open>\<open>tensor_json\<close> walks the extents with a cursor into the elements.\<close>

fun repeat_st :: "nat \<Rightarrow> ('s \<Rightarrow> ('a \<times> 's) res) \<Rightarrow> 's \<Rightarrow> ('a list \<times> 's) res" where
  "repeat_st 0 f s = Inr ([], s)"
| "repeat_st (Suc n) f s = rbind (f s) (\<lambda>(x, s1). rbind (repeat_st n f s1) (\<lambda>(xs, s2). Inr (x # xs, s2)))"

fun build_json :: "scalar_value list \<Rightarrow> nat list \<Rightarrow> nat \<Rightarrow> (json \<times> nat) res" where
  "build_json es [] cursor =
     (if cursor < length es
      then rmap (\<lambda>j. (j, Suc cursor)) (scalar_json (es ! cursor))
      else err TransactionRejected ''tensor shape exceeds available runtime elements'')"
| "build_json es (n # ext) cursor =
     rmap (\<lambda>(js, c). (JArray js, c)) (repeat_st n (build_json es ext) cursor)"

definition tensor_json :: "dense_tensor \<Rightarrow> json res" where
  "tensor_json t = rmap fst (build_json (elements t) (tensor_shape t) 0)"

definition runtime_json :: "runtime_value \<Rightarrow> json res" where
  "runtime_json v = (case v of RScalar a \<Rightarrow> scalar_json a | RTensor t \<Rightarrow> tensor_json t)"

subsection \<open>Evaluation of a program\<close>

record evaluation_result =
  result_outputs :: "(string, json) bmap"
  result_dimensions :: extents

definition bind_parameter ::
    "program \<Rightarrow> (string, json) bmap \<Rightarrow> resource_limits \<Rightarrow> (string, runtime_value) bmap \<times> extents \<Rightarrow>
     string \<times> string \<Rightarrow> ((string, runtime_value) bmap \<times> extents) res" where
  "bind_parameter prog inputs limits st p =
     rbind (ok_or (Fail (agent_error_new UnknownReference ''parameter value is absent''))
              (bmap_get (vals prog) (snd p))) (\<lambda>def.
     rbind (ok_or Panic (bmap_get inputs (fst p))) (\<lambda>j.
     rbind (parse_input (v_ty def) j (snd st) limits) (\<lambda>(v, dims).
       Inr (bmap_insert (snd p) v (fst st), dims))))"

definition prepare_evaluator ::
    "program \<Rightarrow> (string, json) bmap \<Rightarrow> resource_limits \<Rightarrow> ((string, runtime_value) bmap \<times> extents) res" where
  "prepare_evaluator prog inputs limits =
     (if list_ex (\<lambda>h. filled_with h = None) (bmap_values (holes prog))
      then err OpenHole ''program contains open holes''
      else if \<not> frozen prog
      then err SpecNotComplete ''program must be complete and frozen before evaluation''
      else if bmap_keys (parameters prog) \<noteq> bmap_keys inputs
      then mismatch ''input names do not exactly match program parameters''
      else
        rbind (rfold (bind_parameter prog inputs limits) ([], []) (parameters prog)) (\<lambda>(params, dims).
        rbind (preflight_evaluation prog dims limits) (\<lambda>_. Inr (params, dims))))"

definition evaluate_output ::
    "program \<Rightarrow> (string, runtime_value) bmap \<Rightarrow> string \<times> string \<Rightarrow> evaluator \<Rightarrow>
     ((string \<times> json) \<times> evaluator) res" where
  "evaluate_output prog params p s =
     rbind (eval_value prog params (value_fuel prog) (snd p) s) (\<lambda>(v, s').
     rmap (\<lambda>j. ((fst p, j), s')) (runtime_json v))"

definition evaluate_with_limits ::
    "program \<Rightarrow> (string, json) bmap \<Rightarrow> resource_limits \<Rightarrow> evaluation_result res" where
  "evaluate_with_limits prog inputs limits =
     rbind (prepare_evaluator prog inputs limits) (\<lambda>(params, dims).
     rbind (traverse_st (evaluate_output prog params) (outputs prog) \<lparr>memo = [], visiting = []\<rparr>)
       (\<lambda>(outs, _). Inr \<lparr>result_outputs = bmap_of_list outs, result_dimensions = dims\<rparr>))"

definition evaluate :: "program \<Rightarrow> (string, json) bmap \<Rightarrow> evaluation_result res" where
  "evaluate prog inputs = evaluate_with_limits prog inputs default_limits"

end
