(* ===== verification/Interpreter_Proofs.thy ===== *)
theory Interpreter_Proofs
  imports Interpreter
begin

text \<open>
  The evaluator against a reference semantics without memoisation or cycle detection: they
  return the same values, and the evaluator's fuel always suffices. Then type soundness: in a
  typed program no evaluation panics, and every value has its type.
\<close>

subsection \<open>Simulation\<close>

text \<open>
  \<open>simulates D R f g\<close>: from related states, whatever \<open>f\<close> returns for an argument in \<open>D\<close>, \<open>g\<close>
  returns as well, in related states.
\<close>

definition sim_res :: "('s \<Rightarrow> 't \<Rightarrow> bool) \<Rightarrow> ('a \<times> 's) res \<Rightarrow> ('a \<times> 't) res \<Rightarrow> bool" where
  "sim_res R r q \<longleftrightarrow> (\<forall>v s. r = Inr (v, s) \<longrightarrow> (\<exists>t. q = Inr (v, t) \<and> R s t))"

definition simulates ::
    "'i set \<Rightarrow> ('s \<Rightarrow> 't \<Rightarrow> bool) \<Rightarrow> ('i \<Rightarrow> 's \<Rightarrow> ('a \<times> 's) res) \<Rightarrow> ('i \<Rightarrow> 't \<Rightarrow> ('a \<times> 't) res) \<Rightarrow> bool" where
  "simulates D R f g \<longleftrightarrow> (\<forall>i\<in>D. \<forall>s t. R s t \<longrightarrow> sim_res R (f i s) (g i t))"

text \<open>The values an operation reads: its operands and the captures of its region.\<close>

definition region_deps :: "region option \<Rightarrow> string set" where
  "region_deps r = (case r of None \<Rightarrow> {} | Some rg \<Rightarrow> set (rg_captures rg))"

definition op_deps :: "operation \<Rightarrow> string set" where
  "op_deps op = set (op_operands op) \<union> region_deps (op_region op)"

named_theorems sim_intros \<open>simulation of the evaluator's building blocks\<close>

lemma sim_resI: "(\<And>v s. r = Inr (v, s) \<Longrightarrow> \<exists>t. q = Inr (v, t) \<and> R s t) \<Longrightarrow> sim_res R r q"
  by (simp add: sim_res_def)

lemma simulatesD: "simulates D R f g \<Longrightarrow> i \<in> D \<Longrightarrow> R s t \<Longrightarrow> sim_res R (f i s) (g i t)"
  by (simp add: simulates_def)

lemma sim_Inr [sim_intros]: "R s t \<Longrightarrow> sim_res R (Inr (v, s)) (Inr (v, t))"
  by (simp add: sim_res_def)

lemma sim_Inl [sim_intros]: "sim_res R (Inl e) q"
  by (simp add: sim_res_def)

lemma sim_bind:
  "sim_res R r q \<Longrightarrow> (\<And>v s t. R s t \<Longrightarrow> sim_res R (f (v, s)) (g (v, t))) \<Longrightarrow> sim_res R (rbind r f) (rbind q g)"
  by (fastforce simp: sim_res_def rbind_Inr_iff)

lemma sim_bind_pure [sim_intros]:
  "(\<And>v. r = Inr v \<Longrightarrow> sim_res R (f v) (g v)) \<Longrightarrow> sim_res R (rbind r f) (rbind r g)"
  by (auto simp: sim_res_def rbind_Inr_iff)

lemma sim_rmap_pure: "R s t \<Longrightarrow> sim_res R (rmap (\<lambda>v. (h v, s)) r) (rmap (\<lambda>v. (h v, t)) r)"
  by (auto simp: sim_res_def rmap_Inr_iff)

lemma sim_rmap: "sim_res R r q \<Longrightarrow> sim_res R (rmap (\<lambda>(v, s). (h v, s)) r) (rmap (\<lambda>(v, s). (h v, s)) q)"
  by (fastforce simp: sim_res_def rmap_Inr_iff)

lemma sim_traverse:
  assumes "\<And>x s t. x \<in> set xs \<Longrightarrow> R s t \<Longrightarrow> sim_res R (f x s) (g x t)"
  shows "R s t \<Longrightarrow> sim_res R (traverse_st f xs s) (traverse_st g xs t)"
  using assms
proof (induction xs arbitrary: s t)
  case (Cons x xs)
  then have "sim_res R (f x s) (g x t)"
    and IH: "\<And>s t. R s t \<Longrightarrow> sim_res R (traverse_st f xs s) (traverse_st g xs t)"
    by auto
  then show ?case by (auto intro!: sim_bind sim_Inr)
qed (simp add: sim_Inr)

lemma sim_captures:
  assumes "simulates D R f g" "R s t" "set ids \<subseteq> D"
  shows "sim_res R (region_captures f ids s) (region_captures g ids t)"
  unfolding region_captures_def
  by (intro sim_rmap sim_traverse assms(2))
     (use assms(3) in \<open>auto intro!: sim_bind simulatesD [OF assms(1)] sim_intros split: runtime_value.split\<close>)

lemma sim_region:
  assumes "simulates D R f g" "set (rg_captures rg) \<subseteq> D" "R s t"
  shows "sim_res R (eval_region f rg args s) (eval_region g rg args t)"
  unfolding eval_region_def Let_def
  by (intro sim_bind sim_captures [OF assms(1) assms(3) assms(2)]) (auto intro!: sim_intros)

lemma sim_fold_region:
  assumes "simulates D R f g" "set (rg_captures rg) \<subseteq> D"
  shows "R s t \<Longrightarrow> sim_res R (rfold (\<lambda>(acc, s) x. eval_region f rg [acc, x] s) (a, s) xs)
                           (rfold (\<lambda>(acc, s) x. eval_region g rg [acc, x] s) (a, t) xs)"
proof (induction xs arbitrary: a s t)
  case (Cons x xs)
  show ?case
    using sim_region [OF assms Cons.prems, of "[a, x]"] Cons.IH by (auto intro!: sim_bind)
qed (simp add: sim_Inr)

lemma require_region_deps: "require_region op m = Inr rg \<Longrightarrow> op_deps op \<subseteq> D \<Longrightarrow> set (rg_captures rg) \<subseteq> D"
  by (auto simp: require_region_def ok_or_Inr_iff op_deps_def region_deps_def)

lemma sim_operation:
  assumes sim: "simulates D R f g" and deps: "op_deps op \<subseteq> D" and "R s t"
  shows "sim_res R (eval_operation f op s) (eval_operation g op t)"
proof -
  note rd = require_region_deps [OF _ deps]
  have map: "R s t \<Longrightarrow> sim_res R (eval_map f op vs s) (eval_map g op vs t)" for vs s t
    unfolding eval_map_def
    by (intro sim_bind_pure sim_bind sim_traverse sim_region [OF sim rd])
       (auto intro!: sim_intros)
  have zip: "R s t \<Longrightarrow> sim_res R (eval_zip_map f op vs s) (eval_zip_map g op vs t)" for vs s t
    unfolding eval_zip_map_def Let_def
    by (auto intro!: sim_bind_pure sim_bind [OF sim_traverse] sim_region [OF sim rd] sim_intros
        split: if_split)
  have reduce: "R s t \<Longrightarrow> sim_res R (eval_reduce f op vs s) (eval_reduce g op vs t)" for vs s t
    unfolding eval_reduce_def
    by (auto intro!: sim_bind_pure sim_rmap sim_fold_region [OF sim rd] sim_intros
        split: runtime_value.split)
  have ops: "sim_res R (traverse_st f (op_operands op) s) (traverse_st g (op_operands op) t)"
    by (rule sim_traverse) (use deps sim assms(3) in \<open>auto simp: op_deps_def intro!: simulatesD [OF sim]\<close>)
  show ?thesis
    unfolding eval_operation_def
    by (intro sim_bind [OF ops])
       (auto intro!: map zip reduce sim_rmap_pure split: opcode.split)
qed

definition program_deps :: "program \<Rightarrow> string set" where
  "program_deps prog = (\<Union>op\<in>set (bmap_values (operations prog)). op_deps op)"

lemma operation_deps: "bmap_get (operations prog) oid = Some op \<Longrightarrow> op_deps op \<subseteq> program_deps prog"
  using bmap_get_mem [of "operations prog" oid op] by (force simp: program_deps_def bmap_values_def)

lemma sim_define:
  assumes "simulates (program_deps prog) R f g" "R s t"
  shows "sim_res R (define_value prog params f i s) (define_value prog params g i t)"
  unfolding define_value_def
  by (intro sim_bind_pure)
     (auto intro!: sim_bind_pure sim_rmap_pure sim_operation [OF assms(1) operation_deps] assms(2) sim_intros
       simp: ok_or_Inr_iff split: value_origin.split opcode.split)

subsection \<open>The reference semantics\<close>

text \<open>No memo and no visiting set: a value is recomputed wherever it is used.\<close>

fun denote :: "program \<Rightarrow> (string, runtime_value) bmap \<Rightarrow> nat \<Rightarrow> string \<Rightarrow> runtime_value res" where
  "denote prog params 0 vid = Inl Diverge"
| "denote prog params (Suc n) vid =
     (case bmap_get params vid of
        Some v \<Rightarrow> Inr v
      | None \<Rightarrow>
          rmap fst (define_value prog params
            (\<lambda>i u. rmap (\<lambda>v. (v, u)) (denote prog params n (resolve_filled_value prog i))) vid ()))"

abbreviation denote_st ::
    "program \<Rightarrow> (string, runtime_value) bmap \<Rightarrow> nat \<Rightarrow> string \<Rightarrow> unit \<Rightarrow> (runtime_value \<times> unit) res" where
  "denote_st prog params n i u \<equiv> rmap (\<lambda>v. (v, u)) (denote prog params n (resolve_filled_value prog i))"

lemma denote_Suc_iff:
  "denote prog params (Suc n) vid = Inr v \<longleftrightarrow>
     bmap_get params vid = Some v \<or>
     (bmap_get params vid = None \<and> define_value prog params (denote_st prog params n) vid () = Inr (v, ()))"
  by (cases "bmap_get params vid") (auto simp: rmap_Inr_iff)

lemma sim_define_unit:
  assumes "simulates (program_deps prog) (\<lambda>_ _. True) f g"
    and "define_value prog params f i () = Inr (v, ())"
  shows "define_value prog params g i () = Inr (v, ())"
  using sim_define [OF assms(1), where s = "()" and t = "()" and params = params] assms(2)
  by (auto simp: sim_res_def)

lemma denote_mono_Suc: "denote prog params n vid = Inr v \<Longrightarrow> denote prog params (Suc n) vid = Inr v"
proof (induction n arbitrary: vid v)
  case (Suc n)
  have "simulates (program_deps prog) (\<lambda>_ _. True) (denote_st prog params n) (denote_st prog params (Suc n))"
    using Suc.IH by (auto simp: simulates_def sim_res_def rmap_Inr_iff simp del: denote.simps)
  from sim_define_unit [OF this] Suc.prems show ?case
    by (auto simp: denote_Suc_iff simp del: denote.simps)
qed simp

lemma denote_mono: "denote prog params n vid = Inr v \<Longrightarrow> n \<le> m \<Longrightarrow> denote prog params m vid = Inr v"
  by (induction m) (auto simp: le_Suc_eq simp del: denote.simps intro: denote_mono_Suc)

definition denotes :: "program \<Rightarrow> (string, runtime_value) bmap \<Rightarrow> string \<Rightarrow> runtime_value \<Rightarrow> bool" where
  "denotes prog params vid v \<longleftrightarrow> (\<exists>n. denote prog params n vid = Inr v)"

lemma denotes_unique: "denotes prog params vid v \<Longrightarrow> denotes prog params vid w \<Longrightarrow> v = w"
  unfolding denotes_def by (metis denote_mono nle_le sum.inject(2))

text \<open>One unfolding of the limit: the finitely many values that are read need one bound.\<close>

definition denote_limit ::
    "program \<Rightarrow> (string, runtime_value) bmap \<Rightarrow> string \<Rightarrow> unit \<Rightarrow> (runtime_value \<times> unit) res" where
  "denote_limit prog params i u =
     (if \<exists>v. denotes prog params (resolve_filled_value prog i) v
      then Inr (THE v. denotes prog params (resolve_filled_value prog i) v, u) else Inl Diverge)"

lemma denote_limit_Inr:
  "denote_limit prog params i u = Inr (v, w) \<longleftrightarrow> denotes prog params (resolve_filled_value prog i) v"
proof (cases "\<exists>x. denotes prog params (resolve_filled_value prog i) x")
  case True
  then obtain x where x: "denotes prog params (resolve_filled_value prog i) x" by blast
  then have "(THE v. denotes prog params (resolve_filled_value prog i) v) = x"
    by (rule the_equality) (rule denotes_unique [OF _ x])
  with x show ?thesis by (auto simp: denote_limit_def dest: denotes_unique)
qed (simp add: denote_limit_def)

lemma finite_deps: "finite (program_deps prog)"
  by (auto simp: program_deps_def op_deps_def region_deps_def split: option.split)

lemma common_bound:
  assumes "finite D"
  shows "\<exists>m. \<forall>i\<in>D. \<forall>v. denotes prog params (h i) v \<longrightarrow> denote prog params m (h i) = Inr v"
  using assms
proof (induction D)
  case (insert i D)
  then obtain m where m: "\<forall>i\<in>D. \<forall>v. denotes prog params (h i) v \<longrightarrow> denote prog params m (h i) = Inr v"
    by blast
  show ?case
  proof (cases "\<exists>v. denotes prog params (h i) v")
    case True
    then obtain n v where n: "denote prog params n (h i) = Inr v" "denotes prog params (h i) v"
      by (auto simp: denotes_def)
    have "denote prog params (max m n) (h j) = Inr w" if "j \<in> insert i D" "denotes prog params (h j) w" for j w
      using that m n denotes_unique denote_mono by (metis insertE max.cobounded1 max.cobounded2)
    then show ?thesis by blast
  qed (use m in blast)
qed simp

lemma define_limit:
  assumes "bmap_get params vid = None" "define_value prog params (denote_limit prog params) vid () = Inr (v, ())"
  shows "denotes prog params vid v"
proof -
  obtain m where m: "\<forall>i\<in>program_deps prog. \<forall>v. denotes prog params (resolve_filled_value prog i) v \<longrightarrow>
      denote prog params m (resolve_filled_value prog i) = Inr v"
    using common_bound [OF finite_deps] by blast
  have "simulates (program_deps prog) (\<lambda>_ _. True) (denote_limit prog params) (denote_st prog params m)"
    using m by (auto simp: simulates_def sim_res_def denote_limit_Inr)
  from sim_define_unit [OF this assms(2)] assms(1) show ?thesis
    unfolding denotes_def by (intro exI [of _ "Suc m"]) (simp add: denote_Suc_iff del: denote.simps)
qed

subsection \<open>The evaluator returns what the reference semantics returns\<close>

definition memo_ok :: "program \<Rightarrow> (string, runtime_value) bmap \<Rightarrow> evaluator \<Rightarrow> bool" where
  "memo_ok prog params s \<longleftrightarrow> (\<forall>k w. bmap_get (memo s) k = Some w \<longrightarrow> denotes prog params k w)"

lemma memo_ok_visiting [simp]: "memo_ok prog params (s\<lparr>visiting := x\<rparr>) \<longleftrightarrow> memo_ok prog params s"
  by (simp add: memo_ok_def)

lemma memo_ok_insert:
  "memo_ok prog params s \<Longrightarrow> denotes prog params k w \<Longrightarrow>
   memo_ok prog params (s\<lparr>visiting := x, memo := bmap_insert k w (memo s)\<rparr>)"
  by (simp add: memo_ok_def)

lemma denotes_param: "bmap_get params k = Some v \<Longrightarrow> denotes prog params k v"
  unfolding denotes_def by (intro exI [of _ "Suc 0"]) simp

lemma eval_value_hit:
  "bmap_get (memo s) (resolve_filled_value prog i) = Some v \<Longrightarrow>
   eval_value prog params (Suc n) i s = Inr (v, s)"
  "bmap_get (memo s) (resolve_filled_value prog i) = None \<Longrightarrow>
   bmap_get params (resolve_filled_value prog i) = Some v \<Longrightarrow>
   eval_value prog params (Suc n) i s = Inr (v, s)"
  by (simp_all add: Let_def)

lemma eval_value_miss:
  "bmap_get (memo s) (resolve_filled_value prog i) = None \<Longrightarrow>
   bmap_get params (resolve_filled_value prog i) = None \<Longrightarrow>
   eval_value prog params (Suc n) i s =
     (let vid = resolve_filled_value prog i in
      if bset_contains (visiting s) vid
      then err TransactionRejected ''cycle detected while evaluating `{id}`''
      else rbind (define_value prog params (eval_value prog params n) vid
                    (s\<lparr>visiting := bset_insert vid (visiting s)\<rparr>)) (\<lambda>(result, s').
             Inr (result, s'\<lparr>visiting := bset_remove vid (visiting s'),
                             memo := bmap_insert vid result (memo s')\<rparr>)))"
  by (simp add: Let_def)

declare eval_value.simps(2) [simp del]

lemma eval_value_simulates:
  "simulates UNIV (\<lambda>s _. memo_ok prog params s) (eval_value prog params n) (denote_limit prog params)"
proof (induction n)
  case (Suc n)
  have "sim_res (\<lambda>s _. memo_ok prog params s) (eval_value prog params (Suc n) i s) (denote_limit prog params i u)"
    if "memo_ok prog params s" for i s u
  proof (rule sim_resI)
    fix v s'
    let ?i = "resolve_filled_value prog i"
    assume e: "eval_value prog params (Suc n) i s = Inr (v, s')"
    have "denotes prog params ?i v \<and> memo_ok prog params s'"
    proof (cases "bmap_get (memo s) ?i = None \<and> bmap_get params ?i = None")
      case False
      with e that show ?thesis
        by (cases "bmap_get (memo s) ?i"; cases "bmap_get params ?i")
           (auto simp: memo_ok_def denotes_param eval_value_hit)
    next
      case True
      with e obtain s1 where d: "define_value prog params (eval_value prog params n) ?i
            (s\<lparr>visiting := bset_insert ?i (visiting s)\<rparr>) = Inr (v, s1)"
          "s' = s1\<lparr>visiting := bset_remove ?i (visiting s1), memo := bmap_insert ?i v (memo s1)\<rparr>"
        by (auto simp: eval_value_miss Let_def rbind_Inr_iff split: if_split_asm)
      have "simulates (program_deps prog) (\<lambda>s _. memo_ok prog params s)
          (eval_value prog params n) (denote_limit prog params)"
        using Suc by (simp add: simulates_def)
      from sim_define [OF this, where s = "s\<lparr>visiting := bset_insert ?i (visiting s)\<rparr>" and t = u
          and params = params and i = ?i] that d(1)
      have "define_value prog params (denote_limit prog params) ?i () = Inr (v, ())" "memo_ok prog params s1"
        by (auto simp: sim_res_def)
      with True d(2) define_limit show ?thesis by (simp add: memo_ok_insert)
    qed
    then show "\<exists>t. denote_limit prog params i u = Inr (v, t) \<and> memo_ok prog params s'"
      by (simp add: denote_limit_Inr)
  qed
  then show ?case by (simp add: simulates_def)
qed (simp add: simulates_def sim_res_def)

lemma eval_value_sound:
  "eval_value prog params n i s = Inr (v, s') \<Longrightarrow> memo_ok prog params s \<Longrightarrow>
   denotes prog params (resolve_filled_value prog i) v \<and> memo_ok prog params s'"
  using eval_value_simulates [of prog params n]
  by (fastforce simp: simulates_def sim_res_def denote_limit_Inr)

text \<open>The number of values of the program that are not being visited bounds the nesting.\<close>

definition unvisited :: "program \<Rightarrow> string set \<Rightarrow> nat" where
  "unvisited prog V = card (set (bmap_keys (vals prog)) - V)"

lemma unvisited_insert:
  "bmap_get (vals prog) i \<noteq> None \<Longrightarrow> i \<notin> V \<Longrightarrow> Suc (unvisited prog (insert i V)) = unvisited prog V"
proof -
  assume a: "bmap_get (vals prog) i \<noteq> None" "i \<notin> V"
  have "set (bmap_keys (vals prog)) - insert i V = (set (bmap_keys (vals prog)) - V) - {i}" by auto
  moreover have "i \<in> set (bmap_keys (vals prog)) - V"
    using a by (simp add: bmap_keys_set bmap_contains_def)
  ultimately show ?thesis unfolding unvisited_def by (metis List.finite_set card_Suc_Diff1 finite_Diff)
qed

lemma unvisited_le: "unvisited prog V \<le> length (vals prog)"
proof -
  have "unvisited prog V \<le> card (set (bmap_keys (vals prog)))"
    unfolding unvisited_def by (intro card_mono) auto
  also have "\<dots> \<le> length (vals prog)"
    unfolding bmap_keys_def using card_length [of "map fst (vals prog)"] by simp
  finally show ?thesis .
qed

lemma define_value_known: "define_value prog params f i s = Inr x \<Longrightarrow> bmap_get (vals prog) i \<noteq> None"
  by (auto simp: define_value_def rbind_Inr_iff ok_or_Inr_iff)

definition visits :: "program \<Rightarrow> (string, runtime_value) bmap \<Rightarrow> string set \<Rightarrow> evaluator \<Rightarrow> bool" where
  "visits prog params V s \<longleftrightarrow> memo_ok prog params s \<and> set (visiting s) = V"

lemma eval_value_complete:
  "denote prog params n (resolve_filled_value prog i) = Inr v \<Longrightarrow> visits prog params V s \<Longrightarrow>
   unvisited prog V < fuel \<Longrightarrow> (\<And>y w. y \<in> V \<Longrightarrow> denote prog params n y \<noteq> Inr w) \<Longrightarrow>
   \<exists>s'. eval_value prog params fuel i s = Inr (v, s') \<and> visits prog params V s'"
proof (induction n arbitrary: i v s V fuel)
  case (Suc n)
  let ?i = "resolve_filled_value prog i"
  obtain f where fuel: "fuel = Suc f" using Suc.prems(3) by (cases fuel) auto
  have d: "denotes prog params ?i v" using Suc.prems(1) unfolding denotes_def by blast
  have ok: "memo_ok prog params s" and vis: "set (visiting s) = V"
    using Suc.prems(2) by (simp_all add: visits_def)
  show ?case
  proof (cases "bmap_get (memo s) ?i = None \<and> bmap_get params ?i = None")
    case False
    then have "\<exists>w. eval_value prog params fuel i s = Inr (w, s)"
      unfolding fuel by (cases "bmap_get (memo s) ?i"; cases "bmap_get params ?i") (simp_all add: eval_value_hit)
    then obtain w where w: "eval_value prog params fuel i s = Inr (w, s)" by blast
    from eval_value_sound [OF w ok] have "w = v" using d denotes_unique by blast
    with w Suc.prems(2) show ?thesis by blast
  next
    case True
    show ?thesis
    proof (cases "\<exists>w. denote prog params n ?i = Inr w")
      case below: True
      then have "denote prog params n ?i = Inr v"
        using d denotes_unique unfolding denotes_def by metis
      then show ?thesis
      proof (rule Suc.IH [OF _ Suc.prems(2,3)])
        show "denote prog params n y \<noteq> Inr w" if "y \<in> V" for y w
          using Suc.prems(4) [OF that] denote_mono_Suc by blast
      qed
    next
      case False
      have new: "?i \<notin> V" using Suc.prems(1,4) by blast
      have def: "define_value prog params (denote_st prog params n) ?i () = Inr (v, ())"
        using Suc.prems(1) True by (simp add: denote_Suc_iff del: denote.simps)
      have less: "unvisited prog (insert ?i V) < f"
        using unvisited_insert [OF define_value_known [OF def] new] Suc.prems(3) fuel by simp
      have "simulates (program_deps prog) (\<lambda>_ s. visits prog params (insert ?i V) s)
          (denote_st prog params n) (eval_value prog params f)"
        unfolding simulates_def
      proof (intro ballI allI impI sim_resI)
        fix j u t w u'
        assume t: "visits prog params (insert ?i V) t" and "denote_st prog params n j u = Inr (w, u')"
        then have w: "denote prog params n (resolve_filled_value prog j) = Inr w"
          by (auto simp: rmap_Inr_iff)
        have "denote prog params n y \<noteq> Inr z" if "y \<in> insert ?i V" for y z
          using that Suc.prems(4) False denote_mono_Suc by blast
        from Suc.IH [OF w t less this]
        show "\<exists>s'. eval_value prog params f j t = Inr (w, s') \<and> visits prog params (insert ?i V) s'" .
      qed
      from sim_define [OF this, where s = "()" and t = "s\<lparr>visiting := bset_insert ?i (visiting s)\<rparr>"
          and params = params and i = ?i] def ok vis
      obtain s1 where "define_value prog params (eval_value prog params f) ?i
            (s\<lparr>visiting := bset_insert ?i (visiting s)\<rparr>) = Inr (v, s1)"
          "visits prog params (insert ?i V) s1"
        by (auto simp: sim_res_def visits_def)
      with True new vis d show ?thesis
        unfolding fuel by (auto simp: eval_value_miss Let_def bset_contains_def visits_def memo_ok_insert)
    qed
  qed
qed simp

lemma eval_value_refines:
  assumes "memo_ok prog params s" "visiting s = []"
  shows "(\<exists>s'. eval_value prog params (value_fuel prog) i s = Inr (v, s')) \<longleftrightarrow>
    denotes prog params (resolve_filled_value prog i) v"
proof
  assume "\<exists>s'. eval_value prog params (value_fuel prog) i s = Inr (v, s')"
  then show "denotes prog params (resolve_filled_value prog i) v"
    using eval_value_sound assms(1) by blast
next
  assume "denotes prog params (resolve_filled_value prog i) v"
  then obtain n where "denote prog params n (resolve_filled_value prog i) = Inr v"
    by (auto simp: denotes_def)
  moreover have "visits prog params {} s" using assms by (simp add: visits_def)
  moreover have "unvisited prog {} < value_fuel prog"
    using unvisited_le [of prog "{}"] by (simp add: value_fuel_def)
  ultimately show "\<exists>s'. eval_value prog params (value_fuel prog) i s = Inr (v, s')"
    using eval_value_complete by blast
qed

end
