(* ===== verification/Interpreter_Types.thy ===== *)
theory Interpreter_Types
  imports Interpreter_Proofs
begin

text \<open>
  Type soundness of the evaluator: in a typed program every value that evaluation returns has
  its type, no index is out of range, the fuel suffices, and the only errors left are
  arithmetic ones, an unsupported comparison, a cast out of range and a cycle.
\<close>

subsection \<open>Typed programs\<close>

definition dty_at :: "valuation \<Rightarrow> program \<Rightarrow> string \<Rightarrow> dty option" where
  "dty_at v prog i =
     (case bmap_get (vals prog) i of
        Some def \<Rightarrow> (case v_origin def of OperationOrigin _ \<Rightarrow> Some (eval_type v (v_ty def)) | _ \<Rightarrow> None)
      | None \<Rightarrow> None)"

definition value_dty :: "valuation \<Rightarrow> program \<Rightarrow> string \<Rightarrow> dty option" where
  "value_dty v prog i = dty_at v prog (resolve_filled_value prog i)"

type_synonym type_env = "(string, scalar_type) bmap"

definition reference_type :: "type_env \<Rightarrow> type_env \<Rightarrow> type_env \<Rightarrow> region_value \<Rightarrow> scalar_type option" where
  "reference_type args locals captures r =
     (case r of
        Argument name \<Rightarrow> bmap_get args name
      | Local name \<Rightarrow> bmap_get locals name
      | Capture value \<Rightarrow> bmap_get captures value)"

fun region_ops_typed :: "type_env \<Rightarrow> type_env \<Rightarrow> type_env \<Rightarrow> region_operation list \<Rightarrow> type_env \<Rightarrow> bool" where
  "region_ops_typed args captures locals [] final \<longleftrightarrow> final = locals"
| "region_ops_typed args captures locals (r # rs) final \<longleftrightarrow>
     (\<exists>ts t. list_all2 (\<lambda>x t. reference_type args locals captures x = Some t) (ro_operands r) ts \<and>
        prim_typing (ro_opcode r) (ro_attributes r) (map (\<lambda>t. (t, None)) ts) (t, None) \<and>
        region_ops_typed args captures (bmap_insert (ro_result r) t locals) rs final)"

definition region_typed :: "(string \<Rightarrow> dty option) \<Rightarrow> scalar_type list \<Rightarrow> region \<Rightarrow> scalar_type \<Rightarrow> bool" where
  "region_typed look es rg y \<longleftrightarrow>
     (\<exists>cts final.
        list_all2 (\<lambda>c t. look c = Some (t, None)) (rg_captures rg) cts \<and>
        region_ops_typed (bmap_of_list (zip (map arg_name (rg_arguments rg)) es))
          (bmap_of_list (zip (rg_captures rg) cts)) [] (rg_operations rg) final \<and>
        reference_type (bmap_of_list (zip (map arg_name (rg_arguments rg)) es)) final
          (bmap_of_list (zip (rg_captures rg) cts)) (rg_yield_value rg) = Some y \<and>
        element_type (rg_yield_type rg) = y)"

definition operation_typed :: "(string \<Rightarrow> dty option) \<Rightarrow> operation \<Rightarrow> dty \<Rightarrow> bool" where
  "operation_typed look op t \<longleftrightarrow>
     (\<exists>ts. list_all2 (\<lambda>i t. look i = Some t) (op_operands op) ts \<and>
        (if op_opcode op \<in> {Map, ZipMap, Reduce}
         then \<exists>rg y n. op_region op = Some rg \<and> higher_typing (op_opcode op) n y ts t \<and>
                region_typed look (map fst ts) rg y
         else prim_typing (op_opcode op) (op_attributes op) ts t))"

definition constant_typed :: "constant_value \<Rightarrow> dty \<Rightarrow> bool" where
  "constant_typed c t \<longleftrightarrow> (\<exists>w. constant_runtime c = Inr w \<and> value_typed w t)"

definition definition_typed ::
    "valuation \<Rightarrow> program \<Rightarrow> (string, runtime_value) bmap \<Rightarrow> string \<Rightarrow> operation \<Rightarrow> dty \<Rightarrow> bool" where
  "definition_typed v prog params i op t \<longleftrightarrow>
     (if op_opcode op = Parameter then bmap_get params i \<noteq> None
      else if op_opcode op = Constant then (\<exists>c. bmap_get (constants prog) i = Some c \<and> constant_typed c t)
      else operation_typed (value_dty v prog) op t)"

definition program_typed :: "valuation \<Rightarrow> program \<Rightarrow> (string, runtime_value) bmap \<Rightarrow> bool" where
  "program_typed v prog params \<longleftrightarrow>
     (\<forall>i w. bmap_get params i = Some w \<longrightarrow> (\<exists>t. dty_at v prog i = Some t \<and> value_typed w t)) \<and>
     (\<forall>i def oid. bmap_get (vals prog) i = Some def \<longrightarrow> v_origin def = OperationOrigin oid \<longrightarrow>
        (\<exists>op. bmap_get (operations prog) oid = Some op \<and>
              definition_typed v prog params i op (eval_type v (v_ty def))))"

definition evaluation_errors :: "error_code set" where
  "evaluation_errors = {TransactionRejected, DivisionByZero, InvalidRequest, TypeMismatch}"

lemma primitive_errors_sub: "primitive_errors op \<subseteq> evaluation_errors"
  by (auto simp: primitive_errors_def arith_errors_def evaluation_errors_def)

subsection \<open>Typed environments\<close>

definition env_typed :: "(string, scalar_value) bmap \<Rightarrow> type_env \<Rightarrow> bool" where
  "env_typed m tm \<longleftrightarrow>
     (\<forall>k t. bmap_get tm k = Some t \<longrightarrow> (\<exists>a. bmap_get m k = Some a \<and> scalar_typed a t))"

lemma env_typed_empty [simp]: "env_typed m []"
  by (simp add: env_typed_def)

lemma env_typed_insert: "env_typed m tm \<Longrightarrow> scalar_typed a t \<Longrightarrow> env_typed (bmap_insert k a m) (bmap_insert k t tm)"
  by (auto simp: env_typed_def)

lemma env_typed_zip:
  "list_all2 scalar_typed vs ts \<Longrightarrow> env_typed (bmap_of_list (zip ns vs)) (bmap_of_list (zip ns ts))"
proof -
  have "list_all2 scalar_typed vs ts \<Longrightarrow> env_typed m tm \<Longrightarrow>
      env_typed (fold (\<lambda>(k, v). bmap_insert k v) (zip ns vs) m) (fold (\<lambda>(k, v). bmap_insert k v) (zip ns ts) tm)" for m tm
  proof (induction ns arbitrary: vs ts m tm)
    case (Cons n ns)
    then show ?case
      by (cases vs; cases ts) (auto intro: Cons.IH env_typed_insert)
  qed simp
  then show "list_all2 scalar_typed vs ts \<Longrightarrow> ?thesis" by (simp add: bmap_of_list_def)
qed

lemma region_reference_typed:
  assumes "env_typed args targs" "env_typed locals tlocals" "env_typed captures tcaptures"
    and "reference_type targs tlocals tcaptures r = Some t"
  shows "\<exists>a. region_reference args locals captures r = Inr a \<and> scalar_typed a t"
  using assms by (cases r) (auto simp: reference_type_def region_reference_def env_typed_def ok_or_Inr_iff)

lemma region_references_typed:
  assumes "env_typed args targs" "env_typed locals tlocals" "env_typed captures tcaptures"
    and "list_all2 (\<lambda>x t. reference_type targs tlocals tcaptures x = Some t) xs ts"
  shows "\<exists>ws. traverse (\<lambda>x. rmap RScalar (region_reference args locals captures x)) xs = Inr ws \<and>
    list_all2 value_typed ws (map (\<lambda>t. (t, None)) ts)"
  using assms(4)
proof (induction xs ts rule: list_all2_induct)
  case (Cons x xs t ts)
  then show ?case using region_reference_typed [OF assms(1,2,3) Cons(1)] by auto
qed simp

lemma region_step_typed:
  assumes "env_typed args targs" "env_typed locals tlocals" "env_typed captures tcaptures"
    and "list_all2 (\<lambda>x t. reference_type targs tlocals tcaptures x = Some t) (ro_operands r) ts"
    and "prim_typing (ro_opcode r) (ro_attributes r) (map (\<lambda>t. (t, None)) ts) (t, None)"
  shows "outcome (\<lambda>l. env_typed l (bmap_insert (ro_result r) t tlocals)) evaluation_errors
    (region_step args captures locals r)"
proof -
  obtain ws where ws: "traverse (\<lambda>x. rmap RScalar (region_reference args locals captures x)) (ro_operands r) = Inr ws"
      "list_all2 value_typed ws (map (\<lambda>t. (t, None)) ts)"
    using region_references_typed [OF assms(1-4)] by blast
  have "outcome (\<lambda>w. value_typed w (t, None)) evaluation_errors
      (eval_primitive (ro_opcode r) ws (ro_attributes r))"
    by (rule outcome_mono [OF eval_primitive_outcome [OF assms(5) ws(2)] _ primitive_errors_sub])
  then show ?thesis
    unfolding region_step_def ws(1)
    by (auto simp: value_typed_scalar intro!: outcome_rbind env_typed_insert assms(2))
qed

lemma region_ops_outcome:
  assumes "env_typed args targs" "env_typed captures tcaptures"
  shows "region_ops_typed targs tcaptures tlocals rs final \<Longrightarrow> env_typed locals tlocals \<Longrightarrow>
    outcome (\<lambda>l. env_typed l final) evaluation_errors (rfold (region_step args captures) locals rs)"
proof (induction rs arbitrary: locals tlocals)
  case (Cons r rs)
  then obtain ts t where r: "list_all2 (\<lambda>x t. reference_type targs tlocals tcaptures x = Some t) (ro_operands r) ts"
      "prim_typing (ro_opcode r) (ro_attributes r) (map (\<lambda>t. (t, None)) ts) (t, None)"
      "region_ops_typed targs tcaptures (bmap_insert (ro_result r) t tlocals) rs final"
    by auto
  show ?case
    unfolding rfold.simps
    by (rule outcome_rbind [OF region_step_typed [OF assms(1) Cons.prems(2) assms(2) r(1,2)]])
       (rule Cons.IH [OF r(3)])
qed simp

subsection \<open>Operations\<close>

text \<open>What the evaluation of an operand guarantees, for a state invariant \<open>I\<close>.\<close>

definition ev_typed ::
    "valuation \<Rightarrow> program \<Rightarrow> ('s \<Rightarrow> bool) \<Rightarrow> (string \<Rightarrow> 's \<Rightarrow> (runtime_value \<times> 's) res) \<Rightarrow> bool" where
  "ev_typed v prog I ev \<longleftrightarrow>
     (\<forall>i t s. value_dty v prog i = Some t \<longrightarrow> I s \<longrightarrow>
        outcome (\<lambda>(w, s'). value_typed w t \<and> I s') evaluation_errors (ev i s))"

lemma ev_typedD:
  "ev_typed v prog I ev \<Longrightarrow> value_dty v prog i = Some t \<Longrightarrow> I s \<Longrightarrow>
   outcome (\<lambda>(w, s'). value_typed w t \<and> I s') evaluation_errors (ev i s)"
  unfolding ev_typed_def by blast

text \<open>Computed elements make a tensor of the given extents.\<close>

lemma outcome_tensor:
  assumes "outcome (\<lambda>(es, s'). list_all2 (\<lambda>z _. scalar_typed z y) es xs \<and> I s') E r"
    and "length xs = prod_list sh"
  shows "outcome (\<lambda>(u, s'). value_typed u (y, Some (map int sh)) \<and> I s') E
    (rbind r (\<lambda>(es, s'). Inr (RTensor \<lparr>element_ty = y, tensor_shape = sh, elements = es\<rparr>, s')))"
proof (rule outcome_rbind [OF assms(1)], clarify)
  fix es s' assume "list_all2 (\<lambda>z _. scalar_typed z y) es xs" "I s'"
  then show "outcome (\<lambda>(u, s'). value_typed u (y, Some (map int sh)) \<and> I s') E
      (Inr (RTensor \<lparr>element_ty = y, tensor_shape = sh, elements = es\<rparr>, s'))"
    using assms(2) list_all2_lengthD
    by (fastforce simp: tensor_typed_def list_all2_conv_all_nth in_set_conv_nth)
qed

lemma outcome_traverse_st:
  assumes "list_all2 (\<lambda>x t. \<forall>s. I s \<longrightarrow> outcome (\<lambda>(y, s'). P y t \<and> I s') E (f x s)) xs ts"
  shows "I s \<Longrightarrow> outcome (\<lambda>(ys, s'). list_all2 P ys ts \<and> I s') E (traverse_st f xs s)"
  using assms
proof (induction xs ts arbitrary: s rule: list_all2_induct)
  case (Cons x xs t ts)
  show ?case
    unfolding traverse_st.simps
    by (rule outcome_rbind [where P = "\<lambda>(y, s'). P y t \<and> I s'"])
       (use Cons in \<open>auto intro!: outcome_rbind [where P = "\<lambda>(ys, s'). list_all2 P ys ts \<and> I s'"]\<close>)
qed simp

lemma captures_typed:
  assumes ev: "ev_typed v prog I ev" and "I s"
    and c: "list_all2 (\<lambda>c t. value_dty v prog c = Some (t, None)) ids cts"
  shows "outcome (\<lambda>(m, s'). env_typed m (bmap_of_list (zip ids cts)) \<and> I s') evaluation_errors
    (region_captures ev ids s)"
proof -
  have "list_all2 (\<lambda>x t. \<forall>s. I s \<longrightarrow> outcome (\<lambda>(y, s'). (fst y = fst t \<and> scalar_typed (snd y) (snd t)) \<and> I s')
      evaluation_errors (rbind (ev x s) (\<lambda>(w, s').
          case w of RScalar a \<Rightarrow> Inr ((x, a), s')
          | RTensor _ \<Rightarrow> err InvalidRegion ''Stage 1 region capture must be scalar''))) ids (zip ids cts)"
    using c
    by (auto simp: list_all2_conv_all_nth value_typed_scalar intro!: outcome_rbind [OF ev_typedD [OF ev]])
  from outcome_traverse_st [OF this assms(2)] show ?thesis
    unfolding region_captures_def
  proof (rule outcome_rmap)
    fix p
    assume "case p of (ys, s') \<Rightarrow> list_all2 (\<lambda>y t. fst y = fst t \<and> scalar_typed (snd y) (snd t)) ys (zip ids cts) \<and> I s'"
    moreover obtain ys s' where p: "p = (ys, s')" by fastforce
    ultimately have l: "list_all2 (\<lambda>y t. fst y = fst t \<and> scalar_typed (snd y) (snd t)) ys (zip ids cts)" and "I s'"
      by auto
    from l have "ys = zip ids (map snd ys)" "list_all2 scalar_typed (map snd ys) cts"
      using list_all2_lengthD [OF c]
      by (auto simp: list_all2_conv_all_nth intro!: nth_equalityI prod_eqI)
    then have "env_typed (bmap_of_list ys) (bmap_of_list (zip ids cts))"
      using env_typed_zip by metis
    with p \<open>I s'\<close> show "case (case p of (kvs, s') \<Rightarrow> (bmap_of_list kvs, s')) of
        (m, s') \<Rightarrow> env_typed m (bmap_of_list (zip ids cts)) \<and> I s'" by simp
  qed
qed

lemma region_outcome:
  assumes ev: "ev_typed v prog I ev" and "I s" and r: "region_typed (value_dty v prog) es rg y"
    and a: "list_all2 scalar_typed args es"
  shows "outcome (\<lambda>(w, s'). scalar_typed w y \<and> I s') evaluation_errors (eval_region ev rg args s)"
proof -
  let ?ts = "bmap_of_list (zip (map arg_name (rg_arguments rg)) es)"
  from r obtain cts final where c: "list_all2 (\<lambda>c t. value_dty v prog c = Some (t, None)) (rg_captures rg) cts"
    and ops: "region_ops_typed ?ts (bmap_of_list (zip (rg_captures rg) cts)) [] (rg_operations rg) final"
    and yield: "reference_type ?ts final (bmap_of_list (zip (rg_captures rg) cts)) (rg_yield_value rg) = Some y"
    unfolding region_typed_def by blast
  note args = env_typed_zip [OF a, of "map arg_name (rg_arguments rg)"]
  show ?thesis
    unfolding eval_region_def Let_def
  proof (rule outcome_rbind [OF captures_typed [OF ev assms(2) c]], clarify)
    fix captures s'
    assume caps: "env_typed captures (bmap_of_list (zip (rg_captures rg) cts))" and "I s'"
    show "outcome (\<lambda>(w, s'). scalar_typed w y \<and> I s') evaluation_errors
        (rbind (rfold (region_step (bmap_of_list (zip (map arg_name (rg_arguments rg)) args)) captures) []
            (rg_operations rg)) (\<lambda>locals.
         rbind (region_reference (bmap_of_list (zip (map arg_name (rg_arguments rg)) args)) locals captures
            (rg_yield_value rg)) (\<lambda>w. Inr (w, s'))))"
    proof (rule outcome_rbind [OF region_ops_outcome [OF args caps ops]])
      show "env_typed [] []" by simp
      fix locals assume "env_typed locals final"
      from region_reference_typed [OF args this caps yield] \<open>I s'\<close>
      show "outcome (\<lambda>(w, s'). scalar_typed w y \<and> I s') evaluation_errors
         (rbind (region_reference (bmap_of_list (zip (map arg_name (rg_arguments rg)) args)) locals captures
            (rg_yield_value rg)) (\<lambda>w. Inr (w, s')))"
        by auto
    qed
  qed
qed

lemma eval_map_outcome:
  assumes ev: "ev_typed v prog I ev" and "I s" and rg: "op_region op = Some rg"
    and r: "region_typed (value_dty v prog) [e] rg y" and w: "value_typed w (e, Some ext)"
  shows "outcome (\<lambda>(u, s'). value_typed u (y, Some ext) \<and> I s') evaluation_errors (eval_map ev op [w] s)"
proof -
  obtain t where t: "w = RTensor t" "tensor_typed t e ext" using w by (auto simp: value_typed_tensor)
  have "list_all2 (\<lambda>x _. \<forall>s. I s \<longrightarrow> outcome (\<lambda>(z, s'). scalar_typed z y \<and> I s') evaluation_errors
      (eval_region ev rg [x] s)) (elements t) (elements t)"
    using t(2) by (auto simp: list_all2_conv_all_nth tensor_typed_def intro!: region_outcome [OF ev _ r])
  from outcome_tensor [OF outcome_traverse_st [OF this assms(2)], of "tensor_shape t"] t(2)
  have "outcome (\<lambda>(u, s'). value_typed u (y, Some ext) \<and> I s') evaluation_errors
      (rbind (traverse_st (\<lambda>x. eval_region ev rg [x]) (elements t) s) (\<lambda>(es, s').
        Inr (RTensor \<lparr>element_ty = y, tensor_shape = tensor_shape t, elements = es\<rparr>, s')))"
    by (simp add: tensor_typed_def)
  moreover have "element_type (rg_yield_type rg) = y" using r by (auto simp: region_typed_def)
  ultimately show ?thesis
    using t(1) rg by (simp add: eval_map_def as_tensor_def require_region_def)
qed

lemma as_tensors_typed:
  assumes "list_all2 value_typed ws ts" "\<forall>t\<in>set ts. t = (e, Some ext)"
  shows "\<exists>tensors. traverse (\<lambda>v. as_tensor v m) ws = Inr tensors \<and> length tensors = length ts \<and>
    (\<forall>t\<in>set tensors. tensor_typed t e ext)"
  using assms by (induction ws ts rule: list_all2_induct) (auto simp: value_typed_tensor as_tensor_def)

lemma eval_zip_map_outcome:
  assumes ev: "ev_typed v prog I ev" and "I s" and rg: "op_region op = Some rg"
    and r: "region_typed (value_dty v prog) (replicate (length ts) e) rg y" and ne: "ts \<noteq> []"
    and ts: "\<forall>t\<in>set ts. t = (e, Some ext)" and w: "list_all2 value_typed ws ts"
  shows "outcome (\<lambda>(u, s'). value_typed u (y, Some ext) \<and> I s') evaluation_errors (eval_zip_map ev op ws s)"
proof -
  obtain tensors where t: "traverse (\<lambda>v. as_tensor v ''zip_map input is not a tensor'') ws = Inr tensors"
      "length tensors = length ts" "\<forall>t\<in>set tensors. tensor_typed t e ext"
    using as_tensors_typed [OF w ts] by blast
  then obtain t0 rest where t0: "tensors = t0 # rest" using ne by (cases tensors) auto
  have same: "tensor_shape x = tensor_shape t0 \<and> length (elements x) = length (elements t0)" if "x \<in> set tensors" for x
    using that t(3) t0 same_extents [of x e ext t0 e] by auto
  have cols: "traverse (\<lambda>x. slice_index (elements x) i) tensors = Inr (map (\<lambda>x. elements x ! i) tensors)"
    if "i < length (elements t0)" for i
    using that same by (intro traverse_all_ok) simp
  have "scalar_typed (elements x ! i) e" if "i < length (elements t0)" "x \<in> set tensors" for i x
  proof -
    have "elements x ! i \<in> set (elements x)" using that same [of x] by (intro nth_mem) simp
    with t(3) that(2) show ?thesis by (simp add: tensor_typed_def)
  qed
  then have args: "list_all2 scalar_typed (map (\<lambda>x. elements x ! i) tensors) (replicate (length ts) e)"
    if "i < length (elements t0)" for i
    using that t(2) by (auto simp: list_all2_conv_all_nth)
  have "list_all2 (\<lambda>i _. \<forall>s. I s \<longrightarrow> outcome (\<lambda>(z, s'). scalar_typed z y \<and> I s') evaluation_errors
      (rbind (traverse (\<lambda>x. slice_index (elements x) i) tensors) (\<lambda>args. eval_region ev rg args s)))
      [0..<length (elements t0)] [0..<length (elements t0)]"
    using cols region_outcome [OF ev _ r args] by (simp add: list_all2_conv_all_nth)
  note cells = outcome_traverse_st [OF this assms(2)]
  have t0t: "tensor_typed t0 e ext" using t t0 by simp
  from outcome_tensor [OF cells, of "tensor_shape t0"] t0t
  have "outcome (\<lambda>(u, s'). value_typed u (y, Some ext) \<and> I s') evaluation_errors
      (rbind (traverse_st (\<lambda>i s. rbind (traverse (\<lambda>x. slice_index (elements x) i) tensors)
          (\<lambda>args. eval_region ev rg args s)) [0..<length (elements t0)] s) (\<lambda>(es, s').
        Inr (RTensor \<lparr>element_ty = y, tensor_shape = tensor_shape t0, elements = es\<rparr>, s')))"
    by (simp add: tensor_typed_def)
  moreover have "\<not> list_ex (\<lambda>t. tensor_shape t \<noteq> tensor_shape (hd tensors) \<or>
      length (elements t) \<noteq> length (elements t0)) tensors"
    unfolding list_ex_iff by (metis same t0 list.sel(1))
  moreover have "element_type (rg_yield_type rg) = y" using r by (auto simp: region_typed_def)
  ultimately show ?thesis
    using t(1) rg t0 by (simp add: eval_zip_map_def require_region_def)
qed

lemma eval_reduce_outcome:
  assumes ev: "ev_typed v prog I ev" and "I s" and rg: "op_region op = Some rg"
    and r: "region_typed (value_dty v prog) [e, e] rg e" and w: "value_typed w (e, Some ext)" and z: "value_typed z (e, None)"
  shows "outcome (\<lambda>(u, s'). value_typed u (e, None) \<and> I s') evaluation_errors (eval_reduce ev op [w, z] s)"
proof -
  obtain t a where t: "w = RTensor t" "tensor_typed t e ext" "z = RScalar a" "scalar_typed a e"
    using w z by (auto simp: value_typed_tensor value_typed_scalar)
  have "\<forall>x\<in>set xs. scalar_typed x e \<Longrightarrow> scalar_typed a e \<Longrightarrow> I s \<Longrightarrow>
      outcome (\<lambda>(u, s'). scalar_typed u e \<and> I s') evaluation_errors
        (rfold (\<lambda>(acc, s') x. eval_region ev rg [acc, x] s') (a, s) xs)" for xs a s
  proof (induction xs arbitrary: a s)
    case (Cons x xs)
    then show ?case
      by (auto intro!: outcome_rbind [OF region_outcome [OF ev _ r]])
  qed simp
  from outcome_rmap [OF this [of "elements t" a s], where Q = "\<lambda>(u, s'). value_typed u (e, None) \<and> I s'"
      and f = "\<lambda>(acc, s'). (RScalar acc, s')"] t assms(2) rg
  show ?thesis by (auto simp: eval_reduce_def as_tensor_def require_region_def tensor_typed_def)
qed

lemma eval_operation_outcome:
  assumes ev: "ev_typed v prog I ev" and "I s" and t: "operation_typed (value_dty v prog) op t"
    and o: "op_opcode op \<noteq> Parameter" "op_opcode op \<noteq> Constant"
  shows "outcome (\<lambda>(w, s'). value_typed w t \<and> I s') evaluation_errors (eval_operation ev op s)"
proof -
  from t obtain ts where ts: "list_all2 (\<lambda>i t. value_dty v prog i = Some t) (op_operands op) ts"
    and typing: "if op_opcode op \<in> {Map, ZipMap, Reduce}
         then \<exists>rg y n. op_region op = Some rg \<and> higher_typing (op_opcode op) n y ts t \<and>
                region_typed (value_dty v prog) (map fst ts) rg y
         else prim_typing (op_opcode op) (op_attributes op) ts t"
    by (auto simp: operation_typed_def)
  have "list_all2 (\<lambda>i t. \<forall>s. I s \<longrightarrow> outcome (\<lambda>(w, s'). value_typed w t \<and> I s') evaluation_errors (ev i s))
      (op_operands op) ts"
    using ts ev_typedD [OF ev] by (simp add: list_all2_conv_all_nth)
  from outcome_traverse_st [OF this assms(2)]
  have operands: "outcome (\<lambda>(ws, s'). list_all2 value_typed ws ts \<and> I s') evaluation_errors
      (traverse_st ev (op_operands op) s)" .
  show ?thesis
    unfolding eval_operation_def
  proof (rule outcome_rbind [OF operands], clarify)
    fix ws s' assume ws: "list_all2 value_typed ws ts" and s': "I s'"
    consider "op_opcode op = Map" | "op_opcode op = ZipMap" | "op_opcode op = Reduce"
      | "op_opcode op \<notin> {Map, ZipMap, Reduce}" by blast
    then show "outcome (\<lambda>(w, s'). value_typed w t \<and> I s') evaluation_errors
       (case op_opcode op of
          Map \<Rightarrow> eval_map ev op ws s' | ZipMap \<Rightarrow> eval_zip_map ev op ws s'
        | Reduce \<Rightarrow> eval_reduce ev op ws s'
        | _ \<Rightarrow> rmap (\<lambda>v. (v, s')) (eval_primitive (op_opcode op) ws (op_attributes op)))"
    proof cases
      case 1
      with typing ws s' show ?thesis
        by (auto simp: higher_typing_map_iff list_all2_Cons2 intro!: eval_map_outcome [OF ev])
    next
      case 2
      with typing obtain rg y e ext where z: "op_region op = Some rg" "ts \<noteq> []"
          "\<forall>t\<in>set ts. t = (e, Some ext)" "t = (y, Some ext)" "region_typed (value_dty v prog) (map fst ts) rg y"
        by (auto simp: higher_typing_zip_iff)
      have "map fst ts = replicate (length ts) e"
        using z(3) by (auto simp: map_replicate_const [symmetric] simp del: map_replicate_const)
      with 2 z ws s' show ?thesis by (auto intro!: eval_zip_map_outcome [OF ev, of s' op rg ts e])
    next
      case 3
      with typing ws s' show ?thesis
        by (auto simp: higher_typing_reduce_iff list_all2_Cons2 intro!: eval_reduce_outcome [OF ev])
    next
      case 4
      have "outcome (\<lambda>w. value_typed w t) evaluation_errors (eval_primitive (op_opcode op) ws (op_attributes op))"
        using 4 typing by (intro outcome_mono [OF eval_primitive_outcome [OF _ ws] _ primitive_errors_sub]) auto
      then have "outcome (\<lambda>(w, s'). value_typed w t \<and> I s') evaluation_errors
          (rmap (\<lambda>v. (v, s')) (eval_primitive (op_opcode op) ws (op_attributes op)))"
        using s' by (auto intro!: outcome_rmap)
      with 4 o show ?thesis by (cases "op_opcode op") simp_all
    qed
  qed
qed

subsection \<open>Values\<close>

definition memo_typed :: "valuation \<Rightarrow> program \<Rightarrow> evaluator \<Rightarrow> bool" where
  "memo_typed v prog s \<longleftrightarrow>
     (\<forall>k w. bmap_get (memo s) k = Some w \<longrightarrow> (\<exists>t. dty_at v prog k = Some t \<and> value_typed w t))"

definition running :: "valuation \<Rightarrow> program \<Rightarrow> string set \<Rightarrow> evaluator \<Rightarrow> bool" where
  "running v prog V s \<longleftrightarrow> memo_typed v prog s \<and> set (visiting s) = V"

lemma running_start: "running v prog V s \<Longrightarrow> running v prog (insert i V) (s\<lparr>visiting := bset_insert i (visiting s)\<rparr>)"
  by (simp add: running_def memo_typed_def)

lemma running_finish:
  "running v prog (insert i V) s \<Longrightarrow> i \<notin> V \<Longrightarrow> dty_at v prog i = Some t \<Longrightarrow> value_typed w t \<Longrightarrow>
   running v prog V (s\<lparr>visiting := bset_remove i (visiting s), memo := bmap_insert i w (memo s)\<rparr>)"
  by (auto simp: running_def memo_typed_def simp del: split_paired_Ex)

lemma define_value_outcome:
  assumes p: "program_typed v prog params" and ev: "ev_typed v prog I ev" and "I s"
    and t: "dty_at v prog i = Some t"
  shows "outcome (\<lambda>(w, s'). value_typed w t \<and> I s') evaluation_errors (define_value prog params ev i s)"
proof -
  from t obtain def oid where d: "bmap_get (vals prog) i = Some def" "v_origin def = OperationOrigin oid"
      "t = eval_type v (v_ty def)"
    by (auto simp: dty_at_def split: option.split_asm value_origin.split_asm)
  with p obtain op where op: "bmap_get (operations prog) oid = Some op" "definition_typed v prog params i op t"
    unfolding program_typed_def by blast
  consider "op_opcode op = Parameter" | "op_opcode op = Constant"
    | "op_opcode op \<noteq> Parameter" "op_opcode op \<noteq> Constant" by blast
  then show ?thesis
  proof cases
    case 1
    with op obtain w where w: "bmap_get params i = Some w" by (auto simp: definition_typed_def)
    with p t have "value_typed w t" unfolding program_typed_def by (metis option.sel)
    with 1 d(1,2) op(1) w assms(3) show ?thesis by (simp add: define_value_def)
  next
    case 2
    with op d(1,2) assms(3) show ?thesis
      by (auto simp: definition_typed_def constant_typed_def define_value_def)
  next
    case 3
    with op have "operation_typed (value_dty v prog) op t" by (simp add: definition_typed_def)
    from eval_operation_outcome [OF ev assms(3) this 3] 3 d(1,2) op(1) show ?thesis
      by (cases "op_opcode op") (simp_all add: define_value_def)
  qed
qed

lemma eval_value_outcome:
  assumes p: "program_typed v prog params"
  shows "value_dty v prog i = Some t \<Longrightarrow> running v prog V s \<Longrightarrow> unvisited prog V < fuel \<Longrightarrow>
    outcome (\<lambda>(w, s'). value_typed w t \<and> running v prog V s') evaluation_errors (eval_value prog params fuel i s)"
proof (induction fuel arbitrary: i t s V)
  case (Suc n)
  let ?i = "resolve_filled_value prog i"
  have t: "dty_at v prog ?i = Some t" using Suc.prems(1) by (simp add: value_dty_def)
  have ok: "memo_typed v prog s" and vis: "set (visiting s) = V" using Suc.prems(2) by (simp_all add: running_def)
  show ?case
  proof (cases "bmap_get (memo s) ?i")
    case (Some w)
    with ok t have "value_typed w t" unfolding memo_typed_def by (metis option.sel)
    with Some Suc.prems(2) show ?thesis by (simp add: eval_value_hit)
  next
    case memo: None
    show ?thesis
    proof (cases "bmap_get params ?i")
      case (Some w)
      with p t have "value_typed w t" unfolding program_typed_def by (metis option.sel)
      with Some memo Suc.prems(2) show ?thesis by (simp add: eval_value_hit)
    next
      case None
      show ?thesis
      proof (cases "?i \<in> V")
        case True
        with memo None vis show ?thesis
          by (simp add: eval_value_miss bset_contains_def evaluation_errors_def Let_def)
      next
        case False
        have "bmap_get (vals prog) ?i \<noteq> None" using t by (auto simp: dty_at_def split: option.split_asm)
        from unvisited_insert [OF this False] Suc.prems(3)
        have less: "unvisited prog (insert ?i V) < n" by simp
        have "ev_typed v prog (running v prog (insert ?i V)) (eval_value prog params n)"
          unfolding ev_typed_def using Suc.IH less by blast
        note def = define_value_outcome [OF p this running_start [OF Suc.prems(2)] t]
        have "\<not> bset_contains (visiting s) ?i" using False vis by (simp add: bset_contains_def)
        then show ?thesis
          unfolding eval_value_miss [OF memo None] Let_def
          by (auto intro!: outcome_rbind [OF def] running_finish [OF _ False t])
      qed
    qed
  qed
qed simp

end
