(* ===== verification/Examples.thy ===== *)
theory Examples
  imports Workspace_Proofs Interpreter_Types "HOL-Library.Code_Target_Numeral"
begin

text \<open>
  Concrete inputs on which the theorems of the development are exercised: encoders, a
  workspace, a transaction that builds and freezes a vector addition, and an evaluation of the
  frozen program. The code equations of the integers are those of \<open>Code_Target_Numeral\<close>.
\<close>

subsection \<open>A vector addition\<close>

definition example_encoders :: encoders where
  "example_encoders =
     \<lparr>encode_attributes = (\<lambda>_. ''{}''), encode_program = (\<lambda>_. ''{}''),
      encode_canonical = (\<lambda>_. ''{}''), sha256_hex = (\<lambda>s. s)\<rparr>"

definition example_start :: workspace where
  "example_start = projr (workspace_with_limits_at example_encoders ''w'' default_limits 0)"

text \<open>
  The operands have extents \<open>N\<close> and \<open>M\<close>; the addition is conditional until the constraint
  \<open>N = M\<close> discharges its shape obligation.
\<close>

definition example_actions :: "action list" where
  "example_actions =
     [DefineDimension None ''N'' [], DefineDimension None ''M'' [],
      CreateParameter ''$x'' ''x'' (Tensor I32 [Symbol ''N'']),
      CreateParameter ''$y'' ''y'' (Tensor I32 [Symbol ''M'']),
      CreateOp ''$s'' ''add'' [''$x'', ''$y''] [] None,
      AddConstraint (Equal [Symbol ''N''] [Symbol ''M'']),
      SetOutput ''s'' ''$s'', FreezeSpec]"

definition example_transaction :: transaction where
  "example_transaction =
     \<lparr>tx_workspace = ''w'', base_revision = ''r0'', tx_actions = example_actions,
      client_transaction_id = None, allow_branch = False\<rparr>"

definition example_commit :: "workspace \<times> commit_result" where
  "example_commit =
     projr (apply_with_semantics_at example_encoders example_start example_transaction core_semantics 0)"

lemma is_ok_projr: "is_ok r \<Longrightarrow> r = Inr (projr r)"
  by (cases r) simp_all

lemma example_start_ok:
  "workspace_with_limits_at example_encoders ''w'' default_limits 0 = Inr example_start"
  unfolding example_start_def by (rule is_ok_projr) code_simp

lemma example_commit_ok:
  "apply_with_semantics_at example_encoders example_start example_transaction core_semantics 0 =
   Inr (fst example_commit, snd example_commit)"
  unfolding prod.collapse example_commit_def by (rule is_ok_projr) code_simp

lemma example_commit_reachable: "reachable example_encoders (fst example_commit)"
  by (rule reachable.transact [OF reachable.create [OF example_start_ok] example_commit_ok])

text \<open>A branch from the frozen revision: \<open>fork_revision\<close> is the only action it admits.\<close>

definition example_branch_transaction :: transaction where
  "example_branch_transaction =
     \<lparr>tx_workspace = ''w'', base_revision = ''r1'', tx_actions = [ForkRevision],
      client_transaction_id = None, allow_branch = False\<rparr>"

definition example_branch :: "workspace \<times> commit_result" where
  "example_branch =
     projr (apply_with_semantics_at example_encoders (fst example_commit) example_branch_transaction
              core_semantics 0)"

lemma example_branch_ok:
  "apply_with_semantics_at example_encoders (fst example_commit) example_branch_transaction core_semantics 0 =
   Inr (fst example_branch, snd example_branch)"
  unfolding prod.collapse example_branch_def by (rule is_ok_projr) code_simp

definition example_program :: program where
  "example_program = rev_program (projr (get_revision (fst example_commit) ''r1''))"

lemma example_revision_ok: "is_ok (get_revision (fst example_commit) ''r1'')"
  by code_simp

definition example_inputs :: "(string, json) bmap" where
  "example_inputs =
     [(''x'', JArray [json_int 1, json_int 2]), (''y'', JArray [json_int 3, json_int 4])]"

lemma example_evaluates:
  "evaluate example_program example_inputs =
     Inr \<lparr>result_outputs = [(''s'', JArray [json_int 4, json_int 6])],
          result_dimensions = [(''M'', 2), (''N'', 2)]\<rparr>"
  by code_simp

subsection \<open>Facts, types and regions\<close>

definition example_facts :: constraint_facts where
  "example_facts = projr (facts_of [(''N'', False), (''M'', False)] [Equal [Symbol ''N''] [Symbol ''M'']])"

lemma example_facts_ok:
  "facts_of [(''N'', False), (''M'', False)] [Equal [Symbol ''N''] [Symbol ''M'']] = Inr example_facts"
  unfolding example_facts_def by (rule is_ok_projr) code_simp

lemma example_facts_inv: "facts_inv example_facts"
  by (rule facts_of_inv(1) [OF example_facts_ok])

lemma example_facts_admit: "admits example_facts (\<lambda>_. 2)"
  by (simp add: admits_def facts_of_inv(2) [OF example_facts_ok])

abbreviation vec_n :: ty where "vec_n \<equiv> Tensor I32 [Symbol ''N'']"
abbreviation vec_m :: ty where "vec_m \<equiv> Tensor I32 [Symbol ''M'']"

definition example_square :: region where
  "example_square =
     \<lparr>rg_arguments = [\<lparr>arg_name = ''a'', arg_ty = Scalar I32\<rparr>], rg_captures = [],
      rg_operations = [\<lparr>ro_result = ''$s'', ro_opcode = Mul, ro_operands = [Argument ''a'', Argument ''a''],
                        ro_attributes = [], ro_result_type = Scalar I32\<rparr>],
      rg_yield_value = Local ''$s'', rg_yield_type = Scalar I32\<rparr>"

definition example_square_spec :: region_spec where
  "example_square_spec =
     \<lparr>rs_arguments = [\<lparr>ras_name = ''a'', ras_ty = Scalar I32\<rparr>], rs_captures = [],
      rs_operations = [\<lparr>ros_bind = ''$s'', ros_opcode = ''mul'', ros_operands = [''a'', ''a''], ros_attributes = []\<rparr>],
      rs_yield_value = ''$s''\<rparr>"

end
