(* ===== verification/Region_Typing.thy ===== *)
theory Region_Typing
  imports Workspace_Proofs Interpreter_Types
begin

text \<open>
  Regions built by a transaction are typed. A region whose captures are scalars computes with
  scalars only, so the inference of its body leaves no debt, with or without facts: the region
  that \<open>build_region\<close> returns is typed for the element types of the operands it was checked
  against, under every valuation.
\<close>

subsection \<open>Inference on scalars\<close>

lemma compatible_scalars: "compatible_types facts (Scalar a) (Scalar b) = Inr x \<Longrightarrow> a = b"
  by (auto simp: compatible_types_def same_type_def same_type_with_facts_def rmap_Inr_iff
      split: option.split_asm if_split_asm)

lemma condition_scalar: "select_condition facts (Scalar c) b = Inr (True, x) \<Longrightarrow> c = Bool"
  by (cases c) (auto simp: select_condition_def)

lemma infer_scalars:
  assumes inf: "infer_primitive_impl facts op (map Scalar es) attrs = Inr i"
  shows "\<exists>e. inf_ty i = Scalar e \<and> prim_typing op attrs (map (\<lambda>e. (e, None)) es) (e, None)"
proof -
  have arith: ?thesis if i: "infer_arithmetic facts op (map Scalar es) = Inr i" and op: "op \<in> {Add, Sub, Mul, Div}"
    using i by (elim infer_arithmetic_Inr)
      (use op in \<open>auto dest!: compatible_scalars simp: prim_typing_arith eq_commute [of _ "inf_ty i"]\<close>)
  show ?thesis
  proof (cases op)
    case Fma
    with inf have "infer_fma facts (map Scalar es) = Inr i" by (simp add: infer_primitive_impl_def)
    with Fma show ?thesis
      by (elim infer_fma_Inr) (auto dest!: compatible_scalars simp: prim_typing_fma eq_commute [of _ "inf_ty i"])
  next
    case Compare
    with inf have "infer_compare facts (map Scalar es) = Inr i" by (simp add: infer_primitive_impl_def)
    with Compare show ?thesis
      by (elim infer_compare_Inr) (auto dest!: compatible_scalars simp: prim_typing_compare_iff)
  next
    case Select
    with inf have "infer_select facts (map Scalar es) = Inr i" by (simp add: infer_primitive_impl_def)
    with Select show ?thesis
      by (elim infer_select_Inr)
         (auto dest!: compatible_scalars condition_scalar simp: prim_typing_select selects_def eq_commute [of _ "inf_ty i"])
  next
    case Cast
    with inf have c: "infer_cast (map Scalar es) attrs = Inr i" by (simp add: infer_primitive_impl_def)
    then show ?thesis unfolding Cast
      by (elim infer_cast_Inr)
         (auto simp: legal_inference_def prim_typing_cast_iff)
  qed (use inf arith in \<open>simp_all add: infer_primitive_impl_def\<close>)
qed

lemma infer_operation_scalars:
  "infer_operation facts op (map Scalar es) attrs = Inr i \<Longrightarrow>
   \<exists>e. inf_ty i = Scalar e \<and> prim_typing op attrs (map (\<lambda>e. (e, None)) es) (e, None)"
  by (cases facts)
     (auto simp: infer_operation_def infer_primitive_def infer_primitive_with_facts_def dest: infer_scalars)

subsection \<open>Scalar environments\<close>

definition scalar_env :: "(string, ty) bmap \<Rightarrow> type_env \<Rightarrow> bool" where
  "scalar_env m t \<longleftrightarrow> (\<forall>k. bmap_get m k = map_option Scalar (bmap_get t k))"

lemma scalar_env_empty [simp]: "scalar_env [] []"
  by (simp add: scalar_env_def)

lemma scalar_env_insert: "scalar_env m t \<Longrightarrow> scalar_env (bmap_insert k (Scalar e) m) (bmap_insert k e t)"
  by (simp add: scalar_env_def)

lemma scalar_env_get: "scalar_env m t \<Longrightarrow> bmap_get m k = Some s \<Longrightarrow> \<exists>e. s = Scalar e \<and> bmap_get t k = Some e"
  by (auto simp: scalar_env_def)

lemma check_argument_Inr:
  "check_argument m (a, t) = Inr m' \<Longrightarrow> ras_ty a = t \<and> m' = bmap_insert (ras_name a) t m"
  by (auto simp: check_argument_def split: if_split_asm)

lemma check_arguments_env:
  "rfold check_argument m (zip args (map Scalar es)) = Inr m' \<Longrightarrow> length args = length es \<Longrightarrow>
   scalar_env m t \<Longrightarrow>
   scalar_env m' (fold (\<lambda>(k, v). bmap_insert k v) (zip (map ras_name args) es) t)"
proof (induction args arbitrary: es m t)
  case (Cons a args)
  then obtain e es' where es: "es = e # es'" by (cases es) auto
  with Cons.prems(1) have "ras_ty a = Scalar e"
      "rfold check_argument (bmap_insert (ras_name a) (ras_ty a) m) (zip args (map Scalar es')) = Inr m'"
    by (auto simp: rbind_Inr_iff dest!: check_argument_Inr)
  with Cons.IH [of "bmap_insert (ras_name a) (Scalar e) m" es' "bmap_insert (ras_name a) e t"] Cons.prems es
  show ?case by (simp add: scalar_env_insert)
qed simp

text \<open>The captured values, by identifier.\<close>

lemma check_captures_listed:
  assumes "rfold (check_capture prog bs) ([], []) refs = Inr (by_ref, caps)"
  shows "bmap_get by_ref r = Some c \<Longrightarrow> c \<in> set caps"
proof -
  have "\<forall>r c. bmap_get (fst (by_ref, caps)) r = Some c \<longrightarrow> c \<in> set (snd (by_ref, caps))"
    by (rule rfold_invariant [OF assms])
       (auto simp: check_capture_def rbind_Inr_iff split: if_split_asm)
  then show "bmap_get by_ref r = Some c \<Longrightarrow> c \<in> set caps" by simp
qed

definition value_element :: "program \<Rightarrow> string \<Rightarrow> scalar_type" where
  "value_element prog c = element_type (v_ty (the (bmap_get (vals prog) c)))"

definition scalar_value_of :: "program \<Rightarrow> string \<Rightarrow> bool" where
  "scalar_value_of prog c \<longleftrightarrow> (\<exists>def e. bmap_get (vals prog) c = Some def \<and> v_ty def = Scalar e)"

lemma scalar_value_of_code [code]:
  "scalar_value_of prog c \<longleftrightarrow>
     (case bmap_get (vals prog) c of None \<Rightarrow> False
      | Some def \<Rightarrow> (case v_ty def of Scalar _ \<Rightarrow> True | Tensor _ _ \<Rightarrow> False))"
  by (auto simp: scalar_value_of_def split: option.split ty.split)

lemma bmap_of_list_graph: "c \<in> set xs \<Longrightarrow> bmap_get (bmap_of_list (zip xs (map f xs))) c = Some (f c)"
proof -
  assume "c \<in> set xs"
  moreover have "rev (zip xs (map f xs)) = map (\<lambda>x. (x, f x)) (rev xs)"
    by (simp add: zip_map2 zip_same_conv_map rev_map)
  moreover have "map_of (map (\<lambda>x. (x, f x)) ys) c = Some (f c)" if "c \<in> set ys" for ys
    using that by (induction ys) auto
  ultimately show ?thesis by (simp add: bmap_get_of_list)
qed

subsection \<open>The region builder\<close>

text \<open>What the tables of the builder mean for a region whose captures are scalars.\<close>

definition region_tables ::
    "program \<Rightarrow> (string, ty) bmap \<Rightarrow> (string, string) bmap \<Rightarrow> string list \<Rightarrow> type_env \<Rightarrow> bool" where
  "region_tables prog arguments by_ref caps targs \<longleftrightarrow>
     scalar_env arguments targs \<and> (\<forall>r c. bmap_get by_ref r = Some c \<longrightarrow> c \<in> set caps) \<and>
     (\<forall>c\<in>set caps. scalar_value_of prog c)"

definition capture_env :: "program \<Rightarrow> string list \<Rightarrow> type_env" where
  "capture_env prog caps = bmap_of_list (zip caps (map (value_element prog) caps))"

lemma resolved_scalar:
  assumes tables: "region_tables prog arguments by_ref caps targs"
    and "resolve_region_value prog arguments by_ref locals reference = Inr (rv, t)" "scalar_env locals lt"
  shows "\<exists>e. t = Scalar e \<and> reference_type targs lt (capture_env prog caps) rv = Some e"
proof -
  consider (arg) "bmap_get arguments reference = Some t" "rv = Argument reference"
    | (local) "bmap_get locals reference = Some t" "rv = Local reference"
    | (capture) c where "bmap_get by_ref reference = Some c" "value_type prog c = Inr t" "rv = Capture c"
    using assms(2)
    by (auto simp: resolve_region_value_def rmap_Inr_iff split: option.split_asm)
  then show ?thesis
  proof cases
    case arg
    with scalar_env_get tables show ?thesis by (fastforce simp: reference_type_def region_tables_def)
  next
    case local
    with scalar_env_get [OF assms(3)] show ?thesis by (fastforce simp: reference_type_def region_tables_def)
  next
    case capture
    from capture(1) tables have listed: "c \<in> set caps" and "scalar_value_of prog c"
      by (auto simp: region_tables_def)
    then obtain d e where "bmap_get (vals prog) c = Some d" "v_ty d = Scalar e"
      by (auto simp: scalar_value_of_def)
    with capture bmap_of_list_graph [OF listed, of "value_element prog"]
    show ?thesis by (auto simp: reference_type_def capture_env_def value_type_def value_element_def ok_or_Inr_iff)
  qed
qed

lemma resolved_scalars:
  "region_tables prog arguments by_ref caps targs \<Longrightarrow>
   traverse (resolve_region_value prog arguments by_ref locals) refs = Inr rs \<Longrightarrow> scalar_env locals lt \<Longrightarrow>
   \<exists>es. map snd rs = map Scalar es \<and>
     list_all2 (\<lambda>x t. reference_type targs lt (capture_env prog caps) x = Some t) (map fst rs) es"
proof (induction refs arbitrary: rs)
  case (Cons ref refs)
  then obtain rv t rs' where r: "resolve_region_value prog arguments by_ref locals ref = Inr (rv, t)"
      "traverse (resolve_region_value prog arguments by_ref locals) refs = Inr rs'" "rs = (rv, t) # rs'"
    by (auto simp: rbind_Inr_iff)
  from resolved_scalar [OF Cons.prems(1) r(1) Cons.prems(3)] Cons.IH [OF Cons.prems(1) r(2) Cons.prems(3)] r(3)
  obtain e es where "map snd rs = map Scalar (e # es)"
      "list_all2 (\<lambda>x t. reference_type targs lt (capture_env prog caps) x = Some t) (map fst rs) (e # es)"
    by auto
  then show ?case by blast
qed simp

lemma built_operation:
  assumes tables: "region_tables prog arguments by_ref caps targs"
    and "build_region_operation prog facts arguments by_ref rb spec = Inr rb'" "scalar_env (rb_locals rb) lt"
  shows "\<exists>r e. rb_operations rb' = rb_operations rb @ [r] \<and>
    scalar_env (rb_locals rb') (bmap_insert (ro_result r) e lt) \<and>
    region_ops_typed targs (capture_env prog caps) lt [r] (bmap_insert (ro_result r) e lt)"
proof -
  from assms(2) obtain op rs i where b: "parse_opcode (ros_opcode spec) = Inr op"
      "traverse (resolve_region_value prog arguments by_ref (rb_locals rb)) (ros_operands spec) = Inr rs"
      "infer_operation facts op (map snd rs) (ros_attributes spec) = Inr i"
      "rb_locals rb' = bmap_insert (ros_bind spec) (inf_ty i) (rb_locals rb)"
      "rb_operations rb' = rb_operations rb @
         [\<lparr>ro_result = ros_bind spec, ro_opcode = op, ro_operands = map fst rs,
           ro_attributes = ros_attributes spec, ro_result_type = inf_ty i\<rparr>]"
    by (auto simp: build_region_operation_def rbind_Inr_iff split: if_split_asm sum.split_asm)
  from resolved_scalars [OF tables b(2) assms(3)] obtain es where es: "map snd rs = map Scalar es"
      "list_all2 (\<lambda>x t. reference_type targs lt (capture_env prog caps) x = Some t) (map fst rs) es" by blast
  from infer_operation_scalars [OF b(3) [unfolded es(1)]] obtain e where e: "inf_ty i = Scalar e"
      "prim_typing op (ros_attributes spec) (map (\<lambda>e. (e, None)) es) (e, None)" by blast
  show ?thesis
    unfolding b(4,5) e(1)
    using es(2) e(2) scalar_env_insert [OF assms(3)] by fastforce
qed

lemma ops_typed_append:
  "region_ops_typed a c l xs m \<Longrightarrow> region_ops_typed a c m ys f \<Longrightarrow> region_ops_typed a c l (xs @ ys) f"
  by (induction xs arbitrary: l) auto

lemma built_operations:
  assumes tables: "region_tables prog arguments by_ref caps targs"
    and "rfold (build_region_operation prog facts arguments by_ref)
      \<lparr>rb_locals = [], rb_operations = [], rb_classification = c, rb_relations = rs\<rparr> specs = Inr rb"
  shows "\<exists>final. region_ops_typed targs (capture_env prog caps) [] (rb_operations rb) final \<and> scalar_env (rb_locals rb) final"
  by (rule rfold_invariant [OF assms(2)]) (use built_operation [OF tables] in \<open>fastforce intro: ops_typed_append\<close>)+

text \<open>Every region that is built instantiates the context with its own tables.\<close>

lemma build_region_typed:
  assumes b: "build_region op spec types prog bs facts = Inr (rg, cls, rels)"
    and expected: "expected_region_arguments op types = Inr (map Scalar es)"
    and scalars: "\<And>c. c \<in> set (rg_captures rg) \<Longrightarrow> scalar_value_of prog c"
    and look: "\<And>c def. bmap_get (vals prog) c = Some def \<Longrightarrow> look c = Some (eval_type v (v_ty def))"
  shows "\<exists>y. region_typed look es rg y \<and> rg_yield_type rg = Scalar y"
proof -
  from b expected obtain arguments by_ref rb where r: "length (rs_arguments spec) = length es"
      "rfold check_argument [] (zip (rs_arguments spec) (map Scalar es)) = Inr arguments"
      "rfold (check_capture prog bs) ([], []) (rs_captures spec) = Inr (by_ref, rg_captures rg)"
      "rfold (build_region_operation prog facts arguments by_ref)
         \<lparr>rb_locals = [], rb_operations = [], rb_classification = Legal, rb_relations = []\<rparr>
         (rs_operations spec) = Inr rb"
      "resolve_region_value prog arguments by_ref (rb_locals rb) (rs_yield_value spec) =
         Inr (rg_yield_value rg, rg_yield_type rg)"
      "rg_arguments rg = map (\<lambda>a. \<lparr>arg_name = ras_name a, arg_ty = ras_ty a\<rparr>) (rs_arguments spec)"
      "rg_operations rg = rb_operations rb"
    by (auto simp: build_region_def rbind_Inr_iff split: if_split_asm)
  let ?targs = "bmap_of_list (zip (map arg_name (rg_arguments rg)) es)"
  have "map arg_name (rg_arguments rg) = map ras_name (rs_arguments spec)" by (simp add: r(6))
  then have "scalar_env arguments ?targs"
    using check_arguments_env [OF r(2,1) scalar_env_empty] by (simp add: bmap_of_list_def)
  then have tables: "region_tables prog arguments by_ref (rg_captures rg) ?targs"
    using scalars check_captures_listed [OF r(3)] unfolding region_tables_def by blast
  from built_operations [OF tables r(4)] obtain final
    where ops: "region_ops_typed ?targs (capture_env prog (rg_captures rg)) [] (rg_operations rg) final"
      and env: "scalar_env (rb_locals rb) final" by (auto simp: r(7))
  from resolved_scalar [OF tables r(5) env] obtain y
    where y: "rg_yield_type rg = Scalar y"
      "reference_type ?targs final (capture_env prog (rg_captures rg)) (rg_yield_value rg) = Some y" by blast
  have "list_all2 (\<lambda>c t. look c = Some (t, None)) (rg_captures rg) (map (value_element prog) (rg_captures rg))"
    using scalars look by (fastforce simp: list_all2_map2 list_all2_same scalar_value_of_def value_element_def)
  with ops y show ?thesis
    by (auto simp: region_typed_def capture_env_def)
qed

end
