(* ===== verification/Graph_Typing.thy ===== *)
theory Graph_Typing
  imports Region_Typing
begin

text \<open>
  Well-formed and well-typed program graphs. A graph is well formed when its identifiers come
  from the allocator and every reference of an entry exists; it is typed at a valuation when
  every operation follows the declarative rules for the declared types of its operands and
  every filled hole has the extents of its value. \<open>assumptions_hold\<close> collects what a
  specification asks of the dimensions: its constraints, those of its holes, and the
  shape obligations that are still open.
\<close>

subsection \<open>Identifiers below a counter\<close>

definition ids_below :: "string \<Rightarrow> nat \<Rightarrow> (string, 'a) bmap \<Rightarrow> bool" where
  "ids_below p n m \<longleftrightarrow> (\<forall>k. bmap_contains m k \<longrightarrow> (\<exists>j\<le>n. k = p @ show_nat j))"

lemma ids_below_empty [simp]: "ids_below p n []"
  by (simp add: ids_below_def)

lemma ids_below_fresh: "ids_below p n m \<Longrightarrow> \<not> bmap_contains m (p @ show_nat (Suc n))"
  by (auto simp: ids_below_def)

lemma ids_below_insert: "ids_below p n m \<Longrightarrow> ids_below p (Suc n) (bmap_insert (p @ show_nat (Suc n)) x m)"
  by (auto simp: ids_below_def intro: le_SucI)

lemma ids_below_mono: "ids_below p n m \<Longrightarrow> n \<le> n' \<Longrightarrow> ids_below p n' m"
  by (fastforce simp: ids_below_def)

lemma ids_below_same: "ids_below p n m \<Longrightarrow> bmap_contains m k \<Longrightarrow> ids_below p n (bmap_insert k x m)"
  by (auto simp: ids_below_def)

subsection \<open>Well-formed graphs\<close>

definition captures_of :: "operation \<Rightarrow> string list" where
  "captures_of op = (case op_region op of None \<Rightarrow> [] | Some rg \<Rightarrow> rg_captures rg)"

definition graph_ids :: "id_allocator \<Rightarrow> program \<Rightarrow> bool" where
  "graph_ids a prog \<longleftrightarrow>
     ids_below ''v'' (next_value a) (vals prog) \<and> ids_below ''v'' (next_value a) (constants prog) \<and>
     ids_below ''op'' (next_operation a) (operations prog) \<and>
     ids_below ''h'' (next_hole a) (holes prog) \<and> ids_below ''o'' (next_obligation a) (obligations prog) \<and>
     bmap_ok (parameters prog) \<and> bmap_ok (outputs prog)"

text \<open>Every value that an entry of the graph refers to.\<close>

definition references :: "program \<Rightarrow> string set" where
  "references prog =
     {i. \<exists>k op. bmap_get (operations prog) k = Some op \<and> i \<in> set (op_operands op @ captures_of op)} \<union>
     {i. \<exists>name. bmap_get (outputs prog) name = Some i} \<union>
     {i. \<exists>k h. bmap_get (holes prog) k = Some h \<and> (i = placeholder h \<or> filled_with h = Some i)}"

definition hole_values :: "program \<Rightarrow> bool" where
  "hole_values prog \<longleftrightarrow>
     (\<forall>i def k. bmap_get (vals prog) i = Some def \<longrightarrow> v_origin def = HoleOrigin k \<longrightarrow>
        (\<exists>h. bmap_get (holes prog) k = Some h \<and> expected_type h = v_ty def))"

definition parameter_values :: "program \<Rightarrow> bool" where
  "parameter_values prog \<longleftrightarrow>
     (\<forall>name i. bmap_get (parameters prog) name = Some i \<longrightarrow>
        (\<exists>def oid. bmap_get (vals prog) i = Some def \<and> v_origin def = OperationOrigin oid))"

text \<open>
  Operations and values name each other: an operation has one result, whose origin it is. The
  arguments of a region have the element types of the operands, a region yields no value that it
  has not captured, and only constant operations have a literal.
\<close>

definition region_fitted :: "program \<Rightarrow> operation \<Rightarrow> bool" where
  "region_fitted prog op \<longleftrightarrow>
     (case op_region op of
        None \<Rightarrow> True
      | Some rg \<Rightarrow>
          list_all2 (\<lambda>i a. \<exists>def. bmap_get (vals prog) i = Some def \<and> arg_ty a = Scalar (element_type (v_ty def)))
            (op_operands op) (rg_arguments rg) \<and>
          (case rg_yield_value rg of Capture i \<Rightarrow> i \<in> set (rg_captures rg) | _ \<Rightarrow> True))"

definition linked :: "program \<Rightarrow> bool" where
  "linked prog \<longleftrightarrow>
     bmap_ok (vals prog) \<and>
     (\<forall>oid op. bmap_get (operations prog) oid = Some op \<longrightarrow> region_fitted prog op \<and>
        (\<exists>i def. op_results op = [i] \<and> bmap_get (vals prog) i = Some def \<and> v_origin def = OperationOrigin oid)) \<and>
     (\<forall>i def oid. bmap_get (vals prog) i = Some def \<longrightarrow> v_origin def = OperationOrigin oid \<longrightarrow>
        (\<exists>op. bmap_get (operations prog) oid = Some op \<and> op_results op = [i])) \<and>
     (\<forall>i c. bmap_get (constants prog) i = Some c \<longrightarrow>
        (\<exists>def oid op. bmap_get (vals prog) i = Some def \<and> v_origin def = OperationOrigin oid \<and>
           bmap_get (operations prog) oid = Some op \<and> op_opcode op = Constant))"

definition graph_wf :: "id_allocator \<Rightarrow> program \<Rightarrow> bool" where
  "graph_wf a prog \<longleftrightarrow>
     graph_ids a prog \<and> (\<forall>i\<in>references prog. bmap_contains (vals prog) i) \<and>
     hole_values prog \<and> parameter_values prog \<and> linked prog"

lemma graph_wfD:
  assumes "graph_wf a prog"
  shows "graph_ids a prog" "hole_values prog" "parameter_values prog"
    and "i \<in> references prog \<Longrightarrow> bmap_contains (vals prog) i"
  using assms by (simp_all add: graph_wf_def)

lemma graph_wf_linked: "graph_wf a prog \<Longrightarrow> linked prog"
  by (simp add: graph_wf_def)

lemma region_fitted_mono:
  "region_fitted p op \<Longrightarrow> (\<And>i d. bmap_get (vals p) i = Some d \<Longrightarrow> bmap_get (vals q) i = Some d) \<Longrightarrow> region_fitted q op"
  by (cases "op_region op") (auto simp: region_fitted_def elim!: list.rel_mono_strong)

lemma region_fitted_same: "vals q = vals p \<Longrightarrow> region_fitted q op \<longleftrightarrow> region_fitted p op"
  by (cases "op_region op") (simp_all add: region_fitted_def)

lemma linked_same:
  "vals q = vals p \<Longrightarrow> operations q = operations p \<Longrightarrow> constants q = constants p \<Longrightarrow> linked q \<longleftrightarrow> linked p"
  unfolding linked_def by (simp add: region_fitted_same [of q p])

subsection \<open>What a specification assumes of its dimensions\<close>

definition open_debt_holds :: "valuation \<Rightarrow> proof_obligation \<Rightarrow> bool" where
  "open_debt_holds v ob \<longleftrightarrow>
     (ob_kind ob = ShapeCompatible \<longrightarrow> ob_status ob = ObOpen \<longrightarrow>
        (\<exists>p. shape_compatibility ob = Some p \<and> eval_type v (left_type p) = eval_type v (right_type p)))"

definition assumptions_hold :: "valuation \<Rightarrow> program \<Rightarrow> bool" where
  "assumptions_hold v prog \<longleftrightarrow>
     (\<forall>c\<in>set (constraints prog). satisfies v c) \<and>
     (\<forall>k h. bmap_get (holes prog) k = Some h \<longrightarrow> (\<forall>c\<in>set (shape_constraints h). satisfies v c)) \<and>
     (\<forall>k ob. bmap_get (obligations prog) k = Some ob \<longrightarrow> open_debt_holds v ob)"

subsection \<open>Typed graphs\<close>

definition declared_dty :: "valuation \<Rightarrow> program \<Rightarrow> string \<Rightarrow> dty option" where
  "declared_dty v prog i = map_option (\<lambda>def. eval_type v (v_ty def)) (bmap_get (vals prog) i)"

definition scalar_captures :: "program \<Rightarrow> operation \<Rightarrow> bool" where
  "scalar_captures prog op \<longleftrightarrow> (\<forall>c\<in>set (captures_of op). scalar_value_of prog c)"

definition definition_ok :: "valuation \<Rightarrow> program \<Rightarrow> string \<Rightarrow> operation \<Rightarrow> dty \<Rightarrow> bool" where
  "definition_ok v prog i op t \<longleftrightarrow>
     (if op_opcode op = Parameter then \<exists>name. bmap_get (parameters prog) name = Some i
      else if op_opcode op = Constant then \<exists>c. bmap_get (constants prog) i = Some c \<and> constant_typed c t
      else scalar_captures prog op \<longrightarrow> operation_typed (declared_dty v prog) op t)"

definition value_ok :: "valuation \<Rightarrow> program \<Rightarrow> string \<Rightarrow> value_def \<Rightarrow> bool" where
  "value_ok v prog i def \<longleftrightarrow>
     (case v_origin def of
        OperationOrigin oid \<Rightarrow>
          \<exists>op. bmap_get (operations prog) oid = Some op \<and> definition_ok v prog i op (eval_type v (v_ty def))
      | HoleOrigin k \<Rightarrow>
          \<forall>h w. bmap_get (holes prog) k = Some h \<longrightarrow> filled_with h = Some w \<longrightarrow>
            declared_dty v prog w = Some (eval_type v (v_ty def)))"

definition graph_typed :: "valuation \<Rightarrow> program \<Rightarrow> bool" where
  "graph_typed v prog \<longleftrightarrow> (\<forall>i def. bmap_get (vals prog) i = Some def \<longrightarrow> value_ok v prog i def)"

text \<open>Typing depends on the types of the operands and captures only, and they never change.\<close>

lemma region_typed_mono:
  assumes "region_typed look es rg y" "\<And>c t. look c = Some t \<Longrightarrow> look' c = Some t"
  shows "region_typed look' es rg y"
proof -
  from assms(1) obtain cts final where
    "list_all2 (\<lambda>c t. look c = Some (t, None)) (rg_captures rg) cts"
    "region_ops_typed (bmap_of_list (zip (map arg_name (rg_arguments rg)) es))
        (bmap_of_list (zip (rg_captures rg) cts)) [] (rg_operations rg) final"
    "reference_type (bmap_of_list (zip (map arg_name (rg_arguments rg)) es)) final
          (bmap_of_list (zip (rg_captures rg) cts)) (rg_yield_value rg) = Some y"
    "element_type (rg_yield_type rg) = y"
    unfolding region_typed_def by blast
  moreover from this(1) have "list_all2 (\<lambda>c t. look' c = Some (t, None)) (rg_captures rg) cts"
    by (rule list_all2_mono) (rule assms(2))
  ultimately show ?thesis unfolding region_typed_def by blast
qed

lemma operation_typed_mono:
  assumes "operation_typed look op t" "\<And>c t. look c = Some t \<Longrightarrow> look' c = Some t"
  shows "operation_typed look' op t"
proof -
  from assms(1) obtain ts where ts: "list_all2 (\<lambda>i t. look i = Some t) (op_operands op) ts"
    and r: "if op_opcode op \<in> {Map, ZipMap, Reduce}
         then \<exists>rg y n. op_region op = Some rg \<and> higher_typing (op_opcode op) n y ts t \<and>
                region_typed look (map fst ts) rg y
         else prim_typing (op_opcode op) (op_attributes op) ts t"
    unfolding operation_typed_def by blast
  from ts have ts': "list_all2 (\<lambda>i t. look' i = Some t) (op_operands op) ts"
    by (rule list_all2_mono) (rule assms(2))
  show ?thesis
  proof (cases "op_opcode op \<in> {Map, ZipMap, Reduce}")
    case True
    with r obtain rg y n where "op_region op = Some rg" "higher_typing (op_opcode op) n y ts t"
        "region_typed look (map fst ts) rg y" by auto
    moreover from region_typed_mono [OF this(3) assms(2)] have "region_typed look' (map fst ts) rg y" .
    ultimately show ?thesis using ts' True unfolding operation_typed_def by auto
  next
    case False
    with r ts' show ?thesis unfolding operation_typed_def by auto
  qed
qed

text \<open>A later graph keeps the entries of an earlier one.\<close>

definition extends_graph :: "program \<Rightarrow> program \<Rightarrow> bool" where
  "extends_graph prog prog' \<longleftrightarrow>
     (\<forall>i def. bmap_get (vals prog) i = Some def \<longrightarrow> bmap_get (vals prog') i = Some def) \<and>
     (\<forall>k op. bmap_get (operations prog) k = Some op \<longrightarrow> bmap_get (operations prog') k = Some op) \<and>
     (\<forall>i c. bmap_get (constants prog) i = Some c \<longrightarrow> bmap_get (constants prog') i = Some c) \<and>
     (\<forall>n i. bmap_get (parameters prog) n = Some i \<longrightarrow> bmap_get (parameters prog') n = Some i)"

lemma extends_declared: "extends_graph p p' \<Longrightarrow> declared_dty v p i = Some t \<Longrightarrow> declared_dty v p' i = Some t"
  by (auto simp: extends_graph_def declared_dty_def)

lemma extends_scalar:
  "extends_graph p p' \<Longrightarrow> bmap_contains (vals p) c \<Longrightarrow> scalar_value_of p' c \<longleftrightarrow> scalar_value_of p c"
  by (auto simp: extends_graph_def scalar_value_of_def bmap_contains_def)

lemma extends_definition:
  assumes ext: "extends_graph p p'" and d: "definition_ok v p i op t"
    and caps: "\<And>c. c \<in> set (captures_of op) \<Longrightarrow> bmap_contains (vals p) c"
  shows "definition_ok v p' i op t"
proof -
  consider "op_opcode op = Parameter" | "op_opcode op = Constant"
    | "op_opcode op \<noteq> Parameter" "op_opcode op \<noteq> Constant" by blast
  then show ?thesis
  proof cases
    case 1
    with d obtain n where "bmap_get (parameters p) n = Some i" by (auto simp: definition_ok_def)
    with 1 ext show ?thesis unfolding definition_ok_def extends_graph_def by fastforce
  next
    case 2
    with d obtain c where "bmap_get (constants p) i = Some c" "constant_typed c t"
      by (auto simp: definition_ok_def)
    with 2 ext show ?thesis unfolding definition_ok_def extends_graph_def by fastforce
  next
    case 3
    have "scalar_captures p' op \<longleftrightarrow> scalar_captures p op"
      using extends_scalar [OF ext caps] by (simp add: scalar_captures_def)
    moreover have "operation_typed (declared_dty v p) op t \<Longrightarrow> operation_typed (declared_dty v p') op t"
      by (erule operation_typed_mono) (rule extends_declared [OF ext])
    ultimately show ?thesis using 3 d unfolding definition_ok_def by simp
  qed
qed

text \<open>Holes may be filled as well, when the new value has the extents of the hole.\<close>

lemma graph_typed_extend:
  assumes wf: "graph_wf a p" and ext: "extends_graph p p'" and t: "graph_typed v p"
    and new: "\<And>i def. bmap_get (vals p') i = Some def \<Longrightarrow> \<not> bmap_contains (vals p) i \<Longrightarrow> value_ok v p' i def"
    and filled: "\<And>i def k h' w. bmap_get (vals p) i = Some def \<Longrightarrow> v_origin def = HoleOrigin k \<Longrightarrow>
        bmap_get (holes p') k = Some h' \<Longrightarrow> filled_with h' = Some w \<Longrightarrow>
        (\<exists>h. bmap_get (holes p) k = Some h \<and> filled_with h = Some w) \<or>
        declared_dty v p' w = Some (eval_type v (v_ty def))"
  shows "graph_typed v p'"
  unfolding graph_typed_def
proof (intro allI impI)
  fix i def assume d: "bmap_get (vals p') i = Some def"
  show "value_ok v p' i def"
  proof (cases "bmap_get (vals p) i")
    case None
    with new d show ?thesis by (simp add: bmap_contains_def)
  next
    case (Some def')
    with ext d have i: "bmap_get (vals p) i = Some def" by (auto simp: extends_graph_def)
    with t have ok: "value_ok v p i def" by (simp add: graph_typed_def)
    show ?thesis
    proof (cases "v_origin def")
      case (OperationOrigin oid)
      with ok obtain op where op: "bmap_get (operations p) oid = Some op"
          "definition_ok v p i op (eval_type v (v_ty def))" by (auto simp: value_ok_def)
      have "c \<in> set (captures_of op) \<Longrightarrow> bmap_contains (vals p) c" for c
        by (rule graph_wfD(4) [OF wf]) (use op(1) in \<open>auto simp: references_def\<close>)
      from extends_definition [OF ext op(2) this] op(1) ext OperationOrigin show ?thesis
        unfolding value_ok_def extends_graph_def by auto
    next
      case (HoleOrigin k)
      have "declared_dty v p' w = Some (eval_type v (v_ty def))"
        if h: "bmap_get (holes p') k = Some h'" "filled_with h' = Some w" for h' w
        using filled [OF i HoleOrigin h]
      proof
        assume "\<exists>h. bmap_get (holes p) k = Some h \<and> filled_with h = Some w"
        with ok HoleOrigin have "declared_dty v p w = Some (eval_type v (v_ty def))"
          by (auto simp: value_ok_def)
        then show ?thesis by (rule extends_declared [OF ext])
      qed
      with HoleOrigin show ?thesis by (simp add: value_ok_def)
    qed
  qed
qed

end
