(* ===== verification/Float_Proofs.thy ===== *)
theory Float_Proofs
  imports Floats Complex_Main
begin

text \<open>
  Rounding is correct: the result of \<open>fp_round\<close> is a canonical number of its format, the nearest
  one to the exact ratio with ties to even, or infinite from the overflow threshold on. Every
  operation of the interpreter rounds an exact result once, so its results are correctly rounded.
\<close>

subsection \<open>The binary logarithm of a ratio\<close>

lemma bit_len_pos: "0 < n \<Longrightarrow> 0 < bit_len n"
  by (subst bit_len.simps) simp

lemma bit_len_bounds: "0 < n \<Longrightarrow> 2 ^ (bit_len n - 1) \<le> n \<and> n < 2 ^ bit_len n"
proof (induction n rule: bit_len.induct)
  case (1 n)
  show ?case
  proof (cases "n = 1")
    case True
    then show ?thesis by (simp add: bit_len.simps [of "Suc 0"] bit_len.simps [of 0])
  next
    case False
    with 1 have ih: "2 ^ (bit_len (n div 2) - 1) \<le> n div 2" "n div 2 < 2 ^ bit_len (n div 2)"
      and p: "0 < bit_len (n div 2)"
      by (auto intro!: bit_len_pos)
    have "bit_len n = Suc (bit_len (n div 2))" using 1(2) by (subst bit_len.simps) simp
    moreover have "2 * 2 ^ (bit_len (n div 2) - 1) = (2 :: nat) ^ bit_len (n div 2)"
      using p by (metis Suc_diff_1 power_Suc)
    ultimately show ?thesis using ih by simp linarith
  qed
qed

lemma scale_ratio:
  "0 < d \<Longrightarrow> real (scale_num n e) / real (scale_den d e) = real n / real d / 2 powi e"
  by (cases "e < 0") (simp_all add: scale_num_def scale_den_def power_int_def field_simps)

lemma scale_den_pos: "0 < d \<Longrightarrow> 0 < scale_den d e"
  by (simp add: scale_den_def)

lemma powi_nat: "0 \<le> k \<Longrightarrow> (2 :: real) powi k = 2 ^ nat k"
  by (simp add: power_int_def)

lemma bit_len_real:
  assumes "0 < n"
  shows "2 powi (int (bit_len n) - 1) \<le> real n" "real n < 2 powi int (bit_len n)"
proof -
  from bit_len_bounds [OF assms] have b: "2 ^ (bit_len n - 1) \<le> n" "n < 2 ^ bit_len n" by simp_all
  from b(1) have "(2 :: real) ^ (bit_len n - 1) \<le> real n" by (metis of_nat_le_iff of_nat_numeral of_nat_power)
  moreover have "nat (int (bit_len n) - 1) = bit_len n - 1" by simp
  ultimately show "2 powi (int (bit_len n) - 1) \<le> real n"
    using bit_len_pos [OF assms] by (simp add: power_int_def)
  from b(2) have "real n < 2 ^ bit_len n" by (metis of_nat_less_iff of_nat_numeral of_nat_power)
  then show "real n < 2 powi int (bit_len n)" by simp
qed

lemma ratio_log2_bounds:
  assumes "0 < n" "0 < d"
  shows "2 powi ratio_log2 n d \<le> real n / real d" "real n / real d < 2 powi (ratio_log2 n d + 1)"
proof -
  let ?k = "int (bit_len n) - int (bit_len d)"
  note n = bit_len_real [OF assms(1)] and d = bit_len_real [OF assms(2)]
  have d0: "0 < real d" using assms by simp
  have up: "real n / real d < 2 powi (?k + 1)"
  proof -
    have "real n < 2 powi (?k + 1) * 2 powi (int (bit_len d) - 1)"
      using n(2) by (simp flip: power_int_add)
    also have "\<dots> \<le> 2 powi (?k + 1) * real d" using d(1) by (intro mult_left_mono) simp_all
    finally show ?thesis using d0 by (simp add: field_simps)
  qed
  have lo: "2 powi (?k - 1) \<le> real n / real d"
  proof -
    have "2 powi (?k - 1) * real d \<le> 2 powi (?k - 1) * 2 powi int (bit_len d)"
      using d(2) by (intro mult_left_mono) simp_all
    also have "\<dots> = 2 powi (int (bit_len n) - 1)" by (simp del: power_int_of_nat flip: power_int_add)
    also have "\<dots> \<le> real n" by (rule n(1))
    finally show ?thesis using d0 by (simp add: field_simps)
  qed
  have split: "scale_den d ?k \<le> scale_num n ?k \<longleftrightarrow> 2 powi ?k \<le> real n / real d"
  proof -
    have "scale_den d ?k \<le> scale_num n ?k \<longleftrightarrow> 1 \<le> real (scale_num n ?k) / real (scale_den d ?k)"
      using scale_den_pos [OF assms(2), of ?k] by (simp add: le_divide_eq)
    also have "\<dots> \<longleftrightarrow> 1 \<le> real n / real d / 2 powi ?k" by (simp only: scale_ratio [OF assms(2)])
    also have "\<dots> \<longleftrightarrow> 2 powi ?k \<le> real n / real d" by (subst pos_le_divide_eq) simp_all
    finally show ?thesis .
  qed
  show "2 powi ratio_log2 n d \<le> real n / real d" "real n / real d < 2 powi (ratio_log2 n d + 1)"
    using up lo split by (auto simp: ratio_log2_def Let_def)
qed

subsection \<open>Rounding to an integer\<close>

lemma round_half_even_le: "0 < d \<Longrightarrow> n \<le> b * d \<Longrightarrow> round_half_even n d \<le> b"
proof -
  assume d: "0 < d" and n: "n \<le> b * d"
  then have q: "n div d \<le> b" by (metis div_le_mono div_mult_self_is_m)
  show ?thesis
  proof (cases "n div d = b")
    case True
    then have "n mod d = 0" using n by (metis add_diff_cancel_left' diff_is_0_eq mult.commute mult_div_mod_eq)
    with True d show ?thesis by (simp add: round_half_even_def)
  qed (use q in \<open>simp add: round_half_even_def Let_def\<close>)
qed

lemma round_half_even_ge: "0 < d \<Longrightarrow> a * d \<le> n \<Longrightarrow> a \<le> round_half_even n d"
proof -
  assume d: "0 < d" "a * d \<le> n"
  then have "a \<le> n div d" by (simp add: less_eq_div_iff_mult_less_eq)
  then show ?thesis by (simp add: round_half_even_def Let_def)
qed

lemma round_half_even_nearest:
  assumes "0 < d"
  shows "\<bar>real (round_half_even n d) - real n / real d\<bar> \<le> 1 / 2"
proof -
  let ?q = "n div d" and ?r = "n mod d"
  have "real n = real ?q * real d + real ?r" by (metis div_mult_mod_eq of_nat_add of_nat_mult)
  then have x: "real n / real d = real ?q + real ?r / real d" using assms by (simp add: field_simps)
  have r: "real ?r / real d < 1" "0 \<le> real ?r / real d" using assms by simp_all
  have cmp: "d < 2 * ?r \<longleftrightarrow> 1 < 2 * (real ?r / real d)" "2 * ?r = d \<longleftrightarrow> 2 * (real ?r / real d) = 1"
    using assms by (auto simp: field_simps simp flip: of_nat_mult)
  define z where "z = real ?r / real d"
  show ?thesis
    using r unfolding x round_half_even_def Let_def cmp z_def [symmetric] by (auto simp: abs_if)
qed

subsection \<open>Rounding to a format\<close>

definition fp_value :: "fp \<Rightarrow> real" where
  "fp_value x = (case x of Fin s m e \<Rightarrow> real_of_int (signed_significand s m) * 2 powi e | _ \<Rightarrow> 0)"

definition format_ok :: "fp_format \<Rightarrow> bool" where
  "format_ok fmt \<longleftrightarrow> 0 < precision fmt \<and> min_exp fmt \<le> max_exp fmt"

lemma formats_ok [simp]: "format_ok binary32" "format_ok binary64"
  by (simp_all add: format_ok_def binary32_def binary64_def)

text \<open>The exponent that \<open>fp_round\<close> picks leaves at most \<open>precision\<close> bits above the point.\<close>

definition last_place :: "fp_format \<Rightarrow> nat \<Rightarrow> nat \<Rightarrow> int" where
  "last_place fmt n d = max (min_exp fmt) (ratio_log2 n d - int (precision fmt) + 1)"

lemma rounded_significand:
  assumes "0 < n" "0 < d" "0 < precision fmt"
  defines "e \<equiv> last_place fmt n d"
  defines "m \<equiv> round_half_even (scale_num n e) (scale_den d e)"
  shows "m \<le> 2 ^ precision fmt" "e \<noteq> min_exp fmt \<Longrightarrow> 2 ^ (precision fmt - 1) \<le> m"
    "\<bar>real m * 2 powi e - real n / real d\<bar> \<le> 2 powi e / 2"
proof -
  let ?x = "real n / real d"
  note den = scale_den_pos [OF assms(2), of e]
  note log = ratio_log2_bounds [OF assms(1,2)]
  have p: "(2 :: real) powi int (precision fmt) = 2 ^ precision fmt"
    "(2 :: real) powi (int (precision fmt) - 1) = 2 ^ (precision fmt - 1)"
    using assms(3) by (simp_all add: power_int_def nat_diff_distrib')
  have scaled: "real (scale_num n e) / real (scale_den d e) = ?x / 2 powi e"
    by (rule scale_ratio [OF assms(2)])
  have "?x < 2 powi (ratio_log2 n d + 1)" by (rule log(2))
  also have "\<dots> \<le> 2 powi (int (precision fmt) + e)"
    by (rule power_int_increasing) (auto simp: e_def last_place_def)
  finally have "?x < 2 ^ precision fmt * 2 powi e" by (simp add: power_int_add p)
  then have "?x / 2 powi e < 2 ^ precision fmt" by (subst divide_less_eq) simp
  then have "real (scale_num n e) < real (2 ^ precision fmt * scale_den d e)"
    using den unfolding scaled [symmetric] by (subst (asm) pos_divide_less_eq) simp_all
  then show "m \<le> 2 ^ precision fmt"
    unfolding m_def of_nat_less_iff by (intro round_half_even_le den) simp
  show "2 ^ (precision fmt - 1) \<le> m" if "e \<noteq> min_exp fmt"
  proof -
    from that have "e = ratio_log2 n d - int (precision fmt) + 1" by (auto simp: e_def last_place_def max_def split: if_split_asm)
    then have "2 ^ (precision fmt - 1) * 2 powi e = (2 :: real) powi ratio_log2 n d"
      unfolding p(2) [symmetric] by (simp flip: power_int_add)
    with log(1) have "2 ^ (precision fmt - 1) \<le> ?x / 2 powi e" by (subst pos_le_divide_eq) simp_all
    then have "real (2 ^ (precision fmt - 1) * scale_den d e) \<le> real (scale_num n e)"
      using den unfolding scaled [symmetric] by (subst (asm) pos_le_divide_eq) simp_all
    then show ?thesis unfolding m_def of_nat_le_iff by (intro round_half_even_ge den)
  qed
  from round_half_even_nearest [OF den, of "scale_num n e"]
  have h: "\<bar>real m - ?x / 2 powi e\<bar> \<le> 1 / 2" by (simp add: m_def scaled)
  define y where "y = ?x / 2 powi e"
  have "?x = y * 2 powi e" by (simp add: y_def)
  then have "\<bar>real m * 2 powi e - ?x\<bar> = \<bar>real m - y\<bar> * 2 powi e"
    by (simp add: abs_mult flip: left_diff_distrib)
  also have "\<dots> \<le> 1 / 2 * 2 powi e" using h by (intro mult_right_mono) (simp_all add: y_def)
  finally show "\<bar>real m * 2 powi e - ?x\<bar> \<le> 2 powi e / 2" by simp
qed

lemma fp_round_eq:
  assumes "0 < n"
  shows "fp_round fmt s n d =
    (let e = last_place fmt n d; m = round_half_even (scale_num n e) (scale_den d e);
         (m', e') = (if m = 2 ^ precision fmt then (2 ^ (precision fmt - 1), e + 1) else (m, e))
     in if max_exp fmt < e' then Inf s else Fin s m' e')"
  using assms by (simp add: fp_round_def last_place_def Let_def)

lemma fp_round_ok:
  assumes "format_ok fmt" "0 < d"
  shows "fp_ok fmt (fp_round fmt s n d)"
proof (cases "n = 0")
  case True
  with assms show ?thesis by (simp add: fp_round_def format_ok_def)
next
  case False
  with assms(1) have n: "0 < n" "0 < precision fmt" by (simp_all add: format_ok_def)
  note r = rounded_significand [OF n(1) assms(2) n(2)]
  let ?e = "last_place fmt n d"
  let ?m = "round_half_even (scale_num n ?e) (scale_den d ?e)"
  have e: "min_exp fmt \<le> ?e" by (simp add: last_place_def)
  have "(2 :: nat) ^ (precision fmt - 1) < 2 ^ precision fmt" using n(2) by simp
  with r(1,2) e show ?thesis
    unfolding fp_round_eq [OF n(1)] Let_def by (cases "?m = 2 ^ precision fmt") auto
qed

subsection \<open>Correct rounding\<close>

text \<open>
  Round to nearest even of IEEE 754. Exact results from the midpoint between the largest number
  of the format and the next power of two on become infinite. Below it the result is the number
  of the format that is nearest to the exact result, and of two that are equally near the one
  with an even significand. The result has the sign of the exact result.
\<close>

definition overflow_bound :: "fp_format \<Rightarrow> real" where
  "overflow_bound fmt = (2 ^ precision fmt - 1 / 2) * 2 powi max_exp fmt"

definition nearest_even :: "fp_format \<Rightarrow> real \<Rightarrow> fp \<Rightarrow> bool" where
  "nearest_even fmt x r \<longleftrightarrow>
     (\<forall>y. fp_finite y \<longrightarrow> fp_ok fmt y \<longrightarrow>
        \<bar>fp_value r - x\<bar> < \<bar>fp_value y - x\<bar> \<or> fp_value y = fp_value r \<or>
        \<bar>fp_value r - x\<bar> = \<bar>fp_value y - x\<bar> \<and> even (significand r))"

definition rounds_to :: "fp_format \<Rightarrow> real \<Rightarrow> fp \<Rightarrow> bool" where
  "rounds_to fmt x r \<longleftrightarrow>
     (case r of
        NaN \<Rightarrow> False
      | Inf s \<Rightarrow> overflow_bound fmt \<le> \<bar>x\<bar> \<and> (s \<longleftrightarrow> x < 0)
      | Fin s m e \<Rightarrow> \<bar>x\<bar> < overflow_bound fmt \<and> (x \<noteq> 0 \<longrightarrow> (s \<longleftrightarrow> x < 0)) \<and> nearest_even fmt x r)"

lemma signed_significand_real: "real_of_int (signed_significand s m) = (if s then - real m else real m)"
  by (simp add: signed_significand_def)

lemma half_even_real:
  assumes "0 < d"
  shows "\<bar>real (round_half_even n d) - real n / real d\<bar> = 1 / 2 \<Longrightarrow> even (round_half_even n d)"
proof -
  let ?q = "n div d" and ?r = "n mod d"
  have "real n = real ?q * real d + real ?r" by (metis div_mult_mod_eq of_nat_add of_nat_mult)
  then have x: "real n / real d = real ?q + real ?r / real d" using assms by (simp add: field_simps)
  have r: "real ?r / real d < 1" "0 \<le> real ?r / real d" using assms by simp_all
  have cmp: "d < 2 * ?r \<longleftrightarrow> 1 < 2 * (real ?r / real d)" "2 * ?r = d \<longleftrightarrow> 2 * (real ?r / real d) = 1"
    using assms by (auto simp: field_simps simp flip: of_nat_mult)
  define z where "z = real ?r / real d"
  assume "\<bar>real (round_half_even n d) - real n / real d\<bar> = 1 / 2"
  with r show ?thesis
    unfolding x round_half_even_def Let_def cmp z_def [symmetric] by (auto simp: abs_if split: if_split_asm)
qed

text \<open>Among the integers the rounded one is nearest, ties going to the even one.\<close>

lemma half_even_nearest:
  assumes "0 < d" and x: "x = real n / real d"
  defines "m \<equiv> round_half_even n d"
  shows "\<bar>real m - x\<bar> < \<bar>real_of_int j - x\<bar> \<or> j = int m \<or> \<bar>real m - x\<bar> = \<bar>real_of_int j - x\<bar> \<and> even m"
proof (cases "j = int m")
  case False
  then have "1 \<le> \<bar>j - int m\<bar>" by simp
  then have far: "1 \<le> \<bar>real_of_int j - real m\<bar>" by (metis (mono_tags, opaque_lifting) of_int_1_le_iff of_int_abs of_int_diff of_int_of_nat_eq)
  have near: "\<bar>real m - x\<bar> \<le> 1 / 2" using round_half_even_nearest [OF assms(1), of n] by (simp add: x m_def)
  show ?thesis
  proof (cases "\<bar>real m - x\<bar> = 1 / 2")
    case True
    with half_even_real [OF assms(1), of n] have "even m" by (simp add: x m_def)
    with True far near show ?thesis by linarith
  qed (use far near in linarith)
qed simp

text \<open>A number of the format is a multiple of the last place, or below the leading power of two.\<close>

lemma format_grid:
  assumes "fp_ok fmt (Fin s k f)" "e = min_exp fmt \<or> min_exp fmt \<le> e" "0 < precision fmt"
  shows "(\<exists>j. real k * 2 powi f = real_of_int j * 2 powi e) \<or> real k * 2 powi f < 2 ^ (precision fmt - 1) * 2 powi e"
proof (cases "e \<le> f")
  case True
  have "real k * 2 powi f = real_of_int (int k * 2 ^ nat (f - e)) * 2 powi e"
    using True by (simp add: power_int_def [of _ "f - e", symmetric] flip: powi_nat power_int_add)
  then show ?thesis by blast
next
  case False
  then have "(2 :: real) powi f \<le> 2 powi (e - 1)" by (intro power_int_increasing) simp_all
  moreover have "real k < 2 ^ precision fmt" using assms(1) by (metis fp_ok.simps(1) of_nat_less_iff of_nat_numeral of_nat_power)
  ultimately have "real k * 2 powi f < 2 ^ precision fmt * 2 powi (e - 1)"
    by (intro mult_less_le_imp_less) simp_all
  also have "\<dots> = 2 ^ (precision fmt - 1) * 2 powi e"
    using assms(3) by (cases "precision fmt") (simp_all add: power_int_diff)
  finally show ?thesis by blast
qed

lemma last_place_lower:
  assumes "0 < n" "0 < d" "0 < precision fmt" "last_place fmt n d \<noteq> min_exp fmt"
  shows "2 ^ (precision fmt - 1) * 2 powi last_place fmt n d \<le> real n / real d"
proof -
  from assms(4) have e: "last_place fmt n d = ratio_log2 n d - int (precision fmt) + 1"
    by (auto simp: last_place_def max_def split: if_split_asm)
  have "(2 :: real) ^ (precision fmt - 1) = 2 powi (int (precision fmt) - 1)"
    using assms(3) by (simp add: power_int_def nat_diff_distrib')
  then have "2 ^ (precision fmt - 1) * 2 powi last_place fmt n d = (2 :: real) powi ratio_log2 n d"
    unfolding e by (simp flip: power_int_add)
  with ratio_log2_bounds(1) [OF assms(1,2)] show ?thesis by simp
qed

lemma last_place_upper:
  assumes "0 < n" "0 < d"
  shows "real n / real d < 2 ^ precision fmt * 2 powi last_place fmt n d"
proof -
  have "real n / real d < 2 powi (ratio_log2 n d + 1)" by (rule ratio_log2_bounds(2) [OF assms])
  also have "\<dots> \<le> 2 powi (int (precision fmt) + last_place fmt n d)"
    by (rule power_int_increasing) (auto simp: last_place_def)
  finally show ?thesis by (simp add: power_int_add)
qed

text \<open>The rounded significand at the last place is nearest among the positive numbers of the format.\<close>

lemma rounded_nearest:
  assumes "0 < n" "0 < d" "0 < precision fmt" and y: "fp_ok fmt (Fin s k f)"
  defines "x \<equiv> real n / real d" and "e \<equiv> last_place fmt n d"
  defines "m \<equiv> round_half_even (scale_num n e) (scale_den d e)" and "v \<equiv> real_of_int (signed_significand s k) * 2 powi f"
  shows "\<bar>real m * 2 powi e - x\<bar> < \<bar>v - x\<bar> \<or> v = real m * 2 powi e \<or>
    \<bar>real m * 2 powi e - x\<bar> = \<bar>v - x\<bar> \<and> even m"
proof -
  let ?u = "(2 :: real) powi e"
  have u: "0 < ?u" by simp
  have x0: "0 < x" using assms by (simp add: x_def)
  have den: "0 < scale_den d e" by (rule scale_den_pos [OF assms(2)])
  have q: "x / ?u = real (scale_num n e) / real (scale_den d e)" by (simp add: x_def scale_ratio [OF assms(2)])
  have dist: "\<bar>a * ?u - x\<bar> = \<bar>a - x / ?u\<bar> * ?u" for a
  proof -
    have "a * ?u - x = (a - x / ?u) * ?u" by (simp add: left_diff_distrib)
    then show ?thesis by (simp add: abs_mult)
  qed
  have grid: "\<bar>real m * ?u - x\<bar> < \<bar>real_of_int j * ?u - x\<bar> \<or> real_of_int j * ?u = real m * ?u \<or>
      \<bar>real m * ?u - x\<bar> = \<bar>real_of_int j * ?u - x\<bar> \<and> even m" for j
    using half_even_nearest [OF den q, of j] unfolding dist m_def [symmetric] by auto
  have e: "min_exp fmt \<le> e" by (simp add: e_def last_place_def)
  show ?thesis
  proof (cases "s \<and> 0 < k")
    case True
    then have "v < 0" by (simp add: v_def signed_significand_real mult_neg_pos)
    then have "x < \<bar>v - x\<bar>" using x0 by linarith
    moreover from grid [of 0] have "\<bar>real m * ?u - x\<bar> \<le> x" using x0 by auto
    ultimately show ?thesis by linarith
  next
    case False
    then have v: "v = real k * 2 powi f" by (auto simp: v_def signed_significand_real)
    from format_grid [OF y disjI2 [OF e] assms(3)] show ?thesis
    proof
      assume "\<exists>j. real k * 2 powi f = real_of_int j * 2 powi e"
      then obtain j where "v = real_of_int j * ?u" using v by metis
      with grid [of j] show ?thesis by metis
    next
      assume low: "real k * 2 powi f < 2 ^ (precision fmt - 1) * 2 powi e"
      show ?thesis
      proof (cases "e = min_exp fmt")
        case True
        with y have "e \<le> f" by simp
        then have "v = real_of_int (int k * 2 ^ nat (f - e)) * ?u"
          unfolding v by (simp add: power_int_def [of _ "f - e", symmetric] flip: powi_nat power_int_add)
        with grid show ?thesis by metis
      next
        case False
        then have b: "2 ^ (precision fmt - 1) * ?u \<le> x"
          using last_place_lower [OF assms(1-3)] by (simp add: e_def x_def)
        from grid [of "2 ^ (precision fmt - 1)"] b
        have "\<bar>real m * ?u - x\<bar> \<le> x - 2 ^ (precision fmt - 1) * ?u" by auto
        with low v b show ?thesis by linarith
      qed
    qed
  qed
qed

lemma rounded_overflow:
  assumes "0 < n" "0 < d" "1 < precision fmt" "min_exp fmt \<le> max_exp fmt"
  defines "x \<equiv> real n / real d" and "e \<equiv> last_place fmt n d"
  defines "m \<equiv> round_half_even (scale_num n e) (scale_den d e)"
  defines "e' \<equiv> (if m = 2 ^ precision fmt then e + 1 else e)"
  shows "max_exp fmt < e' \<longleftrightarrow> overflow_bound fmt \<le> x"
proof -
  let ?p = "precision fmt" and ?u = "(2 :: real) powi e" and ?M = "max_exp fmt"
  let ?h = "(2 :: real) ^ ?p - 1 / 2"
  have p: "0 < ?p" using assms(3) by simp
  have u: "0 < ?u" by simp
  have den: "0 < scale_den d e" by (rule scale_den_pos [OF assms(2)])
  have q: "real (scale_num n e) / real (scale_den d e) = x / ?u" by (simp add: x_def scale_ratio [OF assms(2)])
  note near = round_half_even_nearest [OF den, of "scale_num n e", unfolded q, folded m_def]
  note tie = half_even_real [OF den, of "scale_num n e", unfolded q, folded m_def]
  have half: "x < ?h * ?u \<longleftrightarrow> m \<noteq> 2 ^ ?p"
  proof
    assume "x < ?h * ?u"
    then have lt: "x / ?u < ?h" by (simp add: divide_less_eq)
    show "m \<noteq> 2 ^ ?p"
    proof
      assume "m = 2 ^ ?p"
      then have "real m = 2 ^ ?p" by simp
      with near lt show False by linarith
    qed
  next
    assume ne: "m \<noteq> 2 ^ ?p"
    have "m \<le> 2 ^ ?p" using rounded_significand(1) [OF assms(1,2) p] by (simp add: m_def e_def)
    with ne have le: "m \<le> 2 ^ ?p - 1" by simp
    then have "real m \<le> real (2 ^ ?p - 1)" by (rule of_nat_mono)
    then have "real m \<le> 2 ^ ?p - 1" by simp
    with near have "x / ?u \<le> ?h" by linarith
    moreover have "x / ?u \<noteq> ?h"
    proof
      assume eq: "x / ?u = ?h"
      with near \<open>real m \<le> 2 ^ ?p - 1\<close> have m: "real m = 2 ^ ?p - 1" by linarith
      with eq tie have "even m" by simp
      moreover from m have "real m = real (2 ^ ?p - 1)" by simp
      then have "m = 2 ^ ?p - 1" by (simp only: of_nat_eq_iff)
      ultimately show False using p by simp
    qed
    ultimately have "x / ?u < ?h" by simp
    then show "x < ?h * ?u" by (simp add: divide_less_eq)
  qed
  have pos: "0 < ?h" using one_le_power [of "2 :: real" ?p] by linarith
  have up: "x < 2 ^ ?p * ?u" using last_place_upper [OF assms(1,2)] by (simp add: x_def e_def)
  consider "e < ?M" | "e = ?M" | "?M < e" by linarith
  then show ?thesis
  proof cases
    case 1
    then have "(2 :: real) * ?u = 2 powi (e + 1)" by (simp add: power_int_add)
    also have "\<dots> \<le> 2 powi ?M" using 1 by (intro power_int_increasing) simp_all
    finally have "?u \<le> 2 powi ?M / 2" by simp
    then have "2 ^ ?p * ?u \<le> 2 ^ ?p * (2 powi ?M / 2)" by (intro mult_left_mono) simp_all
    also have "\<dots> \<le> ?h * 2 powi ?M"
    proof -
      have "2 ^ ?p / 2 \<le> ?h" using one_le_power [of "2 :: real" ?p] by linarith
      then have "2 ^ ?p / 2 * 2 powi ?M \<le> ?h * 2 powi ?M" by (intro mult_right_mono) simp_all
      then show ?thesis by simp
    qed
    finally have "x < overflow_bound fmt" using up by (simp add: overflow_bound_def)
    with 1 show ?thesis by (simp add: e'_def)
  next
    case 2
    with half show ?thesis by (auto simp: e'_def overflow_bound_def not_less [symmetric])
  next
    case 3
    then have "(2 :: real) powi (?M + 1) \<le> ?u" by (intro power_int_increasing) simp_all
    then have "(2 :: real) ^ (?p - 1) * 2 powi (?M + 1) \<le> 2 ^ (?p - 1) * ?u" by (intro mult_left_mono) simp_all
    also have "\<dots> \<le> x"
      using last_place_lower [OF assms(1,2) p] 3 assms(4) by (simp add: x_def e_def)
    also have "(2 :: real) ^ (?p - 1) * 2 powi (?M + 1) = 2 ^ ?p * 2 powi ?M"
      using p by (cases ?p) (simp_all add: power_int_add)
    finally have low: "2 ^ ?p * 2 powi ?M \<le> x" .
    have "?h * 2 powi ?M \<le> 2 ^ ?p * 2 powi ?M" by (intro mult_right_mono) simp_all
    from order_trans [OF this low] have "overflow_bound fmt \<le> x" unfolding overflow_bound_def .
    with 3 show ?thesis by (simp add: e'_def)
  qed
qed

definition rounding_format :: "fp_format \<Rightarrow> bool" where
  "rounding_format fmt \<longleftrightarrow> 1 < precision fmt \<and> min_exp fmt \<le> max_exp fmt"

lemma rounding_formats [simp]: "rounding_format binary32" "rounding_format binary64"
  by (simp_all add: rounding_format_def binary32_def binary64_def)

lemma overflow_bound_pos: "0 < overflow_bound fmt"
proof -
  have "(1 :: real) \<le> 2 ^ precision fmt" by simp
  then have "(0 :: real) < 2 ^ precision fmt - 1 / 2" by linarith
  then show ?thesis unfolding overflow_bound_def by (rule mult_pos_pos) simp
qed

lemma rounds_to_zero: "rounds_to fmt 0 (Fin z 0 e)"
  using overflow_bound_pos [of fmt]
  by (auto simp: rounds_to_def nearest_even_def fp_value_def signed_significand_def)

text \<open>Rounding is symmetric in the sign.\<close>

lemma rounds_to_minus:
  assumes "rounds_to fmt x r" "x \<noteq> 0"
  shows "rounds_to fmt (- x) (fp_neg r)"
proof (cases r)
  case (Fin s m e)
  have neg: "fp_value (fp_neg y) = - fp_value y" if "fp_finite y" for y
    using that by (cases y) (simp_all add: fp_value_def signed_significand_def fp_finite_def)
  have "nearest_even fmt (- x) (fp_neg r)"
    unfolding nearest_even_def
  proof (intro allI impI)
    fix y assume y: "fp_finite y" "fp_ok fmt y"
    then have y': "fp_finite (fp_neg y)" "fp_ok fmt (fp_neg y)" by (cases y; simp add: fp_finite_def)+
    from assms(1) Fin have "nearest_even fmt x r" by (simp add: rounds_to_def)
    with y' have "\<bar>fp_value r - x\<bar> < \<bar>fp_value (fp_neg y) - x\<bar> \<or> fp_value (fp_neg y) = fp_value r \<or>
        \<bar>fp_value r - x\<bar> = \<bar>fp_value (fp_neg y) - x\<bar> \<and> even (significand r)" unfolding nearest_even_def by blast
    moreover have r: "fp_value (fp_neg r) = - fp_value r" using Fin by (intro neg) (simp add: fp_finite_def)
    moreover have "\<bar>- fp_value y - x\<bar> = \<bar>fp_value y - - x\<bar>" "\<bar>- fp_value r - - x\<bar> = \<bar>fp_value r - x\<bar>" by linarith+
    ultimately show "\<bar>fp_value (fp_neg r) - - x\<bar> < \<bar>fp_value y - - x\<bar> \<or> fp_value y = fp_value (fp_neg r) \<or>
        \<bar>fp_value (fp_neg r) - - x\<bar> = \<bar>fp_value y - - x\<bar> \<and> even (significand (fp_neg r))"
      using neg [OF y(1)] Fin by auto
  qed
  with assms Fin show ?thesis by (auto simp: rounds_to_def)
qed (use assms in \<open>auto simp: rounds_to_def\<close>)

lemma fp_round_rounds_pos:
  assumes "0 < n" "0 < d" "rounding_format fmt"
  shows "rounds_to fmt (real n / real d) (fp_round fmt False n d)"
proof -
  from assms(3) have p: "0 < precision fmt" "1 < precision fmt" "min_exp fmt \<le> max_exp fmt"
    by (simp_all add: rounding_format_def)
  let ?x = "real n / real d" and ?e = "last_place fmt n d"
  let ?m = "round_half_even (scale_num n ?e) (scale_den d ?e)"
  have x0: "0 < ?x" using assms(1,2) by simp
  obtain m' e' where me: "(m', e') = (if ?m = 2 ^ precision fmt then (2 ^ (precision fmt - 1), ?e + 1) else (?m, ?e))"
    by (metis surj_pair)
  then have e': "e' = (if ?m = 2 ^ precision fmt then ?e + 1 else ?e)" by (simp split: if_split_asm)
  have r: "fp_round fmt False n d = (if max_exp fmt < e' then Inf False else Fin False m' e')"
    unfolding fp_round_eq [OF assms(1)] Let_def me [symmetric] by simp
  have over: "max_exp fmt < e' \<longleftrightarrow> overflow_bound fmt \<le> ?x"
    unfolding e' by (rule rounded_overflow [OF assms(1,2) p(2,3)])
  have val: "real m' * 2 powi e' = real ?m * 2 powi ?e"
    using me p(1) by (cases "precision fmt") (auto simp: power_int_add split: if_split_asm)
  have even: "even ?m \<Longrightarrow> even m'" using me p(2) by (auto split: if_split_asm)
  have "nearest_even fmt ?x (Fin False m' e')"
    unfolding nearest_even_def
  proof (intro allI impI)
    fix y assume "fp_finite y" "fp_ok fmt y"
    then obtain s k f where y: "y = Fin s k f" "fp_ok fmt (Fin s k f)" by (cases y) (auto simp: fp_finite_def)
    have fv: "fp_value (Fin False m' e') = real ?m * 2 powi ?e" by (simp add: fp_value_def signed_significand_def val)
    have fy: "fp_value (Fin s k f) = real_of_int (signed_significand s k) * 2 powi f" by (simp add: fp_value_def)
    from rounded_nearest [OF assms(1,2) p(1) y(2)] even
    show "\<bar>fp_value (Fin False m' e') - ?x\<bar> < \<bar>fp_value y - ?x\<bar> \<or> fp_value y = fp_value (Fin False m' e') \<or>
        \<bar>fp_value (Fin False m' e') - ?x\<bar> = \<bar>fp_value y - ?x\<bar> \<and> even (significand (Fin False m' e'))"
      unfolding fv y(1) fy fp.sel by blast
  qed
  with x0 over r show ?thesis by (auto simp: rounds_to_def)
qed

lemma fp_round_neg: "fp_round fmt True n d = fp_neg (fp_round fmt False n d)"
  by (auto simp: fp_round_def Let_def)

lemma fp_round_rounds:
  assumes "0 < d" "rounding_format fmt"
  shows "rounds_to fmt (if s then - (real n / real d) else real n / real d) (fp_round fmt s n d)"
proof (cases "n = 0")
  case True
  then show ?thesis by (simp add: fp_round_def rounds_to_zero)
next
  case False
  then have n: "0 < n" by simp
  note pos = fp_round_rounds_pos [OF n assms]
  have "real n / real d \<noteq> 0" using n assms(1) by simp
  from pos rounds_to_minus [OF pos this] show ?thesis by (cases s) (simp_all add: fp_round_neg)
qed

subsection \<open>Operations return canonical numbers\<close>

lemma scale_num_pos: "0 < n \<Longrightarrow> 0 < scale_num n e"
  by (simp add: scale_num_def)

lemma fp_of_scaled_ok: "format_ok fmt \<Longrightarrow> fp_ok fmt (fp_of_scaled fmt z i e)"
  by (auto simp: fp_of_scaled_def format_ok_def scale_num_pos intro!: fp_round_ok)

lemma fp_convert_ok: "format_ok fmt \<Longrightarrow> fp_ok fmt (fp_convert fmt x)"
  by (cases x) (simp_all add: fp_convert_def fp_of_scaled_ok)

lemma fp_of_int_ok: "format_ok fmt \<Longrightarrow> fp_ok fmt (fp_of_int fmt i)"
  by (simp add: fp_of_int_def fp_of_scaled_ok)

lemma fp_add_ok: "format_ok fmt \<Longrightarrow> fp_ok fmt (fp_add fmt x y)"
  by (cases "(fmt, x, y)" rule: fp_add.cases) (simp_all add: Let_def fp_of_scaled_ok)

lemma fp_sub_ok: "format_ok fmt \<Longrightarrow> fp_ok fmt (fp_sub fmt x y)"
  by (simp add: fp_sub_def fp_add_ok)

lemma fp_mul_ok: "format_ok fmt \<Longrightarrow> fp_ok fmt (fp_mul fmt x y)"
  by (cases "(fmt, x, y)" rule: fp_mul.cases) (simp_all add: fp_of_scaled_ok)

lemma fp_div_ok: "format_ok fmt \<Longrightarrow> fp_ok fmt (fp_div fmt x y)"
  by (cases "(fmt, x, y)" rule: fp_div.cases)
     (simp_all add: format_ok_def fp_round_ok scale_num_pos)

lemma fp_fma_ok: "format_ok fmt \<Longrightarrow> fp_ok fmt (fp_fma fmt x y z)"
  by (cases "(fmt, x, y, z)" rule: fp_fma.cases)
     (auto simp: Let_def fp_of_scaled_ok fp_add_ok split: fp.split)

lemma f32_to_bits_less: "fp_ok binary32 x \<Longrightarrow> f32_to_bits x < 2 ^ 32"
proof (cases x)
  case (Fin s m e)
  assume ok: "fp_ok binary32 x"
  show ?thesis
  proof (cases "m < 8388608")
    case False
    with ok Fin have m: "m < 16777216" "e \<le> 104" by (simp_all add: binary32_def)
    then have "nat (e + 150) \<le> 254" by simp
    then have "nat (e + 150) * 8388608 \<le> 254 * 8388608" by (rule mult_le_mono1)
    with m(1) False Fin show ?thesis by (cases s) (simp_all add: f32_to_bits_def)
  qed (use Fin in \<open>cases s; simp add: f32_to_bits_def\<close>)
qed (simp_all add: f32_to_bits_def of_bool_def)

subsection \<open>Operations are correctly rounded\<close>

lemma scaled_value: "real (scale_den n e) / real (scale_num 1 e) = real n * 2 powi e"
  by (cases "e < 0") (simp_all add: scale_den_def scale_num_def power_int_def field_simps)

text \<open>An exact zero is a zero of the given sign.\<close>

definition correctly_rounded :: "fp_format \<Rightarrow> bool \<Rightarrow> real \<Rightarrow> fp \<Rightarrow> bool" where
  "correctly_rounded fmt z x r \<longleftrightarrow> rounds_to fmt x r \<and> (x = 0 \<longrightarrow> r = Fin z 0 (min_exp fmt))"

lemma fp_of_scaled_rounds:
  assumes "rounding_format fmt"
  shows "correctly_rounded fmt z (real_of_int i * 2 powi e) (fp_of_scaled fmt z i e)"
proof (cases "i = 0")
  case False
  have "rounds_to fmt (if i < 0 then - (real (nat \<bar>i\<bar>) * 2 powi e) else real (nat \<bar>i\<bar>) * 2 powi e)
      (fp_of_scaled fmt z i e)"
    using fp_round_rounds [OF _ assms, of "scale_num 1 e" "i < 0" "scale_den (nat \<bar>i\<bar>) e"] False
    by (simp only: scaled_value) (simp add: fp_of_scaled_def scale_num_pos)
  with False show ?thesis by (cases "i < 0") (simp_all add: correctly_rounded_def)
qed (simp add: fp_of_scaled_def rounds_to_zero correctly_rounded_def)

lemma align_value:
  "e0 \<le> e \<Longrightarrow> real_of_int (i * 2 ^ nat (e - e0)) * 2 powi e0 = real_of_int i * 2 powi e"
  by (simp add: power_int_def [of _ "e - e0", symmetric] flip: powi_nat power_int_add)

lemma fp_add_rounds:
  assumes "rounding_format fmt" "fp_finite x" "fp_finite y"
  shows "correctly_rounded fmt (negative x \<and> negative y) (fp_value x + fp_value y) (fp_add fmt x y)"
proof -
  obtain s m e s' m' e' where xy: "x = Fin s m e" "y = Fin s' m' e'"
    using assms(2,3) by (cases x; cases y) (auto simp: fp_finite_def)
  let ?e0 = "min e e'"
  have "fp_value x + fp_value y = real_of_int (signed_significand s m * 2 ^ nat (e - ?e0) +
      signed_significand s' m' * 2 ^ nat (e' - ?e0)) * 2 powi ?e0"
    unfolding of_int_add distrib_right by (subst (1 2) align_value) (simp_all add: xy fp_value_def)
  moreover have "fp_add fmt x y = fp_of_scaled fmt (s \<and> s') (signed_significand s m * 2 ^ nat (e - ?e0) +
      signed_significand s' m' * 2 ^ nat (e' - ?e0)) ?e0" by (simp add: xy Let_def)
  moreover have "negative x = s" "negative y = s'" using xy by simp_all
  ultimately show ?thesis by (simp only: fp_of_scaled_rounds [OF assms(1)])
qed

lemma fp_value_neg: "fp_finite x \<Longrightarrow> fp_value (fp_neg x) = - fp_value x"
  by (cases x) (simp_all add: fp_value_def signed_significand_def fp_finite_def)

lemma fp_finite_neg: "fp_finite (fp_neg x) = fp_finite x"
  by (cases x) (simp_all add: fp_finite_def)

lemma fp_sub_rounds:
  assumes "rounding_format fmt" "fp_finite x" "fp_finite y"
  shows "correctly_rounded fmt (negative x \<and> \<not> negative y) (fp_value x - fp_value y) (fp_sub fmt x y)"
proof -
  have "negative (fp_neg y) = (\<not> negative y)" using assms(3) by (cases y) (simp_all add: fp_finite_def)
  with fp_add_rounds [of fmt x "fp_neg y"] assms show ?thesis
    by (simp add: fp_sub_def fp_value_neg fp_finite_neg)
qed

lemma fp_mul_rounds:
  assumes "rounding_format fmt" "fp_finite x" "fp_finite y"
  shows "correctly_rounded fmt (negative x \<noteq> negative y) (fp_value x * fp_value y) (fp_mul fmt x y)"
proof -
  obtain s m e s' m' e' where xy: "x = Fin s m e" "y = Fin s' m' e'"
    using assms(2,3) by (cases x; cases y) (auto simp: fp_finite_def)
  have "fp_value x * fp_value y =
      real_of_int (signed_significand s m * signed_significand s' m') * 2 powi (e + e')"
    by (simp add: xy fp_value_def power_int_add)
  moreover have "fp_mul fmt x y = fp_of_scaled fmt (s \<noteq> s')
      (signed_significand s m * signed_significand s' m') (e + e')" by (simp add: xy)
  moreover have "negative x = s" "negative y = s'" using xy by simp_all
  ultimately show ?thesis by (simp only: fp_of_scaled_rounds [OF assms(1)])
qed

lemma fp_div_rounds:
  assumes "rounding_format fmt" "fp_finite x" "fp_finite y" "\<not> fp_zero y"
  shows "correctly_rounded fmt (negative x \<noteq> negative y) (fp_value x / fp_value y) (fp_div fmt x y)"
proof -
  obtain s m e s' m' e' where xy: "x = Fin s m e" "y = Fin s' m' e'"
    using assms(2,3) by (cases x; cases y) (auto simp: fp_finite_def)
  have m': "0 < m'" using assms(4) xy by (simp add: fp_zero_def)
  let ?n = "scale_den m (e - e')" and ?d = "scale_num m' (e - e')"
  have q: "real ?n / real ?d = real m / real m' * 2 powi (e - e')"
    by (cases "e - e' < 0") (simp_all add: scale_den_def scale_num_def power_int_def field_simps)
  have "fp_value x / fp_value y = (if s \<noteq> s' then - (real ?n / real ?d) else real ?n / real ?d)"
    unfolding q by (cases s; cases s') (simp_all add: xy fp_value_def signed_significand_real power_int_diff)
  then have "rounds_to fmt (fp_value x / fp_value y) (fp_div fmt x y)"
    using fp_round_rounds [OF scale_num_pos [OF m', of "e - e'"] assms(1), of "s \<noteq> s'" ?n] m'
    by (simp add: xy)
  moreover have "fp_div fmt x y = Fin (s \<noteq> s') 0 (min_exp fmt)" if "fp_value x / fp_value y = 0"
  proof -
    from that m' have "m = 0" by (simp add: xy fp_value_def signed_significand_real split: if_split_asm)
    with m' show ?thesis by (simp add: xy fp_round_def scale_den_def)
  qed
  ultimately show ?thesis by (simp add: correctly_rounded_def xy)
qed

end
