(* ===== verification/Numerics.thy ===== *)
theory Numerics
  imports Float_Proofs Runtime_Proofs
begin

text \<open>
  The numeric contract of the interpreter: binary \<open>f32\<close> operations are correctly rounded, and
  a constant is read back from its canonical text as the single it was converted to.
\<close>

fun exact_real :: "opcode \<Rightarrow> real \<Rightarrow> real \<Rightarrow> real" where
  "exact_real Add x y = x + y"
| "exact_real Sub x y = x - y"
| "exact_real Mul x y = x * y"
| "exact_real _ x y = x / y"

text \<open>The sign of an exact zero: of the two operands for \<open>+\<close> and \<open>-\<close>, their product otherwise.\<close>

fun zero_sign :: "opcode \<Rightarrow> fp \<Rightarrow> fp \<Rightarrow> bool" where
  "zero_sign Add x y = (negative x \<and> negative y)"
| "zero_sign Sub x y = (negative x \<and> \<not> negative y)"
| "zero_sign _ x y = (negative x \<noteq> negative y)"

lemma scalar_binary_f32:
  assumes op: "op \<in> {Add, Sub, Mul, Div}" and fin: "fp_finite x" "fp_finite y"
    and r: "scalar_binary op (VF32 x) (VF32 y) = Inr v"
  shows "\<exists>z. v = VF32 z \<and> fp_ok binary32 z \<and>
    correctly_rounded binary32 (zero_sign op x y) (exact_real op (fp_value x) (fp_value y)) z"
proof -
  have p: "rounding_format binary32" by simp
  from op r have "op = Div \<Longrightarrow> \<not> fp_zero y"
    by (auto simp: scalar_binary_def division_by_zero_def)
  with op r fp_add_rounds [OF p fin] fp_sub_rounds [OF p fin] fp_mul_rounds [OF p fin] fp_div_rounds [OF p fin]
  show ?thesis
    by (auto simp: scalar_binary_def fp_add_ok fp_sub_ok fp_mul_ok fp_div_ok)
qed

lemma f32_constant_text:
  assumes "fp_ok binary32 x"
  shows "as_f32 (CF32 (''0x'' @ show_hex 8 (f32_to_bits x))) = Some x"
  using parse_hex_show [OF f32_to_bits_less [OF assms]] f32_bits_roundtrip [OF assms] trim_0x_show
  by simp

lemma f32_constant_roundtrip:
  assumes "as_f64 value = Some number"
  shows "\<exists>c. from_json F32 value = Inr c \<and> constant_runtime c = Inr (RScalar (VF32 (fp_convert binary32 number)))"
proof -
  have "as_f32 (CF32 (''0x'' @ show_hex 8 (f32_to_bits (fp_convert binary32 number)))) =
      Some (fp_convert binary32 number)"
    by (rule f32_constant_text) (simp add: fp_convert_ok)
  with assms show ?thesis by (simp add: from_json_def constant_runtime_def del: as_f32.simps)
qed

subsection \<open>Constants have the type they are created with\<close>

lemma parse_hex_less: "parse_hex_u32 s = Some n \<Longrightarrow> n < 2 ^ 32"
  by (auto simp: parse_hex_u32_def Let_def split: if_split_asm option.split_asm)

lemma from_json_typed:
  assumes "from_json s value = Inr c"
  shows "\<exists>w. constant_runtime c = Inr w \<and> value_typed w (s, None)"
proof (cases s)
  case F32
  from assms F32 obtain n where n: "c = CF32 (''0x'' @ show_hex 8 n)" "n < 2 ^ 32"
    using f32_to_bits_less [OF fp_convert_ok [OF formats_ok(1)]]
    by (auto simp: from_json_def split: option.split_asm dest!: parse_hex_less)
  with parse_hex_show [OF n(2)] trim_0x_show [of 8 n] F32 show ?thesis
    by (simp add: constant_runtime_def)
qed (use assms in \<open>auto simp: from_json_def constant_runtime_def ok_or_Inr_iff\<close>)

end
