(* ===== verification/Transaction_Typing.thy ===== *)
theory Transaction_Typing
  imports Graph_Typing Numerics
begin

text \<open>
  Every action of a transaction keeps the program well formed and well typed. The typing of a
  program is conditional: it holds at every valuation of the dimensions that satisfies what the
  specification assumes (\<open>assumptions_hold\<close>), so an action may leave a shape equality open as
  long as it records the obligation.
\<close>

subsection \<open>The invariant\<close>

definition sound_graph :: "id_allocator \<Rightarrow> program \<Rightarrow> bool" where
  "sound_graph a p \<longleftrightarrow> graph_wf a p \<and> (\<forall>v. assumptions_hold v p \<longrightarrow> graph_typed v p)"

definition binding_ok :: "program \<Rightarrow> binding \<Rightarrow> bool" where
  "binding_ok p b \<longleftrightarrow>
     (case b of BValue i \<Rightarrow> bmap_contains (vals p) i | BHole k \<Rightarrow> bmap_contains (holes p) k
      | BDimension d \<Rightarrow> True)"

text \<open>Temporaries start with a dollar sign and name entries of the graph.\<close>

definition bindings_ok :: "program \<Rightarrow> bindings \<Rightarrow> bool" where
  "bindings_ok p bs \<longleftrightarrow>
     (\<forall>n b. bmap_get bs n = Some b \<longrightarrow> binding_ok p b \<and> strip_prefix ''$'' n \<noteq> None)"

definition facts_ok :: "nat \<Rightarrow> program \<Rightarrow> constraint_facts option \<Rightarrow> bool" where
  "facts_ok s p facts \<longleftrightarrow>
     (case facts of
        None \<Rightarrow> s = legacy_semantics
      | Some f \<Rightarrow> s \<noteq> legacy_semantics \<and> facts_inv f \<and> set (accepted f) = set (constraints p))"

definition sound_txn :: "nat \<Rightarrow> txn \<Rightarrow> bool" where
  "sound_txn s tx \<longleftrightarrow>
     sound_graph (tx_alloc tx) (tx_program tx) \<and> bindings_ok (tx_program tx) (tx_bindings tx) \<and>
     facts_ok s (tx_program tx) (tx_facts tx)"

lemma sound_graphD: "sound_graph a p \<Longrightarrow> graph_wf a p" "sound_graph a p \<Longrightarrow> assumptions_hold v p \<Longrightarrow> graph_typed v p"
  by (simp_all add: sound_graph_def)

lemma facts_ok_admits: "facts_ok s p (Some f) \<Longrightarrow> assumptions_hold v p \<Longrightarrow> facts_inv f \<and> admits f v"
  by (simp add: facts_ok_def admits_def assumptions_hold_def)

subsection \<open>Allocators grow\<close>

definition alloc_le :: "id_allocator \<Rightarrow> id_allocator \<Rightarrow> bool" where
  "alloc_le a b \<longleftrightarrow>
     next_value a \<le> next_value b \<and> next_operation a \<le> next_operation b \<and>
     next_hole a \<le> next_hole b \<and> next_obligation a \<le> next_obligation b"

lemma alloc_le_refl [simp]: "alloc_le a a"
  by (simp add: alloc_le_def)

lemma alloc_le_trans: "alloc_le a b \<Longrightarrow> alloc_le b c \<Longrightarrow> alloc_le a c"
  by (simp add: alloc_le_def)

lemma graph_wf_mono: "graph_wf a p \<Longrightarrow> alloc_le a b \<Longrightarrow> graph_wf b p"
  by (auto simp: graph_wf_def graph_ids_def alloc_le_def intro: ids_below_mono)

lemma sound_graph_mono: "sound_graph a p \<Longrightarrow> alloc_le a b \<Longrightarrow> sound_graph b p"
  by (auto simp: sound_graph_def intro: graph_wf_mono)

subsection \<open>Steps that change obligations only\<close>

lemma graph_typed_obligations [simp]: "graph_typed v (p\<lparr>obligations := x\<rparr>) \<longleftrightarrow> graph_typed v p"
proof -
  have "declared_dty v (p\<lparr>obligations := x\<rparr>) = declared_dty v p" by (rule ext) (simp add: declared_dty_def)
  then have "value_ok v (p\<lparr>obligations := x\<rparr>) i def = value_ok v p i def" for i def
    by (cases "v_origin def") (simp_all add: value_ok_def definition_ok_def scalar_captures_def scalar_value_of_def)
  then show ?thesis by (simp add: graph_typed_def)
qed

lemma bindings_ok_obligations [simp]: "bindings_ok (p\<lparr>obligations := x\<rparr>) bs \<longleftrightarrow> bindings_ok p bs"
  by (simp add: bindings_ok_def binding_ok_def split: binding.split)

lemma facts_ok_obligations [simp]: "facts_ok s (p\<lparr>obligations := x\<rparr>) f \<longleftrightarrow> facts_ok s p f"
  by (simp add: facts_ok_def split: option.split)

lemma references_obligations [simp]: "references (p\<lparr>obligations := x\<rparr>) = references p"
  by (simp add: references_def)

lemma graph_wf_obligations:
  "graph_wf a p \<Longrightarrow> ids_below ''o'' n x \<Longrightarrow> next_obligation a \<le> n \<Longrightarrow>
   graph_wf (a\<lparr>next_obligation := n\<rparr>) (p\<lparr>obligations := x\<rparr>)"
  by (simp add: graph_wf_def graph_ids_def hole_values_def parameter_values_def linked_same [of "p\<lparr>obligations := x\<rparr>" p])

definition debt_step :: "txn \<Rightarrow> txn \<Rightarrow> bool" where
  "debt_step tx tx' \<longleftrightarrow>
     (\<exists>n. tx_program tx' = (tx_program tx)\<lparr>obligations := obligations (tx_program tx')\<rparr> \<and>
        tx_alloc tx' = (tx_alloc tx)\<lparr>next_obligation := n\<rparr> \<and> next_obligation (tx_alloc tx) \<le> n \<and>
        tx_bindings tx' = tx_bindings tx \<and> tx_facts tx' = tx_facts tx \<and>
        (ids_below ''o'' (next_obligation (tx_alloc tx)) (obligations (tx_program tx)) \<longrightarrow>
           ids_below ''o'' n (obligations (tx_program tx')) \<and>
           (\<forall>v. assumptions_hold v (tx_program tx') \<longrightarrow> assumptions_hold v (tx_program tx))))"

lemma wf_obligation_ids: "graph_wf a p \<Longrightarrow> ids_below ''o'' (next_obligation a) (obligations p)"
  by (simp add: graph_wf_def graph_ids_def)

lemma debt_step_sound:
  assumes "debt_step tx tx'" "sound_graph (tx_alloc tx) (tx_program tx)"
  shows "sound_graph (tx_alloc tx') (tx_program tx')" "alloc_le (tx_alloc tx) (tx_alloc tx')"
    "\<And>v. assumptions_hold v (tx_program tx') \<Longrightarrow> assumptions_hold v (tx_program tx)"
proof -
  note wf = sound_graphD(1) [OF assms(2)]
  from assms(1) wf_obligation_ids [OF wf] obtain n where
    p: "tx_program tx' = (tx_program tx)\<lparr>obligations := obligations (tx_program tx')\<rparr>"
    and a: "tx_alloc tx' = (tx_alloc tx)\<lparr>next_obligation := n\<rparr>" "next_obligation (tx_alloc tx) \<le> n"
    and o: "ids_below ''o'' n (obligations (tx_program tx'))"
    and v: "\<And>v. assumptions_hold v (tx_program tx') \<Longrightarrow> assumptions_hold v (tx_program tx)"
    unfolding debt_step_def by blast
  show "\<And>v. assumptions_hold v (tx_program tx') \<Longrightarrow> assumptions_hold v (tx_program tx)" by (rule v)
  show "alloc_le (tx_alloc tx) (tx_alloc tx')" using a by (simp add: alloc_le_def)
  have "graph_wf (tx_alloc tx') (tx_program tx')"
    using graph_wf_obligations [OF wf o a(2)] unfolding a(1) p [symmetric] .
  moreover have "graph_typed v (tx_program tx')" if "assumptions_hold v (tx_program tx')" for v
    using sound_graphD(2) [OF assms(2) v [OF that]] by (subst p) simp
  ultimately show "sound_graph (tx_alloc tx') (tx_program tx')" by (simp add: sound_graph_def)
qed

lemma debt_step_txn:
  assumes "debt_step tx tx'" "sound_txn s tx"
  shows "sound_txn s tx'" "alloc_le (tx_alloc tx) (tx_alloc tx')"
proof -
  from assms(2) have g: "sound_graph (tx_alloc tx) (tx_program tx)" by (simp add: sound_txn_def)
  note d = debt_step_sound [OF assms(1) g]
  from assms(1) have p: "tx_program tx' = (tx_program tx)\<lparr>obligations := obligations (tx_program tx')\<rparr>"
    and b: "tx_bindings tx' = tx_bindings tx" "tx_facts tx' = tx_facts tx"
    unfolding debt_step_def by blast+
  have "bindings_ok (tx_program tx') (tx_bindings tx')" "facts_ok s (tx_program tx') (tx_facts tx')"
    using assms(2) bindings_ok_obligations facts_ok_obligations p unfolding b sound_txn_def by metis+
  with d show "sound_txn s tx'" "alloc_le (tx_alloc tx) (tx_alloc tx')" by (simp_all add: sound_txn_def)
qed

lemma debt_step_refl: "debt_step tx tx"
  unfolding debt_step_def by (intro exI [of _ "next_obligation (tx_alloc tx)"]) simp

lemma debt_step_trans: "debt_step a b \<Longrightarrow> debt_step b c \<Longrightarrow> debt_step a c"
proof -
  assume ab: "debt_step a b" and bc: "debt_step b c"
  from ab obtain n where n: "tx_program b = (tx_program a)\<lparr>obligations := obligations (tx_program b)\<rparr>"
    "tx_alloc b = (tx_alloc a)\<lparr>next_obligation := n\<rparr>" "next_obligation (tx_alloc a) \<le> n"
    "tx_bindings b = tx_bindings a" "tx_facts b = tx_facts a"
    "ids_below ''o'' (next_obligation (tx_alloc a)) (obligations (tx_program a)) \<Longrightarrow>
       ids_below ''o'' n (obligations (tx_program b)) \<and>
       (\<forall>v. assumptions_hold v (tx_program b) \<longrightarrow> assumptions_hold v (tx_program a))"
    unfolding debt_step_def by blast
  from bc obtain m where m: "tx_program c = (tx_program b)\<lparr>obligations := obligations (tx_program c)\<rparr>"
    "tx_alloc c = (tx_alloc b)\<lparr>next_obligation := m\<rparr>" "next_obligation (tx_alloc b) \<le> m"
    "tx_bindings c = tx_bindings b" "tx_facts c = tx_facts b"
    "ids_below ''o'' (next_obligation (tx_alloc b)) (obligations (tx_program b)) \<Longrightarrow>
       ids_below ''o'' m (obligations (tx_program c)) \<and>
       (\<forall>v. assumptions_hold v (tx_program c) \<longrightarrow> assumptions_hold v (tx_program b))"
    unfolding debt_step_def by blast
  have "tx_program c = (tx_program a)\<lparr>obligations := obligations (tx_program c)\<rparr>"
    by (subst m(1), subst n(1)) simp
  moreover have "tx_alloc c = (tx_alloc a)\<lparr>next_obligation := m\<rparr>" by (simp add: m(2) n(2))
  moreover have "next_obligation (tx_alloc a) \<le> m" using m(3) n(2,3) by simp
  moreover have "ids_below ''o'' (next_obligation (tx_alloc a)) (obligations (tx_program a)) \<longrightarrow>
       ids_below ''o'' m (obligations (tx_program c)) \<and>
       (\<forall>v. assumptions_hold v (tx_program c) \<longrightarrow> assumptions_hold v (tx_program a))"
    using n(2,6) m(6) by auto
  ultimately show "debt_step a c" unfolding debt_step_def using m(4,5) n(4,5) by auto
qed

text \<open>A new obligation under a fresh identifier; \<open>ob\<close> may be open debt.\<close>

definition with_obligation :: "proof_obligation \<Rightarrow> txn \<Rightarrow> txn" where
  "with_obligation ob tx =
     (let p = tx_program tx; n = Suc (next_obligation (tx_alloc tx)); oid = ''o'' @ show_nat n in
      tx\<lparr>tx_program := p\<lparr>obligations := bmap_insert oid ob (obligations p)\<rparr>,
         tx_alloc := (tx_alloc tx)\<lparr>next_obligation := n\<rparr>, tx_created := tx_created tx @ [oid]\<rparr>)"

lemma assumptions_insert:
  assumes "\<not> bmap_contains (obligations p) k"
  shows "assumptions_hold v (p\<lparr>obligations := bmap_insert k ob (obligations p)\<rparr>) \<longleftrightarrow>
    assumptions_hold v p \<and> open_debt_holds v ob"
  using assms by (auto simp: assumptions_hold_def bmap_contains_def split: if_split_asm)

lemma with_obligation_assumptions:
  assumes "ids_below ''o'' (next_obligation (tx_alloc tx)) (obligations (tx_program tx))"
  shows "assumptions_hold v (tx_program (with_obligation ob tx)) \<longleftrightarrow>
    assumptions_hold v (tx_program tx) \<and> open_debt_holds v ob"
  using assumptions_insert [OF ids_below_fresh [OF assms]] by (simp add: with_obligation_def Let_def)

lemma with_obligation_debt: "debt_step tx (with_obligation ob tx)"
  unfolding debt_step_def
proof (intro exI [of _ "Suc (next_obligation (tx_alloc tx))"] conjI impI)
  assume "ids_below ''o'' (next_obligation (tx_alloc tx)) (obligations (tx_program tx))"
  from ids_below_insert [OF this] with_obligation_assumptions [OF this]
  show "ids_below ''o'' (Suc (next_obligation (tx_alloc tx))) (obligations (tx_program (with_obligation ob tx)))"
    "\<forall>v. assumptions_hold v (tx_program (with_obligation ob tx)) \<longrightarrow> assumptions_hold v (tx_program tx)"
    by (simp_all add: with_obligation_def Let_def)
qed (simp_all add: with_obligation_def Let_def)

lemma push_obligation_Inr:
  assumes "push_obligation m a d tx = Inr tx'"
  obtains ob where "tx' = with_obligation ob tx" "ob_kind ob = od_kind d" "ob_status ob = od_status d"
    "shape_compatibility ob = None"
  using assms
  by (auto simp: push_obligation_def add_obligation_def rbind_Inr_iff alloc_obligation_def Let_def
      with_obligation_def intro!: that)

lemma push_shape_Inr:
  assumes "push_shape_obligation m a c tx r = Inr tx'"
  obtains ob p where "tx' = with_obligation ob tx" "ob_kind ob = ShapeCompatible" "ob_status ob = ObOpen"
    "shape_compatibility ob = Some p" "left_type p = rel_left r" "right_type p = rel_right r"
  using assms
  by (auto simp: push_shape_obligation_def add_shape_obligation_def rbind_Inr_iff alloc_obligation_def Let_def
      with_obligation_def intro!: that)

lemma push_obligation_debt:
  assumes "push_obligation m a d tx = Inr tx'"
  shows "debt_step tx tx'"
    and "od_kind d = ShapeCompatible \<Longrightarrow> od_status d = ObOpen \<Longrightarrow>
      ids_below ''o'' (next_obligation (tx_alloc tx)) (obligations (tx_program tx)) \<Longrightarrow>
      \<not> assumptions_hold v (tx_program tx')"
  using assms
  by (auto elim!: push_obligation_Inr simp: with_obligation_debt with_obligation_assumptions open_debt_holds_def)

lemma push_shape_debt:
  assumes "push_shape_obligation m a c tx r = Inr tx'"
  shows "debt_step tx tx'"
    and "ids_below ''o'' (next_obligation (tx_alloc tx)) (obligations (tx_program tx)) \<Longrightarrow>
      assumptions_hold v (tx_program tx') \<Longrightarrow> relation_holds v r"
  using assms
  by (auto elim!: push_shape_Inr
      simp: with_obligation_debt with_obligation_assumptions open_debt_holds_def relation_holds_def)

text \<open>The debt of an operation: after it is recorded, an admissible valuation satisfies it.\<close>

lemma debt_step_ids:
  "debt_step tx tx' \<Longrightarrow> ids_below ''o'' (next_obligation (tx_alloc tx)) (obligations (tx_program tx)) \<Longrightarrow>
   ids_below ''o'' (next_obligation (tx_alloc tx')) (obligations (tx_program tx')) \<and>
   (\<forall>v. assumptions_hold v (tx_program tx') \<longrightarrow> assumptions_hold v (tx_program tx))"
  by (auto simp: debt_step_def)

lemma push_all_debt:
  assumes "rfold (push_shape_obligation m a c) tx rs = Inr tx'"
    and "ids_below ''o'' (next_obligation (tx_alloc tx)) (obligations (tx_program tx))"
  shows "debt_step tx tx'" "assumptions_hold v (tx_program tx') \<Longrightarrow> relations_hold v rs"
proof -
  have "debt_step tx tx' \<and> (assumptions_hold v (tx_program tx') \<longrightarrow> relations_hold v rs)"
    using assms
  proof (induction rs arbitrary: tx)
    case (Cons r rs)
    then obtain tx1 where p: "push_shape_obligation m a c tx r = Inr tx1"
        "rfold (push_shape_obligation m a c) tx1 rs = Inr tx'"
      by (auto simp: rbind_Inr_iff)
    note d = push_shape_debt(1) [OF p(1)]
    from Cons.IH [OF p(2)] debt_step_ids [OF d Cons.prems(2)]
    have r: "debt_step tx1 tx'" "assumptions_hold v (tx_program tx') \<longrightarrow> relations_hold v rs" by simp_all
    moreover have "assumptions_hold v (tx_program tx') \<Longrightarrow> assumptions_hold v (tx_program tx1)"
      using debt_step_ids [OF r(1)] debt_step_ids [OF d Cons.prems(2)] by blast
    ultimately show ?case
      using push_shape_debt(2) [OF p(1) Cons.prems(2), of v] debt_step_trans [OF d]
      by (auto simp: relations_hold_def)
  qed (simp add: debt_step_refl)
  then show "debt_step tx tx'" "assumptions_hold v (tx_program tx') \<Longrightarrow> relations_hold v rs" by simp_all
qed

lemma record_debt_sound:
  assumes "record_debt m s a op os rs tx = Inr tx'"
    and "ids_below ''o'' (next_obligation (tx_alloc tx)) (obligations (tx_program tx))"
  shows "debt_step tx tx'" "s = legacy_semantics \<Longrightarrow> \<not> assumptions_hold v (tx_program tx')"
    "assumptions_hold v (tx_program tx') \<Longrightarrow> relations_hold v rs"
proof -
  have "debt_step tx tx' \<and> (s = legacy_semantics \<longrightarrow> \<not> assumptions_hold v (tx_program tx')) \<and>
      (assumptions_hold v (tx_program tx') \<longrightarrow> relations_hold v rs)"
  proof (cases "s = legacy_semantics")
    case True
    with assms(1) have "push_obligation m a
        \<lparr>od_kind = ShapeCompatible, od_status = ObOpen,
         od_proposition = json_object [(''opcode'', JString (show_opcode op)),
                                       (''operands'', JArray (map JString os))],
         od_methods = [''add_constraint'', ''specialize_shape'']\<rparr> tx = Inr tx'" by (simp add: record_debt_def)
    from push_obligation_debt [OF this] assms(2) show ?thesis by simp
  next
    case False
    with assms(1) have "rfold (push_shape_obligation m a (OperationContext op os)) tx
        (remdups_adj (sort_key relation_key rs)) = Inr tx'" by (simp add: record_debt_def)
    from push_all_debt(1) [OF this assms(2)] push_all_debt(2) [OF this assms(2), of v] False show ?thesis by (auto simp: relations_hold_def)
  qed
  then show "debt_step tx tx'" "s = legacy_semantics \<Longrightarrow> \<not> assumptions_hold v (tx_program tx')"
    "assumptions_hold v (tx_program tx') \<Longrightarrow> relations_hold v rs" by simp_all
qed

subsection \<open>A new value\<close>

text \<open>The graph \<open>q\<close> is \<open>p\<close> with one more operation and its result.\<close>

definition adds_value :: "id_allocator \<Rightarrow> program \<Rightarrow> operation \<Rightarrow> value_def \<Rightarrow> program \<Rightarrow> bool" where
  "adds_value a p op def q \<longleftrightarrow>
     (let vid = ''v'' @ show_nat (Suc (next_value a)); oid = ''op'' @ show_nat (Suc (next_operation a)) in
      vals q = bmap_insert vid def (vals p) \<and> operations q = bmap_insert oid op (operations p) \<and>
      v_origin def = OperationOrigin oid \<and> op_results op = [vid] \<and> holes q = holes p \<and> outputs q = outputs p \<and>
      constraints q = constraints p \<and> obligations q = obligations p \<and>
      (parameters q = parameters p \<or>
       (\<exists>n. \<not> bmap_contains (parameters p) n \<and> parameters q = bmap_insert n vid (parameters p))) \<and>
      (constants q = constants p \<or>
       (op_opcode op = Constant \<and> (\<exists>c. constants q = bmap_insert vid c (constants p)))))"

definition after_value :: "id_allocator \<Rightarrow> id_allocator" where
  "after_value a = a\<lparr>next_operation := Suc (next_operation a), next_value := Suc (next_value a)\<rparr>"

lemma adds_value_fresh:
  assumes "graph_wf a p"
  shows "\<not> bmap_contains (vals p) (''v'' @ show_nat (Suc (next_value a)))"
    "\<not> bmap_contains (constants p) (''v'' @ show_nat (Suc (next_value a)))"
    "\<not> bmap_contains (operations p) (''op'' @ show_nat (Suc (next_operation a)))"
  using graph_wfD(1) [OF assms] by (auto simp: graph_ids_def intro!: ids_below_fresh simp del: append.simps)

lemma fresh_keeps:
  "\<not> bmap_contains m k \<Longrightarrow> bmap_get m i = Some x \<Longrightarrow> bmap_get (bmap_insert k y m) i = Some x"
  by (auto simp: bmap_contains_def)

lemma adds_value_extends:
  assumes wf: "graph_wf a p" and q: "adds_value a p op def q"
  shows "extends_graph p q"
proof -
  note fresh = adds_value_fresh [OF wf]
  have "bmap_get (constants p) i = Some c \<Longrightarrow> bmap_get (constants q) i = Some c" for i c
    using q fresh_keeps [OF fresh(2)] by (auto simp: adds_value_def Let_def simp del: append.simps bmap_get_insert)
  moreover have "bmap_get (parameters p) n = Some i \<Longrightarrow> bmap_get (parameters q) n = Some i" for n i
    using q fresh_keeps [of "parameters p"]
    by (auto simp: adds_value_def Let_def simp del: append.simps bmap_get_insert)
  moreover have "bmap_get (vals p) i = Some d \<Longrightarrow> bmap_get (vals q) i = Some d" for i d
    using q fresh_keeps [OF fresh(1)] by (auto simp: adds_value_def Let_def simp del: append.simps bmap_get_insert)
  moreover have "bmap_get (operations p) i = Some d \<Longrightarrow> bmap_get (operations q) i = Some d" for i d
    using q fresh_keeps [OF fresh(3)] by (auto simp: adds_value_def Let_def simp del: append.simps bmap_get_insert)
  ultimately show ?thesis by (simp add: extends_graph_def)
qed

lemma adds_value_linked:
  assumes wf: "graph_wf a p" and q: "adds_value a p op def q" and fit: "region_fitted p op"
  shows "linked q"
proof -
  obtain vid oid where v: "vals q = bmap_insert vid def (vals p)" and o: "operations q = bmap_insert oid op (operations p)"
    and d: "v_origin def = OperationOrigin oid" "op_results op = [vid]"
    and cs: "constants q = constants p \<or> op_opcode op = Constant \<and> (\<exists>c. constants q = bmap_insert vid c (constants p))"
    and fresh: "\<not> bmap_contains (vals p) vid" "\<not> bmap_contains (operations p) oid"
    using q adds_value_fresh [OF wf] unfolding adds_value_def Let_def by blast
  have new: "bmap_get (vals q) vid = Some def" "bmap_get (operations q) oid = Some op"
    by (simp_all add: v o)
  have ops: "bmap_get (operations p) k = Some x \<Longrightarrow> bmap_get (operations q) k = Some x" for k x
    unfolding o by (rule fresh_keeps [OF fresh(2)])
  have keep: "bmap_get (vals p) i = Some x \<Longrightarrow> bmap_get (vals q) i = Some x" for i x
    unfolding v by (rule fresh_keeps [OF fresh(1)])
  note l = graph_wf_linked [OF wf, unfolded linked_def]
  show ?thesis
    unfolding linked_def
  proof (intro conjI allI impI)
    show "bmap_ok (vals q)" using l by (simp add: v)
  next
    fix k x assume "bmap_get (operations q) k = Some x"
    then consider "k = oid" "x = op" | "bmap_get (operations p) k = Some x"
      by (cases "k = oid") (simp_all add: o)
    then have "region_fitted q x \<and>
        (\<exists>i def. op_results x = [i] \<and> bmap_get (vals q) i = Some def \<and> v_origin def = OperationOrigin k)"
    proof cases
      case 1
      with new(1) d region_fitted_mono [OF fit keep] show ?thesis by simp
    next
      case 2
      with l obtain i y where x: "region_fitted p x" "op_results x = [i]" "bmap_get (vals p) i = Some y"
          "v_origin y = OperationOrigin k" by blast
      from keep [OF x(3)] x(2,4) region_fitted_mono [OF x(1) keep] show ?thesis by simp
    qed
    then show "region_fitted q x"
      "\<exists>i def. op_results x = [i] \<and> bmap_get (vals q) i = Some def \<and> v_origin def = OperationOrigin k" by blast+
  next
    fix i x k assume i: "bmap_get (vals q) i = Some x" "v_origin x = OperationOrigin k"
    then consider "i = vid" "k = oid" | "bmap_get (vals p) i = Some x"
      using d(1) by (cases "i = vid") (simp_all add: v)
    then show "\<exists>op. bmap_get (operations q) k = Some op \<and> op_results op = [i]"
      using i(2) l ops new d(2) by cases blast+
  next
    fix i c assume "bmap_get (constants q) i = Some c"
    then consider "i = vid" "op_opcode op = Constant" | "bmap_get (constants p) i = Some c"
      using cs by (auto split: if_split_asm)
    then show "\<exists>def oid op. bmap_get (vals q) i = Some def \<and> v_origin def = OperationOrigin oid \<and>
        bmap_get (operations q) oid = Some op \<and> op_opcode op = Constant"
      using new d(1) l keep ops by cases blast+
  qed
qed

lemma adds_value_wf:
  assumes wf: "graph_wf a p" and q: "adds_value a p op def q" and fit: "region_fitted p op"
    and refs: "\<And>i. i \<in> set (op_operands op @ captures_of op) \<Longrightarrow> bmap_contains (vals p) i"
  shows "graph_wf (after_value a) q"
proof -
  let ?vid = "''v'' @ show_nat (Suc (next_value a))" and ?oid = "''op'' @ show_nat (Suc (next_operation a))"
  from q have v: "vals q = bmap_insert ?vid def (vals p)" and o: "operations q = bmap_insert ?oid op (operations p)"
    and d: "v_origin def = OperationOrigin ?oid"
    and same: "holes q = holes p" "outputs q = outputs p" "obligations q = obligations p"
    and ps: "parameters q = parameters p \<or> (\<exists>n. parameters q = bmap_insert n ?vid (parameters p))"
    and cs: "constants q = constants p \<or> (\<exists>c. constants q = bmap_insert ?vid c (constants p))"
    unfolding adds_value_def Let_def by blast+
  note ids = graph_wfD(1) [OF wf, unfolded graph_ids_def]
  have "ids_below ''v'' (Suc (next_value a)) (constants q)"
    using cs
  proof
    assume "constants q = constants p"
    with ids show ?thesis by (auto intro: ids_below_mono [of _ "next_value a"])
  next
    assume "\<exists>c. constants q = bmap_insert ?vid c (constants p)"
    with ids show ?thesis by (auto intro: ids_below_insert simp del: append.simps)
  qed
  moreover have "ids_below ''v'' (Suc (next_value a)) (vals q)" "ids_below ''op'' (Suc (next_operation a)) (operations q)"
    unfolding v o using ids by (blast intro: ids_below_insert)+
  moreover have "bmap_ok (parameters q)" using ps ids by (auto simp del: append.simps)
  ultimately have "graph_ids (after_value a) q"
    using ids by (simp add: graph_ids_def after_value_def same)
  moreover have "bmap_contains (vals q) i" if "i \<in> references q" for i
  proof -
    from that refs have "i \<in> references p \<or> bmap_contains (vals p) i"
      unfolding references_def o same by (auto split: if_split_asm simp del: append.simps)
    with graph_wfD(4) [OF wf] show ?thesis by (auto simp: v)
  qed
  moreover have "hole_values q"
    using graph_wfD(2) [OF wf] d unfolding hole_values_def same v by (auto split: if_split_asm simp del: append.simps)
  moreover have "parameter_values q"
  proof -
    have old: "\<exists>def' oid. bmap_get (vals q) i = Some def' \<and> v_origin def' = OperationOrigin oid"
      if "bmap_get (parameters p) n = Some i" for n i
      using graph_wfD(3) [OF wf] that d unfolding parameter_values_def v by (auto simp del: append.simps)
    moreover have "bmap_get (vals q) ?vid = Some def" by (simp add: v del: append.simps)
    ultimately show ?thesis
      using ps d unfolding parameter_values_def by (auto split: if_split_asm simp del: append.simps)
  qed
  ultimately show ?thesis using adds_value_linked [OF wf q fit] by (simp add: graph_wf_def)
qed

lemma adds_value_sound:
  assumes g: "sound_graph a p" and q: "adds_value a p op def q" and fit: "region_fitted p op"
    and refs: "\<And>i. i \<in> set (op_operands op @ captures_of op) \<Longrightarrow> bmap_contains (vals p) i"
    and typed: "\<And>v. assumptions_hold v p \<Longrightarrow> extends_graph p q \<Longrightarrow>
      definition_ok v q (''v'' @ show_nat (Suc (next_value a))) op (eval_type v (v_ty def))"
  shows "sound_graph (after_value a) q"
proof -
  let ?vid = "''v'' @ show_nat (Suc (next_value a))" and ?oid = "''op'' @ show_nat (Suc (next_operation a))"
  note wf = sound_graphD(1) [OF g]
  note ext = adds_value_extends [OF wf q]
  have same: "assumptions_hold v q \<longleftrightarrow> assumptions_hold v p" for v
    using q by (simp add: assumptions_hold_def adds_value_def Let_def)
  have "graph_typed v q" if v: "assumptions_hold v q" for v
  proof (rule graph_typed_extend [OF wf ext])
    show "graph_typed v p" using sound_graphD(2) [OF g] v same by blast
    fix i d assume i: "bmap_get (vals q) i = Some d" "\<not> bmap_contains (vals p) i"
    with q have "i = ?vid" "d = def"
      by (auto simp: adds_value_def Let_def bmap_contains_def split: if_split_asm simp del: append.simps)
    moreover have "bmap_get (operations q) ?oid = Some op" "v_origin def = OperationOrigin ?oid"
      using q by (simp_all add: adds_value_def Let_def del: append.simps)
    ultimately show "value_ok v q i d"
      using typed [OF _ ext, of v] v same by (simp add: value_ok_def del: append.simps)
  next
    fix i d k h' w
    assume "bmap_get (holes q) k = Some h'" "filled_with h' = Some w"
    with q show "(\<exists>h. bmap_get (holes p) k = Some h \<and> filled_with h = Some w) \<or>
        declared_dty v q w = Some (eval_type v (v_ty d))" by (simp add: adds_value_def Let_def)
  qed
  then show ?thesis using adds_value_wf [OF wf q fit refs] by (simp add: sound_graph_def)
qed

lemma insert_operation_adds:
  assumes "insert_operation op os attrs r a t n tx = (vid, tx')"
  shows "\<exists>d. adds_value (tx_alloc tx) (tx_program tx)
      \<lparr>op_id = ''op'' @ show_nat (Suc (next_operation (tx_alloc tx))), op_opcode = op, op_operands = os,
       op_results = [vid], op_attributes = attrs, op_region = r, op_provenance = a, op_result_types = [t]\<rparr>
      d (tx_program tx') \<and> v_ty d = t"
    "tx_alloc tx' = after_value (tx_alloc tx)" "vid = ''v'' @ show_nat (Suc (next_value (tx_alloc tx)))"
    "tx_bindings tx' = tx_bindings tx" "tx_facts tx' = tx_facts tx"
  using assms
  by (auto simp: insert_operation_def alloc_operation_def alloc_value_def Let_def adds_value_def after_value_def)

subsection \<open>References resolve to values\<close>

lemma placeholder_value: "graph_wf a p \<Longrightarrow> bmap_get (holes p) k = Some h \<Longrightarrow> bmap_contains (vals p) (placeholder h)"
  by (rule graph_wfD(4)) (auto simp: references_def)

lemma resolve_value_known:
  assumes wf: "graph_wf a p" and b: "bindings_ok p bs" and r: "resolve_value ref p bs = Inr i"
  shows "bmap_contains (vals p) i"
proof (cases "bmap_get bs ref")
  case (Some bd)
  with b have ok: "binding_ok p bd" by (auto simp: bindings_ok_def)
  from r Some have "resolve_binding p bd = Inr i" by (simp add: resolve_value_def)
  with ok placeholder_value [OF wf] show ?thesis
    by (cases bd) (auto simp: resolve_binding_def binding_ok_def ok_or_Inr_iff)
next
  case None
  have outs: "bmap_get (outputs p) n = Some j \<Longrightarrow> bmap_contains (vals p) j" for n j
    by (rule graph_wfD(4) [OF wf]) (auto simp: references_def)
  have params: "bmap_get (parameters p) n = Some j \<Longrightarrow> bmap_contains (vals p) j" for n j
    using graph_wfD(3) [OF wf] by (auto simp: parameter_values_def bmap_contains_def)
  have keys: "n < length (vals p) \<Longrightarrow> bmap_contains (vals p) (bmap_keys (vals p) ! n)" for n
    using nth_mem [of n "bmap_keys (vals p)"] unfolding bmap_keys_set by (simp add: bmap_keys_def)
  show ?thesis
    using r None outs params keys
    by (auto simp: resolve_value_def Let_def ok_or_Inr_iff split: option.split_asm if_split_asm)
qed

lemma resolve_hole_known: "bindings_ok p bs \<Longrightarrow> resolve_hole ref p bs = Inr k \<Longrightarrow> bmap_contains (holes p) k"
  by (auto simp: resolve_hole_def Let_def bindings_ok_def binding_ok_def
      split: option.split_asm binding.split_asm if_split_asm)

subsection \<open>Bindings follow the graph\<close>

lemma bindings_ok_mono:
  assumes "bindings_ok p bs" "\<And>i. bmap_contains (vals p) i \<Longrightarrow> bmap_contains (vals q) i"
    "\<And>k. bmap_contains (holes p) k \<Longrightarrow> bmap_contains (holes q) k"
  shows "bindings_ok q bs"
  unfolding bindings_ok_def
proof (intro allI impI)
  fix n b assume "bmap_get bs n = Some b"
  with assms(1) have "binding_ok p b" "strip_prefix ''$'' n \<noteq> None" unfolding bindings_ok_def by blast+
  with assms(2,3) show "binding_ok q b \<and> strip_prefix ''$'' n \<noteq> None" by (simp add: binding_ok_def split: binding.splits)
qed

lemma bindings_ok_insert:
  "bindings_ok p bs \<Longrightarrow> ensure_new_binding bs n = Inr u \<Longrightarrow> binding_ok p b \<Longrightarrow> bindings_ok p (bmap_insert n b bs)"
  by (auto simp: bindings_ok_def ensure_new_binding_def split: if_split_asm)

lemma facts_ok_constraints: "facts_ok s p f \<Longrightarrow> constraints q = constraints p \<Longrightarrow> facts_ok s q f"
  by (simp add: facts_ok_def split: option.splits)

text \<open>The tail that three actions share: the new value is bound to a name.\<close>

lemma bound_value_sound:
  assumes s: "sound_txn s tx" and q: "adds_value (tx_alloc tx) (tx_program tx) op def q"
    and tx': "tx_program tx' = q" "tx_alloc tx' = after_value (tx_alloc tx)"
      "tx_bindings tx' = bmap_insert n (BValue (''v'' @ show_nat (Suc (next_value (tx_alloc tx))))) (tx_bindings tx)"
      "tx_facts tx' = tx_facts tx"
    and n: "ensure_new_binding (tx_bindings tx) n = Inr u"
    and fit: "region_fitted (tx_program tx) op"
    and refs: "\<And>i. i \<in> set (op_operands op @ captures_of op) \<Longrightarrow> bmap_contains (vals (tx_program tx)) i"
    and typed: "\<And>v. assumptions_hold v (tx_program tx) \<Longrightarrow> extends_graph (tx_program tx) q \<Longrightarrow>
      definition_ok v q (''v'' @ show_nat (Suc (next_value (tx_alloc tx)))) op (eval_type v (v_ty def))"
  shows "sound_txn s tx' \<and> alloc_le (tx_alloc tx) (tx_alloc tx')"
proof -
  from s have g: "sound_graph (tx_alloc tx) (tx_program tx)" and b: "bindings_ok (tx_program tx) (tx_bindings tx)"
    and f: "facts_ok s (tx_program tx) (tx_facts tx)" by (simp_all add: sound_txn_def)
  from q have vals: "vals q = bmap_insert (''v'' @ show_nat (Suc (next_value (tx_alloc tx)))) def (vals (tx_program tx))"
    and same: "holes q = holes (tx_program tx)" "constraints q = constraints (tx_program tx)"
    unfolding adds_value_def Let_def by blast+
  have "bindings_ok q (tx_bindings tx)"
    by (rule bindings_ok_mono [OF b]) (simp_all add: vals same)
  then have "bindings_ok q (tx_bindings tx')"
    unfolding tx'(3) by (rule bindings_ok_insert [OF _ n]) (simp add: binding_ok_def vals)
  moreover have "sound_graph (after_value (tx_alloc tx)) q"
    by (rule adds_value_sound [OF g q fit refs typed])
  moreover have "facts_ok s q (tx_facts tx')" unfolding tx'(4) by (rule facts_ok_constraints [OF f same(2)])
  moreover have "alloc_le (tx_alloc tx) (after_value (tx_alloc tx))" by (simp add: alloc_le_def after_value_def)
  ultimately show ?thesis by (simp add: sound_txn_def tx'(1,2))
qed

subsection \<open>Parameters and constants\<close>

lemma create_parameter_sound:
  assumes c: "create_parameter m a b n t tx = Inr tx'" and s: "sound_txn s tx"
  shows "sound_txn s tx' \<and> alloc_le (tx_alloc tx) (tx_alloc tx')"
proof -
  let ?attrs = "[(''name'', JString n), (''type'', JString (show_type t))]"
  obtain vid tx1 where ins: "insert_operation Parameter [] ?attrs None a t (Some n) tx = (vid, tx1)" by fastforce
  let ?p1 = "tx_program tx1"
  let ?tx2 = "bind_result b (BValue vid) t (tx1\<lparr>tx_program := ?p1\<lparr>parameters := bmap_insert n vid (parameters ?p1)\<rparr>\<rparr>)"
  from c ins obtain d where fresh: "\<not> bmap_contains (parameters (tx_program tx)) n"
      and push: "push_obligation m a d ?tx2 = Inr tx'" and b: "ensure_new_binding (tx_bindings tx) b = Inr ()"
    by (auto simp: create_parameter_def rbind_Inr_iff Let_def split: if_split_asm)
  note i = insert_operation_adds [OF ins]
  from i(1) obtain op def where add: "adds_value (tx_alloc tx) (tx_program tx) op def ?p1"
    and op: "op_opcode op = Parameter" "op_operands op = []" "op_region op = None" "v_ty def = t" by fastforce
  have p1: "parameters ?p1 = parameters (tx_program tx)"
    using ins by (auto simp: insert_operation_def Let_def split: prod.split_asm)
  let ?q = "?p1\<lparr>parameters := bmap_insert n vid (parameters ?p1)\<rparr>"
  have "adds_value (tx_alloc tx) (tx_program tx) op def ?q"
    using add fresh by (auto simp: adds_value_def Let_def p1 i(3))
  then have "sound_txn s ?tx2 \<and> alloc_le (tx_alloc tx) (tx_alloc ?tx2)"
  proof (rule bound_value_sound [OF s])
    show "tx_bindings ?tx2 = bmap_insert b (BValue (''v'' @ show_nat (Suc (next_value (tx_alloc tx))))) (tx_bindings tx)"
      by (simp add: bind_result_def i(3,4) del: append.simps)
    show "ensure_new_binding (tx_bindings tx) b = Inr ()" by (rule b)
    show "\<And>v. definition_ok v ?q (''v'' @ show_nat (Suc (next_value (tx_alloc tx)))) op (eval_type v (v_ty def))"
      using op(1) i(3) by (auto simp: definition_ok_def simp del: append.simps)
  qed (simp_all add: bind_result_def i op captures_of_def region_fitted_def)
  with debt_step_txn [OF push_obligation_debt(1) [OF push]] show ?thesis by (blast intro: alloc_le_trans)
qed

lemma create_constant_sound:
  assumes c: "create_constant a b t j tx = Inr tx'" and s: "sound_txn s tx"
  shows "sound_txn s tx' \<and> alloc_le (tx_alloc tx) (tx_alloc tx')"
proof -
  from c obtain e c where t: "t = Scalar e" and j: "from_json e j = Inr c"
      and b: "ensure_new_binding (tx_bindings tx) b = Inr ()"
    by (auto simp: create_constant_def rbind_Inr_iff split: ty.split_asm sum.split_asm)
  obtain vid tx1 where ins: "insert_operation Constant [] [(''value'', constant_json c)] None a t None tx = (vid, tx1)"
    by fastforce
  let ?p1 = "tx_program tx1"
  let ?q = "?p1\<lparr>constants := bmap_insert vid c (constants ?p1)\<rparr>"
  from \<open>create_constant a b t j tx = Inr tx'\<close> ins t j have tx': "tx' = bind_result b (BValue vid) t (tx1\<lparr>tx_program := ?q\<rparr>)"
    by (auto simp: create_constant_def rbind_Inr_iff Let_def)
  note i = insert_operation_adds [OF ins]
  from i(1) obtain op def where add: "adds_value (tx_alloc tx) (tx_program tx) op def ?p1"
    and op: "op_opcode op = Constant" "op_operands op = []" "op_region op = None" "v_ty def = t" by fastforce
  have p1: "constants ?p1 = constants (tx_program tx)"
    using ins by (auto simp: insert_operation_def Let_def split: prod.split_asm)
  have "adds_value (tx_alloc tx) (tx_program tx) op def ?q"
    using add op(1) by (auto simp: adds_value_def Let_def p1 i(3))
  then show ?thesis
  proof (rule bound_value_sound [OF s])
    show "tx_bindings tx' = bmap_insert b (BValue (''v'' @ show_nat (Suc (next_value (tx_alloc tx))))) (tx_bindings tx)"
      by (simp add: tx' bind_result_def i(3,4) del: append.simps)
    show "ensure_new_binding (tx_bindings tx) b = Inr ()" by (rule b)
    from from_json_typed [OF j] have "constant_typed c (e, None)" by (simp add: constant_typed_def)
    then show "\<And>v. definition_ok v ?q (''v'' @ show_nat (Suc (next_value (tx_alloc tx)))) op (eval_type v (v_ty def))"
      using op t i(3) by (simp add: definition_ok_def del: append.simps)
  qed (simp_all add: tx' bind_result_def i op captures_of_def region_fitted_def)
qed

end
