(* ===== verification/References.thy ===== *)
theory References
  imports Transaction_Typing
begin

text \<open>
  The references of a client (\<open>resolve_value\<close>): a temporary, a persistent identifier with or
  without an at sign, a one-based index into the table of live values, the name of a parameter or
  of an output. The identifiers of a well formed graph, its temporaries and the indices cannot be
  confused with each other; a name yields to an index and to an identifier, and the name of an
  output to that of a parameter.
\<close>

subsection \<open>The kinds of reference are disjoint\<close>

lemma value_id_shape:
  assumes "graph_wf a p" "bmap_contains (vals p) i"
  obtains j where "i = ''v'' @ show_nat j"
  using graph_wfD(1) [OF assms(1)] assms(2) by (auto simp: graph_ids_def ids_below_def)

lemma no_temporary: "bindings_ok p bs \<Longrightarrow> strip_prefix ''$'' n = None \<Longrightarrow> bmap_get bs n = None"
  unfolding bindings_ok_def by (metis not_None_eq)

lemma value_id_not_bound:
  assumes "graph_wf a p" "bindings_ok p bs" "bmap_contains (vals p) i"
  shows "bmap_get bs i = None"
proof -
  from value_id_shape [OF assms(1,3)] obtain j where "i = ''v'' @ show_nat j" .
  then have "strip_prefix ''$'' i = None" by simp
  with assms(2) show ?thesis by (rule no_temporary)
qed

lemma at_not_bound: "bindings_ok p bs \<Longrightarrow> bmap_get bs (''@'' @ r) = None"
  by (erule no_temporary) simp

lemma value_id_not_number:
  assumes "graph_wf a p" "bmap_contains (vals p) i"
  shows "parse_u64 i = None"
proof -
  from value_id_shape [OF assms] obtain j where i: "i = ''v'' @ show_nat j" .
  have "\<not> is_ascii_digit (CHR ''v'')" by code_simp
  then show ?thesis by (intro parse_u64_bad [of "CHR ''v''"]) (simp_all add: i)
qed

lemma value_id_not_at: "graph_wf a p \<Longrightarrow> bmap_contains (vals p) i \<Longrightarrow> strip_at i = i"
  by (erule value_id_shape, assumption) (simp add: strip_at_def)

lemma strip_at_at [simp]: "strip_at (CHR ''@'' # r) = r"
  by (simp add: strip_at_def)

subsection \<open>What each kind resolves to\<close>

lemma resolve_identifier:
  assumes "graph_wf a p" "bindings_ok p bs"
  shows "resolve_value i p bs = Inr i \<longleftrightarrow> bmap_contains (vals p) i"
    and "resolve_value (''@'' @ i) p bs = Inr i \<longleftrightarrow> bmap_contains (vals p) i"
proof -
  have "resolve_value i p bs = Inr i" "resolve_value (''@'' @ i) p bs = Inr i" if "bmap_contains (vals p) i"
    using that value_id_not_bound [OF assms that] value_id_not_number [OF assms(1) that]
      value_id_not_at [OF assms(1) that] at_not_bound [OF assms(2), of i]
    by (simp_all add: resolve_value_def)
  with resolve_value_known [OF assms] show "resolve_value i p bs = Inr i \<longleftrightarrow> bmap_contains (vals p) i"
    "resolve_value (''@'' @ i) p bs = Inr i \<longleftrightarrow> bmap_contains (vals p) i" by blast+
qed

text \<open>The index of a value is its rank in the table.\<close>

lemma sorted_rank:
  assumes "sorted_wrt (<) (ks :: 'a :: linorder list)" "k < length ks"
  shows "card {j \<in> set ks. j \<le> ks ! k} = Suc k"
proof -
  have "ks ! m \<le> ks ! k \<longleftrightarrow> m \<le> k" if "m < length ks" for m
    using assms that by (metis leD le_less linorder_le_less_linear nat_le_linear sorted_wrt_iff_nth_less)
  then have "{j \<in> set ks. j \<le> ks ! k} = nth ks ` {0..<Suc k}"
    using assms(2) by (auto simp: set_conv_nth less_Suc_eq_le)
  also have "\<dots> = set (take (Suc k) ks)" using assms(2) by (intro nth_image) simp
  finally have "{j \<in> set ks. j \<le> ks ! k} = set (take (Suc k) ks)" .
  moreover have "distinct (take (Suc k) ks)" using assms(1) by (simp add: strict_sorted_iff)
  ultimately show ?thesis using assms(2) by (simp add: distinct_card)
qed

lemma resolve_index:
  assumes "graph_wf a p" "bindings_ok p bs" "in_u64 n"
  shows "resolve_value (''@'' @ show_nat n) p bs = Inr i \<longleftrightarrow>
    bmap_contains (vals p) i \<and> card {j. bmap_contains (vals p) j \<and> j \<le> i} = n"
proof -
  let ?ks = "bmap_keys (vals p)"
  have sorted: "sorted_wrt (<) ?ks" using graph_wf_linked [OF assms(1)] by (simp add: linked_def bmap_ok_def)
  have len: "length ?ks = length (vals p)" by (simp add: bmap_keys_def)
  have "resolve_value (''@'' @ show_nat n) p bs = Inr i \<longleftrightarrow> (\<exists>k < length ?ks. n = Suc k \<and> i = ?ks ! k)"
    using at_not_bound [OF assms(2), of "show_nat n"] parse_u64_show [OF assms(3)]
    by (cases n) (auto simp: resolve_value_def len)
  also have "\<dots> \<longleftrightarrow> i \<in> set ?ks \<and> card {j \<in> set ?ks. j \<le> i} = n"
    using sorted_rank [OF sorted] by (auto simp: in_set_conv_nth)
  finally show ?thesis by (simp add: bmap_keys_set)
qed

lemma resolve_name:
  assumes "bindings_ok p bs" "parse_u64 name = None" "\<not> bmap_contains (vals p) name"
  shows "resolve_value (''@'' @ name) p bs = Inr i \<longleftrightarrow>
    bmap_get (parameters p) name = Some i \<or> bmap_get (parameters p) name = None \<and> bmap_get (outputs p) name = Some i"
  using at_not_bound [OF assms(1), of name] assms(2,3)
  by (auto simp: resolve_value_def ok_or_Inr_iff split: option.split)

lemma resolve_bare:
  assumes "bindings_ok p bs" "strip_prefix ''$'' r = None" "strip_prefix ''@'' r = None"
  shows "resolve_value r p bs = resolve_value (''@'' @ r) p bs"
  using no_temporary [OF assms(1,2)] at_not_bound [OF assms(1), of r] assms(3)
  by (simp add: resolve_value_def strip_at_def)

lemma resolve_temporary:
  "resolve_value t p (bmap_insert t (BValue i) bs) = Inr i"
  "resolve_value t p (bmap_insert t (BHole k) bs) = Inr i \<longleftrightarrow> (\<exists>h. bmap_get (holes p) k = Some h \<and> i = placeholder h)"
  "\<not> is_ok (resolve_value t p (bmap_insert t (BDimension d) bs))"
  by (auto simp: resolve_value_def resolve_binding_def ok_or_Inr_iff is_ok_def)

lemma resolve_value_cases:
  assumes "graph_wf a p" "bindings_ok p bs"
  shows "case resolve_value ref p bs of
      Inr i \<Rightarrow> bmap_contains (vals p) i
    | Inl f \<Rightarrow> \<exists>c m. f = Fail (agent_error_new c m) \<and> c \<in> {UnknownReference, TypeMismatch}"
proof (cases "resolve_value ref p bs")
  case (Inl f)
  then show ?thesis
    by (auto simp: resolve_value_def resolve_binding_def Let_def ok_or_Inl_iff
        split: option.split_asm binding.split_asm if_split_asm)
qed (use resolve_value_known [OF assms] in simp)

end
