(* ===== verification/Action_Typing.thy ===== *)
theory Action_Typing
  imports Transaction_Typing
begin

text \<open>
  The remaining actions: dimensions, outputs, constraints and holes, operations, and freezing.
  Together with \<open>Transaction_Typing\<close> they show that every action keeps the invariant
  \<open>sound_txn\<close>, and so does a whole transaction.
\<close>

subsection \<open>Dimensions, outputs, forks\<close>

lemma assumptions_hold_sub:
  assumes "assumptions_hold v q" "set (constraints p) \<subseteq> set (constraints q)"
    and "\<And>k h. bmap_get (holes p) k = Some h \<Longrightarrow>
      \<exists>h'. bmap_get (holes q) k = Some h' \<and> shape_constraints h' = shape_constraints h"
    and "\<And>k ob. bmap_get (obligations p) k = Some ob \<Longrightarrow> open_debt_holds v ob"
  shows "assumptions_hold v p"
  unfolding assumptions_hold_def
proof (intro conjI allI impI)
  show "\<forall>c\<in>set (constraints p). satisfies v c" using assms(1,2) by (auto simp: assumptions_hold_def)
  fix k h assume "bmap_get (holes p) k = Some h"
  from assms(3) [OF this] assms(1) show "\<forall>c\<in>set (shape_constraints h). satisfies v c"
    unfolding assumptions_hold_def by metis
qed (rule assms(4))

text \<open>Fields that the graph invariant does not read.\<close>

lemma sound_graph_dimensions [simp]:
  "sound_graph a (p\<lparr>dimensions := x, dimension_names := y\<rparr>) \<longleftrightarrow> sound_graph a p"
proof -
  let ?q = "p\<lparr>dimensions := x, dimension_names := y\<rparr>"
  have "declared_dty v ?q = declared_dty v p" for v by (rule ext) (simp add: declared_dty_def)
  then have "value_ok v ?q i def = value_ok v p i def" for v i def
    by (cases "v_origin def") (simp_all add: value_ok_def definition_ok_def scalar_captures_def scalar_value_of_def)
  then show ?thesis
    by (simp add: sound_graph_def graph_typed_def graph_wf_def graph_ids_def references_def hole_values_def
        parameter_values_def linked_same [of ?q p] assumptions_hold_def)
qed

lemma sound_graph_alloc:
  "next_value b = next_value a \<Longrightarrow> next_operation b = next_operation a \<Longrightarrow> next_hole b = next_hole a \<Longrightarrow>
   next_obligation b = next_obligation a \<Longrightarrow> sound_graph b p \<longleftrightarrow> sound_graph a p"
  by (simp add: sound_graph_def graph_wf_def graph_ids_def)

lemma define_dimension_sound:
  assumes d: "define_dimension s a b n cs tx = Inr tx'" and t: "sound_txn s tx"
  shows "sound_txn s tx' \<and> alloc_le (tx_alloc tx) (tx_alloc tx')"
proof -
  note simps = define_dimension_def rbind_Inr_iff Let_def alloc_dimension_def
  from d obtain x y where p: "tx_program tx' = (tx_program tx)\<lparr>dimensions := x, dimension_names := y\<rparr>"
    by (auto simp: simps split: if_split_asm)
  from d have al: "tx_alloc tx' = (tx_alloc tx)\<lparr>next_dimension := Suc (next_dimension (tx_alloc tx))\<rparr>"
    by (auto simp: simps split: if_split_asm)
  from d have bs: "tx_bindings tx' = (case b of None \<Rightarrow> tx_bindings tx
      | Some k \<Rightarrow> bmap_insert k (BDimension (''d'' @ show_nat (Suc (next_dimension (tx_alloc tx))))) (tx_bindings tx))"
    by (cases b) (auto simp: simps split: if_split_asm)
  from d have new: "(case b of None \<Rightarrow> Inr () | Some k \<Rightarrow> ensure_new_binding (tx_bindings tx) k) = Inr ()"
    by (auto simp: simps split: if_split_asm)
  from d obtain nn where fs: "(case tx_facts tx of None \<Rightarrow> Inr None | Some f \<Rightarrow> rmap Some (declare_symbol n nn f)) = Inr (tx_facts tx')"
    by (auto simp: simps split: if_split_asm)
  have "sound_graph (tx_alloc tx') (tx_program tx')"
    using t sound_graph_alloc [of "tx_alloc tx'" "tx_alloc tx"] by (simp add: p al sound_txn_def)
  moreover have "bindings_ok (tx_program tx) (tx_bindings tx)" using t by (simp add: sound_txn_def)
  then have "bindings_ok (tx_program tx') (tx_bindings tx)"
    by (rule bindings_ok_mono) (simp_all add: p)
  then have "bindings_ok (tx_program tx') (tx_bindings tx')"
    using new by (cases b) (simp_all add: bs bindings_ok_insert binding_ok_def del: append.simps)
  moreover have "facts_ok s (tx_program tx') (tx_facts tx')"
    using t fs by (cases "tx_facts tx")
      (auto simp: p sound_txn_def facts_ok_def rmap_Inr_iff declare_symbol_inv)
  moreover have "alloc_le (tx_alloc tx) (tx_alloc tx')" by (simp add: al alloc_le_def)
  ultimately show ?thesis by (simp add: sound_txn_def)
qed

lemma set_output_sound:
  assumes o: "set_output n r tx = Inr tx'" and t: "sound_txn s tx"
  shows "sound_txn s tx' \<and> alloc_le (tx_alloc tx) (tx_alloc tx')"
proof -
  let ?p = "tx_program tx"
  from o obtain i where i: "resolve_value r ?p (tx_bindings tx) = Inr i"
    and tx': "tx' = tx\<lparr>tx_program := ?p\<lparr>outputs := bmap_insert n i (outputs ?p)\<rparr>\<rparr>"
    by (auto simp: set_output_def rbind_Inr_iff Let_def)
  let ?q = "?p\<lparr>outputs := bmap_insert n i (outputs ?p)\<rparr>"
  from t have g: "sound_graph (tx_alloc tx) ?p" and b: "bindings_ok ?p (tx_bindings tx)"
    and f: "facts_ok s ?p (tx_facts tx)" by (simp_all add: sound_txn_def)
  note wf = sound_graphD(1) [OF g]
  have "j \<in> references ?q \<Longrightarrow> j \<in> references ?p \<or> j = i" for j
    by (auto simp: references_def split: if_split_asm)
  with resolve_value_known [OF wf b i] graph_wfD(4) [OF wf] have "graph_wf (tx_alloc tx) ?q"
    using wf by (auto simp: graph_wf_def graph_ids_def hole_values_def parameter_values_def linked_same [of ?q ?p])
  moreover have "graph_typed v ?q" if "assumptions_hold v ?q" for v
  proof (rule graph_typed_extend [OF wf])
    show "graph_typed v ?p" using sound_graphD(2) [OF g, of v] that by (simp add: assumptions_hold_def)
  qed (simp_all add: extends_graph_def bmap_contains_def)
  ultimately have "sound_graph (tx_alloc tx) ?q" by (simp add: sound_graph_def)
  moreover have "bindings_ok ?q (tx_bindings tx)" by (rule bindings_ok_mono [OF b]) simp_all
  ultimately show ?thesis using facts_ok_constraints [OF f, of ?q] by (simp add: tx' sound_txn_def)
qed

subsection \<open>Holes\<close>

lemma create_hole_sound:
  assumes c: "create_hole m a b t cs tx = Inr tx'" and s: "sound_txn s tx"
  shows "sound_txn s tx' \<and> alloc_le (tx_alloc tx) (tx_alloc tx')"
proof -
  let ?p = "tx_program tx" and ?a = "tx_alloc tx"
  let ?hid = "''h'' @ show_nat (Suc (next_hole ?a))" and ?vid = "''v'' @ show_nat (Suc (next_value ?a))"
  let ?def = "\<lparr>v_id = ?vid, v_ty = t, v_origin = HoleOrigin ?hid, v_name = None\<rparr>"
  let ?h = "\<lparr>hole_id = ?hid, placeholder = ?vid, expected_type = t, shape_constraints = cs,
              hole_status = HoleOpen, hole_provenance = a, filled_with = None\<rparr>"
  let ?q = "?p\<lparr>vals := bmap_insert ?vid ?def (vals ?p), holes := bmap_insert ?hid ?h (holes ?p)\<rparr>"
  let ?b = "?a\<lparr>next_hole := Suc (next_hole ?a), next_value := Suc (next_value ?a)\<rparr>"
  let ?tx1 = "bind_result b (BHole ?hid) t (tx\<lparr>tx_alloc := ?b, tx_program := ?q\<rparr>)"
  from c obtain d where push: "push_obligation m a d ?tx1 = Inr tx'" and new: "ensure_new_binding (tx_bindings tx) b = Inr ()"
    by (auto simp: create_hole_def rbind_Inr_iff Let_def alloc_hole_def alloc_value_def)
  from s have g: "sound_graph ?a ?p" and bs: "bindings_ok ?p (tx_bindings tx)"
    and f: "facts_ok s ?p (tx_facts tx)" by (simp_all add: sound_txn_def)
  note wf = sound_graphD(1) [OF g]
  note ids = graph_wfD(1) [OF wf, unfolded graph_ids_def]
  from ids have fv: "\<not> bmap_contains (vals ?p) ?vid" and fh: "\<not> bmap_contains (holes ?p) ?hid"
    by (auto intro!: ids_below_fresh simp del: append.simps)
  have ext: "extends_graph ?p ?q"
    using fresh_keeps [OF fv] by (simp add: extends_graph_def del: append.simps bmap_get_insert)
  have ids': "ids_below ''v'' (Suc (next_value ?a)) (bmap_insert ?vid ?def (vals ?p))"
    "ids_below ''h'' (Suc (next_hole ?a)) (bmap_insert ?hid ?h (holes ?p))"
    "ids_below ''v'' (Suc (next_value ?a)) (constants ?p)"
    using ids by (auto intro: ids_below_insert ids_below_mono [of _ "next_value ?a"] simp del: append.simps)
  have "graph_wf ?b ?q"
    unfolding graph_wf_def
  proof (intro conjI ballI)
    show "graph_ids ?b ?q" using ids ids' by (simp add: graph_ids_def del: append.simps)
    fix i assume "i \<in> references ?q"
    then have "i \<in> references ?p \<or> i = ?vid"
      by (auto simp: references_def split: if_split_asm simp del: append.simps)
    with graph_wfD(4) [OF wf] show "bmap_contains (vals ?q) i" by (auto simp del: append.simps)
  next
    have "k \<noteq> ?hid" if "bmap_get (vals ?p) i = Some d" "v_origin d = HoleOrigin k" for i d k
      using graph_wfD(2) [OF wf] that fh unfolding hole_values_def bmap_contains_def by fastforce
    then show "hole_values ?q"
      using graph_wfD(2) [OF wf] unfolding hole_values_def by (auto split: if_split_asm simp del: append.simps)
    show "parameter_values ?q"
      using graph_wfD(3) [OF wf] fv
      unfolding parameter_values_def bmap_contains_def by (fastforce simp del: append.simps)
    have old: "bmap_get (vals ?p) i = Some d \<Longrightarrow> bmap_get (vals ?q) i = Some d" for i d
      using fresh_keeps [OF fv] by (simp del: append.simps bmap_get_insert)
    have new: "bmap_get (vals ?q) i = Some d \<Longrightarrow> v_origin d = OperationOrigin k \<Longrightarrow> bmap_get (vals ?p) i = Some d" for i d k
      by (auto split: if_split_asm simp del: append.simps)
    note l = graph_wf_linked [OF wf, unfolded linked_def]
    show "linked ?q"
      unfolding linked_def
    proof (intro conjI allI impI)
      show "bmap_ok (vals ?q)" using l by (simp del: append.simps)
    next
      fix k x assume "bmap_get (operations ?q) k = Some x"
      then have "bmap_get (operations ?p) k = Some x" by simp
      with l obtain i y where x: "region_fitted ?p x" "op_results x = [i]" "bmap_get (vals ?p) i = Some y"
          "v_origin y = OperationOrigin k" by blast
      show "region_fitted ?q x" by (rule region_fitted_mono [OF x(1) old])
      show "\<exists>i d. op_results x = [i] \<and> bmap_get (vals ?q) i = Some d \<and> v_origin d = OperationOrigin k"
        using old [OF x(3)] x(2,4) by blast
    next
      fix i x k assume "bmap_get (vals ?q) i = Some x" "v_origin x = OperationOrigin k"
      with new l show "\<exists>op. bmap_get (operations ?q) k = Some op \<and> op_results op = [i]" by simp blast
    next
      fix i c assume "bmap_get (constants ?q) i = Some c"
      then have "bmap_get (constants ?p) i = Some c" by simp
      with l obtain d k x where "bmap_get (vals ?p) i = Some d" "v_origin d = OperationOrigin k"
          "bmap_get (operations ?p) k = Some x" "op_opcode x = Constant" by blast
      with old [OF this(1)] show "\<exists>d oid op. bmap_get (vals ?q) i = Some d \<and> v_origin d = OperationOrigin oid \<and>
          bmap_get (operations ?q) oid = Some op \<and> op_opcode op = Constant" by (simp del: append.simps bmap_get_insert)
    qed
  qed
  moreover have "graph_typed v ?q" if v: "assumptions_hold v ?q" for v
  proof (rule graph_typed_extend [OF wf ext])
    have "assumptions_hold v ?p"
      by (rule assumptions_hold_sub [OF v])
         (use v fresh_keeps [OF fh] in \<open>auto simp: assumptions_hold_def simp del: append.simps\<close>)
    then show "graph_typed v ?p" by (rule sound_graphD(2) [OF g])
  next
    fix i d assume "bmap_get (vals ?q) i = Some d" "\<not> bmap_contains (vals ?p) i"
    then have "d = ?def" by (auto simp: bmap_contains_def split: if_split_asm simp del: append.simps)
    then show "value_ok v ?q i d" by (simp add: value_ok_def del: append.simps)
  next
    fix i d k h' w assume "bmap_get (holes ?q) k = Some h'" "filled_with h' = Some w"
    then show "(\<exists>h. bmap_get (holes ?p) k = Some h \<and> filled_with h = Some w) \<or>
        declared_dty v ?q w = Some (eval_type v (v_ty d))"
      by (auto split: if_split_asm simp del: append.simps)
  qed
  ultimately have "sound_graph ?b ?q" by (simp add: sound_graph_def)
  moreover have "bindings_ok ?q (tx_bindings tx)"
    by (rule bindings_ok_mono [OF bs]) (simp_all del: append.simps)
  then have "bindings_ok ?q (bmap_insert b (BHole ?hid) (tx_bindings tx))"
    by (rule bindings_ok_insert [OF _ new]) (simp add: binding_ok_def del: append.simps)
  ultimately have "sound_txn s ?tx1"
    using facts_ok_constraints [OF f, of ?q] by (simp add: sound_txn_def bind_result_def)
  moreover have "alloc_le ?a (tx_alloc ?tx1)" by (simp add: bind_result_def alloc_le_def)
  ultimately show ?thesis
    using debt_step_txn [OF push_obligation_debt(1) [OF push]] by (blast intro: alloc_le_trans)
qed

subsection \<open>Constraints\<close>

lemma query_types_proved:
  assumes q: "query_types f l r = Inr (QProved p)" and f: "facts_inv f" "admits f v"
  shows "eval_type v l = eval_type v r"
proof (cases "\<exists>e ls rs. l = Tensor e ls \<and> r = Tensor e rs")
  case True
  then obtain e ls rs where "l = Tensor e ls" "r = Tensor e rs" by blast
  with query_shapes_sound(1) [OF f, of ls rs "QProved p"] q show ?thesis by (simp add: query_types_tensor)
next
  case False
  with q show ?thesis
    by (cases l; cases r) (auto simp: query_types_def Let_def contradiction_def split: if_split_asm)
qed

lemma traverse_pairs:
  assumes "traverse (\<lambda>(k, x). rmap (Pair k) (g x)) m = Inr m'"
  shows "bmap_get m k = Some x \<Longrightarrow> \<exists>y. g x = Inr y \<and> bmap_get m' k = Some y"
    "bmap_contains m' k \<longleftrightarrow> bmap_contains m k"
  using assms
  by (induction m arbitrary: m')
     (auto simp: rbind_Inr_iff rmap_Inr_iff bmap_get_def bmap_contains_def split: if_split_asm)

lemma discharge_one_debt:
  assumes "discharge_one f True ob = Inr ob'" "facts_inv f" "admits f v" "open_debt_holds v ob'"
  shows "open_debt_holds v ob"
proof (cases "ob_kind ob = ShapeCompatible \<and> ob_status ob = ObOpen")
  case open_debt: True
  show ?thesis
  proof (cases "shape_compatibility ob")
    case None
    with assms(1,4) open_debt show ?thesis by (simp add: discharge_one_def)
  next
    case (Some p)
    with assms(1) open_debt obtain q where q: "query_types f (left_type p) (right_type p) = Inr q"
      and r: "(case q of QProved _ \<Rightarrow> Inr (ob\<lparr>ob_status := ObProved\<rparr>) | QUnknown \<Rightarrow> Inr ob
        | QContradiction _ \<Rightarrow> err ConstraintContradiction ''constraint contradicts an open shape compatibility obligation'') =
        Inr ob'"
      by (auto simp: discharge_one_def rbind_Inr_iff)
    show ?thesis
    proof (cases q)
      case (QProved pr)
      from query_types_proved [OF q [unfolded this] assms(2,3)] Some show ?thesis
        by (simp add: open_debt_holds_def)
    qed (use r assms(4) in simp_all)
  qed
qed (auto simp: open_debt_holds_def)

lemma discharge_sound:
  assumes d: "discharge_shape_obligations p f True = Inr q"
    and f: "facts_inv f" "set (accepted f) = set (constraints p)" and g: "sound_graph a p"
  shows "sound_graph a q" "q = p\<lparr>obligations := obligations q\<rparr>"
proof -
  note wf = sound_graphD(1) [OF g]
  from d obtain obs where q: "q = p\<lparr>obligations := obs\<rparr>"
    and tr: "traverse (\<lambda>(k, ob). rmap (Pair k) (discharge_one f True ob)) (obligations p) = Inr obs"
    by (auto simp: discharge_shape_obligations_def rmap_Inr_iff)
  then show "q = p\<lparr>obligations := obligations q\<rparr>" by simp
  have "ids_below ''o'' (next_obligation a) obs"
    using wf_obligation_ids [OF wf] traverse_pairs(2) [OF tr] by (simp add: ids_below_def)
  from graph_wf_obligations [OF wf this] have "graph_wf a q" by (simp add: q)
  moreover have "graph_typed v q" if v: "assumptions_hold v q" for v
  proof -
    have "admits f v" using v f(2) by (simp add: admits_def assumptions_hold_def q)
    then have "assumptions_hold v p"
      using v discharge_one_debt [OF _ f(1)]
      by (intro assumptions_hold_sub [OF v]) (auto simp: q assumptions_hold_def dest!: traverse_pairs(1) [OF tr])
    from sound_graphD(2) [OF g this] show ?thesis by (simp add: q)
  qed
  ultimately show "sound_graph a q" by (simp add: sound_graph_def)
qed

lemma sound_graph_same:
  assumes g: "sound_graph a p" and sub: "set (constraints p) \<subseteq> set (constraints q)"
    and same: "vals q = vals p" "operations q = operations p" "constants q = constants p"
      "parameters q = parameters p" "holes q = holes p" "outputs q = outputs p" "obligations q = obligations p"
  shows "sound_graph a q"
proof -
  note wf = sound_graphD(1) [OF g]
  have "graph_wf a q"
    using wf by (simp add: graph_wf_def graph_ids_def references_def hole_values_def parameter_values_def
        linked_same [of q p] same)
  moreover have "graph_typed v q" if v: "assumptions_hold v q" for v
  proof (rule graph_typed_extend [OF wf])
    have "assumptions_hold v p"
      using v by (intro assumptions_hold_sub [OF v sub]) (simp_all add: same assumptions_hold_def)
    then show "graph_typed v p" by (rule sound_graphD(2) [OF g])
  qed (simp_all add: extends_graph_def same bmap_contains_def)
  ultimately show ?thesis by (simp add: sound_graph_def)
qed

lemma add_constraint_sound:
  assumes c: "add_constraint c tx = Inr tx'" and s: "sound_txn s tx"
  shows "sound_txn s tx' \<and> alloc_le (tx_alloc tx) (tx_alloc tx')"
proof -
  let ?p = "tx_program tx"
  from s have g: "sound_graph (tx_alloc tx) ?p" and b: "bindings_ok ?p (tx_bindings tx)"
    and f: "facts_ok s ?p (tx_facts tx)" by (simp_all add: sound_txn_def)
  show ?thesis
  proof (cases "tx_facts tx")
    case None
    let ?q = "?p\<lparr>constraints := constraints ?p @ [c]\<rparr>"
    from None c have tx': "tx' = tx\<lparr>tx_program := ?q\<rparr>" by (simp add: add_constraint_def Let_def)
    have "sound_graph (tx_alloc tx) ?q" by (rule sound_graph_same [OF g]) auto
    moreover have "bindings_ok ?q (tx_bindings tx)" by (rule bindings_ok_mono [OF b]) simp_all
    ultimately show ?thesis using f None by (simp add: tx' sound_txn_def facts_ok_def)
  next
    case (Some facts)
    let ?q = "if c \<in> set (constraints ?p) then ?p else ?p\<lparr>constraints := constraints ?p @ [c]\<rparr>"
    from Some c obtain staged qr q where ins: "insert_constraint facts c = Inr (staged, qr)"
      and dis: "discharge_shape_obligations ?q staged True = Inr q"
      and tx': "tx' = tx\<lparr>tx_program := q, tx_facts := Some staged\<rparr>"
      by (auto simp: add_constraint_def rbind_Inr_iff Let_def)
    from f Some have fi: "facts_inv facts" "set (accepted facts) = set (constraints ?p)" and s: "s \<noteq> legacy_semantics"
      by (simp_all add: facts_ok_def)
    note i = insert_constraint_inv [OF fi(1) ins]
    have g1: "sound_graph (tx_alloc tx) ?q" by (rule sound_graph_same [OF g]) auto
    have acc: "set (accepted staged) = set (constraints ?q)" using i(2) fi(2) by auto
    note d = discharge_sound [OF dis i(1) acc g1]
    have same: "vals q = vals ?p" "holes q = holes ?p" "constraints q = constraints ?q"
      by (subst d(2); simp)+
    have "bindings_ok q (tx_bindings tx)" by (rule bindings_ok_mono [OF b]) (simp_all add: same)
    with d(1) s i(1) acc show ?thesis by (simp add: tx' sound_txn_def facts_ok_def same(3))
  qed
qed

subsection \<open>Freezing\<close>

lemma freeze_spec_sound:
  assumes c: "freeze_spec m a tx = Inr tx'" and s: "sound_txn s tx"
  shows "sound_txn s tx' \<and> alloc_le (tx_alloc tx) (tx_alloc tx')"
proof -
  let ?p = "tx_program tx"
  from c obtain q d where q: "case tx_facts tx of None \<Rightarrow> q = ?p
     | Some f \<Rightarrow> discharge_shape_obligations ?p f True = Inr q"
    and push: "push_obligation m a d (tx\<lparr>tx_program := q\<lparr>frozen := True\<rparr>\<rparr>) = Inr tx'"
    by (rule freeze_spec_cases)
  from s have g: "sound_graph (tx_alloc tx) ?p" and b: "bindings_ok ?p (tx_bindings tx)"
    and f: "facts_ok s ?p (tx_facts tx)" by (simp_all add: sound_txn_def)
  have "sound_graph (tx_alloc tx) q \<and> q = ?p\<lparr>obligations := obligations q\<rparr>"
    using q f discharge_sound [OF _ _ _ g] g by (cases "tx_facts tx") (simp_all add: facts_ok_def)
  then have gq: "sound_graph (tx_alloc tx) q" and q: "q = ?p\<lparr>obligations := obligations q\<rparr>" by blast+
  have same: "vals q = vals ?p" "holes q = holes ?p" "constraints q = constraints ?p" by (subst q; simp)+
  have "sound_graph (tx_alloc tx) (q\<lparr>frozen := True\<rparr>)" by (rule sound_graph_same [OF gq]) simp_all
  moreover have "bindings_ok (q\<lparr>frozen := True\<rparr>) (tx_bindings tx)"
    by (rule bindings_ok_mono [OF b]) (simp_all add: same)
  moreover have "facts_ok s (q\<lparr>frozen := True\<rparr>) (tx_facts tx)"
    by (rule facts_ok_constraints [OF f]) (simp add: same)
  ultimately have "sound_txn s (tx\<lparr>tx_program := q\<lparr>frozen := True\<rparr>\<rparr>)" by (simp add: sound_txn_def)
  from debt_step_txn [OF push_obligation_debt(1) [OF push] this] show ?thesis by simp
qed

subsection \<open>Filling a hole\<close>

lemma fill_verdict_sound:
  assumes verdict: "fill_verdict facts hl t = Inr (c, rel)"
    and f: "case facts of None \<Rightarrow> True | Some f \<Rightarrow> facts_inv f \<and> admits f v"
    and cs: "\<forall>k\<in>set (shape_constraints hl). satisfies v k"
  shows "c \<noteq> Conditional \<Longrightarrow> eval_type v t = eval_type v (expected_type hl)"
    and "c = Conditional \<Longrightarrow> \<exists>r. rel = Some r \<and> rel_left r = expected_type hl \<and> rel_right r = t"
proof -
  have "(c \<noteq> Conditional \<longrightarrow> eval_type v t = eval_type v (expected_type hl)) \<and>
    (c = Conditional \<longrightarrow> (\<exists>r. rel = Some r \<and> rel_left r = expected_type hl \<and> rel_right r = t))"
  proof (cases "\<exists>e. expected_type hl = Scalar e")
    case True
    with verdict show ?thesis by (auto simp: fill_verdict_def split: ty.split_asm if_split_asm)
  next
    case False
    with verdict obtain e le re where t: "expected_type hl = Tensor e le" "t = Tensor e re"
      by (cases "expected_type hl"; cases t) (auto simp: fill_verdict_def split: if_split_asm)
    show ?thesis
    proof (cases facts)
      case None
      with verdict t same_shape_proved [of le re v] show ?thesis
        by (auto simp: fill_verdict_def split: solver_status.split_asm)
    next
      case (Some fs)
      with verdict t obtain g q where g: "with_local_constraints fs (shape_constraints hl) = Inr g"
        and q: "query_types g (Tensor e le) (Tensor e re) = Inr q"
        and out: "(case (case q of QProved _ \<Rightarrow> Proved | QUnknown \<Rightarrow> Unknown | QContradiction _ \<Rightarrow> Contradiction) of
            Proved \<Rightarrow> Inr (Legal, None)
          | Unknown \<Rightarrow> Inr (Conditional, Some \<lparr>rel_left = Tensor e le, rel_right = Tensor e re\<rparr>)
          | Contradiction \<Rightarrow> err HoleTypeMismatch ''hole and value shapes contradict accepted facts'') = Inr (c, rel)"
        by (auto simp: fill_verdict_def rbind_Inr_iff rmap_Inr_iff)
      from Some f have inv: "facts_inv fs" "admits fs v" by simp_all
      from insert_all_inv [OF inv(1) g [unfolded with_local_constraints_def]] cs inv(2)
      have g: "facts_inv g" "admits g v" by (auto simp: admits_def)
      show ?thesis
      proof (cases q)
        case (QProved pr)
        from query_types_proved [OF q [unfolded this] g] out QProved t show ?thesis by auto
      qed (use out t in auto)
    qed
  qed
  then show "c \<noteq> Conditional \<Longrightarrow> eval_type v t = eval_type v (expected_type hl)"
    "c = Conditional \<Longrightarrow> \<exists>r. rel = Some r \<and> rel_left r = expected_type hl \<and> rel_right r = t" by blast+
qed

text \<open>The graph with hole \<open>k\<close> filled.\<close>

definition filled_graph :: "program \<Rightarrow> string \<Rightarrow> hole \<Rightarrow> string \<Rightarrow> program" where
  "filled_graph p k hl i =
     p\<lparr>holes := bmap_insert k (hl\<lparr>filled_with := Some i, hole_status := HoleFilled\<rparr>) (holes p),
       obligations := bmap_map (\<lambda>_. close_hole_obligation k) (obligations p)\<rparr>"

lemma close_open_debt [simp]: "open_debt_holds v (close_hole_obligation k ob) \<longleftrightarrow> open_debt_holds v ob"
  by (simp add: close_hole_obligation_def open_debt_holds_def)

lemma filled_graph_assumptions:
  assumes "bmap_get (holes p) k = Some hl"
  shows "assumptions_hold v (filled_graph p k hl i) \<longleftrightarrow> assumptions_hold v p"
proof -
  have "(\<forall>j h. bmap_get (bmap_insert k (hl\<lparr>filled_with := Some i, hole_status := HoleFilled\<rparr>) (holes p)) j = Some h \<longrightarrow>
      (\<forall>c\<in>set (shape_constraints h). satisfies v c)) \<longleftrightarrow>
    (\<forall>j h. bmap_get (holes p) j = Some h \<longrightarrow> (\<forall>c\<in>set (shape_constraints h). satisfies v c))"
    (is "?l \<longleftrightarrow> ?r")
  proof
    assume ?l
    show ?r
    proof (intro allI impI)
      fix j h assume "bmap_get (holes p) j = Some h"
      with \<open>?l\<close> assms show "\<forall>c\<in>set (shape_constraints h). satisfies v c"
        by (cases "j = k") (auto dest: spec [of _ j])
    qed
  qed (use assms in \<open>auto split: if_split_asm\<close>)
  moreover have "(\<forall>j ob. bmap_get (bmap_map (\<lambda>_. close_hole_obligation k) (obligations p)) j = Some ob \<longrightarrow>
      open_debt_holds v ob) \<longleftrightarrow> (\<forall>j ob. bmap_get (obligations p) j = Some ob \<longrightarrow> open_debt_holds v ob)"
    (is "?l \<longleftrightarrow> ?r")
  proof
    assume ?l
    show ?r
    proof (intro allI impI)
      fix j ob assume "bmap_get (obligations p) j = Some ob"
      then have "bmap_get (bmap_map (\<lambda>_. close_hole_obligation k) (obligations p)) j = Some (close_hole_obligation k ob)"
        by simp
      with \<open>?l\<close> have "open_debt_holds v (close_hole_obligation k ob)" by blast
      then show "open_debt_holds v ob" by simp
    qed
  qed auto
  ultimately show ?thesis by (simp add: assumptions_hold_def filled_graph_def del: bmap_get_insert bmap_get_map)
qed

lemma filled_graph_wf:
  assumes wf: "graph_wf a p" and hl: "bmap_get (holes p) k = Some hl" and i: "bmap_contains (vals p) i"
  shows "graph_wf a (filled_graph p k hl i)"
  unfolding graph_wf_def
proof (intro conjI ballI)
  note ids = graph_wfD(1) [OF wf, unfolded graph_ids_def]
  have "ids_below ''h'' (next_hole a)
      (bmap_insert k (hl\<lparr>filled_with := Some i, hole_status := HoleFilled\<rparr>) (holes p))"
    using ids hl by (auto intro: ids_below_same bmap_containsI)
  with ids show "graph_ids a (filled_graph p k hl i)"
    by (simp add: graph_ids_def filled_graph_def ids_below_def)
  show "hole_values (filled_graph p k hl i)"
    using graph_wfD(2) [OF wf] hl by (fastforce simp: hole_values_def filled_graph_def)
  show "parameter_values (filled_graph p k hl i)"
    using graph_wfD(3) [OF wf] by (simp add: parameter_values_def filled_graph_def)
  show "linked (filled_graph p k hl i)"
    using graph_wf_linked [OF wf] by (subst linked_same [of _ p]) (simp_all add: filled_graph_def)
  fix j assume "j \<in> references (filled_graph p k hl i)"
  then have "j \<in> references p \<or> j = i"
    using hl by (auto simp: references_def filled_graph_def split: if_split_asm)
  with graph_wfD(4) [OF wf] i show "bmap_contains (vals (filled_graph p k hl i)) j"
    by (auto simp: filled_graph_def)
qed

lemma filled_graph_typed:
  assumes g: "sound_graph a p" and hl: "bmap_get (holes p) k = Some hl"
    and i: "bmap_get (vals p) i = Some def" and eq: "eval_type v (v_ty def) = eval_type v (expected_type hl)"
    and v: "assumptions_hold v (filled_graph p k hl i)"
  shows "graph_typed v (filled_graph p k hl i)"
proof -
  note wf = sound_graphD(1) [OF g]
  let ?q = "filled_graph p k hl i"
  have same: "vals ?q = vals p" "operations ?q = operations p" "constants ?q = constants p" "parameters ?q = parameters p"
    by (simp_all add: filled_graph_def)
  show ?thesis
  proof (rule graph_typed_extend [OF wf])
    show "extends_graph p ?q" by (simp add: extends_graph_def same)
    show "graph_typed v p" using v filled_graph_assumptions [OF hl] sound_graphD(2) [OF g] by blast
    fix j d k' h' w
    assume j: "bmap_get (vals p) j = Some d" "v_origin d = HoleOrigin k'"
      and h': "bmap_get (holes ?q) k' = Some h'" "filled_with h' = Some w"
    show "(\<exists>h. bmap_get (holes p) k' = Some h \<and> filled_with h = Some w) \<or>
        declared_dty v ?q w = Some (eval_type v (v_ty d))"
    proof (cases "k' = k")
      case True
      with graph_wfD(2) [OF wf, unfolded hole_values_def, rule_format, OF j] hl
      have "expected_type hl = v_ty d" by simp
      moreover have "w = i" using h' True by (auto simp: filled_graph_def)
      ultimately show ?thesis using i eq by (simp add: filled_graph_def declared_dty_def)
    qed (use h' in \<open>simp add: filled_graph_def\<close>)
  qed (simp add: same bmap_contains_def)
qed

lemma value_type_Inr: "value_type p i = Inr t \<longleftrightarrow> (\<exists>def. bmap_get (vals p) i = Some def \<and> v_ty def = t)"
  by (auto simp: value_type_def ok_or_Inr_iff)

lemma fill_hole_sound:
  assumes c: "fill_hole m s a h val tx = Inr (c, tx')" and t: "sound_txn s tx"
  shows "sound_txn s tx' \<and> alloc_le (tx_alloc tx) (tx_alloc tx')"
proof -
  let ?p = "tx_program tx"
  from c obtain hid vid vty hl rel tx1 where
    "resolve_value val ?p (tx_bindings tx) = Inr vid"
    and vty: "value_type ?p vid = Inr vty" and hl: "bmap_get (holes ?p) hid = Some hl"
    and verdict: "fill_verdict (tx_facts tx) hl vty = Inr (c, rel)"
    and tx1: "tx1 = tx\<lparr>tx_program := filled_graph ?p hid hl vid\<rparr>"
    and out: "(c \<noteq> Conditional \<and> tx' = tx1) \<or>
     (c = Conditional \<and> s = legacy_semantics \<and> push_obligation m a
        \<lparr>od_kind = ShapeCompatible, od_status = ObOpen,
         od_proposition = json_object [(''hole'', JString hid)], od_methods = [''add_constraint'']\<rparr> tx1 = Inr tx') \<or>
     (c = Conditional \<and> s \<noteq> legacy_semantics \<and>
        (\<exists>r. rel = Some r \<and> push_shape_obligation m a (HoleContext hid vid) tx1 r = Inr tx'))"
    by (rule fill_hole_cases) (auto simp: filled_graph_def)
  from vty obtain def where def: "bmap_get (vals ?p) vid = Some def" "v_ty def = vty" by (auto simp: value_type_Inr)
  from t have g: "sound_graph (tx_alloc tx) ?p" and b: "bindings_ok ?p (tx_bindings tx)"
    and f: "facts_ok s ?p (tx_facts tx)" by (simp_all add: sound_txn_def)
  let ?q = "filled_graph ?p hid hl vid"
  note wf = filled_graph_wf [OF sound_graphD(1) [OF g] hl bmap_containsI [OF def(1)]]
  note ids = wf_obligation_ids [OF wf]
  have step: "debt_step tx1 tx'"
    using out push_obligation_debt(1) push_shape_debt(1) by (auto simp: debt_step_refl)
  have eq: "eval_type v vty = eval_type v (expected_type hl)" if v: "assumptions_hold v (tx_program tx')" for v
  proof -
    from debt_step_ids [OF step] ids v have v1: "assumptions_hold v ?q" by (simp add: tx1)
    then have vp: "assumptions_hold v ?p" by (simp add: filled_graph_assumptions [OF hl])
    have facts: "case tx_facts tx of None \<Rightarrow> True | Some f \<Rightarrow> facts_inv f \<and> admits f v"
      using facts_ok_admits [of s ?p _ v] f vp by (cases "tx_facts tx") auto
    have cs: "\<forall>k\<in>set (shape_constraints hl). satisfies v k" using vp hl by (auto simp: assumptions_hold_def)
    note fv = fill_verdict_sound [OF verdict facts cs]
    from out show ?thesis
    proof (elim disjE conjE exE)
      fix r assume "rel = Some r" "c = Conditional" and push: "push_shape_obligation m a (HoleContext hid vid) tx1 r = Inr tx'"
      with fv(2) push_shape_debt(2) [OF push, of v] ids v show ?thesis
        by (auto simp: tx1 relation_holds_def)
    next
      assume push: "push_obligation m a \<lparr>od_kind = ShapeCompatible, od_status = ObOpen,
         od_proposition = json_object [(''hole'', JString hid)], od_methods = [''add_constraint'']\<rparr> tx1 = Inr tx'"
      from push_obligation_debt(2) [OF push, of v] ids v show ?thesis by (simp add: tx1)
    qed (use fv(1) in blast)
  qed
  from step have p': "tx_program tx' = ?q\<lparr>obligations := obligations (tx_program tx')\<rparr>"
    and same: "tx_bindings tx' = tx_bindings tx" "tx_facts tx' = tx_facts tx"
    unfolding debt_step_def tx1 by auto
  from step obtain n where n: "tx_alloc tx' = (tx_alloc tx)\<lparr>next_obligation := n\<rparr>" "next_obligation (tx_alloc tx) \<le> n"
    unfolding debt_step_def tx1 by auto
  have "graph_wf (tx_alloc tx') (tx_program tx')"
    using graph_wf_obligations [OF wf _ n(2)] debt_step_ids [OF step] ids
    by (subst p') (simp add: n(1) tx1)
  moreover have "graph_typed v (tx_program tx')" if v: "assumptions_hold v (tx_program tx')" for v
  proof -
    have "assumptions_hold v ?q" using debt_step_ids [OF step] ids v by (simp add: tx1)
    from filled_graph_typed [OF g hl def(1) _ this] eq [OF v] def(2) have "graph_typed v ?q" by simp
    then show ?thesis by (subst p') simp
  qed
  moreover have "bindings_ok (tx_program tx') (tx_bindings tx')"
    unfolding same by (rule bindings_ok_mono [OF b]; subst p') (simp_all add: filled_graph_def)
  moreover have "facts_ok s (tx_program tx') (tx_facts tx')"
    unfolding same by (rule facts_ok_constraints [OF f]; subst p') (simp add: filled_graph_def)
  moreover have "alloc_le (tx_alloc tx) (tx_alloc tx')" using n by (simp add: alloc_le_def)
  ultimately show ?thesis by (simp add: sound_txn_def sound_graph_def)
qed

end
