(* ===== verification/Operation_Typing.thy ===== *)
theory Operation_Typing
  imports Action_Typing
begin

text \<open>
  \<open>create_op\<close>: what inference answers about an operation, with the debt that is recorded, makes
  the operation typed at every valuation that the program admits. Then the invariant of whole
  transactions.
\<close>

subsection \<open>Inference without debt\<close>

context tracked_compatibility
begin

lemma no_debt: "compat_of l r = Inr (c, rels) \<Longrightarrow> c \<noteq> Conditional \<Longrightarrow> rels = []"
  using two_classes [of l r c rels] legal_no_debt [of l r c rels] by auto

lemma all_no_debt:
  assumes "compatible_all compat_of first rest = Inr (c, rels)" "c \<noteq> Conditional"
  shows "rels = []"
proof -
  have "case (c, rels) of (c, rels) \<Rightarrow> c \<noteq> Conditional \<longrightarrow> rels = []"
    by (rule rfold_invariant [OF assms(1) [unfolded compatible_all_def]])
       (auto simp: rbind_Inr_iff merge_class_def dest: no_debt split: if_split_asm)
  with assms(2) show ?thesis by simp
qed

end

lemma select_condition_no_debt:
  "select_condition (Some f) c b = Inr (True, cls, rels) \<Longrightarrow> cls \<noteq> Conditional \<Longrightarrow> rels = []"
proof (cases "\<exists>csh e sh. c = Tensor Bool csh \<and> b = Tensor e sh")
  case True
  then obtain csh e sh where cb: "c = Tensor Bool csh" "b = Tensor e sh" by blast
  assume s: "select_condition (Some f) c b = Inr (True, cls, rels)" "cls \<noteq> Conditional"
  with cb obtain q where "(case q of QProved _ \<Rightarrow> Inr (True, Legal, [])
      | QUnknown \<Rightarrow> Inr (True, Conditional, [\<lparr>rel_left = Tensor Bool csh, rel_right = Tensor Bool sh\<rparr>])
      | QContradiction _ \<Rightarrow> Inr (False, Legal, [])) = (Inr (True, cls, rels) :: (bool \<times> action_classification \<times> shape_relation list) res)"
    by (auto simp: select_condition_def rbind_Inr_iff)
  with s(2) show ?thesis by (cases q) auto
qed (auto simp: select_condition_def split: ty.split_asm scalar_type.split_asm)

lemma infer_primitive_no_debt:
  assumes "infer_primitive_impl (Some f) op types attrs = Inr i" "classification i \<noteq> Conditional"
  shows "shape_relations i = []"
proof -
  have arith: "infer_arithmetic (Some f) op types = Inr i \<Longrightarrow> shape_relations i = []"
    using assms(2) by (elim infer_arithmetic_Inr) (auto intro: fact_types.no_debt)
  show ?thesis
  proof (cases op)
    case Fma
    with assms(1) have "infer_fma (Some f) types = Inr i" by (simp add: infer_primitive_impl_def)
    with assms(2) show ?thesis
      by (elim infer_fma_Inr) (auto simp: merge_class_def dest!: fact_types.no_debt split: if_split_asm)
  next
    case Compare
    with assms(1) have "infer_compare (Some f) types = Inr i" by (simp add: infer_primitive_impl_def)
    with assms(2) show ?thesis by (elim infer_compare_Inr) (auto intro: fact_types.no_debt)
  next
    case Select
    with assms(1) have "infer_select (Some f) types = Inr i" by (simp add: infer_primitive_impl_def)
    with assms(2) show ?thesis
      by (elim infer_select_Inr)
         (auto simp: merge_class_def dest!: fact_types.no_debt select_condition_no_debt split: if_split_asm)
  next
    case Cast
    with assms(1) have "infer_cast types attrs = Inr i" by (simp add: infer_primitive_impl_def)
    then show ?thesis by (elim infer_cast_Inr) (simp add: legal_inference_def)
  qed (use assms(1) arith in \<open>simp_all add: infer_primitive_impl_def\<close>)
qed

lemma infer_higher_no_debt:
  assumes "infer_higher_impl (Some f) op types rg = Inr i" "op \<in> {Map, ZipMap, Reduce}"
    and "classification i \<noteq> Conditional"
  shows "shape_relations i = []"
proof -
  consider "infer_map types rg = Inr i" | "infer_zip_map (Some f) types rg = Inr i" | "infer_reduce types rg = Inr i"
    using assms(1,2) by (auto simp: infer_higher_impl_def)
  then show ?thesis
  proof cases
    case 2
    with assms(3) show ?thesis by (elim infer_zip_map_Inr) (auto intro: fact_types.all_no_debt)
  qed (auto elim: infer_map_Inr infer_reduce_Inr simp: legal_inference_def)
qed

lemma infer_two_classes:
  "infer_primitive_impl facts op types attrs = Inr i \<Longrightarrow> classification i = Legal \<or> classification i = Conditional"
proof -
  have two: "compatible_types facts l r = Inr (c, rels) \<Longrightarrow> c = Legal \<or> c = Conditional" for l r c rels
    using legacy_types.two_classes fact_types.two_classes by (cases facts) blast+
  assume inf: "infer_primitive_impl facts op types attrs = Inr i"
  have arith: "infer_arithmetic facts op types = Inr i \<Longrightarrow> ?thesis"
    by (elim infer_arithmetic_Inr) (rule two)
  show ?thesis
  proof (cases op)
    case Fma
    with inf show ?thesis
      by (auto simp: infer_primitive_impl_def merge_class_def elim!: infer_fma_Inr)
  next
    case Compare
    with inf two show ?thesis by (auto simp: infer_primitive_impl_def elim!: infer_compare_Inr)
  next
    case Select
    with inf show ?thesis
      by (auto simp: infer_primitive_impl_def merge_class_def elim!: infer_select_Inr)
  next
    case Cast
    with inf show ?thesis
      by (auto simp: infer_primitive_impl_def legal_inference_def elim!: infer_cast_Inr)
  qed (use inf arith in \<open>simp_all add: infer_primitive_impl_def\<close>)
qed

text \<open>Without facts, a legal higher-order operation is typed at every valuation.\<close>

lemma infer_higher_legal:
  assumes inf: "infer_higher op types rg = Inr i" and legal: "classification i \<noteq> Conditional"
    and op: "op \<in> {Map, ZipMap, Reduce}"
  shows "\<exists>y. rg_yield_type rg = Scalar y \<and>
    higher_typing op (length (rg_arguments rg)) y (map (eval_type v) types) (eval_type v (inf_ty i))"
proof -
  consider "op = Map" "infer_map types rg = Inr i" | "op = ZipMap" "infer_zip_map None types rg = Inr i"
    | "op = Reduce" "infer_reduce types rg = Inr i"
    using inf op by (auto simp: infer_higher_def infer_higher_impl_def)
  then show ?thesis
  proof cases
    case 1
    from 1(2) show ?thesis
      by (rule infer_map_Inr) (simp add: 1(1) legal_inference_def higher_typing_map_iff)
  next
    case 2
    from 2(2) obtain e sh rest y where z: "types = Tensor e sh # rest" "length (rg_arguments rg) = length types"
        "rg_yield_type rg = Scalar y" "inf_ty i = Tensor y sh"
        "compatible_all (compatible_types None) (Tensor e sh) rest = Inr (classification i, shape_relations i)"
      by (rule infer_zip_map_Inr)
    have "case (classification i, shape_relations i) of (c, _) \<Rightarrow> c = Legal \<or> c = Conditional"
      by (rule rfold_invariant [OF z(5) [unfolded compatible_all_def]])
         (auto simp: rbind_Inr_iff merge_class_def)
    with legal z(5) have "\<forall>t\<in>set rest. eval_type v t = eval_type v (Tensor e sh)"
      using legacy_types.all_legal [of "Tensor e sh" rest] by auto
    with 2(1) z show ?thesis by (auto simp: higher_typing_zip_iff)
  next
    case 3
    from 3(2) show ?thesis
      by (rule infer_reduce_Inr) (simp add: 3(1) legal_inference_def higher_typing_reduce_iff)
  qed
qed

subsection \<open>What a created operation is typed for\<close>

definition debt_settled :: "constraint_facts option \<Rightarrow> valuation \<Rightarrow> inference \<Rightarrow> bool" where
  "debt_settled facts v i \<longleftrightarrow>
     (case facts of
        None \<Rightarrow> classification i \<noteq> Conditional
      | Some f \<Rightarrow> facts_inv f \<and> admits f v \<and>
          (classification i = Conditional \<longrightarrow> relations_hold v (shape_relations i)))"

lemma inferred_primitive:
  assumes inf: "infer_checked facts op types attrs None = Inr i" and d: "debt_settled facts v i"
  shows "prim_typing op attrs (map (eval_type v) types) (eval_type v (inf_ty i))" "op \<notin> {Map, ZipMap, Reduce}"
proof -
  have impl: "infer_primitive_impl facts op types attrs = Inr i"
    using inf by (cases facts) (simp_all add: infer_checked_def infer_primitive_def infer_primitive_with_facts_def)
  then show "op \<notin> {Map, ZipMap, Reduce}" by (auto simp: infer_primitive_impl_def)
  show "prim_typing op attrs (map (eval_type v) types) (eval_type v (inf_ty i))"
  proof (cases facts)
    case None
    with d infer_two_classes [OF impl] have "classification i = Legal" by (auto simp: debt_settled_def)
    with None inf infer_primitive_legal [of op types attrs i] show ?thesis by (simp add: infer_checked_def)
  next
    case (Some f)
    with d have f: "facts_inv f" "admits f v" "relations_hold v (shape_relations i)"
      using infer_primitive_no_debt [of f op types attrs i] impl by (auto simp: debt_settled_def)
    from infer_primitive_impl_exact [OF impl [unfolded Some] f(1,2)] f(3) show ?thesis by blast
  qed
qed

lemma inferred_higher:
  assumes inf: "infer_checked facts op types attrs (Some rg) = Inr i" and d: "debt_settled facts v i"
    and op: "op \<in> {Map, ZipMap, Reduce}"
  shows "\<exists>y. rg_yield_type rg = Scalar y \<and>
    higher_typing op (length (rg_arguments rg)) y (map (eval_type v) types) (eval_type v (inf_ty i))"
proof (cases facts)
  case None
  with d inf have "infer_higher op types rg = Inr i" "classification i \<noteq> Conditional"
    by (simp_all add: infer_checked_def debt_settled_def)
  from infer_higher_legal [OF this op] show ?thesis .
next
  case (Some f)
  with inf have impl: "infer_higher_impl (Some f) op types rg = Inr i"
    by (simp add: infer_checked_def infer_higher_with_facts_def)
  with Some d have f: "facts_inv f" "admits f v" "relations_hold v (shape_relations i)"
    using infer_higher_no_debt [OF impl op] by (auto simp: debt_settled_def)
  from infer_higher_impl_exact [OF impl f(1,2) op, of "eval_type v (inf_ty i)"] f(3) show ?thesis by auto
qed

lemma traverse_tensors:
  "traverse (\<lambda>t. case t of Tensor e _ \<Rightarrow> Inr (Scalar e) | Scalar _ \<Rightarrow> err TypeMismatch m) types = Inr ex \<Longrightarrow>
   ex = map (Scalar \<circ> element_type) types"
  by (induction types arbitrary: ex) (auto simp: rbind_Inr_iff split: ty.split_asm)

lemma expected_arguments:
  assumes "expected_region_arguments op types = Inr ex"
    and "higher_typing op n y (map (eval_type v) types) t"
  shows "ex = map Scalar (map fst (map (eval_type v) types))"
proof -
  consider "op = Map" | "op = ZipMap" | "op = Reduce"
    using assms(2) by (cases rule: higher_typing.cases) auto
  then show ?thesis
  proof cases
    case 2
    with assms(1) show ?thesis
      by (auto simp: expected_region_arguments_def dest!: traverse_tensors)
  next
    case 3
    with assms(2) obtain a b where "types = [a, b]" "element_type b = element_type a"
      by (auto simp: higher_typing_reduce_iff dest!: arg_cong [where f = fst])
    with 3 assms(1) show ?thesis by (auto simp: expected_region_arguments_def split: ty.split_asm)
  qed (use assms(1) in \<open>auto simp: expected_region_arguments_def split: list.split_asm ty.split_asm\<close>)
qed

lemma build_region_higher:
  assumes "build_region op spec types p bs facts = Inr (rg, cls, rels)"
  obtains ex where "expected_region_arguments op types = Inr ex" "op \<in> {Map, ZipMap, Reduce}"
    "\<And>c. c \<in> set (rg_captures rg) \<Longrightarrow> \<exists>r. resolve_value r p bs = Inr c"
proof -
  from assms obtain ex by_ref where ex: "expected_region_arguments op types = Inr ex"
    and caps: "rfold (check_capture p bs) ([], []) (rs_captures spec) = Inr (by_ref, rg_captures rg)"
    by (auto simp: build_region_def rbind_Inr_iff split: if_split_asm)
  have "\<forall>c\<in>set (snd (by_ref, rg_captures rg)). \<exists>r. resolve_value r p bs = Inr c"
    by (rule rfold_invariant [OF caps]) (auto simp: check_capture_def rbind_Inr_iff split: if_split_asm)
  moreover have "op \<in> {Map, ZipMap, Reduce}"
    using ex by (cases op) (simp_all add: expected_region_arguments_def)
  ultimately show ?thesis using ex that by auto
qed

subsection \<open>Creating an operation\<close>

lemma operand_types:
  assumes types: "traverse (value_type p) operands = Inr types" and ext: "extends_graph p q"
  shows "list_all2 (\<lambda>i t. declared_dty v q i = Some t) operands (map (eval_type v) types)"
  using types
proof (induction operands arbitrary: types)
  case (Cons i operands)
  then obtain t ts where t: "value_type p i = Inr t" "traverse (value_type p) operands = Inr ts" "types = t # ts"
    by (auto simp: rbind_Inr_iff)
  then have "declared_dty v p i = Some (eval_type v t)" by (auto simp: value_type_Inr declared_dty_def)
  from extends_declared [OF ext this] t(3) Cons.IH [OF t(2)] show ?case by simp
qed simp

lemma created_operation_typed:
  assumes types: "traverse (value_type p) operands = Inr types" and ext: "extends_graph p q"
    and region: "(case spec of None \<Rightarrow> Inr (None, Legal, [])
      | Some s \<Rightarrow> rmap (\<lambda>(r, c, rels). (Some r, c, rels)) (build_region op s types p bs facts)) = Inr (rg, cls, rels)"
    and inf: "infer_checked facts op types attrs rg = Inr i" and d: "debt_settled facts v i"
    and opn: "op_opcode opn = op" "op_operands opn = operands" "op_attributes opn = attrs" "op_region opn = rg"
    and known: "\<And>c. c \<in> set (captures_of opn) \<Longrightarrow> bmap_contains (vals p) c"
    and scalars: "scalar_captures q opn"
  shows "operation_typed (declared_dty v q) opn (eval_type v (inf_ty i))"
proof -
  note ts = operand_types [OF types ext, of v]
  show ?thesis
  proof (cases spec)
    case None
    with region have rg: "rg = None" by simp
    from inferred_primitive [OF inf [unfolded rg] d] ts show ?thesis
      unfolding operation_typed_def opn by auto
  next
    case (Some s)
    with region obtain r where r: "rg = Some r" "build_region op s types p bs facts = Inr (r, cls, rels)"
      by (auto simp: rmap_Inr_iff)
    from build_region_higher [OF r(2)] obtain ex where ex: "expected_region_arguments op types = Inr ex"
      and op: "op \<in> {Map, ZipMap, Reduce}" by blast
    from inferred_higher [OF inf [unfolded r(1)] d op] obtain y where y: "rg_yield_type r = Scalar y"
      "higher_typing op (length (rg_arguments r)) y (map (eval_type v) types) (eval_type v (inf_ty i))" by blast
    have caps: "captures_of opn = rg_captures r" by (simp add: captures_of_def opn r(1))
    have sc: "scalar_value_of p c" if "c \<in> set (rg_captures r)" for c
      using scalars that extends_scalar [OF ext known, of c] by (simp add: scalar_captures_def caps)
    have look: "declared_dty v q c = Some (eval_type v (v_ty def))" if "bmap_get (vals p) c = Some def" for c def
      by (rule extends_declared [OF ext]) (simp add: declared_dty_def that)
    have "\<exists>y. region_typed (declared_dty v q) (map fst (map (eval_type v) types)) r y \<and> rg_yield_type r = Scalar y"
      by (rule build_region_typed [OF r(2) ex [unfolded expected_arguments [OF ex y(2)]] sc look])
    then obtain y' where "region_typed (declared_dty v q) (map fst (map (eval_type v) types)) r y'"
      "rg_yield_type r = Scalar y'" by blast
    with y have "\<exists>rg y n. Some r = Some rg \<and> higher_typing op n y (map (eval_type v) types) (eval_type v (inf_ty i)) \<and>
        region_typed (declared_dty v q) (map fst (map (eval_type v) types)) rg y" by auto
    with ts op show ?thesis
      unfolding operation_typed_def opn r(1) by (intro exI [of _ "map (eval_type v) types"]) simp
  qed
qed

text \<open>The region that was built fits the operands, whatever is known of their shapes.\<close>

lemma expected_elements:
  assumes ex: "expected_region_arguments op types = Inr ex" and inf: "infer_checked facts op types attrs (Some rg) = Inr i"
  shows "ex = map (\<lambda>t. Scalar (element_type t)) types"
proof -
  consider "op = Map" | "op = ZipMap" | "op = Reduce"
    using ex by (cases op) (simp_all add: expected_region_arguments_def)
  then show ?thesis
  proof cases
    case 2
    with ex show ?thesis by (auto simp: expected_region_arguments_def comp_def dest!: traverse_tensors)
  next
    case 3
    with inf have "infer_reduce types rg = Inr i"
      by (cases facts) (simp_all add: infer_checked_def infer_higher_def infer_higher_with_facts_def infer_higher_impl_def)
    with ex 3 show ?thesis
      by (elim infer_reduce_Inr) (auto simp: expected_region_arguments_def)
  qed (use ex in \<open>auto simp: expected_region_arguments_def split: list.split_asm ty.split_asm\<close>)
qed

lemma checked_arguments:
  "rfold check_argument m (zip args ts) = Inr m' \<Longrightarrow> length args = length ts \<Longrightarrow> map ras_ty args = ts"
proof (induction args arbitrary: ts m)
  case (Cons a args)
  then obtain t ts' where "ts = t # ts'" by (cases ts) auto
  with Cons show ?case by (auto simp: rbind_Inr_iff dest!: check_argument_Inr)
qed simp

lemma built_region_fits:
  assumes types: "traverse (value_type p) operands = Inr types"
    and b: "build_region op spec types p bs facts = Inr (rg, cls, rels)"
    and inf: "infer_checked facts op types attrs (Some rg) = Inr i"
    and opn: "op_operands opn = operands" "op_region opn = Some rg"
  shows "region_fitted p opn"
proof -
  from b obtain ex arguments by_ref rb where r: "expected_region_arguments op types = Inr ex"
      "length (rs_arguments spec) = length ex"
      "rfold check_argument [] (zip (rs_arguments spec) ex) = Inr arguments"
      "rfold (check_capture p bs) ([], []) (rs_captures spec) = Inr (by_ref, rg_captures rg)"
      "rfold (build_region_operation p facts arguments by_ref)
         \<lparr>rb_locals = [], rb_operations = [], rb_classification = Legal, rb_relations = []\<rparr>
         (rs_operations spec) = Inr rb"
      "resolve_region_value p arguments by_ref (rb_locals rb) (rs_yield_value spec) =
         Inr (rg_yield_value rg, rg_yield_type rg)"
      "rg_arguments rg = map (\<lambda>a. \<lparr>arg_name = ras_name a, arg_ty = ras_ty a\<rparr>) (rs_arguments spec)"
    by (auto simp: build_region_def rbind_Inr_iff split: if_split_asm)
  have "map arg_ty (rg_arguments rg) = map (\<lambda>t. Scalar (element_type t)) types"
    using checked_arguments [OF r(3,2)] expected_elements [OF r(1) inf] by (simp add: r(7) comp_def)
  moreover have "traverse (value_type p) is = Inr ts \<Longrightarrow> map arg_ty as = map (\<lambda>t. Scalar (element_type t)) ts \<Longrightarrow>
      list_all2 (\<lambda>i a. \<exists>def. bmap_get (vals p) i = Some def \<and> arg_ty a = Scalar (element_type (v_ty def))) is as" for "is" ts as
    by (induction "is" arbitrary: ts as) (auto simp: rbind_Inr_iff value_type_Inr map_eq_Cons_conv)
  ultimately have "list_all2 (\<lambda>i a. \<exists>def. bmap_get (vals p) i = Some def \<and> arg_ty a = Scalar (element_type (v_ty def)))
      operands (rg_arguments rg)" using types by blast
  moreover have "case rg_yield_value rg of Capture i \<Rightarrow> i \<in> set (rg_captures rg) | _ \<Rightarrow> True"
    using r(6) check_captures_listed [OF r(4)]
    by (auto simp: resolve_region_value_def rmap_Inr_iff split: option.split_asm region_value.split)
  ultimately show ?thesis by (simp add: region_fitted_def opn)
qed

lemma create_op_sound:
  assumes c: "create_op m s a b n refs attrs spec tx = Inr (cls, tx')" and t: "sound_txn s tx"
  shows "sound_txn s tx' \<and> alloc_le (tx_alloc tx) (tx_alloc tx')"
proof -
  let ?p = "tx_program tx"
  from c obtain op operands types rg region_class region_rels i tx1 where
    new: "ensure_new_binding (tx_bindings tx) b = Inr ()"
    and op: "op \<noteq> Parameter" "op \<noteq> Constant"
    and operands: "traverse (\<lambda>r. resolve_value r ?p (tx_bindings tx)) refs = Inr operands"
    and types: "traverse (value_type ?p) operands = Inr types"
    and region: "(case spec of None \<Rightarrow> Inr (None, Legal, [])
      | Some s \<Rightarrow> rmap (\<lambda>(r, c, rels). (Some r, c, rels))
          (build_region op s types ?p (tx_bindings tx) (tx_facts tx))) = Inr (rg, region_class, region_rels)"
    and inf: "infer_checked (tx_facts tx) op types attrs rg = Inr i"
    and debt: "(if classification i = Conditional \<or> region_class = Conditional
      then record_debt m s a op operands (region_rels @ shape_relations i) tx else Inr tx) = Inr tx1"
    and tx': "tx' = bind_result b (BValue (fst (insert_operation op operands attrs rg a (inf_ty i) None tx1))) (inf_ty i)
        (snd (insert_operation op operands attrs rg a (inf_ty i) None tx1))"
    by (rule create_op_cases)
  from t have g: "sound_graph (tx_alloc tx) ?p" and bs: "bindings_ok ?p (tx_bindings tx)"
    and f: "facts_ok s ?p (tx_facts tx)" by (simp_all add: sound_txn_def)
  note wf = sound_graphD(1) [OF g]
  note ids = wf_obligation_ids [OF wf]
  have step: "debt_step tx tx1"
    using debt record_debt_sound(1) [OF _ ids] by (auto simp: debt_step_refl split: if_split_asm)
  note sound1 = debt_step_txn [OF step t]
  from step have p1: "tx_program tx1 = ?p\<lparr>obligations := obligations (tx_program tx1)\<rparr>"
    unfolding debt_step_def by blast
  have vals1: "vals (tx_program tx1) = vals ?p" by (subst p1) simp
  have settled: "debt_settled (tx_facts tx) v i" if v: "assumptions_hold v (tx_program tx1)" for v
  proof -
    have vp: "assumptions_hold v ?p" using debt_step_ids [OF step ids] v by blast
    have debt': "relations_hold v (shape_relations i) \<and> s \<noteq> legacy_semantics" if "classification i = Conditional"
      using debt that v record_debt_sound(2,3) [of m s a op operands "region_rels @ shape_relations i" tx tx1 v] ids
      by auto
    show ?thesis
    proof (cases "tx_facts tx")
      case None
      with f debt' show ?thesis by (auto simp: debt_settled_def facts_ok_def)
    next
      case (Some fs)
      from facts_ok_admits [OF f [unfolded Some] vp] debt' Some show ?thesis by (simp add: debt_settled_def)
    qed
  qed
  obtain vid tx2 where ins: "insert_operation op operands attrs rg a (inf_ty i) None tx1 = (vid, tx2)" by fastforce
  note ia = insert_operation_adds [OF ins]
  from ia(1) obtain opn def where add: "adds_value (tx_alloc tx1) (tx_program tx1) opn def (tx_program tx2)"
    and opn: "op_opcode opn = op" "op_operands opn = operands" "op_attributes opn = attrs" "op_region opn = rg"
      "v_ty def = inf_ty i" by fastforce
  have caps: "bmap_contains (vals ?p) c" if "c \<in> set (captures_of opn)" for c
  proof -
    from that obtain r where r: "rg = Some r" "c \<in> set (rg_captures r)"
      by (auto simp: captures_of_def opn split: option.split_asm)
    with region obtain sp where "build_region op sp types ?p (tx_bindings tx) (tx_facts tx) = Inr (r, region_class, region_rels)"
      by (auto simp: rmap_Inr_iff split: option.split_asm)
    from build_region_higher [OF this] r(2) obtain ref where "resolve_value ref ?p (tx_bindings tx) = Inr c" by blast
    then show ?thesis by (rule resolve_value_known [OF wf bs])
  qed
  have fit: "region_fitted ?p opn"
  proof (cases rg)
    case (Some r)
    with region obtain sp where "build_region op sp types ?p (tx_bindings tx) (tx_facts tx) = Inr (r, region_class, region_rels)"
      by (auto simp: rmap_Inr_iff split: option.split_asm)
    from built_region_fits [OF types this inf [unfolded Some] opn(2)] Some show ?thesis by (simp add: opn)
  qed (simp add: region_fitted_def opn)
  have ops: "bmap_contains (vals ?p) j" if "j \<in> set operands" for j
    using operands that
  proof (induction refs arbitrary: operands)
    case (Cons r refs)
    then show ?case using resolve_value_known [OF wf bs] by (auto simp: rbind_Inr_iff)
  qed simp
  have "sound_txn s tx' \<and> alloc_le (tx_alloc tx1) (tx_alloc tx')"
  proof (rule bound_value_sound [OF sound1(1) add])
    show "tx_bindings tx' = bmap_insert b (BValue (''v'' @ show_nat (Suc (next_value (tx_alloc tx1))))) (tx_bindings tx1)"
      by (simp add: tx' ins bind_result_def ia(3,4) del: append.simps)
    from step have "tx_bindings tx1 = tx_bindings tx" unfolding debt_step_def by blast
    with new show "ensure_new_binding (tx_bindings tx1) b = Inr ()" by simp
    show "region_fitted (tx_program tx1) opn" by (rule region_fitted_mono [OF fit]) (simp add: vals1)
    show "bmap_contains (vals (tx_program tx1)) j" if "j \<in> set (op_operands opn @ captures_of opn)" for j
      using that ops caps by (auto simp: opn vals1)
    fix v assume v: "assumptions_hold v (tx_program tx1)" and ext: "extends_graph (tx_program tx1) (tx_program tx2)"
    have ext': "extends_graph ?p (tx_program tx2)"
      using ext by (subst (asm) p1) (simp add: extends_graph_def)
    show "definition_ok v (tx_program tx2) (''v'' @ show_nat (Suc (next_value (tx_alloc tx1)))) opn (eval_type v (v_ty def))"
      using created_operation_typed [OF types ext' region inf settled [OF v] opn(1-4) caps] op
      by (simp add: definition_ok_def opn)
  qed (simp_all add: tx' ins bind_result_def ia)
  with sound1(2) show ?thesis by (blast intro: alloc_le_trans)
qed

subsection \<open>Actions and transactions\<close>

lemma sound_txn_action: "sound_txn s (tx\<lparr>tx_alloc := fst (alloc_action (tx_alloc tx))\<rparr>) \<longleftrightarrow> sound_txn s tx"
  using sound_graph_alloc [of "fst (alloc_action (tx_alloc tx))" "tx_alloc tx" "tx_program tx"]
  by (simp add: sound_txn_def alloc_action_def Let_def)

lemma apply_action_sound:
  assumes ap: "apply_action m s tx act = Inr tx'" and t: "sound_txn s tx"
  shows "sound_txn s tx' \<and> alloc_le (tx_alloc tx) (tx_alloc tx')"
proof -
  let ?tx = "tx\<lparr>tx_alloc := fst (alloc_action (tx_alloc tx))\<rparr>"
  have t0: "sound_txn s ?tx" using t by (simp add: sound_txn_action)
  have "\<exists>c tx1. sound_txn s tx1 \<and> alloc_le (tx_alloc ?tx) (tx_alloc tx1) \<and> tx' = tx1\<lparr>tx_classifications := c\<rparr>"
  proof (cases act)
    case (CreateOp b n refs attrs spec)
    with ap create_op_sound [OF _ t0] show ?thesis
      by (fastforce simp: apply_action_def rbind_Inr_iff split: prod.split_asm if_split_asm)
  next
    case (FillHole h v)
    with ap fill_hole_sound [OF _ t0] show ?thesis
      by (fastforce simp: apply_action_def rbind_Inr_iff split: prod.split_asm if_split_asm)
  next
    case ForkRevision
    with ap t0 show ?thesis
      by (fastforce simp: apply_action_def rbind_Inr_iff split: prod.split_asm if_split_asm)
  next
    case (DefineDimension b n cs)
    with ap define_dimension_sound [OF _ t0] show ?thesis
      by (fastforce simp: apply_action_def legal_step_def rbind_Inr_iff rmap_Inr_iff split: prod.split_asm if_split_asm)
  next
    case (CreateParameter b n ty)
    with ap create_parameter_sound [OF _ t0] show ?thesis
      by (fastforce simp: apply_action_def legal_step_def rbind_Inr_iff rmap_Inr_iff split: prod.split_asm if_split_asm)
  next
    case (CreateConstant b ty j)
    with ap create_constant_sound [OF _ t0] show ?thesis
      by (fastforce simp: apply_action_def legal_step_def rbind_Inr_iff rmap_Inr_iff split: prod.split_asm if_split_asm)
  next
    case (CreateHole b ty cs)
    with ap create_hole_sound [OF _ t0] show ?thesis
      by (fastforce simp: apply_action_def rbind_Inr_iff rmap_Inr_iff split: prod.split_asm if_split_asm)
  next
    case (SetOutput n v)
    with ap set_output_sound [OF _ t0] show ?thesis
      by (fastforce simp: apply_action_def legal_step_def rbind_Inr_iff rmap_Inr_iff split: prod.split_asm if_split_asm)
  next
    case (AddConstraint c)
    with ap add_constraint_sound [OF _ t0] show ?thesis
      by (fastforce simp: apply_action_def legal_step_def rbind_Inr_iff rmap_Inr_iff split: prod.split_asm if_split_asm)
  next
    case FreezeSpec
    with ap freeze_spec_sound [OF _ t0] show ?thesis
      by (fastforce simp: apply_action_def legal_step_def rbind_Inr_iff rmap_Inr_iff split: prod.split_asm if_split_asm)
  qed
  then show ?thesis
    by (auto simp: sound_txn_def alloc_le_def alloc_action_def Let_def)
qed

lemma apply_actions_sound:
  assumes "rfold (apply_action m s) tx acts = Inr tx'" "sound_txn s tx"
  shows "sound_txn s tx' \<and> alloc_le (tx_alloc tx) (tx_alloc tx')"
  by (rule rfold_invariant [OF assms(1), where P = "\<lambda>x. sound_txn s x \<and> alloc_le (tx_alloc tx) (tx_alloc x)"])
     (use assms(2) apply_action_sound alloc_le_trans in auto)

end
