(* ===== verification/Revisions.thy ===== *)
theory Revisions
  imports Workspace_Proofs
begin

text \<open>
  What a committed transaction, a frozen base and a structural diff say of the revisions they
  are about (\<open>agentir-core/src/workspace.rs\<close>, \<open>agentir-core/src/revision.rs\<close>).
\<close>

subsection \<open>Structural diffs\<close>

lemma rev_map_filter: "rev (List.map_filter f xs) = List.map_filter f (rev xs)"
  by (simp add: List.map_filter_def rev_map rev_filter)

lemma map_of_changed:
  "map_of (List.map_filter (changed_output l r) ns) n =
     (if n \<in> set ns \<and> bmap_get l n \<noteq> bmap_get r n then Some (bmap_get l n, bmap_get r n) else None)"
  by (induction ns) (auto simp: List.map_filter_def changed_output_def)

lemma outputs_changed_get:
  "bmap_get (outputs_changed (diff from to)) n =
     (let l = outputs (rev_program from); r = outputs (rev_program to) in
      if bmap_get l n \<noteq> bmap_get r n then Some (bmap_get l n, bmap_get r n) else None)"
proof -
  have "n \<in> set (bmap_keys (outputs (rev_program from)) @ bmap_keys (outputs (rev_program to)))"
    if "bmap_get (outputs (rev_program from)) n \<noteq> bmap_get (outputs (rev_program to)) n"
    using that unfolding set_append Un_iff bmap_keys_set bmap_contains_def by metis
  then show ?thesis
    by (auto simp: diff_def Let_def bmap_get_of_list rev_map_filter map_of_changed simp del: set_append)
qed

lemma added_mem: "k \<in> set (added l r) \<longleftrightarrow> bmap_contains r k \<and> \<not> bmap_contains l k"
  by (auto simp: added_def bmap_keys_set)

text \<open>The diff is a patch: it turns the outputs and the tables of one revision into the other's.\<close>

lemma diff_patches:
  "bmap_get (outputs (rev_program to)) n =
     (case bmap_get (outputs_changed (diff from to)) n of
        None \<Rightarrow> bmap_get (outputs (rev_program from)) n | Some (old, new) \<Rightarrow> new)"
  "bmap_contains (operations (rev_program to)) k \<longleftrightarrow>
     (bmap_contains (operations (rev_program from)) k \<and> k \<notin> set (operations_removed (diff from to))) \<or>
     k \<in> set (operations_added (diff from to))"
  "bmap_contains (vals (rev_program to)) k \<longleftrightarrow>
     (bmap_contains (vals (rev_program from)) k \<and> k \<notin> set (values_removed (diff from to))) \<or>
     k \<in> set (values_added (diff from to))"
  "bmap_contains (holes (rev_program to)) k \<longleftrightarrow>
     (bmap_contains (holes (rev_program from)) k \<and> k \<notin> set (holes_removed (diff from to))) \<or>
     k \<in> set (holes_added (diff from to))"
  unfolding outputs_changed_get Let_def
  by (auto simp: diff_def Let_def added_mem)

subsection \<open>Committed transactions\<close>

lemma commit_revision:
  assumes "apply_with_semantics_at enc ws tx s now = Inr (ws', cm)"
  obtains base st0 st r where
    "bmap_get (ws_revisions ws) (base_revision tx) = Some base"
    "start_txn s (rev_program base) (ws_allocator ws) = Inr st0"
    "rfold (apply_action (obligations_per_program (ws_limits ws)) s) st0 (tx_actions tx) = Inr st"
    "bmap_get (ws_revisions ws') (cm_revision cm) = Some r" "rev_parents r = [base_revision tx]"
    "rev_program r = fold (\<lambda>oid p. stamp_revision (cm_revision cm) p oid) (tx_created st) (tx_program st)"
    "rev_content_hash r = cm_content_hash cm" "rev_spec_hash r = cm_spec_hash cm"
  using assms by (rule apply_cases) (auto dest!: admit_transaction_Inr(2) intro!: that)

lemma apply_fork_actions:
  "rfold (apply_action m s) tx acts = Inr tx' \<Longrightarrow> set acts \<subseteq> {ForkRevision} \<Longrightarrow>
   tx_program tx' = tx_program tx \<and> tx_created tx' = tx_created tx"
proof (induction acts arbitrary: tx)
  case (Cons act acts)
  then obtain tx1 where "apply_action m s tx ForkRevision = Inr tx1"
      "rfold (apply_action m s) tx1 acts = Inr tx'"
    by (auto simp: rbind_Inr_iff)
  moreover from this(1) have "tx_program tx1 = tx_program tx" "tx_created tx1 = tx_created tx"
    by (auto simp: apply_action_def split: prod.split_asm)
  ultimately show ?case using Cons.IH [of tx1] Cons.prems(2) by simp
qed simp

text \<open>On a frozen base only \<open>fork_revision\<close> is accepted, and the program does not change.\<close>

lemma frozen_base:
  assumes ap: "apply_with_semantics_at enc ws tx s now = Inr (ws', cm)"
    and base: "bmap_get (ws_revisions ws) (base_revision tx) = Some base" "frozen (rev_program base)"
  shows "tx_actions tx = [ForkRevision]"
    "\<exists>r. bmap_get (ws_revisions ws') (cm_revision cm) = Some r \<and> rev_program r = rev_program base"
proof -
  from ap base(1) obtain st0 st r where c:
    "start_txn s (rev_program base) (ws_allocator ws) = Inr st0"
    "rfold (apply_action (obligations_per_program (ws_limits ws)) s) st0 (tx_actions tx) = Inr st"
    "bmap_get (ws_revisions ws') (cm_revision cm) = Some r"
    "rev_program r = fold (\<lambda>oid p. stamp_revision (cm_revision cm) p oid) (tx_created st) (tx_program st)"
    by (elim commit_revision) auto
  note st0 = start_txn_Inr [OF c(1)]
  from apply_actions_frozen [OF c(2)] st0 base(2) have forks: "set (tx_actions tx) \<subseteq> {ForkRevision}" by simp
  moreover from ap have "tx_actions tx \<noteq> []" "ForkRevision \<in> set (tx_actions tx) \<longrightarrow> length (tx_actions tx) = 1"
    by (auto simp: apply_with_semantics_at_def admit_transaction_def rbind_Inr_iff split: if_split_asm)
  ultimately show "tx_actions tx = [ForkRevision]" by (cases "tx_actions tx") auto
  from apply_fork_actions [OF c(2) forks] st0 c(3,4)
  show "\<exists>r. bmap_get (ws_revisions ws') (cm_revision cm) = Some r \<and> rev_program r = rev_program base" by simp
qed

end
