(* ===== verification/Workspace_Typing.thy ===== *)
theory Workspace_Typing
  imports Operation_Typing Revisions
begin

text \<open>
  Every program that a reachable workspace stores is well formed, and well typed at every
  valuation of the dimensions that satisfies what it assumes.
\<close>

subsection \<open>Commits\<close>

lemma stamp_sound: "sound_graph a p \<Longrightarrow> sound_graph a (stamp_revision rid p oid)"
proof (cases "bmap_get (obligations p) oid")
  case (Some ob)
  assume g: "sound_graph a p"
  let ?obs = "bmap_insert oid (ob\<lparr>ob_origin := (ob_origin ob)\<lparr>oo_revision := Some rid\<rparr>\<rparr>) (obligations p)"
  note wf = sound_graphD(1) [OF g]
  have q: "stamp_revision rid p oid = p\<lparr>obligations := ?obs\<rparr>" by (simp add: stamp_revision_def Some)
  have "ids_below ''o'' (next_obligation a) ?obs"
    by (rule ids_below_same [OF wf_obligation_ids [OF wf] bmap_containsI [OF Some]])
  from graph_wf_obligations [OF wf this] have "graph_wf a (stamp_revision rid p oid)" by (simp add: q)
  moreover have "graph_typed v (stamp_revision rid p oid)" if v: "assumptions_hold v (stamp_revision rid p oid)" for v
  proof -
    have obs: "open_debt_holds v b" if "bmap_get ?obs k = Some b" for k b
      using v that unfolding q assumptions_hold_def by (metis program.select_convs(11) program.surjective program.update_convs(11))
    have "open_debt_holds v b" if b: "bmap_get (obligations p) k = Some b" for k b
    proof (cases "k = oid")
      case True
      with b Some obs [of oid "ob\<lparr>ob_origin := (ob_origin ob)\<lparr>oo_revision := Some rid\<rparr>\<rparr>"] show ?thesis
        by (simp add: open_debt_holds_def)
    qed (use b obs [of k b] in simp)
    then have "assumptions_hold v p"
      by (intro assumptions_hold_sub [OF v]) (simp_all add: q)
    from sound_graphD(2) [OF g this] show ?thesis by (simp add: q)
  qed
  ultimately show ?thesis by (simp add: sound_graph_def)
qed (simp add: stamp_revision_def)

lemma stamp_all_sound:
  "sound_graph a p \<Longrightarrow> sound_graph a (fold (\<lambda>oid p. stamp_revision rid p oid) oids p)"
  by (induction oids arbitrary: p) (simp_all add: stamp_sound)

lemma start_txn_sound:
  assumes st: "start_txn s p a = Inr tx" and s: "s = legacy_semantics \<or> s = core_semantics" and g: "sound_graph a p"
  shows "sound_txn s tx" "tx_alloc tx = a"
proof -
  from st show "tx_alloc tx = a" by (simp add: start_txn_Inr)
  from st obtain facts where "(if s = core_semantics then rmap Some (facts_from_program p) else Inr None) = Inr facts"
    and tx: "tx = \<lparr>tx_program = p, tx_alloc = a, tx_bindings = [], tx_inferred = [],
            tx_classifications = [], tx_created = [], tx_facts = facts\<rparr>"
    by (auto simp: start_txn_def rbind_Inr_iff)
  then have "facts_ok s p facts"
    using s facts_of_inv [of _ "constraints p"]
    by (auto simp: facts_ok_def facts_from_program_def rmap_Inr_iff legacy_semantics_def core_semantics_def
        split: if_split_asm)
  with g show "sound_txn s tx" by (simp add: sound_txn_def tx bindings_ok_def)
qed

subsection \<open>Workspaces\<close>

definition workspace_sound :: "workspace \<Rightarrow> bool" where
  "workspace_sound ws \<longleftrightarrow>
     (\<forall>k r. bmap_get (ws_revisions ws) k = Some r \<longrightarrow> sound_graph (ws_allocator ws) (rev_program r))"

lemma default_program_sound: "sound_graph default_allocator default_program"
  by (simp add: sound_graph_def graph_wf_def graph_ids_def references_def hole_values_def parameter_values_def
      linked_def graph_typed_def default_program_def)

lemma workspace_sound_init:
  "workspace_with_limits_at enc wid limits now = Inr ws \<Longrightarrow> workspace_sound ws"
  by (auto simp: workspace_with_limits_at_def rbind_Inr_iff workspace_sound_def bmap_get_def
      default_program_sound split: if_split_asm)

lemma apply_sound:
  assumes ap: "apply_with_semantics_at enc ws tx s now = Inr (ws', cm)" and ws: "workspace_sound ws"
  shows "workspace_sound ws'"
  using ap
proof (rule apply_cases)
  fix base and st0 st :: txn and prog
  let ?r = "\<lparr>rev_id = cm_revision cm, rev_parents = [base_revision tx],
             rev_content_hash = cm_content_hash cm, rev_spec_hash = cm_spec_hash cm,
             rev_semantic_version = cm_semantic_version cm, rev_program = prog,
             rev_applied_transaction = Some (cm_transaction cm), rev_created_at = now,
             rev_status = summarize_status prog\<rparr>"
  let ?a = "(tx_alloc st)\<lparr>next_transaction := Suc (next_transaction (tx_alloc st)),
                              next_revision := Suc (next_revision (tx_alloc st))\<rparr>"
  assume adm: "admit_transaction enc ws tx s = Inr base"
    and st0: "start_txn s (rev_program base) (ws_allocator ws) = Inr st0"
    and st: "rfold (apply_action (obligations_per_program (ws_limits ws)) s) st0 (tx_actions tx) = Inr st"
    and prog: "prog = fold (\<lambda>oid p. stamp_revision (cm_revision cm) p oid) (tx_created st) (tx_program st)"
    and ws': "ws' = ws\<lparr>ws_allocator := ?a, ws_revisions := bmap_insert (cm_revision cm) ?r (ws_revisions ws),
        ws_head := cm_revision cm,
        ws_events := ws_events ws @ [(s, TransactionApplied (cm_transaction cm) (cm_revision cm) (cm_content_hash cm) tx)]\<rparr>"
  note base = admit_transaction_Inr(1,2) [OF adm]
  have "sound_graph (ws_allocator ws) (rev_program base)" using ws base(2) by (auto simp: workspace_sound_def)
  note s0 = start_txn_sound [OF st0 base(1) this]
  from apply_actions_sound [OF st s0(1)] have s1: "sound_txn s st" "alloc_le (ws_allocator ws) (tx_alloc st)"
    by (simp_all add: s0(2))
  have a: "sound_graph ?a q \<longleftrightarrow> sound_graph (tx_alloc st) q" for q by (rule sound_graph_alloc) simp_all
  have "sound_graph ?a prog" unfolding a prog using s1(1) by (simp add: sound_txn_def stamp_all_sound)
  moreover have "sound_graph ?a (rev_program r)" if "bmap_get (ws_revisions ws) k = Some r" for k r
    unfolding a using ws that sound_graph_mono [OF _ s1(2)] by (auto simp: workspace_sound_def)
  ultimately show "workspace_sound ws'" by (simp add: workspace_sound_def ws')
qed

lemma fork_sound:
  assumes f: "fork_with_semantics_at ws b s now = Inr (ws', rid)" and ws: "workspace_sound ws"
  shows "workspace_sound ws'"
proof -
  have a: "sound_graph (fst (alloc_revision (ws_allocator ws))) q \<longleftrightarrow> sound_graph (ws_allocator ws) q" for q
    by (rule sound_graph_alloc) (simp_all add: alloc_revision_def Let_def)
  from f obtain r where r: "bmap_get (ws_revisions ws) b = Some r"
    and ws': "ws' = ws\<lparr>ws_allocator := fst (alloc_revision (ws_allocator ws)),
        ws_revisions := bmap_insert rid (r\<lparr>rev_id := rid, rev_parents := [b], rev_applied_transaction := None,
            rev_created_at := now\<rparr>) (ws_revisions ws), ws_head := rid,
        ws_events := ws_events ws @ [(s, RevisionForked b rid (rev_content_hash r))]\<rparr>"
    by (auto simp: fork_with_semantics_at_def rbind_Inr_iff Let_def alloc_revision_def split: if_split_asm)
  show ?thesis
    unfolding workspace_sound_def
  proof (intro allI impI)
    fix k x assume "bmap_get (ws_revisions ws') k = Some x"
    then have "(k = rid \<and> rev_program x = rev_program r) \<or> bmap_get (ws_revisions ws) k = Some x"
      by (auto simp: ws' split: if_split_asm)
    with r have "\<exists>j y. bmap_get (ws_revisions ws) j = Some y \<and> rev_program x = rev_program y" by blast
    with ws a show "sound_graph (ws_allocator ws') (rev_program x)"
      by (auto simp: ws' workspace_sound_def)
  qed
qed

lemma reachable_sound: "reachable enc ws \<Longrightarrow> workspace_sound ws"
proof (induction rule: reachable.induct)
  case (create wid limits now ws)
  then show ?case by (rule workspace_sound_init)
next
  case (transact ws tx s now ws' cm)
  show ?case by (rule apply_sound [OF transact.hyps(2) transact.IH])
next
  case (fork ws b s now ws' rid)
  show ?case by (rule fork_sound [OF fork.hyps(2) fork.IH])
qed (simp add: workspace_sound_def)

end
