(* ===== verification/Checks.thy ===== *)
theory Checks
  imports Workspace_Typing
begin

text \<open>
  The report of a check against the operations it is about: what it calls deployable is frozen,
  what it calls complete can be frozen, and it lists every output of the program with its type.
\<close>

lemma complete_iff: "check_report.complete (check_program rid prog) \<longleftrightarrow> program_complete prog"
  by (auto simp: check_program_def Let_def program_complete_def open_hole_ids_Nil open_obligation_ids_Nil)

lemma discharge_none_open:
  assumes "no_open_obligation prog"
  shows "discharge_shape_obligations prog f c = Inr prog"
proof -
  have "(\<forall>(k, ob)\<in>set os. ob_status ob \<noteq> ObOpen) \<Longrightarrow>
      traverse (\<lambda>(k, ob). rmap (Pair k) (discharge_one f c ob)) os = Inr os" for os
    by (induction os) (auto simp: discharge_one_def)
  from this [OF assms [unfolded no_open_obligation_def]] show ?thesis
    by (simp add: discharge_shape_obligations_def)
qed

lemma freeze_complete:
  assumes "program_complete (tx_program tx)" "length (obligations (tx_program tx)) < m"
  shows "is_ok (freeze_spec m a tx)"
proof -
  have "no_open_obligation (tx_program tx)" using assms(1) by (simp add: program_complete_def)
  then have "(case tx_facts tx of None \<Rightarrow> Inr (tx_program tx)
      | Some f \<Rightarrow> discharge_shape_obligations (tx_program tx) f True) = Inr (tx_program tx)"
    by (simp add: discharge_none_open split: option.split)
  moreover have "require_complete (tx_program tx) = Inr ()" using assms(1) by (simp add: require_complete_iff)
  moreover have "is_ok (push_obligation m a d (tx\<lparr>tx_program := (tx_program tx)\<lparr>frozen := True\<rparr>\<rparr>))" for d
    using assms(2)
    by (auto simp: push_obligation_def add_obligation_def ensure_def u64_saturating_add_def Let_def is_ok_def
        split: prod.split)
  ultimately show ?thesis by (simp add: freeze_spec_def)
qed

lemma freeze_only_complete:
  assumes "is_ok (freeze_spec m a tx)" "tx_facts tx = None"
  shows "program_complete (tx_program tx)"
  using assms by (auto simp: is_ok_def freeze_spec_def rbind_Inr_iff require_complete_cases split: sum.split_asm)

lemma checked_outputs:
  assumes "graph_wf a p"
  shows "map fst (cr_outputs (check_program rid p)) = bmap_keys (outputs p)"
    and "(name, t) \<in> set (cr_outputs (check_program rid p)) \<Longrightarrow>
      \<exists>i def. bmap_get (outputs p) name = Some i \<and> bmap_get (vals p) i = Some def \<and> t = v_ty def"
proof -
  let ?g = "\<lambda>(name, value). map_option (\<lambda>def. (name, v_ty def)) (bmap_get (vals p) value)"
  have ok: "bmap_ok (outputs p)" using graph_wfD(1) [OF assms] by (simp add: graph_ids_def)
  have known: "\<exists>def. bmap_get (vals p) i = Some def" if "(n, i) \<in> set (outputs p)" for n i
    using graph_wfD(4) [OF assms, of i] bmap_mem_get [OF ok that]
    by (auto simp: references_def bmap_contains_def)
  have "(\<And>n i. (n, i) \<in> set xs \<Longrightarrow> \<exists>def. bmap_get (vals p) i = Some def) \<Longrightarrow>
      map fst (List.map_filter ?g xs) = map fst xs" for xs
  proof (induction xs)
    case (Cons x xs)
    obtain n i where x: "x = (n, i)" by fastforce
    from Cons.prems [of n i] x obtain def where "bmap_get (vals p) i = Some def" by auto
    moreover have "map fst (List.map_filter ?g xs) = map fst xs"
      by (rule Cons.IH) (use Cons.prems in auto)
    ultimately show ?case by (simp add: x List.map_filter_simps)
  qed (simp add: List.map_filter_simps)
  from this [OF known] show "map fst (cr_outputs (check_program rid p)) = bmap_keys (outputs p)"
    by (simp add: check_program_def Let_def bmap_keys_def)
  show "\<exists>i def. bmap_get (outputs p) name = Some i \<and> bmap_get (vals p) i = Some def \<and> t = v_ty def"
    if "(name, t) \<in> set (cr_outputs (check_program rid p))"
    using that bmap_mem_get [OF ok]
    by (auto simp: check_program_def Let_def List.map_filter_def split: option.split_asm)
qed

lemma check_revision_stored:
  "bmap_get (ws_revisions ws) rid = Some r \<Longrightarrow> check_revision ws rid = Inr (check_program rid (rev_program r))"
  by (simp add: check_revision_def get_revision_def)

lemma check_stored:
  assumes "reachable enc ws" "bmap_get (ws_revisions ws) rid = Some r"
  shows "deployable (check_program rid (rev_program r)) \<longleftrightarrow> frozen (rev_program r)"
proof -
  have "frozen (rev_program r) \<longrightarrow> program_complete (rev_program r)"
    using reachable_inv [OF assms(1)] assms(2) by (auto simp: workspace_inv_def revision_ok_def)
  then show ?thesis by (auto simp: check_program_deployable)
qed

end
