(* ===== verification/Commit_Limits.thy ===== *)
theory Commit_Limits
  imports Workspace_Typing
begin

text \<open>
  The resource preflight of a transaction (\<open>preflight_transaction\<close>) counts what its actions could
  add before any of them runs. The counts bound what the actions then really add, so a committed
  program is never larger than the limits of its workspace allow.
\<close>

subsection \<open>Sizes of tables\<close>

text \<open>Inserting under a present key replaces its value.\<close>

lemma bmap_insert_present:
  "bmap_ok m \<Longrightarrow> bmap_contains m k \<Longrightarrow> bmap_insert k w m = map (\<lambda>(j, x). (j, if j = k then w else x)) m"
proof (induction m)
  case (Cons jx m)
  obtain j x where jx: "jx = (j, x)" by fastforce
  from Cons.prems(1) have below: "\<And>i. i \<in> set (bmap_keys m) \<Longrightarrow> j < i" and ok: "bmap_ok m"
    by (auto simp: jx bmap_ok_def bmap_keys_def)
  show ?case
  proof (cases "j = k")
    case True
    with below have "j' \<noteq> k" if "(j', y) \<in> set m" for j' y using that by (force simp: bmap_keys_def)
    then have "map (\<lambda>(j, x). (j, if j = k then w else x)) m = m" by (intro map_idI) auto
    with True show ?thesis by (simp add: jx)
  next
    case False
    with Cons.prems(2) have "bmap_contains m k" by (simp add: jx bmap_contains_def bmap_get_def)
    moreover from this below have "j < k" by (simp add: bmap_keys_set)
    moreover from this have "\<not> k < j" "k \<noteq> j" by auto
    ultimately show ?thesis using Cons.IH [OF ok] False by (simp add: jx)
  qed
qed (simp add: bmap_contains_def)

lemma length_insert_present: "bmap_ok m \<Longrightarrow> bmap_contains m k \<Longrightarrow> length (bmap_insert k w m) = length m"
  by (simp add: bmap_insert_present)

lemma sum_insert_present:
  assumes "bmap_ok m" "bmap_get m k = Some v" "f w = f v"
  shows "sum_list (map f (bmap_values (bmap_insert k w m))) = sum_list (map f (bmap_values m))"
proof -
  have "f (if j = k then w else x) = f x" if "(j, x) \<in> set m" for j x
    using bmap_mem_get [OF assms(1) that] assms(2,3) by auto
  then have "map (\<lambda>e. f (if fst e = k then w else snd e)) m = map (\<lambda>e. f (snd e)) m" by auto
  then show ?thesis
    using assms(1) bmap_containsI [OF assms(2)]
    by (simp only: bmap_insert_present bmap_values_def case_prod_unfold map_map o_def snd_conv)
qed

definition hole_constraints :: "program \<Rightarrow> nat" where
  "hole_constraints p = sum_list (map (\<lambda>h. length (shape_constraints h)) (bmap_values (holes p)))"

lemma sum_bmap_insert:
  "sum_list (map f (bmap_values (bmap_insert k v m))) \<le> f v + sum_list (map (f :: 'a \<Rightarrow> nat) (bmap_values m))"
  by (induction k v m rule: bmap_insert.induct) (auto simp: bmap_values_def)

text \<open>A count is bounded by a saturating one.\<close>

definition capped :: "nat \<Rightarrow> nat \<Rightarrow> bool" where
  "capped n c \<longleftrightarrow> n \<le> c \<or> u64_max \<le> c"

lemma capped_refl [simp]: "capped n n"
  by (simp add: capped_def)

lemma capped_add: "capped n c \<Longrightarrow> n' \<le> n + k \<Longrightarrow> capped n' (u64_saturating_add c k)"
  by (auto simp: capped_def u64_saturating_add_def)

lemma capped_insert: "capped (length m) c \<Longrightarrow> capped (length (bmap_insert k v m)) (u64_saturating_add c (Suc 0))"
  using length_bmap_insert [of k v m] by (intro capped_add) simp_all

lemma capped_limit: "capped n c \<Longrightarrow> c \<le> l \<Longrightarrow> l < u64_max \<Longrightarrow> n \<le> l"
  by (auto simp: capped_def)

text \<open>The projection counts at least what the program has.\<close>

definition covers :: "nat \<Rightarrow> projection \<Rightarrow> program \<Rightarrow> bool" where
  "covers s pj p \<longleftrightarrow>
     capped (length (dimensions p)) (pj_dimensions pj) \<and> capped (length (operations p)) (pj_operations pj) \<and>
     capped (length (vals p)) (pj_values pj) \<and> capped (length (holes p)) (pj_holes pj) \<and>
     capped (length (constraints p) + hole_constraints p) (pj_constraints pj) \<and>
     capped (length (outputs p)) (pj_outputs pj) \<and>
     (s \<noteq> legacy_semantics \<longrightarrow> set (pj_constraint_set pj) = set (constraints p)) \<and>
     set (pj_output_names pj) = set (bmap_keys (outputs p))"

definition tables_ok :: "program \<Rightarrow> bool" where
  "tables_ok p \<longleftrightarrow> bmap_ok (holes p) \<and> bmap_ok (outputs p) \<and> bmap_ok (obligations p)"

definition bounded :: "nat \<Rightarrow> nat \<Rightarrow> projection \<Rightarrow> program \<Rightarrow> bool" where
  "bounded s m pj p \<longleftrightarrow> covers s pj p \<and> tables_ok p \<and> capped (length (obligations p)) m"

lemma initial_covers:
  assumes "bmap_ok (outputs p)"
  shows "covers s (initial_projection p) p"
proof -
  have "capped (sum_list (map (\<lambda>h. length (shape_constraints h)) hs) + n)
      (fold (\<lambda>h n. u64_saturating_add n (length (shape_constraints h))) hs c)" if "capped n c" for hs n c
    using that
  proof (induction hs arbitrary: n c)
    case (Cons h hs)
    from Cons.IH [OF capped_add [OF Cons.prems order_refl], of "length (shape_constraints h)"]
    show ?case by (simp add: add_ac)
  qed simp
  from this [of 0 0 "bmap_values (holes p)"]
  have "capped (length (constraints p) + hole_constraints p)
      (u64_saturating_add (length (constraints p))
        (fold (\<lambda>h n. u64_saturating_add n (length (shape_constraints h))) (bmap_values (holes p)) 0))"
    by (auto simp: capped_def hole_constraints_def u64_saturating_add_def)
  then show ?thesis
    by (simp add: covers_def initial_projection_def)
qed

subsection \<open>Steps that only add obligations\<close>

definition owes :: "nat \<Rightarrow> txn \<Rightarrow> txn \<Rightarrow> bool" where
  "owes m tx tx' \<longleftrightarrow>
     (\<exists>x. tx_program tx' = (tx_program tx)\<lparr>obligations := x\<rparr> \<and>
        (bmap_ok (obligations (tx_program tx)) \<longrightarrow> bmap_ok x) \<and>
        capped (length x) (max m (length (obligations (tx_program tx)))))"

lemma capped_max: "capped n c \<Longrightarrow> capped n (max m c)" "capped n m \<Longrightarrow> capped n (max m c)"
  by (auto simp: capped_def)

lemma capped_trans: "capped a (max m b) \<Longrightarrow> capped b (max m c) \<Longrightarrow> capped a (max m c)"
  by (auto simp: capped_def max_def split: if_split_asm)

lemma owes_refl [simp]: "owes m tx tx"
  unfolding owes_def by (intro exI [of _ "obligations (tx_program tx)"]) (simp add: capped_max)

lemma owes_trans: "owes m a b \<Longrightarrow> owes m b c \<Longrightarrow> owes m a c"
proof -
  assume "owes m a b" "owes m b c"
  then obtain x y where p: "tx_program b = (tx_program a)\<lparr>obligations := x\<rparr>" "tx_program c = (tx_program b)\<lparr>obligations := y\<rparr>"
    and ok: "bmap_ok (obligations (tx_program a)) \<longrightarrow> bmap_ok x" "bmap_ok x \<longrightarrow> bmap_ok y"
    and n: "capped (length x) (max m (length (obligations (tx_program a))))" "capped (length y) (max m (length x))"
    by (auto simp: owes_def)
  have "capped (length y) (max m (length (obligations (tx_program a))))" by (rule capped_trans [OF n(2,1)])
  with p ok show ?thesis unfolding owes_def by (intro exI [of _ y]) simp
qed

lemma added_obligation:
  assumes "ensure k m (u64_saturating_add (length (obligations p)) 1) ctx = Inr u"
  shows "capped (length (bmap_insert i x (obligations p))) (max m (length (obligations p)))"
  using assms length_bmap_insert [of i x "obligations p"]
  by (auto simp: ensure_cases u64_saturating_add_def capped_def)

lemma push_obligation_owes: "push_obligation m a d tx = Inr tx' \<Longrightarrow> owes m tx tx'"
  by (auto simp: push_obligation_def add_obligation_def rbind_Inr_iff alloc_defs owes_def
      intro!: added_obligation)

lemma push_shape_obligation_owes: "push_shape_obligation m a c tx r = Inr tx' \<Longrightarrow> owes m tx tx'"
  by (auto simp: push_shape_obligation_def add_shape_obligation_def rbind_Inr_iff alloc_defs owes_def Let_def
      intro!: added_obligation)

lemma record_debt_owes:
  assumes "record_debt m s a op os rs tx = Inr tx'"
  shows "owes m tx tx'"
proof (cases "s = legacy_semantics")
  case False
  with assms(1) have "rfold (push_shape_obligation m a (OperationContext op os)) tx
      (remdups_adj (sort_key relation_key rs)) = Inr tx'"
    by (simp add: record_debt_def)
  then show ?thesis
    by (rule rfold_invariant [where P = "owes m tx"])
       (auto dest: push_shape_obligation_owes intro: owes_trans)
qed (use assms in \<open>simp add: record_debt_def push_obligation_owes\<close>)

lemma bounded_obligations:
  "bounded s b pj p \<Longrightarrow> (bmap_ok (obligations p) \<longrightarrow> bmap_ok x) \<Longrightarrow> capped (length x) (max m (length (obligations p))) \<Longrightarrow>
   m \<le> b \<Longrightarrow> bounded s b pj (p\<lparr>obligations := x\<rparr>)"
  by (auto simp: bounded_def covers_def tables_ok_def hole_constraints_def capped_def max_def split: if_split_asm)

lemma owes_bounded:
  "owes m tx tx' \<Longrightarrow> m \<le> b \<Longrightarrow> bounded s b pj (tx_program tx) \<Longrightarrow> bounded s b pj (tx_program tx')"
  by (auto simp: owes_def intro: bounded_obligations)

lemma discharge_bounded:
  assumes "discharge_shape_obligations p f c = Inr q" "bounded s b pj p"
  shows "bounded s b pj q"
proof -
  let ?g = "\<lambda>(k, ob). rmap (Pair k) (discharge_one f c ob)"
  from assms(1) obtain x where x: "traverse ?g (obligations p) = Inr x" and q: "q = p\<lparr>obligations := x\<rparr>"
    by (auto simp: discharge_shape_obligations_def rmap_Inr_iff)
  have "traverse ?g os = Inr ys \<Longrightarrow> map fst ys = map fst os" for os ys
    by (induction os arbitrary: ys) (auto simp: rbind_Inr_iff rmap_Inr_iff)
  from this [OF x] have "bmap_keys x = bmap_keys (obligations p)" by (simp add: bmap_keys_def)
  moreover have "length x = length (obligations p)" by (rule traverse_length [OF x])
  ultimately show ?thesis
    unfolding q by (intro bounded_obligations [OF assms(2), where m = 0]) (simp_all add: bmap_ok_def)
qed

subsection \<open>The projection of an action bounds what it adds\<close>

lemmas bounded_simps = bounded_def covers_def tables_ok_def hole_constraints_def

text \<open>One more operation with its value.\<close>

abbreviation one_operation :: "projection \<Rightarrow> projection" where
  "one_operation pj \<equiv> pj\<lparr>pj_operations := u64_saturating_add (pj_operations pj) 1,
                          pj_values := u64_saturating_add (pj_values pj) 1\<rparr>"

lemma insert_operation_bounded:
  assumes "insert_operation op os attrs r a t n tx = (v, tx1)" "bounded s b pj (tx_program tx)"
  shows "bounded s b (one_operation pj) (tx_program tx1)"
proof -
  obtain i d k x os where "tx_program tx1 = (tx_program tx)\<lparr>vals := bmap_insert i d (vals (tx_program tx)),
      operations := bmap_insert k x (operations (tx_program tx)), operation_order := os\<rparr>"
    using assms(1) by (auto simp: insert_operation_def Let_def split: prod.split_asm)
  with assms(2) show ?thesis by (simp add: bounded_simps capped_insert)
qed

lemma bounded_same:
  "bounded s b pj (p\<lparr>parameters := x\<rparr>) = bounded s b pj p" "bounded s b pj (p\<lparr>constants := y\<rparr>) = bounded s b pj p"
  "bounded s b pj (p\<lparr>frozen := z\<rparr>) = bounded s b pj p"
  by (simp_all add: bounded_def covers_def tables_ok_def hole_constraints_def)

lemma define_dimension_bounded:
  assumes "define_dimension s a bd n cs tx = Inr tx'" "bounded s b pj (tx_program tx)"
  shows "bounded s b (pj\<lparr>pj_dimensions := u64_saturating_add (pj_dimensions pj) 1\<rparr>) (tx_program tx')"
proof -
  obtain k d x where "tx_program tx' = (tx_program tx)\<lparr>dimensions := bmap_insert k d (dimensions (tx_program tx)),
      dimension_names := x\<rparr>"
    using assms(1) by (auto simp: define_dimension_def rbind_Inr_iff Let_def split: if_split_asm prod.split_asm)
  with assms(2) show ?thesis by (simp add: bounded_simps capped_insert)
qed

lemma create_parameter_bounded:
  assumes c: "create_parameter m a bd n t tx = Inr tx'" and b: "bounded s b pj (tx_program tx)" and m: "m \<le> b"
  shows "bounded s b (one_operation pj) (tx_program tx')"
proof -
  obtain v tx1 where ins: "insert_operation Parameter [] [(''name'', JString n), (''type'', JString (show_type t))] None a t (Some n) tx = (v, tx1)"
    by fastforce
  let ?tx2 = "bind_result bd (BValue v) t
      (tx1\<lparr>tx_program := (tx_program tx1)\<lparr>parameters := bmap_insert n v (parameters (tx_program tx1))\<rparr>\<rparr>)"
  from c ins obtain d where "push_obligation m a d ?tx2 = Inr tx'"
    by (auto simp: create_parameter_def rbind_Inr_iff Let_def split: if_split_asm)
  from owes_bounded [OF push_obligation_owes [OF this] m] insert_operation_bounded [OF ins b]
  show ?thesis by (simp add: bind_result_def bounded_same)
qed

lemma create_constant_bounded:
  assumes "create_constant a bd t j tx = Inr tx'" "bounded s b pj (tx_program tx)"
  shows "bounded s b (one_operation pj) (tx_program tx')"
  using assms insert_operation_bounded [OF _ assms(2)]
  by (auto simp: create_constant_def rbind_Inr_iff Let_def bind_result_def bounded_same
      split: prod.split_asm ty.split_asm sum.split_asm)

lemma create_op_bounded:
  assumes "create_op m s a bd n refs attrs spec tx = Inr (c, tx')" "bounded s b pj (tx_program tx)" "m \<le> b"
  shows "bounded s b (one_operation pj) (tx_program tx')"
  using assms(1)
proof (rule create_op_cases)
  fix op operands types rg region_class region_rels i tx1
  assume debt: "(if classification i = Conditional \<or> region_class = Conditional
      then record_debt m s a op operands (region_rels @ shape_relations i) tx else Inr tx) = Inr tx1"
    and tx': "tx' = bind_result bd (BValue (fst (insert_operation op operands attrs rg a (inf_ty i) None tx1))) (inf_ty i)
        (snd (insert_operation op operands attrs rg a (inf_ty i) None tx1))"
  from debt have "owes m tx tx1" using record_debt_owes by (auto split: if_split_asm)
  from owes_bounded [OF this assms(3,2)] show ?thesis
    using insert_operation_bounded [OF surjective_pairing] by (simp add: tx' bind_result_def)
qed

lemma create_hole_bounded:
  assumes c: "create_hole m a bd t cs tx = Inr tx'" and b: "bounded s b pj (tx_program tx)" and m: "m \<le> b"
  shows "bounded s b (pj\<lparr>pj_holes := u64_saturating_add (pj_holes pj) 1,
      pj_values := u64_saturating_add (pj_values pj) 1,
      pj_constraints := u64_saturating_add (pj_constraints pj) (length cs)\<rparr>) (tx_program tx')"
proof -
  let ?p = "tx_program tx"
  from c obtain d i v k h tx2 where push: "push_obligation m a d tx2 = Inr tx'"
    and q: "tx_program tx2 = ?p\<lparr>vals := bmap_insert i v (vals ?p), holes := bmap_insert k h (holes ?p)\<rparr>"
    and h: "shape_constraints h = cs"
    by (auto simp: create_hole_def rbind_Inr_iff Let_def alloc_defs bind_result_def)
  let ?sum = "\<lambda>hs. sum_list (map (\<lambda>h. length (shape_constraints h)) (bmap_values hs))"
  have "?sum (bmap_insert k h (holes ?p)) \<le> length cs + ?sum (holes ?p)"
    using sum_bmap_insert [of "\<lambda>h. length (shape_constraints h)" k h "holes ?p"] by (simp add: h)
  with b have "bounded s b (pj\<lparr>pj_holes := u64_saturating_add (pj_holes pj) 1,
      pj_values := u64_saturating_add (pj_values pj) 1,
      pj_constraints := u64_saturating_add (pj_constraints pj) (length cs)\<rparr>) (tx_program tx2)"
    unfolding q
    by (auto simp: bounded_def covers_def tables_ok_def hole_constraints_def capped_insert intro: capped_add)
  from owes_bounded [OF push_obligation_owes [OF push] m this] show ?thesis .
qed

lemma fill_hole_bounded:
  assumes f: "fill_hole m s a hn vn tx = Inr (c, tx')" and b: "bounded s b pj (tx_program tx)" and m: "m \<le> b"
  shows "bounded s b pj (tx_program tx')"
  using f
proof (rule fill_hole_cases)
  fix k vid vty rel and h :: hole and tx1 :: txn
  let ?p = "tx_program tx" and ?h = "h\<lparr>filled_with := Some vid, hole_status := HoleFilled\<rparr>"
  assume h: "bmap_get (holes ?p) k = Some h"
    and tx1: "tx1 = tx\<lparr>tx_program := ?p\<lparr>holes := bmap_insert k ?h (holes ?p),
         obligations := bmap_map (\<lambda>_. close_hole_obligation k) (obligations ?p)\<rparr>\<rparr>"
    and r: "(c \<noteq> Conditional \<and> tx' = tx1) \<or>
     (c = Conditional \<and> s = legacy_semantics \<and> push_obligation m a
        \<lparr>od_kind = ShapeCompatible, od_status = ObOpen,
         od_proposition = json_object [(''hole'', JString k)], od_methods = [''add_constraint'']\<rparr> tx1 = Inr tx') \<or>
     (c = Conditional \<and> s \<noteq> legacy_semantics \<and>
        (\<exists>r. rel = Some r \<and> push_shape_obligation m a (HoleContext k vid) tx1 r = Inr tx'))"
  have "bounded s b pj (tx_program tx1)"
    using b length_insert_present [OF _ bmap_containsI [OF h], of ?h]
      sum_insert_present [OF _ h, of "\<lambda>h. length (shape_constraints h)" ?h]
    unfolding tx1 by (simp add: bounded_simps) (simp add: bmap_map_def)
  moreover from r have "owes m tx1 tx'"
    using push_obligation_owes push_shape_obligation_owes by auto
  ultimately show ?thesis using owes_bounded m by blast
qed

lemma set_output_bounded:
  assumes "set_output name r tx = Inr tx'" "bounded s b pj (tx_program tx)"
  shows "bounded s b (if bset_contains (pj_output_names pj) name then pj
      else pj\<lparr>pj_outputs := u64_saturating_add (pj_outputs pj) 1,
              pj_output_names := bset_insert name (pj_output_names pj)\<rparr>) (tx_program tx')"
proof -
  obtain v where q: "tx_program tx' = (tx_program tx)\<lparr>outputs := bmap_insert name v (outputs (tx_program tx))\<rparr>"
    using assms(1) by (auto simp: set_output_def rbind_Inr_iff Let_def)
  show ?thesis
  proof (cases "bset_contains (pj_output_names pj) name")
    case True
    with assms(2) have "bmap_contains (outputs (tx_program tx)) name"
      by (auto simp: bounded_def covers_def bset_contains_def bmap_keys_set)
    with assms(2) q True show ?thesis
      by (auto simp: bounded_simps length_insert_present bmap_keys_insert bmap_keys_set)
  next
    case False
    with assms(2) q show ?thesis by (simp add: bounded_simps bmap_keys_insert capped_insert)
  qed
qed

lemma add_constraint_bounded:
  assumes a: "add_constraint c tx = Inr tx'" and b: "bounded s b pj (tx_program tx)"
    and f: "tx_facts tx = None \<longleftrightarrow> s = legacy_semantics"
  shows "bounded s b (if s = legacy_semantics then pj\<lparr>pj_constraints := u64_saturating_add (pj_constraints pj) 1\<rparr>
      else if bset_contains (pj_constraint_set pj) c then pj
      else pj\<lparr>pj_constraints := u64_saturating_add (pj_constraints pj) 1,
              pj_constraint_set := bset_insert c (pj_constraint_set pj)\<rparr>) (tx_program tx')"
proof -
  let ?p = "tx_program tx"
  have more: "capped (length cs + n) k \<Longrightarrow> capped (length (cs @ [c]) + n) (u64_saturating_add k 1)" for cs n k
    by (erule capped_add) simp
  show ?thesis
  proof (cases "tx_facts tx")
    case None
    with a have "tx_program tx' = ?p\<lparr>constraints := constraints ?p @ [c]\<rparr>" by (auto simp: add_constraint_def Let_def)
    with None f b more show ?thesis by (simp add: bounded_simps)
  next
    case (Some facts)
    let ?q = "if c \<in> set (constraints ?p) then ?p else ?p\<lparr>constraints := constraints ?p @ [c]\<rparr>"
    let ?j = "if bset_contains (pj_constraint_set pj) c then pj
      else pj\<lparr>pj_constraints := u64_saturating_add (pj_constraints pj) 1,
              pj_constraint_set := bset_insert c (pj_constraint_set pj)\<rparr>"
    from a Some obtain staged where d: "discharge_shape_obligations ?q staged True = Inr (tx_program tx')"
      by (auto simp: add_constraint_def rbind_Inr_iff Let_def)
    from Some f b have "set (pj_constraint_set pj) = set (constraints ?p)" by (simp add: bounded_simps)
    then have "bounded s b ?j ?q" using b more by (simp add: bounded_simps bset_contains_def)
    with discharge_bounded [OF d] Some f show ?thesis by simp
  qed
qed

lemma freeze_spec_bounded:
  assumes f: "freeze_spec m a tx = Inr tx'" and b: "bounded s b pj (tx_program tx)" and m: "m \<le> b"
  shows "bounded s b pj (tx_program tx')"
proof -
  from f obtain q d where
    q: "(case tx_facts tx of None \<Rightarrow> Inr (tx_program tx)
         | Some f \<Rightarrow> discharge_shape_obligations (tx_program tx) f True) = Inr q"
    and push: "push_obligation m a d (tx\<lparr>tx_program := q\<lparr>frozen := True\<rparr>\<rparr>) = Inr tx'"
    by (auto simp: freeze_spec_def rbind_Inr_iff)
  from q b have "bounded s b pj q" by (auto split: option.split_asm intro: discharge_bounded)
  with owes_bounded [OF push_obligation_owes [OF push] m, of s pj] show ?thesis by (simp add: bounded_same)
qed

lemma action_bounded:
  assumes act: "apply_action m s tx act = Inr tx'" and proj: "project_action enc limits s pj act = Inr pj'"
    and b: "bounded s b pj (tx_program tx)" and f: "tx_facts tx = None \<longleftrightarrow> s = legacy_semantics" and m: "m \<le> b"
  shows "bounded s b pj' (tx_program tx')"
proof -
  let ?tx = "tx\<lparr>tx_alloc := fst (alloc_action (tx_alloc tx))\<rparr>" and ?a = "snd (alloc_action (tx_alloc tx))"
  from b have b': "bounded s b pj (tx_program ?tx)" by simp
  from f have f': "tx_facts ?tx = None \<longleftrightarrow> s = legacy_semantics" by simp
  from act obtain c tx1 where r: "(case act of
             DefineDimension bind name cs \<Rightarrow> legal_step (define_dimension s ?a bind name cs ?tx)
           | CreateParameter bind name t \<Rightarrow> legal_step (create_parameter m ?a bind name t ?tx)
           | CreateConstant bind t j \<Rightarrow> legal_step (create_constant ?a bind t j ?tx)
           | CreateHole bind t cs \<Rightarrow> rmap (Pair Conditional) (create_hole m ?a bind t cs ?tx)
           | CreateOp bind op operands attributes spec \<Rightarrow> create_op m s ?a bind op operands attributes spec ?tx
           | FillHole h v \<Rightarrow> fill_hole m s ?a h v ?tx
           | SetOutput name v \<Rightarrow> legal_step (set_output name v ?tx)
           | AddConstraint c \<Rightarrow> legal_step (add_constraint c ?tx)
           | FreezeSpec \<Rightarrow> legal_step (freeze_spec m ?a ?tx)
           | ForkRevision \<Rightarrow> Inr (Legal, ?tx)) = Inr (c, tx1)"
      and same: "tx_program tx' = tx_program tx1"
    by (auto simp: apply_action_def Let_def rbind_Inr_iff split_def split: if_split_asm)
  show ?thesis
  proof (cases act)
    case (DefineDimension bd n cs)
    with r proj define_dimension_bounded [OF _ b'] show ?thesis
      by (auto simp: legal_step_def rmap_Inr_iff project_action_def same)
  next
    case (CreateParameter bd n t)
    with r proj create_parameter_bounded [OF _ b' m] show ?thesis
      by (auto simp: legal_step_def rmap_Inr_iff project_action_def same)
  next
    case (CreateConstant bd t j)
    with r proj create_constant_bounded [OF _ b'] show ?thesis
      by (auto simp: legal_step_def rmap_Inr_iff project_action_def same)
  next
    case (CreateHole bd t cs)
    with r proj create_hole_bounded [OF _ b' m] show ?thesis
      by (auto simp: rmap_Inr_iff project_action_def same)
  next
    case (CreateOp bd op os attrs spec)
    with r proj create_op_bounded [OF _ b' m] show ?thesis
      by (auto simp: rbind_Inr_iff project_action_def same)
  next
    case (FillHole h v)
    with r proj fill_hole_bounded [OF _ b' m] show ?thesis by (auto simp: project_action_def same)
  next
    case (SetOutput n v)
    with r proj set_output_bounded [OF _ b', of n v tx1] show ?thesis
      by (auto simp: legal_step_def rmap_Inr_iff project_action_def same split: if_splits)
  next
    case (AddConstraint c)
    with r proj add_constraint_bounded [OF _ b' f', of c tx1] show ?thesis
      by (auto simp: legal_step_def rmap_Inr_iff project_action_def same split: if_splits)
  next
    case FreezeSpec
    with r proj freeze_spec_bounded [OF _ b' m] show ?thesis
      by (auto simp: legal_step_def rmap_Inr_iff project_action_def same)
  next
    case ForkRevision
    with r proj b' show ?thesis by (auto simp: project_action_def same)
  qed
qed

subsection \<open>Committed programs are within the limits\<close>

text \<open>A transaction bounds what its base becomes; the tables of every stored program are sorted.\<close>

lemma actions_bounded:
  assumes "rfold (apply_action m s) tx acts = Inr tx'" "rfold (project_action enc limits s) pj acts = Inr pj'"
    and "bounded s b pj (tx_program tx)" "sound_txn s tx" "m \<le> b"
  shows "bounded s b pj' (tx_program tx')"
  using assms(1-4)
proof (induction acts arbitrary: tx pj)
  case (Cons act acts)
  from Cons.prems(1,2) obtain tx1 pj1 where
    step: "apply_action m s tx act = Inr tx1" "project_action enc limits s pj act = Inr pj1"
    and rest: "rfold (apply_action m s) tx1 acts = Inr tx'" "rfold (project_action enc limits s) pj1 acts = Inr pj'"
    by (auto simp: rbind_Inr_iff)
  have "tx_facts tx = None \<longleftrightarrow> s = legacy_semantics"
    using Cons.prems(4) by (auto simp: sound_txn_def facts_ok_def split: option.split_asm)
  from action_bounded [OF step Cons.prems(3) this assms(5)] apply_action_sound [OF step(1) Cons.prems(4)]
  show ?case using Cons.IH [OF rest] by blast
qed simp

lemma stamp_bounded: "bounded s b pj p \<Longrightarrow> bounded s b pj (stamp_revision rid p oid)"
proof (cases "bmap_get (obligations p) oid")
  case (Some ob)
  assume b: "bounded s b pj p"
  with length_insert_present [OF _ bmap_containsI [OF Some]] Some show ?thesis
    by (simp add: stamp_revision_def) (intro bounded_obligations [where m = 0], simp_all add: bounded_def tables_ok_def)
qed (simp add: stamp_revision_def)

lemma stamp_all_bounded:
  "bounded s b pj p \<Longrightarrow> bounded s b pj (fold (\<lambda>oid p. stamp_revision rid p oid) oids p)"
  by (induction oids arbitrary: p) (simp_all add: stamp_bounded)

definition stored_tables_ok :: "workspace \<Rightarrow> bool" where
  "stored_tables_ok ws \<longleftrightarrow> (\<forall>k r. bmap_get (ws_revisions ws) k = Some r \<longrightarrow> tables_ok (rev_program r))"

text \<open>The sizes that a workspace limits.\<close>

definition within_limits :: "resource_limits \<Rightarrow> program \<Rightarrow> bool" where
  "within_limits limits p \<longleftrightarrow>
     length (dimensions p) \<le> limit limits DimensionsPerProgram \<and>
     length (operations p) \<le> limit limits OperationsPerProgram \<and>
     length (vals p) \<le> limit limits ValuesPerProgram \<and>
     length (holes p) \<le> limit limits HolesPerProgram \<and>
     length (constraints p) + hole_constraints p \<le> limit limits ConstraintsPerProgram \<and>
     length (outputs p) \<le> limit limits OutputCount"

lemma capped_limits:
  assumes "limits_within limits hard_safety_caps"
  shows "limit limits r < u64_max"
proof -
  have "candidate_limit candidate_safety_caps k < u64_max" for k
    by (cases k) (simp_all add: candidate_safety_caps_def u64_max_def)
  moreover have "memory_limit memory_safety_caps k < u64_max" for k
    by (cases k) (simp_all add: memory_safety_caps_def u64_max_def)
  ultimately have "limit hard_safety_caps r < u64_max"
    by (cases r) (simp_all add: hard_safety_caps_def u64_max_def)
  with assms show ?thesis unfolding limits_within_def by (meson le_less_trans)
qed

lemma preflight_within:
  assumes "preflight_transaction enc prog tx limits s = Inr ()"
  obtains pj where "rfold (project_action enc limits s) (initial_projection prog) (tx_actions tx) = Inr pj"
    "\<And>p. covers s pj p \<Longrightarrow> (\<And>r. limit limits r < u64_max) \<Longrightarrow> within_limits limits p"
proof -
  from assms obtain pj us where pj: "rfold (project_action enc limits s) (initial_projection prog) (tx_actions tx) = Inr pj"
    and us: "traverse (\<lambda>(r, n). against limits r n ''projected program size'')
         [(DimensionsPerProgram, pj_dimensions pj), (OperationsPerProgram, pj_operations pj),
          (ValuesPerProgram, pj_values pj), (HolesPerProgram, pj_holes pj),
          (ConstraintsPerProgram, pj_constraints pj), (OutputCount, pj_outputs pj)] = Inr us"
    by (auto simp: preflight_transaction_def rbind_Inr_iff rmap_Inr_iff)
  from us have "pj_dimensions pj \<le> limit limits DimensionsPerProgram" "pj_operations pj \<le> limit limits OperationsPerProgram"
      "pj_values pj \<le> limit limits ValuesPerProgram" "pj_holes pj \<le> limit limits HolesPerProgram"
      "pj_constraints pj \<le> limit limits ConstraintsPerProgram" "pj_outputs pj \<le> limit limits OutputCount"
    by (auto simp: rbind_Inr_iff against_cases simp del: limit.simps)
  then show thesis
    by (intro that [OF pj]) (auto simp: covers_def within_limits_def simp del: limit.simps elim!: capped_limit)
qed

lemma commit_bounded:
  assumes ap: "apply_with_semantics_at enc ws tx s now = Inr (ws', cm)"
    and ws: "workspace_sound ws" "stored_tables_ok ws"
  obtains base pj r where "bmap_get (ws_revisions ws) (base_revision tx) = Some base"
    "bmap_get (ws_revisions ws') (cm_revision cm) = Some r"
    "\<And>k. k \<noteq> cm_revision cm \<Longrightarrow> bmap_get (ws_revisions ws') k = bmap_get (ws_revisions ws) k"
    "bounded s (max (obligations_per_program (ws_limits ws)) (length (obligations (rev_program base)))) pj (rev_program r)"
    "\<And>p. covers s pj p \<Longrightarrow> (\<And>r. limit (ws_limits ws) r < u64_max) \<Longrightarrow> within_limits (ws_limits ws) p"
  using ap
proof (rule apply_cases)
  fix base :: revision and st0 st :: txn and prog
  let ?m = "obligations_per_program (ws_limits ws)" and ?p0 = "rev_program base"
  let ?b = "max ?m (length (obligations ?p0))"
  let ?r = "\<lparr>rev_id = cm_revision cm, rev_parents = [base_revision tx],
             rev_content_hash = cm_content_hash cm, rev_spec_hash = cm_spec_hash cm,
             rev_semantic_version = cm_semantic_version cm, rev_program = prog,
             rev_applied_transaction = Some (cm_transaction cm), rev_created_at = now,
             rev_status = summarize_status prog\<rparr>"
  assume adm: "admit_transaction enc ws tx s = Inr base"
    and st0: "start_txn s ?p0 (ws_allocator ws) = Inr st0"
    and st: "rfold (apply_action ?m s) st0 (tx_actions tx) = Inr st"
    and prog: "prog = fold (\<lambda>oid p. stamp_revision (cm_revision cm) p oid) (tx_created st) (tx_program st)"
    and ws': "ws' = ws\<lparr>ws_allocator := (tx_alloc st)\<lparr>next_transaction := Suc (next_transaction (tx_alloc st)),
                                             next_revision := Suc (next_revision (tx_alloc st))\<rparr>,
        ws_revisions := bmap_insert (cm_revision cm) ?r (ws_revisions ws), ws_head := cm_revision cm,
        ws_events := ws_events ws @ [(s, TransactionApplied (cm_transaction cm) (cm_revision cm) (cm_content_hash cm) tx)]\<rparr>"
  note a = admit_transaction_Inr [OF adm]
  from ws a(2) have g: "sound_graph (ws_allocator ws) ?p0" and t: "tables_ok ?p0"
    by (auto simp: workspace_sound_def stored_tables_ok_def)
  note s0 = start_txn_sound(1) [OF st0 a(1) g] start_txn_Inr [OF st0]
  obtain pj where
    pj: "rfold (project_action enc (ws_limits ws) s) (initial_projection ?p0) (tx_actions tx) = Inr pj"
    and within: "\<And>p. covers s pj p \<Longrightarrow> (\<And>r. limit (ws_limits ws) r < u64_max) \<Longrightarrow> within_limits (ws_limits ws) p"
    using preflight_within [OF a(5)] by metis
  have "bounded s ?b (initial_projection ?p0) ?p0"
    using t initial_covers [of ?p0] by (simp add: bounded_def tables_ok_def capped_max)
  with actions_bounded [OF st pj, of ?b] s0 have "bounded s ?b pj (tx_program st)" by simp
  then have "bounded s ?b pj prog" unfolding prog by (rule stamp_all_bounded)
  then have "bounded s ?b pj (rev_program ?r)" by simp
  with within show thesis by (intro that [OF a(2), of ?r pj]) (simp_all add: ws')
qed

lemma reachable_tables: "reachable enc ws \<Longrightarrow> stored_tables_ok ws"
proof (induction rule: reachable.induct)
  case (create wid limits now ws)
  then show ?case
    by (auto simp: workspace_with_limits_at_def rbind_Inr_iff stored_tables_ok_def bmap_get_def tables_ok_def
        default_program_def split: if_split_asm)
next
  case (transact ws tx s now ws' cm)
  show ?case
    by (rule commit_bounded [OF transact.hyps(2) reachable_sound [OF transact.hyps(1)] transact.IH])
       (use transact.IH in \<open>metis stored_tables_ok_def bounded_def option.inject\<close>)
next
  case (fork ws b s now ws' rid)
  from fork_inv(3,4) [OF fork.hyps(2) reachable_inv [OF fork.hyps(1)]] fork.IH
  show ?case unfolding stored_tables_ok_def by (metis option.inject)
qed (simp add: stored_tables_ok_def)

lemma committed_within_limits:
  assumes "reachable enc ws" "apply_with_semantics_at enc ws tx s now = Inr (ws', cm)"
    and "\<And>r. limit (ws_limits ws) r < u64_max"
    and base: "bmap_get (ws_revisions ws) (base_revision tx) = Some base"
  shows "\<exists>r. bmap_get (ws_revisions ws') (cm_revision cm) = Some r \<and> within_limits (ws_limits ws) (rev_program r) \<and>
    (length (obligations (rev_program base)) \<le> limit (ws_limits ws) ObligationsPerProgram \<longrightarrow>
     length (obligations (rev_program r)) \<le> limit (ws_limits ws) ObligationsPerProgram)"
proof (rule commit_bounded [OF assms(2) reachable_sound [OF assms(1)] reachable_tables [OF assms(1)]])
  fix base' :: revision and pj and r :: revision
  assume b: "bmap_get (ws_revisions ws) (base_revision tx) = Some base'"
    and r: "bmap_get (ws_revisions ws') (cm_revision cm) = Some r"
    and bd: "bounded s (max (obligations_per_program (ws_limits ws)) (length (obligations (rev_program base')))) pj (rev_program r)"
    and w: "\<And>p. covers s pj p \<Longrightarrow> (\<And>r. limit (ws_limits ws) r < u64_max) \<Longrightarrow> within_limits (ws_limits ws) p"
  have "within_limits (ws_limits ws) (rev_program r)" using bd by (intro w assms(3)) (simp add: bounded_def)
  moreover have "length (obligations (rev_program r)) \<le> limit (ws_limits ws) ObligationsPerProgram"
    if "length (obligations (rev_program base)) \<le> limit (ws_limits ws) ObligationsPerProgram"
    using that bd b base assms(3) [of ObligationsPerProgram] by (auto simp: bounded_def capped_def max_def split: if_split_asm)
  ultimately show ?thesis using r by blast
qed

end
