(* ===== verification/Evaluation.thy ===== *)
theory Evaluation
  imports Interpreter_Types
begin

text \<open>
  Whole evaluations (\<open>evaluate_with_limits\<close>): the JSON of every output is the JSON of what the
  reference semantics assigns to it, the order of the outputs does not matter, and JSON
  encoding of a typed value fails only for a float that is not finite.
\<close>

subsection \<open>Outputs\<close>

definition output_denotes ::
    "program \<Rightarrow> (string, runtime_value) bmap \<Rightarrow> string \<times> string \<Rightarrow> string \<times> json \<Rightarrow> bool" where
  "output_denotes prog params p q \<longleftrightarrow>
     fst q = fst p \<and>
     (\<exists>v. denotes prog params (resolve_filled_value prog (snd p)) v \<and> runtime_json v = Inr (snd q))"

abbreviation idle :: "program \<Rightarrow> (string, runtime_value) bmap \<Rightarrow> evaluator \<Rightarrow> bool" where
  "idle prog params \<equiv> visits prog params {}"

lemma idle_start: "idle prog params \<lparr>memo = [], visiting = []\<rparr>"
  by (simp add: visits_def memo_ok_def)

lemma idle_eval_complete:
  assumes "idle prog params s" "denotes prog params (resolve_filled_value prog i) v"
  shows "\<exists>s'. eval_value prog params (value_fuel prog) i s = Inr (v, s') \<and> idle prog params s'"
proof -
  from assms(2) obtain n where "denote prog params n (resolve_filled_value prog i) = Inr v"
    by (auto simp: denotes_def)
  moreover have "unvisited prog {} < value_fuel prog"
    using unvisited_le [of prog "{}"] by (simp add: value_fuel_def)
  ultimately show ?thesis using eval_value_complete assms(1) by blast
qed

lemma idle_eval_sound:
  assumes "idle prog params s" "eval_value prog params (value_fuel prog) i s = Inr (v, s')"
  shows "denotes prog params (resolve_filled_value prog i) v \<and> idle prog params s'"
proof -
  have d: "denotes prog params (resolve_filled_value prog i) v"
    using eval_value_sound [OF assms(2)] assms(1) by (simp add: visits_def)
  from idle_eval_complete [OF assms(1) d] assms(2) d show ?thesis by auto
qed

lemma evaluate_output_iff:
  assumes "idle prog params s"
  shows "(\<exists>s'. evaluate_output prog params p s = Inr (q, s') \<and> idle prog params s') \<longleftrightarrow>
    output_denotes prog params p q"
    and "evaluate_output prog params p s = Inr (q, s') \<Longrightarrow> idle prog params s' \<and> output_denotes prog params p q"
proof -
  show sound: "evaluate_output prog params p s = Inr (q, s') \<Longrightarrow>
      idle prog params s' \<and> output_denotes prog params p q" for s'
    using idle_eval_sound [OF assms]
    by (fastforce simp: evaluate_output_def rbind_Inr_iff rmap_Inr_iff output_denotes_def)
  show "(\<exists>s'. evaluate_output prog params p s = Inr (q, s') \<and> idle prog params s') \<longleftrightarrow>
      output_denotes prog params p q"
  proof
    assume "output_denotes prog params p q"
    then obtain v where v: "denotes prog params (resolve_filled_value prog (snd p)) v"
        "runtime_json v = Inr (snd q)" "fst q = fst p"
      by (auto simp: output_denotes_def)
    from idle_eval_complete [OF assms v(1)] obtain s' where
      "eval_value prog params (value_fuel prog) (snd p) s = Inr (v, s')" "idle prog params s'" by blast
    with v(2,3) show "\<exists>s'. evaluate_output prog params p s = Inr (q, s') \<and> idle prog params s'"
      by (cases q) (auto simp: evaluate_output_def)
  qed (use sound in blast)
qed

lemma evaluate_outputs_iff:
  "idle prog params s \<Longrightarrow>
   (\<exists>s'. traverse_st (evaluate_output prog params) outs s = Inr (qs, s')) \<longleftrightarrow>
   list_all2 (output_denotes prog params) outs qs"
proof (induction outs arbitrary: s qs)
  case (Cons p outs)
  show ?case
  proof
    assume "\<exists>s'. traverse_st (evaluate_output prog params) (p # outs) s = Inr (qs, s')"
    then obtain q s1 qs' s' where e: "evaluate_output prog params p s = Inr (q, s1)"
        "traverse_st (evaluate_output prog params) outs s1 = Inr (qs', s')" "qs = q # qs'"
      by (auto simp: rbind_Inr_iff)
    from evaluate_output_iff(2) [OF Cons.prems e(1)] have s1: "idle prog params s1"
      and q: "output_denotes prog params p q" by blast+
    from Cons.IH [OF s1] e(2) q e(3) show "list_all2 (output_denotes prog params) (p # outs) qs" by auto
  next
    assume "list_all2 (output_denotes prog params) (p # outs) qs"
    then obtain q qs' where q: "qs = q # qs'" "output_denotes prog params p q"
        "list_all2 (output_denotes prog params) outs qs'" by (cases qs) auto
    from evaluate_output_iff(1) [OF Cons.prems] q(2) obtain s1 where
      s1: "evaluate_output prog params p s = Inr (q, s1)" "idle prog params s1" by blast
    from Cons.IH [OF s1(2)] q(3) obtain s' where
      "traverse_st (evaluate_output prog params) outs s1 = Inr (qs', s')" by blast
    with s1(1) q(1) show "\<exists>s'. traverse_st (evaluate_output prog params) (p # outs) s = Inr (qs, s')" by auto
  qed
qed auto

lemma evaluate_with_limits_iff:
  "evaluate_with_limits prog inputs limits = Inr r \<longleftrightarrow>
   (\<exists>params outs. prepare_evaluator prog inputs limits = Inr (params, result_dimensions r) \<and>
      list_all2 (output_denotes prog params) (outputs prog) outs \<and>
      r = \<lparr>result_outputs = bmap_of_list outs, result_dimensions = result_dimensions r\<rparr>)"
proof -
  note iff = evaluate_outputs_iff [OF idle_start]
  show ?thesis
  proof
    assume "evaluate_with_limits prog inputs limits = Inr r"
    then obtain params dims outs s' where e: "prepare_evaluator prog inputs limits = Inr (params, dims)"
        "traverse_st (evaluate_output prog params) (outputs prog) \<lparr>memo = [], visiting = []\<rparr> = Inr (outs, s')"
        "r = \<lparr>result_outputs = bmap_of_list outs, result_dimensions = dims\<rparr>"
      by (auto simp: evaluate_with_limits_def rbind_Inr_iff)
    from iff e(2) have "list_all2 (output_denotes prog params) (outputs prog) outs" by blast
    with e show "\<exists>params outs. prepare_evaluator prog inputs limits = Inr (params, result_dimensions r) \<and>
      list_all2 (output_denotes prog params) (outputs prog) outs \<and>
      r = \<lparr>result_outputs = bmap_of_list outs, result_dimensions = result_dimensions r\<rparr>" by auto
  next
    assume "\<exists>params outs. prepare_evaluator prog inputs limits = Inr (params, result_dimensions r) \<and>
      list_all2 (output_denotes prog params) (outputs prog) outs \<and>
      r = \<lparr>result_outputs = bmap_of_list outs, result_dimensions = result_dimensions r\<rparr>"
    then obtain params outs where p: "prepare_evaluator prog inputs limits = Inr (params, result_dimensions r)"
        "list_all2 (output_denotes prog params) (outputs prog) outs"
        "r = \<lparr>result_outputs = bmap_of_list outs, result_dimensions = result_dimensions r\<rparr>" by blast
    from iff p(2) obtain s' where
      "traverse_st (evaluate_output prog params) (outputs prog) \<lparr>memo = [], visiting = []\<rparr> = Inr (outs, s')" by blast
    with p(1) have "evaluate_with_limits prog inputs limits =
        Inr \<lparr>result_outputs = bmap_of_list outs, result_dimensions = result_dimensions r\<rparr>"
      by (simp add: evaluate_with_limits_def)
    with p(3) show "evaluate_with_limits prog inputs limits = Inr r" by simp
  qed
qed

subsection \<open>JSON of typed values\<close>

lemma scalar_json_outcome: "outcome (\<lambda>_. True) {TransactionRejected} (scalar_json a)"
  by (cases a) (simp_all add: scalar_json_def)

lemma repeat_st_outcome:
  assumes "\<And>c. c + k \<le> m \<Longrightarrow> outcome (\<lambda>(j, c'). c' = c + k) E (f c)"
  shows "c + n * k \<le> m \<Longrightarrow> outcome (\<lambda>(js, c'). length js = n \<and> c' = c + n * k) E (repeat_st n f c)"
proof (induction n arbitrary: c)
  case (Suc n)
  have "outcome (\<lambda>(j, c'). c' = c + k) E (f c)" using Suc.prems by (intro assms) simp
  then show ?case
    unfolding repeat_st.simps
  proof (rule outcome_rbind, clarify)
    fix j
    have "outcome (\<lambda>(js, c'). length js = n \<and> c' = c + k + n * k) E (repeat_st n f (c + k))"
      using Suc.prems by (intro Suc.IH) simp
    then show "outcome (\<lambda>(js, c'). length js = Suc n \<and> c' = c + Suc n * k) E
        (rbind (repeat_st n f (c + k)) (\<lambda>(xs, s2). Inr (j # xs, s2)))"
      by (rule outcome_rbind) (auto simp: algebra_simps)
  qed
qed simp

lemma build_json_outcome:
  "c + prod_list ext \<le> length es \<Longrightarrow>
   outcome (\<lambda>(j, c'). c' = c + prod_list ext) {TransactionRejected} (build_json es ext c)"
proof (induction ext arbitrary: c)
  case Nil
  then show ?case by (auto intro!: outcome_rmap [OF scalar_json_outcome])
next
  case (Cons n ext)
  have "outcome (\<lambda>(js, c'). length js = n \<and> c' = c + n * prod_list ext) {TransactionRejected}
      (repeat_st n (build_json es ext) c)"
    by (rule repeat_st_outcome [where m = "length es"]) (use Cons in \<open>auto\<close>)
  then show ?case by (auto intro!: outcome_rmap)
qed

lemma runtime_json_outcome:
  assumes "value_typed w t"
  shows "outcome (\<lambda>_. True) {TransactionRejected} (runtime_json w)"
proof (cases w)
  case (RScalar a)
  then show ?thesis using scalar_json_outcome by (simp add: runtime_json_def)
next
  case (RTensor d)
  with assms have "length (elements d) = prod_list (tensor_shape d)"
    by (cases t) (auto simp: tensor_typed_def)
  then have "outcome (\<lambda>(j, c'). c' = 0 + prod_list (tensor_shape d)) {TransactionRejected}
      (build_json (elements d) (tensor_shape d) 0)"
    by (intro build_json_outcome) simp
  with RTensor show ?thesis by (auto simp: runtime_json_def tensor_json_def intro: outcome_rmap)
qed

subsection \<open>Evaluation of typed programs\<close>

lemma evaluate_output_outcome:
  assumes p: "program_typed v prog params" and t: "value_dty v prog (snd p) = Some t" and r: "running v prog {} s"
  shows "outcome (\<lambda>(q, s'). fst q = fst p \<and> running v prog {} s') evaluation_errors (evaluate_output prog params p s)"
proof -
  have "unvisited prog {} < value_fuel prog"
    using unvisited_le [of prog "{}"] by (simp add: value_fuel_def)
  note e = eval_value_outcome [OF \<open>program_typed v prog params\<close> t r this]
  show ?thesis
    unfolding evaluate_output_def
  proof (rule outcome_rbind [OF e], clarify)
    fix w s' assume "value_typed w t" "running v prog {} s'"
    have "outcome (\<lambda>_. True) evaluation_errors (runtime_json w)"
      by (rule outcome_mono [OF runtime_json_outcome [OF \<open>value_typed w t\<close>]]) (auto simp: evaluation_errors_def)
    with \<open>running v prog {} s'\<close> show "outcome (\<lambda>(q, s'). fst q = fst p \<and> running v prog {} s') evaluation_errors
        (rmap (\<lambda>j. ((fst p, j), s')) (runtime_json w))"
      by (auto intro!: outcome_rmap)
  qed
qed

lemma bmap_keys_of_list: "set (bmap_keys (bmap_of_list kvs)) = set (map fst kvs)"
proof -
  have "k \<in> set (bmap_keys (bmap_of_list kvs)) \<longleftrightarrow> k \<in> fst ` set (rev kvs)" for k
    unfolding bmap_keys_set bmap_contains_def bmap_get_of_list by (metis map_of_eq_None_iff)
  then show ?thesis by auto
qed

lemma evaluate_typed_outcome:
  assumes prep: "prepare_evaluator prog inputs limits = Inr (params, dims)"
    and p: "program_typed v prog params"
    and outs: "\<And>name i. (name, i) \<in> set (outputs prog) \<Longrightarrow> \<exists>t. value_dty v prog i = Some t"
  shows "outcome (\<lambda>r. set (bmap_keys (result_outputs r)) = set (bmap_keys (outputs prog)) \<and> result_dimensions r = dims)
    evaluation_errors (evaluate_with_limits prog inputs limits)"
proof -
  have "list_all2 (\<lambda>x t. \<forall>s. running v prog {} s \<longrightarrow>
      outcome (\<lambda>(q, s'). fst q = fst t \<and> running v prog {} s') evaluation_errors (evaluate_output prog params x s))
      (outputs prog) (outputs prog)"
  proof (rule list.rel_refl_strong, clarify)
    fix name i s assume "(name, i) \<in> set (outputs prog)" "running v prog {} s"
    moreover from outs [OF this(1)] obtain t where "value_dty v prog i = Some t" by blast
    ultimately show "outcome (\<lambda>(q, s'). fst q = fst (name, i) \<and> running v prog {} s') evaluation_errors
        (evaluate_output prog params (name, i) s)"
      using evaluate_output_outcome [OF p, of "(name, i)"] by simp
  qed
  from outcome_traverse_st [OF this, of "\<lparr>memo = [], visiting = []\<rparr>"]
  have "outcome (\<lambda>(qs, s'). list_all2 (\<lambda>q p. fst q = fst p) qs (outputs prog) \<and> running v prog {} s') evaluation_errors
      (traverse_st (evaluate_output prog params) (outputs prog) \<lparr>memo = [], visiting = []\<rparr>)"
    by (simp add: running_def memo_typed_def)
  then show ?thesis
    unfolding evaluate_with_limits_def prep rbind_simps prod.case
  proof (rule outcome_rbind, clarify)
    fix qs :: "(string \<times> json) list" and s'
    assume "list_all2 (\<lambda>q p. fst q = fst p) qs (outputs prog)"
    then have "map fst qs = map fst (outputs prog)"
      by (auto simp: list_all2_conv_all_nth intro: nth_equalityI)
    then have "set (bmap_keys (bmap_of_list qs)) = set (bmap_keys (outputs prog))"
      by (simp only: bmap_keys_of_list) (simp add: bmap_keys_def)
    then show "outcome (\<lambda>r. set (bmap_keys (result_outputs r)) = set (bmap_keys (outputs prog)) \<and> result_dimensions r = dims)
        evaluation_errors (Inr \<lparr>result_outputs = bmap_of_list qs, result_dimensions = dims\<rparr>)" by simp
  qed
qed

end
