(* ===== verification/Boundary_Cases.thy ===== *)
theory Boundary_Cases
  imports Examples
begin

text \<open>
  Behaviours at the edges of the specification stage and of the interpreter that concrete runs
  exhibit: accepted inputs and transactions whose evaluation then fails, and calls that panic
  or do not return.
\<close>

subsection \<open>Inputs\<close>

text \<open>A tensor input is not required to have the same depth everywhere.\<close>

lemma ragged_tensor_accepted:
  "flatten_json 100 10 (JArray [JArray [json_int 1], JArray [JArray [json_int 2, json_int 3]]]) 0 ([], []) =
   Inr ([2, 1, 2], [json_int 1, json_int 2, json_int 3])"
  by code_simp

text \<open>The upper bound of a cast is compared as a single, which rounds \<open>i32::MAX\<close> up to \<open>2 ^ 31\<close>.\<close>

lemma cast_saturates:
  "cast_scalar (VF32 (Fin False 8388608 8)) I32 = Inr (VI32 0x7FFFFFFF)"
  by code_simp

text \<open>\<open>actual - constant\<close> overflows for a constant near \<open>i64::MIN\<close>.\<close>

lemma bind_dimension_panics: "bind_dimension (Affine 2 ''N'' i64_min) 0 [] = Inl Panic"
  by code_simp

subsection \<open>Transactions\<close>

definition run_actions :: "action list \<Rightarrow> (workspace \<times> commit_result) res" where
  "run_actions acts = apply_with_semantics_at example_encoders example_start
     \<lparr>tx_workspace = ''w'', base_revision = ''r0'', tx_actions = acts,
      client_transaction_id = None, allow_branch = False\<rparr> core_semantics 0"

definition committed :: "action list \<Rightarrow> program res" where
  "committed acts = rbind (run_actions acts) (\<lambda>(ws, cm). rmap rev_program (get_revision ws (cm_revision cm)))"

definition run_program :: "action list \<Rightarrow> (string, json) bmap \<Rightarrow> evaluation_result res" where
  "run_program acts inputs = rbind (committed acts) (\<lambda>prog. evaluate prog inputs)"

text \<open>A hole that is filled with another hole: complete and frozen, but evaluation finds it open.\<close>

definition chained_holes :: "action list" where
  "chained_holes =
     [CreateHole ''$a'' (Scalar I32) [], CreateHole ''$b'' (Scalar I32) [],
      CreateConstant ''$c'' (Scalar I32) (json_int 7),
      FillHole ''$a'' ''$b'', FillHole ''$b'' ''$c'', SetOutput ''y'' ''$a'', FreezeSpec]"

lemma chained_holes_deployable:
  "rmap (\<lambda>prog. deployable (check_program [] prog)) (committed chained_holes) = Inr True"
  by code_simp

lemma chained_holes_open:
  "run_program chained_holes [] = err OpenHole ''hole `{hole}` is open''"
  by code_simp

text \<open>A hole that is filled with its own placeholder: freezing does not return.\<close>

definition own_hole :: "action list" where
  "own_hole = [CreateHole ''$a'' (Scalar I32) [], FillHole ''$a'' ''$a'', SetOutput ''y'' ''$a'']"

lemma own_hole_committed: "is_ok (committed own_hole)"
  by code_simp

lemma own_hole_canonical_diverges:
  "value_ref (projr (committed own_hole)) fuel ''v1'' canonicalizer_new = Inl Diverge"
proof (induction fuel)
  case (Suc fuel)
  have "bmap_get (vals (projr (committed own_hole))) ''v1'' =
      Some \<lparr>v_id = ''v1'', v_ty = Scalar I32, v_origin = HoleOrigin ''h1'', v_name = None\<rparr>" by code_simp
  moreover have "Option.bind (bmap_get (holes (projr (committed own_hole))) ''h1'') filled_with = Some ''v1''"
    by code_simp
  moreover have "bmap_get (cz_parameters canonicalizer_new) ''v1'' = None" by code_simp
  ultimately show ?case using Suc.IH by simp
qed simp

lemma own_hole_freeze_diverges: "run_actions (own_hole @ [FreezeSpec]) = Inl Diverge"
  by code_simp

text \<open>
  The constraints of a hole admit its filling, but nothing checks them at evaluation: the output
  is declared with extent \<open>N\<close>, which is 1, and has two elements.
\<close>

definition assumed_extents :: "action list" where
  "assumed_extents =
     [DefineDimension None ''N'' [], DefineDimension None ''M'' [],
      CreateParameter ''$x'' ''x'' vec_n, CreateParameter ''$y'' ''y'' vec_m,
      CreateHole ''$h'' vec_n [Equal [Symbol ''N''] [Symbol ''M'']], FillHole ''$h'' ''$y'',
      SetOutput ''s'' ''$h'', FreezeSpec]"

lemma assumed_extents_unchecked:
  "run_program assumed_extents [(''x'', JArray [json_int 1]), (''y'', JArray [json_int 1, json_int 2])] =
   Inr \<lparr>result_outputs = [(''s'', JArray [json_int 1, json_int 2])], result_dimensions = [(''M'', 2), (''N'', 1)]\<rparr>"
  by code_simp

text \<open>A region may capture a tensor, but its evaluation refuses one.\<close>

definition tensor_capture :: "action list" where
  "tensor_capture =
     [DefineDimension None ''N'' [], CreateParameter ''$x'' ''x'' vec_n,
      CreateOp ''$m'' ''map'' [''$x''] []
        (Some \<lparr>rs_arguments = [\<lparr>ras_name = ''e'', ras_ty = Scalar I32\<rparr>], rs_captures = [''$x''],
               rs_operations = [], rs_yield_value = ''e''\<rparr>),
      SetOutput ''m'' ''$m'', FreezeSpec]"

lemma tensor_capture_rejected_late:
  "run_program tensor_capture [(''x'', JArray [json_int 1])] =
   err InvalidRegion ''Stage 1 region capture must be scalar''"
  by code_simp

end
