(* ===== verification/Dense_Inputs.thy ===== *)
theory Dense_Inputs
  imports Interpreter_Types
begin

text \<open>
  Inputs whose arrays all nest to the same depth are read as dense tensors: \<open>flatten_json\<close>
  collects exactly as many scalars as the extents it finds multiply to. Reading the parameters
  of a program then gives values of their types.
\<close>

subsection \<open>Uniform nesting\<close>

fun uniform :: "nat \<Rightarrow> json \<Rightarrow> bool" where
  "uniform 0 j \<longleftrightarrow> \<not> is_array j"
| "uniform (Suc d) j \<longleftrightarrow> (case as_array j of None \<Rightarrow> False | Some xs \<Rightarrow> list_all (uniform d) xs)"

text \<open>The extents below some level, when they are known: complete, or ended by an empty array.\<close>

definition settled_below :: "nat \<Rightarrow> nat list \<Rightarrow> bool" where
  "settled_below d s \<longleftrightarrow> length s \<le> d \<and> (length s = d \<or> (s \<noteq> [] \<and> last s = 0))"

text \<open>One pass over an array of known or unknown extents.\<close>

definition dense_pass :: "nat \<Rightarrow> nat \<Rightarrow> nat list \<times> json list \<Rightarrow> nat list \<times> json list \<Rightarrow> bool" where
  "dense_pass depth d st st' \<longleftrightarrow>
     take depth (fst st') = take depth (fst st) \<and> depth \<le> length (fst st') \<and>
     settled_below d (drop depth (fst st')) \<and>
     length (snd st') = length (snd st) + prod_list (drop depth (fst st')) \<and>
     (length (fst st) \<noteq> depth \<longrightarrow> fst st' = fst st)"

definition ready :: "nat \<Rightarrow> nat \<Rightarrow> nat list \<Rightarrow> bool" where
  "ready depth d ext \<longleftrightarrow> length ext = depth \<or> (depth < length ext \<and> settled_below d (drop depth ext))"

lemma last_drop_zero: "settled_below (Suc d) s \<Longrightarrow> hd s \<noteq> 0 \<Longrightarrow> s \<noteq> [] \<Longrightarrow> settled_below d (tl s)"
  by (cases s) (auto simp: settled_below_def split: if_split_asm)

lemma dense_children:
  assumes step: "\<And>st st' x. x \<in> set xs \<Longrightarrow> ready depth d (fst st) \<Longrightarrow> f st x = Inr st' \<Longrightarrow> dense_pass depth d st st'"
    and d: "0 < d"
  shows "rfold f st xs = Inr st' \<Longrightarrow> ready depth d (fst st) \<Longrightarrow> xs \<noteq> [] \<Longrightarrow>
    take depth (fst st') = take depth (fst st) \<and> depth < length (fst st') \<and>
    settled_below d (drop depth (fst st')) \<and>
    length (snd st') = length (snd st) + length xs * prod_list (drop depth (fst st')) \<and>
    (length (fst st) \<noteq> depth \<longrightarrow> fst st' = fst st)"
  using step
proof (induction xs arbitrary: st)
  case (Cons x xs)
  from Cons.prems(1) obtain st1 where s1: "f st x = Inr st1" "rfold f st1 xs = Inr st'"
    by (auto simp: rbind_Inr_iff)
  from Cons.prems(4) [OF _ Cons.prems(2) s1(1)] have p: "dense_pass depth d st st1" by simp
  have long: "depth < length (fst st1)"
    using p d by (cases "length (fst st1) = depth") (auto simp: dense_pass_def settled_below_def)
  show ?case
  proof (cases "xs = []")
    case True
    with s1(2) p long show ?thesis by (auto simp: dense_pass_def)
  next
    case False
    have "ready depth d (fst st1)" using p long by (simp add: ready_def dense_pass_def)
    moreover have "\<And>st st' y. y \<in> set xs \<Longrightarrow> ready depth d (fst st) \<Longrightarrow> f st y = Inr st' \<Longrightarrow> dense_pass depth d st st'"
      by (rule Cons.prems(4)) simp_all
    ultimately have "take depth (fst st') = take depth (fst st1) \<and> depth < length (fst st') \<and>
      settled_below d (drop depth (fst st')) \<and>
      length (snd st') = length (snd st1) + length xs * prod_list (drop depth (fst st')) \<and>
      (length (fst st1) \<noteq> depth \<longrightarrow> fst st' = fst st1)" by (rule Cons.IH [OF s1(2) _ False])
    with long have "fst st' = fst st1" "settled_below d (drop depth (fst st'))"
      "length (snd st') = length (snd st1) + length xs * prod_list (drop depth (fst st'))" by auto
    with p long show ?thesis by (auto simp: dense_pass_def)
  qed
qed simp

lemma uniform_first: "list_all (uniform d) xs \<Longrightarrow> xs \<noteq> [] \<Longrightarrow> starts_with_array xs \<longleftrightarrow> 0 < d"
  by (cases xs; cases d) (auto simp: starts_with_array_def is_array_def split: option.split_asm)

lemma flatten_dense:
  "uniform d j \<Longrightarrow> 0 < d \<Longrightarrow> ready depth d (fst st) \<Longrightarrow>
   flatten_json me md j depth st = Inr st' \<Longrightarrow> dense_pass depth d st st'"
proof (induction d arbitrary: j depth st st')
  case (Suc d)
  from Suc.prems(1) obtain xs where arr: "as_array j = Some xs" and u: "list_all (uniform d) xs"
    by (auto split: option.split_asm)
  let ?ext = "fst st"
  from Suc.prems(4) arr obtain ext where
    ext: "(if length ?ext = depth then Inr (?ext @ [length xs])
           else rbind (slice_index ?ext depth) (\<lambda>n.
             if n \<noteq> length xs then mismatch ''tensor input is not rectangular'' else Inr ?ext)) = Inr ext"
    and rest: "(if starts_with_array xs
         then rfold (\<lambda>st child. flatten_json me md child (depth + 1) st) (ext, snd st) xs
         else if list_ex is_array xs then mismatch ''tensor input mixes scalar and array elements''
         else rbind (ensure EvaluationTensorElements me
                       (u64_saturating_add (length (snd st)) (length xs)) ''evaluation input tensor'')
                (\<lambda>_. Inr (ext, snd st @ xs))) = Inr st'"
    by (subst (asm) flatten_json.simps) (auto simp: rbind_Inr_iff)
  have e: "take depth ext = take depth ?ext" "depth < length ext" "ext ! depth = length xs"
    "length ?ext \<noteq> depth \<longrightarrow> ext = ?ext" "length ?ext = depth \<longrightarrow> length ext = Suc depth"
    using ext Suc.prems(3)
    by (auto simp: rbind_Inr_iff slice_index_def ready_def nth_append split: if_split_asm)
  have dr: "drop depth ext = length xs # drop (Suc depth) ext"
    using Cons_nth_drop_Suc [OF e(2)] e(3) by simp
  show ?case
  proof (cases "starts_with_array xs")
    case True
    then have xs: "xs \<noteq> []" by (auto simp: starts_with_array_def)
    with u True have d: "0 < d" by (simp add: uniform_first)
    have below: "settled_below d (drop (Suc depth) ext)" if "length ?ext \<noteq> depth"
    proof -
      have "settled_below (Suc d) (drop depth ext)" using that e(4) Suc.prems(3) by (simp add: ready_def)
      then show ?thesis using last_drop_zero [of d "drop depth ext"] xs by (simp add: dr)
    qed
    then have long: "Suc depth < length ext" if "length ?ext \<noteq> depth"
      using that d by (fastforce simp: settled_below_def)
    have "ready (Suc depth) d ext"
      using below long e(5) by (cases "length ?ext = depth") (simp_all add: ready_def)
    moreover have "dense_pass (Suc depth) d s s'"
      if "x \<in> set xs" "ready (Suc depth) d (fst s)" "flatten_json me md x (depth + 1) s = Inr s'" for x s s'
      using Suc.IH [of x "Suc depth" s s'] that u d by (auto simp: list_all_iff)
    ultimately have c: "take (Suc depth) (fst st') = take (Suc depth) ext" "Suc depth < length (fst st')"
      "settled_below d (drop (Suc depth) (fst st'))"
      "length (snd st') = length (snd st) + length xs * prod_list (drop (Suc depth) (fst st'))"
      "length ext \<noteq> Suc depth \<longrightarrow> fst st' = ext"
      using dense_children [of xs "Suc depth" d "\<lambda>st child. flatten_json me md child (depth + 1) st" "(ext, snd st)" st']
        rest True xs d by auto
    have "fst st' ! depth = length xs"
      using c(1,2) e(2,3) by (metis lessI nth_take)
    then have dr': "drop depth (fst st') = length xs # drop (Suc depth) (fst st')"
      using c(2) by (metis Cons_nth_drop_Suc Suc_lessD)
    have "take depth (fst st') = take depth ?ext"
      using c(1) e(1) by (metis min.absorb1 lessI less_imp_le_nat take_take)
    moreover have "settled_below (Suc d) (drop depth (fst st'))"
      using c(3) d by (auto simp: dr' settled_below_def)
    moreover have "length ?ext \<noteq> depth \<longrightarrow> fst st' = ?ext"
      using c(5) e(4) long by auto
    ultimately show ?thesis using c(2,4) by (simp add: dense_pass_def dr')
  next
    case False
    with rest have st': "st' = (ext, snd st @ xs)" by (auto simp: rbind_Inr_iff split: if_split_asm)
    have "settled_below (Suc d) (drop depth ext) \<and> (xs \<noteq> [] \<longrightarrow> drop (Suc depth) ext = [])"
    proof (cases "length ?ext = depth")
      case True
      with e(5) have "drop (Suc depth) ext = []" by simp
      moreover have "xs \<noteq> [] \<Longrightarrow> d = 0" using False u by (simp add: uniform_first)
      ultimately show ?thesis by (auto simp: dr settled_below_def)
    next
      case known: False
      then have s: "settled_below (Suc d) (drop depth ext)" using e(4) Suc.prems(3) by (simp add: ready_def)
      moreover have "xs \<noteq> [] \<Longrightarrow> drop (Suc depth) ext = []"
        using False u s by (auto simp: uniform_first dr settled_below_def)
      ultimately show ?thesis by blast
    qed
    then have s: "settled_below (Suc d) (drop depth ext)" "prod_list (drop depth ext) = length xs"
      by (cases "xs = []"; simp add: dr)+
    with e st' show ?thesis by (simp add: dense_pass_def)
  qed
qed simp

text \<open>From the outside: a uniform array gives a dense list of scalars.\<close>

lemma flatten_uniform:
  assumes "uniform d j" "0 < d" "flatten_json me md j 0 ([], []) = Inr (ext, xs)"
  shows "length xs = prod_list ext"
  using flatten_dense [OF assms(1,2) _ assms(3)] by (simp add: ready_def dense_pass_def)

subsection \<open>Reading an input\<close>

fun type_depth :: "ty \<Rightarrow> nat" where
  "type_depth (Scalar _) = 0"
| "type_depth (Tensor _ sh) = length sh"

lemma parse_scalar_typed: "parse_scalar e j = Inr a \<Longrightarrow> scalar_typed a e"
  by (cases e) (auto simp: parse_scalar_def ok_or_Inr_iff)

lemma parse_scalars_typed: "traverse (parse_scalar e) js = Inr xs \<Longrightarrow> length xs = length js \<and> (\<forall>x\<in>set xs. scalar_typed x e)"
  by (induction js arbitrary: xs) (auto simp: rbind_Inr_iff parse_scalar_typed)

lemma flatten_array: "flatten_json me md j depth st = Inr st' \<Longrightarrow> is_array j"
  by (subst (asm) flatten_json.simps) (auto simp: rbind_Inr_iff is_array_def split: option.split_asm)

lemma parse_input_typed:
  assumes p: "parse_input t j dims limits = Inr (w, dims')" and u: "uniform (type_depth t) j"
    and v: "agrees v dims'"
  shows "value_typed w (eval_type v t) \<and> agrees v dims"
proof (cases t)
  case (Scalar e)
  with p v parse_scalar_typed show ?thesis by (auto simp: parse_input_def rmap_Inr_iff)
next
  case (Tensor e sh)
  with p obtain ext js xs where f: "flatten_json (evaluation_tensor_elements limits) (json_nesting_depth limits) j 0 ([], []) = Inr (ext, js)"
    and len: "length ext = length sh" and b: "bind_shape (zip sh ext) dims = Inr dims'"
    and ps: "traverse (parse_scalar e) js = Inr xs"
    and w: "w = RTensor \<lparr>element_ty = e, tensor_shape = ext, elements = xs\<rparr>"
    by (auto simp: parse_input_def rbind_Inr_iff split: if_split_asm)
  have "0 < length sh"
    using u flatten_array [OF f] Tensor by (cases sh) auto
  with flatten_uniform [OF _ _ f] u Tensor have "length js = prod_list ext" by simp
  with parse_scalars_typed [OF ps] have "length xs = prod_list ext" "\<forall>x\<in>set xs. scalar_typed x e" by simp_all
  with bind_shape_exact [OF b len, of v] v Tensor w show ?thesis by (simp add: tensor_typed_def)
qed

subsection \<open>Reading the parameters\<close>

definition uniform_inputs :: "program \<Rightarrow> (string, json) bmap \<Rightarrow> bool" where
  "uniform_inputs prog inputs \<longleftrightarrow>
     (\<forall>(name, i)\<in>set (parameters prog).
        (case (bmap_get (vals prog) i, bmap_get inputs name) of
           (Some def, Some j) \<Rightarrow> uniform (type_depth (v_ty def)) j
         | _ \<Rightarrow> True))"

definition params_typed :: "valuation \<Rightarrow> program \<Rightarrow> (string, runtime_value) bmap \<Rightarrow> bool" where
  "params_typed v prog params \<longleftrightarrow>
     (\<forall>i w. bmap_get params i = Some w \<longrightarrow>
        (\<exists>def. bmap_get (vals prog) i = Some def \<and> value_typed w (eval_type v (v_ty def))))"

lemma bind_parameters_typed:
  "rfold (bind_parameter prog inputs limits) (params, dims) ps = Inr (params', dims') \<Longrightarrow>
   set ps \<subseteq> set (parameters prog) \<Longrightarrow> uniform_inputs prog inputs \<Longrightarrow> agrees v dims' \<Longrightarrow>
   (\<forall>i. i \<in> snd ` set ps \<or> bmap_contains params i \<longrightarrow> bmap_contains params' i) \<and> agrees v dims \<and>
   (\<forall>i w. bmap_get params' i = Some w \<longrightarrow> bmap_get params i = Some w \<or>
      (i \<in> snd ` set ps \<and> (\<exists>def. bmap_get (vals prog) i = Some def \<and> value_typed w (eval_type v (v_ty def)))))"
proof (induction ps arbitrary: params dims)
  case (Cons p ps)
  obtain name i where p: "p = (name, i)" by fastforce
  from Cons.prems(1) obtain st where st: "bind_parameter prog inputs limits (params, dims) p = Inr st"
      "rfold (bind_parameter prog inputs limits) st ps = Inr (params', dims')"
    by (auto simp: rbind_Inr_iff)
  from st(1) p obtain def j w dims1 where b: "bmap_get (vals prog) i = Some def" "bmap_get inputs name = Some j"
      "parse_input (v_ty def) j dims limits = Inr (w, dims1)" and st1: "st = (bmap_insert i w params, dims1)"
    by (auto simp: rbind_Inr_iff bind_parameter_def ok_or_Inr_iff)
  note r = st(2) [unfolded st1]
  from Cons.IH [OF r] Cons.prems(2-4) have ih:
    "\<forall>k. k \<in> snd ` set ps \<or> bmap_contains (bmap_insert i w params) k \<longrightarrow> bmap_contains params' k" "agrees v dims1"
    "\<forall>k x. bmap_get params' k = Some x \<longrightarrow> bmap_get (bmap_insert i w params) k = Some x \<or>
      (k \<in> snd ` set ps \<and> (\<exists>def. bmap_get (vals prog) k = Some def \<and> value_typed x (eval_type v (v_ty def))))"
    by auto
  have "uniform (type_depth (v_ty def)) j"
    using Cons.prems(2,3) b(1,2) p unfolding uniform_inputs_def by fastforce
  from parse_input_typed [OF b(3) this ih(2)] have w: "value_typed w (eval_type v (v_ty def))" "agrees v dims"
    by simp_all
  show ?case
  proof (intro conjI allI impI)
    fix k assume "k \<in> snd ` set (p # ps) \<or> bmap_contains params k"
    with ih(1) p show "bmap_contains params' k" by auto
  next
    fix k x assume "bmap_get params' k = Some x"
    with ih(3) w(1) b(1) p show "bmap_get params k = Some x \<or> (k \<in> snd ` set (p # ps) \<and>
        (\<exists>def. bmap_get (vals prog) k = Some def \<and> value_typed x (eval_type v (v_ty def))))"
      by (auto split: if_split_asm)
  qed (rule w(2))
qed simp

end
