(* ===== verification/Program_Safety.thy ===== *)
theory Program_Safety
  imports Workspace_Typing Dense_Inputs Evaluation
begin

text \<open>
  From the workspace to the interpreter: a frozen program that a reachable workspace stores
  evaluates without panic and without running forever, on inputs that pass the preflight. The
  hypotheses name what the workspace accepts and the interpreter does not provide for: holes
  filled with holes or under constraints of their own, and regions that capture tensors.
\<close>

subsection \<open>Programs the interpreter provides for\<close>

definition operation_value :: "program \<Rightarrow> string \<Rightarrow> bool" where
  "operation_value p i \<longleftrightarrow>
     (case bmap_get (vals p) i of
        None \<Rightarrow> False
      | Some def \<Rightarrow> (case v_origin def of OperationOrigin _ \<Rightarrow> True | HoleOrigin _ \<Rightarrow> False))"

definition plain_hole :: "program \<Rightarrow> hole \<Rightarrow> bool" where
  "plain_hole p h \<longleftrightarrow>
     set (shape_constraints h) \<subseteq> set (constraints p) \<and>
     (case filled_with h of None \<Rightarrow> True | Some w \<Rightarrow> operation_value p w)"

definition plain_program :: "program \<Rightarrow> bool" where
  "plain_program p \<longleftrightarrow>
     (\<forall>(k, h)\<in>set (holes p). plain_hole p h) \<and> (\<forall>(k, op)\<in>set (operations p). scalar_captures p op)"

lemma plain_hole: "plain_program p \<Longrightarrow> bmap_get (holes p) k = Some h \<Longrightarrow> plain_hole p h"
  by (auto simp: plain_program_def dest!: bmap_get_mem)

lemma plain_captures: "plain_program p \<Longrightarrow> bmap_get (operations p) k = Some op \<Longrightarrow> scalar_captures p op"
  by (auto simp: plain_program_def dest!: bmap_get_mem)

text \<open>A valuation that extends the bound dimensions.\<close>

definition valuation_of :: "extents \<Rightarrow> valuation" where
  "valuation_of dims s = (case bmap_get dims s of Some n \<Rightarrow> n | None \<Rightarrow> 0)"

lemma agrees_valuation_of [simp]: "agrees (valuation_of dims) dims"
  by (simp add: agrees_def valuation_of_def)

subsection \<open>Typing for the evaluator\<close>

lemma resolved_dty:
  assumes wf: "graph_wf a p" and typed: "graph_typed v p" and plain: "plain_program p"
    and filled: "\<And>k h. bmap_get (holes p) k = Some h \<Longrightarrow> filled_with h \<noteq> None"
    and t: "declared_dty v p i = Some t"
  shows "value_dty v p i = Some t"
proof -
  from t obtain def where i: "bmap_get (vals p) i = Some def" and t: "t = eval_type v (v_ty def)"
    by (auto simp: declared_dty_def)
  show ?thesis
  proof (cases "v_origin def")
    case (OperationOrigin oid)
    with i t show ?thesis by (simp add: value_dty_def dty_at_def resolve_filled_value_def)
  next
    case (HoleOrigin k)
    from graph_wfD(2) [OF wf, unfolded hole_values_def, rule_format, OF i HoleOrigin]
    obtain h where h: "bmap_get (holes p) k = Some h" by blast
    with filled obtain w where w: "filled_with h = Some w" by blast
    have "value_ok v p i def" using typed i by (simp add: graph_typed_def)
    with HoleOrigin h w have d: "declared_dty v p w = Some t" by (simp add: value_ok_def t)
    from plain_hole [OF plain h] w have "operation_value p w" by (simp add: plain_hole_def)
    with d have "dty_at v p w = Some t"
      by (auto simp: operation_value_def dty_at_def declared_dty_def split: option.split_asm value_origin.split_asm)
    with i HoleOrigin h w show ?thesis by (simp add: value_dty_def resolve_filled_value_def)
  qed
qed

lemma typed_for_evaluation:
  assumes wf: "graph_wf a p" and typed: "graph_typed v p" and plain: "plain_program p"
    and filled: "\<And>k h. bmap_get (holes p) k = Some h \<Longrightarrow> filled_with h \<noteq> None"
    and params: "params_typed v p params" "\<And>n i. bmap_get (parameters p) n = Some i \<Longrightarrow> bmap_get params i \<noteq> None"
      "\<And>i. bmap_get params i \<noteq> None \<Longrightarrow> operation_value p i"
  shows "program_typed v p params"
  unfolding program_typed_def
proof (intro conjI allI impI)
  fix i w assume w: "bmap_get params i = Some w"
  with params(1) obtain def where "bmap_get (vals p) i = Some def" "value_typed w (eval_type v (v_ty def))"
    unfolding params_typed_def by blast
  moreover have "operation_value p i" using params(3) w by simp
  ultimately show "\<exists>t. dty_at v p i = Some t \<and> value_typed w t"
    by (intro exI [of _ "eval_type v (v_ty def)"])
      (auto simp: dty_at_def operation_value_def split: value_origin.split_asm)
next
  fix i def oid assume i: "bmap_get (vals p) i = Some def" "v_origin def = OperationOrigin oid"
  with typed have "value_ok v p i def" by (simp add: graph_typed_def)
  with i obtain op where op: "bmap_get (operations p) oid = Some op" "definition_ok v p i op (eval_type v (v_ty def))"
    by (auto simp: value_ok_def)
  have "definition_typed v p params i op (eval_type v (v_ty def))"
  proof (cases "op_opcode op = Parameter \<or> op_opcode op = Constant")
    case True
    with op(2) params(2) show ?thesis by (auto simp: definition_ok_def definition_typed_def split: if_split_asm)
  next
    case False
    with op(2) plain_captures [OF plain op(1)] have "operation_typed (declared_dty v p) op (eval_type v (v_ty def))"
      by (simp add: definition_ok_def)
    then have "operation_typed (value_dty v p) op (eval_type v (v_ty def))"
      by (rule operation_typed_mono) (rule resolved_dty [OF wf typed plain filled])
    with False show ?thesis by (simp add: definition_typed_def)
  qed
  with op(1) show "\<exists>op. bmap_get (operations p) oid = Some op \<and>
      definition_typed v p params i op (eval_type v (v_ty def))" by blast
qed

subsection \<open>Evaluation of stored programs\<close>

lemma complete_assumptions:
  assumes complete: "program_complete p" and plain: "plain_program p" and cs: "\<forall>c\<in>set (constraints p). satisfies v c"
  shows "assumptions_hold v p"
  unfolding assumptions_hold_def
proof (intro conjI allI impI)
  fix k h assume "bmap_get (holes p) k = Some h"
  from plain_hole [OF plain this] cs show "\<forall>c\<in>set (shape_constraints h). satisfies v c"
    by (auto simp: plain_hole_def)
next
  fix k ob assume "bmap_get (obligations p) k = Some ob"
  with complete have "ob_status ob \<noteq> ObOpen"
    by (auto simp: program_complete_def no_open_obligation_def dest: bmap_get_mem)
  then show "open_debt_holds v ob" by (simp add: open_debt_holds_def)
qed (rule cs)

lemma stored_program_safe:
  assumes ws: "reachable enc ws" and r: "bmap_get (ws_revisions ws) k = Some r"
    and plain: "plain_program (rev_program r)" and uniform: "uniform_inputs (rev_program r) inputs"
    and prep: "prepare_evaluator (rev_program r) inputs limits = Inr (params, dims)"
  shows "program_typed (valuation_of dims) (rev_program r) params"
    and "outcome (\<lambda>res. set (bmap_keys (result_outputs res)) = set (bmap_keys (outputs (rev_program r))) \<and>
        result_dimensions res = dims) evaluation_errors (evaluate_with_limits (rev_program r) inputs limits)"
proof -
  let ?p = "rev_program r" and ?v = "valuation_of dims"
  from prep have "frozen ?p" and filled: "\<not> list_ex (\<lambda>h. filled_with h = None) (bmap_values (holes ?p))"
    and bind: "rfold (bind_parameter ?p inputs limits) ([], []) (parameters ?p) = Inr (params, dims)"
    and pre: "preflight_evaluation ?p dims limits = Inr ()"
    by (auto simp: prepare_evaluator_def rbind_Inr_iff split: if_split_asm)
  have "revision_ok enc r" using reachable_inv [OF ws] r unfolding workspace_inv_def by blast
  with \<open>frozen ?p\<close> have complete: "program_complete ?p" by (simp add: revision_ok_def)
  have g: "sound_graph (ws_allocator ws) ?p"
    using reachable_sound [OF ws] r unfolding workspace_sound_def by blast
  note wf = sound_graphD(1) [OF g]
  have "assumptions_hold ?v ?p"
    by (rule complete_assumptions [OF complete plain preflight_sound(1) [OF pre]]) simp
  with g have typed: "graph_typed ?v ?p" by (rule sound_graphD(2))
  from bind_parameters_typed [OF bind order_refl uniform, of ?v]
  have bound: "\<forall>i. i \<in> snd ` set (parameters ?p) \<longrightarrow> bmap_contains params i"
    "\<forall>i w. bmap_get params i = Some w \<longrightarrow> i \<in> snd ` set (parameters ?p) \<and>
      (\<exists>def. bmap_get (vals ?p) i = Some def \<and> value_typed w (eval_type ?v (v_ty def)))"
    by auto
  have holes: "filled_with h \<noteq> None" if "bmap_get (holes ?p) k = Some h" for k h
    using filled bmap_get_mem [OF that] by (force simp: list_ex_iff bmap_values_def)
  note tables = graph_wfD(1) [OF wf, unfolded graph_ids_def]
  have ops: "operation_value ?p i" if "i \<in> snd ` set (parameters ?p)" for i
  proof -
    from that obtain n where "bmap_get (parameters ?p) n = Some i"
      using tables by (force dest: bmap_mem_get)
    with graph_wfD(3) [OF wf] obtain def oid where "bmap_get (vals ?p) i = Some def" "v_origin def = OperationOrigin oid"
      unfolding parameter_values_def by blast
    then show ?thesis by (simp add: operation_value_def)
  qed
  show typed_p: "program_typed ?v ?p params"
  proof (rule typed_for_evaluation [OF wf typed plain holes])
    show "params_typed ?v ?p params" unfolding params_typed_def using bound(2) by blast
    show "\<And>n i. bmap_get (parameters ?p) n = Some i \<Longrightarrow> bmap_get params i \<noteq> None"
      using bound(1) by (force dest: bmap_get_mem simp: bmap_contains_def)
    show "\<And>i. bmap_get params i \<noteq> None \<Longrightarrow> operation_value ?p i" using bound(2) ops by blast
  qed
  show "outcome (\<lambda>res. set (bmap_keys (result_outputs res)) = set (bmap_keys (outputs ?p)) \<and>
      result_dimensions res = dims) evaluation_errors (evaluate_with_limits ?p inputs limits)"
  proof (rule evaluate_typed_outcome [OF prep typed_p])
    fix name i assume "(name, i) \<in> set (outputs ?p)"
    then have "bmap_get (outputs ?p) name = Some i" using tables by (blast intro: bmap_mem_get)
    then have "i \<in> references ?p" by (auto simp: references_def)
    with graph_wfD(4) [OF wf] obtain def where "bmap_get (vals ?p) i = Some def"
      unfolding bmap_contains_def by blast
    then have "declared_dty ?v ?p i = Some (eval_type ?v (v_ty def))" by (simp add: declared_dty_def)
    then have "value_dty ?v ?p i = Some (eval_type ?v (v_ty def))"
      by (rule resolved_dty [OF wf typed plain, rotated]) (rule holes)
    then show "\<exists>t. value_dty ?v ?p i = Some t" by blast
  qed
qed

end
