(* ===== verification/Renaming.thy ===== *)
theory Renaming
  imports Interpreter_Proofs
begin

text \<open>
  Renaming the values that operations read. If every value denotes in one program what its image
  denotes in another, renamed operations compute the same results; the images of different
  values may coincide. The rewrites of implementation graphs and the identity lowering are
  instances.
\<close>

subsection \<open>The operation behind a value\<close>

definition op_value ::
    "program \<Rightarrow> (string, runtime_value) bmap \<Rightarrow> (string \<Rightarrow> 's \<Rightarrow> (runtime_value \<times> 's) res) \<Rightarrow> string \<Rightarrow>
     operation \<Rightarrow> 's \<Rightarrow> (runtime_value \<times> 's) res" where
  "op_value p params ev i op s =
     (if op_opcode op = Parameter then
        rmap (\<lambda>v. (v, s))
          (ok_or (Fail (agent_error_new EvaluationInputMismatch ''input for parameter value `{id}` is missing''))
             (bmap_get params i))
      else if op_opcode op = Constant then
        rbind (ok_or (Fail (agent_error_new UnknownReference ''constant payload is absent''))
                 (bmap_get (constants p) i)) (\<lambda>c. rmap (\<lambda>v. (v, s)) (constant_runtime c))
      else eval_operation ev op s)"

lemma define_value_Inr:
  "define_value p params ev i s = Inr r \<longleftrightarrow>
     (\<exists>def oid op. bmap_get (vals p) i = Some def \<and> v_origin def = OperationOrigin oid \<and>
        bmap_get (operations p) oid = Some op \<and> op_value p params ev i op s = Inr r)"
proof -
  have eq: "(case op_opcode op of
           Parameter \<Rightarrow>
             rmap (\<lambda>v. (v, s))
               (ok_or (Fail (agent_error_new EvaluationInputMismatch ''input for parameter value `{id}` is missing''))
                  (bmap_get params i))
         | Constant \<Rightarrow>
             rbind (ok_or (Fail (agent_error_new UnknownReference ''constant payload is absent''))
                      (bmap_get (constants p) i)) (\<lambda>c.
             rmap (\<lambda>v. (v, s)) (constant_runtime c))
         | _ \<Rightarrow> eval_operation ev op s) = op_value p params ev i op s" for op
    by (cases "op_opcode op") (simp_all add: op_value_def)
  have pick: "(\<exists>def. bmap_get (vals p) i = Some def \<and>
        (case v_origin def of OperationOrigin oid \<Rightarrow> F oid | HoleOrigin h \<Rightarrow> Inl e) = Inr r) \<longleftrightarrow>
      (\<exists>def oid. bmap_get (vals p) i = Some def \<and> v_origin def = OperationOrigin oid \<and> F oid = Inr r)" for F e
    by (auto split: value_origin.split_asm)
  show ?thesis
    unfolding define_value_def eq rbind_Inr_iff ok_or_Inr_iff pick by blast
qed

subsection \<open>Renamed operations\<close>

fun region_value_map :: "(string \<Rightarrow> string) \<Rightarrow> region_value \<Rightarrow> region_value" where
  "region_value_map h (Capture i) = Capture (h i)"
| "region_value_map h v = v"

definition region_map :: "(string \<Rightarrow> string) \<Rightarrow> region \<Rightarrow> region" where
  "region_map h rg =
     rg\<lparr>rg_captures := map h (rg_captures rg),
        rg_operations := map (\<lambda>op. op\<lparr>ro_operands := map (region_value_map h) (ro_operands op)\<rparr>) (rg_operations rg),
        rg_yield_value := region_value_map h (rg_yield_value rg)\<rparr>"

definition operation_map :: "(string \<Rightarrow> string) \<Rightarrow> operation \<Rightarrow> operation" where
  "operation_map h op =
     op\<lparr>op_operands := map h (op_operands op), op_region := map_option (region_map h) (op_region op)\<rparr>"

abbreviation ignore :: "unit \<Rightarrow> unit \<Rightarrow> bool" where
  "ignore \<equiv> \<lambda>_ _. True"

abbreviation captures_map ::
    "(string \<Rightarrow> string) \<Rightarrow> (string, scalar_value) bmap \<Rightarrow> (string, scalar_value) bmap \<Rightarrow> bool" where
  "captures_map h m m' \<equiv> \<forall>c a. bmap_get m c = Some a \<longrightarrow> bmap_get m' (h c) = Some a"

lemma traverse_st_map: "traverse_st f (map h xs) s = traverse_st (\<lambda>x. f (h x)) xs s"
  by (induction xs arbitrary: s) simp_all

text \<open>The captures of a region: every listed value is a scalar, in the order they are listed.\<close>

lemma capture_cell:
  "rbind (f c u) (\<lambda>(v, s'). case v of RScalar a \<Rightarrow> Inr ((c, a), s')
      | RTensor _ \<Rightarrow> err InvalidRegion ''Stage 1 region capture must be scalar'') = Inr (y, w) \<longleftrightarrow>
   (\<exists>a. f c u = Inr (RScalar a, w) \<and> y = (c, a))"
proof (cases "f c u")
  case (Inr r)
  then show ?thesis by (cases "fst r"; cases r) auto
qed simp

lemma region_captures_Inr:
  fixes f :: "string \<Rightarrow> unit \<Rightarrow> (runtime_value \<times> unit) res"
  shows "region_captures f ids () = Inr (m, ()) \<longleftrightarrow>
    (\<exists>as. list_all2 (\<lambda>c a. f c () = Inr (RScalar a, ())) ids as \<and> m = bmap_of_list (zip ids as))"
proof -
  have "traverse_st (\<lambda>cid s. rbind (f cid s) (\<lambda>(v, s'). case v of RScalar a \<Rightarrow> Inr ((cid, a), s')
      | RTensor _ \<Rightarrow> err InvalidRegion ''Stage 1 region capture must be scalar'')) ids () = Inr (kvs, ()) \<longleftrightarrow>
    (\<exists>as. list_all2 (\<lambda>c a. f c () = Inr (RScalar a, ())) ids as \<and> kvs = zip ids as)" for kvs
  proof (induction ids arbitrary: kvs)
    case (Cons i ids)
    let ?cell = "\<lambda>cid s. rbind (f cid s) (\<lambda>(v, s'). case v of RScalar a \<Rightarrow> Inr ((cid, a), s')
      | RTensor _ \<Rightarrow> err InvalidRegion ''Stage 1 region capture must be scalar'')"
    have "traverse_st ?cell (i # ids) () = Inr (kvs, ()) \<longleftrightarrow>
        (\<exists>y ys. ?cell i () = Inr (y, ()) \<and> traverse_st ?cell ids () = Inr (ys, ()) \<and> kvs = y # ys)"
      by (auto simp: rbind_Inr_iff)
    also have "\<dots> \<longleftrightarrow> (\<exists>a as. f i () = Inr (RScalar a, ()) \<and> list_all2 (\<lambda>c a. f c () = Inr (RScalar a, ())) ids as \<and>
        kvs = (i, a) # zip ids as)"
      unfolding capture_cell Cons.IH by blast
    also have "\<dots> \<longleftrightarrow> (\<exists>as. list_all2 (\<lambda>c a. f c () = Inr (RScalar a, ())) (i # ids) as \<and> kvs = zip (i # ids) as)"
      unfolding list_all2_Cons1 by (metis zip_Cons_Cons)
    finally show ?case .
  qed auto
  then show ?thesis by (auto simp: region_captures_def rmap_Inr_iff)
qed

lemma captures_renamed:
  assumes sim: "simulates D ignore f (\<lambda>i. g (h i))" and ids: "set ids \<subseteq> D"
    and m: "region_captures f ids () = Inr (m, ())"
  shows "\<exists>m'. region_captures g (map h ids) () = Inr (m', ()) \<and> captures_map h m m'"
proof -
  from m obtain as where as: "list_all2 (\<lambda>c a. f c () = Inr (RScalar a, ())) ids as" "m = bmap_of_list (zip ids as)"
    by (auto simp: region_captures_Inr)
  have step: "g (h c) () = Inr (RScalar a, ())" if "c \<in> set ids" "f c () = Inr (RScalar a, ())" for c a
    using simulatesD [OF sim, of c "()" "()"] that ids by (auto simp: sim_res_def)
  have g: "list_all2 (\<lambda>c a. g (h c) () = Inr (RScalar a, ())) ids as"
    using as(1) step by (fastforce simp: list_all2_conv_all_nth)
  let ?m' = "bmap_of_list (zip (map h ids) as)"
  have mem: "g (h c) () = Inr (RScalar a, ())" if "(c, a) \<in> set (zip ids as)" for c a
    using that g by (auto simp: list_all2_iff)
  have "bmap_get ?m' (h c) = Some a" if "bmap_get m c = Some a" for c a
  proof -
    from that as(2) have ca: "(c, a) \<in> set (zip ids as)"
      by (auto simp: bmap_get_of_list dest: map_of_SomeD)
    then have "(h c, a) \<in> set (zip (map h ids) as)" by (force simp: zip_map1)
    then have "h c \<in> fst ` set (rev (zip (map h ids) as))" by (metis fst_conv image_eqI set_rev)
    then have "map_of (rev (zip (map h ids) as)) (h c) \<noteq> None" by (simp add: map_of_eq_None_iff)
    then obtain b where b: "map_of (rev (zip (map h ids) as)) (h c) = Some b" by auto
    then have "(h c, b) \<in> set (zip (map h ids) as)" by (auto dest: map_of_SomeD)
    then obtain d where "(d, b) \<in> set (zip ids as)" "h d = h c" by (auto simp: zip_map1)
    with mem [of d b] mem [OF ca] have "b = a" by simp
    with b show ?thesis by (simp add: bmap_get_of_list)
  qed
  moreover have "region_captures g (map h ids) () = Inr (?m', ())"
    unfolding region_captures_Inr using g by (auto simp: list_all2_map1)
  ultimately show ?thesis by blast
qed

lemma reference_renamed:
  "captures_map h m m' \<Longrightarrow> region_reference args locals m r = Inr v \<Longrightarrow>
   region_reference args locals m' (region_value_map h r) = Inr v"
  by (cases r) (auto simp: region_reference_def ok_or_Inr_iff)

lemma references_renamed:
  "captures_map h m m' \<Longrightarrow> traverse (\<lambda>x. rmap RScalar (region_reference args locals m x)) rs = Inr vs \<Longrightarrow>
   traverse (\<lambda>x. rmap RScalar (region_reference args locals m' x)) (map (region_value_map h) rs) = Inr vs"
  by (induction rs arbitrary: vs) (auto simp: rbind_Inr_iff rmap_Inr_iff reference_renamed)

lemma region_steps_renamed:
  "captures_map h m m' \<Longrightarrow> rfold (region_step args m) locals ops = Inr locals' \<Longrightarrow>
   rfold (region_step args m') locals
     (map (\<lambda>op. op\<lparr>ro_operands := map (region_value_map h) (ro_operands op)\<rparr>) ops) = Inr locals'"
proof (induction ops arbitrary: locals)
  case (Cons op ops)
  from Cons.prems(2) obtain l where l0: "region_step args m locals op = Inr l"
      "rfold (region_step args m) l ops = Inr locals'"
    by (auto simp: rbind_Inr_iff)
  from l0(1) obtain vs w where l1: "traverse (\<lambda>x. rmap RScalar (region_reference args locals m x)) (ro_operands op) = Inr vs"
      "eval_primitive (ro_opcode op) vs (ro_attributes op) = Inr w"
    by (auto simp: rbind_Inr_iff region_step_def)
  note l = l0 l1
  have "region_step args m' locals (op\<lparr>ro_operands := map (region_value_map h) (ro_operands op)\<rparr>) = Inr l"
    using l(1,3,4) references_renamed [OF Cons.prems(1) l(3)] by (simp add: region_step_def)
  with Cons.IH [OF Cons.prems(1) l(2)] show ?case by simp
qed simp

lemma region_renamed:
  assumes sim: "simulates D ignore f (\<lambda>i. g (h i))" and ids: "set (rg_captures rg) \<subseteq> D"
  shows "sim_res ignore (eval_region f rg args u) (eval_region g (region_map h rg) args w)"
proof (rule sim_resI)
  fix v s assume "eval_region f rg args u = Inr (v, s)"
  then obtain m locals where m: "region_captures f (rg_captures rg) () = Inr (m, ())"
      "rfold (region_step (bmap_of_list (zip (map arg_name (rg_arguments rg)) args)) m) [] (rg_operations rg) = Inr locals"
      "region_reference (bmap_of_list (zip (map arg_name (rg_arguments rg)) args)) locals m (rg_yield_value rg) = Inr v"
    by (auto simp: eval_region_def Let_def rbind_Inr_iff)
  from captures_renamed [where f = f and g = g and h = h, OF sim ids m(1)] obtain m' where
    m': "region_captures g (map h (rg_captures rg)) () = Inr (m', ())" "captures_map h m m'" by blast
  from m' region_steps_renamed [OF m'(2) m(2)] reference_renamed [OF m'(2) m(3)]
  show "\<exists>t. eval_region g (region_map h rg) args w = Inr (v, t) \<and> True"
    by (simp add: eval_region_def region_map_def)
qed

lemma fold_region_renamed:
  assumes "simulates D ignore f (\<lambda>i. g (h i))" "set (rg_captures rg) \<subseteq> D"
  shows "sim_res ignore (rfold (\<lambda>(acc, s) x. eval_region f rg [acc, x] s) (a, u) xs)
                        (rfold (\<lambda>(acc, s) x. eval_region g (region_map h rg) [acc, x] s) (a, w) xs)"
proof (induction xs arbitrary: a u w)
  case (Cons x xs)
  have "sim_res ignore (eval_region f rg [a, x] u) (eval_region g (region_map h rg) [a, x] w)"
    by (rule region_renamed [where f = f and g = g and h = h, OF assms])
  then show ?case unfolding rfold.simps prod.case by (rule sim_bind) (rule Cons.IH)
qed (simp add: sim_Inr)

lemmas fold_region_renamed_unit = fold_region_renamed [simplified]

lemma sim_bind_region:
  assumes "op_deps op \<subseteq> D"
    and "\<And>rg. set (rg_captures rg) \<subseteq> D \<Longrightarrow> sim_res R (F rg) (G (region_map h rg))"
  shows "sim_res R (rbind (require_region op m) F) (rbind (require_region (operation_map h op) m) G)"
proof (cases "op_region op")
  case (Some rg)
  with assms(1) have "set (rg_captures rg) \<subseteq> D" by (auto simp: op_deps_def region_deps_def)
  with assms(2) Some show ?thesis by (simp add: require_region_def operation_map_def)
qed (simp add: require_region_def sim_Inl)

lemma operation_renamed:
  assumes sim: "simulates D ignore f (\<lambda>i. g (h i))" and deps: "op_deps op \<subseteq> D"
  shows "sim_res ignore (eval_operation f op u) (eval_operation g (operation_map h op) w)"
proof -
  have yield [simp]: "rg_yield_type (region_map h rg) = rg_yield_type rg" for rg
    by (simp add: region_map_def)
  have map: "sim_res ignore (eval_map f op vs s) (eval_map g (operation_map h op) vs t)" for vs s t
    unfolding eval_map_def
    by (intro sim_bind_pure sim_bind_region [OF deps] sim_bind sim_traverse region_renamed [where f = f and g = g and h = h, OF sim])
       (auto intro!: sim_intros)
  have zip: "sim_res ignore (eval_zip_map f op vs s) (eval_zip_map g (operation_map h op) vs t)" for vs s t
    unfolding eval_zip_map_def Let_def
    by (auto intro!: sim_bind_pure sim_bind_region [OF deps] sim_bind [OF sim_traverse] region_renamed [where f = f and g = g and h = h, OF sim] sim_intros
        split: if_split)
  have reduce: "sim_res ignore (eval_reduce f op vs s) (eval_reduce g (operation_map h op) vs t)" for vs s t
    unfolding eval_reduce_def
    by (auto intro!: sim_bind_pure sim_bind_region [OF deps] sim_rmap fold_region_renamed_unit [where f = f and g = g and h = h, OF sim] sim_intros
        split: runtime_value.split)
  have ops: "sim_res ignore (traverse_st f (op_operands op) u) (traverse_st g (op_operands (operation_map h op)) w)"
    unfolding operation_map_def operation.select_convs operation.update_convs
    by (simp add: traverse_st_map, rule sim_traverse) (use deps in \<open>auto simp: op_deps_def intro!: simulatesD [OF sim]\<close>)
  have fields: "op_opcode (operation_map h op) = op_opcode op" "op_attributes (operation_map h op) = op_attributes op"
    by (simp_all add: operation_map_def)
  show ?thesis
    unfolding eval_operation_def fields
    by (intro sim_bind [OF ops])
       (auto intro!: map zip reduce sim_rmap_pure split: opcode.split)
qed

subsection \<open>Renamed programs\<close>

text \<open>
  \<open>h\<close> sends every value to one that does the same in the second program, given that the values
  it reads do. Then everything a value denotes in the first program, its image denotes in the
  second.
\<close>

definition one_step ::
    "program \<Rightarrow> (string, runtime_value) bmap \<Rightarrow> (string \<Rightarrow> unit \<Rightarrow> (runtime_value \<times> unit) res) \<Rightarrow>
     string \<Rightarrow> runtime_value \<Rightarrow> bool" where
  "one_step p params ev i v \<longleftrightarrow>
     (if bmap_get params i = None then define_value p params ev i () = Inr (v, ()) else bmap_get params i = Some v)"

lemma denote_one_step:
  "denote p params (Suc n) i = Inr v \<longleftrightarrow> one_step p params (denote_st p params n) i v"
  by (cases "bmap_get params i") (auto simp: one_step_def denote_Suc_iff simp del: denote.simps)

lemma limit_one_step: "one_step p params (denote_limit p params) i v \<Longrightarrow> denotes p params i v"
  by (auto simp: one_step_def split: if_split_asm intro: define_limit denotes_param)

lemma denotes_one_step:
  "denotes p params i v \<Longrightarrow> \<exists>f. one_step p params f i v \<and>
     (\<forall>j w. f j () = Inr (w, ()) \<longrightarrow> denotes p params (resolve_filled_value p j) w)"
proof -
  assume "denotes p params i v"
  then obtain n where "denote p params n i = Inr v" by (auto simp: denotes_def)
  moreover from this obtain m where "n = Suc m" by (cases n) auto
  ultimately have "one_step p params (denote_st p params m) i v" by (simp only: denote_one_step)
  then show ?thesis by (intro exI [of _ "denote_st p params m"]) (auto simp: rmap_Inr_iff denotes_def)
qed

lemma denotes_transfer:
  assumes step: "\<And>f i v. D i \<Longrightarrow> one_step p params f i v \<Longrightarrow>
      (\<And>j w. f j () = Inr (w, ()) \<Longrightarrow> denotes p params (resolve_filled_value p j) w) \<Longrightarrow>
      (\<And>j w. f j () = Inr (w, ()) \<Longrightarrow> D (resolve_filled_value p j) \<Longrightarrow>
         denotes q params' (h (resolve_filled_value p j)) w) \<Longrightarrow>
      denotes q params' (h i) v"
  shows "denotes p params i v \<Longrightarrow> D i \<Longrightarrow> denotes q params' (h i) v"
proof -
  have "denote p params n i = Inr v \<Longrightarrow> D i \<Longrightarrow> denotes q params' (h i) v" for n
  proof (induction n arbitrary: i v)
    case (Suc n)
    show ?case
    proof (rule step [OF Suc.prems(2)])
      show "one_step p params (denote_st p params n) i v" using Suc.prems(1) by (simp only: denote_one_step)
    qed (auto simp: rmap_Inr_iff denotes_def [of p] intro: Suc.IH)
  qed simp
  then show "denotes p params i v \<Longrightarrow> D i \<Longrightarrow> denotes q params' (h i) v" by (auto simp: denotes_def [of p])
qed

text \<open>Evaluation reads the opcode, the operands, the attributes and the region of an operation.\<close>

definition acts_as :: "operation \<Rightarrow> operation \<Rightarrow> bool" where
  "acts_as op op' \<longleftrightarrow>
     op_opcode op' = op_opcode op \<and> op_operands op' = op_operands op \<and>
     op_attributes op' = op_attributes op \<and> op_region op' = op_region op"

lemma acts_as_eval: "acts_as op op' \<Longrightarrow> eval_operation f op' s = eval_operation f op s"
  unfolding acts_as_def eval_operation_def
  by (intro rbind_cong) (auto simp: eval_map_def eval_zip_map_def eval_reduce_def require_region_def split: opcode.split)

lemma operation_transfer:
  assumes e: "eval_operation f op () = Inr (v, ())"
    and f: "\<And>j w. j \<in> op_deps op \<Longrightarrow> f j () = Inr (w, ()) \<Longrightarrow> denotes q params' (resolve_filled_value q (h j)) w"
    and k: "bmap_get params' k = None" "bmap_get (vals q) k = Some def" "v_origin def = OperationOrigin oid"
      "bmap_get (operations q) oid = Some op'" "acts_as (operation_map h op) op'"
      "op_opcode op \<noteq> Parameter" "op_opcode op \<noteq> Constant"
  shows "denotes q params' k v"
proof (rule define_limit [OF k(1)])
  have "simulates (op_deps op) ignore f (\<lambda>i. denote_limit q params' (h i))"
    using f by (auto simp: simulates_def sim_res_def denote_limit_Inr)
  from operation_renamed [where f = f and g = "denote_limit q params'" and h = h, OF this subset_refl, of "()" "()"] e
  have "eval_operation (denote_limit q params') (operation_map h op) () = Inr (v, ())" by (simp add: sim_res_def)
  moreover have "op_opcode op' = op_opcode op" using k(5) by (simp add: acts_as_def operation_map_def)
  ultimately have "op_value q params' (denote_limit q params') k op' () = Inr (v, ())"
    using k(6,7) by (simp add: op_value_def acts_as_eval [OF k(5)])
  with k(2-4) show "define_value q params' (denote_limit q params') k () = Inr (v, ())"
    unfolding define_value_Inr by blast
qed

text \<open>A value defined in both programs by operations that act alike, up to the renaming \<open>h\<close>.\<close>

definition alike :: "program \<Rightarrow> string \<Rightarrow> program \<Rightarrow> string \<Rightarrow> (string \<Rightarrow> string) \<Rightarrow> bool" where
  "alike p i q k h \<longleftrightarrow>
     (\<forall>def oid op. bmap_get (vals p) i = Some def \<longrightarrow> v_origin def = OperationOrigin oid \<longrightarrow>
        bmap_get (operations p) oid = Some op \<longrightarrow>
        (\<exists>def' oid' op'. bmap_get (vals q) k = Some def' \<and> v_origin def' = OperationOrigin oid' \<and>
           bmap_get (operations q) oid' = Some op' \<and> acts_as (operation_map h op) op' \<and>
           (op_opcode op = Constant \<longrightarrow> bmap_get (constants q) k = bmap_get (constants p) i)))"

definition value_deps :: "program \<Rightarrow> string \<Rightarrow> string set" where
  "value_deps p i =
     {j. \<exists>def oid op. bmap_get (vals p) i = Some def \<and> v_origin def = OperationOrigin oid \<and>
        bmap_get (operations p) oid = Some op \<and> j \<in> op_deps op}"

lemma alike_transfer:
  assumes s: "one_step p params f i v" and a: "alike p i q k h" and par: "bmap_get params' k = bmap_get params i"
    and f: "\<And>j w. j \<in> value_deps p i \<Longrightarrow> f j () = Inr (w, ()) \<Longrightarrow> denotes q params' (resolve_filled_value q (h j)) w"
  shows "denotes q params' k v"
proof (cases "bmap_get params i")
  case (Some w)
  with s par show ?thesis by (auto simp: one_step_def intro: denotes_param)
next
  case None
  with s have "define_value p params f i () = Inr (v, ())" by (simp add: one_step_def)
  then obtain def oid op where d: "bmap_get (vals p) i = Some def" "v_origin def = OperationOrigin oid"
      "bmap_get (operations p) oid = Some op" "op_value p params f i op () = Inr (v, ())"
    by (auto simp: define_value_Inr)
  from a d(1-3) obtain def' oid' op' where q: "bmap_get (vals q) k = Some def'" "v_origin def' = OperationOrigin oid'"
      "bmap_get (operations q) oid' = Some op'" "acts_as (operation_map h op) op'"
      "op_opcode op = Constant \<longrightarrow> bmap_get (constants q) k = bmap_get (constants p) i"
    unfolding alike_def by blast
  have code: "op_opcode op' = op_opcode op" using q(4) by (simp add: acts_as_def operation_map_def)
  from None par have k: "bmap_get params' k = None" by simp
  from d(4) None have np: "op_opcode op \<noteq> Parameter" by (auto simp: op_value_def rmap_Inr_iff)
  show ?thesis
  proof (cases "op_opcode op = Constant")
    case True
    with d(4) q(5) code have "op_value q params' (denote_limit q params') k op' () = Inr (v, ())"
      by (simp add: op_value_def)
    with q(1-3) have "define_value q params' (denote_limit q params') k () = Inr (v, ())"
      unfolding define_value_Inr by blast
    with k show ?thesis by (rule define_limit)
  next
    case False
    with d(4) np have "eval_operation f op () = Inr (v, ())" by (simp add: op_value_def)
    then show ?thesis
      by (rule operation_transfer [where h = h, OF _ _ k q(1-4) np False])
         (use d(1-3) in \<open>auto simp: value_deps_def intro: f\<close>)
  qed
qed

lemma map_id_region [simp]: "region_map (\<lambda>i. i) rg = rg"
proof -
  have "region_value_map (\<lambda>i. i) = (\<lambda>v. v)"
    by (rule ext) (metis region_value_map.simps region_value.exhaust)
  then show ?thesis by (simp add: region_map_def)
qed

lemma acts_as_id [simp]: "acts_as (operation_map (\<lambda>i. i) op) op"
proof -
  have "map_option (region_map (\<lambda>i. i)) r = r" for r by (cases r) simp_all
  then show ?thesis by (simp add: acts_as_def operation_map_def)
qed

end
