(* ===== verification/Kinds.thy ===== *)
theory Kinds
  imports Region_Typing Dense_Inputs Renaming
begin

text \<open>
  Soundness of element types alone. A program whose shapes are not known to fit may still be
  evaluated; whenever an evaluation succeeds, every scalar it computes has the element type the
  program declares, whatever the extents are. The typing rules are those of \<open>Inference_Proofs\<close>
  and \<open>Interpreter_Types\<close>, read on scalars.
\<close>

definition has_kind :: "runtime_value \<Rightarrow> scalar_type \<Rightarrow> bool" where
  "has_kind w e \<longleftrightarrow>
     (case w of
        RScalar a \<Rightarrow> scalar_typed a e
      | RTensor t \<Rightarrow> element_ty t = e \<and> (\<forall>x\<in>set (elements t). scalar_typed x e))"

lemma has_kind_simps [simp]:
  "has_kind (RScalar a) e \<longleftrightarrow> scalar_typed a e"
  "has_kind (RTensor t) e \<longleftrightarrow> element_ty t = e \<and> (\<forall>x\<in>set (elements t). scalar_typed x e)"
  by (simp_all add: has_kind_def)

lemma value_typed_kind: "value_typed w t \<Longrightarrow> has_kind w (fst t)"
  by (cases w; cases t) (auto simp: tensor_typed_def)

lemma outcome_success: "outcome P cs r \<Longrightarrow> r = Inr a \<Longrightarrow> P a"
  by simp

abbreviation scalars :: "scalar_type list \<Rightarrow> dty list" where
  "scalars es \<equiv> map (\<lambda>e. (e, None)) es"

subsection \<open>Primitives\<close>

lemma traverse_kinds:
  assumes "traverse f xs = Inr ys" "\<And>x y. x \<in> set xs \<Longrightarrow> f x = Inr y \<Longrightarrow> scalar_typed y e"
  shows "\<forall>y\<in>set ys. scalar_typed y e"
  using traverse_set [OF assms(1)] assms(2) by blast

lemma zip_kinds:
  assumes r: "traverse (\<lambda>(x, y). f x y) (zip xs ys) = Inr es"
    and xs: "\<forall>x\<in>set xs. scalar_typed x d" and ys: "\<forall>y\<in>set ys. scalar_typed y d"
    and f: "\<And>x y z. scalar_typed x d \<Longrightarrow> scalar_typed y d \<Longrightarrow> f x y = Inr z \<Longrightarrow> scalar_typed z e"
  shows "\<forall>z\<in>set es. scalar_typed z e"
proof (rule traverse_kinds [OF r])
  fix p z assume p: "p \<in> set (zip xs ys)" "(case p of (x, y) \<Rightarrow> f x y) = Inr z"
  obtain x y where xy: "p = (x, y)" by fastforce
  with p(1) have "x \<in> set xs" "y \<in> set ys" by (auto dest: set_zip_leftD set_zip_rightD)
  with xs ys f [of x y z] p(2) xy show "scalar_typed z e" by simp
qed

lemma zip3_kinds:
  assumes r: "traverse (\<lambda>((x, y), z). f x y z) (zip (zip xs ys) zs) = Inr es"
    and xs: "\<forall>x\<in>set xs. scalar_typed x b" and ys: "\<forall>y\<in>set ys. scalar_typed y d"
    and zs: "\<forall>z\<in>set zs. scalar_typed z d"
    and f: "\<And>x y z w. scalar_typed x b \<Longrightarrow> scalar_typed y d \<Longrightarrow> scalar_typed z d \<Longrightarrow> f x y z = Inr w \<Longrightarrow>
      scalar_typed w e"
  shows "\<forall>z\<in>set es. scalar_typed z e"
proof (rule traverse_kinds [OF r])
  fix p w assume p: "p \<in> set (zip (zip xs ys) zs)" "(case p of (xy, z) \<Rightarrow> (case xy of (x, y) \<Rightarrow> \<lambda>z. f x y z) z) = Inr w"
  obtain x y z where xyz: "p = ((x, y), z)" by (metis prod.exhaust)
  with p(1) have "x \<in> set xs \<and> y \<in> set ys \<and> z \<in> set zs" by (blast dest: zip3_mem)
  with xs ys zs f [of x y z w] p(2) xyz show "scalar_typed w e" by simp
qed

lemma elementwise_kind:
  assumes op: "op \<in> {Add, Sub, Mul, Div}" "is_numeric e" and k: "has_kind a e" "has_kind b e"
    and v: "elementwise_binary op a b = Inr v"
  shows "has_kind v e"
proof -
  have s: "scalar_typed z e" if "scalar_typed x e" "scalar_typed y e" "scalar_binary op x y = Inr z" for x y z
    using outcome_success [OF scalar_binary_outcome [OF op that(1,2)] that(3)] .
  show ?thesis
  proof (cases a; cases b)
    fix t u assume ab: "a = RTensor t" "b = RTensor u"
    with v obtain es where es: "traverse (\<lambda>(x, y). scalar_binary op x y) (zip (elements t) (elements u)) = Inr es"
        "v = RTensor (t\<lparr>elements := es\<rparr>)"
      by (auto simp: elementwise_binary_def zip_elements_def rmap_Inr_iff split: if_split_asm)
    have "\<forall>y\<in>set es. scalar_typed y e"
      by (rule zip_kinds [OF es(1) _ _ s]) (use k ab in simp_all)
    with es(2) k(1) ab(1) show ?thesis by simp
  next
    fix x y assume ab: "a = RScalar x" "b = RScalar y"
    with v obtain z where "scalar_binary op x y = Inr z" "v = RScalar z"
      by (auto simp: elementwise_binary_def rmap_Inr_iff)
    with s [of x y z] k ab show ?thesis by simp
  qed (use v in \<open>simp_all add: elementwise_binary_def\<close>)
qed

lemma fma_kind:
  assumes n: "is_numeric e" and k: "has_kind a e" "has_kind b e" "has_kind c e" and v: "eval_fma a b c = Inr v"
  shows "has_kind v e"
proof -
  have s: "scalar_typed w e" if "scalar_typed x e" "scalar_typed y e" "scalar_typed z e" "scalar_fma x y z = Inr w"
    for x y z w
    using outcome_success [OF scalar_fma_outcome [OF n that(1-3)] that(4)] .
  from v consider x y z w where "a = RScalar x" "b = RScalar y" "c = RScalar z" "scalar_fma x y z = Inr w" "v = RScalar w"
    | t u r es where "a = RTensor t" "b = RTensor u" "c = RTensor r" "v = RTensor (t\<lparr>elements := es\<rparr>)"
      "traverse (\<lambda>((x, y), z). scalar_fma x y z) (zip (zip (elements t) (elements u)) (elements r)) = Inr es"
    by (auto simp: eval_fma_def rmap_Inr_iff split: runtime_value.split_asm if_split_asm)
  then show ?thesis
  proof cases
    case 1
    with k have "scalar_typed w e" by (intro s [of x y z w]) simp_all
    with 1 show ?thesis by simp
  next
    case (2 t u r es)
    have "\<forall>y\<in>set es. scalar_typed y e"
      by (rule zip3_kinds [OF 2(5) _ _ _ s]) (use k 2 in simp_all)
    with 2 k(1) show ?thesis by simp
  qed
qed

lemma compare_kind:
  assumes k: "has_kind a e" "has_kind b e" and v: "eval_compare p a b = Inr v"
  shows "has_kind v Bool"
proof -
  have s: "scalar_typed z Bool" if "scalar_typed x e" "scalar_typed y e" "compare_scalar p x y = Inr z" for x y z
    using outcome_success [OF compare_scalar_outcome [OF that(1,2)] that(3)] .
  show ?thesis
  proof (cases a; cases b)
    fix t u assume ab: "a = RTensor t" "b = RTensor u"
    with v obtain es where es: "traverse (\<lambda>(x, y). compare_scalar p x y) (zip (elements t) (elements u)) = Inr es"
        "v = RTensor \<lparr>element_ty = Bool, tensor_shape = tensor_shape t, elements = es\<rparr>"
      by (auto simp: eval_compare_def zip_elements_def rmap_Inr_iff split: if_split_asm)
    have "\<forall>y\<in>set es. scalar_typed y Bool"
      by (rule zip_kinds [OF es(1) _ _ s]) (use k ab in simp_all)
    with es(2) show ?thesis by simp
  next
    fix x y assume ab: "a = RScalar x" "b = RScalar y"
    with v obtain z where "compare_scalar p x y = Inr z" "v = RScalar z"
      by (auto simp: eval_compare_def rmap_Inr_iff)
    with s [of x y z] k ab show ?thesis by simp
  qed (use v in \<open>simp_all add: eval_compare_def\<close>)
qed

lemma select_scalar_kind:
  assumes "scalar_typed x Bool" "scalar_typed l e" "scalar_typed r e" "select_scalar x l r = Inr y"
  shows "scalar_typed y e"
  using outcome_success [OF select_scalar_outcome [OF assms(1-3)] assms(4)] .

lemma select_kind:
  assumes k: "has_kind c Bool" "has_kind a e" "has_kind b e" and v: "eval_select c a b = Inr v"
  shows "has_kind v e"
proof (cases c)
  case (RScalar x)
  with v k show ?thesis by (cases x) (auto simp: eval_select_def)
next
  case (RTensor t)
  with v obtain u r es where t: "a = RTensor u" "b = RTensor r" "v = RTensor (u\<lparr>elements := es\<rparr>)"
      "traverse (\<lambda>((x, y), z). select_scalar x y z) (zip (zip (elements t) (elements u)) (elements r)) = Inr es"
    by (auto simp: eval_select_def rmap_Inr_iff split: runtime_value.split_asm if_split_asm)
  have "\<forall>y\<in>set es. scalar_typed y e"
    by (rule zip3_kinds [OF t(4) _ _ _ select_scalar_kind]) (use k t RTensor in simp_all)
  with t k(2) show ?thesis by simp
qed

lemma cast_kind:
  assumes k: "has_kind a e" and c: "cast_supported e target" and v: "eval_cast a target = Inr v"
  shows "has_kind v target"
proof -
  have s: "scalar_typed y target" if "scalar_typed x e" "cast_scalar x target = Inr y" for x y
    using outcome_success [OF cast_scalar_outcome [OF that(1) c] that(2)] .
  show ?thesis
  proof (cases a)
    case (RTensor t)
    with v obtain es where es: "traverse (\<lambda>x. cast_scalar x target) (elements t) = Inr es"
        "v = RTensor \<lparr>element_ty = target, tensor_shape = tensor_shape t, elements = es\<rparr>"
      by (auto simp: eval_cast_def rmap_Inr_iff)
    have "\<forall>y\<in>set es. scalar_typed y target"
      by (rule traverse_kinds [OF es(1) s]) (use k RTensor in simp_all)
    with es(2) show ?thesis by simp
  next
    case (RScalar x)
    with v obtain z where "cast_scalar x target = Inr z" "v = RScalar z"
      by (auto simp: eval_cast_def rmap_Inr_iff)
    with s [of x z] k RScalar show ?thesis by simp
  qed
qed

lemma eval_primitive_kind:
  assumes t: "prim_typing op attrs (scalars es) (e, None)" and k: "list_all2 has_kind vs es"
    and v: "eval_primitive op vs attrs = Inr w"
  shows "has_kind w e"
  using t
proof (cases rule: prim_typing.cases)
  case arith
  then obtain a b where vs: "vs = [a, b]" "has_kind a e" "has_kind b e"
    using k by (auto simp: map_eq_Cons_conv list_all2_Cons2)
  moreover have "elementwise_binary op a b = Inr w" using v arith(2) vs(1) by (simp add: eval_primitive_def)
  ultimately show ?thesis using elementwise_kind [of op e a b w] arith(2,3) by simp
next
  case fma
  then obtain a b c where vs: "vs = [a, b, c]" "has_kind a e" "has_kind b e" "has_kind c e"
    using k by (auto simp: map_eq_Cons_conv list_all2_Cons2)
  moreover have "eval_fma a b c = Inr w" using v fma(1) vs(1) by (simp add: eval_primitive_def)
  ultimately show ?thesis using fma_kind [of e a b c w] fma(3) by simp
next
  case (compare t)
  then obtain a b d where vs: "vs = [a, b]" "has_kind a d" "has_kind b d"
    using k by (auto simp: map_eq_Cons_conv list_all2_Cons2)
  moreover have "eval_compare (predicate_attribute attrs) a b = Inr w"
    using v compare(1) vs(1) by (simp add: eval_primitive_def)
  ultimately show ?thesis using compare_kind [of a d b] compare(3) by simp
next
  case select_scalar
  then obtain c a b where vs: "vs = [c, a, b]" "has_kind c Bool" "has_kind a e" "has_kind b e"
    using k by (auto simp: map_eq_Cons_conv list_all2_Cons2)
  moreover have "eval_select c a b = Inr w" using v select_scalar(1) vs(1) by (simp add: eval_primitive_def)
  ultimately show ?thesis using select_kind [of c a e b w] by simp
next
  case (cast name t)
  then obtain a d where vs: "vs = [a]" "has_kind a d" "cast_supported d e"
    using k by (auto simp: map_eq_Cons_conv list_all2_Cons2)
  moreover have "eval_cast a e = Inr w"
    using v cast(1) vs(1) cast_target_ok [OF cast(4,5)] by (simp add: eval_primitive_def)
  ultimately show ?thesis using cast_kind [of a d e w] by simp
qed (auto simp: map_eq_Cons_conv)

text \<open>A cast to the element type a value already has leaves it as it is.\<close>

lemma cast_scalar_same: "scalar_typed a e \<Longrightarrow> cast_scalar a e = Inr v \<Longrightarrow> v = a"
  by (cases a; cases e) (auto simp: cast_scalar_def)

lemma cast_same:
  assumes "has_kind a e" "eval_cast a e = Inr v"
  shows "v = a"
proof (cases a)
  case (RScalar x)
  with assms show ?thesis by (auto simp: eval_cast_def rmap_Inr_iff dest: cast_scalar_same)
next
  case (RTensor t)
  with assms(2) obtain es where es: "traverse (\<lambda>x. cast_scalar x e) (elements t) = Inr es"
      "v = RTensor \<lparr>element_ty = e, tensor_shape = tensor_shape t, elements = es\<rparr>"
    by (auto simp: eval_cast_def rmap_Inr_iff)
  have "length es = length (elements t)" using es(1) by (rule traverse_length)
  moreover have "es ! i = elements t ! i" if "i < length (elements t)" for i
    using cast_scalar_same traverse_nth [OF es(1) that] assms(1) RTensor nth_mem [OF that] by auto
  ultimately have "es = elements t" by (simp add: nth_equalityI)
  with es(2) assms(1) RTensor show ?thesis by simp
qed

subsection \<open>Inference\<close>

lemma compatible_elements: "compatible_types facts l r = Inr x \<Longrightarrow> element_type r = element_type l"
  by (cases l; cases r; cases facts)
     (auto simp: compatible_types_def same_type_def same_type_with_facts_def rmap_Inr_iff split: if_split_asm)

lemma condition_element: "select_condition facts c b = Inr (True, x) \<Longrightarrow> element_type c = Bool"
  by (auto simp: select_condition_def split: ty.split_asm scalar_type.split_asm)

lemma element_with_element [simp]: "element_type (with_element_type t e) = e"
  by (cases t) simp_all

lemma infer_kinds:
  assumes inf: "infer_primitive_impl facts op ts attrs = Inr i"
  shows "prim_typing op attrs (scalars (map element_type ts)) (element_type (inf_ty i), None)"
proof -
  have arith: ?thesis if i: "infer_arithmetic facts op ts = Inr i" and op: "op \<in> {Add, Sub, Mul, Div}"
    using i by (elim infer_arithmetic_Inr)
      (use op in \<open>auto dest!: compatible_elements simp: prim_typing_arith\<close>)
  show ?thesis
  proof (cases op)
    case Fma
    with inf have "infer_fma facts ts = Inr i" by (simp add: infer_primitive_impl_def)
    with Fma show ?thesis
      by (elim infer_fma_Inr) (auto dest!: compatible_elements simp: prim_typing_fma)
  next
    case Compare
    with inf have "infer_compare facts ts = Inr i" by (simp add: infer_primitive_impl_def)
    with Compare show ?thesis
      by (elim infer_compare_Inr) (auto dest!: compatible_elements simp: prim_typing_compare_iff)
  next
    case Select
    with inf have "infer_select facts ts = Inr i" by (simp add: infer_primitive_impl_def)
    with Select show ?thesis
      by (elim infer_select_Inr)
         (auto dest!: compatible_elements condition_element simp: prim_typing_select selects_def)
  next
    case Cast
    with inf have c: "infer_cast ts attrs = Inr i" by (simp add: infer_primitive_impl_def)
    then show ?thesis unfolding Cast
      by (elim infer_cast_Inr) (auto simp: legal_inference_def prim_typing_cast_iff)
  qed (use inf arith in \<open>simp_all add: infer_primitive_impl_def\<close>)
qed

lemma compatible_all_elements:
  assumes "compatible_all (compatible_types facts) t ts = Inr x"
  shows "\<forall>u\<in>set ts. element_type u = element_type t"
proof -
  have "rfold (\<lambda>(c, rels) operand. rbind (compatible_types facts t operand) (\<lambda>(oc, orels). Inr (merge_class c oc, rels @ orels)))
      s ts = Inr y \<Longrightarrow> \<forall>u\<in>set ts. element_type u = element_type t" for s y
    by (induction ts arbitrary: s) (fastforce simp: rbind_Inr_iff dest: compatible_elements)+
  with assms show ?thesis unfolding compatible_all_def by blast
qed

subsection \<open>Programs\<close>

definition kind_at :: "program \<Rightarrow> string \<Rightarrow> scalar_type option" where
  "kind_at p i = map_option (\<lambda>d. element_type (v_ty d)) (bmap_get (vals p) i)"

definition kind_look :: "program \<Rightarrow> string \<Rightarrow> dty option" where
  "kind_look p i = map_option (\<lambda>e. (e, None)) (kind_at p i)"

definition operation_kind :: "program \<Rightarrow> operation \<Rightarrow> scalar_type \<Rightarrow> bool" where
  "operation_kind p op e \<longleftrightarrow>
     (\<exists>es. list_all2 (\<lambda>i d. kind_at p i = Some d) (op_operands op) es \<and>
        (if op_opcode op \<in> {Map, ZipMap, Reduce}
         then \<exists>rg. op_region op = Some rg \<and> region_typed (kind_look p) es rg e \<and>
                (op_opcode op = Map \<longrightarrow> length es = 1) \<and> (op_opcode op = Reduce \<longrightarrow> es = [e, e])
         else prim_typing (op_opcode op) (op_attributes op) (scalars es) (e, None)))"

definition definition_kind :: "program \<Rightarrow> string \<Rightarrow> operation \<Rightarrow> scalar_type \<Rightarrow> bool" where
  "definition_kind p i op e \<longleftrightarrow>
     (if op_opcode op = Parameter then True
      else if op_opcode op = Constant
      then \<forall>c w. bmap_get (constants p) i = Some c \<longrightarrow> constant_runtime c = Inr w \<longrightarrow> has_kind w e
      else operation_kind p op e)"

definition kinded :: "program \<Rightarrow> (string, runtime_value) bmap \<Rightarrow> bool" where
  "kinded p params \<longleftrightarrow>
     (\<forall>i w e. bmap_get params i = Some w \<longrightarrow> kind_at p i = Some e \<longrightarrow> has_kind w e) \<and>
     (\<forall>i def oid op. bmap_get (vals p) i = Some def \<longrightarrow> v_origin def = OperationOrigin oid \<longrightarrow>
        bmap_get (operations p) oid = Some op \<longrightarrow> definition_kind p i op (element_type (v_ty def)))"

text \<open>An evaluation of operands that respects the declared element types.\<close>

definition ev_kind :: "program \<Rightarrow> (string \<Rightarrow> 's \<Rightarrow> (runtime_value \<times> 's) res) \<Rightarrow> bool" where
  "ev_kind p ev \<longleftrightarrow> (\<forall>i s w s' e. ev i s = Inr (w, s') \<longrightarrow> kind_at p i = Some e \<longrightarrow> has_kind w e)"

lemma ev_kindD: "ev_kind p ev \<Longrightarrow> ev i s = Inr (w, s') \<Longrightarrow> kind_at p i = Some e \<Longrightarrow> has_kind w e"
  by (auto simp: ev_kind_def)

lemma traverse_st_all2:
  "traverse_st f xs s = Inr (ys, s') \<Longrightarrow> list_all2 (\<lambda>x y. \<exists>s s'. f x s = Inr (y, s')) xs ys"
  by (induction xs arbitrary: s ys) (auto simp: rbind_Inr_iff split: prod.split_asm)

lemma captures_kind:
  assumes ev: "ev_kind p ev" and c: "list_all2 (\<lambda>c t. kind_look p c = Some (t, None)) ids cts"
    and r: "region_captures ev ids s = Inr (m, s')"
  shows "env_typed m (bmap_of_list (zip ids cts))"
proof -
  from r obtain kvs where kvs: "m = bmap_of_list kvs"
      "list_all2 (\<lambda>c y. \<exists>s s'. rbind (ev c s) (\<lambda>(v, s'). case v of RScalar a \<Rightarrow> Inr ((c, a), s')
          | RTensor _ \<Rightarrow> err InvalidRegion ''Stage 1 region capture must be scalar'') = Inr (y, s')) ids kvs"
    by (auto simp: region_captures_def rmap_Inr_iff dest!: traverse_st_all2)
  have cell: "fst y = c \<and> scalar_typed (snd y) t"
    if "\<exists>s s'. rbind (ev c s) (\<lambda>(v, s'). case v of RScalar a \<Rightarrow> Inr ((c, a), s')
          | RTensor _ \<Rightarrow> err InvalidRegion ''Stage 1 region capture must be scalar'') = Inr (y, s')"
      "kind_look p c = Some (t, None)" for c y t
  proof -
    from that(1) obtain s1 w s2 s3 where e: "ev c s1 = Inr (w, s2)"
        "(case w of RScalar a \<Rightarrow> Inr ((c, a), s2)
          | RTensor _ \<Rightarrow> err InvalidRegion ''Stage 1 region capture must be scalar'') = Inr (y, s3)"
      by (auto simp: rbind_Inr_iff)
    then obtain a where "ev c s1 = Inr (RScalar a, s2)" "y = (c, a)" by (cases w) auto
    with ev_kindD [OF ev this(1)] that(2) show ?thesis by (auto simp: kind_look_def)
  qed
  note len = list_all2_lengthD [OF kvs(2)] list_all2_lengthD [OF c]
  have "fst (kvs ! i) = ids ! i \<and> scalar_typed (snd (kvs ! i)) (cts ! i)" if "i < length ids" for i
    by (rule cell [OF list_all2_nthD [OF kvs(2) that] list_all2_nthD [OF c that]])
  with len have "map fst kvs = ids" "list_all2 scalar_typed (map snd kvs) cts"
    by (auto simp: list_all2_conv_all_nth intro!: nth_equalityI)
  then show ?thesis using env_typed_zip [of "map snd kvs" cts ids] kvs(1) by (metis zip_map_fst_snd)
qed

lemma region_kind:
  assumes ev: "ev_kind p ev" and r: "region_typed (kind_look p) es rg y" and a: "list_all2 scalar_typed args es"
    and e: "eval_region ev rg args s = Inr (w, s')"
  shows "scalar_typed w y"
proof -
  let ?args = "bmap_of_list (zip (map arg_name (rg_arguments rg)) args)"
  let ?ts = "bmap_of_list (zip (map arg_name (rg_arguments rg)) es)"
  from r obtain cts final where c: "list_all2 (\<lambda>c t. kind_look p c = Some (t, None)) (rg_captures rg) cts"
    and ops: "region_ops_typed ?ts (bmap_of_list (zip (rg_captures rg) cts)) [] (rg_operations rg) final"
    and yield: "reference_type ?ts final (bmap_of_list (zip (rg_captures rg) cts)) (rg_yield_value rg) = Some y"
    unfolding region_typed_def by blast
  from e obtain captures s1 locals where m: "region_captures ev (rg_captures rg) s = Inr (captures, s1)"
    and l: "rfold (region_step ?args captures) [] (rg_operations rg) = Inr locals"
    and w: "region_reference ?args locals captures (rg_yield_value rg) = Inr w"
    by (auto simp: eval_region_def Let_def rbind_Inr_iff)
  note args = env_typed_zip [OF a, of "map arg_name (rg_arguments rg)"]
  note caps = captures_kind [OF ev c m]
  have "env_typed locals final"
    by (rule outcome_success [OF region_ops_outcome [OF args caps ops] l]) simp
  from region_reference_typed [OF args this caps yield] w show ?thesis by simp
qed

lemma operands_kind:
  assumes ev: "ev_kind p ev" and r: "traverse_st ev is s = Inr (ws, s')"
    and es: "list_all2 (\<lambda>i d. kind_at p i = Some d) is es"
  shows "list_all2 has_kind ws es"
  using traverse_st_all2 [OF r] es ev_kindD [OF ev] by (fastforce simp: list_all2_conv_all_nth)

lemma tensor_elements_kind:
  "has_kind w e \<Longrightarrow> as_tensor w m = Inr t \<Longrightarrow> \<forall>x\<in>set (elements t). scalar_typed x e"
  by (cases w) (auto simp: as_tensor_def)

lemma eval_map_kind:
  assumes ev: "ev_kind p ev" and rg: "op_region op = Some rg" and r: "region_typed (kind_look p) [e] rg y"
    and w: "has_kind w e" and m: "eval_map ev op [w] s = Inr (v, s')"
  shows "has_kind v y"
proof -
  from m rg obtain t es where t: "as_tensor w ''map input is not a tensor'' = Inr t"
      "traverse_st (\<lambda>x. eval_region ev rg [x]) (elements t) s = Inr (es, s')"
      "v = RTensor \<lparr>element_ty = element_type (rg_yield_type rg), tensor_shape = tensor_shape t, elements = es\<rparr>"
    by (auto simp: eval_map_def rbind_Inr_iff require_region_def)
  have "scalar_typed (es ! i) y" if "i < length es" for i
  proof -
    from traverse_st_all2 [OF t(2)] that obtain s1 s2 where
      c: "eval_region ev rg [elements t ! i] s1 = Inr (es ! i, s2)" and i: "i < length (elements t)"
      by (auto simp: list_all2_conv_all_nth)
    from tensor_elements_kind [OF w t(1)] nth_mem [OF i] have "list_all2 scalar_typed [elements t ! i] [e]" by simp
    from region_kind [OF ev r this c] show ?thesis .
  qed
  then have "\<forall>x\<in>set es. scalar_typed x y" by (auto simp: in_set_conv_nth)
  moreover have "element_type (rg_yield_type rg) = y" using r by (auto simp: region_typed_def)
  ultimately show ?thesis using t(3) by simp
qed

lemma eval_zip_map_kind:
  assumes ev: "ev_kind p ev" and rg: "op_region op = Some rg" and r: "region_typed (kind_look p) es rg y"
    and ws: "list_all2 has_kind ws es" and m: "eval_zip_map ev op ws s = Inr (v, s')"
  shows "has_kind v y"
proof -
  from m obtain ts where t: "traverse (\<lambda>v. as_tensor v ''zip_map input is not a tensor'') ws = Inr ts"
    by (auto simp: eval_zip_map_def rbind_Inr_iff)
  with m rg obtain vs t0 where "slice_index ts 0 = Inr t0" and ts:
      "traverse_st (\<lambda>i s. rbind (traverse (\<lambda>t. slice_index (elements t) i) ts) (\<lambda>args. eval_region ev rg args s))
        [0..<case ts of [] \<Rightarrow> 0 | t # _ \<Rightarrow> length (elements t)] s = Inr (vs, s')"
      "v = RTensor \<lparr>element_ty = element_type (rg_yield_type rg), tensor_shape = tensor_shape t0, elements = vs\<rparr>"
    by (auto simp: eval_zip_map_def rbind_Inr_iff require_region_def Let_def split: if_split_asm)
  have tk: "list_all2 (\<lambda>t e. \<forall>x\<in>set (elements t). scalar_typed x e) ts es"
    unfolding list_all2_conv_all_nth
  proof (intro conjI allI impI)
    show "length ts = length es" using t ws by (auto dest!: traverse_length list_all2_lengthD)
    fix i assume "i < length ts"
    then have i: "i < length ws" using t by (auto dest: traverse_length)
    from tensor_elements_kind [OF list_all2_nthD [OF ws i] traverse_nth [OF t i]]
    show "\<forall>x\<in>set (elements (ts ! i)). scalar_typed x (es ! i)" .
  qed
  have col: "scalar_typed x y" if cell: "\<exists>s s'. rbind (traverse (\<lambda>t. slice_index (elements t) i) ts) (\<lambda>args. eval_region ev rg args s) =
      Inr (x, s')" for i x
  proof -
    from cell obtain args s1 s2 where a: "traverse (\<lambda>t. slice_index (elements t) i) ts = Inr args"
        "eval_region ev rg args s1 = Inr (x, s2)"
      by (auto simp: rbind_Inr_iff)
    have "slice_index (elements t) i = Inr a \<Longrightarrow> a \<in> set (elements t)" for t a
      by (auto simp: slice_index_def split: if_split_asm)
    with a(1) tk have "list_all2 scalar_typed args es"
      by (fastforce simp: traverse_Inr_iff list_all2_conv_all_nth)
    with region_kind [OF ev r _ a(2)] show ?thesis .
  qed
  have "scalar_typed (vs ! i) y" if "i < length vs" for i
    by (rule col [OF list_all2_nthD2 [OF traverse_st_all2 [OF ts(1)] that]])
  then have "\<forall>x\<in>set vs. scalar_typed x y" by (auto simp: in_set_conv_nth)
  moreover have "element_type (rg_yield_type rg) = y" using r by (auto simp: region_typed_def)
  ultimately show ?thesis using ts(2) by simp
qed

lemma eval_reduce_kind:
  assumes ev: "ev_kind p ev" and rg: "op_region op = Some rg" and r: "region_typed (kind_look p) [e, e] rg e"
    and w: "has_kind w e" "has_kind z e" and m: "eval_reduce ev op [w, z] s = Inr (v, s')"
  shows "has_kind v e"
proof -
  from m obtain a where a: "z = RScalar a"
    by (cases z) (auto simp: eval_reduce_def rbind_Inr_iff)
  with m rg obtain t acc where t: "as_tensor w ''reduce input is not a tensor'' = Inr t" "z = RScalar a"
      "rfold (\<lambda>(acc, s') x. eval_region ev rg [acc, x] s') (a, s) (elements t) = Inr (acc, s')" "v = RScalar acc"
    by (auto simp: eval_reduce_def rbind_Inr_iff rmap_Inr_iff require_region_def)
  have "scalar_typed (fst (acc, s')) e"
  proof (rule rfold_invariant [OF t(3)])
    show "scalar_typed (fst (a, s)) e" using w(2) t(2) by simp
    fix u u' x
    assume "scalar_typed (fst u) e" "x \<in> set (elements t)"
      "(case u of (acc, s') \<Rightarrow> \<lambda>x. eval_region ev rg [acc, x] s') x = Inr u'"
    then show "scalar_typed (fst u') e"
      using tensor_elements_kind [OF w(1) t(1)] region_kind [OF ev r, of "[fst u, x]" "snd u" "fst u'" "snd u'"]
      by (simp add: case_prod_unfold)
  qed
  with t(4) show ?thesis by simp
qed

lemma operation_kind_sound:
  assumes ev: "ev_kind p ev" and k: "operation_kind p op e" and v: "eval_operation ev op s = Inr (v, s')"
  shows "has_kind v e"
proof -
  from k obtain es where es: "list_all2 (\<lambda>i d. kind_at p i = Some d) (op_operands op) es"
    and op: "if op_opcode op \<in> {Map, ZipMap, Reduce}
         then \<exists>rg. op_region op = Some rg \<and> region_typed (kind_look p) es rg e \<and>
                (op_opcode op = Map \<longrightarrow> length es = 1) \<and> (op_opcode op = Reduce \<longrightarrow> es = [e, e])
         else prim_typing (op_opcode op) (op_attributes op) (scalars es) (e, None)"
    unfolding operation_kind_def by blast
  from v obtain ws s1 where ws: "traverse_st ev (op_operands op) s = Inr (ws, s1)"
    and r: "(case op_opcode op of
       Map \<Rightarrow> eval_map ev op ws s1 | ZipMap \<Rightarrow> eval_zip_map ev op ws s1 | Reduce \<Rightarrow> eval_reduce ev op ws s1
     | _ \<Rightarrow> rmap (\<lambda>v. (v, s1)) (eval_primitive (op_opcode op) ws (op_attributes op))) = Inr (v, s')"
    by (auto simp: eval_operation_def rbind_Inr_iff)
  note wk = operands_kind [OF ev ws es]
  show ?thesis
  proof (cases "op_opcode op \<in> {Map, ZipMap, Reduce}")
    case True
    with op obtain rg where rg: "op_region op = Some rg" "region_typed (kind_look p) es rg e"
        "op_opcode op = Map \<longrightarrow> length es = 1" "op_opcode op = Reduce \<longrightarrow> es = [e, e]" by auto
    from True consider "op_opcode op = Map" | "op_opcode op = ZipMap" | "op_opcode op = Reduce" by auto
    then show ?thesis
    proof cases
      case 1
      with r have m: "eval_map ev op ws s1 = Inr (v, s')" by simp
      from 1 rg(3) wk obtain d w where "es = [d]" "ws = [w]" "has_kind w d"
        by (auto simp: length_Suc_conv list_all2_Cons2)
      with eval_map_kind [OF ev rg(1)] rg(2) m show ?thesis by blast
    next
      case 2
      with r eval_zip_map_kind [OF ev rg(1,2) wk] show ?thesis by simp
    next
      case 3
      with rg(4) wk obtain w z where "ws = [w, z]" "has_kind w e" "has_kind z e" "es = [e, e]"
        by (auto simp: list_all2_Cons2)
      moreover from 3 r have "eval_reduce ev op ws s1 = Inr (v, s')" by simp
      ultimately show ?thesis using eval_reduce_kind [OF ev rg(1)] rg(2) by blast
    qed
  next
    case False
    with op have t: "prim_typing (op_opcode op) (op_attributes op) (scalars es) (e, None)" by simp
    from False r obtain "eval_primitive (op_opcode op) ws (op_attributes op) = Inr v"
      by (auto simp: rmap_Inr_iff split: opcode.split_asm)
    with eval_primitive_kind [OF t wk] show ?thesis by simp
  qed
qed

lemma denote_kind:
  assumes k: "kinded p params" and res: "\<And>i. resolve_filled_value p i = i"
  shows "denote p params n i = Inr v \<Longrightarrow> kind_at p i = Some e \<Longrightarrow> has_kind v e"
proof (induction n arbitrary: i v e)
  case (Suc n)
  have ev: "ev_kind p (denote_st p params n)"
    using Suc.IH by (auto simp: ev_kind_def rmap_Inr_iff res)
  show ?case
  proof (cases "bmap_get params i")
    case (Some w)
    with Suc.prems k show ?thesis by (simp add: kinded_def)
  next
    case None
    with Suc.prems(1) have d: "define_value p params (denote_st p params n) i () = Inr (v, ())"
      by (simp add: denote_Suc_iff del: denote.simps)
    then obtain def oid op where def: "bmap_get (vals p) i = Some def" "v_origin def = OperationOrigin oid"
        "bmap_get (operations p) oid = Some op"
      and r: "op_value p params (denote_st p params n) i op () = Inr (v, ())"
      by (auto simp: define_value_Inr)
    with Suc.prems(2) k have t: "definition_kind p i op e" by (auto simp: kinded_def kind_at_def)
    have "op_opcode op \<noteq> Parameter" using r None by (auto simp: op_value_def rmap_Inr_iff)
    then consider "op_opcode op = Constant" | "op_opcode op \<noteq> Parameter" "op_opcode op \<noteq> Constant" by blast
    then show ?thesis
    proof cases
      case 1
      with r t show ?thesis
        by (auto simp: op_value_def rbind_Inr_iff rmap_Inr_iff ok_or_Inr_iff definition_kind_def)
    next
      case 2
      with r have "eval_operation (denote_st p params n) op () = Inr (v, ())" by (simp add: op_value_def)
      with operation_kind_sound [OF ev] t 2 show ?thesis by (simp add: definition_kind_def)
    qed
  qed
qed simp

end
