(* ===== verification/Impl_IR.thy ===== *)
theory Impl_IR
  imports Canonical Inference_Proofs
begin

text \<open>
  The implementation graph (\<open>agentir-core/src/impl_ir.rs\<close>): its separate data model, the identity
  lowering of a frozen specification, the adapter through which an implementation is typed,
  evaluated and canonicalized as a program, the verifier, and the implementation hash. Persistent
  identifiers are strings, so the conversions \<open>to_spec_value\<close> and \<open>to_spec_operation\<close> are the
  identity here.
\<close>

subsection \<open>Data\<close>

record impl_source_link =
  spec_operation :: "string option"
  spec_value :: "string option"
  rewrite_rule :: "string option"

datatype impl_value_origin = ImplOperationOrigin string

record impl_value =
  iv_id :: string
  iv_ty :: ty
  iv_origin :: impl_value_origin
  iv_name :: "string option"
  iv_source_link :: impl_source_link

datatype impl_region_value = ImplArgument string | ImplLocal string | ImplCapture string

record impl_block_argument =
  iarg_name :: string
  iarg_ty :: ty

record impl_region_operation =
  iro_result :: string
  iro_opcode :: opcode
  iro_operands :: "impl_region_value list"
  iro_attributes :: "(string, json) bmap"
  iro_result_type :: ty

record impl_region =
  irg_arguments :: "impl_block_argument list"
  irg_captures :: "string list"
  irg_operations :: "impl_region_operation list"
  irg_yield_value :: impl_region_value
  irg_yield_type :: ty

record impl_operation =
  io_id :: string
  io_opcode :: opcode
  io_operands :: "string list"
  io_results :: "string list"
  io_attributes :: "(string, json) bmap"
  io_region :: "impl_region option"
  io_result_types :: "ty list"
  io_source_link :: impl_source_link

record impl_output =
  iout_name :: string
  iout_value :: string
  iout_ty :: ty

record impl_program =
  ip_dimensions :: "(string, bool) bmap"
  ip_operations :: "(string, impl_operation) bmap"
  ip_order :: "string list"
  ip_values :: "(string, impl_value) bmap"
  ip_parameters :: "(string, string) bmap"
  ip_constants :: "(string, constant_value) bmap"
  ip_outputs :: "(string, impl_output) bmap"
  ip_constraints :: "shape_constraint list"
  ip_contract :: numeric_contract

definition default_impl_program :: impl_program where
  "default_impl_program = \<lparr>ip_dimensions = [], ip_operations = [], ip_order = [], ip_values = [],
     ip_parameters = [], ip_constants = [], ip_outputs = [], ip_constraints = [],
     ip_contract = default_numeric_contract\<rparr>"

text \<open>The allocator of the candidate stores (\<open>candidate.rs\<close>).\<close>

record candidate_allocator =
  next_candidate :: nat
  next_candidate_revision :: nat
  next_impl_operation :: nat
  next_impl_value :: nat
  next_evidence :: nat
  next_candidate_obligation :: nat
  next_proposal :: nat

definition alloc_impl_operation :: "candidate_allocator \<Rightarrow> candidate_allocator \<times> string" where
  "alloc_impl_operation a =
     (let n = Suc (next_impl_operation a) in (a\<lparr>next_impl_operation := n\<rparr>, ''iop'' @ show_nat n))"

definition alloc_impl_value :: "candidate_allocator \<Rightarrow> candidate_allocator \<times> string" where
  "alloc_impl_value a =
     (let n = Suc (next_impl_value a) in (a\<lparr>next_impl_value := n\<rparr>, ''iv'' @ show_nat n))"

abbreviation impl_failure :: "string \<Rightarrow> failure" where
  "impl_failure m \<equiv> Fail (agent_error_new ImplVerificationFailed m)"

abbreviation impl_error :: "string \<Rightarrow> 'a res" where
  "impl_error m \<equiv> Inl (impl_failure m)"

subsection \<open>Identity lowering\<close>

definition convert_region_value :: "region_value \<Rightarrow> (string, string) bmap \<Rightarrow> impl_region_value res" where
  "convert_region_value v m =
     (case v of
        Argument name \<Rightarrow> Inr (ImplArgument name)
      | Local name \<Rightarrow> Inr (ImplLocal name)
      | Capture i \<Rightarrow>
          rmap ImplCapture (ok_or (impl_failure ''identity lowering cannot map capture `{value}`'') (bmap_get m i)))"

definition lower_region_operation ::
    "(string, string) bmap \<Rightarrow> region_operation \<Rightarrow> impl_region_operation res" where
  "lower_region_operation m op =
     rmap (\<lambda>os. \<lparr>iro_result = ro_result op, iro_opcode = ro_opcode op, iro_operands = os,
                 iro_attributes = ro_attributes op, iro_result_type = ro_result_type op\<rparr>)
       (traverse (\<lambda>v. convert_region_value v m) (ro_operands op))"

definition lower_region :: "region \<Rightarrow> (string, string) bmap \<Rightarrow> impl_region res" where
  "lower_region rg m =
     rbind (traverse (\<lambda>i. ok_or (impl_failure ''identity lowering cannot map capture `{value}`'') (bmap_get m i))
              (rg_captures rg)) (\<lambda>captures.
     rbind (traverse (lower_region_operation m) (rg_operations rg)) (\<lambda>operations.
     rbind (convert_region_value (rg_yield_value rg) m) (\<lambda>y.
       Inr \<lparr>irg_arguments = map (\<lambda>a. \<lparr>iarg_name = arg_name a, iarg_ty = arg_ty a\<rparr>) (rg_arguments rg),
            irg_captures = captures, irg_operations = operations, irg_yield_value = y,
            irg_yield_type = rg_yield_type rg\<rparr>)))"

text \<open>
  The post-order walk to a value. An operation enters \<open>seen\<close> only after its operands, so a cycle
  is never cut: the recursion then does not end. A nesting deeper than the number of operations
  repeats an operation, so the fuel of \<open>identity_lower\<close> decides this.
\<close>

fun visit_source_value ::
    "program \<Rightarrow> nat \<Rightarrow> string \<Rightarrow> string bset \<times> string list \<Rightarrow> (string bset \<times> string list) res" where
  "visit_source_value prog 0 value0 st = Inl Diverge"
| "visit_source_value prog (Suc fuel) value0 st =
     (let i = resolve_filled_value prog value0 in
      rbind (ok_or (impl_failure ''SpecIR value `{value}` is missing'') (bmap_get (vals prog) i)) (\<lambda>def.
      case v_origin def of
        HoleOrigin _ \<Rightarrow> impl_error ''frozen SpecIR contains a hole-backed value''
      | OperationOrigin oid \<Rightarrow>
          if bset_contains (fst st) oid then Inr st
          else
            rbind (ok_or (impl_failure ''SpecIR operation `{operation}` is missing'') (bmap_get (operations prog) oid)) (\<lambda>op.
            rbind (rfold (\<lambda>st operand. visit_source_value prog fuel operand st) st (op_operands op)) (\<lambda>st1.
            rbind (case op_region op of
                     None \<Rightarrow> Inr st1
                   | Some rg \<Rightarrow> rfold (\<lambda>st capture. visit_source_value prog fuel capture st) st1 (rg_captures rg))
              (\<lambda>st2. Inr (bset_insert oid (fst st2), snd st2 @ [oid]))))))"

definition lowering_fuel :: "program \<Rightarrow> nat" where
  "lowering_fuel prog = Suc (length (operations prog))"

record lowering =
  lw_alloc :: candidate_allocator
  lw_program :: impl_program
  lw_values :: "(string, string) bmap"

definition lower_result ::
    "program \<Rightarrow> string \<Rightarrow> string \<Rightarrow> lowering \<times> string list \<Rightarrow> string \<Rightarrow> (lowering \<times> string list) res" where
  "lower_result source soid oid st svid =
     rbind (ok_or (impl_failure ''source result `{source_value_id}` is missing'') (bmap_get (vals source) svid)) (\<lambda>sv.
     let (lw, ids) = st;
         (alloc, vid) = alloc_impl_value (lw_alloc lw);
         v = \<lparr>iv_id = vid, iv_ty = v_ty sv, iv_origin = ImplOperationOrigin oid, iv_name = v_name sv,
              iv_source_link = \<lparr>spec_operation = Some soid, spec_value = Some svid, rewrite_rule = None\<rparr>\<rparr>;
         p = lw_program lw in
       Inr (\<lparr>lw_alloc = alloc,
             lw_program = p\<lparr>ip_values := bmap_insert vid v (ip_values p),
               ip_constants := (case bmap_get (constants source) svid of
                   None \<Rightarrow> ip_constants p | Some c \<Rightarrow> bmap_insert vid c (ip_constants p))\<rparr>,
             lw_values = bmap_insert svid vid (lw_values lw)\<rparr>, ids @ [vid]))"

definition lower_operation :: "program \<Rightarrow> lowering \<Rightarrow> string \<Rightarrow> lowering res" where
  "lower_operation source lw soid =
     rbind (ok_or (impl_failure ''source operation disappeared during lowering'') (bmap_get (operations source) soid)) (\<lambda>sop.
     let (alloc, oid) = alloc_impl_operation (lw_alloc lw) in
     rbind (rfold (lower_result source soid oid) (lw\<lparr>lw_alloc := alloc\<rparr>, []) (op_results sop)) (\<lambda>(lw1, ids).
     rbind (traverse (\<lambda>i. ok_or (impl_failure ''identity lowering cannot map operand `{value}`'')
              (bmap_get (lw_values lw1) (resolve_filled_value source i))) (op_operands sop)) (\<lambda>operands.
     rbind (case op_region sop of None \<Rightarrow> Inr None | Some rg \<Rightarrow> rmap Some (lower_region rg (lw_values lw1))) (\<lambda>rg.
     let op = \<lparr>io_id = oid, io_opcode = op_opcode sop, io_operands = operands, io_results = ids,
               io_attributes = op_attributes sop, io_region = rg, io_result_types = op_result_types sop,
               io_source_link = \<lparr>spec_operation = Some soid,
                 spec_value = (case op_results sop of [] \<Rightarrow> None | i # _ \<Rightarrow> Some i), rewrite_rule = None\<rparr>\<rparr>;
         p = lw_program lw1 in
       Inr (lw1\<lparr>lw_program := p\<lparr>ip_operations := bmap_insert oid op (ip_operations p),
                                ip_order := ip_order p @ [oid]\<rparr>\<rparr>)))))"

definition lower_parameter :: "program \<Rightarrow> (string, string) bmap \<Rightarrow> string \<times> string \<Rightarrow> (string \<times> string) res" where
  "lower_parameter source m p =
     rmap (Pair (fst p)) (ok_or (impl_failure ''identity lowering missed parameter `{name}`'')
       (bmap_get m (resolve_filled_value source (snd p))))"

definition lower_output ::
    "program \<Rightarrow> (string, string) bmap \<Rightarrow> impl_program \<Rightarrow> string \<times> string \<Rightarrow> (string \<times> impl_output) res" where
  "lower_output source m result p =
     rbind (ok_or (impl_failure ''identity lowering missed output `{name}`'')
              (bmap_get m (resolve_filled_value source (snd p)))) (\<lambda>i.
     rbind (ok_or Panic (bmap_get (ip_values result) i)) (\<lambda>v.
       Inr (fst p, \<lparr>iout_name = fst p, iout_value = i, iout_ty = iv_ty v\<rparr>)))"

definition dimension_flags :: "program \<Rightarrow> (string, bool) bmap" where
  "dimension_flags source =
     bmap_of_list (map (\<lambda>d. (dim_name d, dim_non_negative d)) (bmap_values (dimensions source)))"

definition lowering_admits :: "program \<Rightarrow> unit res" where
  "lowering_admits source =
     (if \<not> frozen source \<or> outputs source = []
      then err SpecNotFrozen ''candidate creation requires a complete frozen SpecIR''
      else if list_ex (\<lambda>h. filled_with h = None) (bmap_values (holes source)) \<or>
              list_ex (\<lambda>ob. ob_status ob = ObOpen) (bmap_values (obligations source))
      then err SpecNotFrozen ''candidate creation requires all SpecIR holes and obligations to be closed''
      else Inr ())"

definition source_operation_order :: "program \<Rightarrow> string list res" where
  "source_operation_order source =
     rbind (rfold (\<lambda>st i. visit_source_value source (lowering_fuel source) i st) ([], [])
              (bmap_values (parameters source))) (\<lambda>st.
     rmap snd (rfold (\<lambda>st i. visit_source_value source (lowering_fuel source) i st) st
              (bmap_values (outputs source))))"

definition lowering_start :: "program \<Rightarrow> candidate_allocator \<Rightarrow> lowering" where
  "lowering_start source alloc =
     \<lparr>lw_alloc = alloc,
      lw_program = default_impl_program\<lparr>ip_dimensions := dimension_flags source,
        ip_constraints := constraints source, ip_contract := numeric_contract_of source\<rparr>,
      lw_values = []\<rparr>"

definition identity_lower :: "program \<Rightarrow> candidate_allocator \<Rightarrow> (impl_program \<times> candidate_allocator) res" where
  "identity_lower source alloc =
     rbind (lowering_admits source) (\<lambda>_.
     rbind (source_operation_order source) (\<lambda>source_order.
     rbind (rfold (lower_operation source) (lowering_start source alloc) source_order) (\<lambda>lw.
     rbind (traverse (lower_parameter source (lw_values lw)) (parameters source)) (\<lambda>ps.
     rbind (traverse (lower_output source (lw_values lw) (lw_program lw)) (outputs source)) (\<lambda>outs.
       Inr ((lw_program lw)\<lparr>ip_parameters := bmap_of_list ps, ip_outputs := bmap_of_list outs\<rparr>, lw_alloc lw))))))"

subsection \<open>The adapter\<close>

fun region_value_to_spec :: "impl_region_value \<Rightarrow> region_value" where
  "region_value_to_spec (ImplArgument name) = Argument name"
| "region_value_to_spec (ImplLocal name) = Local name"
| "region_value_to_spec (ImplCapture i) = Capture i"

definition region_operation_to_spec :: "impl_region_operation \<Rightarrow> region_operation" where
  "region_operation_to_spec op =
     \<lparr>ro_result = iro_result op, ro_opcode = iro_opcode op,
      ro_operands = map region_value_to_spec (iro_operands op), ro_attributes = iro_attributes op,
      ro_result_type = iro_result_type op\<rparr>"

definition region_to_spec :: "impl_region \<Rightarrow> region" where
  "region_to_spec rg =
     \<lparr>rg_arguments = map (\<lambda>a. \<lparr>arg_name = iarg_name a, arg_ty = iarg_ty a\<rparr>) (irg_arguments rg),
      rg_captures = irg_captures rg,
      rg_operations = map region_operation_to_spec (irg_operations rg),
      rg_yield_value = region_value_to_spec (irg_yield_value rg), rg_yield_type = irg_yield_type rg\<rparr>"

definition operation_to_spec :: "string \<Rightarrow> impl_operation \<Rightarrow> operation" where
  "operation_to_spec i op =
     \<lparr>op_id = i, op_opcode = io_opcode op, op_operands = io_operands op, op_results = io_results op,
      op_attributes = io_attributes op, op_region = map_option region_to_spec (io_region op),
      op_provenance = ''impl'', op_result_types = io_result_types op\<rparr>"

definition value_to_spec :: "string \<Rightarrow> impl_value \<Rightarrow> value_def" where
  "value_to_spec i v =
     \<lparr>v_id = i, v_ty = iv_ty v,
      v_origin = (case iv_origin v of ImplOperationOrigin oid \<Rightarrow> OperationOrigin oid), v_name = iv_name v\<rparr>"

definition impl_dimension :: "nat \<times> string \<times> bool \<Rightarrow> dimension" where
  "impl_dimension p =
     (case p of (index, name, nn) \<Rightarrow>
        \<lparr>dim_id = ''id'' @ show_nat (Suc index), dim_name = name, dim_non_negative = nn,
         dim_provenance = ''impl''\<rparr>)"

definition impl_as_program :: "impl_program \<Rightarrow> program" where
  "impl_as_program p =
     (let ds = map impl_dimension (enumerate 0 (ip_dimensions p)) in
      \<lparr>dimensions = bmap_of_list (map (\<lambda>d. (dim_id d, d)) ds),
       dimension_names = bmap_of_list (map (\<lambda>d. (dim_name d, dim_id d)) ds),
       operations = bmap_map operation_to_spec (ip_operations p), operation_order = ip_order p,
       vals = bmap_map value_to_spec (ip_values p), parameters = ip_parameters p,
       constants = ip_constants p, outputs = bmap_map (\<lambda>_ out. iout_value out) (ip_outputs p),
       holes = [], constraints = ip_constraints p, obligations = [],
       numeric_contract_of = ip_contract p, frozen = True\<rparr>)"

subsection \<open>Regions\<close>

definition impl_value_type :: "impl_program \<Rightarrow> string \<Rightarrow> string \<Rightarrow> ty res" where
  "impl_value_type p msg i = rmap iv_ty (ok_or (impl_failure msg) (bmap_get (ip_values p) i))"

definition impl_region_value_type ::
    "impl_region_value \<Rightarrow> (string, ty) bmap \<Rightarrow> (string, ty) bmap \<Rightarrow> impl_program \<Rightarrow> ty res" where
  "impl_region_value_type v arguments locals p =
     (case v of
        ImplArgument name \<Rightarrow> ok_or (impl_failure ''unknown region argument `{name}`'') (bmap_get arguments name)
      | ImplLocal name \<Rightarrow> ok_or (impl_failure ''unknown or forward region local `{name}`'') (bmap_get locals name)
      | ImplCapture i \<Rightarrow> impl_value_type p ''unknown region capture `{value}`'' i)"

definition region_argument_types :: "impl_block_argument list \<Rightarrow> (string, ty) bmap res" where
  "region_argument_types args =
     rfold (\<lambda>m a. if bmap_contains m (iarg_name a) then impl_error ''duplicate region argument `{}`''
                  else Inr (bmap_insert (iarg_name a) (iarg_ty a) m)) [] args"

definition verify_region_operation ::
    "impl_program \<Rightarrow> constraint_facts \<Rightarrow> string bset \<Rightarrow> (string, ty) bmap \<Rightarrow> (string, ty) bmap \<Rightarrow>
     impl_region_operation \<Rightarrow> (string, ty) bmap res" where
  "verify_region_operation p facts captures arguments locals op =
     (if bmap_contains locals (iro_result op) \<or> bmap_contains arguments (iro_result op)
      then impl_error ''duplicate region result `{}`''
      else if iro_opcode op \<in> {Parameter, Constant, Map, ZipMap, Reduce}
      then impl_error ''nested higher-order or defining region opcode''
      else if list_ex (\<lambda>v. case v of ImplCapture i \<Rightarrow> \<not> bset_contains captures i | _ \<Rightarrow> False) (iro_operands op)
      then impl_error ''region uses undeclared capture `{value}`''
      else
        rbind (traverse (\<lambda>v. impl_region_value_type v arguments locals p) (iro_operands op)) (\<lambda>types.
        rbind (infer_primitive_with_facts (iro_opcode op) types (iro_attributes op) facts) (\<lambda>inferred.
          if inf_ty inferred \<noteq> iro_result_type op then impl_error ''region result type mismatch for `{}`''
          else Inr (bmap_insert (iro_result op) (inf_ty inferred) locals))))"

definition verify_region :: "impl_region \<Rightarrow> impl_program \<Rightarrow> constraint_facts \<Rightarrow> unit res" where
  "verify_region rg p facts =
     rbind (region_argument_types (irg_arguments rg)) (\<lambda>arguments.
     let captures = bset_of_list (irg_captures rg) in
     if length captures \<noteq> length (irg_captures rg) then impl_error ''duplicate region capture''
     else if list_ex (\<lambda>i. \<not> bmap_contains (ip_values p) i) (irg_captures rg)
     then impl_error ''unknown region capture `{capture}`''
     else
       rbind (rfold (verify_region_operation p facts captures arguments) [] (irg_operations rg)) (\<lambda>locals.
       rbind (impl_region_value_type (irg_yield_value rg) arguments locals p) (\<lambda>yielded.
         if yielded \<noteq> irg_yield_type rg then impl_error ''region yield type does not match its verified type''
         else Inr ())))"

definition infer_proposed_operation ::
    "impl_program \<Rightarrow> opcode \<Rightarrow> string list \<Rightarrow> (string, json) bmap \<Rightarrow> constant_value option \<Rightarrow>
     impl_region option \<Rightarrow> ty res" where
  "infer_proposed_operation p op operands attributes literal rg =
     (if op = Parameter then impl_error ''proposal fragments cannot create external parameters''
      else
        rbind (facts_from_program (impl_as_program p)) (\<lambda>facts.
        rbind (traverse (impl_value_type p ''proposal operand `{value}` is absent'') operands) (\<lambda>types.
        if op = Constant then
          (if operands \<noteq> [] \<or> rg \<noteq> None
           then impl_error ''proposal constant cannot have operands or a region''
           else rmap (\<lambda>c. Scalar (constant_scalar_type c))
                  (ok_or (impl_failure ''proposal constant requires an exact literal'') literal))
        else if op \<in> {Map, ZipMap, Reduce} then
          (if literal \<noteq> None
           then impl_error ''higher-order proposal operation cannot carry a scalar literal''
           else rbind (ok_or (impl_failure ''higher-order proposal operation requires a closed typed region'') rg) (\<lambda>r.
                rbind (verify_region r p facts) (\<lambda>_.
                rmap inf_ty (infer_higher_with_facts op types (region_to_spec r) facts))))
        else if literal \<noteq> None \<or> rg \<noteq> None
        then impl_error ''primitive proposal operation has an invalid literal or region''
        else rmap inf_ty (infer_primitive_with_facts op types attributes facts))))"

subsection \<open>The verifier\<close>

definition verify_source_link :: "impl_source_link \<Rightarrow> program \<Rightarrow> unit res" where
  "verify_source_link link source =
     rbind (case spec_operation link of
              None \<Rightarrow> Inr None
            | Some i \<Rightarrow> rmap Some (ok_or (impl_failure ''{context} references missing SpecIR operation `{operation}`'')
                                    (bmap_get (operations source) i))) (\<lambda>op.
     rbind (case spec_value link of
              None \<Rightarrow> Inr None
            | Some i \<Rightarrow> rmap Some (ok_or (impl_failure ''{context} references missing SpecIR value `{value}`'')
                                    (bmap_get (vals source) i))) (\<lambda>def.
     if (case (op, def) of (Some o', Some d) \<Rightarrow> v_origin d \<noteq> OperationOrigin (op_id o') | _ \<Rightarrow> False)
     then impl_error ''{context} SpecIR operation/value source link is inconsistent''
     else if spec_operation link = None \<and> spec_value link = None \<and> rewrite_rule link = None
     then impl_error ''{context} lacks source or trusted rewrite provenance''
     else Inr ()))"

definition literal_matches :: "ty \<Rightarrow> constant_value \<Rightarrow> bool" where
  "literal_matches t c \<longleftrightarrow>
     t = Scalar (constant_scalar_type c) \<or> (case (t, c) of (Scalar Index, CI32 _) \<Rightarrow> True | _ \<Rightarrow> False)"

text \<open>The type of an operation: declared for parameters, of the literal for constants, inferred otherwise.\<close>

definition verified_type :: "impl_program \<Rightarrow> constraint_facts \<Rightarrow> impl_operation \<Rightarrow> ty list \<Rightarrow> ty res" where
  "verified_type p facts op types =
     (if io_opcode op = Parameter then
        (if io_operands op \<noteq> [] \<or> io_region op \<noteq> None
         then impl_error ''parameter operation has operands or a region''
         else slice_index (io_result_types op) 0)
      else if io_opcode op = Constant then
        rbind (slice_index (io_results op) 0) (\<lambda>result.
        rbind (ok_or (impl_failure ''constant operation `{operation_id}` lacks a literal'')
                 (bmap_get (ip_constants p) result)) (\<lambda>c.
        rbind (slice_index (io_result_types op) 0) (\<lambda>t.
          if \<not> literal_matches t c then impl_error ''constant literal and result type differ'' else Inr t)))
      else if io_opcode op \<in> {Map, ZipMap, Reduce} then
        rbind (ok_or (impl_failure ''operation `{operation_id}` requires a region'') (io_region op)) (\<lambda>rg.
        rbind (verify_region rg p facts) (\<lambda>_.
        rmap inf_ty (infer_higher_with_facts (io_opcode op) types (region_to_spec rg) facts)))
      else if io_region op \<noteq> None
      then impl_error ''primitive operation `{operation_id}` unexpectedly has a region''
      else rmap inf_ty (infer_primitive_with_facts (io_opcode op) types (io_attributes op) facts))"

definition verify_result :: "impl_program \<Rightarrow> string \<Rightarrow> string \<Rightarrow> unit res" where
  "verify_result p oid result =
     rbind (ok_or (impl_failure ''result `{result}` has no value definition'') (bmap_get (ip_values p) result)) (\<lambda>v.
       if iv_id v \<noteq> result \<or> iv_origin v \<noteq> ImplOperationOrigin oid
       then impl_error ''result `{result}` has inconsistent SSA origin'' else Inr ())"

definition verify_operation ::
    "impl_program \<Rightarrow> program \<Rightarrow> constraint_facts \<Rightarrow> string bset \<Rightarrow> string \<Rightarrow> string bset res" where
  "verify_operation p source facts defined oid =
     rbind (ok_or (impl_failure ''operation order references missing `{operation_id}`'')
              (bmap_get (ip_operations p) oid)) (\<lambda>op.
     if io_id op \<noteq> oid then impl_error ''operation map key does not match embedded ID''
     else if length (io_results op) \<noteq> length (io_result_types op) \<or> io_results op = []
     then impl_error ''operation `{operation_id}` has invalid result arity''
     else if list_ex (\<lambda>i. \<not> bset_contains defined i) (io_operands op)
     then impl_error ''operation `{operation_id}` uses missing or forward value `{operand}`''
     else
       rbind (traverse (verify_result p oid) (io_results op)) (\<lambda>_.
       rbind (verify_source_link (io_source_link op) source) (\<lambda>_.
       rbind (traverse (impl_value_type p ''operand `{value}` is absent'') (io_operands op)) (\<lambda>types.
       rbind (verified_type p facts op types) (\<lambda>t.
       rbind (slice_index (io_results op) 0) (\<lambda>result.
         if io_result_types op \<noteq> [t] \<or>
            (case bmap_get (ip_values p) result of None \<Rightarrow> True | Some v \<Rightarrow> iv_ty v \<noteq> t)
         then impl_error ''operation `{operation_id}` result type failed inference''
         else Inr (fold bset_insert (io_results op) defined)))))))"

definition verify_parameter :: "impl_program \<Rightarrow> program \<Rightarrow> string \<times> string \<Rightarrow> unit res" where
  "verify_parameter p source q =
     rbind (ok_or (impl_failure ''parameter `{name}` references missing value'') (bmap_get (ip_values p) (snd q))) (\<lambda>def.
     if (case iv_origin def of ImplOperationOrigin oid \<Rightarrow>
           (case bmap_get (ip_operations p) oid of None \<Rightarrow> True | Some op \<Rightarrow> io_opcode op \<noteq> Parameter))
     then impl_error ''parameter `{name}` is not defined by a parameter operation''
     else
       rbind (ok_or (impl_failure ''SpecIR parameter `{name}` is missing'')
                (Option.bind (bmap_get (parameters source) (fst q)) (bmap_get (vals source)))) (\<lambda>sv.
         if iv_ty def \<noteq> v_ty sv then impl_error ''ImplIR parameter `{name}` type differs from SpecIR'' else Inr ()))"

definition verify_output :: "impl_program \<Rightarrow> program \<Rightarrow> string \<times> impl_output \<Rightarrow> unit res" where
  "verify_output p source q =
     (if iout_name (snd q) \<noteq> fst q then impl_error ''output map key and embedded name differ''
      else
        rbind (impl_value_type p ''output `{name}` references missing value'' (iout_value (snd q))) (\<lambda>t.
        if t \<noteq> iout_ty (snd q) then impl_error ''output `{name}` type is stale''
        else
          rbind (ok_or (impl_failure ''SpecIR output `{name}` is missing'')
                   (Option.bind (bmap_get (outputs source) (fst q)) (bmap_get (vals source)))) (\<lambda>sv.
            if t \<noteq> v_ty sv then impl_error ''ImplIR output `{name}` type differs from SpecIR'' else Inr ())))"

definition verify_interface :: "impl_program \<Rightarrow> program \<Rightarrow> unit res" where
  "verify_interface p source =
     (if length (ip_order p) \<noteq> length (ip_operations p) \<or>
         length (bset_of_list (ip_order p)) \<noteq> length (ip_order p)
      then impl_error ''operation order must contain every ImplIR operation exactly once''
      else if ip_outputs p = [] then impl_error ''ImplIR needs at least one external output''
      else if ip_dimensions p \<noteq> dimension_flags source \<or> ip_constraints p \<noteq> constraints source \<or>
              ip_contract p \<noteq> numeric_contract_of source
      then impl_error ''ImplIR logical dimensions, constraints, or NumericContract differ from SpecIR''
      else if bset_of_list (bmap_keys (ip_parameters p)) \<noteq> bset_of_list (bmap_keys (parameters source)) \<or>
              bset_of_list (bmap_keys (ip_outputs p)) \<noteq> bset_of_list (bmap_keys (outputs source))
      then impl_error ''ImplIR external parameter/output names differ from SpecIR''
      else Inr ())"

definition verify_impl :: "impl_program \<Rightarrow> program \<Rightarrow> resource_limits \<Rightarrow> unit res" where
  "verify_impl p source limits =
     rbind (against limits ImplOperations (length (ip_operations p)) ''ImplIR verification'') (\<lambda>_.
     rbind (against limits ImplValues (length (ip_values p)) ''ImplIR verification'') (\<lambda>_.
     rbind (verify_interface p source) (\<lambda>_.
     rbind (facts_from_program (impl_as_program p)) (\<lambda>facts.
     rbind (rfold (verify_operation p source facts) [] (ip_order p)) (\<lambda>defined.
     if length defined \<noteq> length (ip_values p)
     then impl_error ''ImplIR contains values outside operation results''
     else
       rbind (traverse (\<lambda>v. verify_source_link (iv_source_link v) source) (bmap_values (ip_values p))) (\<lambda>_.
       rbind (traverse (verify_parameter p source) (ip_parameters p)) (\<lambda>_.
       rmap (\<lambda>_. ()) (traverse (verify_output p source) (ip_outputs p)))))))))"

subsection \<open>Canonical form and hash\<close>

record impl_canonical_program =
  icp_codec :: string
  icp_version :: nat
  icp_graph :: canonical_program

record impl_encoders = encoders +
  encode_impl :: "impl_canonical_program \<Rightarrow> string"

definition impl_hash_domain :: string where
  "impl_hash_domain = ''agentir.impl.semantic.v1'' @ [CHR 0x00]"

definition canonicalize_impl_with_limit ::
    "impl_encoders \<Rightarrow> impl_program \<Rightarrow> nat \<Rightarrow> (impl_canonical_program \<times> string \<times> string) res" where
  "canonicalize_impl_with_limit enc p max_bytes =
     rbind (canonicalize_spec_with_limit (encoders.truncate enc) (impl_as_program p) max_bytes) (\<lambda>(graph, _, _).
     let canonical = \<lparr>icp_codec = ''agentir.impl.semantic'', icp_version = 1, icp_graph = graph\<rparr>;
         bytes = encode_impl enc canonical in
     rbind (ensure CandidateCanonicalBytes max_bytes (length bytes) ''ImplIR semantic canonicalization'') (\<lambda>_.
       Inr (canonical, bytes, sha256_hex enc (impl_hash_domain @ bytes))))"

definition impl_hash :: "impl_encoders \<Rightarrow> impl_program \<Rightarrow> string res" where
  "impl_hash enc p =
     rmap (\<lambda>(_, _, h). h) (canonicalize_impl_with_limit enc p (candidate_canonical_bytes hard_safety_caps))"

end
