(* ===== verification/Rewrites.thy ===== *)
theory Rewrites
  imports Impl_IR Transactions Runtime
begin

text \<open>
  The trusted rewrites of implementation graphs (\<open>agentir-core/src/candidate.rs\<close>): the registry,
  structural locators, the matchers with their side conditions, and the transformations
  \<open>apply_known_rewrite\<close> performs. Their soundness is in \<open>Rewrite_Proofs\<close>.
\<close>

subsection \<open>The registry\<close>

definition prune_unreachable_rule :: string where
  "prune_unreachable_rule = ''prune_unreachable_impl_nodes''"

definition eliminate_noop_cast_rule :: string where
  "eliminate_noop_cast_rule = ''eliminate_noop_cast''"

definition fold_scalar_constants_rule :: string where
  "fold_scalar_constants_rule = ''fold_defined_scalar_constants''"

record known_rewrite =
  kr_id :: string
  kr_pattern :: string
  kr_side_conditions :: "string list"

definition cast_conditions :: "string list" where
  "cast_conditions = [''source_type == target_type'']"

definition fold_conditions :: "string list" where
  "fold_conditions = [''all operands are exact scalar constants'', ''reference evaluation is defined'']"

definition prune_conditions :: "string list" where
  "prune_conditions = [''target and removed nodes are output-unreachable'']"

definition known_rewrite_rules :: "known_rewrite list" where
  "known_rewrite_rules =
     [\<lparr>kr_id = eliminate_noop_cast_rule,
       kr_pattern = ''cast(source) with fully identical source, result, and target types'',
       kr_side_conditions = cast_conditions\<rparr>,
      \<lparr>kr_id = fold_scalar_constants_rule,
       kr_pattern = ''defined scalar add/sub/mul/div/fma/compare/cast/select'',
       kr_side_conditions = fold_conditions\<rparr>,
      \<lparr>kr_id = prune_unreachable_rule,
       kr_pattern = ''ImplIR operations unreachable from parameters and outputs'',
       kr_side_conditions = prune_conditions\<rparr>]"

definition known_rewrite_rule :: "string \<Rightarrow> known_rewrite option" where
  "known_rewrite_rule i = find (\<lambda>r. kr_id r = i) known_rewrite_rules"

record rewrite_locator =
  operation_order_index :: nat
  locator_opcode :: string

record production_match =
  pm_rule :: string
  pm_target :: string
  pm_locator :: rewrite_locator
  pm_side_conditions :: "string list"
  pm_reason_code :: string

abbreviation not_applicable :: "string \<Rightarrow> failure" where
  "not_applicable m \<equiv> Fail (agent_error_new RewriteNotApplicable m)"

abbreviation precondition_failed :: "string \<Rightarrow> failure" where
  "precondition_failed m \<equiv> Fail (agent_error_new RewritePreconditionFailed m)"

definition resolve_rewrite_locator :: "impl_program \<Rightarrow> rewrite_locator \<Rightarrow> string res" where
  "resolve_rewrite_locator p l =
     rbind (ok_or (precondition_failed ''rewrite target locator is outside operation order'')
              (if operation_order_index l < length (ip_order p) then Some (ip_order p ! operation_order_index l)
               else None)) (\<lambda>target.
     rbind (ok_or (impl_failure ''rewrite target locator resolves to a missing operation'')
              (bmap_get (ip_operations p) target)) (\<lambda>op.
       if show_opcode (io_opcode op) \<noteq> locator_opcode l
       then Inl (precondition_failed ''rewrite target locator opcode is stale'') else Inr target))"

subsection \<open>Reachable operations\<close>

text \<open>
  Two sets are threaded: the operations on the current path and those that are done. The path
  only holds operations of the graph, so it is never longer than their number.
\<close>

definition impl_captures :: "impl_operation \<Rightarrow> string list" where
  "impl_captures op = (case io_region op of None \<Rightarrow> [] | Some rg \<Rightarrow> irg_captures rg)"

fun visit_reachable ::
    "impl_program \<Rightarrow> nat \<Rightarrow> string \<Rightarrow> string bset \<times> string bset \<Rightarrow> (string bset \<times> string bset) res" where
  "visit_reachable p 0 i st = Inl Diverge"
| "visit_reachable p (Suc fuel) i st =
     rbind (ok_or (impl_failure ''reachable value `{value}` is missing'') (bmap_get (ip_values p) i)) (\<lambda>def.
     case iv_origin def of ImplOperationOrigin oid \<Rightarrow>
       if bset_contains (snd st) oid then Inr st
       else if bset_contains (fst st) oid then impl_error ''ImplIR contains a cycle''
       else
         rbind (ok_or (impl_failure ''reachable operation `{operation_id}` is missing'') (bmap_get (ip_operations p) oid)) (\<lambda>op.
         rbind (rfold (\<lambda>st operand. visit_reachable p fuel operand st) (bset_insert oid (fst st), snd st)
                  (io_operands op @ impl_captures op)) (\<lambda>st2.
           Inr (bset_remove oid (fst st2), bset_insert oid (snd st2)))))"

definition reachable_fuel :: "impl_program \<Rightarrow> nat" where
  "reachable_fuel p = Suc (length (ip_operations p))"

definition reachable_operations :: "impl_program \<Rightarrow> string bset res" where
  "reachable_operations p =
     rmap snd (rfold (\<lambda>st i. visit_reachable p (reachable_fuel p) i st) ([], [])
       (bmap_values (ip_parameters p) @ map iout_value (bmap_values (ip_outputs p))))"

subsection \<open>Casts without effect\<close>

definition noop_cast_side_conditions :: "impl_program \<Rightarrow> string \<Rightarrow> string list res" where
  "noop_cast_side_conditions p target =
     rbind (ok_or (not_applicable ''rewrite target `{target}` does not exist'') (bmap_get (ip_operations p) target)) (\<lambda>op.
     if io_opcode op \<noteq> Cast \<or> length (io_operands op) \<noteq> 1
     then Inl (not_applicable ''target is not a unary cast'')
     else
       rbind (slice_index (io_operands op) 0) (\<lambda>i.
       rbind (ok_or (impl_failure ''cast source missing'') (bmap_get (ip_values p) i)) (\<lambda>src.
       rbind (slice_index (io_results op) 0) (\<lambda>j.
       rbind (ok_or (impl_failure ''cast result missing'') (bmap_get (ip_values p) j)) (\<lambda>res.
       rbind (case Option.bind (bmap_get (io_attributes op) ''target_type'') as_str of
                None \<Rightarrow> Inl (not_applicable ''cast has no valid target_type'')
              | Some s \<Rightarrow> (case parse_type s of
                    Inl _ \<Rightarrow> Inl (not_applicable ''cast has no valid target_type'') | Inr t \<Rightarrow> Inr t)) (\<lambda>t.
         if iv_ty src \<noteq> iv_ty res \<or> t \<noteq> Scalar (element_type (iv_ty src))
         then Inl (not_applicable ''cast source and target types are not fully identical'')
         else Inr cast_conditions))))))"

definition rename_value :: "string \<Rightarrow> string \<Rightarrow> string \<Rightarrow> string" where
  "rename_value from to i = (if i = from then to else i)"

fun rename_region_value :: "string \<Rightarrow> string \<Rightarrow> impl_region_value \<Rightarrow> impl_region_value" where
  "rename_region_value from to (ImplCapture i) = ImplCapture (rename_value from to i)"
| "rename_region_value from to v = v"

definition rename_region :: "string \<Rightarrow> string \<Rightarrow> impl_region \<Rightarrow> impl_region" where
  "rename_region from to rg =
     rg\<lparr>irg_captures := map (rename_value from to) (irg_captures rg),
        irg_operations := map (\<lambda>op. op\<lparr>iro_operands := map (rename_region_value from to) (iro_operands op)\<rparr>)
          (irg_operations rg),
        irg_yield_value := rename_region_value from to (irg_yield_value rg)\<rparr>"

definition rename_operation :: "string \<Rightarrow> string \<Rightarrow> impl_operation \<Rightarrow> impl_operation" where
  "rename_operation from to op =
     op\<lparr>io_operands := map (rename_value from to) (io_operands op),
        io_region := map_option (rename_region from to) (io_region op)\<rparr>"

definition replace_value :: "impl_program \<Rightarrow> string \<Rightarrow> string \<Rightarrow> impl_program" where
  "replace_value p from to =
     p\<lparr>ip_operations := bmap_map (\<lambda>_. rename_operation from to) (ip_operations p),
       ip_outputs := bmap_map (\<lambda>_ out.
          if iout_value out = from
          then out\<lparr>iout_value := to,
                   iout_ty := (case bmap_get (ip_values p) to of None \<Rightarrow> iout_ty out | Some v \<Rightarrow> iv_ty v)\<rparr>
          else out) (ip_outputs p)\<rparr>"

subsection \<open>Folding of scalar constants\<close>

datatype fold_value = FoldBool bool | FoldI32 i32 | FoldF32 fp

definition fold_operand :: "constant_value \<Rightarrow> ty \<Rightarrow> fold_value res" where
  "fold_operand c t =
     (case (c, t) of
        (CBool b, Scalar Bool) \<Rightarrow> Inr (FoldBool b)
      | (CI32 i, Scalar I32) \<Rightarrow> Inr (FoldI32 i)
      | (CI32 i, Scalar Index) \<Rightarrow> Inr (FoldI32 i)
      | (CF32 _, Scalar F32) \<Rightarrow>
          rbind (ok_or (precondition_failed ''invalid f32 constant bits'') (as_f32 c)) (\<lambda>x.
            if fp_finite x then Inr (FoldF32 x)
            else Inl (precondition_failed ''non-finite f32 payload is not foldable in Stage 2A''))
      | _ \<Rightarrow> Inl (not_applicable ''constant operand type does not match its value''))"

definition bool_compare :: "string \<Rightarrow> bool \<Rightarrow> bool \<Rightarrow> bool res" where
  "bool_compare predicate l r =
     (if predicate = ''eq'' then Inr (l = r)
      else if predicate = ''ne'' then Inr (l \<noteq> r)
      else Inl (precondition_failed ''bool comparison supports only eq/ne''))"

text \<open>\<open>ordering_compare\<close> for the comparisons \<open>==\<close>, \<open><\<close>, \<open><=\<close>, \<open>>\<close>, \<open>>=\<close> of its type.\<close>

definition ordering_compare :: "string \<Rightarrow> bool \<Rightarrow> bool \<Rightarrow> bool \<Rightarrow> bool \<Rightarrow> bool \<Rightarrow> bool res" where
  "ordering_compare predicate eq lt le gt ge =
     (if predicate = ''eq'' then Inr eq
      else if predicate = ''ne'' then Inr (\<not> eq)
      else if predicate = ''lt'' then Inr lt
      else if predicate = ''le'' then Inr le
      else if predicate = ''gt'' then Inr gt
      else if predicate = ''ge'' then Inr ge
      else Inl (precondition_failed ''unknown comparison predicate''))"

definition fold_checked :: "int \<Rightarrow> string \<Rightarrow> fold_value res" where
  "fold_checked i msg = rmap FoldI32 (ok_or (precondition_failed msg) (i32_try_from i))"

definition fold_arithmetic :: "opcode \<Rightarrow> fold_value list \<Rightarrow> fold_value res" where
  "fold_arithmetic op vs =
     (case (op, vs) of
        (Add, [FoldI32 l, FoldI32 r]) \<Rightarrow> fold_checked (sint l + sint r) ''i32 addition overflow''
      | (Sub, [FoldI32 l, FoldI32 r]) \<Rightarrow> fold_checked (sint l - sint r) ''i32 subtraction overflow''
      | (Mul, [FoldI32 l, FoldI32 r]) \<Rightarrow> fold_checked (sint l * sint r) ''i32 multiplication overflow''
      | (Div, [FoldI32 l, FoldI32 r]) \<Rightarrow>
          if r = 0 then Inl (precondition_failed ''division by zero is not a defined fold'')
          else fold_checked (sint l sdiv sint r) ''i32 division overflow''
      | (Div, [FoldF32 l, FoldF32 r]) \<Rightarrow>
          if fp_zero r then Inl (precondition_failed ''division by zero is not a defined fold'')
          else Inr (FoldF32 (fp_div binary32 l r))
      | (Add, [FoldF32 l, FoldF32 r]) \<Rightarrow> Inr (FoldF32 (fp_add binary32 l r))
      | (Sub, [FoldF32 l, FoldF32 r]) \<Rightarrow> Inr (FoldF32 (fp_sub binary32 l r))
      | (Mul, [FoldF32 l, FoldF32 r]) \<Rightarrow> Inr (FoldF32 (fp_mul binary32 l r))
      | (Fma, [FoldI32 l, FoldI32 r, FoldI32 a]) \<Rightarrow>
          (case i32_try_from (sint l * sint r) of
             None \<Rightarrow> Inl (precondition_failed ''i32 fma overflow'')
           | Some m \<Rightarrow> fold_checked (sint m + sint a) ''i32 fma overflow'')
      | (Fma, [FoldF32 l, FoldF32 r, FoldF32 a]) \<Rightarrow> Inr (FoldF32 (fp_fma binary32 l r a))
      | _ \<Rightarrow> Inl (not_applicable ''constant operand kinds do not match the operation''))"

definition fold_predicate :: "(string, json) bmap \<Rightarrow> string" where
  "fold_predicate attributes =
     (case Option.bind (bmap_get attributes ''predicate'') as_str of None \<Rightarrow> ''eq'' | Some s \<Rightarrow> s)"

definition fold_compare :: "string \<Rightarrow> fold_value list \<Rightarrow> fold_value res" where
  "fold_compare predicate vs =
     (case vs of
        [FoldBool l, FoldBool r] \<Rightarrow> rmap FoldBool (bool_compare predicate l r)
      | [FoldI32 l, FoldI32 r] \<Rightarrow>
          rmap FoldBool (ordering_compare predicate (l = r) (sint l < sint r) (sint l \<le> sint r)
            (sint r < sint l) (sint r \<le> sint l))
      | [FoldF32 l, FoldF32 r] \<Rightarrow>
          rmap FoldBool (ordering_compare predicate (fp_eq l r) (fp_lt l r) (fp_le l r) (fp_lt r l) (fp_le r l))
      | _ \<Rightarrow> Inl (not_applicable ''constant operand kinds do not match the operation''))"

definition fold_cast :: "string option \<Rightarrow> fold_value list \<Rightarrow> fold_value res" where
  "fold_cast target vs =
     (case vs of
        [FoldI32 i] \<Rightarrow>
          if target = Some ''i32'' \<or> target = Some ''index'' then Inr (FoldI32 i)
          else if target = Some ''f32'' then Inr (FoldF32 (fp_of_int binary32 (sint i)))
          else Inl (precondition_failed ''unsupported constant cast'')
      | [FoldF32 x] \<Rightarrow>
          if target = Some ''f32'' then Inr (FoldF32 x)
          else if (target = Some ''i32'' \<or> target = Some ''index'') \<and>
                  fp_le (fp_of_int binary32 (- 2147483648)) x \<and> fp_le x (fp_of_int binary32 2147483647)
          then Inr (FoldI32 (word_of_int (fp_to_i32 x)))
          else Inl (precondition_failed ''unsupported or out-of-range constant cast'')
      | [FoldBool b] \<Rightarrow>
          if target = Some ''bool'' then Inr (FoldBool b)
          else Inl (not_applicable ''constant operand kinds do not match the operation'')
      | _ \<Rightarrow> Inl (not_applicable ''constant operand kinds do not match the operation''))"

definition fold_select :: "fold_value list \<Rightarrow> fold_value res" where
  "fold_select vs =
     (case vs of
        [FoldBool c, yes, no] \<Rightarrow> Inr (if c then yes else no)
      | _ \<Rightarrow> Inl (not_applicable ''constant operand kinds do not match the operation''))"

definition fold_result :: "fold_value \<Rightarrow> constant_value res" where
  "fold_result v =
     (case v of
        FoldBool b \<Rightarrow> Inr (CBool b)
      | FoldI32 i \<Rightarrow> Inr (CI32 i)
      | FoldF32 x \<Rightarrow>
          if fp_finite x then Inr (CF32 (''0x'' @ show_hex 8 (f32_to_bits x)))
          else Inl (precondition_failed ''non-finite f32 result is not a defined Stage 2A fold''))"

definition fold_values :: "opcode \<Rightarrow> (string, json) bmap \<Rightarrow> fold_value list \<Rightarrow> fold_value res" where
  "fold_values op attributes vs =
     (if op = Compare then fold_compare (fold_predicate attributes) vs
      else if op = Select then fold_select vs
      else if op = Cast then fold_cast (Option.bind (bmap_get attributes ''target_type'') as_str) vs
      else fold_arithmetic op vs)"

definition fold_operand_of :: "impl_program \<Rightarrow> string \<Rightarrow> fold_value res" where
  "fold_operand_of p i =
     rbind (ok_or (impl_failure ''operand missing'') (bmap_get (ip_values p) i)) (\<lambda>v.
     rbind (ok_or (not_applicable ''not every operand is a scalar constant'') (bmap_get (ip_constants p) i)) (\<lambda>c.
       fold_operand c (iv_ty v)))"

definition fold_operation :: "impl_program \<Rightarrow> string \<Rightarrow> constant_value res" where
  "fold_operation p target =
     rbind (ok_or (not_applicable ''rewrite target `{target}` does not exist'') (bmap_get (ip_operations p) target)) (\<lambda>op.
     if io_opcode op \<notin> {Add, Sub, Mul, Div, Fma, Compare, Cast, Select} \<or> length (io_results op) \<noteq> 1
     then Inl (not_applicable ''target opcode is not a foldable scalar operation'')
     else if (case io_result_types op of Scalar _ # _ \<Rightarrow> False | _ \<Rightarrow> True)
     then Inl (not_applicable ''constant folding is restricted to scalar results'')
     else
       rbind (traverse (fold_operand_of p) (io_operands op)) (\<lambda>vs.
       rbind (fold_values (io_opcode op) (io_attributes op) vs) fold_result))"

subsection \<open>Applying a rewrite\<close>

text \<open>\<open>json!(constant)\<close>: the derived encoding, tagged by \<open>type\<close>.\<close>

definition folded_json :: "constant_value \<Rightarrow> json" where
  "folded_json c =
     (case c of
        CBool b \<Rightarrow> json_object [(''type'', JString ''bool''), (''value'', JBool b)]
      | CI32 i \<Rightarrow> json_object [(''type'', JString ''i32''),
          (''value'', JNumber (if 0 \<le> sint i then PosInt (nat (sint i)) else NegInt (sint i)))]
      | CF32 bits \<Rightarrow> json_object [(''type'', JString ''f32''), (''bits'', JString bits)])"

definition retain :: "('k \<Rightarrow> bool) \<Rightarrow> ('k, 'v) bmap \<Rightarrow> ('k, 'v) bmap" where
  "retain keep m = filter (\<lambda>(k, _). keep k) m"

definition prune_unreachable :: "impl_program \<Rightarrow> string \<Rightarrow> impl_program res" where
  "prune_unreachable p target =
     rbind (reachable_operations p) (\<lambda>reached.
     if bset_contains reached target \<or> \<not> bmap_contains (ip_operations p) target
     then Inl (not_applicable ''target is not an unreachable implementation operation'')
     else
       let removed = filter (\<lambda>oid. \<not> bset_contains reached oid) (bmap_keys (ip_operations p));
           removed_values = map fst (filter (\<lambda>(_, v). case iv_origin v of ImplOperationOrigin oid \<Rightarrow>
             bset_contains removed oid) (ip_values p)) in
         Inr (p\<lparr>ip_operations := retain (\<lambda>oid. \<not> bset_contains removed oid) (ip_operations p),
                ip_order := filter (\<lambda>oid. \<not> bset_contains removed oid) (ip_order p),
                ip_values := retain (\<lambda>i. \<not> bset_contains removed_values i) (ip_values p),
                ip_constants := retain (\<lambda>i. \<not> bset_contains removed_values i) (ip_constants p)\<rparr>))"

definition eliminate_noop_cast :: "impl_program \<Rightarrow> string \<Rightarrow> (impl_program \<times> string list) res" where
  "eliminate_noop_cast p target =
     rbind (noop_cast_side_conditions p target) (\<lambda>side_conditions.
     rbind (ok_or Panic (bmap_get (ip_operations p) target)) (\<lambda>op.
     rbind (slice_index (io_operands op) 0) (\<lambda>src.
     rbind (slice_index (io_results op) 0) (\<lambda>result.
     let q = replace_value p result src in
       Inr (q\<lparr>ip_operations := bmap_remove target (ip_operations q),
              ip_order := filter (\<lambda>oid. oid \<noteq> target) (ip_order q),
              ip_values := bmap_remove result (ip_values q),
              ip_constants := bmap_remove result (ip_constants q)\<rparr>, side_conditions)))))"

definition fold_scalar_constants :: "impl_program \<Rightarrow> string \<Rightarrow> impl_program res" where
  "fold_scalar_constants p target =
     rbind (fold_operation p target) (\<lambda>c.
     rbind (ok_or Panic (bmap_get (ip_operations p) target)) (\<lambda>op.
     rbind (slice_index (io_results op) 0) (\<lambda>result.
     let op' = op\<lparr>io_opcode := Constant, io_operands := [], io_attributes := [(''value'', folded_json c)],
                  io_region := None,
                  io_source_link := (io_source_link op)\<lparr>rewrite_rule := Some fold_scalar_constants_rule\<rparr>\<rparr> in
       Inr (p\<lparr>ip_operations := bmap_insert target op' (ip_operations p),
              ip_constants := bmap_insert result c (ip_constants p)\<rparr>))))"

definition apply_known_rewrite :: "impl_program \<Rightarrow> string \<Rightarrow> string \<Rightarrow> (impl_program \<times> string list) res" where
  "apply_known_rewrite p rule target =
     rbind (ok_or (not_applicable ''unknown known-rewrite rule `{rule}`'') (known_rewrite_rule rule)) (\<lambda>descriptor.
     if kr_id descriptor = prune_unreachable_rule
     then rmap (\<lambda>q. (q, prune_conditions)) (prune_unreachable p target)
     else if kr_id descriptor = eliminate_noop_cast_rule then eliminate_noop_cast p target
     else if kr_id descriptor = fold_scalar_constants_rule
     then rmap (\<lambda>q. (q, fold_conditions)) (fold_scalar_constants p target)
     else err EvidenceInvalid ''known-rewrite registry entry `{rule}` has no implementation'')"

subsection \<open>Enumerating matches\<close>

text \<open>Any error of a matcher skips its target; a panic would not be caught.\<close>

definition attempt :: "'a res \<Rightarrow> 'a option res" where
  "attempt r = (case r of Inr a \<Rightarrow> Inr (Some a) | Inl (Fail _) \<Rightarrow> Inr None | Inl f \<Rightarrow> Inl f)"

definition match_rule ::
    "impl_program \<Rightarrow> string bset \<Rightarrow> string \<Rightarrow> string \<Rightarrow> (string list \<times> string) option res" where
  "match_rule p reached rule target =
     (if rule = prune_unreachable_rule \<and> \<not> bset_contains reached target
      then Inr (Some (prune_conditions, ''UNREACHABLE_IMPL_NODE''))
      else if rule = eliminate_noop_cast_rule
      then rmap (map_option (\<lambda>side. (side, ''IDENTICAL_CAST_TYPES''))) (attempt (noop_cast_side_conditions p target))
      else if rule = fold_scalar_constants_rule
      then rmap (map_option (\<lambda>_. (fold_conditions, ''DEFINED_SCALAR_CONSTANT_FOLD''))) (attempt (fold_operation p target))
      else Inr None)"

definition match_target ::
    "impl_program \<Rightarrow> resource_limits \<Rightarrow> string bset \<Rightarrow> string \<Rightarrow> production_match list \<Rightarrow> nat \<times> string \<Rightarrow>
     production_match list res" where
  "match_target p limits reached rule found it =
     (let (index, target) = it in
      rbind (ok_or (impl_failure ''operation order references a missing rewrite target'')
               (bmap_get (ip_operations p) target)) (\<lambda>op.
      rbind (match_rule p reached rule target) (\<lambda>m.
      case m of
        None \<Rightarrow> Inr found
      | Some (side, reason) \<Rightarrow>
          rbind (against limits EqualityMatchesPerNode (length found + 1)
                   ''production rewrite enumeration for one equality node'') (\<lambda>_.
            Inr (found @ [\<lparr>pm_rule = rule, pm_target = target,
                   pm_locator = \<lparr>operation_order_index = index, locator_opcode = show_opcode (io_opcode op)\<rparr>,
                   pm_side_conditions = side, pm_reason_code = reason\<rparr>])))))"

definition production_rewrite_matches :: "impl_program \<Rightarrow> resource_limits \<Rightarrow> production_match list res" where
  "production_rewrite_matches p limits =
     rbind (reachable_operations p) (\<lambda>reached.
       rfold (\<lambda>found rule.
          rfold (match_target p limits reached (kr_id rule)) found (enumerate 0 (ip_order p)))
         [] known_rewrite_rules)"

end
