(* ===== verification/Candidates.thy ===== *)
theory Candidates
  imports Rewrites
begin

text \<open>
  The data of the candidate forest (\<open>agentir-core/src/candidate.rs\<close>): candidate branches with
  immutable revisions, the records of their proofs and evidence, speculative proposals and their
  proof debt, transactions, events and reports. Identifiers and hashes are strings. The two
  equality records of a revision are declared here because a revision holds them.
\<close>

subsection \<open>States and relations\<close>

datatype candidate_state =
    CsDraft | CsWellTyped | CsEquivalent | CsSpeculative | CsGuarded | CsSealed | CsRejected

datatype relation_kind = EquivalentToSpec | RefinesSpecWithinTolerance

datatype equivalence_status = EqOpen | EqProved | EqGuarded | EqRefuted | EqUnsupported

record equivalence_obligation =
  eo_id :: string
  eo_relation :: relation_kind
  eo_spec_hash :: string
  eo_candidate :: string
  eo_revision :: string
  eo_impl_hash :: string
  eo_status :: equivalence_status

subsection \<open>Evidence\<close>

datatype evidence_class = Correctness | Confidence

datatype evidence_kind =
    IdentityLowering | KnownRewriteCertificate | CompositionalEquivalence | DifferentialTest
    | PropertyTest | CanonicalIdentityValidation | RecognizedKnownRewrite
    | GuardedRewriteCertificate | CompositionalSpeculativeDischarge | SpeculativeDifferentialTest
    | SpeculativePropertyTest | CounterexampleSearch | EqualityMembership | EqualityMaterialization

datatype evidence_result = EvPassed | EvFailed

record evidence_provenance =
  compiler_version :: string
  candidate_semantics :: nat
  impl_semantics :: nat

record evidence_record =
  ev_id :: string
  ev_class :: evidence_class
  ev_kind :: evidence_kind
  ev_spec_hash :: string
  ev_candidate :: string
  ev_revision :: string
  ev_input_impl_hash :: "string option"
  ev_output_impl_hash :: string
  ev_method :: string
  ev_parameters :: "(string, json) bmap"
  ev_result :: evidence_result
  ev_counterexample :: "json option"
  ev_provenance :: evidence_provenance

record equivalence_certificate =
  ct_rule :: string
  ct_before_impl_hash :: "string option"
  ct_after_impl_hash :: string
  ct_targets :: "string list"
  ct_side_conditions :: "string list"
  ct_impl_semantics :: nat
  ct_evidence :: string

subsection \<open>Speculative proposals\<close>

datatype proposal_classification = PcIllegal | PcLegal | PcConditional | PcUnknown | PcUnsupported

record proposal_input =
  pi_bind :: string
  pi_value :: string

record proposal_operation =
  po_bind :: string
  po_opcode :: string
  po_operands :: "string list"
  po_attributes :: "(string, json) bmap"
  po_constant :: "constant_value option"
  po_region :: "impl_region option"

record impl_fragment =
  pf_inputs :: "proposal_input list"
  pf_operations :: "proposal_operation list"
  pf_result :: string

record speculative_proposal =
  sp_target :: string
  sp_replacement :: impl_fragment
  sp_expected_before_impl_hash :: string
  sp_allow_speculative :: bool
  sp_claimed_rule :: "string option"

datatype debt_status = DebtOpen | DebtProved | DebtGuarded | DebtRefuted | DebtUnsupported

datatype guard_predicate = I32NonZero string

record guarded_fallback =
  gf_guard :: guard_predicate
  gf_candidate :: string
  gf_revision :: string
  gf_candidate_hash :: string
  gf_failure_strategy :: string
  gf_evidence :: string

record proof_frontier =
  fr_candidate :: string
  fr_revision :: string
  fr_terminal_impl_hash :: string

record proof_debt_item =
  pd_id :: string
  pd_proposal :: string
  pd_proposal_hash :: string
  pd_base_revision :: string
  pd_before_impl_hash :: string
  pd_after_impl_hash :: string
  pd_target :: string
  pd_boundary :: "string list"
  pd_relation :: relation_kind
  pd_status :: debt_status
  pd_discharge_methods :: "string list"
  pd_evidence :: "string list"
  pd_first_counterexample :: "json option"
  pd_origin_event :: nat

record proposal_record =
  pr_id :: string
  pr_proposal_hash :: string
  pr_candidate :: string
  pr_base_revision :: string
  pr_accepted_revision :: string
  pr_classification :: proposal_classification
  pr_proposal :: speculative_proposal
  pr_after_impl_hash :: string
  pr_allocated_operations :: "string list"
  pr_allocated_values :: "string list"
  pr_yielded_value :: string

datatype validation_result =
    TvCanonicalIdentity | TvRecognizedRewrite string "string list"
    | TvGuardedSelfDivision guarded_fallback | TvUnsupported | TvRefuted json

record translation_record =
  tv_proposal :: string
  tv_obligation :: string
  tv_revision :: string
  tv_validator_id :: string
  tv_validator_version :: nat
  tv_result :: validation_result
  tv_evidence :: "string option"

subsection \<open>Equality provenance\<close>

record membership_proof =
  mp_space :: string
  mp_revision :: string
  mp_equality_hash :: string
  mp_root_impl_hash :: string
  mp_target_impl_hash :: string
  mp_path_digest :: string
  mp_edges :: "string list"
  mp_obligation :: string
  mp_proposal :: string
  mp_evidence :: string

record materialization_record =
  mr_space :: string
  mr_revision :: string
  mr_equality_hash :: string
  mr_target_node :: string
  mr_path_digest :: string
  mr_anchor_candidate :: string
  mr_anchor_revision :: string
  mr_candidate :: string
  mr_candidate_revision :: string

subsection \<open>Candidates\<close>

record candidate_revision =
  cr_id :: string
  cr_parents :: "string list"
  cr_program :: impl_program
  cr_impl_hash :: string
  cr_candidate_hash :: string
  cr_hash_version :: nat
  cr_state :: candidate_state
  cr_equivalence :: equivalence_obligation
  cr_proof_chain :: "equivalence_certificate list"
  cr_evidence :: "string list"
  cr_proof_frontier :: "proof_frontier option"
  cr_proof_debt :: "proof_debt_item list"
  cr_translations :: "translation_record list"
  cr_fallback :: "guarded_fallback option"
  cr_memberships :: "membership_proof list"
  cr_materializations :: "materialization_record list"

record candidate =
  cd_id :: string
  cd_spec_revision :: string
  cd_spec_hash :: string
  cd_root_revision :: string
  cd_head :: string
  cd_revisions :: "(string, candidate_revision) bmap"
  cd_parent_candidate :: "string option"
  cd_forked_from :: "string option"

datatype candidate_action = ApplyKnownRewrite string string "string option"

record candidate_transaction =
  ctx_candidate :: string
  ctx_base_revision :: string
  ctx_actions :: "candidate_action list"

record differential_validation =
  dv_seed :: nat
  dv_requested_cases :: nat
  dv_executed_cases :: nat
  dv_passed :: bool
  dv_counterexample :: "json option"

record candidate_check_report =
  rp_candidate :: string
  rp_revision :: string
  rp_state :: candidate_state
  rp_well_typed :: bool
  rp_equivalence :: equivalence_obligation
  rp_impl_hash :: string
  rp_candidate_hash :: string
  rp_open_obligations :: "string list"
  rp_correctness_evidence :: nat
  rp_confidence_evidence :: nat
  rp_sealable :: bool
  rp_proof_frontier :: "proof_frontier option"
  rp_proof_debt :: "proof_debt_item list"

record translation_report =
  tr_validation :: translation_record
  tr_candidate :: candidate_check_report
  tr_diagnostic :: "error_code option"

text \<open>The events carry what replay compares: the identifiers and hashes an operation returned.\<close>

datatype candidate_event =
    CandidateCreated string string relation_kind string string string
    | TransactionApplied candidate_transaction string string string
    | CandidateForked string string string string string
    | CandidateValidated string string string differential_validation string
    | CandidateSealedEvent string string string string
    | ProposalAccepted string string speculative_proposal string string string string string
    | TranslationChecked string string string string validation_result string

record candidate_forest =
  fo_candidates :: "(string, candidate) bmap"
  fo_evidence :: "(string, evidence_record) bmap"
  fo_proposals :: "(string, proposal_record) bmap"
  fo_allocator :: candidate_allocator
  fo_events :: "(nat \<times> candidate_event) list"

definition default_candidate_allocator :: candidate_allocator where
  "default_candidate_allocator = \<lparr>next_candidate = 0, next_candidate_revision = 0, next_impl_operation = 0,
     next_impl_value = 0, next_evidence = 0, next_candidate_obligation = 0, next_proposal = 0\<rparr>"

definition default_forest :: candidate_forest where
  "default_forest = \<lparr>fo_candidates = [], fo_evidence = [], fo_proposals = [],
     fo_allocator = default_candidate_allocator, fo_events = []\<rparr>"

subsection \<open>Versions and errors\<close>

definition legacy_candidate_semantics :: nat where "legacy_candidate_semantics = 1"
definition candidate_semantics_version :: nat where "candidate_semantics_version = 2"
definition equality_candidate_semantics :: nat where "equality_candidate_semantics = 3"
definition legacy_candidate_canonical :: nat where "legacy_candidate_canonical = 1"
definition candidate_canonical_version :: nat where "candidate_canonical_version = 2"
definition equality_candidate_canonical :: nat where "equality_candidate_canonical = 3"
definition impl_semantics_version :: nat where "impl_semantics_version = 1"
definition equality_validator_version :: nat where "equality_validator_version = 1"
definition translation_validator_version :: nat where "translation_validator_version = 1"

lemmas candidate_versions =
  legacy_candidate_semantics_def candidate_semantics_version_def equality_candidate_semantics_def
  legacy_candidate_canonical_def candidate_canonical_version_def equality_candidate_canonical_def
  impl_semantics_version_def equality_validator_version_def translation_validator_version_def

definition translation_validator_id :: string where
  "translation_validator_id = ''agentir.translation_validator''"

abbreviation candidate_failure :: "candidate_code \<Rightarrow> string \<Rightarrow> failure" where
  "candidate_failure c m \<equiv> Fail (agent_error_new (CandidateStage c) m)"

abbreviation candidate_err :: "candidate_code \<Rightarrow> string \<Rightarrow> 'a res" where
  "candidate_err c m \<equiv> Inl (candidate_failure c m)"

abbreviation candidate_budget :: "resource_limits \<Rightarrow> candidate_kind \<Rightarrow> nat \<Rightarrow> string \<Rightarrow> unit res" where
  "candidate_budget limits k n ctx \<equiv> against limits (CandidateResource k) n ctx"

subsection \<open>Allocation\<close>

definition alloc_candidate :: "candidate_allocator \<Rightarrow> candidate_allocator \<times> string" where
  "alloc_candidate a =
     (let n = Suc (next_candidate a) in (a\<lparr>next_candidate := n\<rparr>, ''c'' @ show_nat n))"

definition alloc_candidate_revision :: "candidate_allocator \<Rightarrow> candidate_allocator \<times> string" where
  "alloc_candidate_revision a =
     (let n = Suc (next_candidate_revision a) in (a\<lparr>next_candidate_revision := n\<rparr>, ''cr'' @ show_nat n))"

definition alloc_evidence :: "candidate_allocator \<Rightarrow> candidate_allocator \<times> string" where
  "alloc_evidence a =
     (let n = Suc (next_evidence a) in (a\<lparr>next_evidence := n\<rparr>, ''ev'' @ show_nat n))"

definition alloc_candidate_obligation :: "candidate_allocator \<Rightarrow> candidate_allocator \<times> string" where
  "alloc_candidate_obligation a =
     (let n = Suc (next_candidate_obligation a) in (a\<lparr>next_candidate_obligation := n\<rparr>, ''co'' @ show_nat n))"

definition alloc_proposal :: "candidate_allocator \<Rightarrow> candidate_allocator \<times> string" where
  "alloc_proposal a =
     (let n = Suc (next_proposal a) in (a\<lparr>next_proposal := n\<rparr>, ''p'' @ show_nat n))"

subsection \<open>Lookups\<close>

definition get_candidate :: "candidate_forest \<Rightarrow> string \<Rightarrow> candidate res" where
  "get_candidate forest i =
     ok_or (candidate_failure CandidateNotFound ''candidate `{id}` does not exist'')
       (bmap_get (fo_candidates forest) i)"

definition get_candidate_revision :: "candidate_forest \<Rightarrow> string \<Rightarrow> string \<Rightarrow> (candidate \<times> candidate_revision) res" where
  "get_candidate_revision forest candidate revision =
     rbind (get_candidate forest candidate) (\<lambda>c.
     rmap (Pair c)
       (ok_or (candidate_failure CandidateRevisionNotFound ''candidate revision `{revision}` does not exist'')
          (bmap_get (cd_revisions c) revision)))"

definition get_proposal :: "candidate_forest \<Rightarrow> string \<Rightarrow> proposal_record res" where
  "get_proposal forest i =
     ok_or (candidate_failure ProposalNotFound ''proposal `{proposal}` does not exist'')
       (bmap_get (fo_proposals forest) i)"

end
