(* ===== verification/Candidate_Checks.thy ===== *)
theory Candidate_Checks
  imports Candidates
begin

text \<open>
  What a candidate revision must satisfy (\<open>agentir-core/src/candidate.rs\<close>): its exact hash, the
  budgets of the forest, the proof chain from the identity lowering, the ordered proof debt of
  speculative proposals, its evidence, and the report of \<open>check\<close>. Serialization is a parameter:
  the encoders receive the model that the code serializes.
\<close>

subsection \<open>Hashes\<close>

text \<open>
  The three hash models share their first fields; the second adds the state of proposals, the
  third that of equality proofs. The codec name is the same constant in all of them.
\<close>

datatype candidate_model_v2 =
  CandidateModelV2 "proposal_record list" "proof_frontier option" "proof_debt_item list"
    "translation_record list" "guarded_fallback option"

datatype candidate_model_v3 = CandidateModelV3 "membership_proof list" "materialization_record list"

datatype candidate_model =
  CandidateModel nat string string string "string option" "string option" string "string list"
    impl_program string candidate_state equivalence_obligation "equivalence_certificate list"
    "string list" "candidate_model_v2 option" "candidate_model_v3 option"

datatype proposal_model =
  ProposalModel nat string string "string list" impl_fragment ty numeric_contract

record candidate_encoders = impl_encoders +
  encode_candidate :: "candidate_model \<Rightarrow> string"
  encode_evidence :: "(string, evidence_record) bmap \<Rightarrow> string"
  encode_counterexample :: "json \<Rightarrow> string"
  encode_proposal :: "proposal_model \<Rightarrow> string"
  crate_version :: string

abbreviation program_hash :: "candidate_encoders \<Rightarrow> impl_program \<Rightarrow> string res" where
  "program_hash enc p \<equiv> impl_hash (impl_encoders.truncate enc) p"

definition candidate_model_of ::
    "candidate \<Rightarrow> candidate_revision \<Rightarrow> nat \<Rightarrow> candidate_model_v2 option \<Rightarrow> candidate_model_v3 option \<Rightarrow>
     candidate_model" where
  "candidate_model_of c r version v2 v3 =
     CandidateModel version (cd_id c) (cd_spec_revision c) (cd_spec_hash c) (cd_parent_candidate c)
       (cd_forked_from c) (cr_id r) (cr_parents r) (cr_program r) (cr_impl_hash r) (cr_state r)
       (cr_equivalence r) (cr_proof_chain r) (cr_evidence r) v2 v3"

definition debt_proposals :: "candidate_forest \<Rightarrow> candidate_revision \<Rightarrow> proposal_record list res" where
  "debt_proposals forest r =
     traverse (\<lambda>debt. ok_or (candidate_failure ProposalNotFound ''candidate debt references missing proposal `{}`'')
        (bmap_get (fo_proposals forest) (pd_proposal debt))) (cr_proof_debt r)"

definition speculative_model :: "candidate_revision \<Rightarrow> proposal_record list \<Rightarrow> candidate_model_v2" where
  "speculative_model r ps =
     CandidateModelV2 ps (cr_proof_frontier r) (cr_proof_debt r) (cr_translations r) (cr_fallback r)"

definition candidate_model_with_domain ::
    "candidate_forest \<Rightarrow> candidate \<Rightarrow> candidate_revision \<Rightarrow> (candidate_model \<times> string) res" where
  "candidate_model_with_domain forest c r =
     (if cr_hash_version r = legacy_candidate_canonical then
        (if cr_proof_frontier r \<noteq> None \<or> cr_proof_debt r \<noteq> [] \<or> cr_translations r \<noteq> [] \<or>
            cr_fallback r \<noteq> None \<or> cr_memberships r \<noteq> [] \<or> cr_materializations r \<noteq> []
         then err PersistenceIntegrity ''candidate hash v1 revision contains Stage 2B state''
         else Inr (candidate_model_of c r 1 None None, ''agentir.candidate.exact.v1'' @ [CHR 0x00]))
      else if cr_hash_version r = candidate_canonical_version then
        (if cr_memberships r \<noteq> [] \<or> cr_materializations r \<noteq> []
         then err PersistenceIntegrity ''candidate hash v2 revision contains Stage 2C equality state''
         else rmap (\<lambda>ps. (candidate_model_of c r 2 (Some (speculative_model r ps)) None,
                          ''agentir.candidate.exact.v2'' @ [CHR 0x00]))
                (debt_proposals forest r))
      else if cr_hash_version r = equality_candidate_canonical then
        rmap (\<lambda>ps. (candidate_model_of c r 3 (Some (speculative_model r ps))
                      (Some (CandidateModelV3 (cr_memberships r) (cr_materializations r))),
                    ''agentir.candidate.exact.v3'' @ [CHR 0x00]))
          (debt_proposals forest r)
      else err PersistenceFormat ''unsupported candidate hash version {version}'')"

definition candidate_hash_with_limit ::
    "candidate_encoders \<Rightarrow> candidate_forest \<Rightarrow> candidate \<Rightarrow> candidate_revision \<Rightarrow> nat \<Rightarrow> string res" where
  "candidate_hash_with_limit enc forest c r max_bytes =
     rbind (candidate_model_with_domain forest c r) (\<lambda>(model, domain).
     let bytes = encode_candidate enc model in
     rbind (ensure (if cr_hash_version r = candidate_canonical_version then CandidateResource CandidateCanonicalV2Bytes
                    else if cr_hash_version r = equality_candidate_canonical
                    then CandidateResource CandidateCanonicalV3Bytes
                    else CandidateCanonicalBytes)
              max_bytes (length bytes) ''candidate exact canonicalization'') (\<lambda>_.
       Inr (sha256_hex enc (domain @ bytes))))"

definition candidate_canonical_limit :: "candidate_revision \<Rightarrow> resource_limits \<Rightarrow> nat" where
  "candidate_canonical_limit r limits =
     (if cr_hash_version r = candidate_canonical_version
      then limit limits (CandidateResource CandidateCanonicalV2Bytes)
      else if cr_hash_version r = equality_candidate_canonical
      then limit limits (CandidateResource CandidateCanonicalV3Bytes)
      else limit limits CandidateCanonicalBytes)"

definition revision_hash ::
    "candidate_encoders \<Rightarrow> candidate_forest \<Rightarrow> candidate \<Rightarrow> candidate_revision \<Rightarrow> resource_limits \<Rightarrow> string res" where
  "revision_hash enc forest c r limits =
     candidate_hash_with_limit enc forest c r (candidate_canonical_limit r limits)"

definition provenance_for :: "candidate_encoders \<Rightarrow> nat \<Rightarrow> evidence_provenance" where
  "provenance_for enc semantics =
     \<lparr>compiler_version = crate_version enc, candidate_semantics = semantics, impl_semantics = impl_semantics_version\<rparr>"

definition semantics_for_hash_version :: "nat \<Rightarrow> nat" where
  "semantics_for_hash_version version =
     (if version = legacy_candidate_canonical then legacy_candidate_semantics
      else if version = equality_candidate_canonical then equality_candidate_semantics
      else candidate_semantics_version)"

subsection \<open>Budgets of the forest\<close>

definition saturating_sum :: "nat list \<Rightarrow> nat" where
  "saturating_sum ns = fold (\<lambda>n tot. u64_saturating_add tot n) ns 0"

definition total_revisions :: "(string, candidate) bmap \<Rightarrow> nat" where
  "total_revisions cs = saturating_sum (map (\<lambda>c. length (cd_revisions c)) (bmap_values cs))"

definition count_if :: "('a \<Rightarrow> bool) \<Rightarrow> 'a list \<Rightarrow> nat" where
  "count_if P xs = length (filter P xs)"

definition open_equivalence :: "candidate \<Rightarrow> nat" where
  "open_equivalence c = count_if (\<lambda>r. eo_status (cr_equivalence r) = EqOpen) (bmap_values (cd_revisions c))"

definition unknown_debt :: "candidate_forest \<Rightarrow> proof_debt_item \<Rightarrow> bool" where
  "unknown_debt forest debt =
     (case bmap_get (fo_proposals forest) (pd_proposal debt) of
        None \<Rightarrow> False
      | Some p \<Rightarrow> pr_classification p \<in> {PcUnknown, PcUnsupported})"

definition head_budgets ::
    "candidate_forest \<Rightarrow> resource_limits \<Rightarrow> nat \<times> nat \<Rightarrow> candidate \<Rightarrow> (nat \<times> nat) res" where
  "head_budgets forest limits st c =
     rbind (ok_or (Fail (agent_error_new PersistenceIntegrity
                ''candidate head is missing while checking resource budgets''))
              (bmap_get (cd_revisions c) (cd_head c))) (\<lambda>h.
     let retained = length (cr_proof_debt h) in
     rbind (candidate_budget limits ProposalsPerCandidate retained ''proposals reachable from candidate head'') (\<lambda>_.
     rbind (candidate_budget limits SpeculativeNodesPerCandidate retained
              ''speculative nodes reachable from candidate head'') (\<lambda>_.
     rbind (candidate_budget limits UnknownActionsPerBranch (count_if (unknown_debt forest) (cr_proof_debt h))
              ''unknown speculative actions reachable from candidate head'') (\<lambda>_.
       Inr (u64_saturating_add (fst st)
              (count_if (\<lambda>d. pd_status d \<in> {DebtOpen, DebtUnsupported}) (cr_proof_debt h)),
            if cr_fallback h \<noteq> None then u64_saturating_add (snd st) 1 else snd st)))))"

definition ensure_forest_budgets ::
    "candidate_encoders \<Rightarrow> candidate_forest \<Rightarrow> resource_limits \<Rightarrow> unit res" where
  "ensure_forest_budgets enc forest limits =
     rbind (candidate_budget limits ProposalsPerWorkspace (length (fo_proposals forest)) ''candidate proposal store'') (\<lambda>_.
     rbind (candidate_budget limits CandidatesPerWorkspace (length (fo_candidates forest)) ''candidate forest'') (\<lambda>_.
     rbind (candidate_budget limits CandidateBranches (length (fo_candidates forest)) ''candidate forest'') (\<lambda>_.
     rbind (candidate_budget limits CandidateRevisionsPerWorkspace (total_revisions (fo_candidates forest))
              ''candidate forest'') (\<lambda>_.
     rbind (candidate_budget limits EvidenceRecords (length (fo_evidence forest)) ''candidate evidence store'') (\<lambda>_.
     rbind (candidate_budget limits CandidateEventsPerArchive (length (fo_events forest)) ''candidate event log'') (\<lambda>_.
     rbind (candidate_budget limits OpenEquivalenceObligations
              (saturating_sum (map open_equivalence (bmap_values (fo_candidates forest))))
              ''candidate equivalence obligations'') (\<lambda>_.
     rbind (rfold (head_budgets forest limits) (0, 0) (bmap_values (fo_candidates forest))) (\<lambda>(open_debt, guarded).
     rbind (candidate_budget limits OpenProofDebtObligations open_debt ''candidate proof debt'') (\<lambda>_.
     rbind (candidate_budget limits GuardedCandidates guarded ''guarded candidate heads'') (\<lambda>_.
     rbind (candidate_budget limits CandidateSemanticsV2Events
              (count_if (\<lambda>e. fst e = candidate_semantics_version) (fo_events forest))
              ''candidate semantics v2 event log'') (\<lambda>_.
       candidate_budget limits EvidenceBytes (length (encode_evidence enc (fo_evidence forest)))
         ''candidate evidence store'')))))))))))"

subsection \<open>Proof chains\<close>

definition certificate_evidence ::
    "candidate_forest \<Rightarrow> candidate \<Rightarrow> equivalence_certificate \<Rightarrow> evidence_record res" where
  "certificate_evidence forest c cert =
     rbind (ok_or (Fail (agent_error_new EvidenceInvalid ''certificate references missing evidence `{}`''))
              (bmap_get (fo_evidence forest) (ct_evidence cert))) (\<lambda>ev.
     if ev_class ev \<noteq> Correctness \<or> ev_result ev \<noteq> EvPassed \<or> ev_spec_hash ev \<noteq> cd_spec_hash c \<or>
        ev_output_impl_hash ev \<noteq> ct_after_impl_hash cert \<or> ev_input_impl_hash ev \<noteq> ct_before_impl_hash cert
     then err EvidenceInvalid ''certificate evidence `{}` is inconsistent'' else Inr ev)"

definition chain_rules :: "string list" where
  "chain_rules = [''canonical_identity_validation'', ''guarded_i32_self_division'', ''equality_membership_v1'']"

definition verify_certificate ::
    "candidate_forest \<Rightarrow> candidate \<Rightarrow> string \<Rightarrow> string option \<Rightarrow> nat \<times> equivalence_certificate \<Rightarrow> string option res" where
  "verify_certificate forest c identity_hash current it =
     (let (index, cert) = it in
      rbind (certificate_evidence forest c cert) (\<lambda>ev.
      rbind (if index = 0 then
               (if ct_rule cert \<noteq> ''identity_lowering'' \<or> ct_before_impl_hash cert \<noteq> None \<or>
                   ct_after_impl_hash cert \<noteq> identity_hash \<or> ev_kind ev \<noteq> IdentityLowering
                then candidate_err EquivalenceNotProved ''proof chain does not begin with the exact identity lowering''
                else Inr ())
             else if ct_before_impl_hash cert \<noteq> current
             then candidate_err EquivalenceNotProved ''proof chain implementation hashes are discontinuous''
             else Inr ()) (\<lambda>_.
      if ct_impl_semantics cert \<noteq> impl_semantics_version
      then err EvidenceInvalid ''certificate uses an unsupported ImplIR semantics version''
      else if 0 < index \<and> known_rewrite_rule (ct_rule cert) = None \<and> ct_rule cert \<notin> set chain_rules
      then err EvidenceInvalid ''certificate uses unknown rule `{}`''
      else if ct_rule cert = ''canonical_identity_validation'' \<and> ct_before_impl_hash cert \<noteq> Some (ct_after_impl_hash cert)
      then err EvidenceInvalid ''canonical identity certificate changed impl_hash''
      else if ct_rule cert = ''guarded_i32_self_division'' \<and> ev_kind ev \<noteq> GuardedRewriteCertificate
      then err EvidenceInvalid ''guarded proof-chain edge lacks its compiler-owned certificate''
      else Inr (Some (ct_after_impl_hash cert)))))"

definition expected_terminal :: "candidate_revision \<Rightarrow> string" where
  "expected_terminal r =
     (case cr_proof_frontier r of None \<Rightarrow> cr_impl_hash r | Some fr \<Rightarrow> fr_terminal_impl_hash fr)"

definition verify_proof_chain ::
    "candidate_encoders \<Rightarrow> candidate_forest \<Rightarrow> candidate \<Rightarrow> candidate_revision \<Rightarrow> program \<Rightarrow> unit res" where
  "verify_proof_chain enc forest c r source =
     (if cr_proof_chain r = []
      then candidate_err EquivalenceNotProved ''candidate equivalence proof chain is empty''
      else
        rbind (identity_lower source default_candidate_allocator) (\<lambda>(identity, _).
        rbind (program_hash enc identity) (\<lambda>identity_hash.
        rbind (rfold (verify_certificate forest c identity_hash) None (enumerate 0 (cr_proof_chain r))) (\<lambda>current.
        let eo = cr_equivalence r in
        if current \<noteq> Some (expected_terminal r) \<or> eo_impl_hash eo \<noteq> cr_impl_hash r \<or>
           eo_spec_hash eo \<noteq> cd_spec_hash c \<or> eo_candidate eo \<noteq> cd_id c \<or> eo_revision eo \<noteq> cr_id r \<or>
           eo_relation eo \<noteq> EquivalentToSpec
        then candidate_err EquivalenceNotProved ''proof chain does not establish the current exact candidate relation''
        else Inr ()))))"

subsection \<open>Proof debt\<close>

definition verify_materialization ::
    "candidate_forest \<Rightarrow> candidate \<Rightarrow> candidate_revision \<Rightarrow> materialization_record \<Rightarrow> unit res" where
  "verify_materialization forest c r m =
     (if mr_candidate m \<noteq> cd_id c \<or>
         (\<not> bmap_contains (cd_revisions c) (mr_candidate_revision m) \<and> mr_candidate_revision m \<noteq> cr_id r) \<or>
         \<not> list_ex (\<lambda>ev. ev_candidate ev = cd_id c \<and> ev_revision ev = mr_candidate_revision m \<and>
              ev_kind ev = EqualityMaterialization) (bmap_values (fo_evidence forest))
      then err EvidenceInvalid ''equality materialization provenance is inconsistent'' else Inr ())"

definition frontier_exists :: "candidate_forest \<Rightarrow> candidate \<Rightarrow> candidate_revision \<Rightarrow> proof_frontier \<Rightarrow> bool" where
  "frontier_exists forest c r fr =
     (if fr_candidate fr = cd_id c
      then bmap_contains (cd_revisions c) (fr_revision fr) \<or> fr_revision fr = cr_id r
      else (case bmap_get (fo_candidates forest) (fr_candidate fr) of
              None \<Rightarrow> False | Some c' \<Rightarrow> bmap_contains (cd_revisions c') (fr_revision fr)))"

text \<open>The walk over the debt keeps the last hash, whether a blocker was met, and whether a guard was.\<close>

definition verify_debt_item ::
    "candidate_forest \<Rightarrow> string option \<times> bool \<times> bool \<Rightarrow> proof_debt_item \<Rightarrow> (string option \<times> bool \<times> bool) res" where
  "verify_debt_item forest st debt =
     (let (previous, blocked, guarded) = st in
      rbind (ok_or (candidate_failure ProposalNotFound ''proof debt references missing proposal `{}`'')
               (bmap_get (fo_proposals forest) (pd_proposal debt))) (\<lambda>p.
      if pr_id p \<noteq> pd_proposal debt \<or> pr_proposal_hash p \<noteq> pd_proposal_hash debt \<or>
         pr_base_revision p \<noteq> pd_base_revision debt \<or> pr_after_impl_hash p \<noteq> pd_after_impl_hash debt \<or>
         sp_target (pr_proposal p) \<noteq> pd_target debt \<or>
         map pi_value (pf_inputs (sp_replacement (pr_proposal p))) \<noteq> pd_boundary debt \<or>
         pd_relation debt \<noteq> EquivalentToSpec
      then err PersistenceIntegrity ''proposal record and ordered proof debt are inconsistent''
      else if (case previous of None \<Rightarrow> False | Some h \<Rightarrow> h \<noteq> pd_before_impl_hash debt)
      then err PersistenceIntegrity ''ordered proof-debt implementation hashes are discontinuous''
      else if blocked \<and> pd_status debt \<in> {DebtProved, DebtGuarded}
      then err PersistenceIntegrity ''proof frontier skips an earlier open/unsupported/refuted obligation''
      else Inr (Some (pd_after_impl_hash debt), blocked \<or> pd_status debt \<noteq> DebtProved,
                guarded \<or> pd_status debt = DebtGuarded)))"

definition verify_fallback ::
    "candidate_forest \<Rightarrow> candidate \<Rightarrow> candidate_revision \<Rightarrow> guarded_fallback \<Rightarrow> unit res" where
  "verify_fallback forest c r fb =
     (if (gf_candidate fb = cd_id c \<and> gf_revision fb = cr_id r) \<or> gf_failure_strategy fb \<noteq> ''evaluate_fallback''
      then candidate_err FallbackInvalid ''guarded fallback has an invalid candidate anchor or strategy''
      else
        rbind (ok_or (candidate_failure FallbackInvalid ''guarded fallback candidate is missing'')
                 (bmap_get (fo_candidates forest) (gf_candidate fb))) (\<lambda>fc.
        if cd_spec_hash fc \<noteq> cd_spec_hash c
        then candidate_err FallbackInvalid ''guarded fallback candidate has a different spec_hash anchor''
        else
          rbind (ok_or (candidate_failure FallbackInvalid ''guarded fallback revision is missing'')
                   (bmap_get (cd_revisions fc) (gf_revision fb))) (\<lambda>fr.
          if cr_candidate_hash fr \<noteq> gf_candidate_hash fb \<or> eo_status (cr_equivalence fr) \<noteq> EqProved \<or>
             cr_state fr = CsRejected \<or> cr_fallback fr \<noteq> None
          then candidate_err FallbackInvalid ''guarded fallback is not an immutable fully proved exact revision''
          else if (case gf_guard fb of I32NonZero i \<Rightarrow>
                     (case bmap_get (ip_values (cr_program r)) i of None \<Rightarrow> True | Some v \<Rightarrow> iv_ty v \<noteq> Scalar I32))
          then candidate_err GuardInvalid ''guard predicate does not reference a scalar i32 value''
          else
            rbind (ok_or (Fail (agent_error_new EvidenceInvalid ''guarded fallback certificate evidence is missing''))
                     (bmap_get (fo_evidence forest) (gf_evidence fb))) (\<lambda>ev.
            if ev_kind ev \<noteq> GuardedRewriteCertificate \<or> ev_class ev \<noteq> Correctness \<or> ev_result ev \<noteq> EvPassed
            then err EvidenceInvalid ''guarded fallback evidence is not a trusted passed certificate''
            else Inr ()))))"

definition translation_valid :: "candidate_forest \<Rightarrow> candidate_revision \<Rightarrow> translation_record \<Rightarrow> bool" where
  "translation_valid forest r t \<longleftrightarrow>
     ((tv_validator_id t = translation_validator_id \<and> tv_validator_version t = translation_validator_version) \<or>
      (tv_validator_id t = ''agentir.equality_validator'' \<and> tv_validator_version t = equality_validator_version \<and>
       cr_hash_version r = equality_candidate_canonical)) \<and>
     list_ex (\<lambda>d. pd_id d = tv_obligation t \<and> pd_proposal d = tv_proposal t) (cr_proof_debt r) \<and>
     (case tv_evidence t of None \<Rightarrow> True | Some i \<Rightarrow> bmap_contains (fo_evidence forest) i)"

definition membership_valid :: "candidate_forest \<Rightarrow> candidate_revision \<Rightarrow> membership_proof \<Rightarrow> bool" where
  "membership_valid forest r m \<longleftrightarrow>
     list_ex (\<lambda>d. pd_id d = mp_obligation m \<and> pd_proposal d = mp_proposal m \<and> pd_status d = DebtProved)
       (cr_proof_debt r) \<and>
     (case bmap_get (fo_evidence forest) (mp_evidence m) of
        None \<Rightarrow> False
      | Some ev \<Rightarrow> ev_kind ev = EqualityMembership \<and> ev_class ev = Correctness \<and> ev_result ev = EvPassed)"

definition verify_debt_status :: "candidate_revision \<Rightarrow> bool \<Rightarrow> unit res" where
  "verify_debt_status r guarded =
     (let status = eo_status (cr_equivalence r);
          all_proved = list_all (\<lambda>d. pd_status d = DebtProved) (cr_proof_debt r);
          refuted = list_ex (\<lambda>d. pd_status d = DebtRefuted) (cr_proof_debt r) in
      if (all_proved \<and> status \<noteq> EqProved) \<or> (guarded \<and> status \<noteq> EqGuarded) \<or>
         (refuted \<and> (status \<noteq> EqRefuted \<or> cr_state r \<noteq> CsRejected))
      then err PersistenceIntegrity ''proof-debt statuses disagree with candidate lifecycle state''
      else Inr ())"

definition verify_speculative_debt ::
    "candidate_forest \<Rightarrow> candidate \<Rightarrow> candidate_revision \<Rightarrow> unit res" where
  "verify_speculative_debt forest c r =
     rbind (ok_or (Fail (agent_error_new PersistenceIntegrity ''candidate hash v2 revision lacks a proof frontier''))
              (cr_proof_frontier r)) (\<lambda>fr.
     if \<not> frontier_exists forest c r fr
     then err PersistenceIntegrity ''proof frontier references a missing candidate revision''
     else if cr_proof_debt r = []
     then err PersistenceIntegrity ''candidate hash v2 revision has no proposal proof-debt history''
     else
       rbind (rfold (verify_debt_item forest) (None, False, False) (cr_proof_debt r)) (\<lambda>(_, _, guarded).
       if guarded \<noteq> (cr_fallback r \<noteq> None) \<or> (guarded \<and> cr_state r \<notin> {CsGuarded, CsSealed})
       then candidate_err FallbackInvalid ''guarded proof debt and candidate fallback contract disagree''
       else
         rbind (case cr_fallback r of None \<Rightarrow> Inr () | Some fb \<Rightarrow> verify_fallback forest c r fb) (\<lambda>_.
         if \<not> list_all (translation_valid forest r) (cr_translations r)
         then err EvidenceInvalid ''translation validation record is inconsistent''
         else if cr_hash_version r = equality_candidate_canonical \<and> cr_memberships r = [] \<and> cr_materializations r = []
         then err PersistenceIntegrity ''candidate hash v3 revision lacks equality provenance''
         else if cr_hash_version r = equality_candidate_canonical \<and> \<not> list_all (membership_valid forest r) (cr_memberships r)
         then err EvidenceInvalid ''equality membership proof and candidate debt are inconsistent''
         else verify_debt_status r guarded)))"

definition verify_proof_debt :: "candidate_forest \<Rightarrow> candidate \<Rightarrow> candidate_revision \<Rightarrow> unit res" where
  "verify_proof_debt forest c r =
     (if cr_hash_version r = legacy_candidate_canonical then Inr ()
      else if cr_hash_version r = equality_candidate_canonical \<and> cr_proof_debt r = [] then
        (if cr_materializations r = [] \<or> cr_memberships r \<noteq> []
         then err PersistenceIntegrity ''debt-free candidate hash v3 revision lacks materialization provenance''
         else rmap (\<lambda>_. ()) (traverse (verify_materialization forest c r) (cr_materializations r)))
      else verify_speculative_debt forest c r)"

subsection \<open>Revisions\<close>

definition correctness_kinds :: "evidence_kind list" where
  "correctness_kinds =
     [IdentityLowering, KnownRewriteCertificate, CompositionalEquivalence, CanonicalIdentityValidation,
      RecognizedKnownRewrite, GuardedRewriteCertificate, CompositionalSpeculativeDischarge,
      EqualityMembership, EqualityMaterialization]"

definition class_matches_kind :: "evidence_record \<Rightarrow> bool" where
  "class_matches_kind ev \<longleftrightarrow> (ev_class ev = Correctness \<longleftrightarrow> ev_kind ev \<in> set correctness_kinds)"

definition verify_evidence ::
    "candidate_forest \<Rightarrow> candidate \<Rightarrow> string bset \<Rightarrow> string \<Rightarrow> string bset res" where
  "verify_evidence forest c seen i =
     (if bset_contains seen i then err EvidenceInvalid ''candidate revision repeats evidence `{evidence_id}`''
      else
        rbind (ok_or (Fail (agent_error_new EvidenceInvalid ''candidate revision references missing evidence `{evidence_id}`''))
                 (bmap_get (fo_evidence forest) i)) (\<lambda>ev.
        if ev_id ev \<noteq> i \<or> ev_spec_hash ev \<noteq> cd_spec_hash c \<or>
           candidate_semantics (ev_provenance ev) \<notin>
             {legacy_candidate_semantics, candidate_semantics_version, equality_candidate_semantics} \<or>
           impl_semantics (ev_provenance ev) \<noteq> impl_semantics_version
        then err EvidenceInvalid ''evidence `{evidence_id}` has inconsistent identity or provenance''
        else
          rbind (ok_or (Fail (agent_error_new EvidenceInvalid ''evidence `{evidence_id}` references a missing candidate''))
                   (bmap_get (fo_candidates forest) (ev_candidate ev))) (\<lambda>ec.
          if \<not> bmap_contains (cd_revisions ec) (ev_revision ev)
          then err EvidenceInvalid ''evidence `{evidence_id}` references a missing revision''
          else if \<not> class_matches_kind ev \<or> (ev_result ev = EvPassed \<and> ev_counterexample ev \<noteq> None) \<or>
             (ev_result ev = EvFailed \<and> ev_counterexample ev = None)
          then err EvidenceInvalid ''evidence `{evidence_id}` has inconsistent class or result''
          else Inr (bset_insert i seen))))"

definition verify_candidate_revision ::
    "candidate_encoders \<Rightarrow> candidate_forest \<Rightarrow> candidate \<Rightarrow> candidate_revision \<Rightarrow> program \<Rightarrow> string \<Rightarrow>
     resource_limits \<Rightarrow> unit res" where
  "verify_candidate_revision enc forest c r source spec_hash limits =
     (if cd_spec_hash c \<noteq> spec_hash
      then err SpecHashMismatch ''candidate spec_hash anchor differs from frozen SpecIR''
      else
        rbind (verify_impl (cr_program r) source limits) (\<lambda>_.
        rbind (verify_proof_debt forest c r) (\<lambda>_.
        rbind (rfold (verify_evidence forest c) [] (cr_evidence r)) (\<lambda>_.
        rbind (program_hash enc (cr_program r)) (\<lambda>actual.
        if actual \<noteq> cr_impl_hash r then err PersistenceIntegrity ''candidate ImplIR hash is invalid''
        else
          rbind (verify_proof_chain enc forest c r source) (\<lambda>_.
          rbind (revision_hash enc forest c r limits) (\<lambda>h.
          if h \<noteq> cr_candidate_hash r then err PersistenceIntegrity ''candidate exact-state hash is invalid''
          else Inr ())))))))"

definition class_counts :: "candidate_forest \<Rightarrow> candidate_revision \<Rightarrow> nat \<times> nat" where
  "class_counts forest r =
     (let classes = map (\<lambda>i. map_option ev_class (bmap_get (fo_evidence forest) i)) (cr_evidence r) in
      (count_if (\<lambda>k. k = Some Correctness) classes, count_if (\<lambda>k. k = Some Confidence) classes))"

definition check_candidate ::
    "candidate_encoders \<Rightarrow> candidate_forest \<Rightarrow> string \<Rightarrow> string \<Rightarrow> program \<Rightarrow> resource_limits \<Rightarrow> candidate_check_report res" where
  "check_candidate enc forest cid rid source limits =
     rbind (get_candidate_revision forest cid rid) (\<lambda>(c, r).
     rbind (verify_candidate_revision enc forest c r source (cd_spec_hash c) limits) (\<lambda>_.
     let counts = class_counts forest r;
         proved = (eo_status (cr_equivalence r) \<in> {EqProved, EqGuarded});
         settled = (\<lambda>d. pd_status d \<in> {DebtProved, DebtGuarded}) in
       Inr \<lparr>rp_candidate = cid, rp_revision = rid, rp_state = cr_state r, rp_well_typed = True,
            rp_equivalence = cr_equivalence r, rp_impl_hash = cr_impl_hash r,
            rp_candidate_hash = cr_candidate_hash r,
            rp_open_obligations =
              (if cr_hash_version r = legacy_candidate_canonical
               then (if proved then [] else [eo_id (cr_equivalence r)])
               else map pd_id (filter (\<lambda>d. \<not> settled d) (cr_proof_debt r))),
            rp_correctness_evidence = fst counts, rp_confidence_evidence = snd counts,
            rp_sealable = (proved \<and> cr_state r \<notin> {CsRejected, CsSealed} \<and> list_all settled (cr_proof_debt r)),
            rp_proof_frontier = cr_proof_frontier r, rp_proof_debt = cr_proof_debt r\<rparr>))"

end
