(* ===== verification/Proposals.thy ===== *)
theory Proposals
  imports Candidate_Checks
begin

text \<open>
  Speculative proposals (\<open>agentir-core/src/candidate.rs\<close>): their normal form, their hash, the
  insertion of a proposed fragment into an implementation graph, and their classification by the
  trusted rewrites.
\<close>

abbreviation invalid_proposal :: "string \<Rightarrow> failure" where
  "invalid_proposal m \<equiv> candidate_failure InvalidProposal m"

text \<open>\<open>map_err\<close> replaces an error and does not catch a panic.\<close>

definition map_err :: "failure \<Rightarrow> 'a res \<Rightarrow> 'a res" where
  "map_err e r = (case r of Inl (Fail _) \<Rightarrow> Inl e | _ \<Rightarrow> r)"

subsection \<open>Normal form\<close>

text \<open>\<open>BTreeMap::insert\<close> that refuses a key already present.\<close>

definition insert_new :: "failure \<Rightarrow> string \<Rightarrow> string \<Rightarrow> (string, string) bmap \<Rightarrow> (string, string) bmap res" where
  "insert_new e k v m = (if bmap_contains m k then Inl e else Inr (bmap_insert k v m))"

definition normalize_argument ::
    "(string, string) bmap \<times> impl_block_argument list \<Rightarrow> nat \<times> impl_block_argument \<Rightarrow>
     ((string, string) bmap \<times> impl_block_argument list) res" where
  "normalize_argument st it =
     (let name = ''%arg'' @ show_nat (fst it) in
      rmap (\<lambda>m. (m, snd st @ [\<lparr>iarg_name = name, iarg_ty = iarg_ty (snd it)\<rparr>]))
        (insert_new (invalid_proposal ''proposal region repeats a block argument'') (iarg_name (snd it)) name (fst st)))"

definition normalize_region_value ::
    "string \<Rightarrow> string \<Rightarrow> (string, string) bmap \<Rightarrow> (string, string) bmap \<Rightarrow> impl_region_value \<Rightarrow>
     impl_region_value res" where
  "normalize_region_value no_argument no_local arguments locals v =
     (case v of
        ImplArgument name \<Rightarrow> rmap ImplArgument (ok_or (invalid_proposal no_argument) (bmap_get arguments name))
      | ImplLocal name \<Rightarrow> rmap ImplLocal (ok_or (invalid_proposal no_local) (bmap_get locals name))
      | ImplCapture i \<Rightarrow> Inr (ImplCapture i))"

text \<open>The result of an operation is bound before its operands are looked up.\<close>

definition normalize_region_operation ::
    "(string, string) bmap \<Rightarrow> (string, string) bmap \<times> impl_region_operation list \<Rightarrow>
     nat \<times> impl_region_operation \<Rightarrow> ((string, string) bmap \<times> impl_region_operation list) res" where
  "normalize_region_operation arguments st it =
     (let op = snd it; result = ''%local'' @ show_nat (fst it) in
      rbind (insert_new (invalid_proposal ''proposal region repeats a local result'') (iro_result op) result (fst st)) (\<lambda>locals.
      rbind (traverse (normalize_region_value ''proposal region uses an unknown argument''
               ''proposal region uses an unknown or forward local'' arguments locals) (iro_operands op)) (\<lambda>os.
        Inr (locals, snd st @ [op\<lparr>iro_result := result, iro_operands := os\<rparr>]))))"

definition normalize_region :: "impl_region \<Rightarrow> impl_region res" where
  "normalize_region rg =
     rbind (rfold normalize_argument ([], []) (enumerate 0 (irg_arguments rg))) (\<lambda>(arguments, args).
     rbind (rfold (normalize_region_operation arguments) ([], []) (enumerate 0 (irg_operations rg))) (\<lambda>(locals, ops).
     rbind (normalize_region_value ''proposal region yields an unknown argument''
              ''proposal region yields an unknown local'' arguments locals (irg_yield_value rg)) (\<lambda>y.
       Inr (rg\<lparr>irg_arguments := args, irg_operations := ops, irg_yield_value := y\<rparr>))))"

definition local_binding :: "string \<Rightarrow> bool" where
  "local_binding s \<longleftrightarrow> (case s of c # _ # _ \<Rightarrow> c = CHR ''$'' | _ \<Rightarrow> False)"

definition normalize_input ::
    "(string, string) bmap \<times> proposal_input list \<Rightarrow> nat \<times> proposal_input \<Rightarrow>
     ((string, string) bmap \<times> proposal_input list) res" where
  "normalize_input st it =
     (if \<not> local_binding (pi_bind (snd it))
      then Inl (invalid_proposal ''proposal boundary bindings must begin with `$`'')
      else
        let name = ''$b'' @ show_nat (fst it) in
        rmap (\<lambda>m. (m, snd st @ [\<lparr>pi_bind = name, pi_value = pi_value (snd it)\<rparr>]))
          (insert_new (invalid_proposal ''proposal repeats a boundary binding'') (pi_bind (snd it)) name (fst st)))"

definition normalize_operation ::
    "(string, string) bmap \<times> proposal_operation list \<Rightarrow> nat \<times> proposal_operation \<Rightarrow>
     ((string, string) bmap \<times> proposal_operation list) res" where
  "normalize_operation st it =
     (let op = snd it; name = ''$n'' @ show_nat (fst it) in
      if \<not> local_binding (po_bind op)
      then Inl (invalid_proposal ''proposal operation bindings must begin with `$`'')
      else
        rbind (traverse (\<lambda>i. ok_or
                 (invalid_proposal ''proposal operand `{operand}` is not a boundary or earlier local binding'')
                 (bmap_get (fst st) i)) (po_operands op)) (\<lambda>os.
        rbind (insert_new (invalid_proposal ''proposal repeats a local binding'') (po_bind op) name (fst st)) (\<lambda>m.
        rbind (case po_region op of None \<Rightarrow> Inr None | Some rg \<Rightarrow> rmap Some (normalize_region rg)) (\<lambda>rg.
          Inr (m, snd st @ [op\<lparr>po_bind := name, po_operands := os, po_region := rg\<rparr>])))))"

definition normalize_proposal :: "speculative_proposal \<Rightarrow> speculative_proposal res" where
  "normalize_proposal sp =
     (let f = sp_replacement sp in
      rbind (rfold normalize_input ([], []) (enumerate 0 (pf_inputs f))) (\<lambda>(m1, inputs).
      rbind (rfold normalize_operation (m1, []) (enumerate 0 (pf_operations f))) (\<lambda>(m2, ops).
      rbind (ok_or (invalid_proposal ''proposal yield references an unknown binding'') (bmap_get m2 (pf_result f))) (\<lambda>y.
        Inr (sp\<lparr>sp_replacement := \<lparr>pf_inputs = inputs, pf_operations = ops, pf_result = y\<rparr>\<rparr>)))))"

subsection \<open>Hash\<close>

definition proposal_hash_of ::
    "candidate_encoders \<Rightarrow> impl_program \<Rightarrow> impl_operation \<Rightarrow> speculative_proposal \<Rightarrow> resource_limits \<Rightarrow> string res" where
  "proposal_hash_of enc p target sp limits =
     rbind (ok_or (invalid_proposal ''proposal target has no result type'')
              (case io_result_types target of [] \<Rightarrow> None | t # _ \<Rightarrow> Some t)) (\<lambda>t.
     let bytes = encode_proposal enc (ProposalModel 1 (sp_expected_before_impl_hash sp) (sp_target sp)
                   (map pi_value (pf_inputs (sp_replacement sp))) (sp_replacement sp) t (ip_contract p)) in
     rbind (candidate_budget limits ProposalEncodedBytes (length bytes)
              ''normalized proposal before persistent ID allocation'') (\<lambda>_.
       Inr (sha256_hex enc (''agentir.proposal.semantic.v1'' @ [CHR 0x00] @ bytes))))"

definition canonicalize_proposal_with_limit ::
    "candidate_encoders \<Rightarrow> impl_program \<Rightarrow> speculative_proposal \<Rightarrow> resource_limits \<Rightarrow> string res" where
  "canonicalize_proposal_with_limit enc p sp limits =
     rbind (normalize_proposal sp) (\<lambda>n.
     rbind (ok_or (invalid_proposal ''proposal target `{}` does not exist'') (bmap_get (ip_operations p) (sp_target n))) (\<lambda>target.
       proposal_hash_of enc p target n limits))"

subsection \<open>Insertion of a fragment\<close>

record applied_proposal =
  ap_program :: impl_program
  ap_operations :: "string list"
  ap_values :: "string list"
  ap_yielded :: string

record fragment_state =
  fs_program :: impl_program
  fs_alloc :: candidate_allocator
  fs_bindings :: "(string, string) bmap"
  fs_operations :: "string list"
  fs_values :: "string list"

definition proposed_link :: "impl_operation \<Rightarrow> impl_source_link" where
  "proposed_link target = (io_source_link target)\<lparr>rewrite_rule := Some ''speculative_proposal''\<rparr>"

definition proposed_attributes :: "proposal_operation \<Rightarrow> (string, json) bmap res" where
  "proposed_attributes po =
     (case po_constant po of
        None \<Rightarrow> Inr (po_attributes po)
      | Some c \<Rightarrow>
          if po_attributes po \<noteq> []
          then Inl (invalid_proposal ''proposal constant uses its exact literal instead of arbitrary attributes'')
          else Inr [(''value'', folded_json c)])"

definition insert_proposed ::
    "impl_operation \<Rightarrow> fragment_state \<Rightarrow> proposal_operation \<Rightarrow> fragment_state res" where
  "insert_proposed target st po =
     rbind (case parse_opcode (po_opcode po) of Inl m \<Rightarrow> Inl (invalid_proposal m) | Inr opcode \<Rightarrow> Inr opcode) (\<lambda>opcode.
     if opcode = Parameter then Inl (invalid_proposal ''proposal fragments cannot create parameters'')
     else
       rbind (traverse (\<lambda>i. ok_or (invalid_proposal ''proposal binding `{operand}` is unavailable'')
                (bmap_get (fs_bindings st) i)) (po_operands po)) (\<lambda>operands.
       rbind (map_err (invalid_proposal ''proposal operation failed inference: {}'')
                (infer_proposed_operation (fs_program st) opcode operands (po_attributes po) (po_constant po) (po_region po))) (\<lambda>t.
       let (a1, oid) = alloc_impl_operation (fs_alloc st);
           (a2, vid) = alloc_impl_value a1;
           p = fs_program st in
       rbind (proposed_attributes po) (\<lambda>attributes.
         Inr \<lparr>fs_program = p\<lparr>
                ip_values := bmap_insert vid \<lparr>iv_id = vid, iv_ty = t, iv_origin = ImplOperationOrigin oid,
                  iv_name = None, iv_source_link = proposed_link target\<rparr> (ip_values p),
                ip_constants := (case po_constant po of None \<Rightarrow> ip_constants p
                                 | Some c \<Rightarrow> bmap_insert vid c (ip_constants p)),
                ip_operations := bmap_insert oid \<lparr>io_id = oid, io_opcode = opcode, io_operands = operands,
                  io_results = [vid], io_attributes = attributes, io_region = po_region po,
                  io_result_types = [t], io_source_link = proposed_link target\<rparr> (ip_operations p)\<rparr>,
              fs_alloc = a2, fs_bindings = bmap_insert (po_bind po) vid (fs_bindings st),
              fs_operations = fs_operations st @ [oid], fs_values = fs_values st @ [vid]\<rparr>))))"

definition splice_after :: "string \<Rightarrow> string list \<Rightarrow> string list \<Rightarrow> string list option" where
  "splice_after x xs order =
     (if x \<in> set order
      then let n = Suc (length (takeWhile (\<lambda>y. y \<noteq> x) order)) in Some (take n order @ xs @ drop n order)
      else None)"

definition region_within :: "string list \<Rightarrow> proposal_operation \<Rightarrow> bool" where
  "region_within boundary po \<longleftrightarrow>
     (case po_region po of None \<Rightarrow> True | Some rg \<Rightarrow> list_all (\<lambda>i. i \<in> set boundary) (irg_captures rg))"

definition apply_proposal_fragment ::
    "impl_program \<Rightarrow> impl_operation \<Rightarrow> speculative_proposal \<Rightarrow> candidate_allocator \<Rightarrow> program \<Rightarrow>
     resource_limits \<Rightarrow> (applied_proposal \<times> candidate_allocator) res" where
  "apply_proposal_fragment p target sp alloc source limits =
     (let f = sp_replacement sp; boundary = map pi_value (pf_inputs f); n = length (pf_operations f) in
      if length (io_results target) \<noteq> 1 \<or> length (io_result_types target) \<noteq> 1
      then Inl (invalid_proposal ''Stage 2B replaces only single-result top-level operations'')
      else if boundary \<noteq> io_operands target
      then Inl (invalid_proposal ''proposal boundary must equal the target operand list in order'')
      else
        rbind (candidate_budget limits ProposalFragmentOperations n ''proposal fragment before persistent ID allocation'') (\<lambda>_.
        rbind (candidate_budget limits ProposalFragmentValues (u64_saturating_add n (length boundary))
                 ''proposal fragment before persistent ID allocation'') (\<lambda>_.
        if \<not> list_all (region_within boundary) (pf_operations f)
        then Inl (invalid_proposal ''proposal region captures a value outside the declared target boundary'')
        else
          rbind (rfold (insert_proposed target)
                   \<lparr>fs_program = p, fs_alloc = alloc,
                    fs_bindings = bmap_of_list (map (\<lambda>i. (pi_bind i, pi_value i)) (pf_inputs f)),
                    fs_operations = [], fs_values = []\<rparr> (pf_operations f)) (\<lambda>st.
          rbind (ok_or (invalid_proposal ''normalized proposal yield is unavailable'')
                   (bmap_get (fs_bindings st) (pf_result f))) (\<lambda>yielded.
          rbind (ok_or (invalid_proposal ''proposal yield value is absent'')
                   (bmap_get (ip_values (fs_program st)) yielded)) (\<lambda>v.
          rbind (slice_index (io_result_types target) 0) (\<lambda>t.
          if iv_ty v \<noteq> t then Inl (invalid_proposal ''proposal yield type differs from target result type'')
          else
            rbind (ok_or (invalid_proposal ''proposal target is absent from operation order'')
                     (splice_after (io_id target) (fs_operations st) (ip_order (fs_program st)))) (\<lambda>order.
            rbind (slice_index (io_results target) 0) (\<lambda>result.
            let q = replace_value ((fs_program st)\<lparr>ip_order := order\<rparr>) result yielded in
            rbind (map_err (invalid_proposal ''proposed ImplIR failed verification: {}'') (verify_impl q source limits)) (\<lambda>_.
              Inr (\<lparr>ap_program = q, ap_operations = fs_operations st, ap_values = fs_values st,
                    ap_yielded = yielded\<rparr>, fs_alloc st)))))))))))"

subsection \<open>Classification\<close>

definition guarded_self_division_matches :: "impl_program \<Rightarrow> impl_operation \<Rightarrow> applied_proposal \<Rightarrow> bool" where
  "guarded_self_division_matches p target ap \<longleftrightarrow>
     (case io_operands target of
        [x, y] \<Rightarrow>
          io_opcode target = Div \<and> x = y \<and> io_result_types target = [Scalar I32] \<and>
          bmap_get (ip_constants (ap_program ap)) (ap_yielded ap) = Some (CI32 1) \<and>
          (case bmap_get (ip_values p) x of None \<Rightarrow> False | Some v \<Rightarrow> iv_ty v = Scalar I32)
      | _ \<Rightarrow> False)"

text \<open>The first trusted rule whose result has the proposed hash; a rule that fails is skipped.\<close>

fun recognized_rewrite ::
    "candidate_encoders \<Rightarrow> impl_program \<Rightarrow> string \<Rightarrow> string \<Rightarrow> known_rewrite list \<Rightarrow>
     (string \<times> string list) option res" where
  "recognized_rewrite enc p target after [] = Inr None"
| "recognized_rewrite enc p target after (rule # rules) =
     rbind (attempt (apply_known_rewrite p (kr_id rule) target)) (\<lambda>r.
     case r of
       None \<Rightarrow> recognized_rewrite enc p target after rules
     | Some (q, side) \<Rightarrow>
         rbind (program_hash enc q) (\<lambda>h.
           if h = after then Inr (Some (kr_id rule, side))
           else recognized_rewrite enc p target after rules))"

definition classify_proposal ::
    "candidate_encoders \<Rightarrow> impl_program \<Rightarrow> impl_operation \<Rightarrow> applied_proposal \<Rightarrow> proposal_classification res" where
  "classify_proposal enc p target ap =
     rbind (program_hash enc p) (\<lambda>before.
     rbind (program_hash enc (ap_program ap)) (\<lambda>after.
     if before = after then Inr PcLegal
     else
       rbind (recognized_rewrite enc p (io_id target) after known_rewrite_rules) (\<lambda>r.
       if r \<noteq> None then Inr PcLegal
       else if guarded_self_division_matches p target ap then Inr PcConditional
       else if list_ex (\<lambda>op. rewrite_rule (io_source_link op) = Some ''speculative_proposal'' \<and> io_region op \<noteq> None)
                 (bmap_values (ip_operations (ap_program ap)))
       then Inr PcUnsupported else Inr PcUnknown)))"

end
