(* ===== verification/Candidate_Forest.thy ===== *)
theory Candidate_Forest
  imports Proposals
begin

text \<open>
  The operations of the candidate forest (\<open>agentir-core/src/candidate.rs\<close>). Each one works on a
  staged copy and is published only after the budgets and \<open>check\<close> accept it, so an error leaves
  the forest as it was: an operation returns the new forest with its report, or a failure.
\<close>

subsection \<open>Records the operations build\<close>

definition evidence_for ::
    "candidate_encoders \<Rightarrow> string \<Rightarrow> evidence_class \<Rightarrow> evidence_kind \<Rightarrow> string \<Rightarrow> string \<Rightarrow> string \<Rightarrow>
     string option \<Rightarrow> string \<Rightarrow> string \<Rightarrow> (string, json) bmap \<Rightarrow> nat \<Rightarrow> evidence_record" where
  "evidence_for enc i cls kind spec_hash cid rid before after rule params semantics =
     \<lparr>ev_id = i, ev_class = cls, ev_kind = kind, ev_spec_hash = spec_hash, ev_candidate = cid,
      ev_revision = rid, ev_input_impl_hash = before, ev_output_impl_hash = after, ev_method = rule,
      ev_parameters = params, ev_result = EvPassed, ev_counterexample = None,
      ev_provenance = provenance_for enc semantics\<rparr>"

definition certificate_for ::
    "string \<Rightarrow> string option \<Rightarrow> string \<Rightarrow> string list \<Rightarrow> string list \<Rightarrow> string \<Rightarrow> equivalence_certificate" where
  "certificate_for rule before after targets side ev =
     \<lparr>ct_rule = rule, ct_before_impl_hash = before, ct_after_impl_hash = after, ct_targets = targets,
      ct_side_conditions = side, ct_impl_semantics = impl_semantics_version, ct_evidence = ev\<rparr>"

text \<open>
  The end of every operation: the exact hash of the new revision, its insertion as the head of its
  branch, the event, the budgets, and the check that must succeed before publication.
\<close>

definition put_revision :: "candidate_forest \<Rightarrow> candidate \<Rightarrow> candidate_revision \<Rightarrow> candidate_forest" where
  "put_revision forest c r =
     forest\<lparr>fo_candidates := bmap_insert (cd_id c)
       (c\<lparr>cd_revisions := bmap_insert (cr_id r) r (cd_revisions c), cd_head := cr_id r\<rparr>) (fo_candidates forest)\<rparr>"

definition push_event :: "nat \<Rightarrow> candidate_event \<Rightarrow> candidate_forest \<Rightarrow> candidate_forest" where
  "push_event semantics e forest = forest\<lparr>fo_events := fo_events forest @ [(semantics, e)]\<rparr>"

definition publish ::
    "candidate_encoders \<Rightarrow> candidate_forest \<Rightarrow> string \<Rightarrow> string \<Rightarrow> program \<Rightarrow> resource_limits \<Rightarrow>
     (candidate_forest \<times> candidate_check_report) res" where
  "publish enc staged cid rid source limits =
     rbind (ensure_forest_budgets enc staged limits) (\<lambda>_.
     rmap (Pair staged) (check_candidate enc staged cid rid source limits))"

text \<open>A new head of an existing branch; the branch is looked up again in the staged copy.\<close>

definition publish_head ::
    "candidate_encoders \<Rightarrow> candidate_forest \<Rightarrow> string \<Rightarrow> candidate_revision \<Rightarrow> nat \<Rightarrow>
     (string \<Rightarrow> candidate_event) \<Rightarrow> program \<Rightarrow> resource_limits \<Rightarrow> (candidate_forest \<times> candidate_check_report) res" where
  "publish_head enc staged cid next semantics event source limits =
     rbind (ok_or Panic (bmap_get (fo_candidates staged) cid)) (\<lambda>c.
     rbind (revision_hash enc staged c next limits) (\<lambda>h.
     let r = next\<lparr>cr_candidate_hash := h\<rparr>;
         c' = c\<lparr>cd_revisions := bmap_insert (cr_id r) r (cd_revisions c), cd_head := cr_id r\<rparr>;
         staged' = push_event semantics (event h) (staged\<lparr>fo_candidates := bmap_insert cid c' (fo_candidates staged)\<rparr>) in
       publish enc staged' cid (cr_id r) source limits))"

definition pending_hash :: string where
  "pending_hash = ''pending''"

text \<open>The next revision on a branch: the parent's state under a new identifier.\<close>

definition child_revision :: "candidate_revision \<Rightarrow> string \<Rightarrow> string \<Rightarrow> candidate_revision" where
  "child_revision base rid base_id =
     base\<lparr>cr_id := rid, cr_parents := [base_id],
          cr_equivalence := (cr_equivalence base)\<lparr>eo_revision := rid\<rparr>\<rparr>"

definition add_evidence :: "evidence_record \<Rightarrow> candidate_forest \<Rightarrow> candidate_forest" where
  "add_evidence ev forest = forest\<lparr>fo_evidence := bmap_insert (ev_id ev) ev (fo_evidence forest)\<rparr>"

subsection \<open>Creation\<close>

definition create_candidate ::
    "candidate_encoders \<Rightarrow> candidate_forest \<Rightarrow> string \<Rightarrow> string \<Rightarrow> program \<Rightarrow> relation_kind \<Rightarrow> resource_limits \<Rightarrow>
     (candidate_forest \<times> candidate_check_report) res" where
  "create_candidate enc forest spec_revision spec_hash source relation limits =
     (if relation \<noteq> EquivalentToSpec
      then candidate_err UnsupportedRefinement ''Stage 2B supports only EquivalentToSpec''
      else
        rbind (candidate_budget limits CandidatesPerWorkspace (u64_saturating_add (length (fo_candidates forest)) 1)
                 ''candidate creation before ID allocation'') (\<lambda>_.
        let (a1, cid) = alloc_candidate (fo_allocator forest);
            (a2, rid) = alloc_candidate_revision a1;
            (a3, obid) = alloc_candidate_obligation a2;
            (a4, eid) = alloc_evidence a3 in
        rbind (identity_lower source a4) (\<lambda>(p, a5).
        rbind (verify_impl p source limits) (\<lambda>_.
        rbind (program_hash enc p) (\<lambda>h.
        let ev = evidence_for enc eid Correctness IdentityLowering spec_hash cid rid None h ''identity_lowering'' []
                   legacy_candidate_semantics;
            cert = certificate_for ''identity_lowering'' None h []
                     [''complete frozen SpecIR'', ''structural identity lowering''] eid;
            eo = \<lparr>eo_id = obid, eo_relation = relation, eo_spec_hash = spec_hash, eo_candidate = cid,
                  eo_revision = rid, eo_impl_hash = h, eo_status = EqProved\<rparr>;
            r = \<lparr>cr_id = rid, cr_parents = [], cr_program = p, cr_impl_hash = h,
                 cr_candidate_hash = pending_hash, cr_hash_version = legacy_candidate_canonical,
                 cr_state = CsEquivalent, cr_equivalence = eo, cr_proof_chain = [cert], cr_evidence = [eid],
                 cr_proof_frontier = None, cr_proof_debt = [], cr_translations = [], cr_fallback = None,
                 cr_memberships = [], cr_materializations = []\<rparr>;
            c = \<lparr>cd_id = cid, cd_spec_revision = spec_revision, cd_spec_hash = spec_hash,
                 cd_root_revision = rid, cd_head = rid, cd_revisions = [], cd_parent_candidate = None,
                 cd_forked_from = None\<rparr>;
            staged = forest\<lparr>fo_allocator := a5\<rparr> in
        rbind (revision_hash enc staged c r limits) (\<lambda>ch.
          publish enc
            (push_event legacy_candidate_semantics
               (CandidateCreated cid spec_revision relation rid h ch)
               (put_revision (add_evidence ev staged) c (r\<lparr>cr_candidate_hash := ch\<rparr>)))
            cid rid source limits))))))"

subsection \<open>Known rewrites\<close>

definition apply_candidate_action ::
    "candidate_encoders \<Rightarrow> candidate \<Rightarrow> program \<Rightarrow> resource_limits \<Rightarrow> candidate_forest \<times> candidate_revision \<Rightarrow>
     candidate_action \<Rightarrow> (candidate_forest \<times> candidate_revision) res" where
  "apply_candidate_action enc c source limits st act =
     (case act of ApplyKnownRewrite rule target expected \<Rightarrow>
      let (staged, next) = st in
      if (case expected of None \<Rightarrow> False | Some h \<Rightarrow> h \<noteq> cr_impl_hash next)
      then err RewritePreconditionFailed ''expected_before_impl_hash is stale''
      else
        rbind (candidate_budget limits RewriteStepsPerCandidate (length (cr_proof_chain next))
                 ''candidate rewrite proof chain'') (\<lambda>_.
        rbind (apply_known_rewrite (cr_program next) rule target) (\<lambda>(q, side).
        rbind (verify_impl q source limits) (\<lambda>_.
        rbind (program_hash enc q) (\<lambda>after.
        let before = cr_impl_hash next;
            (a, eid) = alloc_evidence (fo_allocator staged);
            ev = evidence_for enc eid Correctness KnownRewriteCertificate (cd_spec_hash c) (cd_id c) (cr_id next)
                   (Some before) after rule [(''target'', JString target)] legacy_candidate_semantics in
          Inr (add_evidence ev (staged\<lparr>fo_allocator := a\<rparr>),
               next\<lparr>cr_program := q, cr_impl_hash := after,
                    cr_proof_chain := cr_proof_chain next @ [certificate_for rule (Some before) after [target] side eid],
                    cr_evidence := cr_evidence next @ [eid]\<rparr>))))))"

text \<open>What a transaction records on the revision once its rewrites are done.\<close>

definition rewritten_revision :: "string \<Rightarrow> string \<Rightarrow> candidate_revision \<Rightarrow> candidate_revision" where
  "rewritten_revision cid rid next1 =
     (let next2 = next1\<lparr>cr_equivalence := (cr_equivalence next1)\<lparr>eo_impl_hash := cr_impl_hash next1, eo_status := EqProved\<rparr>\<rparr>;
          next3 = (if cr_hash_version next2 \<noteq> legacy_candidate_canonical \<and> cr_proof_frontier next2 \<noteq> None
                   then next2\<lparr>cr_proof_frontier := Some \<lparr>fr_candidate = cid, fr_revision = rid,
                          fr_terminal_impl_hash = cr_impl_hash next2\<rparr>\<rparr>
                   else next2) in
      next3\<lparr>cr_candidate_hash := pending_hash\<rparr>)"

definition apply_candidate ::
    "candidate_encoders \<Rightarrow> candidate_forest \<Rightarrow> candidate_transaction \<Rightarrow> program \<Rightarrow> string \<Rightarrow> resource_limits \<Rightarrow>
     (candidate_forest \<times> candidate_check_report) res" where
  "apply_candidate enc forest tx source spec_hash limits =
     (if ctx_actions tx = [] then err InvalidRequest ''candidate transaction must contain at least one action''
      else
        rbind (candidate_budget limits CandidateActionsPerTransaction (length (ctx_actions tx))
                 ''candidate transaction before graph clone'') (\<lambda>_.
        rbind (get_candidate_revision forest (ctx_candidate tx) (ctx_base_revision tx)) (\<lambda>(c, base).
        if cd_head c \<noteq> ctx_base_revision tx
        then candidate_err CandidateRevisionNotFound ''candidate transaction base is stale''
        else if cr_state base = CsSealed then candidate_err CandidateSealed ''sealed candidate cannot be edited''
        else if eo_status (cr_equivalence base) \<noteq> EqProved \<or> list_ex (\<lambda>d. pd_status d \<noteq> DebtProved) (cr_proof_debt base)
        then candidate_err CandidateHasProofDebt ''known rewrites require an exact proved candidate head''
        else
          rbind (verify_candidate_revision enc forest c base source spec_hash limits) (\<lambda>_.
          let (a1, rid) = alloc_candidate_revision (fo_allocator forest);
              next0 = (child_revision base rid (ctx_base_revision tx))\<lparr>cr_state := CsEquivalent\<rparr> in
          rbind (rfold (apply_candidate_action enc c source limits) (forest\<lparr>fo_allocator := a1\<rparr>, next0) (ctx_actions tx)) (\<lambda>(staged, next1).
            publish_head enc staged (ctx_candidate tx) (rewritten_revision (ctx_candidate tx) rid next1)
              (semantics_for_hash_version (cr_hash_version base))
              (TransactionApplied tx rid (cr_impl_hash next1)) source limits)))))"

subsection \<open>Proposals\<close>

definition debt_discharge_methods :: "string list" where
  "debt_discharge_methods =
     [''canonical_identity_validation'', ''recognized_known_rewrite'', ''guarded_self_division'']"

definition proposal_revision ::
    "candidate_revision \<Rightarrow> string \<Rightarrow> string \<Rightarrow> string \<Rightarrow> impl_program \<Rightarrow> string \<Rightarrow> proof_debt_item \<Rightarrow> candidate_revision" where
  "proposal_revision base rid cid base_id p after debt =
     (child_revision base rid base_id)\<lparr>
        cr_program := p, cr_impl_hash := after, cr_hash_version := candidate_canonical_version,
        cr_state := CsSpeculative,
        cr_equivalence := (cr_equivalence base)\<lparr>eo_revision := rid, eo_impl_hash := after, eo_status := EqOpen\<rparr>,
        cr_proof_frontier :=
          (case cr_proof_frontier base of
             None \<Rightarrow> Some \<lparr>fr_candidate = cid, fr_revision = base_id, fr_terminal_impl_hash = cr_impl_hash base\<rparr>
           | Some fr \<Rightarrow> Some fr),
        cr_proof_debt := cr_proof_debt base @ [debt], cr_candidate_hash := pending_hash\<rparr>"

definition propose_admits ::
    "candidate_encoders \<Rightarrow> candidate_forest \<Rightarrow> string \<Rightarrow> string \<Rightarrow> speculative_proposal \<Rightarrow> program \<Rightarrow> string \<Rightarrow>
     resource_limits \<Rightarrow> (candidate \<times> candidate_revision) res" where
  "propose_admits enc forest cid base_id sp source spec_hash limits =
     rbind (candidate_budget limits ProposalActionsPerTransaction (length (pf_operations (sp_replacement sp)))
              ''candidate proposal before graph clone'') (\<lambda>_.
     rbind (get_candidate_revision forest cid base_id) (\<lambda>(c, base).
     if cd_head c \<noteq> base_id then candidate_err CandidateRevisionNotFound ''candidate proposal base is stale''
     else if cr_state base \<in> {CsSealed, CsRejected}
     then candidate_err (if cr_state base = CsSealed then CandidateSealed else ObligationRefuted)
            ''sealed or rejected candidate cannot accept a proposal''
     else
       rbind (verify_candidate_revision enc forest c base source spec_hash limits) (\<lambda>_.
       if sp_expected_before_impl_hash sp \<noteq> cr_impl_hash base
       then err RewritePreconditionFailed ''proposal expected_before_impl_hash is stale''
       else Inr (c, base))))"

definition propose_budgets :: "candidate_forest \<Rightarrow> candidate_revision \<Rightarrow> resource_limits \<Rightarrow> unit res" where
  "propose_budgets forest base limits =
     rbind (candidate_budget limits ProposalsPerWorkspace (u64_saturating_add (length (fo_proposals forest)) 1)
              ''candidate proposal before persistent ID allocation'') (\<lambda>_.
     let projected = u64_saturating_add (length (cr_proof_debt base)) 1 in
     if limit limits (CandidateResource OpenProofDebtObligations) < projected
     then candidate_err ProofDebtLimitExceeded ''candidate proposal would exceed the ordered proof-debt limit''
     else candidate_budget limits SpeculativeDepthPerBranch projected
            ''candidate proposal before persistent ID allocation'')"

definition propose ::
    "candidate_encoders \<Rightarrow> candidate_forest \<Rightarrow> string \<Rightarrow> string \<Rightarrow> speculative_proposal \<Rightarrow> program \<Rightarrow> string \<Rightarrow>
     resource_limits \<Rightarrow> (candidate_forest \<times> candidate_check_report) res" where
  "propose enc forest cid base_id sp source spec_hash limits =
     rbind (propose_admits enc forest cid base_id sp source spec_hash limits) (\<lambda>(c, base).
     rbind (normalize_proposal sp) (\<lambda>normalized.
     rbind (ok_or (invalid_proposal ''proposal target `{}` does not exist'')
              (bmap_get (ip_operations (cr_program base)) (sp_target normalized))) (\<lambda>target.
     rbind (proposal_hash_of enc (cr_program base) target normalized limits) (\<lambda>ph.
     rbind (propose_budgets forest base limits) (\<lambda>_.
     rbind (apply_proposal_fragment (cr_program base) target normalized (fo_allocator forest) source limits) (\<lambda>(ap, a1).
     rbind (classify_proposal enc (cr_program base) target ap) (\<lambda>cls.
     if cls \<in> {PcConditional, PcUnknown, PcUnsupported} \<and> \<not> sp_allow_speculative normalized
     then candidate_err SpeculativeOptInRequired ''proposal is not yet an exact trusted rewrite''
     else if cls = PcConditional \<and> (cr_proof_debt base \<noteq> [] \<or> eo_status (cr_equivalence base) \<noteq> EqProved)
     then candidate_err FallbackInvalid ''guarded self-division requires the exact parent revision as fallback''
     else
       let (a2, pid) = alloc_proposal a1;
           (a3, rid) = alloc_candidate_revision a2;
           (a4, obid) = alloc_candidate_obligation a3 in
       rbind (program_hash enc (ap_program ap)) (\<lambda>after.
       let record = \<lparr>pr_id = pid, pr_proposal_hash = ph, pr_candidate = cid, pr_base_revision = base_id,
                     pr_accepted_revision = rid, pr_classification = cls, pr_proposal = normalized,
                     pr_after_impl_hash = after, pr_allocated_operations = ap_operations ap,
                     pr_allocated_values = ap_values ap, pr_yielded_value = ap_yielded ap\<rparr>;
           debt = \<lparr>pd_id = obid, pd_proposal = pid, pd_proposal_hash = ph, pd_base_revision = base_id,
                   pd_before_impl_hash = cr_impl_hash base, pd_after_impl_hash = after,
                   pd_target = io_id target, pd_boundary = io_operands target,
                   pd_relation = EquivalentToSpec, pd_status = DebtOpen,
                   pd_discharge_methods = debt_discharge_methods, pd_evidence = [],
                   pd_first_counterexample = None,
                   pd_origin_event = u64_saturating_add (length (fo_events forest)) 1\<rparr>;
           staged = forest\<lparr>fo_allocator := a4, fo_proposals := bmap_insert pid record (fo_proposals forest)\<rparr> in
         publish_head enc staged cid (proposal_revision base rid cid base_id (ap_program ap) after debt)
           candidate_semantics_version
           (ProposalAccepted cid base_id normalized pid rid ph after) source limits))))))))"

subsection \<open>Translation validation\<close>

datatype trusted_path =
  IdentityPath | KnownPath string "string list" | GuardedPath string | UnsupportedPath

definition trusted_path_of ::
    "candidate_encoders \<Rightarrow> proposal_record \<Rightarrow> candidate_revision \<Rightarrow> candidate_revision \<Rightarrow> impl_operation \<Rightarrow>
     trusted_path res" where
  "trusted_path_of enc pr before acceptance target =
     (if sp_expected_before_impl_hash (pr_proposal pr) = pr_after_impl_hash pr then Inr IdentityPath
      else
        rbind (recognized_rewrite enc (cr_program before) (io_id target) (pr_after_impl_hash pr) known_rewrite_rules) (\<lambda>k.
        case k of
          Some (rule, side) \<Rightarrow> Inr (KnownPath rule side)
        | None \<Rightarrow>
            if guarded_self_division_matches (cr_program before) target
                 \<lparr>ap_program = cr_program acceptance, ap_operations = pr_allocated_operations pr,
                  ap_values = pr_allocated_values pr, ap_yielded = pr_yielded_value pr\<rparr>
            then rmap GuardedPath (slice_index (io_operands target) 0)
            else Inr UnsupportedPath))"

text \<open>What a discharged debt item records: its status, the evidence and the certificate.\<close>

definition discharge ::
    "nat \<Rightarrow> debt_status \<Rightarrow> string \<Rightarrow> equivalence_certificate \<Rightarrow> candidate_revision \<Rightarrow> candidate_revision" where
  "discharge index status eid cert next =
     (let debt = cr_proof_debt next ! index in
      next\<lparr>cr_proof_debt := (cr_proof_debt next)[index := debt\<lparr>pd_status := status, pd_evidence := pd_evidence debt @ [eid]\<rparr>],
           cr_evidence := cr_evidence next @ [eid], cr_proof_chain := cr_proof_chain next @ [cert]\<rparr>)"

definition debt_parameters :: "proposal_record \<Rightarrow> proof_debt_item \<Rightarrow> (string, json) bmap" where
  "debt_parameters pr debt =
     bmap_of_list [(''proposal_hash'', JString (pr_proposal_hash pr)), (''target'', JString (pd_target debt))]"

definition discharge_debt ::
    "candidate_encoders \<Rightarrow> candidate_forest \<Rightarrow> candidate \<Rightarrow> string \<Rightarrow> candidate_revision \<Rightarrow> proposal_record \<Rightarrow>
     candidate_revision \<Rightarrow> nat \<Rightarrow> trusted_path \<Rightarrow>
     (candidate_forest \<times> candidate_revision \<times> validation_result \<times> string option) res" where
  "discharge_debt enc staged c cid next pr before index path =
     (let debt = cr_proof_debt next ! index;
          (a, eid) = alloc_evidence (fo_allocator staged);
          record = (\<lambda>kind rule params. evidence_for enc eid Correctness kind (cd_spec_hash c) cid (cr_id next)
                      (Some (pd_before_impl_hash debt)) (pd_after_impl_hash debt) rule params candidate_semantics_version);
          cert = (\<lambda>rule side. certificate_for rule (Some (pd_before_impl_hash debt)) (pd_after_impl_hash debt)
                      [pd_target debt] side eid);
          store = (\<lambda>ev. add_evidence ev (staged\<lparr>fo_allocator := a\<rparr>)) in
      case path of
        IdentityPath \<Rightarrow>
          Inr (store (record CanonicalIdentityValidation ''canonical_identity_validation'' (debt_parameters pr debt)),
               discharge index DebtProved eid
                 (cert ''canonical_identity_validation'' [''before_impl_hash == after_impl_hash'']) next,
               TvCanonicalIdentity, Some eid)
      | KnownPath rule side \<Rightarrow>
          Inr (store (record RecognizedKnownRewrite rule (debt_parameters pr debt)),
               discharge index DebtProved eid (cert rule side) next, TvRecognizedRewrite rule side, Some eid)
      | GuardedPath i \<Rightarrow>
          if eo_status (cr_equivalence before) \<noteq> EqProved \<or> cr_state before = CsRejected \<or>
             \<not> list_all (\<lambda>d. pd_status d = DebtProved) (cr_proof_debt before)
          then candidate_err FallbackInvalid ''guarded rewrite fallback is not fully proved exact''
          else
            let fb = \<lparr>gf_guard = I32NonZero i, gf_candidate = pr_candidate pr, gf_revision = pr_base_revision pr,
                      gf_candidate_hash = cr_candidate_hash before, gf_failure_strategy = ''evaluate_fallback'',
                      gf_evidence = eid\<rparr> in
              Inr (store (record GuardedRewriteCertificate ''guarded_i32_self_division''
                     (bmap_insert ''fallback_revision'' (JString (pr_base_revision pr)) (debt_parameters pr debt))),
                   (discharge index DebtGuarded eid
                     (cert ''guarded_i32_self_division''
                        [''x != 0 selects exact constant-one primary'', ''x == 0 selects the proved exact fallback'']) next)
                     \<lparr>cr_fallback := Some fb\<rparr>,
                   TvGuardedSelfDivision fb, Some eid)
      | UnsupportedPath \<Rightarrow>
          Inr (staged, next\<lparr>cr_proof_debt := (cr_proof_debt next)[index := debt\<lparr>pd_status := DebtUnsupported\<rparr>]\<rparr>,
               TvUnsupported, None))"

definition settle_revision ::
    "string \<Rightarrow> proposal_record \<Rightarrow> nat \<Rightarrow> validation_result \<Rightarrow> candidate_revision \<Rightarrow> candidate_revision res" where
  "settle_revision cid pr index result next =
     (let terminal = pd_after_impl_hash (cr_proof_debt next ! index);
          proved = list_all (\<lambda>d. pd_status d = DebtProved) (cr_proof_debt next);
          relation = (\<lambda>s. (cr_equivalence next)\<lparr>eo_status := s\<rparr>);
          exact = next\<lparr>
            cr_proof_frontier := Some \<lparr>
              fr_candidate = (if proved then cid else pr_candidate pr),
              fr_revision = (if proved then cr_id next else pr_accepted_revision pr),
              fr_terminal_impl_hash = terminal\<rparr>,
            cr_equivalence := relation (if proved then EqProved else EqOpen),
            cr_state := (if proved then CsEquivalent else CsSpeculative)\<rparr> in
      case result of
        TvCanonicalIdentity \<Rightarrow> Inr exact
      | TvRecognizedRewrite _ _ \<Rightarrow> Inr exact
      | TvGuardedSelfDivision _ \<Rightarrow>
          Inr (next\<lparr>cr_proof_frontier := Some \<lparr>fr_candidate = cid, fr_revision = cr_id next,
                      fr_terminal_impl_hash = terminal\<rparr>,
                    cr_state := CsGuarded, cr_equivalence := relation EqGuarded\<rparr>)
      | TvUnsupported \<Rightarrow> Inr (next\<lparr>cr_state := CsSpeculative, cr_equivalence := relation EqUnsupported\<rparr>)
      | TvRefuted _ \<Rightarrow> Inl Panic)"

definition first_index :: "('a \<Rightarrow> bool) \<Rightarrow> 'a list \<Rightarrow> nat option" where
  "first_index P xs = (if list_ex P xs then Some (length (takeWhile (\<lambda>x. \<not> P x) xs)) else None)"

definition translation_diagnostic :: "validation_result \<Rightarrow> error_code option" where
  "translation_diagnostic r = (if r = TvUnsupported then Some (CandidateStage TranslationUnsupported) else None)"

text \<open>The record of an earlier validation of a settled debt item.\<close>

definition repeat_translation ::
    "candidate_encoders \<Rightarrow> candidate_forest \<Rightarrow> string \<Rightarrow> string \<Rightarrow> candidate_revision \<Rightarrow> string \<Rightarrow> program \<Rightarrow>
     resource_limits \<Rightarrow> (candidate_forest \<times> translation_report) res" where
  "repeat_translation enc forest cid base_id base pid source limits =
     rbind (ok_or (Fail (agent_error_new EvidenceInvalid ''terminal proof debt lacks its translation result''))
              (find (\<lambda>t. tv_proposal t = pid) (rev (cr_translations base)))) (\<lambda>existing.
     rmap (\<lambda>report. (forest, \<lparr>tr_validation = existing, tr_candidate = report,
                             tr_diagnostic = translation_diagnostic (tv_result existing)\<rparr>))
       (check_candidate enc forest cid base_id source limits))"

definition proposal_origin ::
    "candidate_forest \<Rightarrow> proposal_record \<Rightarrow> (candidate_revision \<times> candidate_revision \<times> impl_operation) res" where
  "proposal_origin forest pr =
     rbind (ok_or (candidate_failure CandidateNotFound ''proposal origin candidate is missing'')
              (bmap_get (fo_candidates forest) (pr_candidate pr))) (\<lambda>pc.
     rbind (ok_or (candidate_failure CandidateRevisionNotFound ''proposal base revision is missing'')
              (bmap_get (cd_revisions pc) (pr_base_revision pr))) (\<lambda>before.
     rbind (ok_or (candidate_failure CandidateRevisionNotFound ''proposal acceptance revision is missing'')
              (bmap_get (cd_revisions pc) (pr_accepted_revision pr))) (\<lambda>acceptance.
     rmap (\<lambda>target. (before, acceptance, target))
       (ok_or (invalid_proposal ''proposal target disappeared from exact base'')
          (bmap_get (ip_operations (cr_program before)) (sp_target (pr_proposal pr)))))))"

definition is_translation_event :: "candidate_event \<Rightarrow> bool" where
  "is_translation_event e = (case e of TranslationChecked _ _ _ _ _ _ \<Rightarrow> True | _ \<Rightarrow> False)"

definition translate_open ::
    "candidate_encoders \<Rightarrow> candidate_forest \<Rightarrow> candidate \<Rightarrow> candidate_revision \<Rightarrow> string \<Rightarrow> string \<Rightarrow> string \<Rightarrow> nat \<Rightarrow>
     program \<Rightarrow> resource_limits \<Rightarrow> (candidate_forest \<times> translation_report) res" where
  "translate_open enc forest c base cid base_id pid index source limits =
     rbind (get_proposal forest pid) (\<lambda>pr.
     rbind (proposal_origin forest pr) (\<lambda>(before, acceptance, target).
     rbind (trusted_path_of enc pr before acceptance target) (\<lambda>path.
     rbind (candidate_budget limits TranslationValidationAttempts
              (u64_saturating_add (count_if (\<lambda>e. is_translation_event (snd e)) (fo_events forest)) 1)
              ''translation validation before persistent ID allocation'') (\<lambda>_.
     let (a1, rid) = alloc_candidate_revision (fo_allocator forest);
         next0 = (child_revision base rid base_id)\<lparr>cr_hash_version := candidate_canonical_version\<rparr> in
     rbind (discharge_debt enc (forest\<lparr>fo_allocator := a1\<rparr>) c cid next0 pr before index path) (\<lambda>(staged, next1, result, eid).
     rbind (settle_revision cid pr index result next1) (\<lambda>next2.
     let validation = \<lparr>tv_proposal = pid, tv_obligation = pd_id (cr_proof_debt next2 ! index), tv_revision = rid,
                       tv_validator_id = translation_validator_id,
                       tv_validator_version = translation_validator_version, tv_result = result, tv_evidence = eid\<rparr> in
     rmap (\<lambda>(forest', report). (forest', \<lparr>tr_validation = validation, tr_candidate = report,
                                         tr_diagnostic = translation_diagnostic result\<rparr>))
       (publish_head enc staged cid
          (next2\<lparr>cr_translations := cr_translations next2 @ [validation], cr_candidate_hash := pending_hash\<rparr>)
          candidate_semantics_version (TranslationChecked cid base_id pid rid result) source limits)))))))"

definition translation_check ::
    "candidate_encoders \<Rightarrow> candidate_forest \<Rightarrow> string \<Rightarrow> string \<Rightarrow> string \<Rightarrow> program \<Rightarrow> string \<Rightarrow> resource_limits \<Rightarrow>
     (candidate_forest \<times> translation_report) res" where
  "translation_check enc forest cid base_id pid source spec_hash limits =
     rbind (candidate_budget limits TranslationValidationWorkUnits (u64_saturating_add (length known_rewrite_rules) 2)
              ''trusted translation validator'') (\<lambda>_.
     rbind (get_candidate_revision forest cid base_id) (\<lambda>(c, base).
     if cd_head c \<noteq> base_id then candidate_err CandidateRevisionNotFound ''translation check base is stale''
     else if cr_state base = CsSealed
     then candidate_err CandidateSealed ''sealed candidate cannot record translation validation''
     else
       rbind (verify_candidate_revision enc forest c base source spec_hash limits) (\<lambda>_.
       rbind (ok_or (candidate_failure ProposalNotFound ''proposal `{proposal_id}` is not in candidate proof debt'')
                (first_index (\<lambda>d. pd_proposal d = pid) (cr_proof_debt base))) (\<lambda>index.
       if pd_status (cr_proof_debt base ! index) \<noteq> DebtOpen
       then repeat_translation enc forest cid base_id base pid source limits
       else if list_ex (\<lambda>d. pd_status d \<noteq> DebtProved) (take index (cr_proof_debt base))
       then candidate_err CandidateHasProofDebt ''translation validation cannot skip earlier ordered proof debt''
       else translate_open enc forest c base cid base_id pid index source limits))))"

subsection \<open>Forks\<close>

definition fork_candidate ::
    "candidate_encoders \<Rightarrow> candidate_forest \<Rightarrow> string \<Rightarrow> string \<Rightarrow> program \<Rightarrow> string \<Rightarrow> resource_limits \<Rightarrow>
     (candidate_forest \<times> candidate_check_report) res" where
  "fork_candidate enc forest parent_id parent_revision source spec_hash limits =
     rbind (get_candidate_revision forest parent_id parent_revision) (\<lambda>(parent, base).
     rbind (verify_candidate_revision enc forest parent base source spec_hash limits) (\<lambda>_.
     rbind (candidate_budget limits CandidateBranches (u64_saturating_add (length (fo_candidates forest)) 1)
              ''candidate fork before ID allocation'') (\<lambda>_.
     let (a1, cid) = alloc_candidate (fo_allocator forest);
         (a2, rid) = alloc_candidate_revision a1;
         (a3, obid) = alloc_candidate_obligation a2;
         staged = forest\<lparr>fo_allocator := a3\<rparr>;
         r = base\<lparr>cr_id := rid, cr_parents := [],
                  cr_state := (if cr_state base = CsSealed then CsDraft else cr_state base),
                  cr_equivalence := \<lparr>eo_id = obid, eo_relation = EquivalentToSpec,
                     eo_spec_hash = cd_spec_hash parent, eo_candidate = cid, eo_revision = rid,
                     eo_impl_hash = cr_impl_hash base, eo_status = eo_status (cr_equivalence base)\<rparr>\<rparr>;
         child = \<lparr>cd_id = cid, cd_spec_revision = cd_spec_revision parent, cd_spec_hash = cd_spec_hash parent,
                  cd_root_revision = rid, cd_head = rid, cd_revisions = [],
                  cd_parent_candidate = Some parent_id, cd_forked_from = Some parent_revision\<rparr> in
     rbind (revision_hash enc staged child r limits) (\<lambda>h.
       publish enc
         (push_event (semantics_for_hash_version (cr_hash_version r))
            (CandidateForked parent_id parent_revision cid rid h)
            (put_revision staged child (r\<lparr>cr_candidate_hash := h\<rparr>)))
         cid rid source limits))))"

subsection \<open>Differential validation\<close>

definition validation_shape_valid :: "differential_validation \<Rightarrow> bool" where
  "validation_shape_valid v \<longleftrightarrow>
     0 < dv_requested_cases v \<and> 0 < dv_executed_cases v \<and> dv_executed_cases v \<le> dv_requested_cases v \<and>
     (if dv_passed v then dv_executed_cases v = dv_requested_cases v \<and> dv_counterexample v = None
      else dv_counterexample v \<noteq> None)"

text \<open>A failed validation rejects the revision; a speculative one has its first unsettled debt refuted.\<close>

definition reject_revision ::
    "differential_validation \<Rightarrow> string \<Rightarrow> candidate_revision \<Rightarrow> candidate_revision res" where
  "reject_revision v eid next =
     (if dv_passed v then Inr next
      else if cr_hash_version next = legacy_candidate_canonical then Inr (next\<lparr>cr_state := CsRejected\<rparr>)
      else
        rbind (ok_or (Fail (agent_error_new EvidenceInvalid ''speculative counterexample has no affected proof-debt item''))
                 (first_index (\<lambda>d. pd_status d \<in> {DebtOpen, DebtUnsupported, DebtGuarded}) (cr_proof_debt next))) (\<lambda>index.
        let debt = cr_proof_debt next ! index in
          Inr (next\<lparr>cr_state := CsRejected,
                    cr_proof_debt := (cr_proof_debt next)[index := debt\<lparr>pd_status := DebtRefuted,
                       pd_first_counterexample := dv_counterexample v, pd_evidence := pd_evidence debt @ [eid]\<rparr>],
                    cr_equivalence := (cr_equivalence next)\<lparr>eo_status := EqRefuted\<rparr>, cr_fallback := None\<rparr>)))"

definition record_validation ::
    "candidate_encoders \<Rightarrow> candidate_forest \<Rightarrow> string \<Rightarrow> string \<Rightarrow> differential_validation \<Rightarrow> program \<Rightarrow> string \<Rightarrow>
     resource_limits \<Rightarrow> (candidate_forest \<times> candidate_check_report) res" where
  "record_validation enc forest cid base_id v source spec_hash limits =
     (if \<not> validation_shape_valid v
      then err EvidenceInvalid ''differential validation result is internally inconsistent''
      else
        rbind (candidate_budget limits DifferentialCases (dv_requested_cases v) ''candidate differential validation'') (\<lambda>_.
        rbind (case dv_counterexample v of
                 None \<Rightarrow> Inr ()
               | Some j \<Rightarrow> candidate_budget limits CounterexampleBytes (length (encode_counterexample enc j))
                            ''counterexample before EvidenceIR publication'') (\<lambda>_.
        rbind (get_candidate_revision forest cid base_id) (\<lambda>(c, base).
        if cd_head c \<noteq> base_id then candidate_err CandidateRevisionNotFound ''candidate validation base is stale''
        else if cr_state base = CsSealed
        then candidate_err CandidateSealed ''sealed candidate cannot record new validation evidence''
        else
          rbind (verify_candidate_revision enc forest c base source spec_hash limits) (\<lambda>_.
          let (a1, rid) = alloc_candidate_revision (fo_allocator forest);
              (a2, eid) = alloc_evidence a1 in
          rbind (reject_revision v eid (child_revision base rid base_id)) (\<lambda>next1.
          let next2 = next1\<lparr>cr_evidence := cr_evidence next1 @ [eid], cr_candidate_hash := pending_hash\<rparr>;
              ev = (evidence_for enc eid Confidence
                      (if cr_hash_version base = legacy_candidate_canonical then DifferentialTest
                       else SpeculativeDifferentialTest)
                      (cd_spec_hash c) cid rid (Some (cr_impl_hash next2)) (cr_impl_hash next2)
                      ''fixed_seed_differential_validation''
                      (bmap_of_list [(''seed'', JNumber (PosInt (dv_seed v))),
                                     (''cases'', JNumber (PosInt (dv_requested_cases v)))])
                      (semantics_for_hash_version (cr_hash_version base)))
                   \<lparr>ev_result := (if dv_passed v then EvPassed else EvFailed),
                    ev_counterexample := dv_counterexample v\<rparr> in
            publish_head enc (add_evidence ev (forest\<lparr>fo_allocator := a2\<rparr>)) cid next2
              (semantics_for_hash_version (cr_hash_version next2))
              (CandidateValidated cid base_id rid v) source limits))))))"

subsection \<open>Sealing\<close>

definition seal_candidate ::
    "candidate_encoders \<Rightarrow> candidate_forest \<Rightarrow> string \<Rightarrow> string \<Rightarrow> program \<Rightarrow> string \<Rightarrow> resource_limits \<Rightarrow>
     (candidate_forest \<times> candidate_check_report) res" where
  "seal_candidate enc forest cid base_id source spec_hash limits =
     rbind (get_candidate_revision forest cid base_id) (\<lambda>(c, base).
     if cd_head c \<noteq> base_id then candidate_err CandidateRevisionNotFound ''candidate seal base is stale''
     else
       rbind (verify_candidate_revision enc forest c base source spec_hash limits) (\<lambda>_.
       if cr_state base = CsSealed
       then rmap (Pair forest) (check_candidate enc forest cid base_id source limits)
       else if cr_state base = CsRejected \<or> eo_status (cr_equivalence base) = EqRefuted
       then candidate_err ObligationRefuted ''refuted candidate cannot be sealed''
       else if eo_status (cr_equivalence base) \<notin> {EqProved, EqGuarded} \<or>
          list_ex (\<lambda>d. pd_status d \<notin> {DebtProved, DebtGuarded}) (cr_proof_debt base)
       then candidate_err CandidateHasProofDebt ''candidate cannot be sealed with open or unsupported proof debt''
       else
         let (a1, rid) = alloc_candidate_revision (fo_allocator forest);
             (a2, eid) = alloc_evidence a1;
             next1 = (child_revision base rid base_id)\<lparr>cr_state := CsSealed,
                       cr_evidence := cr_evidence base @ [eid], cr_candidate_hash := pending_hash\<rparr>;
             ev = evidence_for enc eid Correctness
                    (if cr_hash_version base = legacy_candidate_canonical then CompositionalEquivalence
                     else CompositionalSpeculativeDischarge)
                    (cd_spec_hash c) cid rid (Some (cr_impl_hash next1)) (cr_impl_hash next1)
                    ''verify_compositional_equivalence''
                    [(''proof_edges'', JNumber (PosInt (length (cr_proof_chain next1))))]
                    (semantics_for_hash_version (cr_hash_version base)) in
           publish_head enc (add_evidence ev (forest\<lparr>fo_allocator := a2\<rparr>)) cid next1
             (semantics_for_hash_version (cr_hash_version next1))
             (CandidateSealedEvent cid base_id rid) source limits))"

subsection \<open>Continuations\<close>

record continuation_entry =
  ce_rule :: string
  ce_target :: string
  ce_side_conditions :: "string list"
  ce_reason_code :: string

record speculative_escape =
  se_target :: string
  se_boundary_inputs :: "string list"
  se_yield_type :: ty
  se_allowed_opcodes :: "string list"
  se_operation_limit :: nat
  se_expected_before_impl_hash :: string

record candidate_continuation =
  cc_candidate :: string
  cc_revision :: string
  cc_expected_before_impl_hash :: string
  cc_matches :: "continuation_entry list"
  cc_escape :: "speculative_escape option"

definition escape_opcodes :: "opcode list" where
  "escape_opcodes = [Constant, Add, Sub, Mul, Div, Fma, Compare, Select, Cast, Map, ZipMap, Reduce]"

definition speculative_escape_of :: "candidate_revision \<Rightarrow> resource_limits \<Rightarrow> speculative_escape option res" where
  "speculative_escape_of r limits =
     (case find (\<lambda>op. length (io_results op) = 1 \<and> io_opcode op \<noteq> Parameter)
             (List.map_filter (bmap_get (ip_operations (cr_program r))) (ip_order (cr_program r))) of
        None \<Rightarrow> Inr None
      | Some op \<Rightarrow>
          rmap (\<lambda>t. Some \<lparr>se_target = io_id op, se_boundary_inputs = io_operands op, se_yield_type = t,
                          se_allowed_opcodes = map show_opcode escape_opcodes,
                          se_operation_limit = limit limits (CandidateResource ProposalFragmentOperations),
                          se_expected_before_impl_hash = cr_impl_hash r\<rparr>)
            (slice_index (io_result_types op) 0))"

definition continuation_of ::
    "candidate_forest \<Rightarrow> string \<Rightarrow> string \<Rightarrow> resource_limits \<Rightarrow> candidate_continuation res" where
  "continuation_of forest cid rid limits =
     rbind (get_candidate_revision forest cid rid) (\<lambda>(c, r).
     if cr_state r = CsSealed then candidate_err CandidateSealed ''sealed candidate has no rewrite continuation''
     else
       rbind (production_rewrite_matches (cr_program r) limits) (\<lambda>ms.
       let entries = map (\<lambda>m. \<lparr>ce_rule = pm_rule m, ce_target = pm_target m,
             ce_side_conditions = pm_side_conditions m, ce_reason_code = pm_reason_code m\<rparr>) ms in
       rbind (candidate_budget limits RewriteMatchesPerContinuation (length entries)
                ''candidate continuation during shared production enumeration'') (\<lambda>_.
       rmap (\<lambda>e. \<lparr>cc_candidate = cid, cc_revision = rid, cc_expected_before_impl_hash = cr_impl_hash r,
                   cc_matches = entries, cc_escape = e\<rparr>)
         (speculative_escape_of r limits))))"

subsection \<open>Verification of a forest\<close>

text \<open>The frozen programs and their hashes come from the workspace: they are an argument here.\<close>

definition verify_candidates ::
    "candidate_encoders \<Rightarrow> candidate_forest \<Rightarrow> (string \<Rightarrow> (program \<times> string) res) \<Rightarrow> resource_limits \<Rightarrow> unit res" where
  "verify_candidates enc forest source limits =
     rbind (ensure_forest_budgets enc forest limits) (\<lambda>_.
     rbind (rfold (\<lambda>referenced c.
              rbind (source (cd_spec_revision c)) (\<lambda>(prog, spec_hash).
              rfold (\<lambda>referenced r.
                  rmap (\<lambda>_. fold bset_insert (cr_evidence r) referenced)
                    (verify_candidate_revision enc forest c r prog spec_hash limits))
                referenced (bmap_values (cd_revisions c))))
            [] (bmap_values (fo_candidates forest))) (\<lambda>referenced.
       if referenced \<noteq> bset_of_list (bmap_keys (fo_evidence forest))
       then err EvidenceInvalid ''candidate forest contains missing or orphaned EvidenceIR records''
       else Inr ()))"

end
