(* ===== verification/Equality.thy ===== *)
theory Equality
  imports Candidate_Forest
begin

text \<open>
  Equality spaces (\<open>agentir-core/src/equality.rs\<close>): whole programs joined by trusted rewrites,
  grown from one proved candidate revision by bounded expansion of a worklist. The store keeps
  immutable revisions and is replaced only when an operation succeeds.
\<close>

subsection \<open>Versions\<close>

definition equality_canonical_version :: nat where "equality_canonical_version = 1"
definition equality_semantics_version :: nat where "equality_semantics_version = 1"
definition equality_proof_path_version :: nat where "equality_proof_path_version = 1"

definition equality_hash_domain :: string where
  "equality_hash_domain = ''agentir.equality.exact.v1'' @ [CHR 0x00]"

definition equality_edge_domain :: string where
  "equality_edge_domain = ''agentir.equality.proof.edge.v1'' @ [CHR 0x00]"

definition equality_path_domain :: string where
  "equality_path_domain = ''agentir.equality.proof.path.v1'' @ [CHR 0x00]"

subsection \<open>Allocation\<close>

record equality_allocator =
  next_space :: nat
  next_equality_revision :: nat
  next_node :: nat
  next_edge :: nat

definition default_equality_allocator :: equality_allocator where
  "default_equality_allocator = \<lparr>next_space = 0, next_equality_revision = 0, next_node = 0, next_edge = 0\<rparr>"

definition alloc_space :: "equality_allocator \<Rightarrow> equality_allocator \<times> string" where
  "alloc_space a = (let n = u64_saturating_add (next_space a) 1 in (a\<lparr>next_space := n\<rparr>, ''eqs'' @ show_nat n))"

definition alloc_equality_revision :: "equality_allocator \<Rightarrow> equality_allocator \<times> string" where
  "alloc_equality_revision a =
     (let n = u64_saturating_add (next_equality_revision a) 1 in
      (a\<lparr>next_equality_revision := n\<rparr>, ''er'' @ show_nat n))"

definition alloc_node :: "equality_allocator \<Rightarrow> equality_allocator \<times> string" where
  "alloc_node a = (let n = u64_saturating_add (next_node a) 1 in (a\<lparr>next_node := n\<rparr>, ''en'' @ show_nat n))"

definition alloc_edge :: "equality_allocator \<Rightarrow> equality_allocator \<times> string" where
  "alloc_edge a = (let n = u64_saturating_add (next_edge a) 1 in (a\<lparr>next_edge := n\<rparr>, ''ee'' @ show_nat n))"

subsection \<open>Nodes, edges and revisions\<close>

record equality_anchor =
  ea_spec_revision :: string
  ea_candidate :: string
  ea_candidate_revision :: string
  ea_candidate_hash :: string
  ea_root_impl_hash :: string

record equality_node =
  en_id :: string
  en_program :: impl_program
  en_impl_hash :: string

text \<open>The derived order of descriptors is the lexicographic order of their fields.\<close>

datatype proof_descriptor =
  ProofDescriptor (pf_before: string) (pf_after: string) (pf_rule: string) (pf_target: rewrite_locator)
    (pf_side_conditions: "string list") (pf_impl_semantics: nat) (pf_equality_semantics: nat) (pf_validator: nat)

definition descriptor_key ::
    "proof_descriptor \<Rightarrow> string \<times> string \<times> string \<times> nat \<times> string \<times> string list \<times> nat \<times> nat \<times> nat" where
  "descriptor_key d =
     (pf_before d, pf_after d, pf_rule d, operation_order_index (pf_target d), locator_opcode (pf_target d),
      pf_side_conditions d, pf_impl_semantics d, pf_equality_semantics d, pf_validator d)"

lemma descriptor_key_inject: "descriptor_key d = descriptor_key e \<longleftrightarrow> d = e"
  by (cases d; cases e) (auto simp: descriptor_key_def)

instantiation proof_descriptor :: linorder
begin

definition less_eq_proof_descriptor :: "proof_descriptor \<Rightarrow> proof_descriptor \<Rightarrow> bool" where
  "less_eq_proof_descriptor d e \<longleftrightarrow> descriptor_key d \<le> descriptor_key e"

definition less_proof_descriptor :: "proof_descriptor \<Rightarrow> proof_descriptor \<Rightarrow> bool" where
  "less_proof_descriptor d e \<longleftrightarrow> descriptor_key d < descriptor_key e"

instance
proof
  fix d e f :: proof_descriptor
  show "d < e \<longleftrightarrow> d \<le> e \<and> \<not> e \<le> d"
    unfolding less_eq_proof_descriptor_def less_proof_descriptor_def by (rule less_le_not_le)
  show "d \<le> d" unfolding less_eq_proof_descriptor_def by simp
  show "d \<le> f" if "d \<le> e" "e \<le> f" using that unfolding less_eq_proof_descriptor_def by (rule order_trans)
  show "d = e" if "d \<le> e" "e \<le> d"
    using that unfolding less_eq_proof_descriptor_def descriptor_key_inject [symmetric] by (rule order_antisym)
  show "d \<le> e \<or> e \<le> d" unfolding less_eq_proof_descriptor_def by (rule linear)
qed

end

record proof_edge =
  ee_id :: string
  ee_source :: string
  ee_target :: string
  ee_descriptor :: proof_descriptor
  ee_digest :: string

datatype equality_status = StatusOpen | StatusFixedPoint | StatusFuelExhausted

text \<open>A work item is the node whose matches remain to be expanded.\<close>

record equality_revision =
  er_id :: string
  er_parents :: "string list"
  er_nodes :: "(string, equality_node) bmap"
  er_edges :: "(string, proof_edge) bmap"
  er_worklist :: "string list"
  er_status :: equality_status
  er_hash :: string
  er_memberships :: "membership_proof list"
  er_materializations :: "materialization_record list"

record equality_space =
  es_id :: string
  es_anchor :: equality_anchor
  es_spec_hash :: string
  es_root_node :: string
  es_head :: string
  es_revisions :: "(string, equality_revision) bmap"
  es_allocator :: equality_allocator

record expansion_result =
  xr_space :: string
  xr_revision :: string
  xr_hash :: string
  xr_status :: equality_status
  xr_processed :: nat
  xr_new_nodes :: nat
  xr_merged_nodes :: nat
  xr_new_edges :: nat
  xr_node_count :: nat
  xr_edge_count :: nat
  xr_remaining :: nat

record explanation =
  xp_root :: string
  xp_target :: string
  xp_root_impl_hash :: string
  xp_target_impl_hash :: string
  xp_edges :: "proof_edge list"
  xp_digest :: string
  xp_path_version :: nat
  xp_validator_version :: nat

record equality_query =
  eq_space :: string
  eq_revision :: string
  eq_hash :: string
  eq_spec_hash :: string
  eq_root_impl_hash :: string
  eq_status :: equality_status
  eq_node_count :: nat
  eq_edge_count :: nat
  eq_remaining :: nat

record equality_continuation =
  ec_space :: string
  ec_revision :: string
  ec_expected_hash :: string
  ec_expandable :: "string list"
  ec_matches :: "(string \<times> production_match \<times> string) list"
  ec_fuel_limit :: nat

datatype equality_event =
    SpaceCreated string string string string string
  | SpaceExpanded string string string nat string string
  | SpaceSaturated string string string nat string string
  | DebtDischarged string string string string string string string string string
  | NodeMaterialized string string string string string string string

text \<open>An event carries its semantics version and the number of candidate events before it.\<close>

record equality_store =
  st_spaces :: "(string, equality_space) bmap"
  st_allocator :: equality_allocator
  st_events :: "(nat \<times> nat \<times> equality_event) list"

definition default_equality_store :: equality_store where
  "default_equality_store = \<lparr>st_spaces = [], st_allocator = default_equality_allocator, st_events = []\<rparr>"

subsection \<open>Hashes and budgets\<close>

datatype equality_model =
  EqualityModel nat nat nat string equality_anchor string string "(string, equality_node) bmap"
    "(string, proof_edge) bmap" "string list" equality_status "membership_proof list" "materialization_record list"

datatype path_model = PathModel nat string string "string list"

record equality_encoders = candidate_encoders +
  encode_descriptor :: "proof_descriptor \<Rightarrow> string"
  encode_equality :: "equality_model \<Rightarrow> string"
  encode_store :: "equality_store \<Rightarrow> string"
  encode_path :: "path_model \<Rightarrow> string"

abbreviation forest_encoders :: "equality_encoders \<Rightarrow> candidate_encoders" where
  "forest_encoders enc \<equiv> candidate_encoders.truncate enc"

definition node_hash :: "equality_encoders \<Rightarrow> impl_program \<Rightarrow> string res" where
  "node_hash enc p = program_hash (forest_encoders enc) p"

definition domain_digest :: "equality_encoders \<Rightarrow> string \<Rightarrow> string \<Rightarrow> string" where
  "domain_digest enc domain bytes = sha256_hex enc (domain @ bytes)"

definition edge_digest :: "equality_encoders \<Rightarrow> proof_descriptor \<Rightarrow> string" where
  "edge_digest enc d = domain_digest enc equality_edge_domain (encode_descriptor enc d)"

definition equality_hash_with_limit ::
    "equality_encoders \<Rightarrow> equality_space \<Rightarrow> equality_revision \<Rightarrow> resource_limits \<Rightarrow> string res" where
  "equality_hash_with_limit enc space r limits =
     (let bytes = encode_equality enc
            (EqualityModel equality_canonical_version equality_semantics_version equality_validator_version
               (es_id space) (es_anchor space) (es_spec_hash space) (es_root_node space) (er_nodes r) (er_edges r)
               (er_worklist r) (er_status r) (er_memberships r) (er_materializations r)) in
      rmap (\<lambda>_. domain_digest enc equality_hash_domain bytes)
        (against limits EqualityCanonicalBytes (length bytes) ''equality exact-state canonicalization''))"

definition total_equality_revisions :: "(string, equality_space) bmap \<Rightarrow> nat" where
  "total_equality_revisions spaces = saturating_sum (map (\<lambda>s. length (es_revisions s)) (bmap_values spaces))"

definition ensure_store_budgets :: "equality_encoders \<Rightarrow> equality_store \<Rightarrow> resource_limits \<Rightarrow> unit res" where
  "ensure_store_budgets enc store limits =
     rbind (against limits EqualitySpacesPerWorkspace (length (st_spaces store)) ''equality space store'') (\<lambda>_.
     rbind (against limits EqualityRevisionsPerWorkspace (total_equality_revisions (st_spaces store))
              ''equality revision store'') (\<lambda>_.
     rbind (against limits EqualityEvents (length (st_events store)) ''Stage 2C optimization event stream'') (\<lambda>_.
       against limits EqualityArchiveBytes (length (encode_store enc store)) ''equality archive state'')))"

definition ensure_revision_budgets :: "equality_revision \<Rightarrow> resource_limits \<Rightarrow> unit res" where
  "ensure_revision_budgets r limits =
     rfold (\<lambda>_ (k, n). against limits k n ''equality revision state'') ()
       [(EqualityNodesPerSpace, length (er_nodes r)), (EqualityEdgesPerSpace, length (er_edges r)),
        (EqualityPendingWorkItems, length (er_worklist r))]"

subsection \<open>Lookups and creation\<close>

definition get_space :: "equality_store \<Rightarrow> string \<Rightarrow> equality_space res" where
  "get_space store i =
     ok_or (Fail (agent_error_new EqualitySpaceNotFound ''equality space `{id}` does not exist''))
       (bmap_get (st_spaces store) i)"

definition get_equality_revision :: "equality_store \<Rightarrow> string \<Rightarrow> string \<Rightarrow> equality_revision res" where
  "get_equality_revision store space rid =
     rbind (get_space store space) (\<lambda>s.
       ok_or (Fail (agent_error_new EqualityRevisionNotFound ''equality revision `{revision}` does not exist''))
         (bmap_get (es_revisions s) rid))"

definition push_equality_event :: "nat \<Rightarrow> equality_event \<Rightarrow> equality_store \<Rightarrow> equality_store" where
  "push_equality_event cursor e store =
     store\<lparr>st_events := st_events store @ [(equality_semantics_version, cursor, e)]\<rparr>"

text \<open>The anchor of a space is a fully proved, unguarded candidate revision.\<close>

definition anchor_admits :: "candidate_revision \<Rightarrow> unit res" where
  "anchor_admits r =
     (if cr_fallback r \<noteq> None \<or> eo_status (cr_equivalence r) = EqGuarded
      then candidate_err EqualityGuardedAnchorUnsupported
             ''guarded primary revision cannot become an unconditional equality root''
      else if eo_status (cr_equivalence r) \<noteq> EqProved \<or> cr_state r \<in> {CsSpeculative, CsRejected, CsGuarded} \<or>
          list_ex (\<lambda>d. pd_status d \<noteq> DebtProved) (cr_proof_debt r)
      then candidate_err EqualityAnchorUnproved ''equality root requires a fully proved exact candidate revision''
      else Inr ())"

definition root_space ::
    "string \<Rightarrow> string \<Rightarrow> string \<Rightarrow> string \<Rightarrow> string \<Rightarrow> candidate_revision \<Rightarrow> string \<Rightarrow>
     equality_space \<times> equality_revision" where
  "root_space sid cid rid spec_revision spec_hash r h =
     (let (a1, erid) = alloc_equality_revision default_equality_allocator;
          (a2, root) = alloc_node a1 in
      (\<lparr>es_id = sid,
        es_anchor = \<lparr>ea_spec_revision = spec_revision, ea_candidate = cid, ea_candidate_revision = rid,
                     ea_candidate_hash = cr_candidate_hash r, ea_root_impl_hash = h\<rparr>,
        es_spec_hash = spec_hash, es_root_node = root, es_head = erid, es_revisions = [], es_allocator = a2\<rparr>,
       \<lparr>er_id = erid, er_parents = [],
        er_nodes = [(root, \<lparr>en_id = root, en_program = cr_program r, en_impl_hash = h\<rparr>)],
        er_edges = [], er_worklist = [root], er_status = StatusOpen, er_hash = pending_hash,
        er_memberships = [], er_materializations = []\<rparr>))"

definition create_space ::
    "equality_encoders \<Rightarrow> equality_store \<Rightarrow> candidate_forest \<Rightarrow> string \<Rightarrow> string \<Rightarrow> program \<Rightarrow> string \<Rightarrow> string \<Rightarrow>
     resource_limits \<Rightarrow> (equality_store \<times> equality_query) res" where
  "create_space enc store forest cid rid source spec_revision spec_hash limits =
     rbind (against limits EqualitySpacesPerWorkspace (u64_saturating_add (length (st_spaces store)) 1)
              ''equality creation before persistent ID allocation'') (\<lambda>_.
     rbind (get_candidate_revision forest cid rid) (\<lambda>(c, r).
     if cd_spec_hash c \<noteq> spec_hash \<or> cd_spec_revision c \<noteq> spec_revision
     then err SpecHashMismatch ''equality anchor differs from the frozen SpecIR contract''
     else
       rbind (check_candidate (forest_encoders enc) forest cid rid source limits) (\<lambda>_.
       rbind (anchor_admits r) (\<lambda>_.
       rbind (verify_impl (cr_program r) source limits) (\<lambda>_.
       rbind (node_hash enc (cr_program r)) (\<lambda>h.
       if h \<noteq> cr_impl_hash r
       then candidate_err EqualityAnchorUnproved ''equality anchor terminal impl_hash is invalid''
       else
         let (a, sid) = alloc_space (st_allocator store);
             (space, first) = root_space sid cid rid spec_revision spec_hash r h in
         rbind (equality_hash_with_limit enc space first limits) (\<lambda>eh.
         let staged = push_equality_event (length (fo_events forest))
               (SpaceCreated cid rid sid (er_id first) eh)
               (store\<lparr>st_allocator := a,
                  st_spaces := bmap_insert sid
                    (space\<lparr>es_revisions := [(er_id first, first\<lparr>er_hash := eh\<rparr>)]\<rparr>) (st_spaces store)\<rparr>) in
         rmap (\<lambda>_. (staged,
                 \<lparr>eq_space = sid, eq_revision = er_id first, eq_hash = eh, eq_spec_hash = spec_hash,
                  eq_root_impl_hash = cr_impl_hash r, eq_status = StatusOpen, eq_node_count = 1,
                  eq_edge_count = 0, eq_remaining = 1\<rparr>))
           (ensure_store_budgets enc staged limits))))))))"

definition query_space :: "equality_store \<Rightarrow> string \<Rightarrow> string \<Rightarrow> equality_query res" where
  "query_space store sid rid =
     rbind (get_space store sid) (\<lambda>s.
     rmap (\<lambda>r. \<lparr>eq_space = sid, eq_revision = rid, eq_hash = er_hash r, eq_spec_hash = es_spec_hash s,
                eq_root_impl_hash = ea_root_impl_hash (es_anchor s), eq_status = er_status r,
                eq_node_count = length (er_nodes r), eq_edge_count = length (er_edges r),
                eq_remaining = length (er_worklist r)\<rparr>)
       (get_equality_revision store sid rid))"

subsection \<open>Expansion\<close>

record expansion =
  ex_allocator :: equality_allocator
  ex_revision :: equality_revision
  ex_new_nodes :: nat
  ex_merged_nodes :: nat
  ex_new_edges :: nat

text \<open>A program is merged into the first node with its hash, or becomes a new node with pending work.\<close>

definition join_node ::
    "impl_program \<Rightarrow> string \<Rightarrow> resource_limits \<Rightarrow> expansion \<Rightarrow> (expansion \<times> string) res" where
  "join_node transformed h limits x =
     (let r = ex_revision x in
      case find (\<lambda>n. en_impl_hash n = h) (bmap_values (er_nodes r)) of
        Some n \<Rightarrow> Inr (x\<lparr>ex_merged_nodes := u64_saturating_add (ex_merged_nodes x) 1\<rparr>, en_id n)
      | None \<Rightarrow>
          rbind (against limits EqualityNodesPerSpace (u64_saturating_add (length (er_nodes r)) 1)
                   ''equality node allocation'') (\<lambda>_.
          let (a, i) = alloc_node (ex_allocator x) in
            Inr (x\<lparr>ex_allocator := a,
                   ex_revision := r\<lparr>er_nodes := bmap_insert i
                       \<lparr>en_id = i, en_program = transformed, en_impl_hash = h\<rparr> (er_nodes r),
                     er_worklist := er_worklist r @ [i]\<rparr>,
                   ex_new_nodes := u64_saturating_add (ex_new_nodes x) 1\<rparr>, i)))"

definition join_edge ::
    "equality_encoders \<Rightarrow> string \<Rightarrow> string \<Rightarrow> proof_descriptor \<Rightarrow> resource_limits \<Rightarrow> expansion \<Rightarrow> expansion res" where
  "join_edge enc src tgt d limits x =
     (let r = ex_revision x; dig = edge_digest enc d in
      if list_ex (\<lambda>e. ee_source e = src \<and> ee_target e = tgt \<and> ee_descriptor e = d \<and> ee_digest e = dig)
           (bmap_values (er_edges r))
      then Inr x
      else
        rbind (against limits EqualityEdgesPerSpace (u64_saturating_add (length (er_edges r)) 1)
                 ''equality proof-edge allocation'') (\<lambda>_.
        let (a, i) = alloc_edge (ex_allocator x) in
          Inr (x\<lparr>ex_allocator := a,
                 ex_revision := r\<lparr>er_edges := bmap_insert i
                   \<lparr>ee_id = i, ee_source = src, ee_target = tgt, ee_descriptor = d, ee_digest = dig\<rparr> (er_edges r)\<rparr>,
                 ex_new_edges := u64_saturating_add (ex_new_edges x) 1\<rparr>)))"

definition expand_match ::
    "equality_encoders \<Rightarrow> equality_node \<Rightarrow> program \<Rightarrow> resource_limits \<Rightarrow> expansion \<Rightarrow> production_match \<Rightarrow>
     expansion res" where
  "expand_match enc node source limits x m =
     rbind (resolve_rewrite_locator (en_program node) (pm_locator m)) (\<lambda>target.
     if target \<noteq> pm_target m then err EqualityProofInvalid ''production target and stable locator disagree''
     else
       rbind (apply_known_rewrite (en_program node) (pm_rule m) target) (\<lambda>(q, side).
       if side \<noteq> pm_side_conditions m
       then err EqualityProofInvalid ''production matcher and transform side conditions disagree''
       else
         rbind (verify_impl q source limits) (\<lambda>_.
         rbind (node_hash enc q) (\<lambda>h.
         if h = en_impl_hash node then Inr x
         else
           rbind (join_node q h limits x) (\<lambda>(x1, tgt).
             join_edge enc (en_id node) tgt
               (ProofDescriptor (en_impl_hash node) h (pm_rule m) (pm_locator m) side
                  impl_semantics_version equality_semantics_version equality_validator_version)
               limits x1)))))"

definition expand_item ::
    "equality_encoders \<Rightarrow> program \<Rightarrow> resource_limits \<Rightarrow> string \<Rightarrow> string list \<Rightarrow> expansion \<Rightarrow> expansion res" where
  "expand_item enc source limits w ws x =
     (let x0 = x\<lparr>ex_revision := (ex_revision x)\<lparr>er_worklist := ws\<rparr>\<rparr> in
      rbind (ok_or (Fail (agent_error_new EqualityProofInvalid ''equality worklist references a missing node''))
               (bmap_get (er_nodes (ex_revision x0)) w)) (\<lambda>node.
      rbind (production_rewrite_matches (en_program node) limits) (\<lambda>ms.
      rmap (\<lambda>x1. x1\<lparr>ex_revision := (ex_revision x1)\<lparr>er_worklist := remdups_adj (sort (er_worklist (ex_revision x1)))\<rparr>\<rparr>)
        (rfold (expand_match enc node source limits) x0 ms))))"

text \<open>The loop stops when the worklist is empty or the caller's fuel is used up; it counts the items done.\<close>

fun expand_loop ::
    "equality_encoders \<Rightarrow> program \<Rightarrow> resource_limits \<Rightarrow> nat \<Rightarrow> nat \<Rightarrow> expansion \<Rightarrow> (expansion \<times> nat) res" where
  "expand_loop enc source limits 0 done_items x = Inr (x, done_items)"
| "expand_loop enc source limits (Suc fuel) done_items x =
     (case er_worklist (ex_revision x) of
        [] \<Rightarrow> Inr (x, done_items)
      | w # ws \<Rightarrow> rbind (expand_item enc source limits w ws x)
                   (expand_loop enc source limits fuel (Suc done_items)))"

definition expansion_status :: "string list \<Rightarrow> equality_status" where
  "expansion_status ws = (if ws = [] then StatusFixedPoint else StatusFuelExhausted)"

definition expand_revision ::
    "equality_encoders \<Rightarrow> equality_space \<Rightarrow> string \<Rightarrow> string \<Rightarrow> nat \<Rightarrow> program \<Rightarrow> resource_limits \<Rightarrow>
     (equality_space \<times> expansion \<times> nat) res" where
  "expand_revision enc space base_id expected fuel source limits =
     (if es_head space \<noteq> base_id then err StaleEqualityBase ''equality mutation base is stale''
      else if fuel = 0 then err InvalidRequest ''equality expansion fuel must be positive''
      else
        rbind (against limits EqualityExpansionStepsPerRequest fuel ''equality expansion before graph clone'') (\<lambda>_.
        rbind (ok_or (Fail (agent_error_new EqualityRevisionNotFound ''equality revision `{base_revision}` does not exist''))
                 (bmap_get (es_revisions space) base_id)) (\<lambda>base.
        if er_hash base \<noteq> expected then err EqualityHashMismatch ''expected equality hash is stale''
        else
          let (a, rid) = alloc_equality_revision (es_allocator space) in
          rbind (expand_loop enc source limits fuel 0
                   \<lparr>ex_allocator = a, ex_revision = base\<lparr>er_id := rid, er_parents := [base_id]\<rparr>,
                    ex_new_nodes = 0, ex_merged_nodes = 0, ex_new_edges = 0\<rparr>) (\<lambda>(x, n).
          let r = (ex_revision x)\<lparr>er_status := expansion_status (er_worklist (ex_revision x))\<rparr>;
              space' = space\<lparr>es_allocator := ex_allocator x\<rparr> in
          rbind (ensure_revision_budgets r limits) (\<lambda>_.
          rmap (\<lambda>h. (space', x\<lparr>ex_revision := r\<lparr>er_hash := h\<rparr>\<rparr>, n))
            (equality_hash_with_limit enc space' r limits))))))"

definition publish_expansion ::
    "equality_encoders \<Rightarrow> equality_store \<Rightarrow> string \<Rightarrow> string \<Rightarrow> string \<Rightarrow> nat \<Rightarrow> program \<Rightarrow> resource_limits \<Rightarrow> bool \<Rightarrow>
     nat \<Rightarrow> (equality_store \<times> expansion_result) res" where
  "publish_expansion enc store sid base_id expected fuel source limits saturating cursor =
     rbind (if saturating then against limits EqualitySaturationFuel fuel ''equality saturation caller fuel'' else Inr ()) (\<lambda>_.
     rbind (get_space store sid) (\<lambda>space.
     rbind (expand_revision enc space base_id expected fuel source limits) (\<lambda>(space', x, n).
     let r = ex_revision x;
         space'' = space'\<lparr>es_revisions := bmap_insert (er_id r) r (es_revisions space'), es_head := er_id r\<rparr>;
         event = (if saturating then SpaceSaturated sid base_id expected fuel (er_id r) (er_hash r)
                  else SpaceExpanded sid base_id expected fuel (er_id r) (er_hash r));
         staged = push_equality_event cursor event (store\<lparr>st_spaces := bmap_insert sid space'' (st_spaces store)\<rparr>) in
     rmap (\<lambda>_. (staged,
             \<lparr>xr_space = sid, xr_revision = er_id r, xr_hash = er_hash r, xr_status = er_status r,
              xr_processed = n, xr_new_nodes = ex_new_nodes x, xr_merged_nodes = ex_merged_nodes x,
              xr_new_edges = ex_new_edges x, xr_node_count = length (er_nodes r),
              xr_edge_count = length (er_edges r), xr_remaining = length (er_worklist r)\<rparr>))
       (ensure_store_budgets enc staged limits))))"

definition expand_space ::
    "equality_encoders \<Rightarrow> equality_store \<Rightarrow> string \<Rightarrow> string \<Rightarrow> string \<Rightarrow> nat \<Rightarrow> program \<Rightarrow> resource_limits \<Rightarrow>
     nat \<Rightarrow> (equality_store \<times> expansion_result) res" where
  "expand_space enc store sid base_id expected fuel source limits cursor =
     publish_expansion enc store sid base_id expected fuel source limits False cursor"

definition saturate_space ::
    "equality_encoders \<Rightarrow> equality_store \<Rightarrow> string \<Rightarrow> string \<Rightarrow> string \<Rightarrow> nat \<Rightarrow> program \<Rightarrow> resource_limits \<Rightarrow>
     nat \<Rightarrow> (equality_store \<times> expansion_result) res" where
  "saturate_space enc store sid base_id expected fuel source limits cursor =
     publish_expansion enc store sid base_id expected fuel source limits True cursor"

definition continuation_of_space ::
    "equality_store \<Rightarrow> string \<Rightarrow> string \<Rightarrow> resource_limits \<Rightarrow> equality_continuation res" where
  "continuation_of_space store sid rid limits =
     rbind (get_equality_revision store sid rid) (\<lambda>r.
     rmap (\<lambda>ms. \<lparr>ec_space = sid, ec_revision = rid, ec_expected_hash = er_hash r,
                 ec_expandable = er_worklist r, ec_matches = ms,
                 ec_fuel_limit = equality_saturation_fuel limits\<rparr>)
       (case er_worklist r of
          [] \<Rightarrow> Inr []
        | w # _ \<Rightarrow>
            rbind (ok_or (Fail (agent_error_new EqualityProofInvalid ''equality worklist references a missing node''))
                     (bmap_get (er_nodes r) w)) (\<lambda>node.
            rmap (map (\<lambda>m. (en_id node, m, en_impl_hash node)))
              (production_rewrite_matches (en_program node) limits))))"

definition node_program :: "equality_store \<Rightarrow> string \<Rightarrow> string \<Rightarrow> string \<Rightarrow> impl_program res" where
  "node_program store sid rid nid =
     rbind (get_equality_revision store sid rid) (\<lambda>r.
       rmap en_program
         (ok_or (Fail (agent_error_new EqualityNodeNotFound ''equality node `{node}` does not exist''))
            (bmap_get (er_nodes r) nid)))"

end
