(* ===== verification/Equality_Paths.thy ===== *)
theory Equality_Paths
  imports Equality
begin

text \<open>
  Explanations and verification of equality revisions (\<open>agentir-core/src/equality.rs\<close>): the search
  for the canonical path from the root to a node, the reproduction of every edge by the rewrite
  registry, and the entry points that return trusted explanations.
\<close>

subsection \<open>Keys of paths\<close>

text \<open>The derived order: depth first, then the descriptors, the edge identifiers and the node.\<close>

datatype path_key =
  PathKey (pk_depth: nat) (pk_descriptors: "proof_descriptor list") (pk_edges: "string list") (pk_node: string)

definition path_order :: "path_key \<Rightarrow> nat \<times> proof_descriptor list \<times> string list \<times> string" where
  "path_order k = (pk_depth k, pk_descriptors k, pk_edges k, pk_node k)"

lemma path_order_inject: "path_order k = path_order l \<longleftrightarrow> k = l"
  by (cases k; cases l) (simp add: path_order_def)

instantiation path_key :: linorder
begin

definition less_eq_path_key :: "path_key \<Rightarrow> path_key \<Rightarrow> bool" where
  "less_eq_path_key k l \<longleftrightarrow> path_order k \<le> path_order l"

definition less_path_key :: "path_key \<Rightarrow> path_key \<Rightarrow> bool" where
  "less_path_key k l \<longleftrightarrow> path_order k < path_order l"

instance
proof
  fix k l m :: path_key
  show "k < l \<longleftrightarrow> k \<le> l \<and> \<not> l \<le> k"
    unfolding less_eq_path_key_def less_path_key_def by (rule less_le_not_le)
  show "k \<le> k" unfolding less_eq_path_key_def by simp
  show "k \<le> m" if "k \<le> l" "l \<le> m" using that unfolding less_eq_path_key_def by (rule order_trans)
  show "k = l" if "k \<le> l" "l \<le> k"
    using that unfolding less_eq_path_key_def path_order_inject [symmetric] by (rule order_antisym)
  show "k \<le> l \<or> l \<le> k" unfolding less_eq_path_key_def by (rule linear)
qed

end

lemma deeper_key_less: "pk_depth k < pk_depth l \<Longrightarrow> k < l"
  by (simp add: less_path_key_def path_order_def)

lemma key_le_depth: "k \<le> l \<Longrightarrow> pk_depth k \<le> pk_depth l"
  by (auto simp: less_eq_path_key_def path_order_def)

subsection \<open>The search\<close>

record search =
  sr_frontier :: "path_key bset"
  sr_best :: "(string, nat) bmap"

definition edge_key :: "proof_edge \<Rightarrow> proof_descriptor \<times> string" where
  "edge_key e = (ee_descriptor e, ee_id e)"

definition outgoing :: "equality_revision \<Rightarrow> string \<Rightarrow> proof_edge list" where
  "outgoing r n = sort_key edge_key (filter (\<lambda>e. ee_source e = n) (bmap_values (er_edges r)))"

definition extend_path :: "path_key \<Rightarrow> proof_edge \<Rightarrow> path_key" where
  "extend_path k e =
     PathKey (Suc (length (pk_edges k))) (pk_descriptors k @ [ee_descriptor e]) (pk_edges k @ [ee_id e]) (ee_target e)"

definition extend_frontier ::
    "resource_limits \<Rightarrow> path_key \<Rightarrow> path_key bset \<Rightarrow> proof_edge \<Rightarrow> path_key bset res" where
  "extend_frontier limits k frontier e =
     (if ee_id e \<in> set (pk_edges k) then Inr frontier
      else
        rmap (\<lambda>_. bset_insert (extend_path k e) frontier)
          (against limits EqualityProofPathEdges (Suc (length (pk_edges k))) ''canonical equality proof path''))"

text \<open>One turn of the loop: either the search goes on with a new state, or a path is selected.\<close>

definition search_step ::
    "equality_revision \<Rightarrow> string \<Rightarrow> resource_limits \<Rightarrow> search \<Rightarrow> (search + path_key) res" where
  "search_step r target limits s =
     (case sr_frontier s of
        [] \<Rightarrow> err EqualityPathNotFound ''selected equality node is disconnected from the root''
      | k # ks \<Rightarrow>
          let depth = length (pk_edges k) in
          rbind (against limits EqualityExplanationDepth depth ''canonical equality explanation'') (\<lambda>_.
          if pk_node k = target then Inr (Inr k)
          else if (case bmap_get (sr_best s) (pk_node k) of None \<Rightarrow> False | Some known \<Rightarrow> known < depth)
          then Inr (Inl (s\<lparr>sr_frontier := ks\<rparr>))
          else
            rmap (\<lambda>fr. Inl \<lparr>sr_frontier = fr, sr_best = bmap_insert (pk_node k) depth (sr_best s)\<rparr>)
              (rfold (extend_frontier limits k) ks (outgoing r (pk_node k)))))"

partial_function (option) search_loop ::
    "equality_revision \<Rightarrow> string \<Rightarrow> resource_limits \<Rightarrow> search \<Rightarrow> path_key res option" where
  "search_loop r target limits s =
     (case search_step r target limits s of
        Inl e \<Rightarrow> Some (Inl e)
      | Inr (Inl s') \<Rightarrow> search_loop r target limits s'
      | Inr (Inr k) \<Rightarrow> Some (Inr k))"

declare search_loop.simps [code]

definition search_start :: "equality_space \<Rightarrow> search" where
  "search_start space = \<lparr>sr_frontier = [PathKey 0 [] [] (es_root_node space)], sr_best = []\<rparr>"

definition explanation_for ::
    "equality_encoders \<Rightarrow> equality_space \<Rightarrow> equality_revision \<Rightarrow> string \<Rightarrow> resource_limits \<Rightarrow> explanation res" where
  "explanation_for enc space r target limits =
     rbind (ok_or (Fail (agent_error_new EqualityProofInvalid ''equality root node is missing''))
              (bmap_get (er_nodes r) (es_root_node space))) (\<lambda>root.
     rbind (ok_or (Fail (agent_error_new EqualityNodeNotFound ''equality node `{target}` does not exist''))
              (bmap_get (er_nodes r) target)) (\<lambda>node.
     rbind (case search_loop r target limits (search_start space) of None \<Rightarrow> Inl Diverge | Some res \<Rightarrow> res) (\<lambda>k.
     rmap (\<lambda>es. \<lparr>xp_root = en_id root, xp_target = en_id node, xp_root_impl_hash = en_impl_hash root,
                 xp_target_impl_hash = en_impl_hash node, xp_edges = es,
                 xp_digest = domain_digest enc equality_path_domain
                   (encode_path enc (PathModel equality_proof_path_version (en_impl_hash root) (en_impl_hash node)
                      (map ee_digest es))),
                 xp_path_version = equality_proof_path_version,
                 xp_validator_version = equality_validator_version\<rparr>)
       (traverse (\<lambda>i. ok_or (Fail (agent_error_new EqualityProofInvalid ''canonical explanation references a missing edge''))
                        (bmap_get (er_edges r) i)) (pk_edges k)))))"

subsection \<open>Verification\<close>

abbreviation proof_invalid :: "string \<Rightarrow> 'a res" where
  "proof_invalid m \<equiv> err EqualityProofInvalid m"

definition verify_edge ::
    "equality_encoders \<Rightarrow> equality_revision \<Rightarrow> proof_edge \<Rightarrow> program \<Rightarrow> resource_limits \<Rightarrow> unit res" where
  "verify_edge enc r e source limits =
     (let d = ee_descriptor e in
      if ee_id e = [] \<or> pf_impl_semantics d \<noteq> impl_semantics_version \<or>
         pf_equality_semantics d \<noteq> equality_semantics_version \<or> pf_validator d \<noteq> equality_validator_version
      then proof_invalid ''equality proof edge uses an unsupported contract version''
      else if known_rewrite_rule (pf_rule d) = None
      then candidate_err EqualityRuleUntrusted ''equality proof edge uses unknown rule `{}`''
      else
        rbind (ok_or (Fail (agent_error_new EqualityProofInvalid ''equality proof edge source node is missing''))
                 (bmap_get (er_nodes r) (ee_source e))) (\<lambda>src.
        rbind (ok_or (Fail (agent_error_new EqualityProofInvalid ''equality proof edge target node is missing''))
                 (bmap_get (er_nodes r) (ee_target e))) (\<lambda>tgt.
        if en_impl_hash src \<noteq> pf_before d \<or> en_impl_hash tgt \<noteq> pf_after d \<or> en_impl_hash src = en_impl_hash tgt \<or>
           ee_digest e \<noteq> edge_digest enc d
        then proof_invalid ''equality proof edge hashes or digest are inconsistent''
        else
          rbind (resolve_rewrite_locator (en_program src) (pf_target d)) (\<lambda>target.
          rbind (apply_known_rewrite (en_program src) (pf_rule d) target) (\<lambda>(q, side).
          rbind (verify_impl q source limits) (\<lambda>_.
          if side \<noteq> pf_side_conditions d
          then proof_invalid ''equality proof edge cannot be reproduced by the production registry''
          else
            rbind (node_hash enc q) (\<lambda>h.
            if h \<noteq> en_impl_hash tgt
            then proof_invalid ''equality proof edge cannot be reproduced by the production registry''
            else Inr ())))))))"

definition verify_node ::
    "equality_encoders \<Rightarrow> program \<Rightarrow> resource_limits \<Rightarrow> string list \<Rightarrow> string \<times> equality_node \<Rightarrow> string list res" where
  "verify_node enc source limits hashes kn =
     (let n = snd kn in
      if en_id n \<noteq> fst kn \<or> en_impl_hash n \<in> set hashes
      then proof_invalid ''equality nodes violate ID consistency or impl_hash uniqueness''
      else
        rbind (verify_impl (en_program n) source limits) (\<lambda>_.
        rbind (node_hash enc (en_program n)) (\<lambda>h.
        if h \<noteq> en_impl_hash n then proof_invalid ''equality node impl_hash is invalid''
        else Inr (en_impl_hash n # hashes))))"

definition verify_edge_entry ::
    "equality_encoders \<Rightarrow> equality_revision \<Rightarrow> program \<Rightarrow> resource_limits \<Rightarrow>
     (string \<times> string \<times> proof_descriptor) list \<Rightarrow> string \<times> proof_edge \<Rightarrow>
     (string \<times> string \<times> proof_descriptor) list res" where
  "verify_edge_entry enc r source limits seen ke =
     (let e = snd ke; entry = (ee_source e, ee_target e, ee_descriptor e) in
      if ee_id e \<noteq> fst ke \<or> entry \<in> set seen
      then proof_invalid ''equality edges contain a duplicate proof descriptor''
      else rmap (\<lambda>_. entry # seen) (verify_edge enc r e source limits))"

definition worklist_valid :: "equality_revision \<Rightarrow> unit res" where
  "worklist_valid r =
     (if \<not> list_all (bmap_contains (er_nodes r)) (er_worklist r) \<or> \<not> distinct (er_worklist r)
      then proof_invalid ''equality worklist is duplicated or references a missing node''
      else if \<not> sorted (er_worklist r) \<or> (er_status r = StatusFixedPoint \<and> er_worklist r \<noteq> []) \<or>
              (er_status r \<noteq> StatusFixedPoint \<and> er_worklist r = [])
      then proof_invalid ''equality worklist and status are inconsistent''
      else Inr ())"

definition verify_revision ::
    "equality_encoders \<Rightarrow> equality_space \<Rightarrow> equality_revision \<Rightarrow> program \<Rightarrow> resource_limits \<Rightarrow> unit res" where
  "verify_revision enc space r source limits =
     rbind (ensure_revision_budgets r limits) (\<lambda>_.
     rbind (ok_or (Fail (agent_error_new EqualityProofInvalid ''equality revision lacks its root node''))
              (bmap_get (er_nodes r) (es_root_node space))) (\<lambda>root.
     if en_impl_hash root \<noteq> ea_root_impl_hash (es_anchor space)
     then proof_invalid ''equality root hash differs from immutable anchor''
     else
       rbind (rfold (verify_node enc source limits) [] (er_nodes r)) (\<lambda>_.
       rbind (rfold (verify_edge_entry enc r source limits) [] (er_edges r)) (\<lambda>_.
       rbind (worklist_valid r) (\<lambda>_.
       rbind (equality_hash_with_limit enc space r limits) (\<lambda>h.
       if h \<noteq> er_hash r then err EqualityHashMismatch ''equality exact-state hash is invalid''
       else
         rfold (\<lambda>_ n. rmap (\<lambda>_. ()) (explanation_for enc space r n limits)) () (bmap_keys (er_nodes r))))))))"

definition explain ::
    "equality_encoders \<Rightarrow> equality_store \<Rightarrow> string \<Rightarrow> string \<Rightarrow> string \<Rightarrow> program \<Rightarrow> resource_limits \<Rightarrow> explanation res" where
  "explain enc store sid rid target source limits =
     rbind (get_space store sid) (\<lambda>space.
     rbind (get_equality_revision store sid rid) (\<lambda>r.
     rbind (verify_revision enc space r source limits) (\<lambda>_.
       explanation_for enc space r target limits)))"

text \<open>The frozen programs and their hashes come from the workspace: they are an argument here.\<close>

definition verify_store ::
    "equality_encoders \<Rightarrow> equality_store \<Rightarrow> (string \<Rightarrow> (program \<times> string) res) \<Rightarrow> resource_limits \<Rightarrow> unit res" where
  "verify_store enc store source limits =
     rbind (ensure_store_budgets enc store limits) (\<lambda>_.
     if list_ex (\<lambda>e. fst e \<noteq> equality_semantics_version) (st_events store)
     then candidate_err EqualityEventOrderInvalid ''equality event uses an unsupported semantics version''
     else
       rfold (\<lambda>_ (i, space).
          if es_id space \<noteq> i \<or> \<not> bmap_contains (es_revisions space) (es_head space)
          then proof_invalid ''equality space identity or head is invalid''
          else
            rbind (source (ea_spec_revision (es_anchor space))) (\<lambda>(prog, spec_hash).
            if spec_hash \<noteq> es_spec_hash space then err SpecHashMismatch ''equality space spec_hash anchor is invalid''
            else rfold (\<lambda>_ r. verify_revision enc space r prog limits) () (bmap_values (es_revisions space))))
         () (st_spaces store))"

end
