(* ===== verification/Equality_Forest.thy ===== *)
theory Equality_Forest
  imports Equality_Paths
begin

text \<open>
  Where equality spaces act on candidates (\<open>agentir-core/src/equality.rs\<close>): the discharge of proof
  debt by a trusted path, and the materialization of a node as a new exact candidate. Both replace
  the forest and the store together or leave both as they were.
\<close>

subsection \<open>Shared checks\<close>

definition equality_method :: string where
  "equality_method = ''equality_membership_v1''"

text \<open>The anchor of a space must still be the proved revision that it was created from.\<close>

definition anchor_current ::
    "equality_encoders \<Rightarrow> candidate_forest \<Rightarrow> equality_space \<Rightarrow> program \<Rightarrow> string \<Rightarrow> resource_limits \<Rightarrow> unit res" where
  "anchor_current enc forest space source msg limits =
     (let a = es_anchor space in
      rbind (get_candidate_revision forest (ea_candidate a) (ea_candidate_revision a)) (\<lambda>(c, r).
      rbind (check_candidate (forest_encoders enc) forest (ea_candidate a) (ea_candidate_revision a) source limits) (\<lambda>_.
      if cr_candidate_hash r \<noteq> ea_candidate_hash a \<or> cr_impl_hash r \<noteq> ea_root_impl_hash a \<or>
         eo_status (cr_equivalence r) \<noteq> EqProved \<or> cr_fallback r \<noteq> None
      then candidate_err EqualityAnchorUnproved msg
      else Inr ())))"

definition trusted_explanation ::
    "equality_encoders \<Rightarrow> equality_space \<Rightarrow> equality_revision \<Rightarrow> string \<Rightarrow> program \<Rightarrow> resource_limits \<Rightarrow> explanation res" where
  "trusted_explanation enc space er target source limits =
     rbind (verify_revision enc space er source limits) (\<lambda>_. explanation_for enc space er target limits)"

text \<open>The revision becomes the head of the branch.\<close>

definition replace_head :: "candidate_forest \<Rightarrow> string \<Rightarrow> candidate \<Rightarrow> candidate_revision \<Rightarrow> candidate_forest" where
  "replace_head forest cid c r =
     forest\<lparr>fo_candidates := bmap_insert cid
       (c\<lparr>cd_revisions := bmap_insert (cr_id r) r (cd_revisions c), cd_head := cr_id r\<rparr>) (fo_candidates forest)\<rparr>"

subsection \<open>Discharge of proof debt\<close>

record discharge_result =
  dr_revision :: string
  dr_candidate_hash :: string
  dr_membership :: membership_proof

text \<open>The new revision, up to its hash, with the evidence it is given.\<close>

definition membership_revision ::
    "candidate_revision \<Rightarrow> string \<Rightarrow> string \<Rightarrow> string \<Rightarrow> string \<Rightarrow> nat \<Rightarrow> string \<Rightarrow>
     membership_proof \<Rightarrow> candidate_revision" where
  "membership_revision base cid rid base_id pid index frontier proof =
     (let debt = cr_proof_debt base ! index;
          debts = (cr_proof_debt base)[index := debt\<lparr>pd_status := DebtProved, pd_evidence := pd_evidence debt @ [mp_evidence proof]\<rparr>];
          proved = list_all (\<lambda>d. pd_status d = DebtProved) debts;
          next = child_revision base rid base_id in
      next\<lparr>
        cr_hash_version := equality_candidate_canonical,
        cr_proof_debt := debts,
        cr_evidence := cr_evidence base @ [mp_evidence proof],
        cr_proof_chain := cr_proof_chain base @
          [certificate_for equality_method (Some (pd_before_impl_hash debt)) (pd_after_impl_hash debt) [pd_target debt]
             [''canonical trusted equality path verified'', ''path_digest == '' @ mp_path_digest proof] (mp_evidence proof)],
        cr_proof_frontier := Some \<lparr>fr_candidate = cid,
            fr_revision = frontier,
            fr_terminal_impl_hash = pd_after_impl_hash debt\<rparr>,
        cr_equivalence := (cr_equivalence next)\<lparr>eo_status := (if proved then EqProved else EqOpen)\<rparr>,
        cr_state := (if proved then CsEquivalent else CsSpeculative),
        cr_memberships := cr_memberships base @ [proof],
        cr_translations := cr_translations base @
          [\<lparr>tv_proposal = pid, tv_obligation = pd_id debt, tv_revision = rid,
             tv_validator_id = ''agentir.equality_validator'', tv_validator_version = equality_validator_version,
             tv_result = TvRecognizedRewrite equality_method [''trusted root-to-node path''],
             tv_evidence = Some (mp_evidence proof)\<rparr>],
        cr_candidate_hash := pending_hash\<rparr>)"

definition discharge_index ::
    "candidate_revision \<Rightarrow> string \<Rightarrow> nat res" where
  "discharge_index base pid =
     rbind (ok_or (candidate_failure ProposalNotFound ''proposal `{proposal_id}` is not in candidate proof debt'')
              (first_index (\<lambda>d. pd_proposal d = pid) (cr_proof_debt base))) (\<lambda>index.
     if pd_status (cr_proof_debt base ! index) \<notin> {DebtOpen, DebtUnsupported} \<or>
        list_ex (\<lambda>d. pd_status d \<noteq> DebtProved) (take index (cr_proof_debt base))
     then candidate_err CandidateHasProofDebt
            ''equality validation must discharge the next unresolved obligation in order''
     else Inr index)"

definition candidate_discharge ::
    "equality_encoders \<Rightarrow> equality_store \<Rightarrow> candidate_forest \<Rightarrow> string \<Rightarrow> string \<Rightarrow> string \<Rightarrow> string \<Rightarrow> string \<Rightarrow> string \<Rightarrow>
     string \<Rightarrow> program \<Rightarrow> string \<Rightarrow> resource_limits \<Rightarrow> (equality_store \<times> candidate_forest \<times> discharge_result) res" where
  "candidate_discharge enc store forest cid base_id pid sid erid expected target source spec_hash limits =
     rbind (get_candidate_revision forest cid base_id) (\<lambda>(c, base).
     if cd_head c \<noteq> base_id
     then candidate_err CandidateRevisionNotFound ''candidate equality-check base is stale''
     else
       rbind (check_candidate (forest_encoders enc) forest cid base_id source limits) (\<lambda>_.
       if cd_spec_hash c \<noteq> spec_hash
       then err SpecHashMismatch ''candidate equality-check spec_hash differs from frozen SpecIR''
       else
         rbind (discharge_index base pid) (\<lambda>index.
         let debt = cr_proof_debt base ! index in
         rbind (get_space store sid) (\<lambda>space.
         rbind (get_equality_revision store sid erid) (\<lambda>er.
         if er_hash er \<noteq> expected then err EqualityHashMismatch ''candidate equality-check expected hash is stale''
         else if es_spec_hash space \<noteq> spec_hash \<or> ea_root_impl_hash (es_anchor space) \<noteq> pd_before_impl_hash debt \<or>
              (case bmap_get (er_nodes er) target of None \<Rightarrow> True | Some n \<Rightarrow> en_impl_hash n \<noteq> pd_after_impl_hash debt)
         then err EqualityProofInvalid ''equality root/target hashes do not match the selected proof obligation''
         else
           rbind (anchor_current enc forest space source
                    ''equality proof anchor is no longer a fully proved exact revision'' limits) (\<lambda>_.
           rbind (trusted_explanation enc space er target source limits) (\<lambda>xp.
           let (a1, rid) = alloc_candidate_revision (fo_allocator forest);
               (a2, eid) = alloc_evidence a1;
               proof = \<lparr>mp_space = sid, mp_revision = erid, mp_equality_hash = expected,
                        mp_root_impl_hash = xp_root_impl_hash xp, mp_target_impl_hash = xp_target_impl_hash xp,
                        mp_path_digest = xp_digest xp, mp_edges = map ee_id (xp_edges xp), mp_obligation = pd_id debt,
                        mp_proposal = pid, mp_evidence = eid\<rparr>;
               settled = list_all (\<lambda>d. pd_status d = DebtProved) ((cr_proof_debt base)[index := debt\<lparr>pd_status := DebtProved\<rparr>]) in
           rbind (if settled then Inr rid else rmap pr_accepted_revision (get_proposal forest pid)) (\<lambda>frontier.
           let next = membership_revision base cid rid base_id pid index frontier proof;
               ev = evidence_for (forest_encoders enc) eid Correctness EqualityMembership spec_hash cid rid
                      (Some (xp_root_impl_hash xp)) (xp_target_impl_hash xp) equality_method
                      (bmap_of_list [(''equality_space'', JString sid), (''equality_revision'', JString erid),
                                     (''equality_hash'', JString expected), (''path_digest'', JString (xp_digest xp))])
                      equality_candidate_semantics;
               staged = add_evidence ev (forest\<lparr>fo_allocator := a2\<rparr>) in
           rbind (get_candidate staged cid) (\<lambda>c'.
           rbind (revision_hash (forest_encoders enc) staged c' next limits) (\<lambda>h.
           let staged' = replace_head staged cid c' (next\<lparr>cr_candidate_hash := h\<rparr>);
               store' = push_equality_event (length (fo_events staged'))
                 (DebtDischarged cid base_id pid sid erid expected target rid h) store in
           rbind (ensure_forest_budgets (forest_encoders enc) staged' limits) (\<lambda>_.
           rbind (ensure_store_budgets enc store' limits) (\<lambda>_.
           rmap (\<lambda>_. (store', staged', \<lparr>dr_revision = rid, dr_candidate_hash = h, dr_membership = proof\<rparr>))
             (check_candidate (forest_encoders enc) staged' cid rid source limits)))))))))))))"

subsection \<open>Materialization\<close>

record materialization_result =
  ma_candidate :: string
  ma_revision :: string
  ma_candidate_hash :: string
  ma_record :: materialization_record

text \<open>One edge of the path is replayed as a transaction on the fork; an error of the locator is renamed.\<close>

definition replay_edge ::
    "equality_encoders \<Rightarrow> string \<Rightarrow> program \<Rightarrow> string \<Rightarrow> resource_limits \<Rightarrow> candidate_forest \<times> string \<Rightarrow> proof_edge \<Rightarrow>
     (candidate_forest \<times> string) res" where
  "replay_edge enc cid source spec_hash limits st e =
     (let d = ee_descriptor e in
      rbind (get_candidate_revision (fst st) cid (snd st)) (\<lambda>(c, current).
      rbind (map_err (candidate_failure EqualityMaterializationFailed ''materialization target replay failed: {}'')
               (resolve_rewrite_locator (cr_program current) (pf_target d))) (\<lambda>target.
      rbind (apply_candidate (forest_encoders enc) (fst st)
               \<lparr>ctx_candidate = cid, ctx_base_revision = snd st,
                ctx_actions = [ApplyKnownRewrite (pf_rule d) target (Some (pf_before d))]\<rparr>
               source spec_hash limits) (\<lambda>(forest', report).
      if rp_impl_hash report \<noteq> pf_after d
      then candidate_err EqualityMaterializationFailed ''materialized rewrite produced an unexpected impl_hash''
      else Inr (forest', rp_revision report)))))"

definition terminal_revision ::
    "candidate_revision \<Rightarrow> materialization_record \<Rightarrow> string \<Rightarrow> candidate_revision" where
  "terminal_revision r record eid =
     r\<lparr>cr_state := CsEquivalent, cr_hash_version := equality_candidate_canonical,
       cr_materializations := cr_materializations r @ [record], cr_evidence := cr_evidence r @ [eid],
       cr_candidate_hash := pending_hash\<rparr>"

definition materialize ::
    "equality_encoders \<Rightarrow> equality_store \<Rightarrow> candidate_forest \<Rightarrow> string \<Rightarrow> string \<Rightarrow> string \<Rightarrow> string \<Rightarrow> program \<Rightarrow>
     string \<Rightarrow> resource_limits \<Rightarrow> (equality_store \<times> candidate_forest \<times> materialization_result) res" where
  "materialize enc store forest sid erid expected target source spec_hash limits =
     rbind (get_space store sid) (\<lambda>space.
     rbind (get_equality_revision store sid erid) (\<lambda>er.
     if er_hash er \<noteq> expected then err EqualityHashMismatch ''materialization expected equality hash is stale''
     else if es_spec_hash space \<noteq> spec_hash
     then err SpecHashMismatch ''materialization equality space has a different spec_hash''
     else
       rbind (anchor_current enc forest space source
                ''equality materialization anchor is not fully proved exact'' limits) (\<lambda>_.
       rbind (trusted_explanation enc space er target source limits) (\<lambda>xp.
       rbind (candidate_budget limits EqualityMaterializationSteps (length (xp_edges xp))
                ''equality materialization before candidate allocation'') (\<lambda>_.
       let a = es_anchor space; cursor = length (fo_events forest) in
       rbind (fork_candidate (forest_encoders enc) forest (ea_candidate a) (ea_candidate_revision a) source spec_hash
                limits) (\<lambda>(forked, report).
       let cid = rp_candidate report in
       rbind (rfold (replay_edge enc cid source spec_hash limits) (forked, rp_revision report) (xp_edges xp)) (\<lambda>(replayed, rid).
       let (b, eid) = alloc_evidence (fo_allocator replayed);
           record = \<lparr>mr_space = sid, mr_revision = erid, mr_equality_hash = expected, mr_target_node = target,
                     mr_path_digest = xp_digest xp, mr_anchor_candidate = ea_candidate a,
                     mr_anchor_revision = ea_candidate_revision a, mr_candidate = cid, mr_candidate_revision = rid\<rparr>;
           ev = evidence_for (forest_encoders enc) eid Correctness EqualityMaterialization spec_hash cid rid
                  (Some (xp_root_impl_hash xp)) (xp_target_impl_hash xp) ''equality_materialization_v1''
                  (bmap_of_list [(''equality_space'', JString sid), (''path_digest'', JString (xp_digest xp))])
                  equality_candidate_semantics;
           staged = add_evidence ev (replayed\<lparr>fo_allocator := b, fo_events := take cursor (fo_events replayed)\<rparr>) in
       rbind (get_candidate_revision staged cid rid) (\<lambda>(c, r).
       if cr_impl_hash r \<noteq> xp_target_impl_hash xp
       then candidate_err EqualityMaterializationFailed
              ''materialized terminal impl_hash differs from selected equality node''
       else
         let terminal = terminal_revision r record eid in
         rbind (revision_hash (forest_encoders enc) staged c terminal limits) (\<lambda>h.
         let staged' = staged\<lparr>fo_candidates := bmap_insert cid
               (c\<lparr>cd_revisions := bmap_insert rid (terminal\<lparr>cr_candidate_hash := h\<rparr>) (cd_revisions c)\<rparr>)
               (fo_candidates staged)\<rparr>;
             store' = push_equality_event cursor (NodeMaterialized sid erid expected target cid rid h) store in
         rbind (ensure_forest_budgets (forest_encoders enc) staged' limits) (\<lambda>_.
         rbind (ensure_store_budgets enc store' limits) (\<lambda>_.
         rmap (\<lambda>_. (store', staged', \<lparr>ma_candidate = cid, ma_revision = rid, ma_candidate_hash = h, ma_record = record\<rparr>))
           (check_candidate (forest_encoders enc) staged' cid rid source limits))))))))))))"

end
