(* ===== verification/Path_Search.thy ===== *)
theory Path_Search
  imports Equality_Paths
begin

text \<open>
  The search for explanations: it always ends, what it selects is a path of the revision from the
  root to the target, and no path of the revision is shorter.
\<close>

subsection \<open>Paths\<close>

fun chain :: "equality_revision \<Rightarrow> string \<Rightarrow> proof_edge list \<Rightarrow> string \<Rightarrow> bool" where
  "chain r a [] b \<longleftrightarrow> a = b"
| "chain r a (e # es) b \<longleftrightarrow> e \<in> set (bmap_values (er_edges r)) \<and> ee_source e = a \<and> chain r (ee_target e) es b"

lemma chain_append: "chain r a (es @ fs) b \<longleftrightarrow> (\<exists>c. chain r a es c \<and> chain r c fs b)"
  by (induction es arbitrary: a) auto

lemma chain_edges: "chain r a es b \<Longrightarrow> set es \<subseteq> set (bmap_values (er_edges r))"
  by (induction es arbitrary: a) auto

text \<open>Every edge is stored under its own identifier.\<close>

definition keyed :: "equality_revision \<Rightarrow> bool" where
  "keyed r \<longleftrightarrow> bmap_ok (er_edges r) \<and> (\<forall>i e. bmap_get (er_edges r) i = Some e \<longrightarrow> ee_id e = i)"

lemma keyed_get:
  assumes "keyed r" "e \<in> set (bmap_values (er_edges r))"
  shows "bmap_get (er_edges r) (ee_id e) = Some e"
proof -
  from assms(2) obtain i where "(i, e) \<in> set (er_edges r)" by (auto simp: bmap_values_def)
  with assms(1) have "bmap_get (er_edges r) i = Some e" by (auto simp: keyed_def intro: bmap_mem_get)
  with assms(1) show ?thesis by (auto simp: keyed_def)
qed

text \<open>A key of the frontier stands for a path without repeated edges.\<close>

definition key_path :: "equality_revision \<Rightarrow> string \<Rightarrow> path_key \<Rightarrow> proof_edge list \<Rightarrow> bool" where
  "key_path r rt k es \<longleftrightarrow>
     chain r rt es (pk_node k) \<and> pk_depth k = length es \<and> pk_edges k = map ee_id es \<and>
     pk_descriptors k = map ee_descriptor es \<and> distinct (pk_edges k)"

definition key_universe :: "equality_revision \<Rightarrow> string \<Rightarrow> path_key set" where
  "key_universe r rt = {k. \<exists>es. key_path r rt k es}"

lemma chain_end: "chain r a es b \<Longrightarrow> b \<in> insert a (ee_target ` set (bmap_values (er_edges r)))"
  by (induction es arbitrary: a) auto

lemma finite_universe: "finite (key_universe r rt)"
proof -
  let ?E = "set (bmap_values (er_edges r))"
  let ?lists = "{es. set es \<subseteq> ?E \<and> length es \<le> card (ee_id ` ?E)}"
  let ?nodes = "insert rt (ee_target ` ?E)"
  have "key_universe r rt \<subseteq>
      (\<lambda>(es, n). PathKey (length es) (map ee_descriptor es) (map ee_id es) n) ` (?lists \<times> ?nodes)"
  proof
    fix k assume "k \<in> key_universe r rt"
    then obtain es where k: "key_path r rt k es" by (auto simp: key_universe_def)
    then have es: "set es \<subseteq> ?E" by (auto simp: key_path_def dest: chain_edges)
    have "length es = card (set (pk_edges k))" using k
      by (metis distinct_card key_path_def length_map)
    also have "\<dots> \<le> card (ee_id ` ?E)" using k es by (intro card_mono) (auto simp: key_path_def)
    finally have "(es, pk_node k) \<in> ?lists \<times> ?nodes" using es k chain_end by (fastforce simp: key_path_def)
    moreover have "k = PathKey (length es) (map ee_descriptor es) (map ee_id es) (pk_node k)"
      using k by (cases k) (simp add: key_path_def)
    ultimately show "k \<in> (\<lambda>(es, n). PathKey (length es) (map ee_descriptor es) (map ee_id es) n) ` (?lists \<times> ?nodes)"
      by force
  qed
  moreover have "finite ?lists" by (rule finite_lists_length_le) simp
  ultimately show ?thesis by (simp add: finite_subset)
qed

lemma outgoing_iff: "e \<in> set (outgoing r n) \<longleftrightarrow> e \<in> set (bmap_values (er_edges r)) \<and> ee_source e = n"
  by (auto simp: outgoing_def)

lemma extend_key_path:
  assumes "key_path r rt k es" "e \<in> set (outgoing r (pk_node k))" "ee_id e \<notin> set (pk_edges k)"
  shows "key_path r rt (extend_path k e) (es @ [e])"
  using assms by (auto simp: key_path_def extend_path_def chain_append outgoing_iff)

subsection \<open>One step\<close>

definition search_inv :: "equality_revision \<Rightarrow> string \<Rightarrow> search \<Rightarrow> bool" where
  "search_inv r rt s \<longleftrightarrow>
     bset_ok (sr_frontier s) \<and> set (sr_frontier s) \<subseteq> key_universe r rt \<and>
     (\<forall>n d. bmap_get (sr_best s) n = Some d \<longrightarrow> (\<exists>es. chain r rt es n \<and> length es = d))"

definition followers :: "equality_revision \<Rightarrow> path_key \<Rightarrow> path_key set" where
  "followers r k = extend_path k ` {e \<in> set (outgoing r (pk_node k)). ee_id e \<notin> set (pk_edges k)}"

definition ahead :: "equality_revision \<Rightarrow> string \<Rightarrow> search \<Rightarrow> path_key set" where
  "ahead r rt s = {x \<in> key_universe r rt. \<exists>y\<in>set (sr_frontier s). y \<le> x}"

lemma extend_frontier_set:
  "rfold (extend_frontier limits k) fr es = Inr fr' \<Longrightarrow>
   set fr' = set fr \<union> extend_path k ` {e \<in> set es. ee_id e \<notin> set (pk_edges k)} \<and> (bset_ok fr \<longrightarrow> bset_ok fr')"
proof (induction es arbitrary: fr)
  case (Cons e es)
  from Cons.prems obtain fr1 where "extend_frontier limits k fr e = Inr fr1"
    "rfold (extend_frontier limits k) fr1 es = Inr fr'" by (auto simp: rbind_Inr_iff)
  with Cons.IH [OF this(2)] show ?case
    by (auto simp: extend_frontier_def rmap_Inr_iff split: if_split_asm)
qed simp

lemma search_step_cases:
  assumes s: "search_step r target limits s = Inr res" and inv: "search_inv r rt s"
  obtains k ks es where "sr_frontier s = k # ks" "key_path r rt k es" "\<And>y. y \<in> set ks \<Longrightarrow> k < y"
    "(pk_node k = target \<and> res = Inr k) \<or>
     (pk_node k \<noteq> target \<and> (\<exists>d. bmap_get (sr_best s) (pk_node k) = Some d \<and> d < pk_depth k) \<and>
        res = Inl (s\<lparr>sr_frontier := ks\<rparr>)) \<or>
     (pk_node k \<noteq> target \<and> (\<exists>fr. set fr = set ks \<union> followers r k \<and>
        bset_ok fr \<and> res = Inl \<lparr>sr_frontier = fr, sr_best = bmap_insert (pk_node k) (pk_depth k) (sr_best s)\<rparr>))"
proof -
  obtain k ks where f: "sr_frontier s = k # ks" using s by (cases "sr_frontier s") (simp_all add: search_step_def)
  from inv f obtain es where k: "key_path r rt k es" by (auto simp: search_inv_def key_universe_def)
  then have depth: "length (pk_edges k) = pk_depth k" by (simp add: key_path_def)
  from inv f have ks: "bset_ok ks" "\<And>y. y \<in> set ks \<Longrightarrow> k < y" by (auto simp: search_inv_def bset_ok_def)
  show thesis
    using s f ks(1)
    by (intro that [OF f k ks(2)])
      (auto simp: search_step_def Let_def rbind_Inr_iff rmap_Inr_iff depth followers_def dest!: extend_frontier_set
        split: if_split_asm option.split_asm)
qed

lemma search_step_next:
  assumes "search_step r target limits s = Inr (Inl s')" "search_inv r rt s"
  obtains (skip) k ks es d where "sr_frontier s = k # ks" "key_path r rt k es" "\<And>y. y \<in> set ks \<Longrightarrow> k < y"
      "pk_node k \<noteq> target" "bmap_get (sr_best s) (pk_node k) = Some d" "d < pk_depth k" "s' = s\<lparr>sr_frontier := ks\<rparr>"
  | (extend) k ks es fr where "sr_frontier s = k # ks" "key_path r rt k es" "\<And>y. y \<in> set ks \<Longrightarrow> k < y"
      "pk_node k \<noteq> target" "set fr = set ks \<union> followers r k" "bset_ok fr"
      "s' = \<lparr>sr_frontier = fr, sr_best = bmap_insert (pk_node k) (pk_depth k) (sr_best s)\<rparr>"
  by (rule search_step_cases [OF assms]) blast

lemma follower:
  assumes "key_path r rt k es" "y \<in> followers r k"
  shows "y \<in> key_universe r rt" "k < y"
  using assms extend_key_path [OF assms(1)]
  by (force simp: followers_def key_universe_def, force simp: followers_def key_path_def extend_path_def intro: deeper_key_less)

lemma search_inv_keeps:
  assumes s: "search_step r target limits s = Inr (Inl s')" and inv: "search_inv r rt s"
  shows "search_inv r rt s'"
  using s inv
proof (cases rule: search_step_next)
  case (skip k ks es d)
  with inv show ?thesis by (auto simp: search_inv_def bset_ok_def)
next
  case (extend k ks es fr)
  have "chain r rt es (pk_node k) \<and> length es = pk_depth k" using extend(2) by (simp add: key_path_def)
  with extend inv follower(1) [OF extend(2)] show ?thesis by (auto simp: search_inv_def)
qed

lemma ahead_less:
  assumes f: "sr_frontier s = k # ks" "key_path r rt k es" and above: "\<And>y. y \<in> set (sr_frontier s') \<Longrightarrow> k < y"
  shows "card (ahead r rt s') < card (ahead r rt s)"
proof (rule psubset_card_mono)
  show "finite (ahead r rt s)" using finite_universe [of r rt] by (simp add: ahead_def)
  from f have "k \<in> ahead r rt s" by (auto simp: ahead_def key_universe_def)
  moreover from above have "k \<notin> ahead r rt s'" by (auto simp: ahead_def not_le)
  moreover from above f have "ahead r rt s' \<subseteq> ahead r rt s"
    by (auto simp: ahead_def) (meson less_imp_le order_trans)
  ultimately show "ahead r rt s' \<subset> ahead r rt s" by blast
qed

lemma search_step_less:
  assumes s: "search_step r target limits s = Inr (Inl s')" and inv: "search_inv r rt s"
  shows "card (ahead r rt s') < card (ahead r rt s)"
  using s inv
proof (cases rule: search_step_next)
  case (skip k ks es d)
  then show ?thesis by (intro ahead_less) auto
next
  case (extend k ks es fr)
  then show ?thesis using follower(2) [OF extend(2)] by (intro ahead_less) auto
qed

lemmas search_step_inv = search_inv_keeps search_step_less

lemma search_start_inv: "search_inv r (es_root_node space) (search_start space)"
proof -
  have "key_path r (es_root_node space) (PathKey 0 [] [] (es_root_node space)) []" by (simp add: key_path_def)
  then show ?thesis by (auto simp: search_inv_def search_start_def bset_ok_def key_universe_def)
qed

subsection \<open>The loop\<close>

lemma search_loop_ends: "search_inv r rt s \<Longrightarrow> \<exists>res. search_loop r target limits s = Some res"
proof (induction "card (ahead r rt s)" arbitrary: s rule: less_induct)
  case less
  show ?case
  proof (cases "search_step r target limits s")
    case (Inr res)
    show ?thesis
    proof (cases res)
      case (Inl s')
      with Inr have step: "search_step r target limits s = Inr (Inl s')" by simp
      from less.hyps [OF search_step_inv(2,1) [OF this less.prems]] Inr Inl show ?thesis
        by (subst search_loop.simps) simp
    qed (use Inr in \<open>subst search_loop.simps, simp\<close>)
  qed (subst search_loop.simps, simp)
qed

text \<open>What the loop returns is what its last step returns.\<close>

lemma search_loop_induct:
  assumes "search_loop r target limits s = Some res" "search_inv r rt s" "Q s"
    and step: "\<And>s s'. Q s \<Longrightarrow> search_inv r rt s \<Longrightarrow> search_step r target limits s = Inr (Inl s') \<Longrightarrow> Q s'"
    and last_err: "\<And>s e. Q s \<Longrightarrow> search_inv r rt s \<Longrightarrow> search_step r target limits s = Inl e \<Longrightarrow> P (Inl e)"
    and last_ok: "\<And>s k. Q s \<Longrightarrow> search_inv r rt s \<Longrightarrow> search_step r target limits s = Inr (Inr k) \<Longrightarrow> P (Inr k)"
  shows "P res"
  using assms(1-3)
proof (induction "card (ahead r rt s)" arbitrary: s rule: less_induct)
  case less
  note loop = less.prems(1) [unfolded search_loop.simps [of r target limits s]]
  show ?case
  proof (cases "search_step r target limits s")
    case (Inl e)
    with loop last_err [OF less.prems(3,2) Inl] show ?thesis by simp
  next
    case (Inr st)
    show ?thesis
    proof (cases st)
      case (Inl s')
      with Inr have st: "search_step r target limits s = Inr (Inl s')" by simp
      with loop have "search_loop r target limits s' = Some res" by simp
      then show ?thesis
        using search_step_inv [OF st less.prems(2)] step [OF less.prems(3,2) st] by (intro less.hyps)
    next
      case (Inr k)
      with \<open>search_step r target limits s = Inr st\<close> have "search_step r target limits s = Inr (Inr k)" by simp
      with loop last_ok [OF less.prems(3,2) this] show ?thesis by simp
    qed
  qed
qed

text \<open>The selected key is a path to the target.\<close>

lemma selected_path:
  assumes "search_step r target limits s = Inr (Inr k)" "search_inv r rt s"
  shows "\<exists>es. key_path r rt k es" "pk_node k = target" "\<And>y. y \<in> set (sr_frontier s) \<Longrightarrow> k \<le> y"
  by (rule search_step_cases [OF assms], auto intro: less_imp_le)+

lemma search_loop_path:
  assumes "search_loop r target limits s = Some (Inr k)" "search_inv r rt s"
  shows "(\<exists>es. key_path r rt k es) \<and> pk_node k = target"
proof -
  let ?P = "\<lambda>res :: path_key res. \<forall>k. res = Inr k \<longrightarrow> (\<exists>es. key_path r rt k es) \<and> pk_node k = target"
  have "?P (Inr k)"
    by (rule search_loop_induct [where P = ?P and Q = "\<lambda>_. True", OF assms]) (auto dest: selected_path(1,2))
  then show ?thesis by simp
qed

subsection \<open>No path is shorter\<close>

definition shortest :: "equality_revision \<Rightarrow> string \<Rightarrow> proof_edge list \<Rightarrow> string \<Rightarrow> bool" where
  "shortest r a es b \<longleftrightarrow> chain r a es b \<and> (\<forall>fs. chain r a fs b \<longrightarrow> length es \<le> length fs)"

lemma shortest_exists: "chain r a es b \<Longrightarrow> \<exists>fs. shortest r a fs b"
proof (induction es rule: measure_induct_rule [of length])
  case (less es)
  then show ?case
  proof (cases "\<forall>fs. chain r a fs b \<longrightarrow> length es \<le> length fs")
    case False
    then obtain fs where "chain r a fs b" "length fs < length es" by (auto simp: not_le)
    with less.IH show ?thesis by blast
  qed (auto simp: shortest_def)
qed

text \<open>Some key of the frontier is a prefix of the shortest path.\<close>

definition on_track :: "equality_revision \<Rightarrow> string \<Rightarrow> string \<Rightarrow> proof_edge list \<Rightarrow> search \<Rightarrow> bool" where
  "on_track r rt target es s \<longleftrightarrow>
     (\<exists>as bs k. es = as @ bs \<and> k \<in> set (sr_frontier s) \<and> chain r rt as (pk_node k) \<and>
        chain r (pk_node k) bs target \<and> pk_depth k = length as)"

lemma search_step_on_track:
  assumes s: "search_step r target limits s = Inr (Inl s')" and inv: "search_inv r rt s" and keyed: "keyed r"
    and best: "shortest r rt es target" and t: "on_track r rt target es s"
  shows "on_track r rt target es s'"
proof -
  from s inv obtain k ks ks_path where f: "sr_frontier s = k # ks"
    and k: "key_path r rt k ks_path" and node: "pk_node k \<noteq> target" and
    new: "((\<exists>d. bmap_get (sr_best s) (pk_node k) = Some d \<and> d < pk_depth k) \<and> sr_frontier s' = ks) \<or>
     set (sr_frontier s') = set ks \<union> followers r k"
    by (cases rule: search_step_next) auto
  from t obtain as bs l where es: "es = as @ bs" and l: "l \<in> set (sr_frontier s)" "chain r rt as (pk_node l)"
      "chain r (pk_node l) bs target" "pk_depth l = length as" by (auto simp: on_track_def)
  show ?thesis
  proof (cases "l = k")
    case False
    with l f new have "l \<in> set (sr_frontier s')" by auto
    with es l(2-4) show ?thesis by (auto simp: on_track_def)
  next
    case True
    from l(3) node True obtain e bs' where bs: "bs = e # bs'" by (cases bs) auto
    with l(3) True have e: "e \<in> set (bmap_values (er_edges r))" "ee_source e = pk_node k" "chain r (ee_target e) bs' target"
      by auto
    have minimal: "length (as @ bs) \<le> length fs" if "chain r rt fs target" for fs
      using best that es by (simp add: shortest_def)
    from new show ?thesis
    proof
      assume "(\<exists>d. bmap_get (sr_best s) (pk_node k) = Some d \<and> d < pk_depth k) \<and> sr_frontier s' = ks"
      then obtain d where d: "bmap_get (sr_best s) (pk_node k) = Some d" "d < pk_depth k" by blast
      with inv obtain fs where "chain r rt fs (pk_node k)" "length fs = d" unfolding search_inv_def by blast
      with l(3) True have "chain r rt (fs @ bs) target" by (auto simp: chain_append)
      from minimal [OF this] d(2) \<open>length fs = d\<close> l(4) True show ?thesis by simp
    next
      assume fr: "set (sr_frontier s') = set ks \<union> followers r k"
      have "ee_id e \<notin> set (pk_edges k)"
      proof
        assume "ee_id e \<in> set (pk_edges k)"
        then obtain e' where e': "e' \<in> set ks_path" "ee_id e' = ee_id e" using k by (auto simp: key_path_def)
        from k have ch: "chain r rt ks_path (pk_node k)" by (simp add: key_path_def)
        from keyed_get [OF keyed e(1)] keyed_get [OF keyed, of e'] e' chain_edges [OF ch] have "e' = e" by auto
        with e'(1) obtain xs ys where p: "ks_path = xs @ e # ys" by (meson split_list)
        with ch e(3) have "chain r rt (xs @ e # bs') target" by (auto simp: chain_append)
        from minimal [OF this] bs p k l(4) True show False by (simp add: key_path_def)
      qed
      with fr e have "extend_path k e \<in> set (sr_frontier s')" by (auto simp: outgoing_iff followers_def)
      moreover have "pk_depth (extend_path k e) = length (as @ [e])" "pk_node (extend_path k e) = ee_target e"
        using k l(4) True by (simp_all add: extend_path_def key_path_def)
      moreover have "chain r rt (as @ [e]) (ee_target e)" using l(2) True e by (auto simp: chain_append)
      ultimately show ?thesis using e(3) es bs unfolding on_track_def
        by (intro exI [of _ "as @ [e]"] exI [of _ bs'] exI [of _ "extend_path k e"]) simp
    qed
  qed
qed

text \<open>The only other error of a step is an exceeded limit.\<close>

definition limit_failure :: "failure \<Rightarrow> bool" where
  "limit_failure e \<longleftrightarrow> (\<exists>m. e = Fail (agent_error_new ResourceLimitExceeded m))"

lemma against_error: "against limits k n m = Inl e \<Longrightarrow> limit_failure e"
  by (auto simp: against_def ensure_def limit_failure_def split: if_split_asm)

lemma extend_frontier_error: "rfold (extend_frontier limits k) fr es = Inl e \<Longrightarrow> limit_failure e"
  by (induction es arbitrary: fr)
    (auto simp: rbind_Inl_iff extend_frontier_def rmap_Inl_iff dest: against_error split: if_split_asm)

lemma search_step_error:
  "search_step r target limits s = Inl e \<Longrightarrow>
   limit_failure e \<or> (sr_frontier s = [] \<and> (\<exists>m. e = Fail (agent_error_new EqualityPathNotFound m)))"
  by (auto simp: search_step_def Let_def rbind_Inl_iff rmap_Inl_iff dest: against_error extend_frontier_error
      split: list.split_asm if_split_asm)

lemma search_loop_shortest:
  assumes "search_loop r target limits s = Some res" "search_inv r rt s" "on_track r rt target es s"
    and keyed: "keyed r" and best: "shortest r rt es target"
  shows "(\<forall>k. res = Inr k \<longrightarrow> pk_depth k \<le> length es) \<and>
    (\<forall>m. res \<noteq> err EqualityPathNotFound m)"
proof (rule search_loop_induct [where Q = "on_track r rt target es", OF assms(1-3)])
  show "on_track r rt target es s'"
    if "on_track r rt target es s" "search_inv r rt s" "search_step r target limits s = Inr (Inl s')" for s s'
    by (rule search_step_on_track [OF that(3,2) keyed best that(1)])
next
  fix s e assume t: "on_track r rt target es s" and e: "search_step r target limits s = Inl e"
  from t have "sr_frontier s \<noteq> []" by (auto simp: on_track_def)
  with search_step_error [OF e] show "(\<forall>k. Inl e = Inr k \<longrightarrow> pk_depth k \<le> length es) \<and>
      (\<forall>m. Inl e \<noteq> (err EqualityPathNotFound m :: path_key res))"
    by (auto simp: limit_failure_def agent_error_new_def)
next
  fix s k assume t: "on_track r rt target es s" and inv: "search_inv r rt s"
    and last: "search_step r target limits s = Inr (Inr k)"
  from t obtain as bs l where "es = as @ bs" "l \<in> set (sr_frontier s)" "pk_depth l = length as"
    by (auto simp: on_track_def)
  with key_le_depth [OF selected_path(3) [OF last inv, of l]]
  show "(\<forall>k'. Inr k = Inr k' \<longrightarrow> pk_depth k' \<le> length es) \<and> (\<forall>m. Inr k \<noteq> err EqualityPathNotFound m)" by simp
qed

lemma selected_depth:
  "search_step r target limits s = Inr (Inr k) \<Longrightarrow> length (pk_edges k) \<le> limit limits EqualityExplanationDepth"
  by (auto simp: search_step_def Let_def rbind_Inr_iff rmap_Inr_iff against_def ensure_def
      split: list.split_asm if_split_asm)

lemma search_loop_depth:
  assumes "search_loop r target limits s = Some (Inr k)" "search_inv r rt s"
  shows "length (pk_edges k) \<le> limit limits EqualityExplanationDepth"
proof -
  let ?P = "\<lambda>res :: path_key res. \<forall>k. res = Inr k \<longrightarrow> length (pk_edges k) \<le> limit limits EqualityExplanationDepth"
  have "?P (Inr k)"
    by (rule search_loop_induct [where P = ?P and Q = "\<lambda>_. True", OF assms]) (auto dest: selected_depth)
  then show ?thesis by simp
qed

subsection \<open>Explanations\<close>

lemma start_on_track: "chain r (es_root_node space) es target \<Longrightarrow> on_track r (es_root_node space) target es (search_start space)"
  unfolding on_track_def search_start_def by (intro exI [of _ "[]"] exI [of _ es]) simp

lemma explanation_Inr:
  assumes "explanation_for enc space r target limits = Inr xp"
  obtains root node k where "bmap_get (er_nodes r) (es_root_node space) = Some root"
    "bmap_get (er_nodes r) target = Some node"
    "search_loop r target limits (search_start space) = Some (Inr k)"
    "list_all2 (\<lambda>i e. bmap_get (er_edges r) i = Some e) (pk_edges k) (xp_edges xp)"
    "xp_root xp = en_id root" "xp_target xp = en_id node"
    "xp_root_impl_hash xp = en_impl_hash root" "xp_target_impl_hash xp = en_impl_hash node"
  using assms
  by (fastforce simp: explanation_for_def rbind_Inr_iff rmap_Inr_iff ok_or_Inr_iff traverse_Inr_iff
      split: option.split_asm)

lemma explanation_path:
  assumes x: "explanation_for enc space r target limits = Inr xp" and keyed: "keyed r"
  shows "shortest r (es_root_node space) (xp_edges xp) target" "distinct (map ee_id (xp_edges xp))"
    "length (xp_edges xp) \<le> limit limits EqualityExplanationDepth"
proof -
  from x obtain k where loop: "search_loop r target limits (search_start space) = Some (Inr k)"
    and edges: "list_all2 (\<lambda>i e. bmap_get (er_edges r) i = Some e) (pk_edges k) (xp_edges xp)"
    by (elim explanation_Inr)
  from search_loop_path [OF loop search_start_inv] obtain es
    where k: "key_path r (es_root_node space) k es" and node: "pk_node k = target" by blast
  then have ch: "chain r (es_root_node space) es target" by (simp add: key_path_def)
  have "list_all2 (\<lambda>i e. bmap_get (er_edges r) i = Some e) (map ee_id es) es"
    using keyed_get [OF keyed] chain_edges [OF ch]
    by (auto simp: list_all2_conv_all_nth subset_iff)
  with edges k have es: "xp_edges xp = es"
    by (auto simp: key_path_def list_all2_conv_all_nth intro!: nth_equalityI)
  from shortest_exists [OF ch] obtain fs where best: "shortest r (es_root_node space) fs target" by blast
  then have "on_track r (es_root_node space) target fs (search_start space)"
    by (intro start_on_track) (simp add: shortest_def)
  from search_loop_shortest [OF loop search_start_inv this keyed best] k have "length es \<le> length fs"
    by (simp add: key_path_def)
  with best ch show "shortest r (es_root_node space) (xp_edges xp) target" by (auto simp: shortest_def es)
  show "distinct (map ee_id (xp_edges xp))" using k unfolding es key_path_def by metis
  show "length (xp_edges xp) \<le> limit limits EqualityExplanationDepth"
    using search_loop_depth [OF loop search_start_inv] k by (simp add: es key_path_def)
qed

text \<open>A search that reports a disconnected node is right.\<close>

lemma explanation_complete:
  assumes x: "explanation_for enc space r target limits = err EqualityPathNotFound m" and keyed: "keyed r"
  shows "\<not> chain r (es_root_node space) es target"
proof
  assume "chain r (es_root_node space) es target"
  then obtain fs where best: "shortest r (es_root_node space) fs target" using shortest_exists by blast
  then have t: "on_track r (es_root_node space) target fs (search_start space)"
    by (intro start_on_track) (simp add: shortest_def)
  from search_loop_ends [OF search_start_inv] obtain res where
    loop: "search_loop r target limits (search_start space) = Some res" by blast
  have "traverse (\<lambda>i. ok_or (Fail (agent_error_new EqualityProofInvalid n)) (bmap_get (er_edges r) i)) ks \<noteq>
      err EqualityPathNotFound m" for n ks
    by (induction ks) (auto simp: rbind_Inl_iff agent_error_new_def ok_or_Inl_iff)
  with x loop have "res = err EqualityPathNotFound m"
    by (auto simp: explanation_for_def rbind_Inl_iff rmap_Inl_iff ok_or_Inl_iff agent_error_new_def)
  with search_loop_shortest [OF loop search_start_inv t keyed best] show False by blast
qed

lemma explanation_ends: "explanation_for enc space r target limits \<noteq> Inl Diverge"
proof -
  from search_loop_ends [OF search_start_inv] obtain res where
    loop: "search_loop r target limits (search_start space) = Some res" by blast
  have "res \<noteq> Inl Diverge"
    by (rule search_loop_induct [where Q = "\<lambda>_. True", OF loop search_start_inv])
      (auto dest!: search_step_error simp: limit_failure_def)
  moreover have "traverse (\<lambda>i. ok_or (Fail x) (bmap_get (er_edges r) i)) ks \<noteq> Inl Diverge" for x ks
    by (induction ks) (auto simp: rbind_Inl_iff ok_or_Inl_iff)
  ultimately show ?thesis
    by (auto simp: explanation_for_def rbind_Inl_iff rmap_Inl_iff ok_or_Inl_iff loop)
qed

end
