(* ===== verification/Lowering_Order.thy ===== *)
theory Lowering_Order
  imports Impl_IR Transaction_Typing
begin

text \<open>
  The walk of the identity lowering over a specification (\<open>visit_source_value\<close>). Whatever it
  returns lists distinct operations and is closed under dependencies. An operation that depends
  on itself is never finished: the walk then runs out of any fuel, as the recursion of the code
  does not end.
\<close>

subsection \<open>Dependencies between operations\<close>

definition source_op :: "program \<Rightarrow> string \<Rightarrow> string option" where
  "source_op prog i =
     (case bmap_get (vals prog) (resolve_filled_value prog i) of
        None \<Rightarrow> None
      | Some def \<Rightarrow> (case v_origin def of OperationOrigin oid \<Rightarrow> Some oid | HoleOrigin _ \<Rightarrow> None))"

definition source_deps :: "operation \<Rightarrow> string list" where
  "source_deps op = op_operands op @ captures_of op"

definition depends :: "program \<Rightarrow> (string \<times> string) set" where
  "depends prog =
     {(x, y). \<exists>op j. bmap_get (operations prog) x = Some op \<and> j \<in> set (source_deps op) \<and> source_op prog j = Some y}"

lemma visit_Suc_iff:
  "visit_source_value prog (Suc n) i st = Inr st' \<longleftrightarrow>
     (\<exists>oid. source_op prog i = Some oid \<and>
        (if oid \<in> set (fst st) then st' = st
         else \<exists>op st2. bmap_get (operations prog) oid = Some op \<and>
                rfold (\<lambda>st j. visit_source_value prog n j st) st (source_deps op) = Inr st2 \<and>
                st' = (bset_insert oid (fst st2), snd st2 @ [oid])))"
proof (cases "bmap_get (vals prog) (resolve_filled_value prog i)")
  case (Some def)
  show ?thesis
  proof (cases "v_origin def")
    case (OperationOrigin oid)
    have captures: "(case r of None \<Rightarrow> Inr st | Some rg \<Rightarrow> rfold f st (rg_captures rg)) =
        rfold f st (case r of None \<Rightarrow> [] | Some rg \<Rightarrow> rg_captures rg)" for r st and f :: "'s \<Rightarrow> string \<Rightarrow> 's res"
      by (cases r) simp_all
    show ?thesis
      using Some OperationOrigin
      by (auto simp: source_op_def bset_contains_def rbind_Inr_iff ok_or_Inr_iff source_deps_def captures_of_def
          rfold_append captures)
  qed (simp add: Some source_op_def)
qed (simp add: source_op_def)

lemma visit_zero [simp]: "visit_source_value prog 0 i st \<noteq> Inr st'"
  by simp

lemma visits_invariant:
  assumes "\<And>st st' i. i \<in> set is \<Longrightarrow> P st \<Longrightarrow> f st i = Inr st' \<Longrightarrow> P st' \<and> Q i \<and> R st st'"
    and R: "\<And>st. R st st" "\<And>a b c. R a b \<Longrightarrow> R b c \<Longrightarrow> R a c"
  shows "rfold f st is = Inr st' \<Longrightarrow> P st \<Longrightarrow> P st' \<and> (\<forall>i\<in>set is. Q i) \<and> R st st'"
proof -
  have "set js \<subseteq> set is \<Longrightarrow> rfold f st js = Inr st' \<Longrightarrow> P st \<Longrightarrow> P st' \<and> (\<forall>i\<in>set js. Q i) \<and> R st st'" for js
  proof (induction js arbitrary: st)
    case (Cons i js)
    from Cons.prems(2) obtain s1 where s1: "f st i = Inr s1" "rfold f s1 js = Inr st'" by (auto simp: rbind_Inr_iff)
    from assms(1) [OF _ Cons.prems(3) s1(1)] Cons.prems(1) have one: "P s1 \<and> Q i \<and> R st s1" by simp
    with Cons.IH [OF _ s1(2)] Cons.prems(1) R(2) [of st s1 st'] show ?case by simp
  qed (simp add: R(1))
  then show "rfold f st is = Inr st' \<Longrightarrow> P st \<Longrightarrow> P st' \<and> (\<forall>i\<in>set is. Q i) \<and> R st st'" by blast
qed

text \<open>A set of operations that each depend on the set is never entered.\<close>

lemma visit_avoids:
  assumes X: "\<And>x. x \<in> X \<Longrightarrow> \<exists>y\<in>X. (x, y) \<in> depends prog"
  shows "X \<inter> set (fst st) = {} \<Longrightarrow> visit_source_value prog n i st = Inr st' \<Longrightarrow>
    X \<inter> set (fst st') = {} \<and> (\<forall>x. source_op prog i = Some x \<longrightarrow> x \<notin> X)"
proof (induction n arbitrary: i st st')
  case (Suc n)
  from Suc.prems(2) obtain oid where oid: "source_op prog i = Some oid" and
    r: "if oid \<in> set (fst st) then st' = st
         else \<exists>op st2. bmap_get (operations prog) oid = Some op \<and>
                rfold (\<lambda>st j. visit_source_value prog n j st) st (source_deps op) = Inr st2 \<and>
                st' = (bset_insert oid (fst st2), snd st2 @ [oid])"
    by (auto simp: visit_Suc_iff simp del: visit_source_value.simps)
  show ?case
  proof (cases "oid \<in> set (fst st)")
    case True
    with r oid Suc.prems(1) show ?thesis by auto
  next
    case False
    with r obtain op st2 where op: "bmap_get (operations prog) oid = Some op"
        "rfold (\<lambda>st j. visit_source_value prog n j st) st (source_deps op) = Inr st2"
        "st' = (bset_insert oid (fst st2), snd st2 @ [oid])" by auto
    have s2: "X \<inter> set (fst st2) = {} \<and> (\<forall>j\<in>set (source_deps op). \<forall>x. source_op prog j = Some x \<longrightarrow> x \<notin> X) \<and> True"
      by (rule visits_invariant [where P = "\<lambda>st. X \<inter> set (fst st) = {}" and
            Q = "\<lambda>j. \<forall>x. source_op prog j = Some x \<longrightarrow> x \<notin> X" and R = "\<lambda>_ _. True", OF _ _ _ op(2) Suc.prems(1)])
         (use Suc.IH in blast)+
    have "oid \<notin> X"
    proof
      assume "oid \<in> X"
      then obtain y where "y \<in> X" "(oid, y) \<in> depends prog" using X by blast
      with op(1) s2 show False by (auto simp: depends_def)
    qed
    with s2 op(3) oid show ?thesis by auto
  qed
qed simp

text \<open>Only operations that the visited value depends on are added.\<close>

lemma visit_adds:
  "visit_source_value prog n i st = Inr st' \<Longrightarrow>
   set (fst st) \<subseteq> set (fst st') \<and>
   (\<forall>y\<in>set (fst st'). y \<in> set (fst st) \<or> (\<exists>x. source_op prog i = Some x \<and> (x, y) \<in> (depends prog)\<^sup>*))"
proof (induction n arbitrary: i st st')
  case (Suc n)
  from Suc.prems obtain oid where oid: "source_op prog i = Some oid" and
    r: "if oid \<in> set (fst st) then st' = st
         else \<exists>op st2. bmap_get (operations prog) oid = Some op \<and>
                rfold (\<lambda>st j. visit_source_value prog n j st) st (source_deps op) = Inr st2 \<and>
                st' = (bset_insert oid (fst st2), snd st2 @ [oid])"
    by (auto simp: visit_Suc_iff simp del: visit_source_value.simps)
  show ?case
  proof (cases "oid \<in> set (fst st)")
    case False
    with r obtain op st2 where op: "bmap_get (operations prog) oid = Some op"
        "rfold (\<lambda>st j. visit_source_value prog n j st) st (source_deps op) = Inr st2"
        "st' = (bset_insert oid (fst st2), snd st2 @ [oid])" by auto
    let ?P = "\<lambda>s. set (fst st) \<subseteq> set (fst s) \<and> (\<forall>y\<in>set (fst s). y \<in> set (fst st) \<or> (oid, y) \<in> (depends prog)\<^sup>*)"
    have "?P st2"
    proof (rule rfold_invariant [OF op(2)])
      fix u v j assume u: "?P u" and j: "j \<in> set (source_deps op)" "visit_source_value prog n j u = Inr v"
      from j(1) op(1) have "source_op prog j = Some x \<Longrightarrow> (oid, x) \<in> depends prog" for x
        by (auto simp: depends_def)
      with Suc.IH [OF j(2)] u show "?P v" by (meson converse_rtrancl_into_rtrancl subset_trans)
    qed simp
    with op(3) oid show ?thesis by auto
  qed (use r in auto)
qed simp

definition order_ok :: "program \<Rightarrow> string bset \<times> string list \<Rightarrow> bool" where
  "order_ok prog st \<longleftrightarrow>
     set (snd st) = set (fst st) \<and> distinct (snd st) \<and>
     (\<forall>x\<in>set (fst st). (\<exists>op. bmap_get (operations prog) x = Some op) \<and>
        (\<forall>y. (x, y) \<in> depends prog \<longrightarrow> y \<in> set (fst st)))"

lemma order_closed:
  assumes "order_ok prog st" "(x, y) \<in> (depends prog)\<^sup>*" "x \<in> set (fst st)"
  shows "y \<in> set (fst st)"
  using assms(2,3) by (induction rule: rtrancl_induct) (use assms(1) in \<open>auto simp: order_ok_def\<close>)

lemma visit_order:
  "visit_source_value prog n i st = Inr st' \<Longrightarrow> order_ok prog st \<Longrightarrow>
   order_ok prog st' \<and> (\<exists>x. source_op prog i = Some x \<and> x \<in> set (fst st'))"
proof (induction n arbitrary: i st st')
  case (Suc n)
  from Suc.prems(1) obtain oid where oid: "source_op prog i = Some oid" and
    r: "if oid \<in> set (fst st) then st' = st
         else \<exists>op st2. bmap_get (operations prog) oid = Some op \<and>
                rfold (\<lambda>st j. visit_source_value prog n j st) st (source_deps op) = Inr st2 \<and>
                st' = (bset_insert oid (fst st2), snd st2 @ [oid])"
    by (auto simp: visit_Suc_iff simp del: visit_source_value.simps)
  show ?case
  proof (cases "oid \<in> set (fst st)")
    case False
    with r obtain op st2 where op: "bmap_get (operations prog) oid = Some op"
        "rfold (\<lambda>st j. visit_source_value prog n j st) st (source_deps op) = Inr st2"
        "st' = (bset_insert oid (fst st2), snd st2 @ [oid])" by auto
    let ?P = "\<lambda>s. order_ok prog s \<and> set (fst st) \<subseteq> set (fst s)"
    let ?f = "\<lambda>st j. visit_source_value prog n j st"
    have mono: "rfold ?f a js = Inr b \<Longrightarrow> set (fst a) \<subseteq> set (fst b)" for a b js
      by (rule rfold_invariant [where P = "\<lambda>s. set (fst a) \<subseteq> set (fst s)"]) (use visit_adds in blast)+
    have all: "rfold ?f a js = Inr b \<Longrightarrow> order_ok prog a \<Longrightarrow>
        order_ok prog b \<and> (\<forall>j\<in>set js. \<exists>x. source_op prog j = Some x \<and> x \<in> set (fst b))" for a b js
    proof (induction js arbitrary: a)
      case (Cons j js)
      then obtain s1 where s1: "visit_source_value prog n j a = Inr s1" "rfold ?f s1 js = Inr b"
        by (auto simp: rbind_Inr_iff)
      from Suc.IH [OF s1(1) Cons.prems(2)] Cons.IH [OF s1(2)] mono [OF s1(2)] show ?case by auto
    qed simp
    note s2 = all [OF op(2) Suc.prems(2)]
    have fresh: "oid \<notin> set (fst st2)"
    proof
      assume "oid \<in> set (fst st2)"
      have "\<forall>y\<in>set (fst st2). y \<in> set (fst st) \<or>
          (\<exists>j x. j \<in> set (source_deps op) \<and> source_op prog j = Some x \<and> (x, y) \<in> (depends prog)\<^sup>*)"
        by (rule rfold_invariant [OF op(2)]) (use visit_adds in blast)+
      with False \<open>oid \<in> set (fst st2)\<close> obtain j x where "j \<in> set (source_deps op)" "source_op prog j = Some x"
          "(x, oid) \<in> (depends prog)\<^sup>*" by blast
      with op(1) have x: "(oid, x) \<in> depends prog" "(x, oid) \<in> (depends prog)\<^sup>*" by (auto simp: depends_def)
      define X where "X = {y. (oid, y) \<in> (depends prog)\<^sup>* \<and> (y, oid) \<in> (depends prog)\<^sup>*}"
      have "\<exists>z\<in>X. (y, z) \<in> depends prog" if "y \<in> X" for y
      proof (cases "y = oid")
        case True
        with x show ?thesis by (auto simp: X_def)
      next
        case False
        with that obtain z where "(y, z) \<in> depends prog" "(z, oid) \<in> (depends prog)\<^sup>*"
          by (auto simp: X_def elim: converse_rtranclE)
        with that show ?thesis by (auto simp: X_def intro: rtrancl_into_rtrancl)
      qed
      moreover have "X \<inter> set (fst st) = {}"
        using order_closed [OF Suc.prems(2)] False by (auto simp: X_def)
      ultimately have "oid \<notin> X" using visit_avoids [OF _ _ Suc.prems(1)] oid by blast
      then show False by (simp add: X_def)
    qed
    have "y \<in> set (fst st')" if "(oid, y) \<in> depends prog" for y
    proof -
      from that op(1) obtain j where "j \<in> set (source_deps op)" "source_op prog j = Some y" by (auto simp: depends_def)
      with s2 op(3) show ?thesis by auto
    qed
    with s2 op fresh oid show ?thesis by (auto simp: order_ok_def)
  qed (use r oid Suc.prems(2) in auto)
qed simp

lemma source_order_ok:
  assumes "source_operation_order prog = Inr order"
  shows "distinct order" "\<And>x. x \<in> set order \<Longrightarrow> \<exists>op. bmap_get (operations prog) x = Some op"
proof -
  let ?f = "\<lambda>st i. visit_source_value prog (lowering_fuel prog) i st"
  from assms obtain a b where ab: "rfold ?f ([], []) (bmap_values (parameters prog)) = Inr a"
      "rfold ?f a (bmap_values (outputs prog)) = Inr b" "order = snd b"
    by (auto simp: source_operation_order_def rbind_Inr_iff rmap_Inr_iff)
  have "order_ok prog a"
    by (rule rfold_invariant [OF ab(1)]) (use visit_order in \<open>auto simp: order_ok_def [of _ "([], [])"]\<close>)
  then have "order_ok prog b"
    by (rule rfold_invariant [OF ab(2)]) (use visit_order in blast)
  with ab(3) show "distinct order" "\<And>x. x \<in> set order \<Longrightarrow> \<exists>op. bmap_get (operations prog) x = Some op"
    by (auto simp: order_ok_def)
qed

subsection \<open>The walk ends exactly on specifications without a cycle below the interface\<close>

definition interface_values :: "program \<Rightarrow> string list" where
  "interface_values prog = bmap_values (parameters prog) @ bmap_values (outputs prog)"

text \<open>The walk of \<open>source_operation_order\<close> with \<open>n\<close> levels of recursion.\<close>

definition operation_order_within :: "nat \<Rightarrow> program \<Rightarrow> string list res" where
  "operation_order_within n prog =
     rmap snd (rfold (\<lambda>st i. visit_source_value prog n i st) ([], []) (interface_values prog))"

text \<open>Some operation that a parameter or an output depends on depends on itself.\<close>

definition interface_cycle :: "program \<Rightarrow> bool" where
  "interface_cycle prog \<longleftrightarrow>
     (\<exists>i x y. i \<in> set (interface_values prog) \<and> source_op prog i = Some x \<and>
        (x, y) \<in> (depends prog)\<^sup>* \<and> (y, y) \<in> (depends prog)\<^sup>+)"

lemma source_operation_order_within:
  "source_operation_order prog = operation_order_within (lowering_fuel prog) prog"
  by (simp add: source_operation_order_def operation_order_within_def interface_values_def rfold_append
      rmap_def rbind_def split: sum.split)

lemma cyclic_never_ordered:
  assumes "interface_cycle prog"
  shows "operation_order_within n prog \<noteq> Inr order"
proof
  assume order: "operation_order_within n prog = Inr order"
  let ?f = "\<lambda>st i. visit_source_value prog n i st"
  from order obtain st where st: "rfold ?f ([], []) (interface_values prog) = Inr st"
    by (auto simp: operation_order_within_def rmap_Inr_iff)
  from assms obtain i x y where cyclic: "i \<in> set (interface_values prog)" "source_op prog i = Some x"
      "(x, y) \<in> (depends prog)\<^sup>*" "(y, y) \<in> (depends prog)\<^sup>+" by (auto simp: interface_cycle_def)
  define X where "X = {z. (z, y) \<in> (depends prog)\<^sup>*}"
  have X: "\<exists>w\<in>X. (z, w) \<in> depends prog" if "z \<in> X" for z
  proof -
    from that cyclic(4) have "(z, y) \<in> (depends prog)\<^sup>+" by (auto simp: X_def intro: rtrancl_trancl_trancl)
    then show ?thesis by (auto simp: X_def dest: tranclD)
  qed
  have "\<forall>j\<in>set (interface_values prog). \<forall>z. source_op prog j = Some z \<longrightarrow> z \<notin> X"
    by (rule visits_invariant [where P = "\<lambda>st. X \<inter> set (fst st) = {}" and R = "\<lambda>_ _. True" and
        Q = "\<lambda>j. \<forall>z. source_op prog j = Some z \<longrightarrow> z \<notin> X", OF _ _ _ st, THEN conjunct2, THEN conjunct1])
      (use visit_avoids [of X prog, OF X] in blast, simp_all)
  with cyclic show False by (auto simp: X_def)
qed

text \<open>A walk that runs out of fuel has followed a chain of operations as long as the fuel.\<close>

lemma rfold_fails: "rfold f st js = Inl e \<Longrightarrow> \<exists>j\<in>set js. \<exists>u. f u j = Inl e"
  by (induction js arbitrary: st) (auto simp: rbind_Inl_iff)

lemma visit_Suc_diverges:
  assumes "visit_source_value prog (Suc n) i st = Inl Diverge"
  shows "\<exists>x op j u. source_op prog i = Some x \<and> bmap_get (operations prog) x = Some op \<and>
    j \<in> set (source_deps op) \<and> visit_source_value prog n j u = Inl Diverge"
proof (cases "bmap_get (vals prog) (resolve_filled_value prog i)")
  case (Some def)
  show ?thesis
  proof (cases "v_origin def")
    case (OperationOrigin x)
    with Some assms obtain op where op: "bmap_get (operations prog) x = Some op"
      by (auto simp: rbind_Inl_iff ok_or_Inr_iff ok_or_Inl_iff split: if_split_asm)
    let ?f = "\<lambda>st j. visit_source_value prog n j st"
    from Some OperationOrigin assms op obtain st1 where
      "rfold ?f st (op_operands op) = Inl Diverge \<or> rfold ?f st1 (captures_of op) = Inl Diverge"
      by (auto simp: rbind_Inl_iff captures_of_def split: if_split_asm option.split_asm)
    then obtain j u where "j \<in> set (source_deps op)" "visit_source_value prog n j u = Inl Diverge"
      by (auto simp: source_deps_def dest!: rfold_fails)
    moreover have "source_op prog i = Some x" using Some OperationOrigin by (simp add: source_op_def)
    ultimately show ?thesis using op by blast
  qed (use Some assms in simp)
qed (use assms in simp)

lemma visit_diverges:
  "visit_source_value prog (Suc n) i st = Inl Diverge \<Longrightarrow>
   \<exists>x y. source_op prog i = Some x \<and> (x, y) \<in> depends prog ^^ n \<and> bmap_get (operations prog) y \<noteq> None"
proof (induction n arbitrary: i st)
  case 0
  from visit_Suc_diverges [OF this] show ?case by auto
next
  case (Suc n)
  from visit_Suc_diverges [OF Suc.prems] obtain x op j u where
    op: "source_op prog i = Some x" "bmap_get (operations prog) x = Some op" "j \<in> set (source_deps op)"
    and j: "visit_source_value prog (Suc n) j u = Inl Diverge" by blast
  from Suc.IH [OF j] obtain z y where z: "source_op prog j = Some z" "(z, y) \<in> depends prog ^^ n"
    "bmap_get (operations prog) y \<noteq> None" by blast
  with op have "(x, z) \<in> depends prog" by (auto simp: depends_def)
  with z(2) have "(x, y) \<in> depends prog ^^ Suc n" by (blast intro: relpow_Suc_I2)
  with op(1) z(3) show ?case by blast
qed

text \<open>A chain longer than the table of operations repeats one of them.\<close>

lemma long_chain_cycle:
  assumes chain: "(x, y) \<in> depends prog ^^ n" "bmap_get (operations prog) y \<noteq> None" and n: "length (operations prog) \<le> n"
  shows "\<exists>z. (x, z) \<in> (depends prog)\<^sup>* \<and> (z, z) \<in> (depends prog)\<^sup>+"
proof -
  from chain(1) obtain f where f: "f 0 = x" "f n = y" "\<And>i. i < n \<Longrightarrow> (f i, f (Suc i)) \<in> depends prog"
    by (auto simp: relpow_fun_conv)
  have path: "(f i, f j) \<in> (depends prog)\<^sup>*" if "i \<le> j" "j \<le> n" for i j
    using that by (induction j rule: dec_induct) (auto intro: rtrancl_into_rtrancl [OF _ f(3)])
  let ?D = "fst ` set (operations prog)"
  have "f i \<in> ?D" if "i \<le> n" for i
  proof -
    have "bmap_get (operations prog) (f i) \<noteq> None"
      using that f(2) f(3) [of i] chain(2) by (cases "i = n") (auto simp: depends_def)
    then show ?thesis by (simp add: bmap_get_def map_of_eq_None_iff)
  qed
  then have "f ` {..n} \<subseteq> ?D" by auto
  then have "card (f ` {..n}) \<le> length (operations prog)"
    by (metis List.finite_set card_image_le card_length card_mono finite_imageI le_trans)
  with n have "\<not> inj_on f {..n}" by (auto dest: card_image)
  then obtain i j where ij: "i < j" "j \<le> n" "f i = f j" by (metis atMost_iff inj_onI linorder_less_linear)
  then have "(f i, f (Suc i)) \<in> depends prog" "(f (Suc i), f j) \<in> (depends prog)\<^sup>*"
    using f(3) [of i] path [of "Suc i" j] by simp_all
  with ij(3) have "(f i, f i) \<in> (depends prog)\<^sup>+" by (metis rtrancl_into_trancl2)
  with path [of 0 i] ij f(1) show ?thesis by auto
qed

lemma acyclic_walk_ends:
  assumes "\<not> interface_cycle prog"
  shows "source_operation_order prog \<noteq> Inl Diverge"
proof
  assume "source_operation_order prog = Inl Diverge"
  then obtain i u where i: "i \<in> set (interface_values prog)"
      "visit_source_value prog (Suc (length (operations prog))) i u = Inl Diverge"
    by (auto simp: source_operation_order_within operation_order_within_def rmap_Inl_iff lowering_fuel_def
        simp del: visit_source_value.simps dest!: rfold_fails)
  from visit_diverges [OF i(2)] obtain x y where "source_op prog i = Some x"
      "(x, y) \<in> depends prog ^^ length (operations prog)" "bmap_get (operations prog) y \<noteq> None" by blast
  with long_chain_cycle [of x y] i(1) assms show False unfolding interface_cycle_def by blast
qed

text \<open>More fuel does not change a walk that has ended.\<close>

lemma rfold_extend:
  assumes "\<And>u j. f u j \<noteq> Inl Diverge \<Longrightarrow> g u j = f u j"
  shows "rfold f st js \<noteq> Inl Diverge \<Longrightarrow> rfold g st js = rfold f st js"
proof (induction js arbitrary: st)
  case (Cons j js)
  then have "g st j = f st j" by (intro assms) auto
  with Cons show ?case by (cases "f st j") simp_all
qed simp

lemma visit_more_fuel:
  "visit_source_value prog n i st \<noteq> Inl Diverge \<Longrightarrow> visit_source_value prog (n + k) i st = visit_source_value prog n i st"
proof (induction n arbitrary: i st)
  case (Suc n)
  show ?case
  proof (cases "bmap_get (vals prog) (resolve_filled_value prog i)")
    case (Some def)
    show ?thesis
    proof (cases "v_origin def")
      case (OperationOrigin x)
      let ?f = "\<lambda>n st j. visit_source_value prog n j st"
      have more: "rfold (?f n) u js \<noteq> Inl Diverge \<Longrightarrow> rfold (?f (n + k)) u js = rfold (?f n) u js" for u js
        by (rule rfold_extend) (rule Suc.IH)
      show ?thesis
      proof (cases "bmap_get (operations prog) x")
        case (Some op)
        let ?r = "rfold (?f n) st (op_operands op)"
        note simps = \<open>bmap_get (vals prog) _ = Some def\<close> OperationOrigin Some
        show ?thesis
        proof (cases "bset_contains (fst st) x")
          case False
          then have "?r \<noteq> Inl Diverge" using Suc.prems by (auto simp: simps)
          note r1 = more [OF this]
          show ?thesis
          proof (cases ?r)
            case (Inr st1)
            show ?thesis
            proof (cases "op_region op")
              case (Some rg)
              then have "rfold (?f n) st1 (rg_captures rg) \<noteq> Inl Diverge"
                using Suc.prems False Inr by (auto simp: simps)
              from more [OF this] r1 show ?thesis using Some Inr False by (simp add: simps)
            qed (use r1 Inr False in \<open>simp add: simps\<close>)
          qed (use r1 False in \<open>simp add: simps\<close>)
        qed (simp add: simps)
      qed (use Some OperationOrigin in simp)
    qed (use Some in simp)
  qed simp
qed simp

lemma walk_more_fuel:
  assumes "\<not> interface_cycle prog"
  shows "operation_order_within (lowering_fuel prog + k) prog = source_operation_order prog"
proof -
  let ?f = "\<lambda>n st i. visit_source_value prog n i st"
  have "rfold (?f (lowering_fuel prog)) ([], []) (interface_values prog) \<noteq> Inl Diverge"
    using acyclic_walk_ends [OF assms]
    by (auto simp: source_operation_order_within operation_order_within_def rmap_Inl_iff)
  then have "rfold (?f (lowering_fuel prog + k)) ([], []) (interface_values prog) =
      rfold (?f (lowering_fuel prog)) ([], []) (interface_values prog)"
    by (intro rfold_extend) (rule visit_more_fuel)
  then show ?thesis by (simp only: source_operation_order_within operation_order_within_def)
qed

text \<open>Nothing else in the lowering recurses.\<close>

lemma lower_region_ends: "lower_region rg m \<noteq> Inl Diverge"
proof -
  have v: "convert_region_value v m \<noteq> Inl Diverge" for v
    by (simp add: convert_region_value_def rmap_Inl_iff ok_or_Inl_iff split: region_value.split)
  have "lower_region_operation m op \<noteq> Inl Diverge" for op
    by (auto simp: lower_region_operation_def rmap_Inl_iff v dest!: traverse_error)
  with v show ?thesis
    by (auto simp: lower_region_def rbind_Inl_iff ok_or_Inl_iff dest!: traverse_error)
qed

lemma lower_steps_end:
  "lowering_admits prog \<noteq> Inl Diverge" "lower_operation prog lw i \<noteq> Inl Diverge"
  "lower_parameter prog m p \<noteq> Inl Diverge" "lower_output prog m result q \<noteq> Inl Diverge"
proof -
  have "lower_result prog x y st j \<noteq> Inl Diverge" for x y st j
    by (auto simp: lower_result_def rbind_Inl_iff ok_or_Inl_iff Let_def split: prod.split)
  then show "lower_operation prog lw i \<noteq> Inl Diverge"
    by (auto simp: lower_operation_def rbind_Inl_iff rmap_Inl_iff ok_or_Inl_iff lower_region_ends Let_def
        split: prod.split option.split_asm dest!: rfold_fails traverse_error)
qed (auto simp: lowering_admits_def lower_parameter_def lower_output_def rbind_Inl_iff rmap_Inl_iff ok_or_Inl_iff)

lemma acyclic_lowering_ends:
  assumes "\<not> interface_cycle prog"
  shows "identity_lower prog alloc \<noteq> Inl Diverge"
  using acyclic_walk_ends [OF assms] lower_steps_end
  by (auto simp: identity_lower_def rbind_Inl_iff dest!: rfold_fails traverse_error)

lemma cyclic_never_lowered:
  assumes "interface_cycle prog"
  shows "identity_lower prog alloc \<noteq> Inr r"
  using cyclic_never_ordered [OF assms]
  by (auto simp: identity_lower_def source_operation_order_within rbind_Inr_iff)

end
