(* ===== verification/Impl_Proofs.thy ===== *)
theory Impl_Proofs
  imports Impl_IR Kinds
begin

text \<open>
  What verification of an implementation graph establishes. The adapter keeps every table of the
  graph; \<open>verify_impl\<close> checks that each operation defines exactly one value, that every value is
  defined by an operation, and that the declared element types are those inference computes. With
  the two facts it does not check (\<open>impl_wf\<close>), a verified graph is kinded in the sense of \<open>Kinds\<close>.
\<close>

subsection \<open>The adapter\<close>

lemma vals_impl: "bmap_get (vals (impl_as_program p)) i = map_option (value_to_spec i) (bmap_get (ip_values p) i)"
  by (simp add: impl_as_program_def Let_def)

lemma operations_impl:
  "bmap_get (operations (impl_as_program p)) i = map_option (operation_to_spec i) (bmap_get (ip_operations p) i)"
  by (simp add: impl_as_program_def Let_def)

lemma impl_fields [simp]:
  "constants (impl_as_program p) = ip_constants p" "parameters (impl_as_program p) = ip_parameters p"
  "outputs (impl_as_program p) = bmap_map (\<lambda>_ out. iout_value out) (ip_outputs p)"
  "holes (impl_as_program p) = []" "frozen (impl_as_program p)" "constraints (impl_as_program p) = ip_constraints p"
  by (simp_all add: impl_as_program_def Let_def)

lemma value_to_spec_simps [simp]:
  "v_ty (value_to_spec i v) = iv_ty v"
  "v_origin (value_to_spec i v) = OperationOrigin oid \<longleftrightarrow> iv_origin v = ImplOperationOrigin oid"
  by (cases "iv_origin v"; simp add: value_to_spec_def)+

lemma operation_to_spec_simps [simp]:
  "op_opcode (operation_to_spec i op) = io_opcode op" "op_operands (operation_to_spec i op) = io_operands op"
  "op_attributes (operation_to_spec i op) = io_attributes op"
  "op_region (operation_to_spec i op) = map_option region_to_spec (io_region op)"
  by (simp_all add: operation_to_spec_def)

lemma resolve_impl [simp]: "resolve_filled_value (impl_as_program p) i = i"
  by (auto simp: resolve_filled_value_def vals_impl value_to_spec_def split: option.split impl_value_origin.split)

lemma kind_at_impl: "kind_at (impl_as_program p) i = map_option (\<lambda>v. element_type (iv_ty v)) (bmap_get (ip_values p) i)"
  by (simp add: kind_at_def vals_impl option.map_comp comp_def)

subsection \<open>What the verifier does not check\<close>

text \<open>
  The tables are ordered maps; a literal belongs to the value of a constant operation; the block
  arguments of a region have the element types of the operands, and the value it yields is
  captured when it comes from outside. The identity lowering establishes these, the rewrites keep
  them, and \<open>verify_impl\<close> relies on them.
\<close>

definition region_fits :: "impl_program \<Rightarrow> impl_operation \<Rightarrow> bool" where
  "region_fits p op \<longleftrightarrow>
     (case io_region op of
        None \<Rightarrow> True
      | Some rg \<Rightarrow>
          list_all2 (\<lambda>i a. \<forall>v. bmap_get (ip_values p) i = Some v \<longrightarrow> iarg_ty a = Scalar (element_type (iv_ty v)))
            (io_operands op) (irg_arguments rg) \<and>
          (case irg_yield_value rg of ImplCapture i \<Rightarrow> i \<in> set (irg_captures rg) | _ \<Rightarrow> True))"

definition impl_wf :: "impl_program \<Rightarrow> bool" where
  "impl_wf p \<longleftrightarrow>
     bmap_ok (ip_operations p) \<and> bmap_ok (ip_values p) \<and> bmap_ok (ip_constants p) \<and>
     bmap_ok (ip_parameters p) \<and> bmap_ok (ip_outputs p) \<and>
     (\<forall>(i, c)\<in>set (ip_constants p). \<forall>v. bmap_get (ip_values p) i = Some v \<longrightarrow>
        (case iv_origin v of ImplOperationOrigin oid \<Rightarrow>
           (\<forall>op. bmap_get (ip_operations p) oid = Some op \<longrightarrow> io_opcode op = Constant))) \<and>
     (\<forall>(oid, op)\<in>set (ip_operations p). io_opcode op \<in> {Map, ZipMap, Reduce} \<longrightarrow> region_fits p op)"

subsection \<open>What it checks\<close>

definition operation_verified :: "impl_program \<Rightarrow> constraint_facts \<Rightarrow> string \<Rightarrow> impl_operation \<Rightarrow> bool" where
  "operation_verified p facts oid op \<longleftrightarrow>
     (\<exists>i t v types. io_id op = oid \<and> io_results op = [i] \<and> io_result_types op = [t] \<and>
        bmap_get (ip_values p) i = Some v \<and> iv_id v = i \<and> iv_origin v = ImplOperationOrigin oid \<and> iv_ty v = t \<and>
        traverse (impl_value_type p ''operand `{value}` is absent'') (io_operands op) = Inr types \<and>
        verified_type p facts op types = Inr t)"

lemma verify_operation_Inr:
  assumes "verify_operation p source facts defined oid = Inr defined'"
  shows "\<exists>op. bmap_get (ip_operations p) oid = Some op \<and> operation_verified p facts oid op \<and>
    (\<forall>i\<in>set (io_operands op). i \<in> set defined) \<and> defined' = bset_insert (hd (io_results op)) defined"
proof -
  from assms obtain op where op: "bmap_get (ip_operations p) oid = Some op" "io_id op = oid"
      "length (io_results op) = length (io_result_types op)" "io_results op \<noteq> []"
      "\<forall>i\<in>set (io_operands op). i \<in> set defined"
    by (auto simp: verify_operation_def rbind_Inr_iff ok_or_Inr_iff bset_contains_def list_ex_iff split: if_split_asm)
  with assms obtain rs types t result where r: "traverse (verify_result p oid) (io_results op) = Inr rs"
      "traverse (impl_value_type p ''operand `{value}` is absent'') (io_operands op) = Inr types"
      "verified_type p facts op types = Inr t" "slice_index (io_results op) 0 = Inr result"
      "io_result_types op = [t]" "\<exists>v. bmap_get (ip_values p) result = Some v \<and> iv_ty v = t"
      "defined' = fold bset_insert (io_results op) defined"
    by (auto simp: verify_operation_def rbind_Inr_iff split: if_split_asm option.split_asm)
  from op(3) r(5) obtain i where i: "io_results op = [i]" by (cases "io_results op") auto
  with r(4) have "result = i" by (simp add: slice_index_def)
  moreover from r(1) i have "verify_result p oid i = Inr ()" by (auto simp: rbind_Inr_iff)
  then have "\<exists>v. bmap_get (ip_values p) i = Some v \<and> iv_id v = i \<and> iv_origin v = ImplOperationOrigin oid"
    by (auto simp: verify_result_def rbind_Inr_iff ok_or_Inr_iff split: if_split_asm)
  ultimately have "operation_verified p facts oid op"
    using op(2) r(2,3,5,6) i unfolding operation_verified_def by auto
  with op i r(7) show ?thesis by auto
qed

text \<open>The set of defined values grows with the operations walked over.\<close>

definition walked :: "impl_program \<Rightarrow> constraint_facts \<Rightarrow> string list \<Rightarrow> string bset \<Rightarrow> bool" where
  "walked p facts done s \<longleftrightarrow> bset_ok s \<and>
     (\<forall>oid\<in>set done. \<exists>op. bmap_get (ip_operations p) oid = Some op \<and> operation_verified p facts oid op) \<and>
     set s = {i. \<exists>oid op. oid \<in> set done \<and> bmap_get (ip_operations p) oid = Some op \<and> io_results op = [i]}"

lemma verify_operations_walked:
  "rfold (verify_operation p source facts) s oids = Inr s' \<Longrightarrow> walked p facts done s \<Longrightarrow> walked p facts (done @ oids) s'"
proof (induction oids arbitrary: s "done")
  case (Cons oid oids)
  from Cons.prems(1) obtain s1 where s1: "verify_operation p source facts s oid = Inr s1"
      "rfold (verify_operation p source facts) s1 oids = Inr s'" by (auto simp: rbind_Inr_iff)
  from verify_operation_Inr [OF s1(1)] obtain op where op: "bmap_get (ip_operations p) oid = Some op"
      "operation_verified p facts oid op" "s1 = bset_insert (hd (io_results op)) s"
    by blast
  from op(2) obtain i where i: "io_results op = [i]" unfolding operation_verified_def by blast
  have "walked p facts (done @ [oid]) s1"
    using Cons.prems(2) op i by (auto simp: walked_def)
  from Cons.IH [OF s1(2) this] show ?case by simp
qed simp

definition verified :: "impl_program \<Rightarrow> constraint_facts \<Rightarrow> bool" where
  "verified p facts \<longleftrightarrow>
     facts_from_program (impl_as_program p) = Inr facts \<and> set (ip_order p) = set (bmap_keys (ip_operations p)) \<and>
     (\<forall>oid op. bmap_get (ip_operations p) oid = Some op \<longrightarrow> operation_verified p facts oid op) \<and>
     (\<forall>i v. bmap_get (ip_values p) i = Some v \<longrightarrow>
        (\<exists>oid op. iv_origin v = ImplOperationOrigin oid \<and> bmap_get (ip_operations p) oid = Some op \<and>
           io_results op = [i])) \<and>
     (\<forall>name i. (name, i) \<in> set (ip_parameters p) \<longrightarrow>
        (\<exists>v oid op. bmap_get (ip_values p) i = Some v \<and> iv_origin v = ImplOperationOrigin oid \<and>
           bmap_get (ip_operations p) oid = Some op \<and> io_opcode op = Parameter)) \<and>
     (\<forall>name out. (name, out) \<in> set (ip_outputs p) \<longrightarrow>
        (\<exists>v. bmap_get (ip_values p) (iout_value out) = Some v \<and> iv_ty v = iout_ty out))"

lemma traverse_Inr_mem: "traverse f xs = Inr ys \<Longrightarrow> x \<in> set xs \<Longrightarrow> \<exists>y. f x = Inr y"
  by (induction xs arbitrary: ys) (auto simp: rbind_Inr_iff)

lemma length_keys: "length (bmap_keys m) = length m"
  by (simp add: bmap_keys_def)

lemma verify_impl_verified:
  assumes v: "verify_impl p source limits = Inr ()" and ok: "bmap_ok (ip_operations p)" "bmap_ok (ip_values p)"
  shows "\<exists>facts. verified p facts"
proof -
  from v obtain facts defined ps outs where f: "facts_from_program (impl_as_program p) = Inr facts"
      "rfold (verify_operation p source facts) [] (ip_order p) = Inr defined"
      "length defined = length (ip_values p)" "verify_interface p source = Inr ()"
      "traverse (verify_parameter p source) (ip_parameters p) = Inr ps"
      "traverse (verify_output p source) (ip_outputs p) = Inr outs"
    by (auto simp: verify_impl_def rbind_Inr_iff rmap_Inr_iff split: if_split_asm)
  have w: "walked p facts (ip_order p) defined"
    using verify_operations_walked [OF f(2), of "[]"] by (simp add: walked_def)
  from f(4) have lens: "length (ip_order p) = length (ip_operations p)"
      "length (bset_of_list (ip_order p)) = length (ip_order p)"
    by (auto simp: verify_interface_def split: if_split_asm)
  have keys: "set (ip_order p) \<subseteq> set (bmap_keys (ip_operations p))"
    using w by (auto simp: walked_def bmap_keys_set bmap_contains_def)
  have "card (set (ip_order p)) = length (bset_of_list (ip_order p))"
    using distinct_card [of "bset_of_list (ip_order p)"] bset_ok_of_list [of "ip_order p"]
    by (simp add: bset_ok_def strict_sorted_iff)
  also have "\<dots> = card (set (bmap_keys (ip_operations p)))"
    using lens distinct_card [OF bmap_ok_distinct [OF ok(1)]] by (simp add: length_keys)
  finally have order: "set (ip_order p) = set (bmap_keys (ip_operations p))"
    using keys by (intro card_subset_eq) simp_all
  then have ops: "\<And>oid op. bmap_get (ip_operations p) oid = Some op \<Longrightarrow> oid \<in> set (ip_order p)"
    by (simp add: bmap_keys_set bmap_contains_def)
  have def_keys: "set defined \<subseteq> set (bmap_keys (ip_values p))"
    using w by (fastforce simp: walked_def bmap_keys_set bmap_contains_def operation_verified_def)
  have "card (set defined) = card (set (bmap_keys (ip_values p)))"
    using w f(3) distinct_card [OF bmap_ok_distinct [OF ok(2)]] distinct_card [of defined]
    by (simp add: walked_def bset_ok_def strict_sorted_iff length_keys)
  with def_keys have all: "set defined = set (bmap_keys (ip_values p))"
    by (intro card_subset_eq) simp_all
  show ?thesis
    unfolding verified_def
  proof (intro exI [of _ facts] conjI allI impI)
    show "operation_verified p facts oid op" if "bmap_get (ip_operations p) oid = Some op" for oid op
      using w ops [OF that] that by (auto simp: walked_def)
    show "\<exists>oid op. iv_origin v = ImplOperationOrigin oid \<and> bmap_get (ip_operations p) oid = Some op \<and> io_results op = [i]"
      if "bmap_get (ip_values p) i = Some v" for i v
    proof -
      have "i \<in> set defined" using that all by (simp add: bmap_keys_set bmap_contains_def)
      then obtain oid op where o: "oid \<in> set (ip_order p)" "bmap_get (ip_operations p) oid = Some op" "io_results op = [i]"
        using w by (auto simp: walked_def)
      with w have "operation_verified p facts oid op" by (auto simp: walked_def)
      with o that show ?thesis by (auto simp: operation_verified_def)
    qed
    show "\<exists>v oid op. bmap_get (ip_values p) i = Some v \<and> iv_origin v = ImplOperationOrigin oid \<and>
           bmap_get (ip_operations p) oid = Some op \<and> io_opcode op = Parameter"
      if "(name, i) \<in> set (ip_parameters p)" for name i
      using traverse_Inr_mem [OF f(5) that]
      by (auto simp: verify_parameter_def rbind_Inr_iff ok_or_Inr_iff
          split: if_split_asm impl_value_origin.split_asm option.split_asm)
    show "\<exists>v. bmap_get (ip_values p) (iout_value out) = Some v \<and> iv_ty v = iout_ty out"
      if "(name, out) \<in> set (ip_outputs p)" for name out
      using traverse_Inr_mem [OF f(6) that]
      by (auto simp: verify_output_def rbind_Inr_iff rmap_Inr_iff impl_value_type_def ok_or_Inr_iff split: if_split_asm)
  qed (rule f(1), rule order)
qed

subsection \<open>Regions\<close>

definition kind_env :: "(string, ty) bmap \<Rightarrow> type_env \<Rightarrow> bool" where
  "kind_env m t \<longleftrightarrow> (\<forall>k. bmap_get t k = map_option element_type (bmap_get m k))"

definition capture_kinds :: "impl_program \<Rightarrow> string list \<Rightarrow> type_env" where
  "capture_kinds p ids = bmap_of_list (zip ids (map (\<lambda>i. the (kind_at (impl_as_program p) i)) ids))"

lemma argument_types_kind:
  "rfold (\<lambda>m a. if bmap_contains m (iarg_name a) then impl_error ''duplicate region argument `{}`''
      else Inr (bmap_insert (iarg_name a) (iarg_ty a) m)) m args = Inr m' \<Longrightarrow> kind_env m t \<Longrightarrow>
   kind_env m' (fold (\<lambda>(k, v). bmap_insert k v) (zip (map iarg_name args) (map (\<lambda>a. element_type (iarg_ty a)) args)) t)"
proof (induction args arbitrary: m t)
  case (Cons a args)
  then have r: "rfold (\<lambda>m a. if bmap_contains m (iarg_name a) then impl_error ''duplicate region argument `{}`''
      else Inr (bmap_insert (iarg_name a) (iarg_ty a) m)) (bmap_insert (iarg_name a) (iarg_ty a) m) args = Inr m'"
    by (auto simp: rbind_Inr_iff split: if_split_asm)
  have "kind_env (bmap_insert (iarg_name a) (iarg_ty a) m) (bmap_insert (iarg_name a) (element_type (iarg_ty a)) t)"
    using Cons.prems(2) by (simp add: kind_env_def)
  from Cons.IH [OF r this] show ?case by simp
qed simp

lemma reference_kind:
  assumes env: "kind_env arguments targs" "kind_env locals lt" and t: "impl_region_value_type v arguments locals p = Inr t"
    and listed: "\<And>i. v = ImplCapture i \<Longrightarrow> i \<in> set ids"
  shows "reference_type targs lt (capture_kinds p ids) (region_value_to_spec v) = Some (element_type t)"
proof (cases v)
  case (ImplCapture i)
  with t obtain def where "bmap_get (ip_values p) i = Some def" "iv_ty def = t"
    by (auto simp: impl_region_value_type_def impl_value_type_def rmap_Inr_iff ok_or_Inr_iff)
  with bmap_of_list_graph [OF listed [OF ImplCapture], of "\<lambda>i. the (kind_at (impl_as_program p) i)"] ImplCapture
  show ?thesis by (simp add: reference_type_def capture_kinds_def) (simp add: kind_at_impl)
qed (use env t in \<open>auto simp: impl_region_value_type_def ok_or_Inr_iff reference_type_def kind_env_def\<close>)

lemma references_kind:
  assumes env: "kind_env arguments targs" "kind_env locals lt"
  shows "traverse (\<lambda>v. impl_region_value_type v arguments locals p) vs = Inr ts \<Longrightarrow>
    (\<And>i. ImplCapture i \<in> set vs \<Longrightarrow> i \<in> set ids) \<Longrightarrow>
    list_all2 (\<lambda>x t. reference_type targs lt (capture_kinds p ids) x = Some t) (map region_value_to_spec vs) (map element_type ts)"
proof (induction vs arbitrary: ts)
  case (Cons v vs)
  then obtain t ts' where t: "impl_region_value_type v arguments locals p = Inr t"
      "traverse (\<lambda>v. impl_region_value_type v arguments locals p) vs = Inr ts'" "ts = t # ts'"
    by (auto simp: rbind_Inr_iff)
  have "reference_type targs lt (capture_kinds p ids) (region_value_to_spec v) = Some (element_type t)"
    by (rule reference_kind [OF env t(1)]) (use Cons.prems(2) in auto)
  with Cons.IH [OF t(2)] Cons.prems(2) t(3) show ?case by simp
qed simp

lemma region_operations_kind:
  assumes args: "kind_env arguments targs"
  shows "rfold (verify_region_operation p facts (bset_of_list ids) arguments) locals ops = Inr locals' \<Longrightarrow>
    kind_env locals lt \<Longrightarrow>
    \<exists>final. region_ops_typed targs (capture_kinds p ids) lt (map region_operation_to_spec ops) final \<and> kind_env locals' final"
proof (induction ops arbitrary: locals lt)
  case (Cons op ops)
  from Cons.prems(1) obtain l where l: "verify_region_operation p facts (bset_of_list ids) arguments locals op = Inr l"
      "rfold (verify_region_operation p facts (bset_of_list ids) arguments) l ops = Inr locals'"
    by (auto simp: rbind_Inr_iff)
  from l(1) obtain ts inferred where t: "traverse (\<lambda>v. impl_region_value_type v arguments locals p) (iro_operands op) = Inr ts"
      "infer_primitive_with_facts (iro_opcode op) ts (iro_attributes op) facts = Inr inferred"
      "l = bmap_insert (iro_result op) (inf_ty inferred) locals"
    and c: "\<not> list_ex (\<lambda>v. case v of ImplCapture i \<Rightarrow> \<not> bset_contains (bset_of_list ids) i | _ \<Rightarrow> False) (iro_operands op)"
    by (auto simp: verify_region_operation_def rbind_Inr_iff split: if_split_asm)
  have listed: "i \<in> set ids" if "ImplCapture i \<in> set (iro_operands op)" for i
    using c that by (auto simp: list_ex_iff bset_contains_def)
  note refs = references_kind [OF args Cons.prems(2) t(1) listed]
  have "prim_typing (iro_opcode op) (iro_attributes op) (scalars (map element_type ts)) (element_type (inf_ty inferred), None)"
    using t(2) by (intro infer_kinds) (simp add: infer_primitive_with_facts_def)
  moreover have "kind_env l (bmap_insert (iro_result op) (element_type (inf_ty inferred)) lt)"
    using Cons.prems(2) t(3) by (simp add: kind_env_def)
  from Cons.IH [OF l(2) this] obtain final where "region_ops_typed targs (capture_kinds p ids)
      (bmap_insert (iro_result op) (element_type (inf_ty inferred)) lt) (map region_operation_to_spec ops) final"
      "kind_env locals' final" by blast
  ultimately have "region_ops_typed targs (capture_kinds p ids) lt (region_operation_to_spec op # map region_operation_to_spec ops) final"
      "kind_env locals' final"
    using refs unfolding region_ops_typed.simps
    by (auto simp only: region_operation_to_spec_def region_operation.select_convs)
  then show ?case by auto
qed simp

lemma captures_listed:
  assumes "\<forall>i\<in>set ids. bmap_contains (ip_values p) i"
  shows "list_all2 (\<lambda>c t. kind_look (impl_as_program p) c = Some (t, None)) ids
    (map (\<lambda>i. the (kind_at (impl_as_program p) i)) ids)"
  using assms by (auto simp: list_all2_map2 list_all2_same kind_look_def kind_at_impl elim!: bmap_containsE)

lemma verify_region_typed:
  assumes v: "verify_region rg p facts = Inr ()"
    and y: "case irg_yield_value rg of ImplCapture i \<Rightarrow> i \<in> set (irg_captures rg) | _ \<Rightarrow> True"
  shows "region_typed (kind_look (impl_as_program p)) (map (\<lambda>a. element_type (iarg_ty a)) (irg_arguments rg))
    (region_to_spec rg) (element_type (irg_yield_type rg))"
proof -
  let ?targs = "bmap_of_list (zip (map iarg_name (irg_arguments rg)) (map (\<lambda>a. element_type (iarg_ty a)) (irg_arguments rg)))"
  from v obtain arguments locals where r: "region_argument_types (irg_arguments rg) = Inr arguments"
      "\<forall>i\<in>set (irg_captures rg). bmap_contains (ip_values p) i"
      "rfold (verify_region_operation p facts (bset_of_list (irg_captures rg)) arguments) [] (irg_operations rg) = Inr locals"
      "impl_region_value_type (irg_yield_value rg) arguments locals p = Inr (irg_yield_type rg)"
    by (auto simp: verify_region_def rbind_Inr_iff Let_def list_ex_iff split: if_split_asm)
  have args: "kind_env arguments ?targs"
    using argument_types_kind [OF r(1) [unfolded region_argument_types_def], of "[]"]
    by (simp add: kind_env_def bmap_of_list_def)
  have "kind_env [] []" by (simp add: kind_env_def)
  from region_operations_kind [OF args r(3) this] obtain final where final:
      "region_ops_typed ?targs (capture_kinds p (irg_captures rg)) [] (map region_operation_to_spec (irg_operations rg)) final"
      "kind_env locals final" by blast
  have "reference_type ?targs final (capture_kinds p (irg_captures rg)) (region_value_to_spec (irg_yield_value rg)) =
      Some (element_type (irg_yield_type rg))"
    by (rule reference_kind [OF args final(2) r(4)]) (use y in simp)
  with final(1) captures_listed [OF r(2)] show ?thesis
    unfolding region_typed_def region_to_spec_def capture_kinds_def by (auto simp: comp_def)
qed

subsection \<open>Verified graphs are kinded\<close>

lemma operand_types_kind:
  "traverse (impl_value_type p m) is = Inr ts \<Longrightarrow>
   list_all2 (\<lambda>i d. kind_at (impl_as_program p) i = Some d) is (map element_type ts)"
  by (induction "is" arbitrary: ts) (auto simp: rbind_Inr_iff impl_value_type_def rmap_Inr_iff ok_or_Inr_iff kind_at_impl)

lemma literal_kind: "literal_matches t c \<Longrightarrow> constant_runtime c = Inr w \<Longrightarrow> has_kind w (element_type t)"
  by (cases c)
     (auto simp: literal_matches_def constant_runtime_def rmap_Inr_iff ok_or_Inr_iff
       split: ty.split_asm scalar_type.split_asm)

lemma higher_kinds:
  assumes inf: "infer_higher_with_facts op ts rg facts = Inr inferred" and op: "op \<in> {Map, ZipMap, Reduce}"
  shows "element_type (inf_ty inferred) = element_type (rg_yield_type rg) \<and>
    (op = Map \<longrightarrow> length ts = 1) \<and>
    (op = Reduce \<longrightarrow> map element_type ts = [element_type (inf_ty inferred), element_type (inf_ty inferred)])"
proof -
  from op consider "op = Map" | "op = ZipMap" | "op = Reduce" by auto
  then show ?thesis
  proof cases
    case 1
    with inf have "infer_map ts rg = Inr inferred" by (simp add: infer_higher_with_facts_def infer_higher_impl_def)
    with 1 show ?thesis
      by (auto simp: infer_map_def arity_def rbind_Inr_iff legal_inference_def split: ty.split_asm if_split_asm)
  next
    case 2
    with inf have "infer_zip_map (Some facts) ts rg = Inr inferred"
      by (simp add: infer_higher_with_facts_def infer_higher_impl_def)
    with 2 show ?thesis
      by (cases "rg_yield_type rg")
         (auto simp: infer_zip_map_def rbind_Inr_iff split: ty.split_asm if_split_asm)
  next
    case 3
    with inf have "infer_reduce ts rg = Inr inferred" by (simp add: infer_higher_with_facts_def infer_higher_impl_def)
    with 3 show ?thesis
      by (auto simp: infer_reduce_def arity_def rbind_Inr_iff legal_inference_def length_Suc_conv numeral_2_eq_2
          split: ty.split_asm if_split_asm)
  qed
qed

lemma fits_kinds:
  assumes "list_all2 (\<lambda>i a. \<forall>v. bmap_get (ip_values p) i = Some v \<longrightarrow> iarg_ty a = Scalar (element_type (iv_ty v))) is args"
    and "traverse (impl_value_type p m) is = Inr ts"
  shows "map (\<lambda>a. element_type (iarg_ty a)) args = map element_type ts"
  using assms
proof (induction "is" args arbitrary: ts rule: list_all2_induct)
  case (Cons i "is" a args)
  then show ?case by (auto simp: rbind_Inr_iff impl_value_type_def rmap_Inr_iff ok_or_Inr_iff)
qed simp

lemma verified_operation_kind:
  assumes o: "operation_verified p facts oid op" and wf: "impl_wf p" and op: "bmap_get (ip_operations p) oid = Some op"
    and i: "io_results op = [i]" "bmap_get (ip_values p) i = Some v"
  shows "definition_kind (impl_as_program p) i (operation_to_spec oid op) (element_type (iv_ty v))"
proof -
  from o i obtain types where t: "io_result_types op = [iv_ty v]"
      "traverse (impl_value_type p ''operand `{value}` is absent'') (io_operands op) = Inr types"
      "verified_type p facts op types = Inr (iv_ty v)"
    by (auto simp: operation_verified_def)
  note operands = operand_types_kind [OF t(2)]
  consider (external) "io_opcode op = Parameter" | (literal) "io_opcode op = Constant"
    | (higher) "io_opcode op \<in> {Map, ZipMap, Reduce}"
    | (primitive) "io_opcode op \<notin> {Parameter, Constant, Map, ZipMap, Reduce}" by blast
  then show ?thesis
  proof cases
    case external
    then show ?thesis by (simp add: definition_kind_def)
  next
    case literal
    with t(3,1) i(1) show ?thesis
      by (auto simp: definition_kind_def verified_type_def rbind_Inr_iff ok_or_Inr_iff slice_index_def
          split: if_split_asm intro: literal_kind)
  next
    case higher
    with t(3) obtain rg inferred where rg: "io_region op = Some rg" "verify_region rg p facts = Inr ()"
        "infer_higher_with_facts (io_opcode op) types (region_to_spec rg) facts = Inr inferred" "inf_ty inferred = iv_ty v"
      by (auto simp: verified_type_def rbind_Inr_iff ok_or_Inr_iff rmap_Inr_iff)
    from higher wf op have "region_fits p op" by (force simp: impl_wf_def dest: bmap_get_mem)
    with rg(1) have fits: "list_all2 (\<lambda>i a. \<forall>v. bmap_get (ip_values p) i = Some v \<longrightarrow> iarg_ty a = Scalar (element_type (iv_ty v)))
            (io_operands op) (irg_arguments rg)"
        "case irg_yield_value rg of ImplCapture i \<Rightarrow> i \<in> set (irg_captures rg) | _ \<Rightarrow> True"
      by (simp_all add: region_fits_def)
    have "element_type (irg_yield_type rg) = element_type (iv_ty v)"
      using higher_kinds [OF rg(3) higher] rg(4) by (simp add: region_to_spec_def)
    with verify_region_typed [OF rg(2) fits(2)] fits_kinds [OF fits(1) t(2)]
    have "region_typed (kind_look (impl_as_program p)) (map element_type types) (region_to_spec rg) (element_type (iv_ty v))"
      by simp
    with higher_kinds [OF rg(3) higher] rg(1,4) operands higher show ?thesis
      unfolding definition_kind_def operation_kind_def by (auto intro!: exI [of _ "map element_type types"])
  next
    case primitive
    with t(3) obtain inferred where "infer_primitive_with_facts (io_opcode op) types (io_attributes op) facts = Inr inferred"
        "inf_ty inferred = iv_ty v"
      by (auto simp: verified_type_def rmap_Inr_iff split: if_split_asm)
    then have "prim_typing (io_opcode op) (io_attributes op) (scalars (map element_type types)) (element_type (iv_ty v), None)"
      using infer_kinds by (metis infer_primitive_with_facts_def)
    with operands primitive show ?thesis
      unfolding definition_kind_def operation_kind_def by auto
  qed
qed

text \<open>Reading the inputs gives parameters of the declared element types.\<close>

lemma parse_input_kind:
  assumes "parse_input t j dims limits = Inr (w, dims')"
  shows "has_kind w (element_type t)"
  using assms
  by (cases t)
     (auto simp: parse_input_def rmap_Inr_iff rbind_Inr_iff parse_scalar_typed dest: parse_scalars_typed split: if_split_asm)

lemma verified_kinded:
  assumes v: "verified p facts" and wf: "impl_wf p"
    and params: "\<And>i w v. bmap_get params i = Some w \<Longrightarrow> bmap_get (ip_values p) i = Some v \<Longrightarrow> has_kind w (element_type (iv_ty v))"
  shows "kinded (impl_as_program p) params"
  unfolding kinded_def
proof (intro conjI allI impI)
  fix i w e assume "bmap_get params i = Some w" "kind_at (impl_as_program p) i = Some e"
  then show "has_kind w e" using params by (auto simp: kind_at_impl)
next
  fix i def oid op
  assume "bmap_get (vals (impl_as_program p)) i = Some def" "v_origin def = OperationOrigin oid"
    "bmap_get (operations (impl_as_program p)) oid = Some op"
  then obtain w o' where w: "bmap_get (ip_values p) i = Some w" "iv_origin w = ImplOperationOrigin oid"
      "bmap_get (ip_operations p) oid = Some o'" "def = value_to_spec i w" "op = operation_to_spec oid o'"
    by (auto simp: vals_impl operations_impl)
  with v have o: "operation_verified p facts oid o'" "io_results o' = [i]"
    unfolding verified_def by (metis impl_value_origin.inject option.inject)+
  from verified_operation_kind [OF o(1) wf w(3) o(2) w(1)] w(4,5)
  show "definition_kind (impl_as_program p) i op (element_type (v_ty def))" by simp
qed

end
