(* ===== verification/Folding.thy ===== *)
theory Folding
  imports Rewrites Numerics
begin

text \<open>
  Constant folding computes what the interpreter computes. The two implementations are separate
  in the code (\<open>fold_operation\<close> in \<open>candidate.rs\<close>, \<open>eval_primitive\<close> in \<open>agentir-eval\<close>); here each
  fold that is defined is compared with the evaluation of the operation on the same constants,
  down to the canonical text of an \<open>f32\<close>.
\<close>

fun fold_scalar :: "fold_value \<Rightarrow> scalar_value" where
  "fold_scalar (FoldBool b) = VBool b"
| "fold_scalar (FoldI32 i) = VI32 i"
| "fold_scalar (FoldF32 x) = VF32 x"

fun fold_ok :: "fold_value \<Rightarrow> bool" where
  "fold_ok (FoldF32 x) \<longleftrightarrow> fp_ok binary32 x"
| "fold_ok _ \<longleftrightarrow> True"

lemma f32_from_bits_ok: "fp_ok binary32 (f32_from_bits b)"
proof -
  have "b div 8388608 mod 256 < 256" "b mod 8388608 < 8388608" by simp_all
  then show ?thesis by (auto simp: f32_from_bits_def Let_def binary32_def)
qed

lemma fold_operand_runtime:
  assumes "fold_operand c t = Inr v"
  shows "constant_runtime c = Inr (RScalar (fold_scalar v)) \<and> fold_ok v"
proof (cases c)
  case (CF32 bits)
  with assms obtain x where x: "as_f32 c = Some x" "v = FoldF32 x"
    by (auto simp: fold_operand_def rbind_Inr_iff ok_or_Inr_iff split: ty.split_asm scalar_type.split_asm if_split_asm)
  with CF32 f32_from_bits_ok show ?thesis by (auto simp: constant_runtime_def)
qed (use assms in \<open>auto simp: fold_operand_def constant_runtime_def split: ty.split_asm scalar_type.split_asm\<close>)

lemma fold_result_runtime:
  assumes "fold_result v = Inr c" "fold_ok v"
  shows "constant_runtime c = Inr (RScalar (fold_scalar v))"
proof (cases v)
  case (FoldF32 x)
  with assms have "c = CF32 (''0x'' @ show_hex 8 (f32_to_bits x))" "fp_ok binary32 x"
    by (auto simp: fold_result_def split: if_split_asm)
  with f32_constant_text FoldF32 show ?thesis by (simp add: constant_runtime_def del: as_f32.simps)
qed (use assms in \<open>auto simp: fold_result_def constant_runtime_def\<close>)

lemma fold_checked_i32: "fold_checked i m = Inr v \<Longrightarrow> \<exists>w. i32_try_from i = Some w \<and> v = FoldI32 w"
  by (auto simp: fold_checked_def rmap_Inr_iff ok_or_Inr_iff)

lemma slice_simps:
  "slice_index (x # xs) 0 = Inr x" "slice_index (x # xs) (Suc n) = slice_index xs n"
  by (simp_all add: slice_index_def)

lemma fold_arithmetic_two:
  assumes f: "fold_arithmetic op vs = Inr v" and op: "op \<in> {Add, Sub, Mul, Div}"
  shows "\<exists>a b. vs = [a, b]"
proof -
  consider "vs = []" | a where "vs = [a]" | a b where "vs = [a, b]" | a b c rest where "vs = a # b # c # rest"
    by (metis neq_Nil_conv)
  then show ?thesis
  proof cases
    case (2 a)
    with op f show ?thesis by (elim insertE emptyE; cases a; simp add: fold_arithmetic_def)
  next
    case (4 a b c rest)
    with op f show ?thesis by (elim insertE emptyE; cases a; simp add: fold_arithmetic_def split: fold_value.split_asm)
  next
    case 1
    with op f show ?thesis by (elim insertE emptyE; simp add: fold_arithmetic_def)
  qed blast
qed

lemma fold_arithmetic_sound:
  assumes f: "fold_arithmetic op vs = Inr v" and op: "op \<in> {Add, Sub, Mul, Div, Fma}"
    and e: "eval_primitive op (map (\<lambda>v. RScalar (fold_scalar v)) vs) attrs = Inr w"
  shows "w = RScalar (fold_scalar v) \<and> fold_ok v"
proof -
  have two: "(vs = [a, b]) \<Longrightarrow> op \<in> {Add, Sub, Mul, Div} \<Longrightarrow>
      \<exists>r. scalar_binary op (fold_scalar a) (fold_scalar b) = Inr r \<and> w = RScalar r" for a b
    using e by (auto simp: eval_primitive_def slice_index_def elementwise_binary_def rmap_Inr_iff)
  have fma: "(vs = [a, b, c]) \<Longrightarrow> op = Fma \<Longrightarrow>
      \<exists>r. scalar_fma (fold_scalar a) (fold_scalar b) (fold_scalar c) = Inr r \<and> w = RScalar r" for a b c
    using e by (auto simp: eval_primitive_def slice_index_def eval_fma_def rmap_Inr_iff)
  from op consider (binary) "op \<in> {Add, Sub, Mul, Div}" | (ternary) "op = Fma" by blast
  then show ?thesis
  proof cases
    case binary
    then obtain a b where vs: "vs = [a, b]"
      using fold_arithmetic_two [OF f] by blast
    from two [OF vs binary] obtain r where
      r: "scalar_binary op (fold_scalar a) (fold_scalar b) = Inr r" "w = RScalar r" by blast
    from f r(1) have "fold_scalar v = r \<and> fold_ok v"
      unfolding vs using binary
      by (elim insertE emptyE; cases a; cases b;
          auto simp: fold_arithmetic_def scalar_binary_def checked_i32_def ok_or_Inr_iff fp_add_ok fp_sub_ok fp_mul_ok fp_div_ok
            dest!: fold_checked_i32 split: if_split_asm)
    with r(2) show ?thesis by simp
  next
    case ternary
    then obtain a b c where vs: "vs = [a, b, c]"
      using f unfolding ternary
      by (simp add: fold_arithmetic_def split: list.split_asm fold_value.split_asm)
    from fma [OF vs ternary] obtain r where
      r: "scalar_fma (fold_scalar a) (fold_scalar b) (fold_scalar c) = Inr r" "w = RScalar r" by blast
    with f show ?thesis
      unfolding vs ternary
      by (cases a; cases b; cases c;
          auto simp: fold_arithmetic_def scalar_fma_def checked_i32_def ok_or_Inr_iff fp_fma_ok
           dest!: fold_checked_i32 split: option.split_asm)
  qed
qed

lemma ordering_compare_sound:
  "ordering_compare p eq lt le gt ge = Inr b \<Longrightarrow> order_predicate p eq lt le gt ge = Inr b"
  by (auto simp: ordering_compare_def order_predicate_def split: if_split_asm)

lemma fold_compare_sound:
  assumes f: "fold_compare p vs = Inr v" and p: "predicate_attribute attrs = p"
  shows "eval_primitive Compare (map (\<lambda>v. RScalar (fold_scalar v)) vs) attrs = Inr (RScalar (fold_scalar v)) \<and> fold_ok v"
proof -
  from f obtain a b where vs: "vs = [a, b]"
    by (auto simp: fold_compare_def split: list.split_asm fold_value.split_asm)
  with f p show ?thesis
    by (cases a; cases b)
       (auto simp: fold_compare_def eval_primitive_def slice_index_def eval_compare_def compare_scalar_def bool_compare_def
         rmap_Inr_iff dest!: ordering_compare_sound split: if_split_asm)
qed

lemma fold_select_sound:
  assumes "fold_select vs = Inr v" "\<forall>v\<in>set vs. fold_ok v"
  shows "eval_primitive Select (map (\<lambda>v. RScalar (fold_scalar v)) vs) attrs = Inr (RScalar (fold_scalar v)) \<and> fold_ok v"
proof -
  from assms(1) obtain b x y where "vs = [FoldBool b, x, y]" "v = (if b then x else y)"
    by (auto simp: fold_select_def split: list.split_asm fold_value.split_asm)
  with assms(2) show ?thesis by (auto simp: eval_primitive_def slice_index_def eval_select_def)
qed

lemma cast_target_names:
  "Option.bind (bmap_get attrs ''target_type'') as_str = Some ''bool'' \<Longrightarrow> cast_target attrs = Inr Bool"
  "Option.bind (bmap_get attrs ''target_type'') as_str = Some ''i32'' \<Longrightarrow> cast_target attrs = Inr I32"
  "Option.bind (bmap_get attrs ''target_type'') as_str = Some ''index'' \<Longrightarrow> cast_target attrs = Inr Index"
  "Option.bind (bmap_get attrs ''target_type'') as_str = Some ''f32'' \<Longrightarrow> cast_target attrs = Inr F32"
  by (simp_all only: cast_target_def ok_or_simps rbind_simps) (code_simp, code_simp, code_simp, code_simp)

lemma fold_cast_sound:
  assumes f: "fold_cast (Option.bind (bmap_get attrs ''target_type'') as_str) vs = Inr v" and ok: "\<forall>v\<in>set vs. fold_ok v"
    and e: "eval_primitive Cast (map (\<lambda>v. RScalar (fold_scalar v)) vs) attrs = Inr w"
  shows "w = RScalar (fold_scalar v) \<and> fold_ok v"
proof -
  from f obtain a where vs: "vs = [a]" by (auto simp: fold_cast_def split: list.split_asm fold_value.split_asm)
  with e obtain target r where c: "cast_target attrs = Inr target" "cast_scalar (fold_scalar a) target = Inr r" "w = RScalar r"
    by (auto simp: eval_primitive_def rbind_Inr_iff slice_index_def eval_cast_def rmap_Inr_iff)
  from f vs ok c show ?thesis
    by (cases a)
       (auto simp: fold_cast_def cast_scalar_def fp_of_int_ok cast_target_names split: if_split_asm)
qed

lemma fold_values_sound:
  assumes op: "op \<in> {Add, Sub, Mul, Div, Fma, Compare, Cast, Select}" and ok: "\<forall>v\<in>set vs. fold_ok v"
    and f: "fold_values op attrs vs = Inr v"
    and e: "eval_primitive op (map (\<lambda>v. RScalar (fold_scalar v)) vs) attrs = Inr w"
  shows "w = RScalar (fold_scalar v) \<and> fold_ok v"
proof -
  consider "op = Compare" | "op = Select" | "op = Cast" | "op \<in> {Add, Sub, Mul, Div, Fma}" using op by blast
  then show ?thesis
  proof cases
    case 1
    with f have "fold_compare (fold_predicate attrs) vs = Inr v" by (simp add: fold_values_def)
    from fold_compare_sound [OF this, of attrs] e 1 show ?thesis by (simp add: fold_predicate_def predicate_attribute_def)
  next
    case 2
    with f have "fold_select vs = Inr v" by (simp add: fold_values_def)
    from fold_select_sound [OF this ok, of attrs] e 2 show ?thesis by simp
  next
    case 3
    with f have "fold_cast (Option.bind (bmap_get attrs ''target_type'') as_str) vs = Inr v" by (simp add: fold_values_def)
    from fold_cast_sound [OF this ok] e 3 show ?thesis by simp
  next
    case 4
    with f have "fold_arithmetic op vs = Inr v" by (auto simp: fold_values_def)
    from fold_arithmetic_sound [OF this 4 e] show ?thesis .
  qed
qed

end
