(* ===== verification/Rewrite_Proofs.thy ===== *)
theory Rewrite_Proofs
  imports Impl_Proofs Folding Evaluation "HOL-Library.Sublist"
begin

text \<open>
  Soundness of the trusted rewrites: whatever a verified implementation graph evaluates to, the
  rewritten graph evaluates to as well. Pruning keeps every operation an output depends on, a
  removed cast was the identity on the values it was given, and a fold computed the value.
\<close>

subsection \<open>Evaluation of two graphs\<close>

text \<open>Only the values of the parameters and the constraints decide how inputs are bound.\<close>

definition same_interface :: "impl_program \<Rightarrow> impl_program \<Rightarrow> bool" where
  "same_interface p q \<longleftrightarrow>
     ip_parameters q = ip_parameters p \<and> ip_constraints q = ip_constraints p \<and>
     (\<exists>K. ip_values q = filter K (ip_values p)) \<and>
     (\<forall>i\<in>snd ` set (ip_parameters p). bmap_get (ip_values q) i = bmap_get (ip_values p) i)"

lemma preflight_value_mono:
  assumes "preflight_value limits dims m d = Inr u" "m' \<le> m" "m' \<le> u64_max"
  shows "m' \<le> u" "\<exists>u'. preflight_value limits dims m' d = Inr u' \<and> u' \<le> u \<and> u' \<le> u64_max"
proof -
  from assms(1) consider "u = m" "\<exists>s. v_ty d = Scalar s"
    | e sh n where "v_ty d = Tensor e sh" "element_count dims sh = Inr n" "n \<le> limit limits EvaluationTensorElements"
        "u = min (m + n) u64_max"
    by (auto simp: preflight_value_def rbind_Inr_iff u64_saturating_add_def against_def split: ty.split_asm)
  then have "m' \<le> u \<and> (\<exists>u'. preflight_value limits dims m' d = Inr u' \<and> u' \<le> u \<and> u' \<le> u64_max)"
  proof cases
    case (2 e sh n)
    with assms(2,3) show ?thesis by (auto simp: preflight_value_def u64_saturating_add_def against_def ensure_def)
  qed (use assms(2,3) in \<open>auto simp: preflight_value_def\<close>)
  then show "m' \<le> u" "\<exists>u'. preflight_value limits dims m' d = Inr u' \<and> u' \<le> u \<and> u' \<le> u64_max" by blast+
qed

lemma preflight_fewer:
  assumes "subseq ys xs"
  shows "rfold (preflight_value limits dims) m xs = Inr t \<Longrightarrow> m' \<le> m \<Longrightarrow> m' \<le> u64_max \<Longrightarrow>
   \<exists>t'. rfold (preflight_value limits dims) m' ys = Inr t' \<and> t' \<le> t"
  using assms
proof (induction arbitrary: m m' rule: list_emb.induct)
  case (list_emb_Nil xs)
  then show ?case
  proof (induction xs arbitrary: m)
    case (Cons d xs)
    then obtain u where "preflight_value limits dims m d = Inr u" "rfold (preflight_value limits dims) u xs = Inr t"
      by (auto simp: rbind_Inr_iff)
    with Cons preflight_value_mono(1) show ?case by blast
  qed simp
next
  case (list_emb_Cons ys xs d)
  then obtain u where u: "preflight_value limits dims m d = Inr u" "rfold (preflight_value limits dims) u xs = Inr t"
    by (auto simp: rbind_Inr_iff)
  from list_emb_Cons.IH [OF u(2) preflight_value_mono(1) [OF u(1) list_emb_Cons.prems(2,3)]] list_emb_Cons.prems(3)
  show ?case by blast
next
  case (list_emb_Cons2 d e ys xs)
  then obtain u where u: "preflight_value limits dims m e = Inr u" "rfold (preflight_value limits dims) u xs = Inr t"
    by (auto simp: rbind_Inr_iff)
  from preflight_value_mono(2) [OF u(1) list_emb_Cons2.prems(2,3)] obtain u' where
    u': "preflight_value limits dims m' e = Inr u'" "u' \<le> u" "u' \<le> u64_max" by blast
  from list_emb_Cons2.IH [OF u(2) u'(2,3)] u'(1) list_emb_Cons2.hyps(1) show ?case by auto
qed

lemma fewer_values:
  "ip_values q = filter K (ip_values p) \<Longrightarrow>
   subseq (bmap_values (vals (impl_as_program q))) (bmap_values (vals (impl_as_program p)))"
  by (auto simp: impl_as_program_def Let_def bmap_values_def bmap_map_def intro!: subseq_map)

lemma prepare_same:
  assumes same: "same_interface p q" and r: "prepare_evaluator (impl_as_program p) inputs limits = Inr (params, dims)"
  shows "prepare_evaluator (impl_as_program q) inputs limits = Inr (params, dims)"
proof -
  let ?P = "impl_as_program p" and ?Q = "impl_as_program q"
  have bind: "bind_parameter ?Q inputs limits st x = bind_parameter ?P inputs limits st x"
    if "x \<in> set (ip_parameters p)" for st x
    using same that by (simp add: bind_parameter_def vals_impl same_interface_def)
  have bound: "rfold (bind_parameter ?Q inputs limits) ([], []) (ip_parameters p) =
      rfold (bind_parameter ?P inputs limits) ([], []) (ip_parameters p)"
    by (rule rfold_cong [OF refl refl bind])
  from r obtain t where t: "bmap_keys (ip_parameters p) = bmap_keys inputs"
      "rfold (bind_parameter ?P inputs limits) ([], []) (ip_parameters p) = Inr (params, dims)"
      "preflight_evaluation ?P dims limits = Inr t"
    by (auto simp: prepare_evaluator_def rbind_Inr_iff bmap_values_def split: if_split_asm)
  from t(3) obtain n where n: "rfold (preflight_value limits dims) 0 (bmap_values (vals ?P)) = Inr n"
      "n \<le> limit limits TotalEvaluationElements" "\<exists>us. traverse (preflight_constraint dims) (ip_constraints p) = Inr us"
    by (auto simp: preflight_evaluation_def rbind_Inr_iff against_def)
  from same obtain K where K: "ip_values q = filter K (ip_values p)" by (auto simp: same_interface_def)
  from preflight_fewer [OF fewer_values [OF K] n(1), of 0] obtain n' where
    "rfold (preflight_value limits dims) 0 (bmap_values (vals ?Q)) = Inr n'" "n' \<le> n" by auto
  with n same have "preflight_evaluation ?Q dims limits = Inr ()"
    by (auto simp: preflight_evaluation_def against_def same_interface_def)
  with t bound same show ?thesis by (simp add: prepare_evaluator_def bmap_values_def same_interface_def)
qed

text \<open>The parameters that are bound, and their kinds.\<close>

lemma bound_parameters:
  assumes "rfold (bind_parameter prog inputs limits) (params, dims) ps = Inr (params', dims')" "bmap_get params' i = Some w"
  shows "bmap_get params i = Some w \<or>
    (i \<in> snd ` set ps \<and> (\<exists>def. bmap_get (vals prog) i = Some def \<and> has_kind w (element_type (v_ty def))))"
  using assms(1)
proof (induction ps arbitrary: params dims)
  case (Cons x ps)
  from Cons.prems obtain st where st: "bind_parameter prog inputs limits (params, dims) x = Inr st"
      "rfold (bind_parameter prog inputs limits) st ps = Inr (params', dims')"
    by (auto simp: rbind_Inr_iff)
  from st(1) obtain def j u dims1 where b: "bmap_get (vals prog) (snd x) = Some def"
      "parse_input (v_ty def) j dims limits = Inr (u, dims1)" "st = (bmap_insert (snd x) u params, dims1)"
    by (auto simp: rbind_Inr_iff bind_parameter_def ok_or_Inr_iff)
  from Cons.IH [OF st(2) [unfolded b(3)]] parse_input_kind [OF b(2)] b(1) show ?case
    by (auto split: if_split_asm)
qed (use assms(2) in simp)

lemma prepared_parameters:
  assumes "prepare_evaluator (impl_as_program p) inputs limits = Inr (params, dims)" "bmap_get params i = Some w"
  shows "i \<in> snd ` set (ip_parameters p)"
    and "\<And>v. bmap_get (ip_values p) i = Some v \<Longrightarrow> has_kind w (element_type (iv_ty v))"
proof -
  from assms(1) have "rfold (bind_parameter (impl_as_program p) inputs limits) ([], []) (ip_parameters p) = Inr (params, dims)"
    by (auto simp: prepare_evaluator_def rbind_Inr_iff split: if_split_asm)
  from bound_parameters [OF this assms(2)] show "i \<in> snd ` set (ip_parameters p)"
    "\<And>v. bmap_get (ip_values p) i = Some v \<Longrightarrow> has_kind w (element_type (iv_ty v))"
    by (auto simp: vals_impl)
qed

lemma prepared_kinded:
  "verified p facts \<Longrightarrow> impl_wf p \<Longrightarrow> prepare_evaluator (impl_as_program p) inputs limits = Inr (params, dims) \<Longrightarrow>
   kinded (impl_as_program p) params"
  by (rule verified_kinded) (auto dest: prepared_parameters(2))

text \<open>Only values of parameter operations are bound.\<close>

lemma unbound:
  assumes "verified p facts" "prepare_evaluator (impl_as_program p) inputs limits = Inr (params, dims)"
    and "bmap_get (ip_values p) i = Some v" "iv_origin v = ImplOperationOrigin oid"
      "bmap_get (ip_operations p) oid = Some op" "io_opcode op \<noteq> Parameter"
  shows "bmap_get params i = None"
proof (rule ccontr)
  assume "bmap_get params i \<noteq> None"
  then obtain w where "bmap_get params i = Some w" by blast
  from prepared_parameters(1) [OF assms(2) this] obtain name where "(name, i) \<in> set (ip_parameters p)" by force
  with assms(1,3-) show False unfolding verified_def by force
qed

definition preserves :: "impl_program \<Rightarrow> impl_program \<Rightarrow> bool" where
  "preserves p q \<longleftrightarrow>
     (\<forall>inputs limits r. evaluate_with_limits (impl_as_program p) inputs limits = Inr r \<longrightarrow>
        evaluate_with_limits (impl_as_program q) inputs limits = Inr r)"

lemma preserves_trans: "preserves p q \<Longrightarrow> preserves q r \<Longrightarrow> preserves p r"
  by (simp add: preserves_def)

definition same_outputs :: "(string \<Rightarrow> string) \<Rightarrow> impl_program \<Rightarrow> impl_program \<Rightarrow> bool" where
  "same_outputs h p q \<longleftrightarrow>
     list_all2 (\<lambda>x y. fst y = fst x \<and> iout_value (snd y) = h (iout_value (snd x))) (ip_outputs p) (ip_outputs q)"

lemma preservesI:
  assumes same: "same_interface p q" and outs: "same_outputs h p q"
    and denotes: "\<And>params dims inputs limits i v out name.
      prepare_evaluator (impl_as_program p) inputs limits = Inr (params, dims) \<Longrightarrow>
      (name, out) \<in> set (ip_outputs p) \<Longrightarrow> denotes (impl_as_program p) params (iout_value out) v \<Longrightarrow>
      denotes (impl_as_program q) params (h (iout_value out)) v"
  shows "preserves p q"
  unfolding preserves_def
proof (intro allI impI)
  fix inputs limits r
  assume "evaluate_with_limits (impl_as_program p) inputs limits = Inr r"
  then obtain params qs where e: "prepare_evaluator (impl_as_program p) inputs limits = Inr (params, result_dimensions r)"
      "list_all2 (output_denotes (impl_as_program p) params) (outputs (impl_as_program p)) qs"
      "r = \<lparr>result_outputs = bmap_of_list qs, result_dimensions = result_dimensions r\<rparr>"
    by (auto simp: evaluate_with_limits_iff)
  have len: "length qs = length (ip_outputs p)"
    using list_all2_lengthD [OF e(2)] by (simp add: bmap_map_def)
  have "list_all2 (output_denotes (impl_as_program q) params) (outputs (impl_as_program q)) qs"
    unfolding list_all2_conv_all_nth
  proof (intro conjI allI impI)
    show "length (outputs (impl_as_program q)) = length qs"
      using len list_all2_lengthD [OF outs [unfolded same_outputs_def]] by (simp add: bmap_map_def)
    fix k assume "k < length (outputs (impl_as_program q))"
    then have k: "k < length (ip_outputs p)"
      using list_all2_lengthD [OF outs [unfolded same_outputs_def]] by (simp add: bmap_map_def)
    obtain name out name' out' where o: "ip_outputs p ! k = (name, out)" "ip_outputs q ! k = (name', out')" by fastforce
    with list_all2_nthD [OF outs [unfolded same_outputs_def] k] have o': "name' = name" "iout_value out' = h (iout_value out)"
      by simp_all
    have "k < length (outputs (impl_as_program p))" using k by (simp add: bmap_map_def)
    from list_all2_nthD [OF e(2) this] o(1) k have d: "output_denotes (impl_as_program p) params (name, iout_value out) (qs ! k)"
      by (simp add: bmap_map_def)
    from k o(1) have "(name, out) \<in> set (ip_outputs p)" by (metis nth_mem)
    with denotes [OF e(1)] d o(2) o' k list_all2_lengthD [OF outs [unfolded same_outputs_def]]
    show "output_denotes (impl_as_program q) params (outputs (impl_as_program q) ! k) (qs ! k)"
      by (auto simp: output_denotes_def bmap_map_def)
  qed
  with prepare_same [OF same e(1)] e(3) show "evaluate_with_limits (impl_as_program q) inputs limits = Inr r"
    by (auto simp: evaluate_with_limits_iff)
qed

subsection \<open>One value at a time\<close>

lemma impl_acts_as:
  assumes "io_opcode op' = io_opcode op" "io_operands op' = map h (io_operands op)" "io_attributes op' = io_attributes op"
    and "map_option region_to_spec (io_region op') = map_option (region_map h) (map_option region_to_spec (io_region op))"
  shows "acts_as (operation_map h (operation_to_spec oid op)) (operation_to_spec oid' op')"
  using assms by (simp add: acts_as_def operation_map_def)

lemma impl_alike:
  assumes "\<And>v oid op. bmap_get (ip_values p) i = Some v \<Longrightarrow> iv_origin v = ImplOperationOrigin oid \<Longrightarrow>
      bmap_get (ip_operations p) oid = Some op \<Longrightarrow>
      \<exists>v' oid' op'. bmap_get (ip_values q) k = Some v' \<and> iv_origin v' = ImplOperationOrigin oid' \<and>
        bmap_get (ip_operations q) oid' = Some op' \<and>
        acts_as (operation_map h (operation_to_spec oid op)) (operation_to_spec oid' op') \<and>
        (io_opcode op = Constant \<longrightarrow> bmap_get (ip_constants q) k = bmap_get (ip_constants p) i)"
  shows "alike (impl_as_program p) i (impl_as_program q) k h"
  unfolding alike_def
proof (intro allI impI)
  fix def oid op
  assume "bmap_get (vals (impl_as_program p)) i = Some def" "v_origin def = OperationOrigin oid"
    "bmap_get (operations (impl_as_program p)) oid = Some op"
  then obtain v o' where "bmap_get (ip_values p) i = Some v" "iv_origin v = ImplOperationOrigin oid"
      "bmap_get (ip_operations p) oid = Some o'" "op = operation_to_spec oid o'"
    by (auto simp: vals_impl operations_impl)
  from assms [OF this(1-3)] this(4) show "\<exists>def' oid' op'. bmap_get (vals (impl_as_program q)) k = Some def' \<and>
      v_origin def' = OperationOrigin oid' \<and> bmap_get (operations (impl_as_program q)) oid' = Some op' \<and>
      acts_as (operation_map h op) op' \<and>
      (op_opcode op = Constant \<longrightarrow> bmap_get (constants (impl_as_program q)) k = bmap_get (constants (impl_as_program p)) i)"
    by (auto simp: vals_impl operations_impl)
qed

text \<open>The values an operation of the graph reads.\<close>

definition impl_deps :: "impl_operation \<Rightarrow> string list" where
  "impl_deps op = io_operands op @ impl_captures op"

lemma value_deps_impl:
  assumes "j \<in> value_deps (impl_as_program p) i"
  shows "\<exists>v oid op. bmap_get (ip_values p) i = Some v \<and> iv_origin v = ImplOperationOrigin oid \<and>
    bmap_get (ip_operations p) oid = Some op \<and> j \<in> set (impl_deps op)"
  using assms
  by (auto simp: value_deps_def vals_impl operations_impl op_deps_def region_deps_def impl_deps_def impl_captures_def
      region_to_spec_def split: option.split_asm)

subsection \<open>Pruning\<close>

definition origin_in :: "impl_program \<Rightarrow> string bset \<Rightarrow> string \<Rightarrow> bool" where
  "origin_in p s i \<longleftrightarrow> (\<exists>v oid. bmap_get (ip_values p) i = Some v \<and> iv_origin v = ImplOperationOrigin oid \<and> oid \<in> set s)"

definition deps_closed :: "impl_program \<Rightarrow> string bset \<Rightarrow> bool" where
  "deps_closed p s \<longleftrightarrow>
     (\<forall>oid\<in>set s. \<exists>op. bmap_get (ip_operations p) oid = Some op \<and> (\<forall>j\<in>set (impl_deps op). origin_in p s j))"

lemma origin_in_mono: "origin_in p s i \<Longrightarrow> set s \<subseteq> set t \<Longrightarrow> origin_in p t i"
  by (auto simp: origin_in_def)

lemma visits_closed:
  assumes step: "\<And>i st st'. i \<in> set is \<Longrightarrow> f st i = Inr st' \<Longrightarrow> deps_closed p (snd st) \<Longrightarrow>
      deps_closed p (snd st') \<and> set (snd st) \<subseteq> set (snd st') \<and> origin_in p (snd st') i"
  shows "rfold f st is = Inr st' \<Longrightarrow> deps_closed p (snd st) \<Longrightarrow>
    deps_closed p (snd st') \<and> set (snd st) \<subseteq> set (snd st') \<and> (\<forall>i\<in>set is. origin_in p (snd st') i)"
  using step
proof (induction "is" arbitrary: st)
  case (Cons i "is")
  from Cons.prems(1) obtain s1 where s1: "f st i = Inr s1" "rfold f s1 is = Inr st'" by (auto simp: rbind_Inr_iff)
  from Cons.prems(3) [OF _ s1(1) Cons.prems(2)] have one: "deps_closed p (snd s1)" "set (snd st) \<subseteq> set (snd s1)"
      "origin_in p (snd s1) i" by simp_all
  have "\<And>i st st'. i \<in> set is \<Longrightarrow> f st i = Inr st' \<Longrightarrow> deps_closed p (snd st) \<Longrightarrow>
      deps_closed p (snd st') \<and> set (snd st) \<subseteq> set (snd st') \<and> origin_in p (snd st') i"
    by (rule Cons.prems(3)) simp_all
  from Cons.IH [OF s1(2) one(1) this] one show ?case by (auto intro: origin_in_mono)
qed simp

lemma visit_closed:
  "visit_reachable p n i st = Inr st' \<Longrightarrow> deps_closed p (snd st) \<Longrightarrow>
   deps_closed p (snd st') \<and> set (snd st) \<subseteq> set (snd st') \<and> origin_in p (snd st') i"
proof (induction n arbitrary: i st st')
  case (Suc n)
  from Suc.prems(1) obtain def where "bmap_get (ip_values p) i = Some def"
    by (auto simp: rbind_Inr_iff ok_or_Inr_iff)
  moreover obtain oid where "iv_origin def = ImplOperationOrigin oid" by (cases "iv_origin def")
  ultimately have d: "bmap_get (ip_values p) i = Some def" "iv_origin def = ImplOperationOrigin oid" .
  show ?case
  proof (cases "oid \<in> set (snd st)")
    case True
    with Suc.prems d show ?thesis by (auto simp: bset_contains_def origin_in_def)
  next
    case False
    with Suc.prems(1) d obtain op st2 where v: "bmap_get (ip_operations p) oid = Some op"
        "rfold (\<lambda>st operand. visit_reachable p n operand st) (bset_insert oid (fst st), snd st) (impl_deps op) = Inr st2"
        "st' = (bset_remove oid (fst st2), bset_insert oid (snd st2))"
      by (auto simp: rbind_Inr_iff ok_or_Inr_iff bset_contains_def impl_deps_def split: if_split_asm)
    have start: "deps_closed p (snd (bset_insert oid (fst st), snd st))" using Suc.prems(2) by simp
    have "deps_closed p (snd st2) \<and> set (snd (bset_insert oid (fst st), snd st)) \<subseteq> set (snd st2) \<and>
        (\<forall>i\<in>set (impl_deps op). origin_in p (snd st2) i)"
      by (rule visits_closed [where f = "\<lambda>st operand. visit_reachable p n operand st", OF Suc.IH v(2) start])
    with v(1,3) d show ?thesis
      by (auto simp: deps_closed_def origin_in_def) blast+
  qed
qed simp

lemma reachable_closed:
  assumes "reachable_operations p = Inr s"
  shows "deps_closed p s" "\<And>name i. (name, i) \<in> set (ip_parameters p) \<Longrightarrow> origin_in p s i"
    "\<And>name out. (name, out) \<in> set (ip_outputs p) \<Longrightarrow> origin_in p s (iout_value out)"
proof -
  let ?is = "bmap_values (ip_parameters p) @ map iout_value (bmap_values (ip_outputs p))"
  from assms obtain st where st: "rfold (\<lambda>st i. visit_reachable p (reachable_fuel p) i st) ([], []) ?is = Inr st" "s = snd st"
    by (auto simp: reachable_operations_def rmap_Inr_iff)
  have start: "deps_closed p (snd ([] :: string bset, []))" by (simp add: deps_closed_def)
  have c: "deps_closed p (snd st) \<and> set (snd ([] :: string bset, [])) \<subseteq> set (snd st) \<and> (\<forall>i\<in>set ?is. origin_in p (snd st) i)"
    by (rule visits_closed [where f = "\<lambda>st i. visit_reachable p (reachable_fuel p) i st", OF visit_closed st(1) start])
  with st(2) show "deps_closed p s" by blast
  show "origin_in p s i" if "(name, i) \<in> set (ip_parameters p)" for name i
    using c st(2) that by (force simp: bmap_values_def)
  show "origin_in p s (iout_value out)" if "(name, out) \<in> set (ip_outputs p)" for name out
    using c st(2) that by (force simp: bmap_values_def)
qed

text \<open>The fuel of the walk suffices: the operations on the path are distinct operations of the graph.\<close>

definition unvisited_operations :: "impl_program \<Rightarrow> string set \<Rightarrow> nat" where
  "unvisited_operations p path = card (set (bmap_keys (ip_operations p)) - path)"

definition walk_ends :: "string set \<Rightarrow> (string bset \<times> string bset) res \<Rightarrow> bool" where
  "walk_ends path r \<longleftrightarrow> r \<noteq> Inl Diverge \<and> (\<forall>st. r = Inr st \<longrightarrow> set (fst st) = path)"

lemma walks_end:
  assumes "\<And>i st. set (fst st) = path \<Longrightarrow> walk_ends path (f st i)"
  shows "set (fst st) = path \<Longrightarrow> walk_ends path (rfold f st is)"
proof (induction "is" arbitrary: st)
  case (Cons i "is")
  from assms [OF Cons.prems, of i] Cons.IH show ?case
    by (cases "f st i") (auto simp: walk_ends_def)
qed (simp add: walk_ends_def)

lemma visit_ends:
  "unvisited_operations p (set (fst st)) < n \<Longrightarrow> walk_ends (set (fst st)) (visit_reachable p n i st)"
proof (induction n arbitrary: i st)
  case (Suc n)
  show ?case
  proof (cases "bmap_get (ip_values p) i")
    case (Some def)
    obtain oid where oid: "iv_origin def = ImplOperationOrigin oid" by (cases "iv_origin def")
    show ?thesis
    proof (cases "oid \<in> set (snd st) \<or> oid \<in> set (fst st) \<or> bmap_get (ip_operations p) oid = None")
      case True
      with Some oid show ?thesis by (auto simp: walk_ends_def bset_contains_def)
    next
      case False
      then obtain op where op: "bmap_get (ip_operations p) oid = Some op" "oid \<notin> set (snd st)" "oid \<notin> set (fst st)" by auto
      then have "oid \<in> set (bmap_keys (ip_operations p)) - set (fst st)" by (simp add: bmap_keys_set bmap_contains_def)
      then have less: "unvisited_operations p (insert oid (set (fst st))) < n"
        using Suc.prems card_Diff1_less [of "set (bmap_keys (ip_operations p)) - set (fst st)" oid]
        by (simp add: unvisited_operations_def Diff_insert [symmetric])
      have "walk_ends (insert oid (set (fst st)))
          (rfold (\<lambda>st operand. visit_reachable p n operand st) (bset_insert oid (fst st), snd st) (impl_deps op))"
      proof (rule walks_end)
        fix i and st' :: "string bset \<times> string bset" assume "set (fst st') = insert oid (set (fst st))"
        with Suc.IH [of st' i] less show "walk_ends (insert oid (set (fst st))) (visit_reachable p n i st')" by simp
      qed simp
      with Some oid op show ?thesis
        by (cases "rfold (\<lambda>st operand. visit_reachable p n operand st) (bset_insert oid (fst st), snd st) (impl_deps op)")
           (auto simp: walk_ends_def bset_contains_def impl_deps_def)
    qed
  qed (simp add: walk_ends_def)
qed simp

lemma reachable_operations_end: "reachable_operations p \<noteq> Inl Diverge"
proof -
  have less: "unvisited_operations p {} < reachable_fuel p"
    using card_length [of "bmap_keys (ip_operations p)"]
    by (simp add: unvisited_operations_def reachable_fuel_def length_keys)
  have "walk_ends {} (rfold (\<lambda>st i. visit_reachable p (reachable_fuel p) i st) ([], [])
      (bmap_values (ip_parameters p) @ map iout_value (bmap_values (ip_outputs p))))"
  proof (rule walks_end)
    fix i and st :: "string bset \<times> string bset" assume "set (fst st) = {}"
    with visit_ends [of p st "reachable_fuel p" i] less
    show "walk_ends {} (visit_reachable p (reachable_fuel p) i st)" by simp
  qed simp
  then show ?thesis by (auto simp: reachable_operations_def walk_ends_def rmap_Inl_iff)
qed

text \<open>What pruning keeps.\<close>

lemma get_filter: "bmap_get (filter (\<lambda>(k, v). P k) m) k = (if P k then bmap_get m k else None)"
  by (induction m) (auto simp: bmap_get_def)

definition pruned :: "impl_program \<Rightarrow> string bset \<Rightarrow> impl_program \<Rightarrow> bool" where
  "pruned p s q \<longleftrightarrow>
     (\<forall>i. bmap_get (ip_values q) i = (if origin_in p s i then bmap_get (ip_values p) i else None)) \<and>
     (\<forall>i. origin_in p s i \<longrightarrow> bmap_get (ip_constants q) i = bmap_get (ip_constants p) i) \<and>
     (\<forall>oid. bmap_get (ip_operations q) oid = (if oid \<in> set s then bmap_get (ip_operations p) oid else None)) \<and>
     (\<exists>K. ip_values q = filter K (ip_values p)) \<and> (\<exists>K. ip_constants q = filter K (ip_constants p)) \<and>
     (\<exists>K. ip_operations q = filter K (ip_operations p)) \<and>
     ip_parameters q = ip_parameters p \<and> ip_constraints q = ip_constraints p \<and> ip_outputs q = ip_outputs p"

lemma prune_unreachable_pruned:
  assumes r: "prune_unreachable p target = Inr q" and v: "verified p facts" and ok: "bmap_ok (ip_values p)"
  shows "\<exists>s. reachable_operations p = Inr s \<and> pruned p s q"
proof -
  from r obtain s where s: "reachable_operations p = Inr s" by (auto simp: prune_unreachable_def rbind_Inr_iff)
  define removed where "removed = filter (\<lambda>oid. \<not> bset_contains s oid) (bmap_keys (ip_operations p))"
  define gone where "gone = map fst (filter (\<lambda>(_, v). case iv_origin v of ImplOperationOrigin oid \<Rightarrow> bset_contains removed oid) (ip_values p))"
  from r s have q: "q = p\<lparr>ip_operations := retain (\<lambda>oid. \<not> bset_contains removed oid) (ip_operations p),
                ip_order := filter (\<lambda>oid. \<not> bset_contains removed oid) (ip_order p),
                ip_values := retain (\<lambda>i. \<not> bset_contains gone i) (ip_values p),
                ip_constants := retain (\<lambda>i. \<not> bset_contains gone i) (ip_constants p)\<rparr>"
    unfolding gone_def removed_def by (auto simp: prune_unreachable_def rbind_Inr_iff Let_def split: if_split_asm)
  have removed: "oid \<in> set removed \<longleftrightarrow> bmap_contains (ip_operations p) oid \<and> oid \<notin> set s" for oid
    by (auto simp: removed_def bset_contains_def bmap_keys_set)
  have gone: "i \<in> set gone \<longleftrightarrow> (\<exists>v oid. bmap_get (ip_values p) i = Some v \<and> iv_origin v = ImplOperationOrigin oid \<and> oid \<in> set removed)" for i
  proof
    assume "i \<in> set gone"
    then obtain v where "(i, v) \<in> set (ip_values p)" "case iv_origin v of ImplOperationOrigin oid \<Rightarrow> bset_contains removed oid"
      by (auto simp: gone_def)
    then show "\<exists>v oid. bmap_get (ip_values p) i = Some v \<and> iv_origin v = ImplOperationOrigin oid \<and> oid \<in> set removed"
      using bmap_mem_get [OF ok] by (cases "iv_origin v") (auto simp: bset_contains_def)
  next
    assume "\<exists>v oid. bmap_get (ip_values p) i = Some v \<and> iv_origin v = ImplOperationOrigin oid \<and> oid \<in> set removed"
    then obtain v oid where "(i, v) \<in> set (ip_values p)" "iv_origin v = ImplOperationOrigin oid" "oid \<in> set removed"
      using bmap_get_mem by fast
    then show "i \<in> set gone" by (force simp: gone_def bset_contains_def)
  qed
  have kept: "i \<notin> set gone \<longleftrightarrow> origin_in p s i" if "bmap_get (ip_values p) i = Some v" for i v
    using v that unfolding gone removed origin_in_def verified_def
    by (metis bmap_containsI impl_value_origin.inject option.inject)
  have "pruned p s q"
    unfolding pruned_def
  proof (intro conjI allI impI)
    fix i
    have get: "bmap_get (ip_values q) i = (if i \<in> set gone then None else bmap_get (ip_values p) i)"
      unfolding q by (simp add: retain_def get_filter [where P = "\<lambda>i. i \<notin> set gone"] bset_contains_def)
    show "bmap_get (ip_values q) i = (if origin_in p s i then bmap_get (ip_values p) i else None)"
    proof (cases "bmap_get (ip_values p) i")
      case (Some v)
      with get kept [OF Some] show ?thesis by auto
    qed (use get in simp)
    assume o: "origin_in p s i"
    then obtain v where "bmap_get (ip_values p) i = Some v" by (auto simp: origin_in_def)
    with kept o have "i \<notin> set gone" by blast
    then show "bmap_get (ip_constants q) i = bmap_get (ip_constants p) i"
      unfolding q by (simp add: retain_def get_filter [where P = "\<lambda>i. i \<notin> set gone"] bset_contains_def)
  next
    fix oid
    have "bmap_get (ip_operations q) oid = (if oid \<in> set removed then None else bmap_get (ip_operations p) oid)"
      unfolding q by (simp add: retain_def get_filter [where P = "\<lambda>i. i \<notin> set removed"] bset_contains_def)
    then show "bmap_get (ip_operations q) oid = (if oid \<in> set s then bmap_get (ip_operations p) oid else None)"
      unfolding removed by (auto simp: bmap_contains_def)
  qed (unfold q retain_def, auto)
  with s show ?thesis by blast
qed

lemma prune_preserves:
  assumes r: "prune_unreachable p target = Inr q" and v: "verified p facts" and wf: "impl_wf p"
  shows "preserves p q"
proof -
  from wf have ok: "bmap_ok (ip_values p)" by (simp add: impl_wf_def)
  from prune_unreachable_pruned [OF r v ok] obtain s where s: "reachable_operations p = Inr s" "pruned p s q" by blast
  note closed = reachable_closed [OF s(1)]
  have param: "origin_in p s i" if "i \<in> snd ` set (ip_parameters p)" for i using closed(2) that by force
  show ?thesis
  proof (rule preservesI [where h = "\<lambda>i. i"])
    show "same_interface p q" using s(2) param by (auto simp: same_interface_def pruned_def)
    show "same_outputs (\<lambda>i. i) p q" using s(2) by (simp add: same_outputs_def pruned_def list_all2_same)
  next
    fix params dims inputs limits v out name
    assume prep: "prepare_evaluator (impl_as_program p) inputs limits = Inr (params, dims)"
      and out: "(name, out) \<in> set (ip_outputs p)" "denotes (impl_as_program p) params (iout_value out) v"
    show "denotes (impl_as_program q) params (iout_value out) v"
    proof (rule denotes_transfer [where D = "origin_in p s" and h = "\<lambda>i. i", OF _ out(2) closed(3) [OF out(1)]])
      fix f i v
      assume i: "origin_in p s i" "one_step (impl_as_program p) params f i v"
        and f: "\<And>j w. f j () = Inr (w, ()) \<Longrightarrow> origin_in p s (resolve_filled_value (impl_as_program p) j) \<Longrightarrow>
          denotes (impl_as_program q) params (resolve_filled_value (impl_as_program p) j) w"
      from i(1) have "alike (impl_as_program p) i (impl_as_program q) i (\<lambda>i. i)"
        by (intro impl_alike) (use s(2) in \<open>auto simp: pruned_def origin_in_def\<close>)
      then show "denotes (impl_as_program q) params i v"
      proof (rule alike_transfer [OF i(2)])
        fix j w assume "j \<in> value_deps (impl_as_program p) i" "f j () = Inr (w, ())"
        moreover from value_deps_impl [OF this(1)] i(1) closed(1) have "origin_in p s j"
          by (fastforce simp: origin_in_def deps_closed_def)
        ultimately show "denotes (impl_as_program q) params (resolve_filled_value (impl_as_program q) j) w"
          using f by simp
      qed simp
    qed
  qed
qed

subsection \<open>Constant folding\<close>

text \<open>The value, the operation and the parameters behind an identifier of a verified graph.\<close>

lemma one_step_impl:
  assumes "one_step (impl_as_program p) params f i v" "bmap_get params i = None"
  shows "\<exists>def oid op. bmap_get (ip_values p) i = Some def \<and> iv_origin def = ImplOperationOrigin oid \<and>
    bmap_get (ip_operations p) oid = Some op \<and>
    op_value (impl_as_program p) params f i (operation_to_spec oid op) () = Inr (v, ())"
  using assms by (auto simp: one_step_def define_value_Inr vals_impl operations_impl)

lemma constant_operation:
  assumes "impl_wf p" "bmap_get (ip_constants p) i = Some c" "bmap_get (ip_values p) i = Some v"
    "iv_origin v = ImplOperationOrigin oid" "bmap_get (ip_operations p) oid = Some op"
  shows "io_opcode op = Constant"
  using assms bmap_get_mem [OF assms(2)] unfolding impl_wf_def by fastforce

lemma constant_denotes:
  assumes v: "verified p facts" and wf: "impl_wf p"
    and prep: "prepare_evaluator (impl_as_program p) inputs limits = Inr (params, dims)"
    and c: "bmap_get (ip_constants p) i = Some c" "bmap_get (ip_values p) i = Some d"
    and w: "denotes (impl_as_program p) params i w"
  shows "constant_runtime c = Inr w"
proof -
  from v c(2) obtain oid op where o: "iv_origin d = ImplOperationOrigin oid" "bmap_get (ip_operations p) oid = Some op"
    unfolding verified_def by blast
  note code = constant_operation [OF wf c o]
  then have "io_opcode op \<noteq> Parameter" by simp
  note none = unbound [OF v prep c(2) o this]
  from denotes_one_step [OF w] obtain f where "one_step (impl_as_program p) params f i w" by blast
  from one_step_impl [OF this none] c(2) o have "op_value (impl_as_program p) params f i (operation_to_spec oid op) () = Inr (w, ())"
    by auto
  with code c(1) show ?thesis by (simp add: op_value_def rmap_Inr_iff)
qed

lemma fold_operands_runtime:
  assumes "\<And>i c d w. bmap_get (ip_constants p) i = Some c \<Longrightarrow> bmap_get (ip_values p) i = Some d \<Longrightarrow>
      f i () = Inr (w, ()) \<Longrightarrow> constant_runtime c = Inr w"
  shows "traverse (fold_operand_of p) is = Inr vs \<Longrightarrow> traverse_st f is () = Inr (ws, ()) \<Longrightarrow>
    ws = map (\<lambda>v. RScalar (fold_scalar v)) vs \<and> (\<forall>v\<in>set vs. fold_ok v)"
proof (induction "is" arbitrary: vs ws)
  case (Cons i "is")
  from Cons.prems obtain v vs' w ws' where s: "fold_operand_of p i = Inr v" "traverse (fold_operand_of p) is = Inr vs'"
      "vs = v # vs'" "f i () = Inr (w, ())" "traverse_st f is () = Inr (ws', ())" "ws = w # ws'"
    by (auto simp: rbind_Inr_iff)
  from s(1) obtain d c where "bmap_get (ip_values p) i = Some d" "bmap_get (ip_constants p) i = Some c"
      "fold_operand c (iv_ty d) = Inr v"
    by (auto simp: fold_operand_of_def rbind_Inr_iff ok_or_Inr_iff)
  with assms s(4) fold_operand_runtime have "w = RScalar (fold_scalar v)" "fold_ok v" by fastforce+
  with Cons.IH [OF s(2,5)] s(3,6) show ?case by simp
qed simp

lemma primitive_operation:
  assumes "eval_operation f op () = Inr (v, ())" "op_opcode op \<in> {Add, Sub, Mul, Div, Fma, Compare, Cast, Select}"
  shows "\<exists>ws. traverse_st f (op_operands op) () = Inr (ws, ()) \<and> eval_primitive (op_opcode op) ws (op_attributes op) = Inr v"
  using assms by (auto simp: eval_operation_def rbind_Inr_iff rmap_Inr_iff)

lemma fold_preserves:
  assumes r: "fold_scalar_constants p target = Inr q" and v: "verified p facts" and wf: "impl_wf p"
  shows "preserves p q"
proof -
  from r obtain c op result where f: "fold_operation p target = Inr c" "bmap_get (ip_operations p) target = Some op"
      "slice_index (io_results op) 0 = Inr result"
    and q: "q = p\<lparr>ip_operations := bmap_insert target (op\<lparr>io_opcode := Constant, io_operands := [],
          io_attributes := [(''value'', folded_json c)], io_region := None,
          io_source_link := (io_source_link op)\<lparr>rewrite_rule := Some fold_scalar_constants_rule\<rparr>\<rparr>) (ip_operations p),
        ip_constants := bmap_insert result c (ip_constants p)\<rparr>"
    by (auto simp: fold_scalar_constants_def rbind_Inr_iff ok_or_Inr_iff Let_def)
  from f(1,2) obtain vs fv where fold: "io_opcode op \<in> {Add, Sub, Mul, Div, Fma, Compare, Cast, Select}"
      "traverse (fold_operand_of p) (io_operands op) = Inr vs" "fold_values (io_opcode op) (io_attributes op) vs = Inr fv"
      "fold_result fv = Inr c"
    by (auto simp: fold_operation_def rbind_Inr_iff split: if_split_asm)
  from v f(2) have ov: "operation_verified p facts target op" by (simp add: verified_def)
  with f(3) obtain d where result: "io_results op = [result]" "bmap_get (ip_values p) result = Some d"
      "iv_origin d = ImplOperationOrigin target"
    by (auto simp: operation_verified_def slice_index_def)
  from fold(1) have code: "io_opcode op \<noteq> Parameter" "io_opcode op \<noteq> Constant" by auto
  show ?thesis
  proof (rule preservesI [where h = "\<lambda>i. i"])
    show "same_interface p q" by (auto simp: same_interface_def q intro!: exI [of _ "\<lambda>_. True"])
    show "same_outputs (\<lambda>i. i) p q" by (simp add: same_outputs_def q list_all2_same)
  next
    fix params dims inputs limits v0 out name
    assume prep: "prepare_evaluator (impl_as_program p) inputs limits = Inr (params, dims)"
      and out: "denotes (impl_as_program p) params (iout_value out) v0"
    note none = unbound [OF v prep result(2,3) f(2) code(1)]
    show "denotes (impl_as_program q) params (iout_value out) v0"
    proof (rule denotes_transfer [where D = "\<lambda>_. True" and h = "\<lambda>i. i", OF _ out TrueI])
      fix g i w
      assume s: "one_step (impl_as_program p) params g i w"
        and gp: "\<And>j w. g j () = Inr (w, ()) \<Longrightarrow> denotes (impl_as_program p) params (resolve_filled_value (impl_as_program p) j) w"
        and gq: "\<And>j w. g j () = Inr (w, ()) \<Longrightarrow> True \<Longrightarrow>
          denotes (impl_as_program q) params (resolve_filled_value (impl_as_program p) j) w"
      show "denotes (impl_as_program q) params i w"
      proof (cases "i = result")
        case True
        with one_step_impl [OF s] none result f(2)
        have "op_value (impl_as_program p) params g i (operation_to_spec target op) () = Inr (w, ())" by auto
        with code have "eval_operation g (operation_to_spec target op) () = Inr (w, ())" by (simp add: op_value_def)
        from primitive_operation [OF this] fold(1) obtain ws where ws: "traverse_st g (io_operands op) () = Inr (ws, ())"
            "eval_primitive (io_opcode op) ws (io_attributes op) = Inr w" by auto
        have "ws = map (\<lambda>v. RScalar (fold_scalar v)) vs \<and> (\<forall>v\<in>set vs. fold_ok v)"
        proof (rule fold_operands_runtime [OF _ fold(2) ws(1)])
          fix j c d u assume "bmap_get (ip_constants p) j = Some c" "bmap_get (ip_values p) j = Some d" "g j () = Inr (u, ())"
          with constant_denotes [OF v wf prep this(1,2)] gp show "constant_runtime c = Inr u" by simp
        qed
        with fold_values_sound [OF fold(1) _ fold(3)] ws(2) have "w = RScalar (fold_scalar fv)" "fold_ok fv" by auto
        with fold_result_runtime [OF fold(4)] have c: "constant_runtime c = Inr w" by simp
        have "define_value (impl_as_program q) params (denote_limit (impl_as_program q) params) result () = Inr (w, ())"
          unfolding define_value_Inr vals_impl operations_impl
          using result(2,3) c by (simp add: q op_value_def)
        with none True show ?thesis by (auto intro: define_limit)
      next
        case False
        have "alike (impl_as_program p) i (impl_as_program q) i (\<lambda>i. i)"
        proof (rule impl_alike)
          fix d oid o' assume i: "bmap_get (ip_values p) i = Some d" "iv_origin d = ImplOperationOrigin oid"
            "bmap_get (ip_operations p) oid = Some o'"
          with v have "io_results o' = [i]" by (fastforce simp: verified_def)
          with False result(1) i(3) f(2) have "oid \<noteq> target" by auto
          with i False show "\<exists>v' oid' op'. bmap_get (ip_values q) i = Some v' \<and> iv_origin v' = ImplOperationOrigin oid' \<and>
              bmap_get (ip_operations q) oid' = Some op' \<and>
              acts_as (operation_map (\<lambda>i. i) (operation_to_spec oid o')) (operation_to_spec oid' op') \<and>
              (io_opcode o' = Constant \<longrightarrow> bmap_get (ip_constants q) i = bmap_get (ip_constants p) i)"
            by (simp add: q)
        qed
        then show ?thesis by (rule alike_transfer [OF s]) (use gq in auto)
      qed
    qed
  qed
qed

subsection \<open>Removing a cast\<close>

lemma region_value_rename: "region_value_to_spec (rename_region_value a b x) = region_value_map (rename_value a b) (region_value_to_spec x)"
  by (cases x) simp_all

lemma region_rename: "region_to_spec (rename_region a b rg) = region_map (rename_value a b) (region_to_spec rg)"
  by (simp add: region_to_spec_def rename_region_def region_map_def region_operation_to_spec_def region_value_rename)

lemma operation_rename:
  "acts_as (operation_map (rename_value a b) (operation_to_spec oid op)) (operation_to_spec oid (rename_operation a b op))"
  by (rule impl_acts_as) (simp_all add: rename_operation_def option.map_comp comp_def region_rename)

lemma noop_cast_facts:
  assumes r: "eliminate_noop_cast p target = Inr (q, side)" and v: "verified p facts"
  shows "\<exists>op src result dsrc dres. bmap_get (ip_operations p) target = Some op \<and> io_opcode op = Cast \<and>
    io_operands op = [src] \<and> io_results op = [result] \<and> bmap_get (ip_values p) src = Some dsrc \<and>
    bmap_get (ip_values p) result = Some dres \<and> iv_origin dres = ImplOperationOrigin target \<and> iv_ty dsrc = iv_ty dres \<and>
    q = (replace_value p result src)\<lparr>ip_operations := bmap_remove target (ip_operations (replace_value p result src)),
              ip_order := filter (\<lambda>oid. oid \<noteq> target) (ip_order p),
              ip_values := bmap_remove result (ip_values p),
              ip_constants := bmap_remove result (ip_constants p)\<rparr>"
proof -
  from r obtain op src result where o: "noop_cast_side_conditions p target = Inr side"
      "bmap_get (ip_operations p) target = Some op" "slice_index (io_operands op) 0 = Inr src"
      "slice_index (io_results op) 0 = Inr result"
      "q = (replace_value p result src)\<lparr>ip_operations := bmap_remove target (ip_operations (replace_value p result src)),
              ip_order := filter (\<lambda>oid. oid \<noteq> target) (ip_order p),
              ip_values := bmap_remove result (ip_values p),
              ip_constants := bmap_remove result (ip_constants p)\<rparr>"
    by (auto simp: eliminate_noop_cast_def rbind_Inr_iff ok_or_Inr_iff Let_def replace_value_def)
  from o(1-4) obtain dsrc dres where c: "io_opcode op = Cast" "length (io_operands op) = 1"
      "bmap_get (ip_values p) src = Some dsrc" "bmap_get (ip_values p) result = Some dres" "iv_ty dsrc = iv_ty dres"
    by (auto simp: noop_cast_side_conditions_def rbind_Inr_iff ok_or_Inr_iff split: if_split_asm)
  from v o(2) have "operation_verified p facts target op" by (simp add: verified_def)
  with o(4) c(4) have "io_results op = [result]" "iv_origin dres = ImplOperationOrigin target"
    by (auto simp: operation_verified_def slice_index_def)
  moreover from c(2) o(3) have "io_operands op = [src]" by (cases "io_operands op") (auto simp: slice_index_def)
  ultimately show ?thesis using o(2,5) c by blast
qed

lemma cast_preserves:
  assumes r: "eliminate_noop_cast p target = Inr (q, side)" and v: "verified p facts" and wf: "impl_wf p"
  shows "preserves p q"
proof -
  from noop_cast_facts [OF r v] obtain op src result dsrc dres where
    o: "bmap_get (ip_operations p) target = Some op" "io_opcode op = Cast" "io_operands op = [src]" "io_results op = [result]"
    and d: "bmap_get (ip_values p) src = Some dsrc" "bmap_get (ip_values p) result = Some dres"
      "iv_origin dres = ImplOperationOrigin target" "iv_ty dsrc = iv_ty dres"
    and q: "q = (replace_value p result src)\<lparr>ip_operations := bmap_remove target (ip_operations (replace_value p result src)),
              ip_order := filter (\<lambda>oid. oid \<noteq> target) (ip_order p),
              ip_values := bmap_remove result (ip_values p),
              ip_constants := bmap_remove result (ip_constants p)\<rparr>" by blast
  let ?h = "rename_value result src" and ?P = "impl_as_program p" and ?Q = "impl_as_program q"
  show ?thesis
  proof (rule preservesI [where h = ?h])
    have "result \<notin> snd ` set (ip_parameters p)"
      using v d(2,3) o(1,2) unfolding verified_def by force
    then show "same_interface p q"
      by (auto simp: same_interface_def q replace_value_def bmap_remove_def [of result "ip_values p"] get_filter
          intro!: exI [of _ "\<lambda>(k, _). k \<noteq> result"])
    show "same_outputs ?h p q"
      by (auto simp: same_outputs_def q replace_value_def bmap_map_def list_all2_map2 list_all2_same rename_value_def)
  next
    fix params dims inputs limits v0 out name
    assume prep: "prepare_evaluator ?P inputs limits = Inr (params, dims)"
      and out: "denotes ?P params (iout_value out) v0"
    have "io_opcode op \<noteq> Parameter" using o(2) by simp
    note none = unbound [OF v prep d(2,3) o(1) this]
    note kinded = prepared_kinded [OF v wf prep]
    show "denotes ?Q params (?h (iout_value out)) v0"
    proof (rule denotes_transfer [where D = "\<lambda>_. True" and h = ?h, OF _ out TrueI])
      fix g i w
      assume s: "one_step ?P params g i w"
        and gp: "\<And>j w. g j () = Inr (w, ()) \<Longrightarrow> denotes ?P params (resolve_filled_value ?P j) w"
        and gq: "\<And>j w. g j () = Inr (w, ()) \<Longrightarrow> True \<Longrightarrow> denotes ?Q params (?h (resolve_filled_value ?P j)) w"
      show "denotes ?Q params (?h i) w"
      proof (cases "i = result")
        case True
        with one_step_impl [OF s] none d o(1)
        have "op_value ?P params g i (operation_to_spec target op) () = Inr (w, ())" by auto
        with o(2) have "eval_operation g (operation_to_spec target op) () = Inr (w, ())" by (simp add: op_value_def)
        from primitive_operation [OF this] o(2,3) obtain u where u: "g src () = Inr (u, ())"
            "eval_primitive Cast [u] (io_attributes op) = Inr w" by (auto simp: rbind_Inr_iff)
        from kinded d(2,3) o(1,2) have "operation_kind ?P (operation_to_spec target op) (element_type (iv_ty dres))"
          unfolding kinded_def definition_kind_def by (fastforce simp: vals_impl operations_impl)
        then have "prim_typing Cast (io_attributes op) [(element_type (iv_ty dres), None)] (element_type (iv_ty dres), None)"
          using o(2,3) d(1,4) by (auto simp: operation_kind_def list_all2_Cons1 kind_at_impl)
        then have target: "cast_target (io_attributes op) = Inr (element_type (iv_ty dres))"
          by (cases rule: prim_typing.cases) (auto intro: cast_target_ok)
        from gp [OF u(1)] obtain n where "denote ?P params n src = Inr u" by (auto simp: denotes_def)
        from denote_kind [OF kinded _ this] d(1,4) have "has_kind u (element_type (iv_ty dres))"
          by (simp add: kind_at_impl)
        moreover from u(2) target have "eval_cast u (element_type (iv_ty dres)) = Inr w"
          by (simp add: eval_primitive_def slice_index_def)
        ultimately have "w = u" by (rule cast_same)
        with gq [OF u(1)] True show ?thesis by (simp add: rename_value_def split: if_split_asm)
      next
        case False
        have "alike ?P i ?Q i ?h"
        proof (rule impl_alike)
          fix e oid o' assume i: "bmap_get (ip_values p) i = Some e" "iv_origin e = ImplOperationOrigin oid"
            "bmap_get (ip_operations p) oid = Some o'"
          with v have "io_results o' = [i]" by (fastforce simp: verified_def)
          with False o(1,4) i(3) have "oid \<noteq> target" by auto
          with i False operation_rename show "\<exists>v' oid' op'. bmap_get (ip_values q) i = Some v' \<and> iv_origin v' = ImplOperationOrigin oid' \<and>
              bmap_get (ip_operations q) oid' = Some op' \<and>
              acts_as (operation_map ?h (operation_to_spec oid o')) (operation_to_spec oid' op') \<and>
              (io_opcode o' = Constant \<longrightarrow> bmap_get (ip_constants q) i = bmap_get (ip_constants p) i)"
            by (simp add: q replace_value_def)
        qed
        then have "denotes ?Q params i w" by (rule alike_transfer [OF s]) (use gq in auto)
        with False show ?thesis by (simp add: rename_value_def)
      qed
    qed
  qed
qed

theorem apply_known_rewrite_preserves:
  assumes "apply_known_rewrite p rule target = Inr (q, side)" "verify_impl p source limits = Inr ()" "impl_wf p"
  shows "preserves p q"
proof -
  from verify_impl_verified [OF assms(2)] assms(3) obtain facts where v: "verified p facts" by (auto simp: impl_wf_def)
  from assms(1) consider "prune_unreachable p target = Inr q" | "eliminate_noop_cast p target = Inr (q, side)"
    | "fold_scalar_constants p target = Inr q"
    by (auto simp: apply_known_rewrite_def rbind_Inr_iff rmap_Inr_iff split: if_split_asm)
  then show ?thesis
    using prune_preserves [OF _ v assms(3)] cast_preserves [OF _ v assms(3)] fold_preserves [OF _ v assms(3)]
    by cases blast+
qed

end
