(* ===== verification/Rewrite_Wf.thy ===== *)
theory Rewrite_Wf
  imports Rewrite_Proofs
begin

text \<open>
  The rewrites keep what the verifier does not check (\<open>impl_wf\<close>), so that their soundness applies
  again to the graph they return once it has been verified.
\<close>

lemma bmap_ok_filter: "bmap_ok m \<Longrightarrow> bmap_ok (filter K m)"
  by (auto simp: bmap_ok_def bmap_keys_def sorted_wrt_map sorted_wrt_filter)

text \<open>Well-formedness by lookups.\<close>

definition literals_constant :: "impl_program \<Rightarrow> bool" where
  "literals_constant p \<longleftrightarrow>
     (\<forall>i c v oid op. bmap_get (ip_constants p) i = Some c \<longrightarrow> bmap_get (ip_values p) i = Some v \<longrightarrow>
        iv_origin v = ImplOperationOrigin oid \<longrightarrow> bmap_get (ip_operations p) oid = Some op \<longrightarrow> io_opcode op = Constant)"

definition regions_fit :: "impl_program \<Rightarrow> bool" where
  "regions_fit p \<longleftrightarrow>
     (\<forall>oid op. bmap_get (ip_operations p) oid = Some op \<longrightarrow> io_opcode op \<in> {Map, ZipMap, Reduce} \<longrightarrow> region_fits p op)"

definition tables_ok :: "impl_program \<Rightarrow> bool" where
  "tables_ok p \<longleftrightarrow>
     bmap_ok (ip_operations p) \<and> bmap_ok (ip_values p) \<and> bmap_ok (ip_constants p) \<and>
     bmap_ok (ip_parameters p) \<and> bmap_ok (ip_outputs p)"

lemma impl_wf_iff: "impl_wf p \<longleftrightarrow> tables_ok p \<and> literals_constant p \<and> regions_fit p"
proof
  assume wf: "impl_wf p"
  then have "regions_fit p" by (fastforce simp: impl_wf_def regions_fit_def dest: bmap_get_mem)
  with wf constant_operation [OF wf] show "tables_ok p \<and> literals_constant p \<and> regions_fit p"
    unfolding literals_constant_def by (auto simp: impl_wf_def tables_ok_def)
next
  assume a: "tables_ok p \<and> literals_constant p \<and> regions_fit p"
  then have ok: "bmap_ok (ip_constants p)" "bmap_ok (ip_operations p)" by (simp_all add: tables_ok_def)
  have "case iv_origin v of ImplOperationOrigin oid \<Rightarrow>
      \<forall>op. bmap_get (ip_operations p) oid = Some op \<longrightarrow> io_opcode op = Constant"
    if "(i, c) \<in> set (ip_constants p)" "bmap_get (ip_values p) i = Some v" for i c v
    using a bmap_mem_get [OF ok(1) that(1)] that(2) unfolding literals_constant_def by (cases "iv_origin v") auto
  moreover have "region_fits p op" if "(oid, op) \<in> set (ip_operations p)" "io_opcode op \<in> {Map, ZipMap, Reduce}" for oid op
    using a bmap_mem_get [OF ok(2) that(1)] that(2) unfolding regions_fit_def by blast
  ultimately show "impl_wf p"
    using a unfolding impl_wf_def tables_ok_def by blast
qed

lemma region_fits_fewer:
  assumes "region_fits p op" "\<And>i v. bmap_get (ip_values q) i = Some v \<Longrightarrow> bmap_get (ip_values p) i = Some v"
  shows "region_fits q op"
  using assms by (cases "io_region op") (auto simp: region_fits_def elim!: list.rel_mono_strong)

lemma prune_wf:
  assumes r: "prune_unreachable p target = Inr q" and v: "verified p facts" and wf: "impl_wf p"
  shows "impl_wf q"
proof -
  from wf have ok: "tables_ok p" "literals_constant p" "regions_fit p" by (simp_all add: impl_wf_iff)
  then obtain s where s: "pruned p s q"
    using prune_unreachable_pruned [OF r v] by (auto simp: tables_ok_def)
  then have vals: "bmap_get (ip_values q) i = Some v \<Longrightarrow> bmap_get (ip_values p) i = Some v \<and> origin_in p s i" for i v
    by (auto simp: pruned_def split: if_split_asm)
  have ops: "bmap_get (ip_operations q) oid = Some op \<Longrightarrow> bmap_get (ip_operations p) oid = Some op" for oid op
    using s by (auto simp: pruned_def split: if_split_asm)
  have literals: "origin_in p s i \<Longrightarrow> bmap_get (ip_constants q) i = bmap_get (ip_constants p) i" for i
    using s by (simp add: pruned_def)
  have "tables_ok q" using ok(1) s by (auto simp: tables_ok_def pruned_def intro: bmap_ok_filter)
  moreover have "literals_constant q"
    using ok(2) vals ops literals unfolding literals_constant_def by metis
  moreover have "regions_fit q"
    using ok(3) vals ops region_fits_fewer unfolding regions_fit_def by blast
  ultimately show ?thesis by (simp add: impl_wf_iff)
qed

lemma fold_wf:
  assumes r: "fold_scalar_constants p target = Inr q" and v: "verified p facts" and wf: "impl_wf p"
  shows "impl_wf q"
proof -
  from wf have ok: "tables_ok p" "literals_constant p" "regions_fit p" by (simp_all add: impl_wf_iff)
  from r obtain c op result op' where f: "bmap_get (ip_operations p) target = Some op" "slice_index (io_results op) 0 = Inr result"
    and q: "q = p\<lparr>ip_operations := bmap_insert target op' (ip_operations p), ip_constants := bmap_insert result c (ip_constants p)\<rparr>"
    and op': "io_opcode op' = Constant"
    by (auto simp: fold_scalar_constants_def rbind_Inr_iff ok_or_Inr_iff Let_def)
  from v f have result: "\<exists>d. bmap_get (ip_values p) result = Some d \<and> iv_origin d = ImplOperationOrigin target"
    by (fastforce simp: verified_def operation_verified_def slice_index_def)
  have tables: "tables_ok q" using ok(1) by (simp add: tables_ok_def q)
  have literals: "literals_constant q"
    using ok(2) result op' unfolding literals_constant_def by (auto simp: q split: if_split_asm)
  have vals: "ip_values q = ip_values p" by (simp add: q)
  have "region_fits q op = region_fits p op" for op
    unfolding region_fits_def vals ..
  then have regions: "regions_fit q"
    using ok(3) op' unfolding regions_fit_def by (auto simp: q split: if_split_asm)
  show ?thesis using tables literals regions by (simp add: impl_wf_iff)
qed

lemma rename_fits:
  assumes f: "region_fits p op"
    and d: "bmap_get (ip_values p) src = Some dsrc" "bmap_get (ip_values p) result = Some dres" "iv_ty dsrc = iv_ty dres"
    and vals: "\<And>i v. bmap_get (ip_values q) i = Some v \<Longrightarrow> bmap_get (ip_values p) i = Some v"
  shows "region_fits q (rename_operation result src op)"
proof (cases "io_region op")
  case (Some rg)
  have "list_all2 (\<lambda>i a. \<forall>v. bmap_get (ip_values q) i = Some v \<longrightarrow> iarg_ty a = Scalar (element_type (iv_ty v)))
      (map (rename_value result src) (io_operands op)) (irg_arguments rg)"
    unfolding list.rel_map
  proof (rule list.rel_mono_strong)
    show "list_all2 (\<lambda>i a. \<forall>v. bmap_get (ip_values p) i = Some v \<longrightarrow> iarg_ty a = Scalar (element_type (iv_ty v)))
        (io_operands op) (irg_arguments rg)"
      using f Some by (simp add: region_fits_def)
    fix i a assume "\<forall>v. bmap_get (ip_values p) i = Some v \<longrightarrow> iarg_ty a = Scalar (element_type (iv_ty v))"
    with vals d show "\<forall>v. bmap_get (ip_values q) (rename_value result src i) = Some v \<longrightarrow>
        iarg_ty a = Scalar (element_type (iv_ty v))"
      by (metis option.inject rename_value_def)
  qed
  with f Some show ?thesis
    by (cases "irg_yield_value rg") (simp_all add: region_fits_def rename_operation_def rename_region_def)
qed (simp add: region_fits_def rename_operation_def)

lemma cast_wf:
  assumes r: "eliminate_noop_cast p target = Inr (q, side)" and v: "verified p facts" and wf: "impl_wf p"
  shows "impl_wf q"
proof -
  from wf have ok: "tables_ok p" "literals_constant p" "regions_fit p" by (simp_all add: impl_wf_iff)
  from noop_cast_facts [OF r v] obtain op src result dsrc dres where
    d: "bmap_get (ip_values p) src = Some dsrc" "bmap_get (ip_values p) result = Some dres" "iv_ty dsrc = iv_ty dres"
    and q: "q = (replace_value p result src)\<lparr>ip_operations := bmap_remove target (ip_operations (replace_value p result src)),
              ip_order := filter (\<lambda>oid. oid \<noteq> target) (ip_order p),
              ip_values := bmap_remove result (ip_values p),
              ip_constants := bmap_remove result (ip_constants p)\<rparr>" by blast
  have vals: "bmap_get (ip_values q) i = Some v \<Longrightarrow> bmap_get (ip_values p) i = Some v" for i v
    by (simp add: q split: if_split_asm)
  have ops: "\<exists>o'. bmap_get (ip_operations p) oid = Some o' \<and> op = rename_operation result src o'"
    if "bmap_get (ip_operations q) oid = Some op" for oid op
    using that by (auto simp: q replace_value_def split: if_split_asm)
  have code: "io_opcode (rename_operation a b o') = io_opcode o'" for a b o' by (simp add: rename_operation_def)
  have "tables_ok q" using ok(1) by (simp add: tables_ok_def q replace_value_def)
  moreover have "literals_constant q"
    unfolding literals_constant_def
  proof (intro allI impI)
    fix i c v oid op
    assume a: "bmap_get (ip_constants q) i = Some c" "bmap_get (ip_values q) i = Some v"
      "iv_origin v = ImplOperationOrigin oid" "bmap_get (ip_operations q) oid = Some op"
    from a(1) have "bmap_get (ip_constants p) i = Some c" by (simp add: q split: if_split_asm)
    with ok(2) vals [OF a(2)] ops [OF a(4)] a(3) code show "io_opcode op = Constant"
      unfolding literals_constant_def by fastforce
  qed
  moreover have "regions_fit q"
    unfolding regions_fit_def
  proof (intro allI impI)
    fix oid op assume a: "bmap_get (ip_operations q) oid = Some op" "io_opcode op \<in> {Map, ZipMap, Reduce}"
    from ops [OF a(1)] obtain o' where o': "bmap_get (ip_operations p) oid = Some o'" "op = rename_operation result src o'" by blast
    then have "io_opcode o' \<in> {Map, ZipMap, Reduce}" using a(2) by (simp only: code)
    with o'(1) ok(3) have "region_fits p o'" unfolding regions_fit_def by blast
    from rename_fits [OF this d vals] o'(2) show "region_fits q op" by simp
  qed
  ultimately show ?thesis by (simp add: impl_wf_iff)
qed

lemma apply_known_rewrite_wf:
  assumes "apply_known_rewrite p rule target = Inr (q, side)" "verified p facts" "impl_wf p"
  shows "impl_wf q"
proof -
  from assms(1) consider "prune_unreachable p target = Inr q" | "eliminate_noop_cast p target = Inr (q, side)"
    | "fold_scalar_constants p target = Inr q"
    by (auto simp: apply_known_rewrite_def rbind_Inr_iff rmap_Inr_iff split: if_split_asm)
  then show ?thesis
    using prune_wf [OF _ assms(2,3)] cast_wf [OF _ assms(2,3)] fold_wf [OF _ assms(2,3)] by cases blast+
qed

subsection \<open>The contract of the registry\<close>

text \<open>
  What candidates and equality spaces rely on when they rewrite: an accepted, well-formed graph
  that meets what is asked of it is rewritten to one that does too. What is asked is an argument:
  candidates ask for the results of the specification, equality spaces for those of the root.
\<close>

locale sound_rewriting =
  fixes accepts well_formed :: "'p \<Rightarrow> bool" and rewrite :: "'p \<Rightarrow> 'p \<Rightarrow> bool" and meets :: "'s \<Rightarrow> 'p \<Rightarrow> bool"
  assumes keeps_form: "accepts p \<Longrightarrow> well_formed p \<Longrightarrow> rewrite p q \<Longrightarrow> well_formed q"
    and keeps_meaning: "accepts p \<Longrightarrow> well_formed p \<Longrightarrow> rewrite p q \<Longrightarrow> meets s p \<Longrightarrow> meets s q"
begin

lemma rewrite_step:
  assumes "c \<longrightarrow> well_formed p \<and> meets s p" "accepts p" "rewrite p q"
  shows "c \<longrightarrow> well_formed q \<and> meets s q"
  using assms keeps_form keeps_meaning by blast

lemma rewrite_steps:
  "(\<lambda>p q. rewrite p q \<and> accepts q)\<^sup>*\<^sup>* p q \<Longrightarrow> accepts p \<Longrightarrow> well_formed p \<Longrightarrow> meets s p \<Longrightarrow>
   accepts q \<and> well_formed q \<and> meets s q"
  by (induction rule: rtranclp_induct) (auto intro: keeps_form keeps_meaning)

end

definition accepted_impl :: "impl_program \<Rightarrow> bool" where
  "accepted_impl q \<longleftrightarrow> (\<exists>source limits. verify_impl q source limits = Inr ())"

definition rewrites_to :: "impl_program \<Rightarrow> impl_program \<Rightarrow> bool" where
  "rewrites_to p q \<longleftrightarrow> (\<exists>rule target side. apply_known_rewrite p rule target = Inr (q, side))"

lemma verified_rewrite_wf:
  assumes "apply_known_rewrite p rule target = Inr (q, side)" "verify_impl p source limits = Inr ()" "impl_wf p"
  shows "impl_wf q"
proof -
  from verify_impl_verified [OF assms(2)] assms(3) obtain facts where "verified p facts" by (auto simp: impl_wf_def)
  from apply_known_rewrite_wf [OF assms(1) this assms(3)] show ?thesis .
qed

interpretation impl_rewriting: sound_rewriting accepted_impl impl_wf rewrites_to preserves
proof unfold_locales
  fix p q s
  assume "accepted_impl p" and wf: "impl_wf p" and "rewrites_to p q"
  then obtain source limits rule target side where v: "verify_impl p source limits = Inr ()"
    and r: "apply_known_rewrite p rule target = Inr (q, side)"
    by (auto simp: accepted_impl_def rewrites_to_def)
  show "impl_wf q" by (rule verified_rewrite_wf [OF r v wf])
  show "preserves s q" if "preserves s p"
    using that apply_known_rewrite_preserves [OF r v wf] by (rule preserves_trans)
qed

end
