(* ===== verification/Lowering_Proofs.thy ===== *)
theory Lowering_Proofs
  imports Lowering_Order Rewrite_Wf
begin

text \<open>
  The identity lowering is faithful: every lowered value is computed by an operation that does
  what the operation of the specification does, on the lowered values of its resolved operands.
  The lowered graph is well formed and evaluates like the specification.
\<close>

subsection \<open>One operation\<close>

definition lowered_operation :: "program \<Rightarrow> (string, string) bmap \<Rightarrow> operation \<Rightarrow> impl_operation \<Rightarrow> bool" where
  "lowered_operation source m sop io \<longleftrightarrow>
     io_opcode io = op_opcode sop \<and> io_attributes io = op_attributes sop \<and>
     list_all2 (\<lambda>i k. bmap_get m (resolve_filled_value source i) = Some k) (op_operands sop) (io_operands io) \<and>
     (case op_region sop of None \<Rightarrow> io_region io = None
      | Some rg \<Rightarrow> \<exists>rg'. lower_region rg m = Inr rg' \<and> io_region io = Some rg')"

lemma lower_operation_effect:
  assumes r: "lower_operation source lw soid = Inr lw'"
    and s: "bmap_get (operations source) soid = Some sop" "op_results sop = [i]" "bmap_get (vals source) i = Some sv"
  obtains a1 oid a2 vid v io where
    "alloc_impl_operation (lw_alloc lw) = (a1, oid)" "alloc_impl_value a1 = (a2, vid)" "lw_alloc lw' = a2"
    "lw_values lw' = bmap_insert i vid (lw_values lw)"
    "ip_values (lw_program lw') = bmap_insert vid v (ip_values (lw_program lw))"
    "iv_id v = vid" "iv_ty v = v_ty sv" "iv_origin v = ImplOperationOrigin oid"
    "ip_constants (lw_program lw') = (case bmap_get (constants source) i of
        None \<Rightarrow> ip_constants (lw_program lw) | Some c \<Rightarrow> bmap_insert vid c (ip_constants (lw_program lw)))"
    "ip_operations (lw_program lw') = bmap_insert oid io (ip_operations (lw_program lw))"
    "ip_constraints (lw_program lw') = ip_constraints (lw_program lw)"
    "io_results io = [vid]" "lowered_operation source (lw_values lw') sop io"
proof -
  obtain a1 oid where a1: "alloc_impl_operation (lw_alloc lw) = (a1, oid)" by fastforce
  obtain a2 vid where a2: "alloc_impl_value a1 = (a2, vid)" by fastforce
  define v where "v = \<lparr>iv_id = vid, iv_ty = v_ty sv, iv_origin = ImplOperationOrigin oid, iv_name = v_name sv,
              iv_source_link = \<lparr>spec_operation = Some soid, spec_value = Some i, rewrite_rule = None\<rparr>\<rparr>"
  define m where "m = bmap_insert i vid (lw_values lw)"
  define p where "p = lw_program lw"
  define cs where "cs = (case bmap_get (constants source) i of
      None \<Rightarrow> ip_constants p | Some c \<Rightarrow> bmap_insert vid c (ip_constants p))"
  define lw1 where "lw1 = \<lparr>lw_alloc = a2,
    lw_program = p\<lparr>ip_values := bmap_insert vid v (ip_values p), ip_constants := cs\<rparr>, lw_values = m\<rparr>"
  have "lower_result source soid oid (lw\<lparr>lw_alloc := a1\<rparr>, []) i = Inr (lw1, [vid])"
    using s(3) a2 unfolding lower_result_def lw1_def v_def m_def cs_def
    by (cases "bmap_get (constants source) i") (simp_all add: Let_def p_def)
  moreover have f: "lw_alloc lw1 = a2" "lw_values lw1 = m" "ip_values (lw_program lw1) = bmap_insert vid v (ip_values p)"
      "ip_constants (lw_program lw1) = cs" "ip_operations (lw_program lw1) = ip_operations p"
      "ip_constraints (lw_program lw1) = ip_constraints p"
    by (simp_all add: lw1_def)
  ultimately obtain operands rg where o:
    "traverse (\<lambda>i. ok_or (impl_failure ''identity lowering cannot map operand `{value}`'')
        (bmap_get m (resolve_filled_value source i))) (op_operands sop) = Inr operands"
    "(case op_region sop of None \<Rightarrow> Inr None | Some rg \<Rightarrow> rmap Some (lower_region rg (lw_values lw1))) = Inr rg"
    "lw_alloc lw' = a2" "lw_values lw' = m"
    "ip_values (lw_program lw') = bmap_insert vid v (ip_values p)"
    "ip_constants (lw_program lw') = cs"
    "ip_operations (lw_program lw') = bmap_insert oid \<lparr>io_id = oid, io_opcode = op_opcode sop, io_operands = operands,
        io_results = [vid], io_attributes = op_attributes sop, io_region = rg, io_result_types = op_result_types sop,
        io_source_link = \<lparr>spec_operation = Some soid, spec_value = Some i, rewrite_rule = None\<rparr>\<rparr>
        (ip_operations p)"
    "ip_constraints (lw_program lw') = ip_constraints p"
    using r s(1,2) a1 by (auto simp: lower_operation_def rbind_Inr_iff Let_def)
  have reg: "case op_region sop of None \<Rightarrow> rg = None
      | Some rg0 \<Rightarrow> \<exists>rg'. lower_region rg0 m = Inr rg' \<and> rg = Some rg'"
    using o(2) f(2) by (cases "op_region sop") (auto simp: rmap_Inr_iff)
  show thesis
    by (rule that [OF a1 a2 o(3) o(4) [unfolded m_def] o(5) [unfolded p_def] _ _ _ o(6) [unfolded cs_def p_def] o(7) [unfolded p_def] o(8) [unfolded p_def]])
       (use o(1,4) reg in \<open>cases "op_region sop"; auto simp: v_def lowered_operation_def traverse_Inr_iff ok_or_Inr_iff\<close>)+
qed

subsection \<open>What is lowered so far\<close>

definition lowered_value :: "program \<Rightarrow> string list \<Rightarrow> (string, string) bmap \<Rightarrow> impl_program \<Rightarrow> string \<Rightarrow> string \<Rightarrow> bool" where
  "lowered_value source done m p i vid \<longleftrightarrow>
     (\<exists>def soid sop v oid io.
        bmap_get (vals source) i = Some def \<and> v_origin def = OperationOrigin soid \<and> soid \<in> set done \<and>
        bmap_get (operations source) soid = Some sop \<and> bmap_get (ip_values p) vid = Some v \<and> iv_id v = vid \<and>
        iv_ty v = v_ty def \<and> iv_origin v = ImplOperationOrigin oid \<and> bmap_get (ip_operations p) oid = Some io \<and>
        lowered_operation source m sop io \<and> bmap_get (ip_constants p) vid = bmap_get (constants source) i)"

definition lowered :: "program \<Rightarrow> string list \<Rightarrow> lowering \<Rightarrow> bool" where
  "lowered source done lw \<longleftrightarrow> (let p = lw_program lw; m = lw_values lw in
     ids_below ''iv'' (next_impl_value (lw_alloc lw)) (ip_values p) \<and>
     ids_below ''iv'' (next_impl_value (lw_alloc lw)) (ip_constants p) \<and>
     ids_below ''iop'' (next_impl_operation (lw_alloc lw)) (ip_operations p) \<and>
     bmap_ok (ip_operations p) \<and> bmap_ok (ip_values p) \<and> bmap_ok (ip_constants p) \<and>
     (\<forall>i vid. bmap_get m i = Some vid \<longrightarrow> lowered_value source done m p i vid) \<and>
     (\<forall>i j vid. bmap_get m i = Some vid \<longrightarrow> bmap_get m j = Some vid \<longrightarrow> i = j) \<and>
     (\<forall>vid v. bmap_get (ip_values p) vid = Some v \<longrightarrow> (\<exists>i. bmap_get m i = Some vid)) \<and>
     (\<forall>oid io. bmap_get (ip_operations p) oid = Some io \<longrightarrow>
        (\<exists>i vid v. bmap_get m i = Some vid \<and> bmap_get (ip_values p) vid = Some v \<and>
           iv_origin v = ImplOperationOrigin oid)) \<and>
     ip_constraints p = constraints source)"

lemma convert_more:
  "convert_region_value v m = Inr w \<Longrightarrow> (\<And>k x. bmap_get m k = Some x \<Longrightarrow> bmap_get m' k = Some x) \<Longrightarrow>
   convert_region_value v m' = Inr w"
  by (cases v) (auto simp: convert_region_value_def rmap_Inr_iff ok_or_Inr_iff)

lemma traverse_more:
  "traverse f xs = Inr ys \<Longrightarrow> (\<And>x y. x \<in> set xs \<Longrightarrow> f x = Inr y \<Longrightarrow> g x = Inr y) \<Longrightarrow> traverse g xs = Inr ys"
  unfolding traverse_Inr_iff by (erule list.rel_mono_strong) auto

lemma lower_region_more:
  assumes "lower_region rg m = Inr rg'" "\<And>k x. bmap_get m k = Some x \<Longrightarrow> bmap_get m' k = Some x"
  shows "lower_region rg m' = Inr rg'"
proof -
  from assms(1) obtain cs ops y where l:
    "traverse (\<lambda>i. ok_or (impl_failure ''identity lowering cannot map capture `{value}`'') (bmap_get m i)) (rg_captures rg) = Inr cs"
    "traverse (lower_region_operation m) (rg_operations rg) = Inr ops"
    "convert_region_value (rg_yield_value rg) m = Inr y"
    by (auto simp: lower_region_def rbind_Inr_iff)
  have "lower_region_operation m op = Inr op' \<Longrightarrow> lower_region_operation m' op = Inr op'" for op op'
    using convert_more [OF _ assms(2)] by (auto simp: lower_region_operation_def rmap_Inr_iff elim!: traverse_more)
  from traverse_more [OF l(2) this] traverse_more [OF l(1), where g = "\<lambda>i. ok_or (impl_failure ''identity lowering cannot map capture `{value}`'') (bmap_get m' i)"]
    convert_more [OF l(3) assms(2)] assms l
  show ?thesis by (simp add: lower_region_def ok_or_Inr_iff)
qed

lemma lowered_operation_more:
  "lowered_operation source m sop io \<Longrightarrow> (\<And>k x. bmap_get m k = Some x \<Longrightarrow> bmap_get m' k = Some x) \<Longrightarrow>
   lowered_operation source m' sop io"
  by (cases "op_region sop")
     (auto simp: lowered_operation_def intro: lower_region_more elim!: list.rel_mono_strong)

lemma alloc_value_fresh:
  assumes "alloc_impl_value a = (a', vid)" "ids_below ''iv'' (next_impl_value a) m"
  shows "bmap_get m vid = None" "ids_below ''iv'' (next_impl_value a') (bmap_insert vid x m)"
    "ids_below ''iv'' (next_impl_value a') m"
  using assms ids_below_fresh [OF assms(2)] ids_below_insert [OF assms(2)] ids_below_mono [OF assms(2)]
  by (auto simp: alloc_impl_value_def Let_def bmap_contains_def)

lemma alloc_operation_fresh:
  assumes "alloc_impl_operation a = (a', oid)" "ids_below ''iop'' (next_impl_operation a) m"
  shows "bmap_get m oid = None" "ids_below ''iop'' (next_impl_operation a') (bmap_insert oid x m)"
  using assms ids_below_fresh [OF assms(2)] ids_below_insert [OF assms(2)]
  by (auto simp: alloc_impl_operation_def Let_def bmap_contains_def)

lemma alloc_other:
  "alloc_impl_operation a = (a', oid) \<Longrightarrow> next_impl_value a' = next_impl_value a"
  "alloc_impl_value a = (a', vid) \<Longrightarrow> next_impl_operation a' = next_impl_operation a"
  by (auto simp: alloc_impl_operation_def alloc_impl_value_def Let_def)

lemma lower_operation_lowered:
  assumes l: "linked source" and inv: "lowered source done lw" and new: "soid \<notin> set done"
    and r: "lower_operation source lw soid = Inr lw'"
  shows "lowered source (done @ [soid]) lw'"
proof -
  from r obtain sop where sop: "bmap_get (operations source) soid = Some sop"
    by (auto simp: lower_operation_def rbind_Inr_iff ok_or_Inr_iff)
  with l obtain i sv where i: "op_results sop = [i]" "bmap_get (vals source) i = Some sv" "v_origin sv = OperationOrigin soid"
    unfolding linked_def by blast
  note inv' = inv [unfolded lowered_def Let_def]
  from lower_operation_effect [OF r sop i(1,2)] obtain a1 oid a2 vid v io where
    a: "alloc_impl_operation (lw_alloc lw) = (a1, oid)" "alloc_impl_value a1 = (a2, vid)" "lw_alloc lw' = a2" and
    m: "lw_values lw' = bmap_insert i vid (lw_values lw)" and
    p: "ip_values (lw_program lw') = bmap_insert vid v (ip_values (lw_program lw))"
    "iv_id v = vid" "iv_ty v = v_ty sv" "iv_origin v = ImplOperationOrigin oid"
    "ip_constants (lw_program lw') = (case bmap_get (constants source) i of
        None \<Rightarrow> ip_constants (lw_program lw) | Some c \<Rightarrow> bmap_insert vid c (ip_constants (lw_program lw)))"
    "ip_operations (lw_program lw') = bmap_insert oid io (ip_operations (lw_program lw))"
    "ip_constraints (lw_program lw') = ip_constraints (lw_program lw)"
    "io_results io = [vid]" "lowered_operation source (lw_values lw') sop io" .
  have below: "ids_below ''iv'' (next_impl_value a1) (ip_values (lw_program lw))"
      "ids_below ''iv'' (next_impl_value a1) (ip_constants (lw_program lw))"
      "ids_below ''iop'' (next_impl_operation (lw_alloc lw)) (ip_operations (lw_program lw))"
    using inv' alloc_other(1) [OF a(1)] by simp_all
  note fv = alloc_value_fresh [OF a(2) below(1)] and fc = alloc_value_fresh [OF a(2) below(2)]
    and fo = alloc_operation_fresh [OF a(1) below(3)]
  have old: "bmap_get (lw_values lw) i = None"
  proof (rule ccontr)
    assume "bmap_get (lw_values lw) i \<noteq> None"
    then obtain k where "bmap_get (lw_values lw) i = Some k" by blast
    with inv' have "lowered_value source done (lw_values lw) (lw_program lw) i k" by blast
    with i new show False by (auto simp: lowered_value_def)
  qed
  have notin: "bmap_get (lw_values lw) j \<noteq> Some vid" for j
  proof
    assume "bmap_get (lw_values lw) j = Some vid"
    with inv' have "lowered_value source done (lw_values lw) (lw_program lw) j vid" by blast
    with fv(1) show False by (auto simp: lowered_value_def)
  qed
  have more: "bmap_get (lw_values lw) k = Some x \<Longrightarrow> bmap_get (lw_values lw') k = Some x" for k x
    using m old by (auto split: if_split_asm)
  have cs: "bmap_get (ip_constants (lw_program lw')) k =
      (if k = vid then bmap_get (constants source) i else bmap_get (ip_constants (lw_program lw)) k)" for k
    using p(5) fc(1) by (auto split: option.split)
  have "lowered_value source (done @ [soid]) (lw_values lw') (lw_program lw') j k"
    if "bmap_get (lw_values lw') j = Some k" for j k
  proof (cases "j = i")
    case True
    with that m have "k = vid" by simp
    have "bmap_get (ip_values (lw_program lw')) vid = Some v" "bmap_get (ip_operations (lw_program lw')) oid = Some io"
      using p by simp_all
    with True \<open>k = vid\<close> i sop p(2-4,9) cs show ?thesis unfolding lowered_value_def by auto
  next
    case False
    with that m have old': "bmap_get (lw_values lw) j = Some k" by simp
    with inv' have "lowered_value source done (lw_values lw) (lw_program lw) j k" by blast
    then obtain def so sp w o' io' where e: "bmap_get (vals source) j = Some def" "v_origin def = OperationOrigin so"
        "so \<in> set done" "bmap_get (operations source) so = Some sp" "bmap_get (ip_values (lw_program lw)) k = Some w"
        "iv_id w = k" "iv_ty w = v_ty def" "iv_origin w = ImplOperationOrigin o'"
        "bmap_get (ip_operations (lw_program lw)) o' = Some io'" "lowered_operation source (lw_values lw) sp io'"
        "bmap_get (ip_constants (lw_program lw)) k = bmap_get (constants source) j"
      unfolding lowered_value_def by blast
    have "k \<noteq> vid" "o' \<noteq> oid" using e(5,9) fv(1) fo(1) by auto
    then have "bmap_get (ip_values (lw_program lw')) k = Some w" "bmap_get (ip_operations (lw_program lw')) o' = Some io'"
        "bmap_get (ip_constants (lw_program lw')) k = bmap_get (constants source) j"
      using e p cs by simp_all
    with e lowered_operation_more [OF e(10) more] show ?thesis unfolding lowered_value_def by auto
  qed
  moreover have "\<forall>x y k. bmap_get (lw_values lw') x = Some k \<longrightarrow> bmap_get (lw_values lw') y = Some k \<longrightarrow> x = y"
    using inv' m notin by auto
  moreover have "\<exists>j. bmap_get (lw_values lw') j = Some k" if "bmap_get (ip_values (lw_program lw')) k = Some w" for k w
  proof (cases "k = vid")
    case True
    with m show ?thesis by auto
  next
    case False
    with that p(1) inv' obtain j where "bmap_get (lw_values lw) j = Some k" by auto
    with more show ?thesis by blast
  qed
  moreover have "\<exists>j k w. bmap_get (lw_values lw') j = Some k \<and> bmap_get (ip_values (lw_program lw')) k = Some w \<and>
      iv_origin w = ImplOperationOrigin o'" if "bmap_get (ip_operations (lw_program lw')) o' = Some io'" for o' io'
  proof (cases "o' = oid")
    case True
    with m p(1,4) show ?thesis by (intro exI [of _ i] exI [of _ vid] exI [of _ v]) simp
  next
    case False
    with that p(6) have "bmap_get (ip_operations (lw_program lw)) o' = Some io'" by simp
    with inv' obtain j k w where "bmap_get (lw_values lw) j = Some k" "bmap_get (ip_values (lw_program lw)) k = Some w"
        "iv_origin w = ImplOperationOrigin o'" by blast
    moreover from this have "k \<noteq> vid" using notin by auto
    ultimately show ?thesis using more p(1) by auto
  qed
  moreover have "ids_below ''iv'' (next_impl_value (lw_alloc lw')) (ip_constants (lw_program lw'))"
    using p(5) fc(2,3) a(3) by (simp split: option.split)
  moreover have "bmap_ok (ip_constants (lw_program lw'))" using p(5) inv' by (simp split: option.split)
  ultimately show ?thesis
    using inv' a(3) p(1,6,7) fv(2) fo(2) alloc_other(2) [OF a(2)] unfolding lowered_def Let_def
    by simp
qed

lemma lower_operations_lowered:
  "rfold (lower_operation source) lw oids = Inr lw' \<Longrightarrow> linked source \<Longrightarrow> lowered source done lw \<Longrightarrow>
   distinct (done @ oids) \<Longrightarrow> lowered source (done @ oids) lw'"
proof (induction oids arbitrary: lw "done")
  case (Cons oid oids)
  from Cons.prems(1) obtain l1 where l1: "lower_operation source lw oid = Inr l1"
      "rfold (lower_operation source) l1 oids = Inr lw'" by (auto simp: rbind_Inr_iff)
  from lower_operation_lowered [OF Cons.prems(2,3) _ l1(1)] Cons.prems(4)
  have "lowered source (done @ [oid]) l1" by simp
  from Cons.IH [OF l1(2) Cons.prems(2) this] Cons.prems(4) show ?case by simp
qed simp

lemma lowered_start: "lowered source [] (lowering_start source alloc)"
  by (simp add: lowered_def lowering_start_def default_impl_program_def)

end
