(* ===== verification/Lowering_Results.thy ===== *)
theory Lowering_Results
  imports Lowering_Proofs
begin

text \<open>
  The results of a lowered graph: it binds its inputs, passes its preflight and computes its
  outputs whenever the specification does, with the same values.
\<close>

subsection \<open>The lowered graph\<close>

definition lowering_of :: "program \<Rightarrow> (string, string) bmap \<Rightarrow> impl_program \<Rightarrow> bool" where
  "lowering_of source m p \<longleftrightarrow>
     (\<forall>i k. bmap_get m i = Some k \<longrightarrow> (\<exists>order. lowered_value source order m p i k)) \<and>
     (\<forall>i j k. bmap_get m i = Some k \<longrightarrow> bmap_get m j = Some k \<longrightarrow> i = j) \<and>
     (\<forall>k v. bmap_get (ip_values p) k = Some v \<longrightarrow> (\<exists>i. bmap_get m i = Some k)) \<and>
     (\<forall>oid io. bmap_get (ip_operations p) oid = Some io \<longrightarrow>
        (\<exists>i k v. bmap_get m i = Some k \<and> bmap_get (ip_values p) k = Some v \<and> iv_origin v = ImplOperationOrigin oid)) \<and>
     bmap_ok (ip_operations p) \<and> bmap_ok (ip_values p) \<and> bmap_ok (ip_constants p) \<and>
     ip_constraints p = constraints source \<and>
     list_all2 (\<lambda>x y. fst y = fst x \<and> bmap_get m (snd x) = Some (snd y)) (parameters source) (ip_parameters p) \<and>
     list_all2 (\<lambda>x y. fst y = fst x \<and> bmap_get m (resolve_filled_value source (snd x)) = Some (iout_value (snd y)))
       (outputs source) (ip_outputs p)"

lemma bmap_of_list_ordered: "bmap_ok kvs \<Longrightarrow> bmap_of_list kvs = kvs"
proof (rule bmap_canonical)
  fix k assume "bmap_ok kvs"
  then have "distinct (map fst kvs)" using bmap_ok_distinct by (simp add: bmap_keys_def)
  then have "map_of (rev kvs) k = Some v \<longleftrightarrow> map_of kvs k = Some v" for v
    by (simp add: map_of_eq_Some_iff rev_map [symmetric])
  then have "map_of (rev kvs) k = map_of kvs k" by (metis not_Some_eq)
  then show "bmap_get (bmap_of_list kvs) k = bmap_get kvs k"
    using bmap_get_of_list [of kvs k] by (simp add: bmap_get_def)
qed simp_all

lemma same_keys_ok: "list_all2 (\<lambda>x y. fst y = fst x) m n \<Longrightarrow> bmap_ok m \<Longrightarrow> bmap_ok n"
proof -
  assume "list_all2 (\<lambda>x y. fst y = fst x) m n"
  then have "map fst n = map fst m" by (induction rule: list_all2_induct) auto
  then show "bmap_ok m \<Longrightarrow> bmap_ok n" by (simp add: bmap_ok_def bmap_keys_def)
qed

lemma resolve_lowered:
  "lowered_value source order m p i k \<Longrightarrow> resolve_filled_value source i = i"
  by (auto simp: lowered_value_def resolve_filled_value_def)

theorem identity_lower_lowering:
  assumes wf: "graph_wf a source" and r: "identity_lower source alloc = Inr (p, alloc')"
  shows "\<exists>m. lowering_of source m p"
    and "bmap_ok (ip_parameters p) \<and> bmap_ok (ip_outputs p)"
proof -
  from r obtain order lw ps outs where o: "source_operation_order source = Inr order"
      "rfold (lower_operation source) (lowering_start source alloc) order = Inr lw"
      "traverse (lower_parameter source (lw_values lw)) (parameters source) = Inr ps"
      "traverse (lower_output source (lw_values lw) (lw_program lw)) (outputs source) = Inr outs"
      "p = (lw_program lw)\<lparr>ip_parameters := bmap_of_list ps, ip_outputs := bmap_of_list outs\<rparr>"
    by (auto simp: identity_lower_def rbind_Inr_iff)
  have inv: "lowered source ([] @ order) lw"
    by (rule lower_operations_lowered [OF o(2) graph_wf_linked [OF wf] lowered_start])
       (use source_order_ok(1) [OF o(1)] in simp)
  from wf have ok: "bmap_ok (parameters source)" "bmap_ok (outputs source)"
    by (auto simp: graph_wf_def graph_ids_def)
  let ?m = "lw_values lw"
  have ps: "list_all2 (\<lambda>x y. fst y = fst x \<and> bmap_get ?m (snd x) = Some (snd y)) (parameters source) ps"
  proof -
    have res: "resolve_filled_value source (snd x) = snd x" if "x \<in> set (parameters source)" for x
    proof -
      from that have "bmap_get (parameters source) (fst x) = Some (snd x)" by (intro bmap_mem_get [OF ok(1)]) simp
      with wf show ?thesis unfolding graph_wf_def parameter_values_def resolve_filled_value_def by fastforce
    qed
    show ?thesis
      using o(3) unfolding traverse_Inr_iff
      by (rule list.rel_mono_strong) (auto simp: lower_parameter_def rmap_Inr_iff ok_or_Inr_iff res)
  qed
  have outs: "list_all2 (\<lambda>x y. fst y = fst x \<and> bmap_get ?m (resolve_filled_value source (snd x)) = Some (iout_value (snd y)))
      (outputs source) outs"
    using o(4) unfolding traverse_Inr_iff
    by (rule list.rel_mono_strong) (auto simp: lower_output_def rbind_Inr_iff ok_or_Inr_iff)
  have "bmap_ok ps" "bmap_ok outs"
    using same_keys_ok [OF list_all2_mono [OF ps] ok(1)] same_keys_ok [OF list_all2_mono [OF outs] ok(2)] by blast+
  note tables = this this [THEN bmap_of_list_ordered]
  have fields: "ip_parameters p = ps" "ip_outputs p = outs" "ip_values p = ip_values (lw_program lw)"
      "ip_operations p = ip_operations (lw_program lw)" "ip_constants p = ip_constants (lw_program lw)"
      "ip_constraints p = ip_constraints (lw_program lw)"
    using o(5) tables by simp_all
  then have "lowered_value source order ?m p i k \<longleftrightarrow> lowered_value source order ?m (lw_program lw) i k" for i k
    by (simp add: lowered_value_def)
  with inv ps outs fields show "\<exists>m. lowering_of source m p"
    unfolding lowered_def Let_def lowering_of_def append_Nil by (intro exI [of _ ?m]) (simp, blast)
  show "bmap_ok (ip_parameters p) \<and> bmap_ok (ip_outputs p)" using tables fields by simp
qed

subsection \<open>Renamed regions\<close>

lemma convert_renamed:
  "convert_region_value v m = Inr w \<Longrightarrow> (\<And>k x. bmap_get m k = Some x \<Longrightarrow> h k = x) \<Longrightarrow>
   region_value_to_spec w = region_value_map h v"
  by (cases v) (auto simp: convert_region_value_def rmap_Inr_iff ok_or_Inr_iff)

lemma argument_eta: "\<lparr>arg_name = arg_name a, arg_ty = arg_ty a\<rparr> = a"
  by (cases a) simp

lemma region_lowered:
  assumes "lower_region rg m = Inr rg'" and h: "\<And>k x. bmap_get m k = Some x \<Longrightarrow> h k = x"
  shows "region_to_spec rg' = region_map h rg" "\<And>c. c \<in> set (rg_captures rg) \<Longrightarrow> bmap_get m c \<noteq> None"
proof -
  from assms(1) obtain cs ops y where l:
    "traverse (\<lambda>i. ok_or (impl_failure ''identity lowering cannot map capture `{value}`'') (bmap_get m i)) (rg_captures rg) = Inr cs"
    "traverse (lower_region_operation m) (rg_operations rg) = Inr ops"
    "convert_region_value (rg_yield_value rg) m = Inr y"
    "rg' = \<lparr>irg_arguments = map (\<lambda>a. \<lparr>iarg_name = arg_name a, iarg_ty = arg_ty a\<rparr>) (rg_arguments rg),
            irg_captures = cs, irg_operations = ops, irg_yield_value = y, irg_yield_type = rg_yield_type rg\<rparr>"
    by (auto simp: lower_region_def rbind_Inr_iff)
  have cs: "cs = map h (rg_captures rg)"
    using l(1) unfolding traverse_Inr_iff by (induction rule: list_all2_induct) (auto simp: ok_or_Inr_iff h)
  have vals: "map region_value_to_spec ws = map (region_value_map h) vs"
    if "traverse (\<lambda>v. convert_region_value v m) vs = Inr ws" for vs ws
    using that unfolding traverse_Inr_iff
    by (induction rule: list_all2_induct) (auto simp: convert_renamed [OF _ h])
  have "region_operation_to_spec op' = op\<lparr>ro_operands := map (region_value_map h) (ro_operands op)\<rparr>"
    if "lower_region_operation m op = Inr op'" for op op'
    using that vals by (auto simp: lower_region_operation_def rmap_Inr_iff region_operation_to_spec_def)
  note step = this
  have ops: "map region_operation_to_spec ops =
      map (\<lambda>op. op\<lparr>ro_operands := map (region_value_map h) (ro_operands op)\<rparr>) (rg_operations rg)"
    using l(2) unfolding traverse_Inr_iff by (induction rule: list_all2_induct) (auto simp: step)
  show "region_to_spec rg' = region_map h rg"
    using cs ops convert_renamed [OF l(3), of h] h
    by (cases rg) (simp add: l(4) region_to_spec_def region_map_def comp_def argument_eta)
  show "\<And>c. c \<in> set (rg_captures rg) \<Longrightarrow> bmap_get m c \<noteq> None"
    using traverse_Inr_mem [OF l(1)] by (fastforce simp: ok_or_Inr_iff)
qed

subsection \<open>Preflight\<close>

definition type_elements :: "extents \<Rightarrow> ty \<Rightarrow> nat" where
  "type_elements dims t =
     (case t of Scalar _ \<Rightarrow> 0 | Tensor _ sh \<Rightarrow> (case element_count dims sh of Inr n \<Rightarrow> n | Inl _ \<Rightarrow> 0))"

definition type_within :: "resource_limits \<Rightarrow> extents \<Rightarrow> ty \<Rightarrow> bool" where
  "type_within limits dims t \<longleftrightarrow>
     (case t of Scalar _ \<Rightarrow> True
      | Tensor _ sh \<Rightarrow> \<exists>n. element_count dims sh = Inr n \<and> n \<le> limit limits EvaluationTensorElements)"

lemma preflight_value_iff:
  "preflight_value limits dims m d = Inr t \<longleftrightarrow>
     type_within limits dims (v_ty d) \<and>
     t = (case v_ty d of Scalar _ \<Rightarrow> m | Tensor _ _ \<Rightarrow> min (m + type_elements dims (v_ty d)) u64_max)"
  by (cases "v_ty d") (auto simp: preflight_value_def type_within_def type_elements_def rbind_Inr_iff against_def
      ensure_def u64_saturating_add_def)

lemma preflight_values_iff:
  "m \<le> u64_max \<Longrightarrow> rfold (preflight_value limits dims) m ds = Inr t \<longleftrightarrow>
     (\<forall>d\<in>set ds. type_within limits dims (v_ty d)) \<and>
     t = min (m + sum_list (map (\<lambda>d. type_elements dims (v_ty d)) ds)) u64_max"
proof (induction ds arbitrary: m)
  case (Cons d ds)
  define m' where "m' = (case v_ty d of Scalar _ \<Rightarrow> m | Tensor _ _ \<Rightarrow> min (m + type_elements dims (v_ty d)) u64_max)"
  have "m' \<le> u64_max" "m' = min (m + type_elements dims (v_ty d)) u64_max"
    using Cons.prems by (cases "v_ty d"; simp add: m'_def type_elements_def)+
  with Cons.IH [OF this(1)] show ?case by (auto simp: rbind_Inr_iff preflight_value_iff simp flip: m'_def)
qed auto

lemma bmap_sum:
  assumes "bmap_ok m"
  shows "sum_list (map f (bmap_values m)) = (\<Sum>k\<in>set (bmap_keys m). f (the (bmap_get m k)))"
proof -
  have "map f (bmap_values m) = map (\<lambda>k. f (the (bmap_get m k))) (bmap_keys m)"
    using bmap_mem_get [OF assms] by (auto simp: bmap_values_def bmap_keys_def)
  then show ?thesis using sum_list_distinct_conv_sum_set [OF bmap_ok_distinct [OF assms]] by simp
qed

lemma preflight_lowered:
  assumes l: "lowering_of source m p" and ok: "bmap_ok (vals source)"
    and r: "preflight_evaluation source dims limits = Inr u"
  shows "preflight_evaluation (impl_as_program p) dims limits = Inr ()"
proof -
  let ?P = "impl_as_program p" and ?w = "\<lambda>d. type_elements dims (v_ty d)"
  from r obtain n where n: "rfold (preflight_value limits dims) 0 (bmap_values (vals source)) = Inr n"
      "n \<le> limit limits TotalEvaluationElements" "\<exists>us. traverse (preflight_constraint dims) (constraints source) = Inr us"
    by (auto simp: preflight_evaluation_def rbind_Inr_iff against_def)
  have okP: "bmap_ok (vals ?P)" using l by (simp add: lowering_of_def impl_as_program_def Let_def)
  have from_source: "\<exists>i def. bmap_get m i = Some k \<and> bmap_get (vals source) i = Some def \<and> v_ty def = v_ty d"
    if "bmap_get (vals ?P) k = Some d" for k d
  proof -
    from that obtain v where v: "bmap_get (ip_values p) k = Some v" "d = value_to_spec k v" by (auto simp: vals_impl)
    with l obtain i order where "bmap_get m i = Some k" "lowered_value source order m p i k"
      unfolding lowering_of_def by blast
    with v show ?thesis by (auto simp: lowered_value_def)
  qed
  from n(1) have within: "\<forall>d\<in>set (bmap_values (vals source)). type_within limits dims (v_ty d)"
    and tot: "n = min (sum_list (map ?w (bmap_values (vals source)))) u64_max"
    by (auto simp: preflight_values_iff)
  have "\<forall>d\<in>set (bmap_values (vals ?P)). type_within limits dims (v_ty d)"
  proof
    fix d assume "d \<in> set (bmap_values (vals ?P))"
    then obtain k where "bmap_get (vals ?P) k = Some d" by (auto simp: bmap_values_set [OF okP])
    from from_source [OF this] obtain i def where "bmap_get (vals source) i = Some def" "v_ty def = v_ty d" by blast
    with within show "type_within limits dims (v_ty d)" by (metis bmap_values_set [OF ok])
  qed
  moreover have "sum_list (map ?w (bmap_values (vals ?P))) \<le> sum_list (map ?w (bmap_values (vals source)))"
    unfolding bmap_sum [OF okP] bmap_sum [OF ok]
  proof (rule sum_le_included [where i = "\<lambda>i. the (bmap_get m i)"])
    show "\<forall>k\<in>set (bmap_keys (vals ?P)). \<exists>i\<in>set (bmap_keys (vals source)). the (bmap_get m i) = k \<and>
        ?w (the (bmap_get (vals ?P) k)) \<le> ?w (the (bmap_get (vals source) i))"
    proof
      fix k assume "k \<in> set (bmap_keys (vals ?P))"
      then obtain d where d: "bmap_get (vals ?P) k = Some d" by (auto simp: bmap_keys_set bmap_contains_def)
      from from_source [OF this] obtain i def where "bmap_get m i = Some k" "bmap_get (vals source) i = Some def"
          "v_ty def = v_ty d" by blast
      with d show "\<exists>i\<in>set (bmap_keys (vals source)). the (bmap_get m i) = k \<and>
        ?w (the (bmap_get (vals ?P) k)) \<le> ?w (the (bmap_get (vals source) i))"
        by (intro bexI [of _ i]) (auto simp: bmap_keys_set bmap_contains_def)
    qed
  qed simp_all
  ultimately have "rfold (preflight_value limits dims) 0 (bmap_values (vals ?P)) =
      Inr (min (sum_list (map ?w (bmap_values (vals ?P)))) u64_max)"
    and "min (sum_list (map ?w (bmap_values (vals ?P)))) u64_max \<le> n"
    by (auto simp: preflight_values_iff tot)
  with n(2,3) l show ?thesis by (auto simp: preflight_evaluation_def against_def lowering_of_def)
qed

subsection \<open>Inputs\<close>

lemma bound_lowered:
  assumes l: "lowering_of source m p"
  shows "rfold (bind_parameter source inputs limits) (P, D) xs = Inr (P', D') \<Longrightarrow>
    list_all2 (\<lambda>x y. fst y = fst x \<and> bmap_get m (snd x) = Some (snd y)) xs ys \<Longrightarrow>
    (\<And>i k. bmap_get m i = Some k \<Longrightarrow> bmap_get Q k = bmap_get P i) \<Longrightarrow>
    \<exists>Q'. rfold (bind_parameter (impl_as_program p) inputs limits) (Q, D) ys = Inr (Q', D') \<and>
      (\<forall>i k. bmap_get m i = Some k \<longrightarrow> bmap_get Q' k = bmap_get P' i)"
proof (induction xs arbitrary: ys P D Q)
  case (Cons x xs)
  from Cons.prems(2) obtain y ys' where y: "ys = y # ys'" "fst y = fst x" "bmap_get m (snd x) = Some (snd y)"
      "list_all2 (\<lambda>x y. fst y = fst x \<and> bmap_get m (snd x) = Some (snd y)) xs ys'"
    by (auto simp: list_all2_Cons1)
  from Cons.prems(1) obtain st where st: "bind_parameter source inputs limits (P, D) x = Inr st"
      "rfold (bind_parameter source inputs limits) st xs = Inr (P', D')" by (auto simp: rbind_Inr_iff)
  from st(1) obtain def j u D1 where "bmap_get (vals source) (snd x) = Some def"
      "bmap_get inputs (fst x) = Some j" "parse_input (v_ty def) j D limits = Inr (u, D1)"
      "st = (bmap_insert (snd x) u P, D1)"
    by (auto simp: bind_parameter_def rbind_Inr_iff ok_or_Inr_iff)
  note b = this(1-3) st(2) [unfolded this(4)]
  from l y(3) obtain order where "lowered_value source order m p (snd x) (snd y)" unfolding lowering_of_def by blast
  with b(1) obtain v where v: "bmap_get (ip_values p) (snd y) = Some v" "iv_ty v = v_ty def"
    by (auto simp: lowered_value_def)
  have "\<And>i k. bmap_get m i = Some k \<Longrightarrow> bmap_get (bmap_insert (snd y) u Q) k = bmap_get (bmap_insert (snd x) u P) i"
    using Cons.prems(3) y(3) l unfolding lowering_of_def by (auto split: if_split) 
  from Cons.IH [OF b(4) y(4) this] b(2,3) v y(1,2) show ?case
    by (simp add: bind_parameter_def vals_impl)
qed simp

lemma prepare_lowered:
  assumes l: "lowering_of source m p" and ok: "bmap_ok (vals source)"
    and r: "prepare_evaluator source inputs limits = Inr (params, dims)"
  shows "\<exists>params'. prepare_evaluator (impl_as_program p) inputs limits = Inr (params', dims) \<and>
    (\<forall>i k. bmap_get m i = Some k \<longrightarrow> bmap_get params' k = bmap_get params i)"
proof -
  from r obtain u where t: "bmap_keys (parameters source) = bmap_keys inputs"
      "rfold (bind_parameter source inputs limits) ([], []) (parameters source) = Inr (params, dims)"
      "preflight_evaluation source dims limits = Inr u"
    by (auto simp: prepare_evaluator_def rbind_Inr_iff split: if_split_asm)
  from l have ps: "list_all2 (\<lambda>x y. fst y = fst x \<and> bmap_get m (snd x) = Some (snd y)) (parameters source) (ip_parameters p)"
    by (simp add: lowering_of_def)
  then have "bmap_keys (ip_parameters p) = bmap_keys (parameters source)"
    unfolding bmap_keys_def by (induction rule: list_all2_induct) auto
  moreover from bound_lowered [OF l t(2) ps, of "[]"] obtain Q where
    "rfold (bind_parameter (impl_as_program p) inputs limits) ([], []) (ip_parameters p) = Inr (Q, dims)"
    "\<forall>i k. bmap_get m i = Some k \<longrightarrow> bmap_get Q k = bmap_get params i" by auto
  ultimately show ?thesis
    using t(1) preflight_lowered [OF l ok t(3)] by (simp add: prepare_evaluator_def bmap_values_def)
qed

subsection \<open>Results\<close>

lemma lowered_alike:
  assumes "lowered_value source order m p i k"
  defines "h \<equiv> \<lambda>j. the (bmap_get m (resolve_filled_value source j))"
  assumes res: "\<And>j x. bmap_get m j = Some x \<Longrightarrow> resolve_filled_value source j = j"
  shows "alike source i (impl_as_program p) k h"
    and "\<And>j. j \<in> value_deps source i \<Longrightarrow> bmap_get m (resolve_filled_value source j) \<noteq> None"
proof -
  from assms(1) obtain def soid sop v oid io where d: "bmap_get (vals source) i = Some def"
      "v_origin def = OperationOrigin soid" "bmap_get (operations source) soid = Some sop"
      "bmap_get (ip_values p) k = Some v" "iv_origin v = ImplOperationOrigin oid" "bmap_get (ip_operations p) oid = Some io"
      "lowered_operation source m sop io" "bmap_get (ip_constants p) k = bmap_get (constants source) i"
    unfolding lowered_value_def by blast
  have h: "bmap_get m j = Some x \<Longrightarrow> h j = x" for j x using res [of j] by (simp add: h_def)
  have "io_operands io = map h (op_operands sop)"
  proof -
    from d(7) have "list_all2 (\<lambda>i k. bmap_get m (resolve_filled_value source i) = Some k) (op_operands sop) (io_operands io)"
      by (simp add: lowered_operation_def)
    then show ?thesis by (induction rule: list_all2_induct) (auto simp: h_def)
  qed
  moreover have "map_option region_to_spec (io_region io) = map_option (region_map h) (op_region sop)"
    using d(7) by (cases "op_region sop") (auto simp: lowered_operation_def dest: region_lowered(1) [where h = h] intro: h)
  ultimately have "acts_as (operation_map h sop) (operation_to_spec oid io)"
    using d(7) by (simp add: acts_as_def operation_map_def lowered_operation_def)
  with d show "alike source i (impl_as_program p) k h"
    by (auto simp: alike_def vals_impl operations_impl)
  fix j assume "j \<in> value_deps source i"
  with d(1-3) have "j \<in> op_deps sop" by (auto simp: value_deps_def)
  then consider "j \<in> set (op_operands sop)" | rg where "op_region sop = Some rg" "j \<in> set (rg_captures rg)"
    by (auto simp: op_deps_def region_deps_def split: option.split_asm)
  then show "bmap_get m (resolve_filled_value source j) \<noteq> None"
  proof cases
    case 1
    with d(7) show ?thesis by (auto simp: lowered_operation_def list_all2_conv_all_nth in_set_conv_nth)
  next
    case (2 rg)
    with d(7) obtain rg' where "lower_region rg m = Inr rg'" by (auto simp: lowered_operation_def)
    from region_lowered(2) [OF this, of h j] 2 h res show ?thesis by auto
  qed
qed

theorem lowering_evaluates:
  assumes l: "lowering_of source m p" and ok: "bmap_ok (vals source)"
    and r: "evaluate_with_limits source inputs limits = Inr r"
  shows "evaluate_with_limits (impl_as_program p) inputs limits = Inr r"
proof -
  let ?P = "impl_as_program p"
  from r obtain params qs where e: "prepare_evaluator source inputs limits = Inr (params, result_dimensions r)"
      "list_all2 (output_denotes source params) (outputs source) qs"
      "r = \<lparr>result_outputs = bmap_of_list qs, result_dimensions = result_dimensions r\<rparr>"
    by (auto simp: evaluate_with_limits_iff)
  from prepare_lowered [OF l ok e(1)] obtain params' where
    prep: "prepare_evaluator ?P inputs limits = Inr (params', result_dimensions r)" and
    par: "\<And>i k. bmap_get m i = Some k \<Longrightarrow> bmap_get params' k = bmap_get params i" by blast
  define h where "h = (\<lambda>j. the (bmap_get m (resolve_filled_value source j)))"
  define D where "D = (\<lambda>i. bmap_get m i \<noteq> None)"
  have lv: "\<exists>order. lowered_value source order m p i k" if "bmap_get m i = Some k" for i k
    using that l unfolding lowering_of_def by blast
  then have res: "bmap_get m j = Some x \<Longrightarrow> resolve_filled_value source j = j" for j x using resolve_lowered by blast
  have transfer: "denotes ?P params' (h i) v" if "denotes source params i v" "D i" for i v
  proof (rule denotes_transfer [where D = D and p = source and params = params, OF _ that])
    fix f i v
    assume D: "D i" and s: "one_step source params f i v"
      and ih: "\<And>j w. f j () = Inr (w, ()) \<Longrightarrow> D (resolve_filled_value source j) \<Longrightarrow>
         denotes ?P params' (h (resolve_filled_value source j)) w"
    from D obtain k where k: "bmap_get m i = Some k" by (auto simp: D_def)
    from lv [OF this] obtain order where lo: "lowered_value source order m p i k" by blast
    have hi: "h i = k" using k res [OF k] by (simp add: h_def)
    show "denotes ?P params' (h i) v"
      unfolding hi
    proof (rule alike_transfer [OF s _ par [OF k]])
      show "alike source i ?P k h" unfolding h_def by (rule lowered_alike(1) [OF lo res])
      fix j w assume j: "j \<in> value_deps source i" "f j () = Inr (w, ())"
      from lowered_alike(2) [OF lo res j(1)] have "D (resolve_filled_value source j)" by (simp add: D_def)
      with ih [OF j(2)] res show "denotes ?P params' (resolve_filled_value ?P (h j)) w"
        by (auto simp: h_def D_def)
    qed
  qed
  from l have outs: "list_all2 (\<lambda>x y. fst y = fst x \<and> bmap_get m (resolve_filled_value source (snd x)) = Some (iout_value (snd y)))
       (outputs source) (ip_outputs p)" by (simp add: lowering_of_def)
  note lens = list_all2_lengthD [OF outs] list_all2_lengthD [OF e(2)]
  have "list_all2 (output_denotes ?P params') (outputs ?P) qs"
    unfolding list_all2_conv_all_nth
  proof (intro conjI allI impI)
    show "length (outputs ?P) = length qs" using lens by (simp add: bmap_map_def)
    fix n assume "n < length (outputs ?P)"
    then have n: "n < length (outputs source)" "n < length (ip_outputs p)" using lens by (simp_all add: bmap_map_def)
    from list_all2_nthD [OF e(2) n(1)] obtain v where v: "fst (qs ! n) = fst (outputs source ! n)"
        "denotes source params (resolve_filled_value source (snd (outputs source ! n))) v"
        "runtime_json v = Inr (snd (qs ! n))"
      by (auto simp: output_denotes_def)
    from list_all2_nthD [OF outs n(1)] have o: "fst (ip_outputs p ! n) = fst (outputs source ! n)"
        "bmap_get m (resolve_filled_value source (snd (outputs source ! n))) = Some (iout_value (snd (ip_outputs p ! n)))"
      by simp_all
    from transfer [OF v(2)] o(2) res [OF o(2)] have "denotes ?P params' (iout_value (snd (ip_outputs p ! n))) v"
      by (simp add: D_def h_def)
    with v o(1) n(2) show "output_denotes ?P params' (outputs ?P ! n) (qs ! n)"
      by (cases "ip_outputs p ! n") (auto simp: output_denotes_def bmap_map_def)
  qed
  with prep e(3) show ?thesis
    by (auto simp: evaluate_with_limits_iff)
qed

subsection \<open>Well-formedness\<close>

lemma resolved_kind:
  assumes t: "graph_typed v source" and i: "bmap_get (vals source) i = Some def"
    and j: "bmap_get (vals source) (resolve_filled_value source i) = Some def'"
  shows "element_type (v_ty def') = element_type (v_ty def)"
proof (cases "v_origin def")
  case (HoleOrigin k)
  show ?thesis
  proof (cases "Option.bind (bmap_get (holes source) k) filled_with")
    case (Some w)
    then obtain hole where "bmap_get (holes source) k = Some hole" "filled_with hole = Some w"
      by (auto simp: bind_eq_Some_conv)
    moreover from t i have "value_ok v source i def" by (simp add: graph_typed_def)
    ultimately have "declared_dty v source w = Some (eval_type v (v_ty def))"
      using HoleOrigin by (simp add: value_ok_def)
    moreover have "resolve_filled_value source i = w" using i HoleOrigin Some by (simp add: resolve_filled_value_def)
    ultimately have "eval_type v (v_ty def') = eval_type v (v_ty def)" using j by (auto simp: declared_dty_def)
    then show ?thesis by (cases "v_ty def'"; cases "v_ty def") auto
  qed (use i j HoleOrigin in \<open>simp add: resolve_filled_value_def\<close>)
qed (use i j in \<open>simp add: resolve_filled_value_def\<close>)

lemma lowered_region_fits:
  assumes t: "graph_typed v source" and fit: "region_fitted source sop" and l: "lowered_operation source m sop io"
    and m: "\<And>i k. bmap_get m i = Some k \<Longrightarrow> \<exists>order. lowered_value source order m p i k"
  shows "region_fits p io"
proof (cases "op_region sop")
  case (Some rg)
  with l obtain rg' where rg': "lower_region rg m = Inr rg'" "io_region io = Some rg'"
    by (auto simp: lowered_operation_def)
  from rg'(1) obtain cs ops y where y: "convert_region_value (rg_yield_value rg) m = Inr y"
      "traverse (\<lambda>i. ok_or (impl_failure ''identity lowering cannot map capture `{value}`'') (bmap_get m i)) (rg_captures rg) = Inr cs"
      "rg' = \<lparr>irg_arguments = map (\<lambda>a. \<lparr>iarg_name = arg_name a, iarg_ty = arg_ty a\<rparr>) (rg_arguments rg),
            irg_captures = cs, irg_operations = ops, irg_yield_value = y, irg_yield_type = rg_yield_type rg\<rparr>"
    by (auto simp: lower_region_def rbind_Inr_iff)
  have "list_all2 (\<lambda>i a. \<forall>v. bmap_get (ip_values p) i = Some v \<longrightarrow> iarg_ty a = Scalar (element_type (iv_ty v)))
            (io_operands io) (irg_arguments rg')"
    unfolding list_all2_conv_all_nth
  proof (intro conjI allI impI)
    from l have os: "list_all2 (\<lambda>i k. bmap_get m (resolve_filled_value source i) = Some k) (op_operands sop) (io_operands io)"
      by (simp add: lowered_operation_def)
    from fit Some have as: "list_all2 (\<lambda>i a. \<exists>def. bmap_get (vals source) i = Some def \<and>
        arg_ty a = Scalar (element_type (v_ty def))) (op_operands sop) (rg_arguments rg)"
      by (simp add: region_fitted_def)
    show "length (io_operands io) = length (irg_arguments rg')"
      using list_all2_lengthD [OF os] list_all2_lengthD [OF as] y(3) by simp
    fix n w assume n: "n < length (io_operands io)" and w: "bmap_get (ip_values p) (io_operands io ! n) = Some w"
    from n list_all2_lengthD [OF os] have n': "n < length (op_operands sop)" by simp
    from list_all2_nthD [OF as n'] obtain def where def: "bmap_get (vals source) (op_operands sop ! n) = Some def"
        "arg_ty (rg_arguments rg ! n) = Scalar (element_type (v_ty def))" by blast
    from m [OF list_all2_nthD [OF os n']] w obtain def' where
      "bmap_get (vals source) (resolve_filled_value source (op_operands sop ! n)) = Some def'" "iv_ty w = v_ty def'"
      by (auto simp: lowered_value_def)
    with resolved_kind [OF t def(1)] def(2) y(3) n n' list_all2_lengthD [OF as]
    show "iarg_ty (irg_arguments rg' ! n) = Scalar (element_type (iv_ty w))" by simp
  qed
  moreover have "case irg_yield_value rg' of ImplCapture i \<Rightarrow> i \<in> set (irg_captures rg') | _ \<Rightarrow> True"
  proof (cases "rg_yield_value rg")
    case (Capture c)
    with fit Some have "c \<in> set (rg_captures rg)" by (simp add: region_fitted_def)
    then obtain n where n: "n < length (rg_captures rg)" "rg_captures rg ! n = c" by (auto simp: in_set_conv_nth)
    from traverse_nth [OF y(2) n(1)] n(2) have "bmap_get m c = Some (cs ! n)" by (simp add: ok_or_Inr_iff)
    with y(1,3) Capture traverse_length [OF y(2)] n(1) show ?thesis
      by (auto simp: convert_region_value_def rmap_Inr_iff ok_or_Inr_iff)
  qed (use y(1,3) in \<open>auto simp: convert_region_value_def\<close>)
  ultimately show ?thesis using rg'(2) by (simp add: region_fits_def)
qed (use l in \<open>simp add: region_fits_def lowered_operation_def\<close>)

theorem identity_lower_wf:
  assumes wf: "graph_wf a source" and t: "graph_typed v source" and r: "identity_lower source alloc = Inr (p, alloc')"
  shows "impl_wf p"
proof -
  from identity_lower_lowering [OF wf r] obtain m where l: "lowering_of source m p"
    and tables: "bmap_ok (ip_parameters p)" "bmap_ok (ip_outputs p)" by blast
  note linked = graph_wf_linked [OF wf]
  have lv: "\<exists>order. lowered_value source order m p i k" if "bmap_get m i = Some k" for i k
    using that l unfolding lowering_of_def by blast
  have lowered_from: "\<exists>i order. bmap_get m i = Some k \<and> lowered_value source order m p i k" if "bmap_get (ip_values p) k = Some w" for k w
    using that l unfolding lowering_of_def by blast
  have "io_opcode op = Constant"
    if "(k, c) \<in> set (ip_constants p)" "bmap_get (ip_values p) k = Some w" "iv_origin w = ImplOperationOrigin oid"
      "bmap_get (ip_operations p) oid = Some op" for k c w oid op
  proof -
    from that(1) l have c: "bmap_get (ip_constants p) k = Some c" by (auto simp: lowering_of_def intro: bmap_mem_get)
    from lowered_from [OF that(2)] obtain i order where "lowered_value source order m p i k" by blast
    then obtain def soid sop o' w' io where s: "bmap_get (vals source) i = Some def" "v_origin def = OperationOrigin soid"
        "bmap_get (operations source) soid = Some sop" "bmap_get (ip_values p) k = Some w'"
        "iv_origin w' = ImplOperationOrigin o'" "bmap_get (ip_operations p) o' = Some io"
        "lowered_operation source m sop io" "bmap_get (ip_constants p) k = bmap_get (constants source) i"
      unfolding lowered_value_def by blast
    then have "io = op" using that(2-4) by simp
    with s c have "bmap_get (vals source) i = Some def" "v_origin def = OperationOrigin soid"
      "bmap_get (operations source) soid = Some sop" "lowered_operation source m sop op" "bmap_get (constants source) i = Some c"
      by simp_all
    note s' = this
    from linked s'(5) obtain def' o2 sop' where "bmap_get (vals source) i = Some def'" "v_origin def' = OperationOrigin o2"
        "bmap_get (operations source) o2 = Some sop'" "op_opcode sop' = Constant"
      unfolding linked_def by blast
    with s'(1-3) have "op_opcode sop = Constant" by simp
    with s'(4) show ?thesis by (simp add: lowered_operation_def)
  qed
  moreover have "region_fits p op" if op: "bmap_get (ip_operations p) oid = Some op" for oid op
  proof -
    from op l obtain i k w where k: "bmap_get m i = Some k" "bmap_get (ip_values p) k = Some w"
        "iv_origin w = ImplOperationOrigin oid" unfolding lowering_of_def by blast
    from lv [OF k(1)] k(2,3) op obtain soid sop where s: "bmap_get (operations source) soid = Some sop"
        "lowered_operation source m sop op"
      by (auto simp: lowered_value_def)
    from linked s(1) have "region_fitted source sop" by (auto simp: linked_def)
    from lowered_region_fits [OF t this s(2) lv] show ?thesis .
  qed
  moreover have "tables_ok p" using l tables by (simp add: tables_ok_def lowering_of_def)
  ultimately show ?thesis
    unfolding impl_wf_iff literals_constant_def regions_fit_def by (blast intro: bmap_get_mem)
qed

theorem identity_lower_evaluates:
  assumes "graph_wf a source" "identity_lower source alloc = Inr (p, alloc')"
    and "evaluate_with_limits source inputs limits = Inr r"
  shows "evaluate_with_limits (impl_as_program p) inputs limits = Inr r"
proof -
  from identity_lower_lowering(1) [OF assms(1,2)] obtain m where "lowering_of source m p" ..
  moreover have "bmap_ok (vals source)" using graph_wf_linked [OF assms(1)] by (simp add: linked_def)
  ultimately show ?thesis using assms(3) by (rule lowering_evaluates)
qed

end
