(* ===== verification/Candidate_Proofs.thy ===== *)
theory Candidate_Proofs
  imports Candidate_Forest Lowering_Results
begin

text \<open>
  Candidates without speculation are exact: the program of every revision that carries no proof
  debt evaluates like the frozen specification it was created from. Each operation of the forest
  adds one revision, and that revision is a lowering, a copy, or the result of trusted rewrites.
\<close>

subsection \<open>Exact implementations\<close>

definition sound_source :: "program \<Rightarrow> bool" where
  "sound_source source \<longleftrightarrow> (\<exists>a v. graph_wf a source \<and> graph_typed v source)"

definition refines :: "program \<Rightarrow> impl_program \<Rightarrow> bool" where
  "refines source p \<longleftrightarrow>
     (\<forall>inputs limits r. evaluate_with_limits source inputs limits = Inr r \<longrightarrow>
        evaluate_with_limits (impl_as_program p) inputs limits = Inr r)"

definition exact :: "program \<Rightarrow> impl_program \<Rightarrow> bool" where
  "exact source p \<longleftrightarrow> (sound_source source \<longrightarrow> impl_wf p \<and> refines source p)"

lemma exact_lowered:
  assumes "identity_lower source alloc = Inr (p, alloc')"
  shows "exact source p"
  unfolding exact_def sound_source_def refines_def
  using assms identity_lower_wf identity_lower_evaluates by blast

lemma refines_trans: "refines source p \<Longrightarrow> preserves p q \<Longrightarrow> refines source q"
  by (simp add: refines_def preserves_def)

interpretation spec_rewriting: sound_rewriting accepted_impl impl_wf rewrites_to refines
proof unfold_locales
  fix p q source
  assume p: "accepted_impl p" "impl_wf p" "rewrites_to p q"
  then show "impl_wf q" by (rule impl_rewriting.keeps_form)
  have "preserves p p" by (simp add: preserves_def)
  with impl_rewriting.keeps_meaning [OF p] show "refines source q" if "refines source p"
    using that refines_trans by blast
qed

lemma exact_rewritten:
  assumes "exact source p" "verify_impl p checked limits = Inr ()" "apply_known_rewrite p rule target = Inr (q, side)"
  shows "exact source q"
proof -
  have "accepted_impl p" "rewrites_to p q" using assms(2,3) by (auto simp: accepted_impl_def rewrites_to_def)
  from spec_rewriting.rewrite_step [OF assms(1) [unfolded exact_def] this] show ?thesis unfolding exact_def .
qed

subsection \<open>Forests of exact candidates\<close>

definition revision_exact :: "(string \<Rightarrow> program option) \<Rightarrow> candidate \<Rightarrow> candidate_revision \<Rightarrow> bool" where
  "revision_exact spec c r \<longleftrightarrow>
     (cr_proof_debt r = [] \<longrightarrow> (\<exists>s. spec (cd_spec_revision c) = Some s \<and> exact s (cr_program r)))"

definition candidate_exact :: "(string \<Rightarrow> program option) \<Rightarrow> candidate \<Rightarrow> bool" where
  "candidate_exact spec c \<longleftrightarrow> (\<forall>rid r. bmap_get (cd_revisions c) rid = Some r \<longrightarrow> revision_exact spec c r)"

definition forest_exact :: "(string \<Rightarrow> program option) \<Rightarrow> candidate_forest \<Rightarrow> bool" where
  "forest_exact spec forest \<longleftrightarrow>
     (\<forall>cid c. bmap_get (fo_candidates forest) cid = Some c \<longrightarrow> candidate_exact spec c)"

lemma forest_exact_same: "fo_candidates f = fo_candidates g \<Longrightarrow> forest_exact spec f \<longleftrightarrow> forest_exact spec g"
  by (simp add: forest_exact_def)

lemma candidate_exact_insert:
  assumes "candidate_exact spec c" "revision_exact spec c r"
  shows "candidate_exact spec (c\<lparr>cd_revisions := bmap_insert rid r (cd_revisions c), cd_head := rid\<rparr>)"
  using assms by (auto simp: candidate_exact_def revision_exact_def)

lemma forest_exact_insert:
  "forest_exact spec f \<Longrightarrow> candidate_exact spec c \<Longrightarrow>
   forest_exact spec (f\<lparr>fo_candidates := bmap_insert cid c (fo_candidates f)\<rparr>)"
  by (auto simp: forest_exact_def)

lemma get_revision_exact:
  assumes "forest_exact spec f" "get_candidate_revision f cid rid = Inr (c, r)"
  shows "bmap_get (fo_candidates f) cid = Some c" "candidate_exact spec c" "revision_exact spec c r"
  using assms by (auto simp: get_candidate_revision_def get_candidate_def rbind_Inr_iff rmap_Inr_iff ok_or_Inr_iff
      forest_exact_def candidate_exact_def)

lemma publish_Inr: "publish enc staged cid rid source limits = Inr (f, rep) \<Longrightarrow> f = staged"
  by (auto simp: publish_def rbind_Inr_iff rmap_Inr_iff)

lemma publish_head_exact:
  assumes r: "publish_head enc staged cid next semantics event source limits = Inr (f, rep)"
    and f: "forest_exact spec staged"
    and next_exact: "\<And>c. bmap_get (fo_candidates staged) cid = Some c \<Longrightarrow> revision_exact spec c next"
  shows "forest_exact spec f"
proof -
  from r obtain c h where c: "bmap_get (fo_candidates staged) cid = Some c" and
    p: "publish enc (push_event semantics (event h) (staged\<lparr>fo_candidates := bmap_insert cid
          (c\<lparr>cd_revisions := bmap_insert (cr_id next) (next\<lparr>cr_candidate_hash := h\<rparr>) (cd_revisions c), cd_head := cr_id next\<rparr>)
          (fo_candidates staged)\<rparr>)) cid (cr_id next) source limits = Inr (f, rep)"
    by (auto simp: publish_head_def rbind_Inr_iff ok_or_Inr_iff Let_def)
  have "candidate_exact spec c" using f c by (simp add: forest_exact_def)
  moreover have "revision_exact spec c (next\<lparr>cr_candidate_hash := h\<rparr>)"
    using next_exact [OF c] by (simp add: revision_exact_def)
  ultimately have "forest_exact spec (staged\<lparr>fo_candidates := bmap_insert cid
      (c\<lparr>cd_revisions := bmap_insert (cr_id next) (next\<lparr>cr_candidate_hash := h\<rparr>) (cd_revisions c), cd_head := cr_id next\<rparr>)
      (fo_candidates staged)\<rparr>)"
    by (intro forest_exact_insert [OF f] candidate_exact_insert)
  with publish_Inr [OF p] show ?thesis by (simp add: push_event_def forest_exact_def)
qed

lemma put_revision_exact:
  "forest_exact spec f \<Longrightarrow> candidate_exact spec c \<Longrightarrow> revision_exact spec c r \<Longrightarrow> forest_exact spec (put_revision f c r)"
  unfolding put_revision_def by (intro forest_exact_insert candidate_exact_insert)

lemma forest_exact_simps [simp]:
  "forest_exact spec (push_event n e f) \<longleftrightarrow> forest_exact spec f"
  "forest_exact spec (add_evidence ev f) \<longleftrightarrow> forest_exact spec f"
  "forest_exact spec (f\<lparr>fo_allocator := a\<rparr>) \<longleftrightarrow> forest_exact spec f"
  "forest_exact spec (f\<lparr>fo_allocator := a, fo_proposals := ps\<rparr>) \<longleftrightarrow> forest_exact spec f"
  by (simp_all add: push_event_def add_evidence_def forest_exact_def)

subsection \<open>Every operation keeps them exact\<close>

lemma create_candidate_exact:
  assumes r: "create_candidate enc f srev shash source rel limits = Inr (f', rep)" and f: "forest_exact spec f"
    and src: "spec srev = Some source"
  shows "forest_exact spec f'"
proof -
  obtain a1 cid where a1: "alloc_candidate (fo_allocator f) = (a1, cid)" by fastforce
  obtain a2 rid where a2: "alloc_candidate_revision a1 = (a2, rid)" by fastforce
  obtain a3 obid where a3: "alloc_candidate_obligation a2 = (a3, obid)" by fastforce
  obtain a4 eid where a4: "alloc_evidence a3 = (a4, eid)" by fastforce
  show ?thesis
    using r a1 a2 a3 a4 f src
    by (auto simp: create_candidate_def rbind_Inr_iff Let_def candidate_exact_def revision_exact_def
        split: if_split_asm dest!: publish_Inr intro!: put_revision_exact)
      (erule exact_lowered)
qed

lemma add_evidence_candidates [simp]: "fo_candidates (add_evidence ev f) = fo_candidates f"
  by (simp add: add_evidence_def)

lemma apply_candidate_action_keeps:
  assumes "apply_candidate_action enc c source limits st act = Inr st'"
  shows "fo_candidates (fst st') = fo_candidates (fst st) \<and> cr_proof_debt (snd st') = cr_proof_debt (snd st)"
proof -
  obtain rule target expected where act: "act = ApplyKnownRewrite rule target expected" by (cases act)
  obtain staged "next" where st: "st = (staged, next)" by fastforce
  obtain a eid where a: "alloc_evidence (fo_allocator staged) = (a, eid)" by fastforce
  from assms act st a show ?thesis
    by (auto simp: apply_candidate_action_def rbind_Inr_iff Let_def split: if_split_asm)
qed

lemma apply_actions_keep:
  "rfold (apply_candidate_action enc c source limits) st acts = Inr st' \<Longrightarrow>
   fo_candidates (fst st') = fo_candidates (fst st) \<and> cr_proof_debt (snd st') = cr_proof_debt (snd st)"
  by (induction acts arbitrary: st) (fastforce simp: rbind_Inr_iff dest: apply_candidate_action_keeps)+

lemma apply_candidate_action_exact:
  assumes r: "apply_candidate_action enc c source limits (staged, next) act = Inr (staged', next')"
    and e: "exact spec (cr_program next)" "verify_impl (cr_program next) source limits = Inr ()"
  shows "fo_candidates staged' = fo_candidates staged" "cr_proof_debt next' = cr_proof_debt next"
    "exact spec (cr_program next')" "verify_impl (cr_program next') source limits = Inr ()"
proof -
  obtain rule target expected where act: "act = ApplyKnownRewrite rule target expected" by (cases act)
  obtain a eid where a: "alloc_evidence (fo_allocator staged) = (a, eid)" by fastforce
  from r act a obtain q side where q: "apply_known_rewrite (cr_program next) rule target = Inr (q, side)"
      "verify_impl q source limits = Inr ()"
    and s: "fo_candidates staged' = fo_candidates staged" "cr_proof_debt next' = cr_proof_debt next" "cr_program next' = q"
    by (auto simp: apply_candidate_action_def rbind_Inr_iff Let_def split: if_split_asm)
  show "fo_candidates staged' = fo_candidates staged" "cr_proof_debt next' = cr_proof_debt next" by (rule s)+
  show "exact spec (cr_program next')" "verify_impl (cr_program next') source limits = Inr ()"
    using exact_rewritten [OF e q(1)] q(2) s(3) by simp_all
qed

lemma verified_revision_impl:
  "verify_candidate_revision enc f c r source shash limits = Inr u \<Longrightarrow> verify_impl (cr_program r) source limits = Inr ()"
  by (auto simp: verify_candidate_revision_def rbind_Inr_iff split: if_split_asm)

lemma apply_actions_exact:
  "rfold (apply_candidate_action enc c source limits) (staged, next) acts = Inr (staged', next') \<Longrightarrow>
   exact spec (cr_program next) \<Longrightarrow> verify_impl (cr_program next) source limits = Inr () \<Longrightarrow>
   fo_candidates staged' = fo_candidates staged \<and> cr_proof_debt next' = cr_proof_debt next \<and>
   exact spec (cr_program next')"
proof (induction acts arbitrary: staged "next")
  case (Cons act acts)
  from Cons.prems(1) obtain s1 n1 where one: "apply_candidate_action enc c source limits (staged, next) act = Inr (s1, n1)"
      "rfold (apply_candidate_action enc c source limits) (s1, n1) acts = Inr (staged', next')"
    by (auto simp: rbind_Inr_iff)
  note step = apply_candidate_action_exact [OF one(1) Cons.prems(2,3)]
  from Cons.IH [OF one(2) step(3,4)] step(1,2) show ?case by simp
qed simp

lemma child_revision_simps [simp]:
  "cr_program (child_revision base rid b) = cr_program base"
  "cr_proof_debt (child_revision base rid b) = cr_proof_debt base"
  by (simp_all add: child_revision_def)

lemma apply_candidate_exact:
  assumes r: "apply_candidate enc f tx source shash limits = Inr (f', rep)" and f: "forest_exact spec f"
  shows "forest_exact spec f'"
proof -
  obtain a1 rid where a1: "alloc_candidate_revision (fo_allocator f) = (a1, rid)" by fastforce
  from r obtain c base where b: "get_candidate_revision f (ctx_candidate tx) (ctx_base_revision tx) = Inr (c, base)"
    by (auto simp: apply_candidate_def rbind_Inr_iff split: if_split_asm)
  note base = get_revision_exact [OF f b]
  define next0 where "next0 = (child_revision base rid (ctx_base_revision tx))\<lparr>cr_state := CsEquivalent\<rparr>"
  from r b a1 have ver: "verify_candidate_revision enc f c base source shash limits = Inr ()"
    by (auto simp: apply_candidate_def rbind_Inr_iff split: if_split_asm)
  from r b a1 obtain staged next1 semantics event where
      acts: "rfold (apply_candidate_action enc c source limits) (f\<lparr>fo_allocator := a1\<rparr>, next0) (ctx_actions tx) = Inr (staged, next1)"
      and p: "publish_head enc staged (ctx_candidate tx) (rewritten_revision (ctx_candidate tx) rid next1) semantics event source limits = Inr (f', rep)"
    unfolding next0_def by (auto simp: apply_candidate_def rbind_Inr_iff Let_def split: if_split_asm)
  have n: "cr_program (rewritten_revision (ctx_candidate tx) rid next1) = cr_program next1"
      "cr_proof_debt (rewritten_revision (ctx_candidate tx) rid next1) = cr_proof_debt next1"
    by (simp_all add: rewritten_revision_def Let_def)
  have fields: "cr_program next0 = cr_program base" "cr_proof_debt next0 = cr_proof_debt base" by (simp_all add: next0_def)
  show ?thesis
  proof (cases "cr_proof_debt base = []")
    case True
    with base(3) obtain prog where prog: "spec (cd_spec_revision c) = Some prog" "exact prog (cr_program base)"
      by (auto simp: revision_exact_def)
    from apply_actions_exact [OF acts, unfolded fields, OF this(2) verified_revision_impl [OF ver]]
    have keep: "fo_candidates staged = fo_candidates f" "exact prog (cr_program next1)" by simp_all
    show ?thesis
    proof (rule publish_head_exact [OF p])
      show "forest_exact spec staged" using f keep(1) by (simp add: forest_exact_def)
      show "revision_exact spec c' (rewritten_revision (ctx_candidate tx) rid next1)" if "bmap_get (fo_candidates staged) (ctx_candidate tx) = Some c'" for c'
        using that n keep base(1) prog by (simp add: revision_exact_def)
    qed
  next
    case False
    have keep: "fo_candidates staged = fo_candidates f \<and> cr_proof_debt next1 = cr_proof_debt next0"
      using apply_actions_keep [OF acts] by simp
    show ?thesis
    proof (rule publish_head_exact [OF p])
      show "forest_exact spec staged" using f keep by (simp add: forest_exact_def)
      show "revision_exact spec c' (rewritten_revision (ctx_candidate tx) rid next1)" for c' using n(2) keep fields False by (simp add: revision_exact_def)
    qed
  qed
qed

lemma publish_speculative_exact:
  assumes "publish_head enc staged cid next semantics event source limits = Inr (f', rep)"
    and "forest_exact spec staged" "cr_proof_debt next \<noteq> []"
  shows "forest_exact spec f'"
  by (rule publish_head_exact [OF assms(1,2)]) (simp add: assms(3) revision_exact_def)

lemma propose_exact:
  assumes r: "propose enc f cid base_id sp source shash limits = Inr (f', rep)" and f: "forest_exact spec f"
  shows "forest_exact spec f'"
  using r f
  by (auto simp: propose_def rbind_Inr_iff Let_def proposal_revision_def split: if_split_asm prod.split_asm
      elim!: publish_speculative_exact)

lemma first_index_bound: "first_index P xs = Some i \<Longrightarrow> i < length xs"
proof -
  assume "first_index P xs = Some i"
  then have "\<exists>x\<in>set xs. P x" "i = length (takeWhile (\<lambda>x. \<not> P x) xs)"
    by (auto simp: first_index_def list_ex_iff split: if_split_asm)
  then show "i < length xs"
    by (metis (mono_tags, lifting) length_takeWhile_le nat_less_le takeWhile_eq_all_conv takeWhile_eq_take take_all_iff)
qed

lemma discharge_debt_keeps:
  assumes "discharge_debt enc staged c cid next pr before index path = Inr (staged', next', result, eid)"
  shows "fo_candidates staged' = fo_candidates staged" "length (cr_proof_debt next') = length (cr_proof_debt next)"
proof -
  obtain a i where a: "alloc_evidence (fo_allocator staged) = (a, i)" by fastforce
  show "fo_candidates staged' = fo_candidates staged" "length (cr_proof_debt next') = length (cr_proof_debt next)"
    using assms a
    by (auto simp: discharge_debt_def discharge_def Let_def split: trusted_path.split_asm if_split_asm)
qed

lemma settle_revision_keeps:
  "settle_revision cid pr index result next = Inr next' \<Longrightarrow> cr_proof_debt next' = cr_proof_debt next"
  by (auto simp: settle_revision_def Let_def split: validation_result.split_asm if_split_asm)

lemma translate_open_exact:
  assumes r: "translate_open enc f c base cid base_id pid index source limits = Inr (f', rep)"
    and f: "forest_exact spec f" and debt: "cr_proof_debt base \<noteq> []"
  shows "forest_exact spec f'"
proof -
  obtain a1 rid where a1: "alloc_candidate_revision (fo_allocator f) = (a1, rid)" by fastforce
  from r a1 obtain pr before path staged next1 result eid next2 validation semantics event report where
    d: "discharge_debt enc (f\<lparr>fo_allocator := a1\<rparr>) c cid
          ((child_revision base rid base_id)\<lparr>cr_hash_version := candidate_canonical_version\<rparr>) pr before index path
        = Inr (staged, next1, result, eid)" and
    s: "settle_revision cid pr index result next1 = Inr next2" and
    p: "publish_head enc staged cid
          (next2\<lparr>cr_translations := cr_translations next2 @ [validation], cr_candidate_hash := pending_hash\<rparr>)
          semantics event source limits = Inr (f', report)"
    by (auto simp: translate_open_def rbind_Inr_iff rmap_Inr_iff Let_def split: prod.split_asm)
  note keeps = discharge_debt_keeps [OF d] settle_revision_keeps [OF s]
  show ?thesis
  proof (rule publish_speculative_exact [OF p])
    show "forest_exact spec staged" using f keeps(1) by (simp add: forest_exact_def)
    show "cr_proof_debt (next2\<lparr>cr_translations := cr_translations next2 @ [validation], cr_candidate_hash := pending_hash\<rparr>) \<noteq> []"
      using keeps(2,3) debt by auto
  qed
qed

lemma translation_check_exact:
  assumes r: "translation_check enc f cid base_id pid source shash limits = Inr (f', rep)" and f: "forest_exact spec f"
  shows "forest_exact spec f'"
proof -
  from r obtain c base index where i: "first_index (\<lambda>d. pd_proposal d = pid) (cr_proof_debt base) = Some index"
    and step: "repeat_translation enc f cid base_id base pid source limits = Inr (f', rep) \<or>
       translate_open enc f c base cid base_id pid index source limits = Inr (f', rep)"
    by (auto simp: translation_check_def rbind_Inr_iff ok_or_Inr_iff split: if_split_asm)
  from first_index_bound [OF i] have "cr_proof_debt base \<noteq> []" by auto
  with step f show ?thesis
    by (auto simp: repeat_translation_def rbind_Inr_iff rmap_Inr_iff dest: translate_open_exact)
qed

lemma fork_candidate_exact:
  assumes r: "fork_candidate enc f pid prid source shash limits = Inr (f', rep)" and f: "forest_exact spec f"
  shows "forest_exact spec f'"
proof -
  obtain a1 cid where a1: "alloc_candidate (fo_allocator f) = (a1, cid)" by fastforce
  obtain a2 rid where a2: "alloc_candidate_revision a1 = (a2, rid)" by fastforce
  obtain a3 obid where a3: "alloc_candidate_obligation a2 = (a3, obid)" by fastforce
  from r obtain c base where b: "get_candidate_revision f pid prid = Inr (c, base)"
    by (auto simp: fork_candidate_def rbind_Inr_iff)
  note base = get_revision_exact [OF f b]
  show ?thesis
    using r a1 a2 a3 f b base(3)
    by (auto simp: fork_candidate_def rbind_Inr_iff Let_def candidate_exact_def revision_exact_def
        split: if_split_asm dest!: publish_Inr intro!: put_revision_exact)
qed

lemma reject_revision_keeps:
  "reject_revision v eid next = Inr next' \<Longrightarrow>
   cr_program next' = cr_program next \<and> length (cr_proof_debt next') = length (cr_proof_debt next)"
  by (auto simp: reject_revision_def rbind_Inr_iff Let_def split: if_split_asm)

text \<open>A child with the program of its base, and debt exactly when the base has some.\<close>

lemma publish_copy_exact:
  assumes p: "publish_head enc staged cid next semantics event source limits = Inr (f', rep)"
    and s: "fo_candidates staged = fo_candidates f" and f: "forest_exact spec f"
    and b: "get_candidate_revision f cid rid = Inr (c, base)"
    and n: "cr_program next = cr_program base" "cr_proof_debt next = [] \<Longrightarrow> cr_proof_debt base = []"
  shows "forest_exact spec f'"
proof (rule publish_head_exact [OF p])
  note base = get_revision_exact [OF f b]
  show "forest_exact spec staged" using f s by (simp add: forest_exact_def)
  show "revision_exact spec c' next" if "bmap_get (fo_candidates staged) cid = Some c'" for c'
    using that s n base by (auto simp: revision_exact_def)
qed

lemma record_validation_exact:
  assumes r: "record_validation enc f cid base_id v source shash limits = Inr (f', rep)" and f: "forest_exact spec f"
  shows "forest_exact spec f'"
proof -
  obtain a1 rid where a1: "alloc_candidate_revision (fo_allocator f) = (a1, rid)" by fastforce
  obtain a2 eid where a2: "alloc_evidence a1 = (a2, eid)" by fastforce
  from r a1 a2 obtain c base next1 ev semantics event where b: "get_candidate_revision f cid base_id = Inr (c, base)"
    and n: "reject_revision v eid (child_revision base rid base_id) = Inr next1"
    and p: "publish_head enc (add_evidence ev (f\<lparr>fo_allocator := a2\<rparr>)) cid
        (next1\<lparr>cr_evidence := cr_evidence next1 @ [eid], cr_candidate_hash := pending_hash\<rparr>)
        semantics event source limits = Inr (f', rep)"
    by (auto simp: record_validation_def rbind_Inr_iff Let_def split: if_split_asm)
  from reject_revision_keeps [OF n] show ?thesis
    by (intro publish_copy_exact [OF p _ f b]) auto
qed

lemma seal_candidate_exact:
  assumes r: "seal_candidate enc f cid base_id source shash limits = Inr (f', rep)" and f: "forest_exact spec f"
  shows "forest_exact spec f'"
proof -
  obtain a1 rid where a1: "alloc_candidate_revision (fo_allocator f) = (a1, rid)" by fastforce
  obtain a2 eid where a2: "alloc_evidence a1 = (a2, eid)" by fastforce
  from r a1 a2 obtain c base where b: "get_candidate_revision f cid base_id = Inr (c, base)"
    and "f' = f \<or> (\<exists>ev semantics event. publish_head enc (add_evidence ev (f\<lparr>fo_allocator := a2\<rparr>)) cid
      ((child_revision base rid base_id)\<lparr>cr_state := CsSealed, cr_evidence := cr_evidence base @ [eid],
         cr_candidate_hash := pending_hash\<rparr>) semantics event source limits = Inr (f', rep))"
    by (auto simp: seal_candidate_def rbind_Inr_iff rmap_Inr_iff Let_def split: if_split_asm)
  then show ?thesis using f by (auto intro: publish_copy_exact [OF _ _ f b])
qed

end
