(* ===== verification/Equality_Proofs.thy ===== *)
theory Equality_Proofs
  imports Equality_Forest Path_Search Candidate_Proofs Rewrite_Wf Workspace_Proofs
begin

text \<open>
  Soundness of equality spaces: every program of a revision of a space evaluates like the program
  of the root, and the operations that act on candidates keep the candidates exact.
\<close>

subsection \<open>Members\<close>

definition member :: "impl_program \<Rightarrow> impl_program \<Rightarrow> bool" where
  "member p q \<longleftrightarrow> accepted_impl q \<and> (impl_wf p \<longrightarrow> impl_wf q \<and> preserves p q)"

lemma member_refl: "verify_impl p source limits = Inr () \<Longrightarrow> member p p"
  by (auto simp: member_def accepted_impl_def preserves_def)

lemma member_rewrite:
  assumes "member p q" "apply_known_rewrite q rule target = Inr (q', side)" "verify_impl q' source limits = Inr ()"
  shows "member p q'"
proof -
  have "accepted_impl q" "rewrites_to q q'" "impl_wf p \<longrightarrow> impl_wf q \<and> preserves p q"
    using assms(1,2) by (auto simp: member_def rewrites_to_def)
  from impl_rewriting.rewrite_step [OF this(3,1,2)] assms(3) show ?thesis
    by (auto simp: member_def accepted_impl_def)
qed

subsection \<open>Expansion\<close>

text \<open>The root is the first node and keeps its program; every node is a member of its class.\<close>

definition root_id :: string where "root_id = ''en1''"

definition nodes_sound :: "impl_program \<Rightarrow> (string, equality_node) bmap \<Rightarrow> bool" where
  "nodes_sound p ns \<longleftrightarrow>
     (\<exists>n. bmap_get ns root_id = Some n \<and> en_program n = p) \<and>
     (\<forall>i n. bmap_get ns i = Some n \<longrightarrow> member p (en_program n))"

definition revision_sound :: "impl_program \<Rightarrow> equality_revision \<Rightarrow> bool" where
  "revision_sound p r \<longleftrightarrow> nodes_sound p (er_nodes r) \<and> keyed r"

lemma revision_sound_nodes:
  "revision_sound p r \<Longrightarrow> er_nodes r' = er_nodes r \<Longrightarrow> er_edges r' = er_edges r \<Longrightarrow> revision_sound p r'"
  by (simp add: revision_sound_def keyed_def)

definition expansion_sound :: "impl_program \<Rightarrow> expansion \<Rightarrow> bool" where
  "expansion_sound p x \<longleftrightarrow> 1 \<le> next_node (ex_allocator x) \<and> revision_sound p (ex_revision x)"

lemma root_id_eq: "''en'' @ show_nat 1 = root_id"
  by code_simp

lemma root_kept: "1 \<le> n \<Longrightarrow> ''en'' @ show_nat (u64_saturating_add n 1) \<noteq> root_id"
  unfolding root_id_eq [symmetric] by (auto simp: u64_saturating_add_def u64_max_def min_def)

lemma join_node_sound:
  assumes "join_node q h limits x = Inr (x', i)" "expansion_sound p x" "member p q"
  shows "expansion_sound p x'"
proof (cases "find (\<lambda>n. en_impl_hash n = h) (bmap_values (er_nodes (ex_revision x)))")
  case (Some n)
  with assms show ?thesis by (auto simp: join_node_def expansion_sound_def Let_def)
next
  case None
  let ?n = "u64_saturating_add (next_node (ex_allocator x)) 1"
  from None assms(1) have x': "next_node (ex_allocator x') = ?n"
      "er_nodes (ex_revision x') = bmap_insert (''en'' @ show_nat ?n)
         \<lparr>en_id = ''en'' @ show_nat ?n, en_program = q, en_impl_hash = h\<rparr> (er_nodes (ex_revision x))"
      "er_edges (ex_revision x') = er_edges (ex_revision x)"
    by (auto simp: join_node_def Let_def rbind_Inr_iff alloc_node_def)
  from assms(2) have one: "1 \<le> next_node (ex_allocator x)" by (simp add: expansion_sound_def)
  then have "1 \<le> ?n" by (simp add: u64_saturating_add_def u64_max_def)
  with assms(2,3) root_kept [OF one] show ?thesis
    by (auto simp: expansion_sound_def revision_sound_def keyed_def nodes_sound_def x')
qed

lemma join_edge_sound:
  assumes "join_edge enc a b d limits x = Inr x'" "expansion_sound p x"
  shows "expansion_sound p x'"
  using assms by (auto simp: join_edge_def Let_def rbind_Inr_iff alloc_edge_def expansion_sound_def revision_sound_def
      keyed_def split: if_split_asm)

lemma expand_match_sound:
  assumes "expand_match enc node source limits x m = Inr x'" "expansion_sound p x" "member p (en_program node)"
  shows "expansion_sound p x'"
  using assms
  by (auto simp: expand_match_def rbind_Inr_iff split: if_split_asm
      intro: join_edge_sound join_node_sound member_rewrite)

lemma expand_item_sound:
  assumes e: "expand_item enc source limits w ws x = Inr x'" and x: "expansion_sound p x"
  shows "expansion_sound p x'"
proof -
  let ?x0 = "x\<lparr>ex_revision := (ex_revision x)\<lparr>er_worklist := ws\<rparr>\<rparr>"
  from e obtain node ms x1 where node: "bmap_get (er_nodes (ex_revision x)) w = Some node"
    and fold: "rfold (expand_match enc node source limits) ?x0 ms = Inr x1"
    and x': "x' = x1\<lparr>ex_revision := (ex_revision x1)\<lparr>er_worklist := remdups_adj (sort (er_worklist (ex_revision x1)))\<rparr>\<rparr>"
    by (auto simp: expand_item_def Let_def rbind_Inr_iff rmap_Inr_iff ok_or_Inr_iff)
  from x node have "member p (en_program node)" by (auto simp: expansion_sound_def revision_sound_def nodes_sound_def)
  then have step: "expansion_sound p v" if "expansion_sound p u" "expand_match enc node source limits u m = Inr v" for u v m
    using expand_match_sound that by blast
  have "expansion_sound p ?x0" using x by (simp add: expansion_sound_def revision_sound_def keyed_def)
  then have "expansion_sound p x1" by (rule rfold_invariant [OF fold]) (rule step)
  then show ?thesis by (simp add: x' expansion_sound_def revision_sound_def keyed_def)
qed

lemma expand_loop_sound:
  "expand_loop enc source limits fuel k x = Inr (x', n) \<Longrightarrow> expansion_sound p x \<Longrightarrow> expansion_sound p x'"
  by (induction fuel arbitrary: k x)
    (auto simp: rbind_Inr_iff split: list.split_asm dest: expand_item_sound)

subsection \<open>Stores\<close>

definition space_sound :: "equality_space \<Rightarrow> bool" where
  "space_sound s \<longleftrightarrow>
     es_root_node s = root_id \<and> 1 \<le> next_node (es_allocator s) \<and>
     (\<exists>p. \<forall>rid r. bmap_get (es_revisions s) rid = Some r \<longrightarrow> revision_sound p r)"

definition store_sound :: "equality_store \<Rightarrow> bool" where
  "store_sound st \<longleftrightarrow> (\<forall>i s. bmap_get (st_spaces st) i = Some s \<longrightarrow> space_sound s)"

lemma store_sound_default: "store_sound default_equality_store"
  by (simp add: store_sound_def default_equality_store_def)

lemma store_sound_insert:
  "store_sound st \<Longrightarrow> space_sound s \<Longrightarrow>
   store_sound (push_equality_event cursor e (st\<lparr>st_spaces := bmap_insert i s (st_spaces st)\<rparr>))"
  by (auto simp: store_sound_def push_equality_event_def)

lemma root_space_fields:
  "es_root_node (fst (root_space sid cid rid srev shash r h)) = root_id"
  "next_node (es_allocator (fst (root_space sid cid rid srev shash r h))) = 1"
  "er_nodes (snd (root_space sid cid rid srev shash r h)) =
     [(root_id, \<lparr>en_id = root_id, en_program = cr_program r, en_impl_hash = h\<rparr>)]"
  "er_edges (snd (root_space sid cid rid srev shash r h)) = []"
  using root_id_eq
  by (simp_all add: root_space_def alloc_equality_revision_def alloc_node_def default_equality_allocator_def Let_def
      u64_saturating_add_def u64_max_def)

lemma root_space_sound:
  assumes v: "verify_impl (cr_program r) source limits = Inr ()"
  shows "space_sound ((fst (root_space sid cid rid srev shash r h))\<lparr>es_revisions :=
    [(k, (snd (root_space sid cid rid srev shash r h))\<lparr>er_hash := eh\<rparr>)]\<rparr>)"
proof -
  have "nodes_sound (cr_program r) (er_nodes (snd (root_space sid cid rid srev shash r h)))"
    using member_refl [OF v] by (auto simp: nodes_sound_def root_space_fields bmap_get_def)
  then show ?thesis by (auto simp: space_sound_def bmap_get_def root_space_fields revision_sound_def keyed_def)
qed

lemma create_space_sound:
  assumes c: "create_space enc st forest cid rid source srev shash limits = Inr (st', q)" and st: "store_sound st"
  shows "store_sound st'"
proof -
  obtain a sid where a: "alloc_space (st_allocator st) = (a, sid)" by fastforce
  let ?s = "\<lambda>r h. fst (root_space sid cid rid srev shash r h)" and ?f = "\<lambda>r h. snd (root_space sid cid rid srev shash r h)"
  from c obtain r h n e eh where v: "verify_impl (cr_program r) source limits = Inr ()"
    and st': "st' = push_equality_event n e (st\<lparr>st_allocator := a,
          st_spaces := bmap_insert sid ((?s r h)\<lparr>es_revisions := [(er_id (?f r h), (?f r h)\<lparr>er_hash := eh\<rparr>)]\<rparr>) (st_spaces st)\<rparr>)"
    by (auto simp: create_space_def rbind_Inr_iff rmap_Inr_iff Let_def a split_def split: if_split_asm)
  from root_space_sound [OF v] st show ?thesis
    by (auto simp: st' store_sound_def push_equality_event_def)
qed

lemma expand_revision_sound:
  assumes e: "expand_revision enc space base expected fuel source limits = Inr (space', x, n)" and s: "space_sound space"
  shows "space_sound (space'\<lparr>es_revisions := bmap_insert k (ex_revision x) (es_revisions space'), es_head := k'\<rparr>)"
proof -
  obtain a rid where a: "alloc_equality_revision (es_allocator space) = (a, rid)" by fastforce
  from s obtain p where p: "\<And>rid r. bmap_get (es_revisions space) rid = Some r \<Longrightarrow> revision_sound p r"
    by (auto simp: space_sound_def)
  from e obtain br x1 where br: "bmap_get (es_revisions space) base = Some br"
    and loop: "expand_loop enc source limits fuel 0 \<lparr>ex_allocator = a, ex_revision = br\<lparr>er_id := rid, er_parents := [base]\<rparr>,
                    ex_new_nodes = 0, ex_merged_nodes = 0, ex_new_edges = 0\<rparr> = Inr (x1, n)"
    and new: "space' = space\<lparr>es_allocator := ex_allocator x1\<rparr>" "er_nodes (ex_revision x) = er_nodes (ex_revision x1)"
      "er_edges (ex_revision x) = er_edges (ex_revision x1)"
    by (auto simp: expand_revision_def Let_def rbind_Inr_iff rmap_Inr_iff ok_or_Inr_iff a split: if_split_asm)
  have "next_node a = next_node (es_allocator space)" using a by (auto simp: alloc_equality_revision_def Let_def)
  with s p [OF br] have "expansion_sound p x1"
    by (intro expand_loop_sound [OF loop]) (auto simp: expansion_sound_def space_sound_def intro: revision_sound_nodes)
  then have x1: "1 \<le> next_node (ex_allocator x1)" "revision_sound p (ex_revision x)"
    by (auto simp: expansion_sound_def new intro: revision_sound_nodes)
  then have "\<forall>rid r. bmap_get (bmap_insert k (ex_revision x) (es_revisions space)) rid = Some r \<longrightarrow> revision_sound p r"
    using p by auto
  with s x1(1) show ?thesis
    unfolding space_sound_def new(1) by (intro conjI exI [of _ p]) simp_all
qed

lemma publish_expansion_sound:
  assumes e: "publish_expansion enc st sid base expected fuel source limits sat cursor = Inr (st', res)" and st: "store_sound st"
  shows "store_sound st'"
proof -
  from e obtain space space' x n ev where s: "bmap_get (st_spaces st) sid = Some space"
    and x: "expand_revision enc space base expected fuel source limits = Inr (space', x, n)"
    and st': "st' = push_equality_event cursor ev (st\<lparr>st_spaces := bmap_insert sid
       (space'\<lparr>es_revisions := bmap_insert (er_id (ex_revision x)) (ex_revision x) (es_revisions space'),
               es_head := er_id (ex_revision x)\<rparr>) (st_spaces st)\<rparr>)"
    by (auto simp: publish_expansion_def get_space_def Let_def rbind_Inr_iff rmap_Inr_iff ok_or_Inr_iff)
  from s st have "space_sound space" by (simp add: store_sound_def)
  from store_sound_insert [OF st expand_revision_sound [OF x this]] show ?thesis by (simp add: st')
qed

subsection \<open>Candidates\<close>

lemma replace_head_exact:
  "forest_exact spec f \<Longrightarrow> candidate_exact spec c \<Longrightarrow> revision_exact spec c r \<Longrightarrow> forest_exact spec (replace_head f cid c r)"
  unfolding replace_head_def by (intro forest_exact_insert candidate_exact_insert)

lemma membership_revision_debts:
  "length (cr_proof_debt (membership_revision base cid rid bid pid index frontier mp)) = length (cr_proof_debt base)"
  by (simp add: membership_revision_def Let_def)

lemma candidate_discharge_sound:
  assumes d: "candidate_discharge enc st f cid bid pid sid erid expected target source shash limits = Inr (st', f', res)"
    and f: "forest_exact spec f"
  shows "forest_exact spec f'" "st_spaces st' = st_spaces st"
proof -
  obtain a1 rid where a1: "alloc_candidate_revision (fo_allocator f) = (a1, rid)" by fastforce
  obtain a2 eid where a2: "alloc_evidence a1 = (a2, eid)" by fastforce
  from d obtain c base index ev c' frontier mp h n e where
      base: "get_candidate_revision f cid bid = Inr (c, base)" and index: "discharge_index base pid = Inr index"
    and c': "get_candidate (add_evidence ev (f\<lparr>fo_allocator := a2\<rparr>)) cid = Inr c'"
    and f': "f' = replace_head (add_evidence ev (f\<lparr>fo_allocator := a2\<rparr>)) cid c'
      ((membership_revision base cid rid bid pid index frontier mp)\<lparr>cr_candidate_hash := h\<rparr>)"
    and st': "st' = push_equality_event n e st"
    by (auto simp: candidate_discharge_def rbind_Inr_iff rmap_Inr_iff Let_def a1 a2 split: if_split_asm)
  let ?nx = "membership_revision base cid rid bid pid index frontier mp"
  note debts = membership_revision_debts [of base cid rid bid pid index frontier mp]
  have "cr_proof_debt base \<noteq> []"
    using index by (auto simp: discharge_index_def rbind_Inr_iff ok_or_Inr_iff dest: first_index_bound)
  with debts have "revision_exact spec c' (?nx\<lparr>cr_candidate_hash := h\<rparr>)" by (auto simp: revision_exact_def)
  moreover have "candidate_exact spec c'"
    using c' f by (auto simp: get_candidate_def ok_or_Inr_iff forest_exact_def)
  ultimately show "forest_exact spec f'" unfolding f' using f by (intro replace_head_exact) simp_all
  show "st_spaces st' = st_spaces st" by (simp add: st' push_equality_event_def)
qed

lemma replay_edge_exact:
  assumes "replay_edge enc cid source shash limits fr e = Inr fr'" "forest_exact spec (fst fr)"
  shows "forest_exact spec (fst fr')"
proof -
  from assms(1) obtain tx rep where "apply_candidate (forest_encoders enc) (fst fr) tx source shash limits = Inr (fst fr', rep)"
    by (auto simp: replay_edge_def Let_def rbind_Inr_iff split: if_split_asm)
  from apply_candidate_exact [OF this assms(2)] show ?thesis .
qed

lemma terminal_revision_exact:
  "revision_exact spec c r \<Longrightarrow> revision_exact spec c ((terminal_revision r mr eid)\<lparr>cr_candidate_hash := h\<rparr>)"
  by (simp add: terminal_revision_def revision_exact_def)

lemma materialize_sound:
  assumes m: "materialize enc st f sid erid expected target source shash limits = Inr (st', f', res)"
    and f: "forest_exact spec f"
  shows "forest_exact spec f'" "st_spaces st' = st_spaces st"
proof -
  let ?staged = "\<lambda>ev b evs replayed. add_evidence ev (replayed\<lparr>fo_allocator := b, fo_events := evs\<rparr>)"
  from m obtain pid prid forked rep cid replayed rid es ev b evs c r mr eid h n e where
      fork: "fork_candidate (forest_encoders enc) f pid prid source shash limits = Inr (forked, rep)"
    and replay: "rfold (replay_edge enc cid source shash limits) (forked, rp_revision rep) es = Inr (replayed, rid)"
    and r: "get_candidate_revision (?staged ev b evs replayed) cid rid = Inr (c, r)"
    and f': "f' = (?staged ev b evs replayed)\<lparr>fo_candidates := bmap_insert cid
               (c\<lparr>cd_revisions := bmap_insert rid ((terminal_revision r mr eid)\<lparr>cr_candidate_hash := h\<rparr>) (cd_revisions c)\<rparr>)
               (fo_candidates (?staged ev b evs replayed))\<rparr>"
    and st': "st' = push_equality_event n e st"
    by (auto simp: materialize_def Let_def rbind_Inr_iff rmap_Inr_iff split_def split: if_split_asm)
  have "forest_exact spec (fst (forked, rp_revision rep))" using fork_candidate_exact [OF fork f] by simp
  then have "forest_exact spec (fst (replayed, rid))"
    by (rule rfold_invariant [OF replay]) (rule replay_edge_exact)
  then have staged: "forest_exact spec (add_evidence ev (replayed\<lparr>fo_allocator := b, fo_events := evs\<rparr>))"
    by (simp add: forest_exact_def)
  note base = get_revision_exact [OF staged r]
  have "candidate_exact spec (c\<lparr>cd_revisions := bmap_insert rid ((terminal_revision r mr eid)\<lparr>cr_candidate_hash := h\<rparr>) (cd_revisions c)\<rparr>)"
    using base(2) terminal_revision_exact [OF base(3)] by (auto simp: candidate_exact_def revision_exact_def)
  with staged show "forest_exact spec f'" unfolding f' by (intro forest_exact_insert)
  show "st_spaces st' = st_spaces st" by (simp add: st' push_equality_event_def)
qed

end
