(* ===== verification/Saturation.thy ===== *)
theory Saturation
  imports Equality Graph_Typing
begin

text \<open>
  What a fixed point of an equality space means: every rewrite that the registry matches in any of
  its programs leads, by an edge of the space, to a program of the space with the rewritten hash.
  Nothing is overwritten as long as the allocator of the space has not reached the largest number.
\<close>

subsection \<open>Closed nodes\<close>

definition match_closed ::
    "equality_encoders \<Rightarrow> equality_revision \<Rightarrow> equality_node \<Rightarrow> production_match \<Rightarrow> bool" where
  "match_closed enc r n m \<longleftrightarrow>
     (\<exists>q side h. apply_known_rewrite (en_program n) (pm_rule m) (pm_target m) = Inr (q, side) \<and>
        node_hash enc q = Inr h \<and>
        (h = en_impl_hash n \<or>
         (\<exists>i t k e. bmap_get (er_nodes r) i = Some t \<and> en_impl_hash t = h \<and>
            bmap_get (er_edges r) k = Some e \<and> ee_source e = en_id n \<and> ee_target e = i)))"

definition node_closed :: "equality_encoders \<Rightarrow> equality_revision \<Rightarrow> equality_node \<Rightarrow> bool" where
  "node_closed enc r n \<longleftrightarrow>
     (\<exists>limits ms. production_rewrite_matches (en_program n) limits = Inr ms \<and>
        (\<forall>m\<in>set ms. match_closed enc r n m))"

definition grows :: "equality_revision \<Rightarrow> equality_revision \<Rightarrow> bool" where
  "grows r r' \<longleftrightarrow>
     (\<forall>i n. bmap_get (er_nodes r) i = Some n \<longrightarrow> bmap_get (er_nodes r') i = Some n) \<and>
     (\<forall>i e. bmap_get (er_edges r) i = Some e \<longrightarrow> bmap_get (er_edges r') i = Some e)"

lemma grows_trans: "grows r r' \<Longrightarrow> grows r' r'' \<Longrightarrow> grows r r''"
  by (simp add: grows_def)

lemma match_closed_grows: "match_closed enc r n m \<Longrightarrow> grows r r' \<Longrightarrow> match_closed enc r' n m"
  unfolding match_closed_def grows_def by blast

lemma node_closed_grows: "node_closed enc r n \<Longrightarrow> grows r r' \<Longrightarrow> node_closed enc r' n"
  unfolding node_closed_def using match_closed_grows by blast

subsection \<open>Room for identifiers\<close>

definition roomy :: "equality_allocator \<Rightarrow> bool" where
  "roomy a \<longleftrightarrow> next_node a < u64_max \<and> next_edge a < u64_max"

definition tidy :: "equality_allocator \<Rightarrow> equality_revision \<Rightarrow> bool" where
  "tidy a r \<longleftrightarrow>
     bmap_ok (er_nodes r) \<and> bmap_ok (er_edges r) \<and>
     ids_below ''en'' (next_node a) (er_nodes r) \<and> ids_below ''ee'' (next_edge a) (er_edges r) \<and>
     (\<forall>i n. bmap_get (er_nodes r) i = Some n \<longrightarrow> en_id n = i)"

definition ahead_of :: "equality_allocator \<Rightarrow> equality_allocator \<Rightarrow> bool" where
  "ahead_of a b \<longleftrightarrow> next_node a \<le> next_node b \<and> next_edge a \<le> next_edge b"

lemma ahead_of_trans: "ahead_of a b \<Longrightarrow> ahead_of b c \<Longrightarrow> ahead_of a c"
  by (auto simp: ahead_of_def)

lemma roomy_before: "roomy b \<Longrightarrow> ahead_of a b \<Longrightarrow> roomy a"
  by (auto simp: roomy_def ahead_of_def)

lemma saturating_below: "u64_saturating_add n 1 < u64_max \<Longrightarrow> u64_saturating_add n 1 = Suc n"
  by (auto simp: u64_saturating_add_def)

text \<open>What a step of the expansion does to the graph, if there is room.\<close>

definition enlarges :: "expansion \<Rightarrow> expansion \<Rightarrow> bool" where
  "enlarges x x' \<longleftrightarrow>
     (roomy (ex_allocator x') \<longrightarrow>
        ahead_of (ex_allocator x) (ex_allocator x') \<and>
        (tidy (ex_allocator x) (ex_revision x) \<longrightarrow>
        tidy (ex_allocator x') (ex_revision x') \<and> grows (ex_revision x) (ex_revision x') \<and>
        set (er_worklist (ex_revision x)) \<subseteq> set (er_worklist (ex_revision x')) \<and>
        (\<forall>i n. bmap_get (er_nodes (ex_revision x')) i = Some n \<longrightarrow>
           bmap_get (er_nodes (ex_revision x)) i = Some n \<or> i \<in> set (er_worklist (ex_revision x')))))"

lemma enlarges_refl: "enlarges x x"
  by (simp add: enlarges_def ahead_of_def grows_def)

lemma enlargesD:
  assumes "enlarges x x'" "roomy (ex_allocator x')"
  shows "roomy (ex_allocator x)" "ahead_of (ex_allocator x) (ex_allocator x')"
    "tidy (ex_allocator x) (ex_revision x) \<Longrightarrow> tidy (ex_allocator x') (ex_revision x')"
    "tidy (ex_allocator x) (ex_revision x) \<Longrightarrow> grows (ex_revision x) (ex_revision x')"
  using assms roomy_before by (auto simp: enlarges_def)

lemma enlarges_trans:
  assumes "enlarges x y" "enlarges y z"
  shows "enlarges x z"
  unfolding enlarges_def
proof (intro conjI impI)
  assume z: "roomy (ex_allocator z)"
  note y = enlargesD [OF assms(2) z]
  note xy = enlargesD [OF assms(1) y(1)]
  show "ahead_of (ex_allocator x) (ex_allocator z)" using xy(2) y(2) by (rule ahead_of_trans)
  assume x: "tidy (ex_allocator x) (ex_revision x)"
  show "tidy (ex_allocator z) (ex_revision z)" using y(3) xy(3) x by blast
  show "grows (ex_revision x) (ex_revision z)" using y(4) xy(3,4) x grows_trans by blast
  show "set (er_worklist (ex_revision x)) \<subseteq> set (er_worklist (ex_revision z))"
    using assms x z y(1) xy(3) unfolding enlarges_def by blast
  show "\<forall>i n. bmap_get (er_nodes (ex_revision z)) i = Some n \<longrightarrow>
      bmap_get (er_nodes (ex_revision x)) i = Some n \<or> i \<in> set (er_worklist (ex_revision z))"
    using assms x z y(1) xy(3) unfolding enlarges_def by (meson subset_iff)
qed

subsection \<open>Joining nodes and edges\<close>

lemma fresh_step:
  assumes "ids_below p n m" "N = Suc n" "k = p @ show_nat N"
  shows "bmap_get m k = None" "ids_below p N (bmap_insert k y m)"
  using ids_below_fresh [OF assms(1)] ids_below_insert [OF assms(1)] assms(2,3) by (simp_all add: bmap_contains_def)

lemma join_node_enlarges:
  assumes j: "join_node q h limits x = Inr (x', i)"
  shows "enlarges x x'"
proof (cases "find (\<lambda>n. en_impl_hash n = h) (bmap_values (er_nodes (ex_revision x)))")
  case (Some n)
  with j show ?thesis by (auto simp: join_node_def Let_def enlarges_def ahead_of_def grows_def)
next
  case None
  define N where "N = u64_saturating_add (next_node (ex_allocator x)) 1"
  define k where "k = ''en'' @ show_nat N"
  from None j have x': "ex_allocator x' = (ex_allocator x)\<lparr>next_node := N\<rparr>"
      "er_nodes (ex_revision x') = bmap_insert k
         \<lparr>en_id = k, en_program = q, en_impl_hash = h\<rparr> (er_nodes (ex_revision x))"
      "er_edges (ex_revision x') = er_edges (ex_revision x)"
      "er_worklist (ex_revision x') = er_worklist (ex_revision x) @ [k]"
    by (auto simp: join_node_def Let_def rbind_Inr_iff alloc_node_def N_def k_def)
  show ?thesis
    unfolding enlarges_def
  proof (intro impI, goal_cases)
    case 1
    then have "N < u64_max" by (simp add: roomy_def x')
    then have step: "N = Suc (next_node (ex_allocator x))" unfolding N_def by (rule saturating_below)
    note fresh = fresh_step [OF _ step k_def]
    show ?case
      by (auto simp: ahead_of_def tidy_def grows_def x' step [symmetric] fresh) (simp_all add: step)
  qed
qed

lemma join_node_target:
  assumes j: "join_node q h limits x = Inr (x', i)" and x: "tidy (ex_allocator x) (ex_revision x)"
  shows "\<exists>t. bmap_get (er_nodes (ex_revision x')) i = Some t \<and> en_impl_hash t = h"
proof (cases "find (\<lambda>n. en_impl_hash n = h) (bmap_values (er_nodes (ex_revision x)))")
  case (Some n)
  then have n: "en_impl_hash n = h" "n \<in> set (bmap_values (er_nodes (ex_revision x)))"
    by (auto simp: find_Some_iff in_set_conv_nth)
  then obtain k where "(k, n) \<in> set (er_nodes (ex_revision x))" by (auto simp: bmap_values_def)
  with x have "bmap_get (er_nodes (ex_revision x)) k = Some n" by (auto simp: tidy_def intro: bmap_mem_get)
  with x n(1) Some j show ?thesis by (auto simp: join_node_def Let_def tidy_def)
next
  case None
  with j show ?thesis by (auto simp: join_node_def Let_def rbind_Inr_iff alloc_node_def)
qed

lemma join_edge_enlarges:
  assumes j: "join_edge enc a b d limits x = Inr x'"
  shows "enlarges x x'"
proof (cases "x' = x")
  case False
  define N where "N = u64_saturating_add (next_edge (ex_allocator x)) 1"
  define k where "k = ''ee'' @ show_nat N"
  from False j obtain dig where x': "ex_allocator x' = (ex_allocator x)\<lparr>next_edge := N\<rparr>"
      "er_edges (ex_revision x') = bmap_insert k
         \<lparr>ee_id = k, ee_source = a, ee_target = b, ee_descriptor = d, ee_digest = dig\<rparr> (er_edges (ex_revision x))"
      "er_nodes (ex_revision x') = er_nodes (ex_revision x)"
      "er_worklist (ex_revision x') = er_worklist (ex_revision x)"
    by (auto simp: join_edge_def Let_def rbind_Inr_iff alloc_edge_def N_def k_def split: if_split_asm)
  show ?thesis
    unfolding enlarges_def
  proof (intro impI, goal_cases)
    case 1
    then have "N < u64_max" by (simp add: roomy_def x')
    then have step: "N = Suc (next_edge (ex_allocator x))" unfolding N_def by (rule saturating_below)
    note fresh = fresh_step [OF _ step k_def]
    show ?case
      by (auto simp: ahead_of_def tidy_def grows_def x' step [symmetric] fresh) (simp_all add: step)
  qed
qed (simp add: enlarges_refl)

lemma join_edge_present:
  assumes j: "join_edge enc a b d limits x = Inr x'" and x: "tidy (ex_allocator x) (ex_revision x)"
  shows "\<exists>k e. bmap_get (er_edges (ex_revision x')) k = Some e \<and> ee_source e = a \<and> ee_target e = b"
proof (cases "list_ex (\<lambda>e. ee_source e = a \<and> ee_target e = b \<and> ee_descriptor e = d \<and> ee_digest e = edge_digest enc d)
    (bmap_values (er_edges (ex_revision x)))")
  case True
  then obtain k e where e: "(k, e) \<in> set (er_edges (ex_revision x))" "ee_source e = a" "ee_target e = b"
    by (auto simp: list_ex_iff bmap_values_def)
  with x have "bmap_get (er_edges (ex_revision x)) k = Some e" by (auto simp: tidy_def intro: bmap_mem_get)
  with True j e show ?thesis by (auto simp: join_edge_def Let_def)
next
  case False
  with j show ?thesis by (auto simp: join_edge_def Let_def rbind_Inr_iff alloc_edge_def)
qed

subsection \<open>Expanding a node\<close>

lemma expand_match_enlarges:
  "expand_match enc node source limits x m = Inr x' \<Longrightarrow> enlarges x x'"
  by (auto simp: expand_match_def rbind_Inr_iff enlarges_refl split: if_split_asm
      dest!: join_node_enlarges join_edge_enlarges intro: enlarges_trans)

lemma expand_match_closed:
  assumes e: "expand_match enc node source limits x m = Inr x'" and room: "roomy (ex_allocator x')"
    and x: "tidy (ex_allocator x) (ex_revision x)"
  shows "match_closed enc (ex_revision x') node m"
proof -
  let ?joined = "\<lambda>q h. \<exists>x1 i d. join_node q h limits x = Inr (x1, i) \<and> join_edge enc (en_id node) i d limits x1 = Inr x'"
  from e have "\<exists>q side h. apply_known_rewrite (en_program node) (pm_rule m) (pm_target m) = Inr (q, side) \<and>
      node_hash enc q = Inr h \<and> (h = en_impl_hash node \<or> ?joined q h)"
    unfolding expand_match_def rbind_Inr_iff by (auto simp: rbind_Inr_iff split: if_split_asm)
  then obtain q side h where q: "apply_known_rewrite (en_program node) (pm_rule m) (pm_target m) = Inr (q, side)"
      "node_hash enc q = Inr h" and rest: "h = en_impl_hash node \<or> ?joined q h" by blast
  from rest show ?thesis
  proof
    assume "\<exists>x1 i d. join_node q h limits x = Inr (x1, i) \<and> join_edge enc (en_id node) i d limits x1 = Inr x'"
    then obtain x1 i d where j: "join_node q h limits x = Inr (x1, i)" "join_edge enc (en_id node) i d limits x1 = Inr x'"
      by blast
    note one = enlargesD [OF join_edge_enlarges [OF j(2)] room]
    have x1: "tidy (ex_allocator x1) (ex_revision x1)" using enlargesD(3) [OF join_node_enlarges [OF j(1)] one(1)] x by simp
    from join_node_target [OF j(1) x] one(4) [OF x1]
    obtain t where "bmap_get (er_nodes (ex_revision x')) i = Some t" "en_impl_hash t = h"
      by (auto simp: grows_def)
    moreover from join_edge_present [OF j(2) x1] obtain k e where
      "bmap_get (er_edges (ex_revision x')) k = Some e" "ee_source e = en_id node" "ee_target e = i" by blast
    ultimately show ?thesis using q unfolding match_closed_def by blast
  qed (use q in \<open>auto simp: match_closed_def\<close>)
qed

lemma expand_matches:
  assumes "rfold (expand_match enc node source limits) x ms = Inr x'"
  shows "enlarges x x'"
    and "roomy (ex_allocator x') \<Longrightarrow> tidy (ex_allocator x) (ex_revision x) \<Longrightarrow>
      m \<in> set ms \<Longrightarrow> match_closed enc (ex_revision x') node m"
  using assms
proof (induction ms arbitrary: x)
  case (Cons m' ms)
  { case 1
    then show ?case using Cons.IH(1) expand_match_enlarges enlarges_trans by (fastforce simp: rbind_Inr_iff)
  next
    case 2
    then obtain x1 where x1: "expand_match enc node source limits x m' = Inr x1"
      "rfold (expand_match enc node source limits) x1 ms = Inr x'" by (auto simp: rbind_Inr_iff)
    note one = enlargesD [OF Cons.IH(1) [OF x1(2)] 2(1)]
    have t: "tidy (ex_allocator x1) (ex_revision x1)"
      using enlargesD(3) [OF expand_match_enlarges [OF x1(1)] one(1)] 2(2) by simp
    show ?case
    proof (cases "m = m'")
      case True
      with match_closed_grows [OF expand_match_closed [OF x1(1) one(1) 2(2)] one(4) [OF t]] show ?thesis by simp
    next
      case False
      with Cons.IH(2) [OF 2(1) t _ x1(2)] 2(3) show ?thesis by simp
    qed
  }
qed (simp_all add: enlarges_refl)

subsection \<open>Pending and closed nodes\<close>

definition settled :: "equality_encoders \<Rightarrow> equality_revision \<Rightarrow> bool" where
  "settled enc r \<longleftrightarrow>
     (\<forall>i n. bmap_get (er_nodes r) i = Some n \<longrightarrow> i \<in> set (er_worklist r) \<or> node_closed enc r n)"

definition progress :: "equality_encoders \<Rightarrow> expansion \<Rightarrow> expansion \<Rightarrow> bool" where
  "progress enc x x' \<longleftrightarrow>
     (roomy (ex_allocator x') \<longrightarrow>
        ahead_of (ex_allocator x) (ex_allocator x') \<and>
        (tidy (ex_allocator x) (ex_revision x) \<and> settled enc (ex_revision x) \<longrightarrow>
           tidy (ex_allocator x') (ex_revision x') \<and> settled enc (ex_revision x')))"

lemma progress_trans: "progress enc x y \<Longrightarrow> progress enc y z \<Longrightarrow> progress enc x z"
  unfolding progress_def using roomy_before ahead_of_trans by blast

lemma same_graph:
  assumes "er_nodes r' = er_nodes r" "er_edges r' = er_edges r"
  shows "tidy a r' \<longleftrightarrow> tidy a r" "er_worklist r' = er_worklist r \<Longrightarrow> settled enc r' \<longleftrightarrow> settled enc r"
  using assms by (simp_all add: tidy_def settled_def node_closed_def match_closed_def)

lemma expand_item_progress:
  assumes e: "expand_item enc source limits w ws x = Inr x'" and w: "er_worklist (ex_revision x) = w # ws"
  shows "progress enc x x'"
proof -
  let ?x0 = "x\<lparr>ex_revision := (ex_revision x)\<lparr>er_worklist := ws\<rparr>\<rparr>"
  from e obtain node ms x1 where node: "bmap_get (er_nodes (ex_revision x)) w = Some node"
    and ms: "production_rewrite_matches (en_program node) limits = Inr ms"
    and fold: "rfold (expand_match enc node source limits) ?x0 ms = Inr x1"
    and x': "x' = x1\<lparr>ex_revision := (ex_revision x1)\<lparr>er_worklist := remdups_adj (sort (er_worklist (ex_revision x1)))\<rparr>\<rparr>"
    by (auto simp: expand_item_def Let_def rbind_Inr_iff rmap_Inr_iff ok_or_Inr_iff)
  note ext = expand_matches(1) [OF fold] and closed = expand_matches(2) [OF fold]
  show ?thesis
    unfolding progress_def
  proof (intro impI conjI; (elim conjE)?)
    assume "roomy (ex_allocator x')"
    then have room: "roomy (ex_allocator x1)" by (simp add: x')
    note x1 = enlargesD [OF ext room]
    from x1(2) show "ahead_of (ex_allocator x) (ex_allocator x')" by (simp add: x')
    assume t: "tidy (ex_allocator x) (ex_revision x)" and s: "settled enc (ex_revision x)"
    from t have t0: "tidy (ex_allocator ?x0) (ex_revision ?x0)" by (simp add: tidy_def)
    from x1(3) [OF t0] show "tidy (ex_allocator x') (ex_revision x')" by (simp add: x' tidy_def)
    have grow: "grows (ex_revision ?x0) (ex_revision x1)" by (rule x1(4) [OF t0])
    have "node_closed enc (ex_revision x1) node"
      unfolding node_closed_def using ms closed [OF room t0] by blast
    moreover have "bmap_get (er_nodes (ex_revision x1)) w = Some node" using grow node by (simp add: grows_def)
    ultimately have w_closed: "node_closed enc (ex_revision x1) n" if "bmap_get (er_nodes (ex_revision x1)) w = Some n" for n
      using that by simp
    have old: "i \<in> set ws \<or> node_closed enc (ex_revision x1) n"
      if "bmap_get (er_nodes (ex_revision x)) i = Some n" "i \<noteq> w" for i n
    proof -
      have "grows (ex_revision x) (ex_revision x1)" using grow by (simp add: grows_def)
      with s that w show ?thesis unfolding settled_def using node_closed_grows by fastforce
    qed
    have "i \<in> set (er_worklist (ex_revision x1)) \<or> node_closed enc (ex_revision x1) n"
      if n: "bmap_get (er_nodes (ex_revision x1)) i = Some n" for i n
    proof (cases "i = w")
      case False
      from ext room t0 have sub: "set ws \<subseteq> set (er_worklist (ex_revision x1))"
        and new: "bmap_get (er_nodes (ex_revision x)) i = Some n \<or> i \<in> set (er_worklist (ex_revision x1))"
        using n unfolding enlarges_def by auto
      from new old [of i n] False sub show ?thesis by blast
    qed (use w_closed n in blast)
    then have "settled enc (ex_revision x1)" by (simp add: settled_def)
    then show "settled enc (ex_revision x')"
      by (simp add: settled_def x' node_closed_def match_closed_def)
  qed
qed

lemma expand_loop_progress:
  "expand_loop enc source limits fuel k x = Inr (x', n) \<Longrightarrow> progress enc x x'"
proof (induction fuel arbitrary: k x)
  case 0
  then show ?case by (simp add: progress_def ahead_of_def)
next
  case (Suc fuel)
  show ?case
  proof (cases "er_worklist (ex_revision x)")
    case Nil
    with Suc.prems show ?thesis by (simp add: progress_def ahead_of_def)
  next
    case (Cons w ws)
    with Suc.prems obtain x1 where "expand_item enc source limits w ws x = Inr x1"
        "expand_loop enc source limits fuel (Suc k) x1 = Inr (x', n)"
      by (auto simp: rbind_Inr_iff)
    with Suc.IH expand_item_progress [OF _ Cons] progress_trans show ?thesis by blast
  qed
qed

lemma expand_loop_count:
  "expand_loop enc source limits fuel k x = Inr (x', n) \<Longrightarrow>
   k \<le> n \<and> n \<le> k + fuel \<and> (n = k + fuel \<or> er_worklist (ex_revision x') = []) \<and>
   (0 < fuel \<and> er_worklist (ex_revision x) \<noteq> [] \<longrightarrow> k < n)"
proof (induction fuel arbitrary: k x)
  case (Suc fuel)
  show ?case
  proof (cases "er_worklist (ex_revision x)")
    case (Cons w ws)
    with Suc.prems obtain x1 where "expand_loop enc source limits fuel (Suc k) x1 = Inr (x', n)"
      by (auto simp: rbind_Inr_iff)
    from Suc.IH [OF this] show ?thesis by auto
  qed (use Suc.prems in simp)
qed simp

lemma publish_expansion_count:
  assumes "publish_expansion enc st sid base expected fuel source limits sat cursor = Inr (st', res)"
  shows "xr_processed res \<le> fuel \<and> (xr_processed res = fuel \<or> xr_status res = StatusFixedPoint) \<and>
    (xr_status res = StatusFixedPoint \<longleftrightarrow> xr_remaining res = 0)"
proof -
  from assms obtain space space' x n where x: "expand_revision enc space base expected fuel source limits = Inr (space', x, n)"
    and res: "xr_processed res = n" "xr_status res = er_status (ex_revision x)"
      "xr_remaining res = length (er_worklist (ex_revision x))"
    by (auto simp: publish_expansion_def Let_def rbind_Inr_iff rmap_Inr_iff)
  obtain a rid where a: "alloc_equality_revision (es_allocator space) = (a, rid)" by fastforce
  from x obtain x0 x1 where loop: "expand_loop enc source limits fuel 0 x0 = Inr (x1, n)"
    and new: "er_worklist (ex_revision x) = er_worklist (ex_revision x1)"
      "er_status (ex_revision x) = expansion_status (er_worklist (ex_revision x1))"
    by (auto simp: expand_revision_def Let_def rbind_Inr_iff rmap_Inr_iff a split: if_split_asm)
  from expand_loop_count [OF loop] show ?thesis by (auto simp: res new expansion_status_def)
qed

subsection \<open>Stores\<close>

definition space_settled :: "equality_encoders \<Rightarrow> equality_space \<Rightarrow> bool" where
  "space_settled enc s \<longleftrightarrow>
     (roomy (es_allocator s) \<longrightarrow>
        (\<forall>rid r. bmap_get (es_revisions s) rid = Some r \<longrightarrow>
           tidy (es_allocator s) r \<and> settled enc r \<and> (er_status r = StatusFixedPoint \<longrightarrow> er_worklist r = [])))"

definition store_settled :: "equality_encoders \<Rightarrow> equality_store \<Rightarrow> bool" where
  "store_settled enc st \<longleftrightarrow> (\<forall>i s. bmap_get (st_spaces st) i = Some s \<longrightarrow> space_settled enc s)"

lemma tidy_mono: "tidy a r \<Longrightarrow> ahead_of a b \<Longrightarrow> tidy b r"
  by (auto simp: tidy_def ahead_of_def intro: ids_below_mono)

lemma root_space_settled:
  assumes s: "root_space sid cid rid srev shash r h = (space, first)"
  shows "space_settled enc (space\<lparr>es_revisions := [(k, first\<lparr>er_hash := eh\<rparr>)]\<rparr>)"
proof -
  define root where "root = ''en'' @ show_nat (Suc 0)"
  from s have f: "next_node (es_allocator space) = Suc 0"
      "er_nodes first = bmap_insert root \<lparr>en_id = root, en_program = cr_program r, en_impl_hash = h\<rparr> []"
      "er_edges first = []" "er_worklist first = [root]" "er_status first = StatusOpen"
    by (auto simp: root_space_def alloc_equality_revision_def alloc_node_def default_equality_allocator_def Let_def
        u64_saturating_add_def u64_max_def root_def)
  have ids: "ids_below ''en'' (Suc 0) (er_nodes first)"
    unfolding f root_def by (intro ids_below_insert) simp
  have ok: "bmap_ok (er_nodes first)" unfolding f by (intro bmap_ok_insert) simp
  have get: "i = root" "en_id n = root" if "bmap_get (er_nodes first) i = Some n" for i n
    using that unfolding f bmap_get_insert by (auto split: if_split_asm)
  have "tidy (es_allocator space) (first\<lparr>er_hash := eh\<rparr>)"
    using ids ok get f(1,3) by (auto simp: tidy_def)
  moreover have "settled enc (first\<lparr>er_hash := eh\<rparr>)" using get(1) f(4) by (auto simp: settled_def)
  ultimately show ?thesis using f(5) by (auto simp: space_settled_def bmap_get_def)
qed

lemma create_space_settled:
  assumes c: "create_space enc st forest cid rid source srev shash limits = Inr (st', q)" and st: "store_settled enc st"
  shows "store_settled enc st'"
proof -
  obtain a sid where a: "alloc_space (st_allocator st) = (a, sid)" by fastforce
  from c obtain r h space first n e eh where s: "root_space sid cid rid srev shash r h = (space, first)"
    and st': "st' = push_equality_event n e (st\<lparr>st_allocator := a,
          st_spaces := bmap_insert sid (space\<lparr>es_revisions := [(er_id first, first\<lparr>er_hash := eh\<rparr>)]\<rparr>) (st_spaces st)\<rparr>)"
    by (auto simp: create_space_def rbind_Inr_iff rmap_Inr_iff Let_def a split: if_split_asm prod.split_asm)
  from root_space_settled [OF s] st show ?thesis
    by (auto simp: st' store_settled_def push_equality_event_def)
qed

lemma expand_revision_settled:
  assumes e: "expand_revision enc space base expected fuel source limits = Inr (space', x, n)" and s: "space_settled enc space"
  shows "space_settled enc (space'\<lparr>es_revisions := bmap_insert k (ex_revision x) (es_revisions space'), es_head := k'\<rparr>)"
proof -
  obtain a rid where a: "alloc_equality_revision (es_allocator space) = (a, rid)" by fastforce
  then have a_eq: "ahead_of (es_allocator space) a" "roomy a \<longleftrightarrow> roomy (es_allocator space)"
    by (auto simp: alloc_equality_revision_def Let_def ahead_of_def roomy_def)
  from e obtain br x1 where br: "bmap_get (es_revisions space) base = Some br"
    and loop: "expand_loop enc source limits fuel 0 \<lparr>ex_allocator = a, ex_revision = br\<lparr>er_id := rid, er_parents := [base]\<rparr>,
                    ex_new_nodes = 0, ex_merged_nodes = 0, ex_new_edges = 0\<rparr> = Inr (x1, n)"
    and new: "space' = space\<lparr>es_allocator := ex_allocator x1\<rparr>"
      "er_nodes (ex_revision x) = er_nodes (ex_revision x1)" "er_edges (ex_revision x) = er_edges (ex_revision x1)"
      "er_worklist (ex_revision x) = er_worklist (ex_revision x1)"
      "er_status (ex_revision x) = expansion_status (er_worklist (ex_revision x1))"
    by (auto simp: expand_revision_def Let_def rbind_Inr_iff rmap_Inr_iff ok_or_Inr_iff a split: if_split_asm)
  show ?thesis
    unfolding space_settled_def
  proof (intro impI allI)
    fix i r
    assume "roomy (es_allocator (space'\<lparr>es_revisions := bmap_insert k (ex_revision x) (es_revisions space'), es_head := k'\<rparr>))"
      and r: "bmap_get (es_revisions (space'\<lparr>es_revisions := bmap_insert k (ex_revision x) (es_revisions space'), es_head := k'\<rparr>)) i = Some r"
    then have room: "roomy (ex_allocator x1)" by (simp add: new)
    from expand_loop_progress [OF loop] room have ahead: "ahead_of a (ex_allocator x1)"
      and keep: "tidy a br \<Longrightarrow> settled enc br \<Longrightarrow> tidy (ex_allocator x1) (ex_revision x1) \<and> settled enc (ex_revision x1)"
      using same_graph [of "br\<lparr>er_id := rid, er_parents := [base]\<rparr>" br] by (auto simp: progress_def)
    have old: "roomy (es_allocator space)" using roomy_before [OF room ahead] a_eq(2) by simp
    note from_space = s [unfolded space_settled_def, rule_format, OF old]
    have next_ok: "tidy (ex_allocator x1) (ex_revision x1)" "settled enc (ex_revision x1)"
      using keep from_space [OF br] tidy_mono a_eq(1) by auto
    have "tidy (ex_allocator x1) r \<and> settled enc r \<and> (er_status r = StatusFixedPoint \<longrightarrow> er_worklist r = [])"
    proof (cases "i = k")
      case True
      with r have "r = ex_revision x" by simp
      with next_ok show ?thesis
        using same_graph [of "ex_revision x" "ex_revision x1", OF new(2,3)] new(4,5) by (simp add: expansion_status_def split: if_split_asm)
    next
      case False
      with r have "bmap_get (es_revisions space) i = Some r" by (simp add: new)
      from from_space [OF this] tidy_mono [OF _ ahead_of_trans [OF a_eq(1) ahead]] show ?thesis by blast
    qed
    then show "tidy (es_allocator (space'\<lparr>es_revisions := bmap_insert k (ex_revision x) (es_revisions space'), es_head := k'\<rparr>)) r \<and>
        settled enc r \<and> (er_status r = StatusFixedPoint \<longrightarrow> er_worklist r = [])"
      by (simp add: new)
  qed
qed

lemma publish_expansion_settled:
  assumes e: "publish_expansion enc st sid base expected fuel source limits sat cursor = Inr (st', res)"
    and st: "store_settled enc st"
  shows "store_settled enc st'"
proof -
  from e obtain space space' x n ev where s: "bmap_get (st_spaces st) sid = Some space"
    and x: "expand_revision enc space base expected fuel source limits = Inr (space', x, n)"
    and st': "st' = push_equality_event cursor ev (st\<lparr>st_spaces := bmap_insert sid
       (space'\<lparr>es_revisions := bmap_insert (er_id (ex_revision x)) (ex_revision x) (es_revisions space'),
               es_head := er_id (ex_revision x)\<rparr>) (st_spaces st)\<rparr>)"
    by (auto simp: publish_expansion_def get_space_def Let_def rbind_Inr_iff rmap_Inr_iff ok_or_Inr_iff)
  from s st have "space_settled enc space" by (simp add: store_settled_def)
  from expand_revision_settled [OF x this] st show ?thesis
    by (auto simp: st' store_settled_def push_equality_event_def)
qed

end
