(* ===== verification/Candidate_Workspace.thy ===== *)
theory Candidate_Workspace
  imports Candidate_Proofs Workspace_Typing Program_Safety
begin

text \<open>
  The candidate operations of the workspace (\<open>frozen_candidate_source\<close> to \<open>candidate_continuation\<close>
  of \<open>agentir-core/src/workspace.rs\<close>): each looks up the frozen program and hands it to the forest.
  Every step keeps the candidates exact.
\<close>

subsection \<open>Operations\<close>

record session =
  se_workspace :: workspace
  se_candidates :: candidate_forest

definition frozen_candidate_source :: "workspace \<Rightarrow> string \<Rightarrow> (program \<times> string) res" where
  "frozen_candidate_source ws rid =
     rbind (get_revision ws rid) (\<lambda>source.
     if \<not> frozen (rev_program source) then err SpecNotFrozen ''revision `{revision}` is not a frozen SpecIR''
     else
       rmap (Pair (rev_program source))
         (ok_or (Fail (agent_error_new SpecHashMismatch ''frozen revision `{revision}` has no valid spec_hash''))
            (rev_spec_hash source)))"

definition candidate_source :: "session \<Rightarrow> string \<Rightarrow> (program \<times> string) res" where
  "candidate_source se cid =
     rbind (get_candidate (se_candidates se) cid) (\<lambda>c.
       frozen_candidate_source (se_workspace se) (cd_spec_revision c))"

text \<open>A forest operation on the session: its errors leave the session as it was.\<close>

definition on_forest :: "session \<Rightarrow> (candidate_forest \<times> 'a) res \<Rightarrow> (session \<times> 'a) res" where
  "on_forest se r = rmap (\<lambda>(f, x). (se\<lparr>se_candidates := f\<rparr>, x)) r"

definition candidate_create ::
    "candidate_encoders \<Rightarrow> session \<Rightarrow> string \<Rightarrow> relation_kind \<Rightarrow> (session \<times> candidate_check_report) res" where
  "candidate_create enc se spec_revision relation =
     rbind (frozen_candidate_source (se_workspace se) spec_revision) (\<lambda>(source, spec_hash).
       on_forest se (create_candidate enc (se_candidates se) spec_revision spec_hash source relation
         (ws_limits (se_workspace se))))"

definition candidate_check ::
    "candidate_encoders \<Rightarrow> session \<Rightarrow> string \<Rightarrow> string \<Rightarrow> candidate_check_report res" where
  "candidate_check enc se cid rid =
     rbind (candidate_source se cid) (\<lambda>(source, _).
       check_candidate enc (se_candidates se) cid rid source (ws_limits (se_workspace se)))"

definition candidate_apply ::
    "candidate_encoders \<Rightarrow> session \<Rightarrow> candidate_transaction \<Rightarrow> (session \<times> candidate_check_report) res" where
  "candidate_apply enc se tx =
     rbind (candidate_source se (ctx_candidate tx)) (\<lambda>(source, spec_hash).
       on_forest se (apply_candidate enc (se_candidates se) tx source spec_hash (ws_limits (se_workspace se))))"

definition candidate_propose ::
    "candidate_encoders \<Rightarrow> session \<Rightarrow> string \<Rightarrow> string \<Rightarrow> speculative_proposal \<Rightarrow> (session \<times> candidate_check_report) res" where
  "candidate_propose enc se cid base sp =
     rbind (candidate_source se cid) (\<lambda>(source, spec_hash).
       on_forest se (propose enc (se_candidates se) cid base sp source spec_hash (ws_limits (se_workspace se))))"

definition candidate_translation_check ::
    "candidate_encoders \<Rightarrow> session \<Rightarrow> string \<Rightarrow> string \<Rightarrow> string \<Rightarrow> (session \<times> translation_report) res" where
  "candidate_translation_check enc se cid base pid =
     rbind (candidate_source se cid) (\<lambda>(source, spec_hash).
       on_forest se (translation_check enc (se_candidates se) cid base pid source spec_hash
         (ws_limits (se_workspace se))))"

definition candidate_fork ::
    "candidate_encoders \<Rightarrow> session \<Rightarrow> string \<Rightarrow> string \<Rightarrow> (session \<times> candidate_check_report) res" where
  "candidate_fork enc se cid rid =
     rbind (candidate_source se cid) (\<lambda>(source, spec_hash).
       on_forest se (fork_candidate enc (se_candidates se) cid rid source spec_hash (ws_limits (se_workspace se))))"

definition candidate_record_validation ::
    "candidate_encoders \<Rightarrow> session \<Rightarrow> string \<Rightarrow> string \<Rightarrow> differential_validation \<Rightarrow> (session \<times> candidate_check_report) res" where
  "candidate_record_validation enc se cid base v =
     rbind (candidate_source se cid) (\<lambda>(source, spec_hash).
       on_forest se (record_validation enc (se_candidates se) cid base v source spec_hash
         (ws_limits (se_workspace se))))"

definition candidate_seal ::
    "candidate_encoders \<Rightarrow> session \<Rightarrow> string \<Rightarrow> string \<Rightarrow> (session \<times> candidate_check_report) res" where
  "candidate_seal enc se cid base =
     rbind (candidate_source se cid) (\<lambda>(source, spec_hash).
       on_forest se (seal_candidate enc (se_candidates se) cid base source spec_hash (ws_limits (se_workspace se))))"

definition candidate_continuation_of :: "session \<Rightarrow> string \<Rightarrow> string \<Rightarrow> candidate_continuation res" where
  "candidate_continuation_of se cid rid =
     continuation_of (se_candidates se) cid rid (ws_limits (se_workspace se))"

subsection \<open>Steps\<close>

text \<open>One operation on candidates that succeeds.\<close>

inductive candidate_step :: "candidate_encoders \<Rightarrow> session \<Rightarrow> session \<Rightarrow> bool" for enc where
  candidate: "candidate_create enc se srev rel = Inr (se', r) \<Longrightarrow> candidate_step enc se se'"
| rewrite: "candidate_apply enc se tx = Inr (se', r) \<Longrightarrow> candidate_step enc se se'"
| propose: "candidate_propose enc se cid base sp = Inr (se', r) \<Longrightarrow> candidate_step enc se se'"
| translate: "candidate_translation_check enc se cid base pid = Inr (se', t) \<Longrightarrow> candidate_step enc se se'"
| fork: "candidate_fork enc se cid rid = Inr (se', r) \<Longrightarrow> candidate_step enc se se'"
| validate: "candidate_record_validation enc se cid base v = Inr (se', r) \<Longrightarrow> candidate_step enc se se'"
| seal: "candidate_seal enc se cid base = Inr (se', r) \<Longrightarrow> candidate_step enc se se'"

inductive_cases candidate_stepE: "candidate_step enc se se'"

subsection \<open>Candidates of a session are exact\<close>

definition spec_of :: "workspace \<Rightarrow> string \<Rightarrow> program option" where
  "spec_of ws rid = map_option rev_program (bmap_get (ws_revisions ws) rid)"

lemma frozen_candidate_source_spec:
  "frozen_candidate_source ws rid = Inr (source, h) \<Longrightarrow> spec_of ws rid = Some source"
  by (auto simp: frozen_candidate_source_def spec_of_def get_revision_def rbind_Inr_iff rmap_Inr_iff ok_or_Inr_iff
      split: if_split_asm)

lemma on_forest_Inr: "on_forest se r = Inr (se', x) \<longleftrightarrow> (\<exists>f. r = Inr (f, x) \<and> se' = se\<lparr>se_candidates := f\<rparr>)"
  by (auto simp: on_forest_def rmap_Inr_iff)

lemma candidate_step_workspace: "candidate_step enc se se' \<Longrightarrow> se_workspace se' = se_workspace se"
  by (erule candidate_stepE)
    (auto simp: candidate_create_def candidate_apply_def candidate_propose_def candidate_translation_check_def
      candidate_fork_def candidate_record_validation_def candidate_seal_def rbind_Inr_iff on_forest_Inr)

lemma candidate_step_exact:
  assumes "candidate_step enc se se'" "forest_exact (spec_of (se_workspace se)) (se_candidates se)"
  shows "forest_exact (spec_of (se_workspace se)) (se_candidates se')"
  using assms
proof (cases rule: candidate_step.cases)
  case (candidate srev rel r)
  then show ?thesis using assms(2)
    by (auto simp: candidate_create_def rbind_Inr_iff on_forest_Inr frozen_candidate_source_spec
        intro: create_candidate_exact)
qed (use assms(2) in \<open>auto simp: candidate_apply_def candidate_propose_def candidate_translation_check_def candidate_fork_def
    candidate_record_validation_def candidate_seal_def rbind_Inr_iff on_forest_Inr
    dest: apply_candidate_exact propose_exact translation_check_exact fork_candidate_exact record_validation_exact seal_candidate_exact\<close>)

lemma forest_exact_mono: "forest_exact spec f \<Longrightarrow> spec \<subseteq>\<^sub>m spec' \<Longrightarrow> forest_exact spec' f"
  by (fastforce simp: forest_exact_def candidate_exact_def revision_exact_def map_le_def dom_def)

lemma apply_spec_of:
  assumes "apply_with_semantics_at enc ws tx s now = Inr (ws', cm)" "workspace_inv enc ws"
  shows "spec_of ws \<subseteq>\<^sub>m spec_of ws'"
proof -
  have "bmap_get (ws_revisions ws') k = bmap_get (ws_revisions ws) k" if "bmap_contains (ws_revisions ws) k" for k
    using apply_inv(2) [OF assms] that by (intro apply_inv(4) [OF assms]) auto
  then show ?thesis by (auto simp: map_le_def spec_of_def bmap_contains_def dom_def)
qed

lemma fork_spec_of:
  assumes "fork_with_semantics_at ws b s now = Inr (ws', rid)" "workspace_inv enc ws"
  shows "spec_of ws \<subseteq>\<^sub>m spec_of ws'"
proof -
  have "bmap_get (ws_revisions ws') k = bmap_get (ws_revisions ws) k" if "bmap_contains (ws_revisions ws) k" for k
    using fork_inv(2) [OF assms] that by (intro fork_inv(3) [OF assms]) auto
  then show ?thesis by (auto simp: map_le_def spec_of_def bmap_contains_def dom_def)
qed

end
