(* ===== verification/Equality_Workspace.thy ===== *)
theory Equality_Workspace
  imports Equality_Proofs Saturation Candidate_Workspace
begin

text \<open>
  The equality operations of the workspace (\<open>equality_create\<close> to \<open>equality_materialize\<close> of
  \<open>agentir-core/src/workspace.rs\<close>), the states that all operations together reach, and their
  invariant.
\<close>

subsection \<open>Operations\<close>

record optimizer =
  op_session :: session
  op_equality :: equality_store

abbreviation op_workspace :: "optimizer \<Rightarrow> workspace" where
  "op_workspace w \<equiv> se_workspace (op_session w)"

abbreviation op_candidates :: "optimizer \<Rightarrow> candidate_forest" where
  "op_candidates w \<equiv> se_candidates (op_session w)"

abbreviation op_limits :: "optimizer \<Rightarrow> resource_limits" where
  "op_limits w \<equiv> ws_limits (op_workspace w)"

text \<open>An operation on the store alone, and one on the forest and the store together.\<close>

definition on_store :: "optimizer \<Rightarrow> (equality_store \<times> 'a) res \<Rightarrow> (optimizer \<times> 'a) res" where
  "on_store w r = rmap (\<lambda>(st, x). (w\<lparr>op_equality := st\<rparr>, x)) r"

definition on_both :: "optimizer \<Rightarrow> (equality_store \<times> candidate_forest \<times> 'a) res \<Rightarrow> (optimizer \<times> 'a) res" where
  "on_both w r = rmap (\<lambda>(st, f, x).
     (w\<lparr>op_session := (op_session w)\<lparr>se_candidates := f\<rparr>, op_equality := st\<rparr>, x)) r"

definition equality_create ::
    "equality_encoders \<Rightarrow> optimizer \<Rightarrow> string \<Rightarrow> string \<Rightarrow> (optimizer \<times> equality_query) res" where
  "equality_create enc w cid rid =
     rbind (get_candidate (op_candidates w) cid) (\<lambda>c.
     rbind (frozen_candidate_source (op_workspace w) (cd_spec_revision c)) (\<lambda>(source, spec_hash).
       on_store w (create_space enc (op_equality w) (op_candidates w) cid rid source (cd_spec_revision c) spec_hash
         (op_limits w))))"

definition equality_query_of :: "optimizer \<Rightarrow> string \<Rightarrow> string \<Rightarrow> equality_query res" where
  "equality_query_of w sid rid = query_space (op_equality w) sid rid"

definition equality_source :: "optimizer \<Rightarrow> string \<Rightarrow> (program \<times> string) res" where
  "equality_source w sid =
     rbind (get_space (op_equality w) sid) (\<lambda>s.
       frozen_candidate_source (op_workspace w) (ea_spec_revision (es_anchor s)))"

definition equality_expand ::
    "equality_encoders \<Rightarrow> optimizer \<Rightarrow> string \<Rightarrow> string \<Rightarrow> string \<Rightarrow> nat \<Rightarrow> (optimizer \<times> expansion_result) res" where
  "equality_expand enc w sid base expected fuel =
     rbind (equality_source w sid) (\<lambda>(source, _).
       on_store w (expand_space enc (op_equality w) sid base expected fuel source (op_limits w)
         (length (fo_events (op_candidates w)))))"

definition equality_saturate ::
    "equality_encoders \<Rightarrow> optimizer \<Rightarrow> string \<Rightarrow> string \<Rightarrow> string \<Rightarrow> nat \<Rightarrow> (optimizer \<times> expansion_result) res" where
  "equality_saturate enc w sid base expected fuel =
     rbind (equality_source w sid) (\<lambda>(source, _).
       on_store w (saturate_space enc (op_equality w) sid base expected fuel source (op_limits w)
         (length (fo_events (op_candidates w)))))"

definition equality_explain ::
    "equality_encoders \<Rightarrow> optimizer \<Rightarrow> string \<Rightarrow> string \<Rightarrow> string \<Rightarrow> explanation res" where
  "equality_explain enc w sid rid node =
     rbind (equality_source w sid) (\<lambda>(source, _).
       explain enc (op_equality w) sid rid node source (op_limits w))"

definition equality_continuation_of :: "optimizer \<Rightarrow> string \<Rightarrow> string \<Rightarrow> equality_continuation res" where
  "equality_continuation_of w sid rid = continuation_of_space (op_equality w) sid rid (op_limits w)"

definition equality_node_program :: "optimizer \<Rightarrow> string \<Rightarrow> string \<Rightarrow> string \<Rightarrow> impl_program res" where
  "equality_node_program w sid rid node = node_program (op_equality w) sid rid node"

definition candidate_equality_check ::
    "equality_encoders \<Rightarrow> optimizer \<Rightarrow> string \<Rightarrow> string \<Rightarrow> string \<Rightarrow> string \<Rightarrow> string \<Rightarrow> string \<Rightarrow> string \<Rightarrow>
     (optimizer \<times> discharge_result) res" where
  "candidate_equality_check enc w cid base pid sid erid expected target =
     rbind (candidate_source (op_session w) cid) (\<lambda>(source, spec_hash).
       on_both w (candidate_discharge enc (op_equality w) (op_candidates w) cid base pid sid erid expected target
         source spec_hash (op_limits w)))"

definition equality_materialize ::
    "equality_encoders \<Rightarrow> optimizer \<Rightarrow> string \<Rightarrow> string \<Rightarrow> string \<Rightarrow> string \<Rightarrow> (optimizer \<times> materialization_result) res" where
  "equality_materialize enc w sid erid expected target =
     rbind (equality_source w sid) (\<lambda>(source, spec_hash).
       on_both w (materialize enc (op_equality w) (op_candidates w) sid erid expected target source spec_hash
         (op_limits w)))"

subsection \<open>Reachable states\<close>

inductive equality_step :: "equality_encoders \<Rightarrow> optimizer \<Rightarrow> optimizer \<Rightarrow> bool" for enc where
  create: "equality_create enc w cid rid = Inr (w', q) \<Longrightarrow> equality_step enc w w'"
| expand: "equality_expand enc w sid base expected fuel = Inr (w', r) \<Longrightarrow> equality_step enc w w'"
| saturate: "equality_saturate enc w sid base expected fuel = Inr (w', r) \<Longrightarrow> equality_step enc w w'"
| discharge: "candidate_equality_check enc w cid base pid sid erid expected target = Inr (w', d) \<Longrightarrow>
    equality_step enc w w'"
| materialize: "equality_materialize enc w sid erid expected target = Inr (w', m) \<Longrightarrow> equality_step enc w w'"

inductive optimizer_reachable :: "encoders \<Rightarrow> equality_encoders \<Rightarrow> optimizer \<Rightarrow> bool" for enc qenc where
  start: "workspace_with_limits_at enc wid limits now = Inr ws \<Longrightarrow>
    optimizer_reachable enc qenc
      \<lparr>op_session = \<lparr>se_workspace = ws, se_candidates = default_forest\<rparr>, op_equality = default_equality_store\<rparr>"
| transact: "optimizer_reachable enc qenc w \<Longrightarrow>
    apply_with_semantics_at enc (op_workspace w) tx s now = Inr (ws, cm) \<Longrightarrow>
    optimizer_reachable enc qenc (w\<lparr>op_session := (op_session w)\<lparr>se_workspace := ws\<rparr>\<rparr>)"
| branch: "optimizer_reachable enc qenc w \<Longrightarrow>
    fork_with_semantics_at (op_workspace w) b s now = Inr (ws, rid) \<Longrightarrow>
    optimizer_reachable enc qenc (w\<lparr>op_session := (op_session w)\<lparr>se_workspace := ws\<rparr>\<rparr>)"
| set_limits: "optimizer_reachable enc qenc w \<Longrightarrow>
    optimizer_reachable enc qenc
      (w\<lparr>op_session := (op_session w)\<lparr>se_workspace := (op_workspace w)\<lparr>ws_limits := limits\<rparr>\<rparr>\<rparr>)"
| candidate: "optimizer_reachable enc qenc w \<Longrightarrow> candidate_step (forest_encoders qenc) (op_session w) se \<Longrightarrow>
    optimizer_reachable enc qenc (w\<lparr>op_session := se\<rparr>)"
| equality: "optimizer_reachable enc qenc w \<Longrightarrow> equality_step qenc w w' \<Longrightarrow> optimizer_reachable enc qenc w'"

inductive_cases equality_stepE: "equality_step enc w w'"

subsection \<open>The invariant\<close>

definition optimizer_inv :: "encoders \<Rightarrow> equality_encoders \<Rightarrow> optimizer \<Rightarrow> bool" where
  "optimizer_inv enc qenc w \<longleftrightarrow>
     reachable enc (op_workspace w) \<and> forest_exact (spec_of (op_workspace w)) (op_candidates w) \<and>
     store_sound (op_equality w) \<and> store_settled qenc (op_equality w)"

lemma same_spaces:
  assumes "st_spaces st' = st_spaces st"
  shows "store_sound st' \<longleftrightarrow> store_sound st" "store_settled enc st' \<longleftrightarrow> store_settled enc st"
  by (simp_all add: store_sound_def store_settled_def assms)

lemma on_store_Inr: "on_store w r = Inr (w', x) \<longleftrightarrow> (\<exists>st. r = Inr (st, x) \<and> w' = w\<lparr>op_equality := st\<rparr>)"
  by (auto simp: on_store_def rmap_Inr_iff)

lemma on_both_Inr: "on_both w r = Inr (w', x) \<longleftrightarrow>
    (\<exists>st f. r = Inr (st, f, x) \<and> w' = w\<lparr>op_session := (op_session w)\<lparr>se_candidates := f\<rparr>, op_equality := st\<rparr>)"
  by (auto simp: on_both_def rmap_Inr_iff)

lemma equality_step_inv:
  assumes step: "equality_step qenc w w'" and inv: "optimizer_inv enc qenc w"
  shows "optimizer_inv enc qenc w'"
proof -
  from inv have w: "forest_exact (spec_of (op_workspace w)) (op_candidates w)" "store_sound (op_equality w)"
      "store_settled qenc (op_equality w)" by (simp_all add: optimizer_inv_def)
  from step show ?thesis
  proof cases
    case (create cid rid q)
    with inv show ?thesis
      by (auto simp: equality_create_def rbind_Inr_iff on_store_Inr optimizer_inv_def
          dest: create_space_sound create_space_settled)
  next
    case (expand sid base expected fuel r)
    with inv show ?thesis
      by (auto simp: equality_expand_def expand_space_def rbind_Inr_iff on_store_Inr optimizer_inv_def
          dest: publish_expansion_sound publish_expansion_settled)
  next
    case (saturate sid base expected fuel r)
    with inv show ?thesis
      by (auto simp: equality_saturate_def saturate_space_def rbind_Inr_iff on_store_Inr optimizer_inv_def
          dest: publish_expansion_sound publish_expansion_settled)
  next
    case (discharge cid base pid sid erid expected target d)
    then obtain source h st f where d: "candidate_discharge qenc (op_equality w) (op_candidates w) cid base pid sid erid
          expected target source h (op_limits w) = Inr (st, f, d)"
      and w': "w' = w\<lparr>op_session := (op_session w)\<lparr>se_candidates := f\<rparr>, op_equality := st\<rparr>"
      by (auto simp: candidate_equality_check_def rbind_Inr_iff on_both_Inr)
    from candidate_discharge_sound [OF d w(1)] inv same_spaces [of st "op_equality w"] show ?thesis
      by (simp add: w' optimizer_inv_def)
  next
    case (materialize sid erid expected target m)
    then obtain source h st f where d: "Equality_Forest.materialize qenc (op_equality w) (op_candidates w) sid erid
          expected target source h (op_limits w) = Inr (st, f, m)"
      and w': "w' = w\<lparr>op_session := (op_session w)\<lparr>se_candidates := f\<rparr>, op_equality := st\<rparr>"
      by (auto simp: equality_materialize_def rbind_Inr_iff on_both_Inr)
    from materialize_sound [OF d w(1)] inv same_spaces [of st "op_equality w"] show ?thesis
      by (simp add: w' optimizer_inv_def)
  qed
qed

lemma optimizer_invariant: "optimizer_reachable enc qenc w \<Longrightarrow> optimizer_inv enc qenc w"
proof (induction rule: optimizer_reachable.induct)
  case (start wid limits now ws)
  then show ?case
    by (auto intro: reachable.create
        simp: optimizer_inv_def default_forest_def forest_exact_def default_equality_store_def store_sound_def store_settled_def)
next
  case (transact w tx s now ws cm)
  then show ?case
    by (auto simp: optimizer_inv_def intro: reachable.transact forest_exact_mono apply_spec_of reachable_inv)
next
  case (branch w b s now ws rid)
  then show ?case
    by (auto simp: optimizer_inv_def intro: reachable.fork forest_exact_mono fork_spec_of reachable_inv)
next
  case (set_limits w limits)
  have "spec_of ((op_workspace w)\<lparr>ws_limits := limits\<rparr>) = spec_of (op_workspace w)" by (simp add: spec_of_def fun_eq_iff)
  with set_limits.IH show ?case by (auto simp: optimizer_inv_def intro: reachable.set_limits)
next
  case (candidate w se)
  from candidate_step_workspace [OF candidate.hyps(2)] candidate_step_exact [OF candidate.hyps(2)] candidate.IH
  show ?case by (simp add: optimizer_inv_def)
next
  case (equality w w')
  show ?case by (rule equality_step_inv [OF equality.hyps(2) equality.IH])
qed

subsection \<open>Consequences\<close>

text \<open>A frozen program of the workspace that evaluates is well formed, and typed at some valuation.\<close>

lemma evaluated_source_sound:
  assumes ws: "reachable enc ws" and r: "bmap_get (ws_revisions ws) k = Some r"
    and plain: "plain_program (rev_program r)"
    and ev: "evaluate_with_limits (rev_program r) inputs limits = Inr res"
  shows "sound_source (rev_program r)"
proof -
  let ?p = "rev_program r"
  from ev obtain params dims where prep: "prepare_evaluator ?p inputs limits = Inr (params, dims)"
    by (auto simp: evaluate_with_limits_def rbind_Inr_iff)
  then have "frozen ?p" and pre: "preflight_evaluation ?p dims limits = Inr ()"
    by (auto simp: prepare_evaluator_def rbind_Inr_iff split: if_split_asm)
  have "revision_ok enc r" using reachable_inv [OF ws] r unfolding workspace_inv_def by blast
  with \<open>frozen ?p\<close> have complete: "program_complete ?p" by (simp add: revision_ok_def)
  have g: "sound_graph (ws_allocator ws) ?p"
    using reachable_sound [OF ws] r unfolding workspace_sound_def by blast
  have "assumptions_hold (valuation_of dims) ?p"
    by (rule complete_assumptions [OF complete plain preflight_sound(1) [OF pre]]) simp
  with sound_graphD [OF g] show ?thesis unfolding sound_source_def by blast
qed

text \<open>A revision without proof debt evaluates like its frozen specification.\<close>

lemma debt_free_refines:
  assumes w: "optimizer_reachable enc qenc w"
    and c: "bmap_get (fo_candidates (op_candidates w)) cid = Some c" "bmap_get (cd_revisions c) rid = Some r"
    and debt: "cr_proof_debt r = []"
    and s: "bmap_get (ws_revisions (op_workspace w)) (cd_spec_revision c) = Some s" "plain_program (rev_program s)"
    and ev: "evaluate_with_limits (rev_program s) inputs limits = Inr res"
  shows "evaluate_with_limits (impl_as_program (cr_program r)) inputs limits = Inr res"
proof -
  let ?p = "rev_program s"
  from optimizer_invariant [OF w] have ws: "reachable enc (op_workspace w)"
    and f: "forest_exact (spec_of (op_workspace w)) (op_candidates w)" by (simp_all add: optimizer_inv_def)
  from f c have "revision_exact (spec_of (op_workspace w)) c r" by (simp add: forest_exact_def candidate_exact_def)
  with debt s(1) have exact: "exact ?p (cr_program r)" by (simp add: revision_exact_def spec_of_def)
  from evaluated_source_sound [OF ws s ev] exact have "refines ?p (cr_program r)" by (simp add: exact_def)
  with ev show ?thesis by (simp add: refines_def)
qed

text \<open>The programs of a space evaluate like its root, its edges are keyed, its fixed points closed.\<close>

lemma reachable_revision:
  assumes w: "optimizer_reachable enc qenc w"
    and s: "bmap_get (st_spaces (op_equality w)) sid = Some s" "bmap_get (es_revisions s) rid = Some r"
  obtains p where "es_root_node s = root_id" "revision_sound p r" "space_settled qenc s"
proof -
  from optimizer_invariant [OF w] s(1) have sp: "space_sound s" "space_settled qenc s"
    by (auto simp: optimizer_inv_def store_sound_def store_settled_def)
  with s(2) that show thesis by (auto simp: space_sound_def)
qed

lemma space_members_refine:
  assumes "optimizer_reachable enc qenc w"
    and "bmap_get (st_spaces (op_equality w)) sid = Some s" "bmap_get (es_revisions s) rid = Some r"
    and "bmap_get (er_nodes r) (es_root_node s) = Some n0" "impl_wf (en_program n0)"
    and "bmap_get (er_nodes r) i = Some n"
  shows "preserves (en_program n0) (en_program n)"
proof -
  from assms(1-3) obtain p where "es_root_node s = root_id" "revision_sound p r" by (rule reachable_revision)
  with assms(4-6) show ?thesis by (auto simp: revision_sound_def nodes_sound_def member_def)
qed

lemma reachable_keyed:
  assumes "optimizer_reachable enc qenc w"
    and "bmap_get (st_spaces (op_equality w)) sid = Some s" "bmap_get (es_revisions s) rid = Some r"
  shows "keyed r"
  using assms by (rule reachable_revision) (simp add: revision_sound_def)

lemma fixed_revision_closed:
  assumes "optimizer_reachable enc qenc w"
    and "bmap_get (st_spaces (op_equality w)) sid = Some s" "bmap_get (es_revisions s) rid = Some r"
    and "er_status r = StatusFixedPoint"
    and "next_node (es_allocator s) < u64_max" "next_edge (es_allocator s) < u64_max"
    and "bmap_get (er_nodes r) i = Some n"
  shows "node_closed qenc r n"
proof -
  from assms(1-3) have "space_settled qenc s" by (rule reachable_revision)
  with assms(3-6) have "settled qenc r" "er_worklist r = []" by (auto simp: space_settled_def roomy_def)
  with assms(7) show ?thesis by (auto simp: settled_def)
qed

end
