(* ===== verification/Impl_Examples.thy ===== *)
theory Impl_Examples
  imports Examples Equality_Workspace
begin

text \<open>
  Concrete implementations: the lowering of a frozen scalar program, its known rewrites, and the
  states of the optimizer around it.
\<close>

subsection \<open>A frozen program\<close>

definition cast_encoders :: equality_encoders where
  "cast_encoders =
     \<lparr>encode_attributes = (\<lambda>_. ''{}''), encode_program = (\<lambda>_. ''{}''),
      encode_canonical = (\<lambda>_. ''{}''), sha256_hex = (\<lambda>s. [last s]),
      encode_impl = (\<lambda>c. show_nat (length (cprog_nodes (icp_graph c)))),
      encode_candidate = (\<lambda>_. ''{}''), encode_evidence = (\<lambda>_. ''{}''), encode_counterexample = (\<lambda>_. ''{}''),
      encode_proposal = (\<lambda>_. ''{}''), crate_version = ''0'',
      encode_descriptor = (\<lambda>_. ''{}''), encode_equality = (\<lambda>_. ''{}''), encode_store = (\<lambda>_. ''{}''),
      encode_path = (\<lambda>_. ''{}'')\<rparr>"

abbreviation cast_spec_encoders :: encoders where
  "cast_spec_encoders \<equiv> encoders.truncate cast_encoders"

abbreviation cast_candidate_encoders :: candidate_encoders where
  "cast_candidate_encoders \<equiv> forest_encoders cast_encoders"

definition cast_start :: workspace where
  "cast_start = projr (workspace_with_limits_at cast_spec_encoders ''w'' default_limits 0)"

lemma cast_start_ok: "workspace_with_limits_at cast_spec_encoders ''w'' default_limits 0 = Inr cast_start"
  unfolding cast_start_def by (rule is_ok_projr) code_simp

definition cast_actions :: "action list" where
  "cast_actions =
     [CreateParameter ''$x'' ''x'' (Scalar I32),
      CreateOp ''$c'' ''cast'' [''$x''] [(''target_type'', JString ''i32'')] None, SetOutput ''m'' ''$c'', FreezeSpec]"

definition cast_transaction :: transaction where
  "cast_transaction =
     \<lparr>tx_workspace = ''w'', base_revision = ''r0'', tx_actions = cast_actions,
      client_transaction_id = None, allow_branch = False\<rparr>"

definition cast_commit :: "workspace \<times> commit_result" where
  "cast_commit =
     projr (apply_with_semantics_at cast_spec_encoders cast_start cast_transaction core_semantics 0)"

lemma cast_commit_ok:
  "apply_with_semantics_at cast_spec_encoders cast_start cast_transaction core_semantics 0 =
   Inr (fst cast_commit, snd cast_commit)"
  unfolding prod.collapse cast_commit_def by (rule is_ok_projr) code_simp

definition cast_program :: program where
  "cast_program =
     \<lparr>dimensions = [], dimension_names = [],
      operations =
        [(''op1'',
          \<lparr>op_id = ''op1'', op_opcode = Parameter, op_operands = [], op_results = [''v1''],
           op_attributes = [(''name'', JString ''x''), (''type'', JString ''i32'')],
           op_region = None, op_provenance = ''a1'', op_result_types = [Scalar I32]\<rparr>),
         (''op2'',
          \<lparr>op_id = ''op2'', op_opcode = Cast, op_operands = [''v1''], op_results = [''v2''],
           op_attributes = [(''target_type'', JString ''i32'')],
           op_region = None, op_provenance = ''a2'', op_result_types = [Scalar I32]\<rparr>)],
      operation_order = [''op1'', ''op2''],
      vals =
        [(''v1'', \<lparr>v_id = ''v1'', v_ty = Scalar I32, v_origin = OperationOrigin ''op1'', v_name = Some ''x''\<rparr>),
         (''v2'', \<lparr>v_id = ''v2'', v_ty = Scalar I32, v_origin = OperationOrigin ''op2'', v_name = None\<rparr>)],
      parameters = [(''x'', ''v1'')], constants = [], outputs = [(''m'', ''v2'')], holes = [], constraints = [],
      obligations =
        [(''o1'',
          \<lparr>ob_id = ''o1'', ob_kind = TypeWellFormed, ob_proposition = JObject [(''type'', JString ''i32'')],
           shape_compatibility = None, ob_origin = \<lparr>oo_revision = Some ''r1'', oo_action = ''a1''\<rparr>,
           ob_status = ObProved, discharge_methods = []\<rparr>),
         (''o2'',
          \<lparr>ob_id = ''o2'', ob_kind = SpecComplete, ob_proposition = JObject [(''outputs'', JArray [JString ''m''])],
           shape_compatibility = None, ob_origin = \<lparr>oo_revision = Some ''r1'', oo_action = ''a4''\<rparr>,
           ob_status = ObProved, discharge_methods = []\<rparr>)],
      numeric_contract_of = \<lparr>fma = FmaAllowed, reassociation = False, determinism = DetRequired\<rparr>,
      frozen = True\<rparr>"

lemma cast_source: "frozen_candidate_source (fst cast_commit) ''r1'' = Inr (cast_program, ''}'')"
  by code_simp

lemma cast_limits: "ws_limits (fst cast_commit) = default_limits"
  by code_simp

subsection \<open>A candidate\<close>

definition cast_impl :: impl_program where
  "cast_impl =
     \<lparr>ip_dimensions = [],
      ip_operations =
        [(''iop1'',
          \<lparr>io_id = ''iop1'', io_opcode = Parameter, io_operands = [], io_results = [''iv1''],
           io_attributes = [(''name'', JString ''x''), (''type'', JString ''i32'')], io_region = None,
           io_result_types = [Scalar I32],
           io_source_link = \<lparr>spec_operation = Some ''op1'', spec_value = Some ''v1'', rewrite_rule = None\<rparr>\<rparr>),
         (''iop2'',
          \<lparr>io_id = ''iop2'', io_opcode = Cast, io_operands = [''iv1''], io_results = [''iv2''],
           io_attributes = [(''target_type'', JString ''i32'')], io_region = None,
           io_result_types = [Scalar I32],
           io_source_link = \<lparr>spec_operation = Some ''op2'', spec_value = Some ''v2'', rewrite_rule = None\<rparr>\<rparr>)],
      ip_order = [''iop1'', ''iop2''],
      ip_values =
        [(''iv1'',
          \<lparr>iv_id = ''iv1'', iv_ty = Scalar I32, iv_origin = ImplOperationOrigin ''iop1'', iv_name = Some ''x'',
           iv_source_link = \<lparr>spec_operation = Some ''op1'', spec_value = Some ''v1'', rewrite_rule = None\<rparr>\<rparr>),
         (''iv2'',
          \<lparr>iv_id = ''iv2'', iv_ty = Scalar I32, iv_origin = ImplOperationOrigin ''iop2'', iv_name = None,
           iv_source_link = \<lparr>spec_operation = Some ''op2'', spec_value = Some ''v2'', rewrite_rule = None\<rparr>\<rparr>)],
      ip_parameters = [(''x'', ''iv1'')], ip_constants = [],
      ip_outputs = [(''m'', \<lparr>iout_name = ''m'', iout_value = ''iv2'', iout_ty = Scalar I32\<rparr>)],
      ip_constraints = [],
      ip_contract = \<lparr>fma = FmaAllowed, reassociation = False, determinism = DetRequired\<rparr>\<rparr>"

text \<open>The program after the elimination of the cast.\<close>

definition copy_impl :: impl_program where
  "copy_impl =
     \<lparr>ip_dimensions = [],
      ip_operations =
        [(''iop1'',
          \<lparr>io_id = ''iop1'', io_opcode = Parameter, io_operands = [], io_results = [''iv1''],
           io_attributes = [(''name'', JString ''x''), (''type'', JString ''i32'')], io_region = None,
           io_result_types = [Scalar I32],
           io_source_link = \<lparr>spec_operation = Some ''op1'', spec_value = Some ''v1'', rewrite_rule = None\<rparr>\<rparr>)],
      ip_order = [''iop1''],
      ip_values =
        [(''iv1'',
          \<lparr>iv_id = ''iv1'', iv_ty = Scalar I32, iv_origin = ImplOperationOrigin ''iop1'', iv_name = Some ''x'',
           iv_source_link = \<lparr>spec_operation = Some ''op1'', spec_value = Some ''v1'', rewrite_rule = None\<rparr>\<rparr>)],
      ip_parameters = [(''x'', ''iv1'')], ip_constants = [],
      ip_outputs = [(''m'', \<lparr>iout_name = ''m'', iout_value = ''iv1'', iout_ty = Scalar I32\<rparr>)],
      ip_constraints = [],
      ip_contract = \<lparr>fma = FmaAllowed, reassociation = False, determinism = DetRequired\<rparr>\<rparr>"

lemma cast_verified: "verify_impl cast_impl cast_program default_limits = Inr ()"
  by code_simp

lemma cast_rewritten: "apply_known_rewrite cast_impl ''eliminate_noop_cast'' ''iop2'' = Inr (copy_impl, cast_conditions)"
  by code_simp

definition cast_revision :: candidate_revision where
  "cast_revision =
     \<lparr>cr_id = ''cr1'', cr_parents = [], cr_program = cast_impl,
      cr_impl_hash = ''1'', cr_candidate_hash = ''}'', cr_hash_version = 1, cr_state = CsEquivalent,
      cr_equivalence =
        \<lparr>eo_id = ''co1'', eo_relation = EquivalentToSpec, eo_spec_hash = ''}'', eo_candidate = ''c1'',
         eo_revision = ''cr1'', eo_impl_hash = ''1'', eo_status = EqProved\<rparr>,
      cr_proof_chain =
        [\<lparr>ct_rule = ''identity_lowering'', ct_before_impl_hash = None, ct_after_impl_hash = ''1'', ct_targets = [],
          ct_side_conditions = [''complete frozen SpecIR'', ''structural identity lowering''],
          ct_impl_semantics = 1, ct_evidence = ''ev1''\<rparr>],
      cr_evidence = [''ev1''], cr_proof_frontier = None, cr_proof_debt = [], cr_translations = [],
      cr_fallback = None, cr_memberships = [], cr_materializations = []\<rparr>"

definition cast_candidate :: candidate where
  "cast_candidate =
     \<lparr>cd_id = ''c1'', cd_spec_revision = ''r1'', cd_spec_hash = ''}'', cd_root_revision = ''cr1'', cd_head = ''cr1'',
      cd_revisions = [(''cr1'', cast_revision)], cd_parent_candidate = None, cd_forked_from = None\<rparr>"

definition cast_forest :: candidate_forest where
  "cast_forest =
     \<lparr>fo_candidates = [(''c1'', cast_candidate)],
      fo_evidence =
        [(''ev1'',
          \<lparr>ev_id = ''ev1'', ev_class = Correctness, ev_kind = IdentityLowering, ev_spec_hash = ''}'',
           ev_candidate = ''c1'', ev_revision = ''cr1'', ev_input_impl_hash = None, ev_output_impl_hash = ''1'',
           ev_method = ''identity_lowering'', ev_parameters = [], ev_result = EvPassed, ev_counterexample = None,
           ev_provenance = \<lparr>compiler_version = ''0'', candidate_semantics = 1, impl_semantics = 1\<rparr>\<rparr>)],
      fo_proposals = [],
      fo_allocator =
        \<lparr>next_candidate = 1, next_candidate_revision = 1, next_impl_operation = 2, next_impl_value = 2,
         next_evidence = 1, next_candidate_obligation = 1, next_proposal = 0\<rparr>,
      fo_events = [(1, CandidateCreated ''c1'' ''r1'' EquivalentToSpec ''cr1'' ''1'' ''}'')]\<rparr>"

lemma cast_created:
  "rmap fst (create_candidate cast_candidate_encoders default_forest ''r1'' ''}'' cast_program EquivalentToSpec
     default_limits) = Inr cast_forest"
  by code_simp

subsection \<open>An equality space\<close>

definition cast_root :: equality_node where
  "cast_root = \<lparr>en_id = ''en1'', en_program = cast_impl, en_impl_hash = ''1''\<rparr>"

definition copy_node :: equality_node where
  "copy_node = \<lparr>en_id = ''en2'', en_program = copy_impl, en_impl_hash = ''0''\<rparr>"

definition cast_edge :: proof_edge where
  "cast_edge =
     \<lparr>ee_id = ''ee1'', ee_source = ''en1'', ee_target = ''en2'',
      ee_descriptor = ProofDescriptor ''1'' ''0'' ''eliminate_noop_cast''
        \<lparr>operation_order_index = 1, locator_opcode = ''cast''\<rparr> [''source_type == target_type''] 1 1 1,
      ee_digest = ''}''\<rparr>"

definition cast_open :: equality_revision where
  "cast_open =
     \<lparr>er_id = ''er1'', er_parents = [], er_nodes = [(''en1'', cast_root)], er_edges = [], er_worklist = [''en1''],
      er_status = StatusOpen, er_hash = ''}'', er_memberships = [], er_materializations = []\<rparr>"

definition cast_fixed :: equality_revision where
  "cast_fixed =
     \<lparr>er_id = ''er2'', er_parents = [''er1''], er_nodes = [(''en1'', cast_root), (''en2'', copy_node)],
      er_edges = [(''ee1'', cast_edge)], er_worklist = [], er_status = StatusFixedPoint, er_hash = ''}'',
      er_memberships = [], er_materializations = []\<rparr>"

definition cast_space :: equality_space where
  "cast_space =
     \<lparr>es_id = ''eqs1'',
      es_anchor = \<lparr>ea_spec_revision = ''r1'', ea_candidate = ''c1'', ea_candidate_revision = ''cr1'',
        ea_candidate_hash = ''}'', ea_root_impl_hash = ''1''\<rparr>,
      es_spec_hash = ''}'', es_root_node = ''en1'', es_head = ''er1'', es_revisions = [(''er1'', cast_open)],
      es_allocator = \<lparr>next_space = 0, next_equality_revision = 1, next_node = 1, next_edge = 0\<rparr>\<rparr>"

definition fixed_space :: equality_space where
  "fixed_space =
     cast_space\<lparr>es_head := ''er2'', es_revisions := [(''er1'', cast_open), (''er2'', cast_fixed)],
       es_allocator := \<lparr>next_space = 0, next_equality_revision = 2, next_node = 2, next_edge = 1\<rparr>\<rparr>"

definition cast_store :: equality_store where
  "cast_store =
     \<lparr>st_spaces = [(''eqs1'', cast_space)],
      st_allocator = \<lparr>next_space = 1, next_equality_revision = 0, next_node = 0, next_edge = 0\<rparr>,
      st_events = [(1, 1, SpaceCreated ''c1'' ''cr1'' ''eqs1'' ''er1'' ''}'')]\<rparr>"

definition fixed_store :: equality_store where
  "fixed_store =
     cast_store\<lparr>st_spaces := [(''eqs1'', fixed_space)],
       st_events := [(1, 1, SpaceCreated ''c1'' ''cr1'' ''eqs1'' ''er1'' ''}''),
                     (1, 1, SpaceSaturated ''eqs1'' ''er1'' ''}'' 4 ''er2'' ''}'')]\<rparr>"

definition cast_expansion :: expansion_result where
  "cast_expansion =
     \<lparr>xr_space = ''eqs1'', xr_revision = ''er2'', xr_hash = ''}'', xr_status = StatusFixedPoint, xr_processed = 2,
      xr_new_nodes = 1, xr_merged_nodes = 0, xr_new_edges = 1, xr_node_count = 2, xr_edge_count = 1,
      xr_remaining = 0\<rparr>"

lemma cast_space_created:
  "rmap fst (create_space cast_encoders default_equality_store cast_forest ''c1'' ''cr1'' cast_program ''r1'' ''}''
     default_limits) = Inr cast_store"
  by code_simp

lemma cast_saturated:
  "saturate_space cast_encoders cast_store ''eqs1'' ''er1'' ''}'' 4 cast_program default_limits 1 =
   Inr (fixed_store, cast_expansion)"
  by code_simp

lemma cast_explained:
  "rmap xp_edges (explanation_for cast_encoders fixed_space cast_fixed ''en2'' default_limits) = Inr [cast_edge]"
  by code_simp

subsection \<open>Reachable states\<close>

definition cast_optimizer :: optimizer where
  "cast_optimizer =
     \<lparr>op_session = \<lparr>se_workspace = fst cast_commit, se_candidates = cast_forest\<rparr>, op_equality = fixed_store\<rparr>"

lemma cast_optimizer_reachable: "optimizer_reachable cast_spec_encoders cast_encoders cast_optimizer"
proof -
  let ?se = "\<lambda>w f. \<lparr>se_workspace = w, se_candidates = f\<rparr>" and ?w = "fst cast_commit"
  let ?op = "\<lambda>se st. \<lparr>op_session = se, op_equality = st\<rparr>"
  have "optimizer_reachable cast_spec_encoders cast_encoders (?op (?se cast_start default_forest) default_equality_store)"
    by (rule optimizer_reachable.start [OF cast_start_ok])
  from optimizer_reachable.transact [OF this, simplified, OF cast_commit_ok]
  have start: "optimizer_reachable cast_spec_encoders cast_encoders (?op (?se ?w default_forest) default_equality_store)"
    by simp
  from cast_created obtain rep where "create_candidate cast_candidate_encoders default_forest ''r1'' ''}'' cast_program
      EquivalentToSpec default_limits = Inr (cast_forest, rep)" by (auto simp: rmap_Inr_iff)
  then have "candidate_create cast_candidate_encoders (?se ?w default_forest) ''r1'' EquivalentToSpec =
      Inr (?se ?w cast_forest, rep)"
    by (simp add: candidate_create_def cast_source cast_limits on_forest_def)
  from optimizer_reachable.candidate [OF start, of "?se ?w cast_forest"] candidate_step.candidate [OF this]
  have created: "optimizer_reachable cast_spec_encoders cast_encoders (?op (?se ?w cast_forest) default_equality_store)"
    by simp
  have get: "get_candidate cast_forest ''c1'' = Inr cast_candidate"
    by (simp add: get_candidate_def cast_forest_def bmap_get_def)
  from cast_space_created obtain q where "create_space cast_encoders default_equality_store cast_forest ''c1'' ''cr1''
      cast_program ''r1'' ''}'' default_limits = Inr (cast_store, q)" by (auto simp: rmap_Inr_iff)
  then have "equality_create cast_encoders (?op (?se ?w cast_forest) default_equality_store) ''c1'' ''cr1'' =
      Inr (?op (?se ?w cast_forest) cast_store, q)"
    by (simp add: equality_create_def get cast_candidate_def cast_source cast_limits on_store_def)
  from optimizer_reachable.equality [OF created equality_step.create [OF this]]
  have rooted: "optimizer_reachable cast_spec_encoders cast_encoders (?op (?se ?w cast_forest) cast_store)" .
  have "equality_source (?op (?se ?w cast_forest) cast_store) ''eqs1'' = Inr (cast_program, ''}'')"
    by (simp add: equality_source_def get_space_def cast_store_def cast_space_def cast_source bmap_get_def)
  then have "equality_saturate cast_encoders (?op (?se ?w cast_forest) cast_store) ''eqs1'' ''er1'' ''}'' 4 =
      Inr (cast_optimizer, cast_expansion)"
    using cast_saturated by (simp add: equality_saturate_def cast_limits cast_forest_def on_store_def cast_optimizer_def)
  from optimizer_reachable.equality [OF rooted equality_step.saturate [OF this]] show ?thesis .
qed

lemma fixed_lookups:
  "bmap_get (st_spaces (op_equality cast_optimizer)) ''eqs1'' = Some fixed_space"
  "bmap_get (es_revisions fixed_space) ''er2'' = Some cast_fixed"
  "bmap_get (er_nodes cast_fixed) (es_root_node fixed_space) = Some cast_root"
  "bmap_get (er_nodes cast_fixed) ''en2'' = Some copy_node"
  by code_simp+

subsection \<open>Evaluation\<close>

definition cast_inputs :: "(string, json) bmap" where
  "cast_inputs = [(''x'', json_int 7)]"

definition cast_result :: evaluation_result where
  "cast_result = \<lparr>result_outputs = [(''m'', json_int 7)], result_dimensions = []\<rparr>"

lemma cast_program_evaluates: "evaluate_with_limits cast_program cast_inputs default_limits = Inr cast_result"
  by code_simp

lemma cast_impl_evaluates: "evaluate_with_limits (impl_as_program cast_impl) cast_inputs default_limits = Inr cast_result"
  by code_simp

lemma cast_revision_stored:
  "bmap_get (ws_revisions (fst cast_commit)) ''r1'' = Some (projr (get_revision (fst cast_commit) ''r1''))"
  "rev_program (projr (get_revision (fst cast_commit) ''r1'')) = cast_program"
proof -
  from cast_source obtain r where "get_revision (fst cast_commit) ''r1'' = Inr r" "rev_program r = cast_program"
    by (auto simp: frozen_candidate_source_def rbind_Inr_iff rmap_Inr_iff split: if_split_asm)
  then show "bmap_get (ws_revisions (fst cast_commit)) ''r1'' = Some (projr (get_revision (fst cast_commit) ''r1''))"
    "rev_program (projr (get_revision (fst cast_commit) ''r1'')) = cast_program"
    by (simp_all add: get_revision_def ok_or_Inr_iff)
qed

lemma cast_impl_lowered:
  "rmap fst (identity_lower cast_program default_candidate_allocator) = Inr cast_impl"
  by code_simp

lemma cast_program_sound: "\<exists>a v. graph_wf a cast_program \<and> graph_typed v cast_program"
proof -
  have "plain_program cast_program" by code_simp
  moreover have "reachable cast_spec_encoders (fst cast_commit)"
    by (rule reachable.transact [OF reachable.create [OF cast_start_ok] cast_commit_ok])
  ultimately show ?thesis
    using evaluated_source_sound [OF _ cast_revision_stored(1)] cast_program_evaluates
    unfolding cast_revision_stored(2) sound_source_def by blast
qed

lemma cast_impl_wf: "impl_wf cast_impl"
  using cast_impl_lowered cast_program_sound identity_lower_wf by (auto simp: rmap_Inr_iff)

subsection \<open>A cycle\<close>

text \<open>An addition whose operand is its own result; the workspace cannot build it.\<close>

definition cyclic_program :: program where
  "cyclic_program =
     cast_program\<lparr>
       operations :=
         [(''op1'',
           \<lparr>op_id = ''op1'', op_opcode = Cast, op_operands = [''v1''], op_results = [''v1''],
            op_attributes = [(''target_type'', JString ''i32'')],
            op_region = None, op_provenance = ''a1'', op_result_types = [Scalar I32]\<rparr>)],
       operation_order := [''op1''],
       vals := [(''v1'', \<lparr>v_id = ''v1'', v_ty = Scalar I32, v_origin = OperationOrigin ''op1'', v_name = None\<rparr>)],
       parameters := [], outputs := [(''m'', ''v1'')]\<rparr>"

lemma cyclic_depends: "(''op1'', ''op1'') \<in> depends cyclic_program"
proof -
  define op where "op = projr (ok_or Panic (bmap_get (operations cyclic_program) ''op1''))"
  have "bmap_get (operations cyclic_program) ''op1'' = Some op" "''v1'' \<in> set (source_deps op)"
    "source_op cyclic_program ''v1'' = Some ''op1''"
    unfolding op_def by code_simp+
  then show ?thesis unfolding depends_def by blast
qed

end
