(* ===== verification/Spec2Isabelle.thy ===== *)
theory Spec2Isabelle
  imports Canonical Examples References Checks Commit_Limits Evaluation Type_Codecs Numerics Boundary_Cases Program_Safety
    Kinds Impl_Examples
begin

text \<open>
  Verification of AgentIR, a compiler core that agents drive through typed transactions. The
  program is a Rust workspace under \<open>src/crates\<close>; this development models the crates
  \<open>agentir-core\<close> (specification stage, candidate stage and equality stage) and \<open>agentir-eval\<close> (the
  reference interpreter).

  How the program works. A workspace (\<open>workspace.rs\<close>) holds immutable revisions of a program
  graph, SpecIR. A client builds a graph by transactions of typed actions; inference
  (\<open>spec.rs\<close>) answers with the help of a fact engine for symbolic extents (\<open>constraints.rs\<close>,
  \<open>shapes.rs\<close>), and a shape equality that it can neither prove nor refute becomes a proof
  obligation. A complete graph is frozen and hashed (\<open>canonical.rs\<close>, \<open>semantic.rs\<close>). The
  interpreter evaluates a frozen graph on JSON inputs. A frozen graph is then lowered to an
  implementation graph, ImplIR (\<open>impl_ir.rs\<close>), and a candidate branch (\<open>candidate.rs\<close>) applies
  trusted rewrites to it, or speculative proposals that leave proof debt. Equality spaces
  (\<open>equality.rs\<close>) grow sets of implementations that trusted rewrites join, explain why a member
  equals the root, discharge proof debt by such explanations and turn members into candidates.

  Theories and sources.
  \<^item> \<open>Prelude\<close>, \<open>Rust_Strings\<close>, \<open>Ordered_Map\<close>: Rust's \<open>Result\<close> with panics and divergence as
    failures of their own, machine integers, strings, and \<open>BTreeMap\<close> and \<open>BTreeSet\<close> as sorted
    lists (locale \<open>ordered_map\<close>).
  \<^item> \<open>Diagnostics\<close>, \<open>Resources\<close>: \<open>diagnostics.rs\<close>, \<open>resources.rs\<close>.
  \<^item> \<open>Dim_Types\<close>, \<open>Type_Codecs\<close>: \<open>types.rs\<close> (locale \<open>codec\<close>). \<open>Shapes\<close>: \<open>shapes.rs\<close> (locale
    \<open>shape_oracle\<close>). \<open>Constraints\<close>, \<open>Constraint_Proofs\<close>: \<open>constraints.rs\<close>.
  \<^item> \<open>Spec_IR\<close>: \<open>ids.rs\<close>, \<open>ir.rs\<close>, \<open>holes.rs\<close>, \<open>obligations.rs\<close>. \<open>Canonical\<close>: \<open>canonical.rs\<close>,
    \<open>semantic.rs\<close>. \<open>Inference\<close>, \<open>Inference_Proofs\<close>: \<open>spec.rs\<close> (locales \<open>compatibility\<close> and
    \<open>tracked_compatibility\<close>).
  \<^item> \<open>Transactions\<close>, \<open>Workspace\<close>, \<open>Workspace_Proofs\<close>, \<open>Revisions\<close>: \<open>actions.rs\<close>, \<open>transaction.rs\<close>,
    \<open>revision.rs\<close>, \<open>workspace.rs\<close>. Typing of what transactions build: \<open>Graph_Typing\<close>,
    \<open>Region_Typing\<close>, \<open>Transaction_Typing\<close>, \<open>Action_Typing\<close>, \<open>Operation_Typing\<close>,
    \<open>Workspace_Typing\<close>. References of clients: \<open>References\<close>; checks against freezing: \<open>Checks\<close>; the
    resource preflight against what transactions add: \<open>Commit_Limits\<close>.
  \<^item> \<open>Floats\<close>, \<open>Float_Proofs\<close>, \<open>Runtime\<close>, \<open>Runtime_Proofs\<close>, \<open>Numerics\<close>, \<open>Dense_Inputs\<close>,
    \<open>Interpreter\<close>, \<open>Interpreter_Proofs\<close>, \<open>Interpreter_Types\<close>, \<open>Evaluation\<close>, \<open>Program_Safety\<close>:
    \<open>agentir-eval/src/lib.rs\<close>.
  \<^item> \<open>Impl_IR\<close>, \<open>Impl_Proofs\<close>, \<open>Kinds\<close>, \<open>Renaming\<close>, \<open>Lowering_Order\<close>, \<open>Lowering_Proofs\<close>,
    \<open>Lowering_Results\<close>: \<open>impl_ir.rs\<close>.
  \<^item> \<open>Rewrites\<close>, \<open>Folding\<close>, \<open>Rewrite_Proofs\<close>, \<open>Rewrite_Wf\<close> (locale \<open>sound_rewriting\<close>), \<open>Candidates\<close>,
    \<open>Candidate_Checks\<close>, \<open>Proposals\<close>, \<open>Candidate_Forest\<close>, \<open>Candidate_Proofs\<close>: \<open>candidate.rs\<close>.
    \<open>Candidate_Workspace\<close>: the candidate operations of \<open>workspace.rs\<close>.
  \<^item> \<open>Equality\<close>, \<open>Equality_Paths\<close>, \<open>Equality_Forest\<close>, \<open>Path_Search\<close>, \<open>Saturation\<close>,
    \<open>Equality_Proofs\<close>: \<open>equality.rs\<close>. \<open>Equality_Workspace\<close>: the equality operations of
    \<open>workspace.rs\<close> and the states that all operations together reach.
  \<^item> \<open>Examples\<close>, \<open>Impl_Examples\<close>, \<open>Boundary_Cases\<close>: concrete runs, on which the theorems are
    exercised, and behaviours at the edges.

  How state corresponds. Structs are records and enums datatypes with the fields and
  constructors of the source; identifiers and hashes are strings. A method on \<open>&mut self\<close> returns
  the new state; the code stages a copy and replaces its state only on success, so an error
  leaves the state as it was. A \<open>?\<close> is \<open>rbind\<close>, a loop over a collection is \<open>rfold\<close> or \<open>traverse\<close>.
  Interpolated arguments of messages are left as they stand in the format string.

  What the lemmas show. The fact engine and inference are sound and complete for all valuations
  of the dimensions; transactions keep the graph typed under its assumptions and within the
  limits of the workspace; workspaces keep their revisions immutable and truthful; evaluation refines a denotation, is type safe and
  rounds correctly; lowering and the trusted rewrites preserve results, so candidates without
  proof debt compute what the specification computes and the members of an equality space what
  its root computes; equality spaces at a fixed point are closed under the rewrites, and
  explanations are shortest paths.

  Fuel and bounds. \<open>lowering_fuel\<close>, \<open>reachable_fuel\<close> and \<open>value_fuel\<close> exceed the number of nodes
  that a walk can enter: running out is the failure \<open>Diverge\<close>, which
  \<open>reachability_walk_ends\<close> and \<open>stored_program_evaluates_safely\<close> exclude, and
  \<open>lowering_walk_ends\<close> for specifications without a cycle under their interface; on a cyclic one
  no fuel leads to success, because the code recurses without end. The fuel of an expansion is
  the caller's. The search for explanations is a partial function, proved to end. The loop of
  the fact engine has the number of its symbols as fuel. Numbers that Rust keeps in \<open>u64\<close> and
  that only count are natural numbers, saturating where the code saturates; \<open>i32\<close> values are
  words, \<open>i64\<close> coefficients integers with their range checked, and \<open>f32\<close> values are sign,
  exponent and mantissa.

  Not modelled. The later stages of the same struct (memory plans, schedules and targets, back
  ends, artifacts and measurements), the continuation views, snapshot migration and replay, the
  differential validation of \<open>agentir-eval\<close> and its evaluation of memory plans and schedules, code
  generation, the runtimes and workers, the archive, the protocol server and command lines, the
  authoring harness and the policy evaluation: they are clients of the stages modelled here or
  do input and output. \<open>serde_json\<close> and SHA-256 are code that is not under \<open>src\<close>: the encoders
  and the digest are fields of the records \<open>encoders\<close>, \<open>impl_encoders\<close>, \<open>candidate_encoders\<close> and
  \<open>equality_encoders\<close>, about which no theorem assumes anything.
\<close>

section \<open>Stored programs\<close>

text \<open>
  C1. A program that a reachable workspace stores evaluates safely (\<open>evaluate_with_limits\<close>) once
  its inputs are accepted and preflighted: it neither panics nor runs forever, and gives either
  one JSON value per output or an error of arithmetic, of a cycle or of an open hole. The
  hypotheses on the program exclude holes filled with holes, holes under constraints of their
  own and regions that capture tensors; the hypothesis on the inputs asks for arrays that are
  arrays down to the same depth everywhere.
\<close>

theorem stored_program_evaluates_safely:
  assumes "reachable enc ws" "bmap_get (ws_revisions ws) k = Some r"
    and "plain_program (rev_program r)" "uniform_inputs (rev_program r) inputs"
    and "prepare_evaluator (rev_program r) inputs limits = Inr (params, dims)"
  shows "outcome (\<lambda>res. set (bmap_keys (result_outputs res)) = set (bmap_keys (outputs (rev_program r))) \<and>
      result_dimensions res = dims) evaluation_errors (evaluate_with_limits (rev_program r) inputs limits)"
  using assms by (rule stored_program_safe)

theorem stored_program_evaluates_safely_witness:
  "outcome (\<lambda>res. set (bmap_keys (result_outputs res)) = {''s''} \<and> result_dimensions res = [(''M'', 2), (''N'', 2)])
     evaluation_errors (evaluate_with_limits example_program example_inputs default_limits)"
proof -
  note r = is_ok_projr [OF example_revision_ok, unfolded get_revision_Inr]
  have "rmap snd (prepare_evaluator example_program example_inputs default_limits) = Inr [(''M'', 2), (''N'', 2)]"
    by code_simp
  then obtain params where
    "prepare_evaluator example_program example_inputs default_limits = Inr (params, [(''M'', 2), (''N'', 2)])"
    by (auto simp: rmap_Inr_iff)
  moreover have "plain_program example_program" by code_simp
  moreover have "uniform_inputs example_program example_inputs" by code_simp
  moreover have "set (bmap_keys (outputs example_program)) = {''s''}" by code_simp
  ultimately show ?thesis
    using stored_program_evaluates_safely [OF example_commit_reachable r]
    unfolding example_program_def [symmetric] by simp
qed

text \<open>
  C2. Every program that a reachable workspace stores is well formed, and whenever a valuation
  of the dimensions satisfies its constraints, those of its holes and its open shape
  obligations, every value it defines has, at that valuation, the type it is declared with.
\<close>

theorem stored_programs_typed:
  assumes "reachable enc ws" "bmap_get (ws_revisions ws) k = Some r"
  shows "graph_wf (ws_allocator ws) (rev_program r) \<and>
    (\<forall>v. assumptions_hold v (rev_program r) \<longrightarrow> graph_typed v (rev_program r))"
  using reachable_sound [OF assms(1)] assms(2) unfolding workspace_sound_def sound_graph_def by blast

theorem stored_programs_typed_witness:
  "graph_wf (ws_allocator (fst example_commit)) example_program \<and> graph_typed (\<lambda>_. 2) example_program"
proof -
  note r = is_ok_projr [OF example_revision_ok, unfolded get_revision_Inr]
  have "assumptions_hold (\<lambda>_. 2) example_program"
  proof (rule complete_assumptions)
    show "program_complete example_program" by code_simp
    show "plain_program example_program" by code_simp
    show "\<forall>c\<in>set (constraints example_program). satisfies (\<lambda>_. 2) c" by code_simp
  qed
  with stored_programs_typed [OF example_commit_reachable r] show ?thesis
    unfolding example_program_def by blast
qed

text \<open>
  C3. Every action (\<open>apply_action\<close>) keeps the invariant of the transaction under way: a well
  formed and typed graph, bindings that name entries of the graph, and facts that have
  accepted exactly its constraints. Its identifiers are only ever drawn upwards.
\<close>

theorem actions_keep_typing:
  assumes "apply_action m s tx act = Inr tx'" "sound_txn s tx"
  shows "sound_txn s tx' \<and> alloc_le (tx_alloc tx) (tx_alloc tx')"
  using assms by (rule apply_action_sound)

theorem actions_keep_typing_witness:
  "sound_txn core_semantics (projr (apply_action 9 core_semantics
     (projr (start_txn core_semantics default_program default_allocator)) (CreateParameter ''$x'' ''x'' (Scalar I32))))"
proof -
  have "is_ok (start_txn core_semantics default_program default_allocator)" by code_simp
  then have "sound_txn core_semantics (projr (start_txn core_semantics default_program default_allocator))"
    by (rule start_txn_sound(1) [OF is_ok_projr _ default_program_sound]) simp
  moreover have "is_ok (apply_action 9 core_semantics
      (projr (start_txn core_semantics default_program default_allocator)) (CreateParameter ''$x'' ''x'' (Scalar I32)))"
    by code_simp
  ultimately show ?thesis using actions_keep_typing [OF is_ok_projr] by blast
qed

text \<open>
  C4. The references of a client (\<open>resolve_value\<close>) against the table of the protocol. On a well
  formed graph every reference resolves to a value of the graph or is refused with one of two
  errors. A persistent identifier, with or without the at sign, resolves to itself. An index
  resolves to the value of that rank, counted from one, in the order of the identifiers. A name
  that is neither resolves to the parameter of that name, or else to the output. The at sign may
  be left out of anything that is no temporary. A temporary
  resolves to the value it is bound to, or to the placeholder of its hole, and a dimension is no
  value. Temporaries start with a dollar sign, which is part of the invariant \<open>bindings_ok\<close> that
  C3 keeps.
\<close>

theorem references_resolve_exactly:
  assumes "graph_wf a p" "bindings_ok p bs" "in_u64 n" "parse_u64 name = None" "\<not> bmap_contains (vals p) name"
    and "strip_prefix ''$'' r = None" "strip_prefix ''@'' r = None"
  shows "(case resolve_value ref p bs of
      Inr j \<Rightarrow> bmap_contains (vals p) j
    | Inl f \<Rightarrow> \<exists>c m. f = Fail (agent_error_new c m) \<and> c \<in> {UnknownReference, TypeMismatch}) \<and>
   (resolve_value i p bs = Inr i \<longleftrightarrow> bmap_contains (vals p) i) \<and>
   (resolve_value (''@'' @ i) p bs = Inr i \<longleftrightarrow> bmap_contains (vals p) i) \<and>
   (resolve_value (''@'' @ show_nat n) p bs = Inr i \<longleftrightarrow>
      bmap_contains (vals p) i \<and> card {j. bmap_contains (vals p) j \<and> j \<le> i} = n) \<and>
   (resolve_value (''@'' @ name) p bs = Inr i \<longleftrightarrow>
      bmap_get (parameters p) name = Some i \<or>
      bmap_get (parameters p) name = None \<and> bmap_get (outputs p) name = Some i) \<and>
   resolve_value r p bs = resolve_value (''@'' @ r) p bs \<and>
   resolve_value t p (bmap_insert t (BValue i) bs) = Inr i \<and>
   (resolve_value t p (bmap_insert t (BHole k) bs) = Inr i \<longleftrightarrow>
      (\<exists>h. bmap_get (holes p) k = Some h \<and> i = placeholder h)) \<and>
   \<not> is_ok (resolve_value t p (bmap_insert t (BDimension d) bs))"
  by (intro conjI resolve_value_cases [OF assms(1,2)] resolve_identifier [OF assms(1,2)]
      resolve_index [OF assms(1-3)] resolve_name [OF assms(2,4,5)] resolve_bare [OF assms(2,6,7)]
      resolve_temporary)

theorem references_resolve_exactly_witness:
  "resolve_value (''@'' @ ''v3'') example_program [(''$z'', BValue ''v3'')] = Inr ''v3'' \<and>
   resolve_value ''x'' example_program [(''$z'', BValue ''v3'')] =
     resolve_value (''@'' @ ''x'') example_program [(''$z'', BValue ''v3'')]"
proof -
  have v3: "bmap_contains (vals example_program) ''v3''" by code_simp
  have "graph_wf (ws_allocator (fst example_commit)) example_program"
    using reachable_sound [OF example_commit_reachable] is_ok_projr [OF example_revision_ok, unfolded get_revision_Inr]
    unfolding workspace_sound_def sound_graph_def example_program_def by blast
  moreover have "bindings_ok example_program [(''$z'', BValue ''v3'')]"
    using v3 by (simp add: bindings_ok_def binding_ok_def bmap_get_def)
  moreover have "in_u64 1" "parse_u64 ''y'' = None" "\<not> bmap_contains (vals example_program) ''y''"
      "strip_prefix ''$'' ''x'' = None" "strip_prefix ''@'' ''x'' = None" by code_simp+
  ultimately show ?thesis using references_resolve_exactly [of _ example_program _ 1 "''y''" "''x''"] v3 by blast
qed

text \<open>
  C5. An inline region that \<open>build_region\<close> accepts and that captures scalars only is well typed at
  the element types of the operands it is applied to, and yields a scalar of its declared type.
\<close>

theorem accepted_regions_typed:
  assumes "build_region op spec types prog bs facts = Inr (rg, cls, rels)"
    and "expected_region_arguments op types = Inr (map Scalar es)"
    and "\<And>c. c \<in> set (rg_captures rg) \<Longrightarrow> scalar_value_of prog c"
    and "\<And>c def. bmap_get (vals prog) c = Some def \<Longrightarrow> look c = Some (eval_type v (v_ty def))"
  shows "\<exists>y. region_typed look es rg y \<and> rg_yield_type rg = Scalar y"
  using assms by (rule build_region_typed)

theorem accepted_regions_typed_witness:
  "\<exists>y. region_typed (\<lambda>_. None) [I32] example_square y \<and> rg_yield_type example_square = Scalar y"
proof (rule accepted_regions_typed)
  show "build_region Map example_square_spec [vec_n] default_program [] None = Inr (example_square, Legal, [])"
    by code_simp
  show "expected_region_arguments Map [vec_n] = Inr (map Scalar [I32])" by code_simp
qed (simp_all add: example_square_def default_program_def)

text \<open>
  C6. A JSON input that is an array to the same depth everywhere is flattened (\<open>flatten_json\<close>)
  into exactly as many scalars as the extents it reports, so element indices are never out of
  range.
\<close>

theorem uniform_inputs_dense:
  assumes "flatten_json max_elements max_depth j 0 ([], []) = Inr (ext, xs)" "uniform d j" "0 < d"
  shows "length xs = prod_list ext"
  using assms(2,3,1) by (rule flatten_uniform)

theorem uniform_inputs_dense_witness:
  "length [json_int 1, json_int 2, json_int 3, json_int 4, json_int 5, json_int 6] = prod_list [2, 3]"
  by (rule uniform_inputs_dense [where d = 2 and max_elements = 100 and max_depth = 10 and
        j = "JArray [JArray [json_int 1, json_int 2, json_int 3], JArray [json_int 4, json_int 5, json_int 6]]"])
    code_simp+

section \<open>Optimized programs\<close>

text \<open>
  C7. In every state that transactions, candidate operations and equality operations reach, a
  candidate revision without proof debt evaluates like its frozen specification: inputs on which
  the specification gives a result give the same result on the revision. The hypothesis on the
  specification is the one of the evaluation of stored programs.
\<close>

theorem debt_free_candidates_refine:
  assumes "optimizer_reachable enc qenc w"
    and "bmap_get (fo_candidates (se_candidates (op_session w))) cid = Some c"
    and "bmap_get (cd_revisions c) rid = Some r" and "cr_proof_debt r = []"
    and "bmap_get (ws_revisions (se_workspace (op_session w))) (cd_spec_revision c) = Some s"
    and "plain_program (rev_program s)"
    and "evaluate_with_limits (rev_program s) inputs limits = Inr res"
  shows "evaluate_with_limits (impl_as_program (cr_program r)) inputs limits = Inr res"
  using assms by (rule debt_free_refines)

theorem debt_free_candidates_refine_witness:
  "evaluate_with_limits (impl_as_program cast_impl) cast_inputs default_limits = Inr cast_result"
proof -
  have c: "bmap_get (fo_candidates (se_candidates (op_session cast_optimizer))) ''c1'' = Some cast_candidate"
    "bmap_get (cd_revisions cast_candidate) ''cr1'' = Some cast_revision" "cr_proof_debt cast_revision = []"
    by code_simp+
  have s: "bmap_get (ws_revisions (se_workspace (op_session cast_optimizer))) (cd_spec_revision cast_candidate) =
      Some (projr (get_revision (fst cast_commit) ''r1''))"
    using cast_revision_stored(1) by (simp add: cast_optimizer_def cast_candidate_def)
  have "plain_program cast_program" by code_simp
  with debt_free_candidates_refine [OF cast_optimizer_reachable c s, unfolded cast_revision_stored(2)]
    cast_program_evaluates
  show ?thesis by (simp add: cast_revision_def)
qed

text \<open>
  C8. In every reachable state, every program of every revision of an equality space evaluates
  like the program of the root of the space, once the latter is well formed.
\<close>

theorem equality_members_refine_root:
  assumes "optimizer_reachable enc qenc w"
    and "bmap_get (st_spaces (op_equality w)) sid = Some s" "bmap_get (es_revisions s) rid = Some r"
    and "bmap_get (er_nodes r) (es_root_node s) = Some n0" "impl_wf (en_program n0)"
    and "bmap_get (er_nodes r) i = Some n"
    and "evaluate_with_limits (impl_as_program (en_program n0)) inputs limits = Inr res"
  shows "evaluate_with_limits (impl_as_program (en_program n)) inputs limits = Inr res"
  using space_members_refine [OF assms(1-6)] assms(7) by (simp add: preserves_def)

theorem equality_members_refine_root_witness:
  "evaluate_with_limits (impl_as_program copy_impl) cast_inputs default_limits = Inr cast_result"
proof -
  have s: "bmap_get (st_spaces (op_equality cast_optimizer)) ''eqs1'' = Some fixed_space"
    "bmap_get (es_revisions fixed_space) ''er2'' = Some cast_fixed"
    "bmap_get (er_nodes cast_fixed) (es_root_node fixed_space) = Some cast_root"
    by (rule fixed_lookups)+
  have "impl_wf (en_program cast_root)" using cast_impl_wf by (simp add: cast_root_def)
  moreover have "evaluate_with_limits (impl_as_program (en_program cast_root)) cast_inputs default_limits = Inr cast_result"
    using cast_impl_evaluates by (simp add: cast_root_def)
  ultimately have "evaluate_with_limits (impl_as_program (en_program copy_node)) cast_inputs default_limits = Inr cast_result"
    by (rule equality_members_refine_root [OF cast_optimizer_reachable s _ fixed_lookups(4)])
  then show ?thesis by (simp add: copy_node_def)
qed

text \<open>
  C9. A reachable equality revision that is marked as a fixed point is closed under the trusted
  rewrites: every match in every program leads, by an edge, to a program of the revision with the
  hash of the rewritten program. The hypothesis is that the space's counters have not reached
  the largest number, where identifiers would repeat.
\<close>

theorem fixed_points_closed:
  assumes "optimizer_reachable enc qenc w"
    and "bmap_get (st_spaces (op_equality w)) sid = Some s" "bmap_get (es_revisions s) rid = Some r"
    and "er_status r = StatusFixedPoint"
    and "next_node (es_allocator s) < u64_max" "next_edge (es_allocator s) < u64_max"
    and "bmap_get (er_nodes r) i = Some n"
  shows "\<exists>limits ms. production_rewrite_matches (en_program n) limits = Inr ms \<and>
    list_all (match_closed qenc r n) ms"
  using fixed_revision_closed [OF assms] by (simp add: node_closed_def list_all_iff)

theorem fixed_points_closed_witness:
  "\<exists>limits ms. production_rewrite_matches cast_impl limits = Inr ms \<and>
    list_all (match_closed cast_encoders cast_fixed cast_root) ms"
proof -
  have "er_status cast_fixed = StatusFixedPoint" "bmap_get (er_nodes cast_fixed) ''en1'' = Some cast_root"
    "next_node (es_allocator fixed_space) < u64_max" "next_edge (es_allocator fixed_space) < u64_max"
    by code_simp+
  from fixed_points_closed [OF cast_optimizer_reachable fixed_lookups(1,2) this(1,3,4,2)]
  show ?thesis by (simp add: cast_root_def)
qed

text \<open>
  C10. The canonical explanation of a node (\<open>explanation_for\<close>) of a reachable equality revision is
  a path of stored edges from the root to the node, without repetition and within the limit, and
  no path between them is shorter.
\<close>

theorem explanations_shortest:
  assumes "optimizer_reachable enc qenc w"
    and "bmap_get (st_spaces (op_equality w)) sid = Some s" "bmap_get (es_revisions s) rid = Some r"
    and "explanation_for qenc s r target limits = Inr xp"
  shows "shortest r (es_root_node s) (xp_edges xp) target \<and> distinct (map ee_id (xp_edges xp)) \<and>
    length (xp_edges xp) \<le> limit limits EqualityExplanationDepth"
  using explanation_path [OF assms(4) reachable_keyed [OF assms(1-3)]] by blast

theorem explanations_shortest_witness: "shortest cast_fixed ''en1'' [cast_edge] ''en2''"
proof -
  from cast_explained obtain xp where
    "explanation_for cast_encoders fixed_space cast_fixed ''en2'' default_limits = Inr xp" "xp_edges xp = [cast_edge]"
    by (auto simp: rmap_Inr_iff)
  with explanations_shortest [OF cast_optimizer_reachable fixed_lookups(1,2)]
  show ?thesis by (fastforce simp: fixed_space_def cast_space_def)
qed

text \<open>
  C11. The search for an explanation always ends, also on revisions with cycles, whatever their
  edges, and when it reports a node as disconnected while edges are stored under their own
  identifiers, no path leads there.
\<close>

theorem explanation_search_ends:
  "explanation_for enc s r target limits \<noteq> Inl Diverge \<and>
   \<not> (keyed r \<and> explanation_for enc s r target limits = err EqualityPathNotFound m \<and> chain r (es_root_node s) es target)"
  using explanation_ends explanation_complete by blast

text \<open>
  C12. An expansion or saturation that succeeds makes all the progress its fuel allows: it handles
  as many work items as the caller granted or reaches a fixed point, and it reports a fixed point
  exactly when no work is left.
\<close>

theorem expansion_progresses:
  assumes "publish_expansion enc st sid base expected fuel source limits saturating cursor = Inr (st', res)"
  shows "xr_processed res \<le> fuel \<and> (xr_processed res = fuel \<or> xr_status res = StatusFixedPoint) \<and>
    (xr_status res = StatusFixedPoint) = (xr_remaining res = 0)"
  using publish_expansion_count [OF assms] by blast

theorem expansion_progresses_witness:
  "xr_processed cast_expansion \<le> 4 \<and> (xr_processed cast_expansion = 4 \<or> xr_status cast_expansion = StatusFixedPoint) \<and>
    (xr_status cast_expansion = StatusFixedPoint) = (xr_remaining cast_expansion = 0)"
  by (rule expansion_progresses [OF cast_saturated [unfolded saturate_space_def]])

text \<open>
  C13. A trusted rewrite (\<open>apply_known_rewrite\<close>: elimination of casts, folding of constants,
  pruning) of a verified, well-formed implementation gives a well-formed one with the same results.
\<close>

theorem trusted_rewrites_preserve:
  assumes "apply_known_rewrite p rule target = Inr (q, side)" "verify_impl p source limits = Inr ()" "impl_wf p"
  shows "impl_wf q \<and> preserves p q"
  using apply_known_rewrite_preserves [OF assms] verified_rewrite_wf [OF assms] by blast

theorem trusted_rewrites_preserve_witness: "impl_wf copy_impl \<and> preserves cast_impl copy_impl"
  by (rule trusted_rewrites_preserve [OF cast_rewritten cast_verified cast_impl_wf])

text \<open>
  C14. The identity lowering of a well-formed specification (\<open>identity_lower\<close>) gives an
  implementation with the results of the specification.
\<close>

theorem identity_lowering_refines:
  assumes "graph_wf a source" "identity_lower source alloc = Inr (p, alloc')"
    and "evaluate_with_limits source inputs limits = Inr r"
  shows "evaluate_with_limits (impl_as_program p) inputs limits = Inr r"
  using assms by (rule identity_lower_evaluates)

theorem identity_lowering_refines_witness:
  "evaluate_with_limits (impl_as_program cast_impl) cast_inputs default_limits = Inr cast_result \<and>
   is_ok (identity_lower cast_program default_candidate_allocator)"
proof -
  from cast_impl_lowered obtain alloc' where
    "identity_lower cast_program default_candidate_allocator = Inr (cast_impl, alloc')" by (auto simp: rmap_Inr_iff)
  with cast_program_sound show ?thesis
    using identity_lowering_refines [OF _ _ cast_program_evaluates] by auto
qed

text \<open>
  C15. The walk that pruning uses (\<open>reachable_operations\<close>) ends on every implementation, also on
  graphs with cycles.
\<close>

theorem reachability_walk_ends: "reachable_operations p \<noteq> Inl Diverge"
  by (rule reachable_operations_end)

text \<open>
  C16. Without a cycle under its interface the identity lowering of a specification returns: the
  fuel \<open>lowering_fuel\<close> suffices, and any larger fuel gives the same walk, so the model with fuel is
  the recursion of the code without. With a cycle, that is when some operation that a parameter or
  an output depends on depends on itself, the walk succeeds at no depth of recursion and the
  specification is never lowered.
\<close>

theorem lowering_walk_ends:
  "if interface_cycle prog
   then (\<forall>n order. operation_order_within n prog \<noteq> Inr order) \<and> (\<forall>r. identity_lower prog alloc \<noteq> Inr r)
   else identity_lower prog alloc \<noteq> Inl Diverge \<and>
     (\<forall>k. operation_order_within (lowering_fuel prog + k) prog = source_operation_order prog)"
  using cyclic_never_ordered cyclic_never_lowered acyclic_lowering_ends walk_more_fuel by simp

theorem lowering_walk_ends_witness:
  "\<not> is_ok (identity_lower cyclic_program default_candidate_allocator)"
proof -
  have "(''op1'', ''op1'') \<in> depends cyclic_program" by (rule cyclic_depends)
  then have "(''op1'', ''op1'') \<in> (depends cyclic_program)\<^sup>+" by blast
  moreover have "source_op cyclic_program ''v1'' = Some ''op1''" "''v1'' \<in> set (interface_values cyclic_program)"
    by code_simp+
  ultimately have "interface_cycle cyclic_program" unfolding interface_cycle_def by blast
  with lowering_walk_ends [of cyclic_program default_candidate_allocator]
  have "identity_lower cyclic_program default_candidate_allocator \<noteq> Inr r" for r by presburger
  then show ?thesis by (cases "identity_lower cyclic_program default_candidate_allocator") auto
qed

section \<open>Evaluation\<close>

text \<open>
  C17. An evaluation (\<open>evaluate_with_limits\<close>) succeeds exactly when its inputs are accepted and
  every output denotes a value of the reference semantics, which has no memo, no cycle
  detection and no fuel, with a JSON form; the result then holds exactly those JSON values.
\<close>

theorem evaluation_refines_denotation:
  "evaluate_with_limits prog inputs limits = Inr r \<longleftrightarrow>
   (\<exists>params outs. prepare_evaluator prog inputs limits = Inr (params, result_dimensions r) \<and>
      list_all2 (output_denotes prog params) (outputs prog) outs \<and>
      r = \<lparr>result_outputs = bmap_of_list outs, result_dimensions = result_dimensions r\<rparr>)"
  by (rule evaluate_with_limits_iff)

text \<open>
  C18. A primitive operation (\<open>eval_primitive\<close>) on operands of the types it is typed for never
  panics: it returns a value of its type, or one of the errors of its opcode.
\<close>

theorem primitive_evaluation_typed:
  assumes "prim_typing op attrs ts t" "list_all2 value_typed vs ts"
  shows "outcome (\<lambda>v. value_typed v t) (primitive_errors op) (eval_primitive op vs attrs)"
  using assms by (rule eval_primitive_outcome)

theorem primitive_evaluation_typed_witness:
  "outcome (\<lambda>v. value_typed v (I32, None)) (primitive_errors Div)
     (eval_primitive Div [RScalar (VI32 7), RScalar (VI32 0)] [])"
  by (rule primitive_evaluation_typed [where ts = "[(I32, None), (I32, None)]"])
     (auto intro: prim_typing.arith)

text \<open>
  C19. Integer arithmetic (\<open>scalar_binary\<close> on two \<open>i32\<close>) is exact: it returns a word exactly
  when that word is the mathematical result, and fails exactly when the result is out of range;
  division truncates and is considered for divisors other than zero.
\<close>

theorem i32_arithmetic_exact:
  assumes "op \<in> {Add, Sub, Mul, Div}" "op = Div \<Longrightarrow> b \<noteq> 0"
  shows "(scalar_binary op (VI32 a) (VI32 b) = Inr v \<longleftrightarrow>
      (\<exists>w. v = VI32 w \<and> sint w = exact_int op (sint a) (sint b))) \<and>
    ((\<exists>e. scalar_binary op (VI32 a) (VI32 b) = Inl e) \<longleftrightarrow>
      (exact_int op (sint a) (sint b) < - 2147483648 \<or> 2147483647 < exact_int op (sint a) (sint b)))"
  using scalar_binary_exact [OF assms] scalar_binary_overflow [OF assms] by blast

theorem i32_arithmetic_exact_witness:
  "\<exists>e. scalar_binary Div (VI32 0x80000000) (VI32 0xFFFFFFFF) = Inl e"
proof -
  have "exact_int Div (sint (0x80000000 :: i32)) (sint (0xFFFFFFFF :: i32)) = 2147483648" by code_simp
  with i32_arithmetic_exact [of Div "0xFFFFFFFF" "0x80000000"] show ?thesis by simp
qed

text \<open>
  C20. Binary \<open>f32\<close> arithmetic on finite operands is correctly rounded, to nearest with ties to
  even: the result is a canonical single; it is infinite exactly when the exact result is at least
  the midpoint between the largest single and the next power of two, and otherwise the single
  nearest to the exact result, the one with an even significand of two that are equally near. It
  has the sign of the exact result, and an exact zero the sign that the operands give it.
\<close>

theorem f32_arithmetic_rounded:
  assumes "op \<in> {Add, Sub, Mul, Div}" "fp_finite x" "fp_finite y"
    and "scalar_binary op (VF32 x) (VF32 y) = Inr v"
  shows "\<exists>z. v = VF32 z \<and> fp_ok binary32 z \<and>
    correctly_rounded binary32 (zero_sign op x y) (exact_real op (fp_value x) (fp_value y)) z"
  using assms by (rule scalar_binary_f32)

theorem f32_arithmetic_rounded_witness:
  "\<exists>z. VF32 (Fin False 11184811 (- 25)) = VF32 z \<and> fp_ok binary32 z \<and>
    correctly_rounded binary32 False
      (exact_real Div (fp_value (Fin False 8388608 (- 23))) (fp_value (Fin False 12582912 (- 22)))) z"
proof -
  have "zero_sign Div (Fin False 8388608 (- 23)) (Fin False 12582912 (- 22)) = False" by simp
  moreover have "scalar_binary Div (VF32 (Fin False 8388608 (- 23))) (VF32 (Fin False 12582912 (- 22))) =
      Inr (VF32 (Fin False 11184811 (- 25)))" by code_simp
  ultimately show ?thesis
    using f32_arithmetic_rounded [of Div "Fin False 8388608 (- 23)" "Fin False 12582912 (- 22)"]
    by (simp add: fp_finite_def)
qed

text \<open>
  C21. Binding the extents of an input to a symbolic shape (\<open>bind_shape\<close>) is exact: the dimensions
  that agree with the new table are those that agreed with the old one and give the shape these
  extents.
\<close>

theorem shape_binding_exact:
  assumes "bind_shape (zip sh ext) dims = Inr dims'" "length ext = length sh"
  shows "agrees v dims' \<longleftrightarrow> agrees v dims \<and> eval_shape v sh = map int ext"
  using assms by (rule bind_shape_exact)

theorem shape_binding_exact_witness:
  "agrees (\<lambda>_. 3) [(''N'', 3)] \<longleftrightarrow>
    agrees (\<lambda>_. 3) [] \<and> eval_shape (\<lambda>_. 3) [Affine 2 ''N'' 1, Symbol ''N''] = map int [7, 3]"
proof (rule shape_binding_exact)
  show "bind_shape (zip [Affine 2 ''N'' 1, Symbol ''N''] [7, 3]) [] = Inr [(''N'', 3)]" by code_simp
qed simp

text \<open>
  C22. When the binding of one extent fails with an error, no dimensions that agree with the table
  give the expression that extent.
\<close>

theorem dimension_binding_rejects:
  assumes "bind_dimension d n dims = Inl (Fail e)" "int n \<le> i64_max"
  shows "\<not> (agrees v dims \<and> eval_dim v d = int n)"
  using assms by (rule bind_dimension_rejected)

theorem dimension_binding_rejects_witness:
  "\<not> (agrees (\<lambda>_. 1) [] \<and> eval_dim (\<lambda>_. 1) (Affine 2 ''N'' 1) = int 4)"
proof (rule dimension_binding_rejects)
  show "bind_dimension (Affine 2 ''N'' 1) 4 [] = Inl (Fail (agent_error_new EvaluationInputMismatch
      ''cannot solve affine dimension `{expression}` for extent {actual}''))" by code_simp
qed (simp add: i64_max_def)

text \<open>
  C23. When the preflight passes, the bound dimensions satisfy every constraint of the program and
  every tensor value has extents whose element count is within its limit, before any element is
  computed.
\<close>

theorem preflight_guarantees:
  assumes "preflight_evaluation prog dims limits = Inr ()" "agrees v dims"
  shows "(\<forall>c\<in>set (constraints prog). satisfies v c) \<and>
    (\<forall>def\<in>set (bmap_values (vals prog)). \<forall>e sh. v_ty def = Tensor e sh \<longrightarrow>
      (\<exists>ext. eval_shape v sh = map int ext \<and> prod_list ext \<le> evaluation_tensor_elements limits))"
  using preflight_sound [OF assms] by blast

theorem preflight_guarantees_witness:
  "satisfies (\<lambda>_. 2) (Equal [Symbol ''N''] [Symbol ''M''])"
proof -
  have "preflight_evaluation example_program [(''M'', 2), (''N'', 2)] default_limits = Inr ()" by code_simp
  moreover have "agrees (\<lambda>_. 2) [(''M'', 2), (''N'', 2)]" by (simp add: agrees_def bmap_get_def)
  moreover have "Equal [Symbol ''N''] [Symbol ''M''] \<in> set (constraints example_program)" by code_simp
  ultimately show ?thesis using preflight_guarantees by blast
qed

section \<open>Workspaces\<close>

text \<open>
  C24. In every workspace that transactions, forks and changes of limits can reach, each stored
  revision is filed under its own identifier with parents of smaller number, a frozen revision
  is complete and carries the hash of its canonical form, and its summary and content hash are
  those of its program.
\<close>

theorem reachable_workspace_invariant:
  assumes "reachable enc ws"
  shows "workspace_inv enc ws"
  using assms by (rule reachable_inv)

theorem reachable_workspace_invariant_witness:
  "workspace_inv example_encoders (fst example_commit)"
  by (rule reachable_workspace_invariant [OF example_commit_reachable])

text \<open>
  C25. A committed transaction on a reachable workspace stores one revision under a fresh
  identifier, whose parent is the base it named and whose hash is the one it reports, makes it
  the head and leaves every older revision as it was.
\<close>

theorem transaction_appends_revision:
  assumes "reachable enc ws" "apply_with_semantics_at enc ws tx s now = Inr (ws', cm)"
  shows "\<not> bmap_contains (ws_revisions ws) (cm_revision cm) \<and> ws_head ws' = cm_revision cm \<and>
    (\<exists>r. bmap_get (ws_revisions ws') (cm_revision cm) = Some r \<and> rev_parents r = [base_revision tx] \<and>
       rev_content_hash r = cm_content_hash cm) \<and>
    (\<forall>k. k \<noteq> cm_revision cm \<longrightarrow> bmap_get (ws_revisions ws') k = bmap_get (ws_revisions ws) k)"
proof -
  from assms(2) obtain r where "bmap_get (ws_revisions ws') (cm_revision cm) = Some r"
      "rev_parents r = [base_revision tx]" "rev_content_hash r = cm_content_hash cm"
    by (rule commit_revision)
  with apply_inv(2-4) [OF assms(2) reachable_inv [OF assms(1)]] show ?thesis by blast
qed

theorem transaction_appends_revision_witness:
  "bmap_get (ws_revisions (fst example_commit)) ''r0'' = bmap_get (ws_revisions example_start) ''r0''"
proof -
  have "cm_revision (snd example_commit) \<noteq> ''r0''" by code_simp
  with transaction_appends_revision [OF reachable.create [OF example_start_ok] example_commit_ok]
  show ?thesis by metis
qed

text \<open>
  C26. A transaction whose base is frozen is accepted only as a single \<open>fork_revision\<close>, and the
  revision it creates has the program of its base: frozen specifications never change.
\<close>

theorem frozen_specification_immutable:
  assumes "apply_with_semantics_at enc ws tx s now = Inr (ws', cm)"
    and "bmap_get (ws_revisions ws) (base_revision tx) = Some base" "frozen (rev_program base)"
  shows "tx_actions tx = [ForkRevision] \<and>
    (\<exists>r. bmap_get (ws_revisions ws') (cm_revision cm) = Some r \<and> rev_program r = rev_program base)"
  using frozen_base [OF assms] by blast

theorem frozen_specification_immutable_witness:
  "\<exists>r. bmap_get (ws_revisions (fst example_branch)) (cm_revision (snd example_branch)) = Some r \<and>
    rev_program r = rev_program (projr (get_revision (fst example_commit) ''r1''))"
proof -
  note base = is_ok_projr [OF example_revision_ok, unfolded get_revision_Inr]
  have "base_revision example_branch_transaction = ''r1''" by code_simp
  moreover have "frozen (rev_program (projr (get_revision (fst example_commit) ''r1'')))" by code_simp
  ultimately show ?thesis
    using frozen_specification_immutable [OF example_branch_ok, of "projr (get_revision (fst example_commit) ''r1'')"] base
    by simp
qed

text \<open>
  C27. A fork of a reachable workspace keeps the invariant, stores one revision under a fresh
  identifier with the program and the hashes of its base, and leaves every other revision alone.
\<close>

theorem fork_copies_base:
  assumes "reachable enc ws" "fork_with_semantics_at ws b s now = Inr (ws', rid)"
  shows "workspace_inv enc ws' \<and> \<not> bmap_contains (ws_revisions ws) rid \<and>
    (\<forall>k. k \<noteq> rid \<longrightarrow> bmap_get (ws_revisions ws') k = bmap_get (ws_revisions ws) k) \<and>
    (\<exists>r r'. bmap_get (ws_revisions ws) b = Some r \<and> bmap_get (ws_revisions ws') rid = Some r' \<and>
        rev_program r' = rev_program r \<and> rev_content_hash r' = rev_content_hash r \<and>
        rev_spec_hash r' = rev_spec_hash r)"
  using fork_inv [OF assms(2) reachable_inv [OF assms(1)]] by blast

theorem fork_copies_base_witness:
  "workspace_inv example_encoders (fst (projr (fork_with_semantics_at example_start ''r0'' core_semantics 5)))"
proof -
  have "is_ok (fork_with_semantics_at example_start ''r0'' core_semantics 5)" by code_simp
  from is_ok_projr [OF this]
  have "fork_with_semantics_at example_start ''r0'' core_semantics 5 =
      Inr (fst (projr (fork_with_semantics_at example_start ''r0'' core_semantics 5)),
           snd (projr (fork_with_semantics_at example_start ''r0'' core_semantics 5)))" by simp
  from fork_copies_base [OF reachable.create [OF example_start_ok] this] show ?thesis by blast
qed



text \<open>
  C29. A structural diff of two revisions is a patch: it turns the outputs of the first into
  those of the second, and the names of its values, operations and holes likewise.
\<close>

theorem diff_is_a_patch:
  "(\<forall>n. bmap_get (outputs (rev_program to)) n =
      (case bmap_get (outputs_changed (diff from to)) n of
         None \<Rightarrow> bmap_get (outputs (rev_program from)) n | Some (old, new) \<Rightarrow> new)) \<and>
   (\<forall>k. bmap_contains (operations (rev_program to)) k \<longleftrightarrow>
      (bmap_contains (operations (rev_program from)) k \<and> k \<notin> set (operations_removed (diff from to))) \<or>
      k \<in> set (operations_added (diff from to))) \<and>
   (\<forall>k. bmap_contains (vals (rev_program to)) k \<longleftrightarrow>
      (bmap_contains (vals (rev_program from)) k \<and> k \<notin> set (values_removed (diff from to))) \<or>
      k \<in> set (values_added (diff from to))) \<and>
   (\<forall>k. bmap_contains (holes (rev_program to)) k \<longleftrightarrow>
      (bmap_contains (holes (rev_program from)) k \<and> k \<notin> set (holes_removed (diff from to))) \<or>
      k \<in> set (holes_added (diff from to)))"
  by (intro conjI allI) (rule diff_patches)+

section \<open>Inference\<close>

text \<open>
  C30. When the inference of a primitive operation with accepted facts
  (\<open>infer_primitive_with_facts\<close>) answers, the operation is well typed at a valuation that
  satisfies the facts exactly when the shape relations it reports hold there, and the only type
  it then has is the inferred one.
\<close>

theorem primitive_inference_exact:
  assumes "infer_primitive_with_facts op operands attrs f = Inr i" "facts_inv f" "admits f v"
  shows "prim_typing op attrs (map (eval_type v) operands) r \<longleftrightarrow>
    relations_hold v (shape_relations i) \<and> r = eval_type v (inf_ty i)"
  using infer_primitive_impl_exact [OF assms(1) [unfolded infer_primitive_with_facts_def] assms(2,3)] .

theorem primitive_inference_exact_witness:
  "prim_typing Add [] (map (eval_type (\<lambda>_. 2)) [vec_n, vec_m]) (I32, Some [2])"
proof -
  have "infer_primitive_with_facts Add [vec_n, vec_m] [] example_facts =
      Inr \<lparr>inf_ty = vec_n, classification = Legal, shape_relations = []\<rparr>" by code_simp
  from primitive_inference_exact [OF this example_facts_inv example_facts_admit, of "(I32, Some [2])"]
  show ?thesis by simp
qed

text \<open>
  C31. When that inference refuses an operation for any reason but an undeclared dimension, the
  operation has no type at any valuation that satisfies the facts.
\<close>

theorem primitive_inference_rejects:
  assumes "infer_primitive_with_facts op operands attrs f = Inl (Fail e)" "code e \<noteq> InvalidConstraint"
    and "facts_inv f" "admits f v"
  shows "\<not> prim_typing op attrs (map (eval_type v) operands) r"
  using assms unfolding infer_primitive_with_facts_def by (rule infer_primitive_impl_rejected)

theorem primitive_inference_rejects_witness:
  "\<not> prim_typing Add [] (map (eval_type (\<lambda>_. 2)) [vec_n, Tensor F32 [Symbol ''M'']]) (I32, Some [2])"
proof (rule primitive_inference_rejects [OF _ _ example_facts_inv example_facts_admit])
  show "infer_primitive_with_facts Add [vec_n, Tensor F32 [Symbol ''M'']] [] example_facts =
      Inl (Fail (agent_error_new TypeMismatch ''operand types differ''))" by code_simp
qed (simp add: agent_error_new_def)

text \<open>
  C32. The same holds for \<open>map\<close>, \<open>zip_map\<close> and \<open>reduce\<close> (\<open>infer_higher_with_facts\<close>): the
  region yields a scalar, and the operation is well typed exactly when the reported relations
  hold, with exactly the inferred type.
\<close>

theorem higher_inference_exact:
  assumes "infer_higher_with_facts op operands rg f = Inr i" "facts_inv f" "admits f v"
    and "op \<in> {Map, ZipMap, Reduce}"
  shows "\<exists>y. rg_yield_type rg = Scalar y \<and>
    (higher_typing op (length (rg_arguments rg)) y (map (eval_type v) operands) r \<longleftrightarrow>
     relations_hold v (shape_relations i) \<and> r = eval_type v (inf_ty i))"
  using assms unfolding infer_higher_with_facts_def by (rule infer_higher_impl_exact)

theorem higher_inference_exact_witness:
  "\<exists>y. rg_yield_type example_square = Scalar y \<and>
    (higher_typing Map (length (rg_arguments example_square)) y (map (eval_type (\<lambda>_. 2)) [vec_n]) (I32, Some [2]) \<longleftrightarrow>
     relations_hold (\<lambda>_. 2) [] \<and> (I32, Some [2]) = eval_type (\<lambda>_. 2) vec_n)"
proof -
  have "infer_higher_with_facts Map [vec_n] example_square example_facts = Inr (legal_inference vec_n)"
    by code_simp
  from higher_inference_exact [OF this example_facts_inv example_facts_admit, of "(I32, Some [2])"]
  show ?thesis by (simp add: legal_inference_def)
qed

text \<open>
  C33. Without facts (\<open>infer_primitive\<close>, the first semantics) a legal answer is sound at every
  valuation of the dimensions.
\<close>

theorem legacy_inference_legal:
  assumes "infer_primitive op operands attrs = Inr i" "classification i = Legal"
  shows "prim_typing op attrs (map (eval_type v) operands) (eval_type v (inf_ty i))"
  using assms by (rule infer_primitive_legal)

theorem legacy_inference_legal_witness:
  "prim_typing Fma [] (map (eval_type (\<lambda>_. 7)) [vec_n, vec_n, vec_n]) (eval_type (\<lambda>_. 7) vec_n)"
proof -
  have "infer_primitive Fma [vec_n, vec_n, vec_n] [] = Inr (legal_inference vec_n)" by code_simp
  from legacy_inference_legal [OF this, of "\<lambda>_. 7"] show ?thesis by (simp add: legal_inference_def)
qed

section \<open>Shape constraints\<close>

text \<open>
  C34. Inserting a constraint whose dimensions are declared (\<open>ConstraintFacts::insert\<close>) either
  keeps the invariant of the facts, adds exactly the constraint and reports it proved, or fails
  with a contradiction, and then no valuation satisfies the accepted facts and the constraint.
\<close>

theorem insertion_exact:
  assumes "facts_inv f" "declared f c"
  shows "(\<exists>f' p. insert_constraint f c = Inr (f', QProved p) \<and> facts_inv f' \<and>
            set (accepted f') = insert c (set (accepted f)) \<and>
            (\<forall>k. bmap_contains (parent f') k \<longleftrightarrow> bmap_contains (parent f) k)) \<or>
         ((\<exists>ae. insert_constraint f c = Inl (Fail ae) \<and> code ae = ConstraintContradiction) \<and>
            (\<forall>v. admits f v \<longrightarrow> \<not> satisfies v c))"
  using assms by (rule insert_constraint_cases)

lemma example_conflict_declared: "declared example_facts (Equal [Affine 1 ''N'' 1] [Symbol ''M''])"
  by code_simp

theorem insertion_exact_witness:
  "\<not> satisfies (\<lambda>_. 2) (Equal [Affine 1 ''N'' 1] [Symbol ''M''])"
proof -
  have "\<not> is_ok (insert_constraint example_facts (Equal [Affine 1 ''N'' 1] [Symbol ''M'']))" by code_simp
  with insertion_exact [OF example_facts_inv example_conflict_declared] example_facts_admit show ?thesis by auto
qed

text \<open>
  C35. The facts that a program's dimensions and constraints build (\<open>from_program\<close>) satisfy the
  invariant: the table of roots is flat, every binding belongs to a root, and whatever satisfies
  the constraints agrees with every root and binding; they accept exactly those constraints.
\<close>

theorem program_facts_invariant:
  assumes "facts_from_program prog = Inr f"
  shows "facts_inv f \<and> set (accepted f) = set (constraints prog)"
  using facts_of_inv [OF assms [unfolded facts_from_program_def]] by simp

theorem program_facts_invariant_witness:
  "set (accepted (projr (facts_from_program example_program))) = {Equal [Symbol ''N''] [Symbol ''M'']}"
proof -
  have "is_ok (facts_from_program example_program)" by code_simp
  from program_facts_invariant [OF is_ok_projr [OF this]]
  have "set (accepted (projr (facts_from_program example_program))) = set (constraints example_program)" by simp
  moreover have "constraints example_program = [Equal [Symbol ''N''] [Symbol ''M'']]" by code_simp
  ultimately show ?thesis by simp
qed

text \<open>
  C36. A query (\<open>query_shapes\<close>) that answers \<open>proved\<close> is right at every valuation that satisfies
  the facts, and so is one that answers \<open>contradiction\<close>; a query about declared dimensions always
  answers.
\<close>

theorem query_sound_total:
  assumes "facts_inv f" "declared f (Equal l r)"
  shows "\<exists>q. query_shapes f l r = Inr q \<and>
    (\<forall>v. admits f v \<longrightarrow>
       (case q of QProved _ \<Rightarrow> eval_shape v l = eval_shape v r
        | QContradiction _ \<Rightarrow> eval_shape v l \<noteq> eval_shape v r | QUnknown \<Rightarrow> True))"
proof -
  from query_shapes_total [OF facts_inv_wf [OF assms(1)] assms(2)]
  obtain q where q: "query_shapes f l r = Inr q" by blast
  with query_shapes_sound [OF assms(1) _ q] show ?thesis by (cases q) auto
qed

theorem query_sound_total_witness:
  "\<exists>q. query_shapes example_facts [Symbol ''N''] [Symbol ''M''] = Inr q"
proof -
  have "declared example_facts (Equal [Symbol ''N''] [Symbol ''M''])" by code_simp
  from query_sound_total [OF example_facts_inv this] show ?thesis by blast
qed

text \<open>
  C37. The solver without facts (\<open>same_shape\<close>) is sound at every valuation for both of its
  definite answers, and its answer does not depend on the order of the shapes.
\<close>

theorem shape_solver_sound:
  "same_shape r l = same_shape l r \<and>
   (case same_shape l r of
      Proved \<Rightarrow> \<forall>v. eval_shape v l = eval_shape v r
    | Contradiction \<Rightarrow> \<forall>v. eval_shape v l \<noteq> eval_shape v r
    | Unknown \<Rightarrow> True)"
  using same_shape_proved [of l r] same_shape_contradiction [of l r] same_shape_sym [of r l]
  by (simp split: solver_status.split)

section \<open>Types\<close>

text \<open>
  C38. Printing and parsing of types (\<open>Display\<close> and \<open>FromStr\<close> of \<open>Type\<close>) are inverse: a
  type that its range checks admit is read back, and exactly those types are ever read.
\<close>

theorem type_text_roundtrip:
  "(if ty_wf t then parse_type (show_type t) = Inr t else \<forall>s. parse_type s \<noteq> Inr t)"
  using type_codec.roundtrip [of t] type_codec.parse_wf [of _ t] by auto

text \<open>
  C39. A number given for an \<open>f32\<close> constant is stored as hexadecimal text and read back by the
  interpreter as exactly the single nearest to it (\<open>from_json\<close>, \<open>as_f32\<close>).
\<close>

theorem f32_constant_survives:
  assumes "as_f64 value = Some number"
  shows "\<exists>c. from_json F32 value = Inr c \<and>
    constant_runtime c = Inr (RScalar (VF32 (fp_convert binary32 number)))"
  using assms by (rule f32_constant_roundtrip)

theorem f32_constant_survives_witness:
  "\<exists>c. from_json F32 (json_int 3) = Inr c \<and>
    constant_runtime c = Inr (RScalar (VF32 (fp_convert binary32 (fp_of_int binary64 3))))"
  by (rule f32_constant_survives) (simp add: json_int_def)

section \<open>Budgets\<close>

text \<open>
  C40. A committed program is within the limits of its workspace: under limits within the hard
  caps, the revision that a transaction stores has at most the permitted number of dimensions,
  operations, values, holes, constraints (those of its holes included) and outputs, and of
  obligations when its base has. The preflight that counts the actions beforehand thus never
  counts too little.
\<close>

theorem commits_within_limits:
  assumes "reachable enc ws" "apply_with_semantics_at enc ws tx s now = Inr (ws', cm)"
    and "limits_within (ws_limits ws) hard_safety_caps"
    and "bmap_get (ws_revisions ws) (base_revision tx) = Some base"
    and "length (obligations (rev_program base)) \<le> limit (ws_limits ws) ObligationsPerProgram"
  shows "\<exists>r. bmap_get (ws_revisions ws') (cm_revision cm) = Some r \<and> within_limits (ws_limits ws) (rev_program r) \<and>
    length (obligations (rev_program r)) \<le> limit (ws_limits ws) ObligationsPerProgram"
  using committed_within_limits [OF assms(1,2) capped_limits [OF assms(3)] assms(4)] assms(5) by blast

theorem commits_within_limits_witness:
  "\<exists>r. bmap_get (ws_revisions (fst example_commit)) (cm_revision (snd example_commit)) = Some r \<and>
    within_limits (ws_limits example_start) (rev_program r) \<and>
    length (obligations (rev_program r)) \<le> limit (ws_limits example_start) ObligationsPerProgram"
proof -
  have "is_ok (get_revision example_start (base_revision example_transaction))" by code_simp
  note base = is_ok_projr [OF this, unfolded get_revision_Inr]
  have "ws_limits example_start = default_limits" by code_simp
  with default_within_caps have caps: "limits_within (ws_limits example_start) hard_safety_caps" by simp
  have "length (obligations (rev_program (projr (get_revision example_start (base_revision example_transaction))))) \<le>
      limit (ws_limits example_start) ObligationsPerProgram" by code_simp
  from commits_within_limits [OF reachable.create [OF example_start_ok] example_commit_ok caps base this]
  show ?thesis .
qed

end
